(* ===== verification/Prelude.thy ===== *)
theory Prelude
  imports Main "HOL-Library.Word" "HOL-Library.Monad_Syntax"
begin

text \<open>
  Shared vocabulary of the development: the machine integer types of the Go sources, the
  conventions for Go run-time panics and slice indexing, little-endian decoding, and the
  binary search of the Go standard library (\<open>sort.Search\<close>, used directly and through
  \<open>slices.BinarySearchFunc\<close>) with the contract its clients rely on.

  Conventions. A Go run-time panic is the value \<open>None\<close> of an option; errors returned by
  the code are values of an error datatype inside the \<open>Some\<close>. A Go slice is a list; its
  length is a Go \<open>int\<close>, so that it is below \<open>2 ^ 63\<close>, and an index is in range
  when it is below that length.
\<close>

unbundle bit_operations_syntax

section \<open>Machine integers\<close>

type_synonym byte = "8 word"
type_synonym u8 = "8 word"
type_synonym u16 = "16 word"
type_synonym u32 = "32 word"
type_synonym u64 = "64 word"
type_synonym uintptr = "64 word"
type_synonym int16 = "16 word"
type_synonym int32 = "32 word"
type_synonym int64 = "64 word"

named_theorems model_defs \<open>unfolding equations of the small accessors of the model\<close>
named_theorems pos_lems \<open>how an operation moves the position of a reader\<close>
named_theorems inv_rules \<open>operations that keep the invariant of their component\<close>

text \<open>
  \<open>pred_option P m\<close>: whatever \<open>m\<close> returns, if it does not panic, satisfies
  \<open>P\<close>; the rule for the sequencing of two computations.
\<close>

lemma pred_option_bind: "(\<And>x. m = Some x \<Longrightarrow> pred_option P (f x)) \<Longrightarrow> pred_option P (m \<bind> f)"
  by (cases m) simp_all

lemma pred_optionD: "pred_option P m \<Longrightarrow> m = Some x \<Longrightarrow> P x"
  by simp

lemma unat_u64_less: "unat (w :: u64) < 2 ^ 64"
  using unsigned_less [of w, where 'a = nat] by simp

section \<open>Go slices\<close>

text \<open>The check Go makes before \<open>xs[i]\<close>; a slice has fewer than \<open>2 ^ 63\<close> elements.\<close>

definition go_index_ok :: "u64 \<Rightarrow> 'a list \<Rightarrow> bool" where
  "go_index_ok i xs \<longleftrightarrow> unat i < min (length xs) (2 ^ 63)"

text \<open>The check Go makes before \<open>xs[lo:hi]\<close> on a slice whose capacity is its length.\<close>

definition go_slice_ok :: "u64 \<Rightarrow> u64 \<Rightarrow> 'a list \<Rightarrow> bool" where
  "go_slice_ok lo hi xs \<longleftrightarrow> lo \<le> hi \<and> unat hi \<le> min (length xs) (2 ^ 63)"

definition go_slice :: "u64 \<Rightarrow> u64 \<Rightarrow> 'a list \<Rightarrow> 'a list" where
  "go_slice lo hi xs = take (unat hi - unat lo) (drop (unat lo) xs)"

lemma go_index_okD:
  assumes "go_index_ok i xs"
  shows "unat i < length xs" and "unat i < 2 ^ 63"
  using assms by (simp_all add: go_index_ok_def)

lemma length_go_slice:
  assumes "go_slice_ok lo hi xs"
  shows "length (go_slice lo hi xs) = unat (hi - lo)"
proof -
  have "unat lo \<le> unat hi" and "unat hi \<le> length xs"
    using assms by (auto simp: go_slice_ok_def word_le_nat_alt)
  then show ?thesis
    by (simp add: go_slice_def unat_sub word_le_nat_alt)
qed

section \<open>Little-endian decoding\<close>

text \<open>
  \<open>*(*uint32)(p)\<close> and its kin read native-endian integers; the supported hosts
  (x86-64, arm64) are little-endian.
\<close>

fun le_nat :: "byte list \<Rightarrow> nat" where
  "le_nat [] = 0"
| "le_nat (b # bs) = unat b + 256 * le_nat bs"

lemma le_nat_bound: "le_nat bs < 256 ^ length bs"
proof (induction bs)
  case Nil
  then show ?case by simp
next
  case (Cons b bs)
  have "unat b < 256" using unsigned_less [of b] by simp
  moreover have "256 * le_nat bs \<le> 256 * (256 ^ length bs - 1)"
    using Cons.IH by (intro mult_le_mono2) linarith
  moreover have "(256::nat) * (256 ^ length bs - 1) = 256 ^ length (b # bs) - 256"
    by (simp add: right_diff_distrib')
  moreover have "(256::nat) \<le> 256 ^ length (b # bs)" by simp
  ultimately show ?case unfolding le_nat.simps by linarith
qed

lemma le_nat_replicate_0 [simp]: "le_nat (replicate n 0) = 0"
  by (induction n) simp_all

section \<open>Words\<close>

lemma unat_add_no_wrap:
  fixes a b :: "'a::len word"
  assumes "unat a + unat b < 2 ^ LENGTH('a)"
  shows "unat (a + b) = unat a + unat b"
  using assms by (simp add: unat_word_ariths)

lemma unat_Suc_no_wrap:
  fixes a :: "'a::len word"
  assumes "unat a < n" and "n < 2 ^ LENGTH('a)"
  shows "unat (a + 1) = Suc (unat a)"
  using assms by (simp add: unat_word_ariths)

text \<open>Adding a value that lives inside a mask to one that avoids it keeps both apart.\<close>

lemma and_zero_NOT: "a AND m = 0 \<Longrightarrow> a AND NOT m = a" for a :: "'a::len word"
  by (auto simp: bit_eq_iff bit_simps)

lemma and_NOT_zero: "a AND NOT m = 0 \<Longrightarrow> a AND m = a" for a :: "'a::len word"
  by (auto simp: bit_eq_iff bit_simps)

lemma and_disjoint: "a AND m = 0 \<Longrightarrow> k AND NOT m = 0 \<Longrightarrow> a AND k = 0" for a :: "'a::len word"
  by (auto simp: bit_eq_iff bit_simps)

lemma masked_add:
  fixes a k m :: "'a::len word"
  assumes a: "a AND m = 0" and k: "k AND NOT m = 0"
  shows "(a + k) AND NOT m = a" and "(a + k) AND m = k"
proof -
  have "a + k = a OR k"
    using and_disjoint [OF a k] by (rule disjunctive_add_eq_or)
  then show "(a + k) AND NOT m = a" and "(a + k) AND m = k"
    using a k and_zero_NOT [OF a] and_NOT_zero [OF k] by (simp_all add: bit.conj_disj_distrib2)
qed

section \<open>Binary search\<close>

text \<open>
  \<open>sort.Search(n, p)\<close>: the loop halves \<open>[i, j)\<close> with
  \<open>h := (i + j) >> 1\<close>, keeping \<open>p\<close> false below \<open>i\<close> and true from \<open>j\<close> on.
\<close>

function search_loop :: "(nat \<Rightarrow> bool) \<Rightarrow> nat \<Rightarrow> nat \<Rightarrow> nat" where
  "search_loop p i j =
     (if i < j
      then let h = (i + j) div 2
           in if \<not> p h then search_loop p (h + 1) j else search_loop p i h
      else i)"
  by pat_completeness auto
termination
  by (relation "measure (\<lambda>(p, i, j). j - i)") auto

declare search_loop.simps [simp del]

definition sort_Search :: "nat \<Rightarrow> (nat \<Rightarrow> bool) \<Rightarrow> nat" where
  "sort_Search n p = search_loop p 0 n"

text \<open>
  \<open>slices.BinarySearchFunc(xs, target, cmp)\<close>: the same loop with the predicate
  \<open>cmp(x, target) >= 0\<close>, and whether the element found compares equal.
\<close>

definition binarySearchFunc :: "'a list \<Rightarrow> ('a \<Rightarrow> int) \<Rightarrow> nat \<times> bool" where
  "binarySearchFunc xs c =
     (let i = sort_Search (length xs) (\<lambda>h. \<not> c (xs ! h) < 0)
      in (i, i < length xs \<and> c (xs ! i) = 0))"

text \<open>\<open>cmp.Compare\<close> on unsigned integers.\<close>

definition cmp_Compare :: "'a::linorder \<Rightarrow> 'a \<Rightarrow> int" where
  "cmp_Compare a b = (if a < b then - 1 else if b < a then 1 else 0)"

lemma cmp_Compare_simps [simp]:
  "cmp_Compare a b < 0 \<longleftrightarrow> a < b"
  "cmp_Compare a b = 0 \<longleftrightarrow> a = b"
  by (auto simp: cmp_Compare_def)

definition upward :: "nat \<Rightarrow> (nat \<Rightarrow> bool) \<Rightarrow> bool" where
  "upward n p \<longleftrightarrow> (\<forall>i j. i \<le> j \<longrightarrow> j < n \<longrightarrow> p i \<longrightarrow> p j)"

lemma upwardD: "upward n p \<Longrightarrow> i \<le> j \<Longrightarrow> j < n \<Longrightarrow> p i \<Longrightarrow> p j"
  by (auto simp: upward_def)

text \<open>
  The contract of a search over an index range: the clients see only that the predicate is
  false strictly below the returned index and true from it on, provided that it is upward
  closed on the range.
\<close>

locale index_search =
  fixes search :: "nat \<Rightarrow> (nat \<Rightarrow> bool) \<Rightarrow> nat"
  assumes search_le: "search n p \<le> n"
    and search_below: "upward n p \<Longrightarrow> k < search n p \<Longrightarrow> \<not> p k"
    and search_above: "upward n p \<Longrightarrow> search n p \<le> k \<Longrightarrow> k < n \<Longrightarrow> p k"
begin

text \<open>The index before the one found is the last at which the predicate fails.\<close>

lemma search_pred_last:
  assumes mono: "upward n p" and k: "k < n" "\<not> p k"
    and after: "\<And>m. k < m \<Longrightarrow> m < n \<Longrightarrow> p m"
  shows "search n p = Suc k"
proof (rule antisym)
  show "search n p \<le> Suc k"
  proof (rule ccontr)
    assume "\<not> search n p \<le> Suc k"
    then have lt: "Suc k < search n p" by simp
    then have "Suc k < n" using search_le [of n p] by linarith
    moreover have "\<not> p (Suc k)" using search_below [OF mono lt] .
    ultimately show False using after [of "Suc k"] by simp
  qed
  show "Suc k \<le> search n p"
    using search_above [OF mono, of k] k by (meson not_less_eq_eq)
qed

lemma search_first:
  assumes mono: "upward n p" and k: "k < n" "p k" and before: "\<And>m. m < k \<Longrightarrow> \<not> p m"
  shows "search n p = k"
proof (rule antisym)
  show "search n p \<le> k"
    using search_below [OF mono, of k] k(2) not_le_imp_less by blast
  show "k \<le> search n p"
  proof (rule ccontr)
    assume "\<not> k \<le> search n p"
    then have "search n p < k" by simp
    moreover from this have "p (search n p)"
      using search_above [OF mono, of "search n p"] k(1) by simp
    ultimately show False using before by blast
  qed
qed

lemma search_eq_0:
  assumes mono: "upward n p" and all: "\<And>m. m < n \<Longrightarrow> p m"
  shows "search n p = 0"
proof (rule ccontr)
  assume "search n p \<noteq> 0"
  then have lt: "0 < search n p" by simp
  then have "\<not> p 0" using search_below [OF mono] by blast
  then show False using all [of 0] search_le [of n p] lt by simp
qed

end

lemma search_loop_stop: "\<not> i < j \<Longrightarrow> search_loop p i j = i"
  by (simp add: search_loop.simps)

lemma search_loop_right:
  "i < j \<Longrightarrow> \<not> p ((i + j) div 2) \<Longrightarrow> search_loop p i j = search_loop p (Suc ((i + j) div 2)) j"
  by (subst search_loop.simps) (simp add: Let_def)

lemma search_loop_left:
  "i < j \<Longrightarrow> p ((i + j) div 2) \<Longrightarrow> search_loop p i j = search_loop p i ((i + j) div 2)"
  by (subst search_loop.simps) (simp add: Let_def)

lemma search_loop_split:
  assumes "upward n p" and "i \<le> j" and "j \<le> n"
    and "\<And>k. k < i \<Longrightarrow> \<not> p k" and "\<And>k. j \<le> k \<Longrightarrow> k < n \<Longrightarrow> p k"
  shows "(\<forall>k < search_loop p i j. \<not> p k) \<and> (\<forall>k. search_loop p i j \<le> k \<longrightarrow> k < n \<longrightarrow> p k)"
  using assms
proof (induction p i j rule: search_loop.induct)
  case (1 p i j)
  let ?h = "(i + j) div 2"
  consider (stop) "\<not> i < j" | (right) "i < j" "\<not> p ?h" | (left) "i < j" "p ?h" by blast
  then show ?case
  proof cases
    case stop
    then show ?thesis using "1.prems" by (auto simp: search_loop_stop)
  next
    case right
    have "?h < n" using right(1) "1.prems"(3) by simp
    then have "\<not> p k" if "k < ?h + 1" for k
      using right(2) upwardD [OF "1.prems"(1), of k ?h] that by auto
    then show ?thesis
      unfolding search_loop_right [of i j p, OF right]
      using right "1.IH"(1) [OF right(1) refl right(2) "1.prems"(1)] "1.prems"(3,5) by simp
  next
    case left
    then have h: "i \<le> ?h" "?h \<le> n" "\<not> \<not> p ?h" using "1.prems"(3) by simp_all
    have above: "\<And>k. ?h \<le> k \<Longrightarrow> k < n \<Longrightarrow> p k"
      using left(2) upwardD [OF "1.prems"(1)] by blast
    show ?thesis
      unfolding search_loop_left [of i j p, OF left]
      by (rule "1.IH"(2) [OF left(1) refl h(3) "1.prems"(1) h(1,2) "1.prems"(4) above])
  qed
qed

lemma search_loop_le: "i \<le> j \<Longrightarrow> search_loop p i j \<le> j"
proof (induction p i j rule: search_loop.induct)
  case (1 p i j)
  let ?h = "(i + j) div 2"
  consider (stop) "\<not> i < j" | (right) "i < j" "\<not> p ?h" | (left) "i < j" "p ?h" by blast
  then show ?case
  proof cases
    case stop
    then show ?thesis using "1.prems" by (simp add: search_loop_stop)
  next
    case right
    then show ?thesis
      unfolding search_loop_right [of i j p, OF right] using "1.IH"(1) [OF right(1) refl right(2)] by simp
  next
    case left
    then have "search_loop p i ?h \<le> ?h" using "1.IH"(2) by simp
    then show ?thesis unfolding search_loop_left [of i j p, OF left] using left(1) by linarith
  qed
qed

interpretation goSearch: index_search sort_Search
proof
  fix n k :: nat and p :: "nat \<Rightarrow> bool"
  show "sort_Search n p \<le> n"
    using search_loop_le [of 0 n p] by (simp add: sort_Search_def)
  assume mono: "upward n p"
  note split = search_loop_split [OF mono, of 0 n]
  show "k < sort_Search n p \<Longrightarrow> \<not> p k"
    using split by (simp add: sort_Search_def)
  show "sort_Search n p \<le> k \<Longrightarrow> k < n \<Longrightarrow> p k"
    using split by (simp add: sort_Search_def)
qed

end
