(* ===== verification/StackDelta.thy ===== *)
theory StackDelta
  imports Prelude "HOL-Library.Multiset"
begin

text \<open>
  The stack delta data model (\<open>nativeunwind/stackdeltatypes/stackdeltatypes.go\<close> and the
  constants of \<open>support/types.go\<close> it uses): unwind descriptors, the delta array of a basic
  block with its de-duplicating \<open>Add\<close>, the interval table with its merging \<open>Add\<close>, its
  binary search \<open>FindIndex\<close> and \<open>Sort\<close>, and the packing of two dereference offsets
  into one parameter. The lemmas show what \<open>Add\<close> keeps (no equal neighbours, normalised
  commands, sorted and disjoint blocks, the same unwind rule at every covered address), that
  \<open>FindIndex\<close> finds the block of an address exactly when there is one, and for which
  offsets the packing can be undone.
\<close>

unbundle bit_operations_syntax

section \<open>Constants shared with the eBPF side\<close>

definition UnwindRegInvalid :: u8 where [simp]: "UnwindRegInvalid = 0x0"
definition UnwindRegCfa :: u8 where [simp]: "UnwindRegCfa = 0x1"
definition UnwindRegPc :: u8 where [simp]: "UnwindRegPc = 0x2"
definition UnwindRegSp :: u8 where [simp]: "UnwindRegSp = 0x3"
definition UnwindRegFp :: u8 where [simp]: "UnwindRegFp = 0x4"
definition UnwindRegLr :: u8 where [simp]: "UnwindRegLr = 0x5"
definition UnwindRegX86RAX :: u8 where [simp]: "UnwindRegX86RAX = 0x6"
definition UnwindRegX86RDI :: u8 where [simp]: "UnwindRegX86RDI = 0x7"
definition UnwindRegX86R8 :: u8 where [simp]: "UnwindRegX86R8 = 0x8"
definition UnwindRegX86R9 :: u8 where [simp]: "UnwindRegX86R9 = 0x9"
definition UnwindRegX86R11 :: u8 where [simp]: "UnwindRegX86R11 = 0xa"
definition UnwindRegX86R13 :: u8 where [simp]: "UnwindRegX86R13 = 0xb"
definition UnwindRegX86R15 :: u8 where [simp]: "UnwindRegX86R15 = 0xc"

definition UnwindFlagCommand :: u8 where [simp]: "UnwindFlagCommand = 0x1"
definition UnwindFlagFrame :: u8 where [simp]: "UnwindFlagFrame = 0x2"
definition UnwindFlagLeafOnly :: u8 where [simp]: "UnwindFlagLeafOnly = 0x4"
definition UnwindFlagDerefCfa :: u8 where [simp]: "UnwindFlagDerefCfa = 0x8"
definition UnwindFlagRegisterRA :: u8 where [simp]: "UnwindFlagRegisterRA = 0x10"

definition UnwindCommandInvalid :: int32 where [simp]: "UnwindCommandInvalid = 0x0"
definition UnwindCommandStop :: int32 where [simp]: "UnwindCommandStop = 0x1"
definition UnwindCommandPLT :: int32 where [simp]: "UnwindCommandPLT = 0x2"
definition UnwindCommandSignal :: int32 where [simp]: "UnwindCommandSignal = 0x3"
definition UnwindCommandFramePointer :: int32 where [simp]: "UnwindCommandFramePointer = 0x4"

definition UnwindDerefMask :: int32 where [simp]: "UnwindDerefMask = 0x7"
definition UnwindDerefMultiplier :: int32 where [simp]: "UnwindDerefMultiplier = 0x8"

definition MinimumGap :: u64 where [simp]: "MinimumGap = 15"

section \<open>Data\<close>

record UnwindInfo =
  ui_Flags :: u8
  ui_BaseReg :: u8
  ui_AuxBaseReg :: u8
  ui_MergeOpcode :: u8
  ui_Param :: int32
  ui_AuxParam :: int32

text \<open>The zero value of the struct, from which every literal of the source starts.\<close>

definition UnwindInfo_zero :: UnwindInfo where
  "UnwindInfo_zero = \<lparr>ui_Flags = 0, ui_BaseReg = 0, ui_AuxBaseReg = 0, ui_MergeOpcode = 0,
     ui_Param = 0, ui_AuxParam = 0\<rparr>"

definition UnwindInfoInvalid :: UnwindInfo where
  "UnwindInfoInvalid =
     UnwindInfo_zero\<lparr>ui_Flags := UnwindFlagCommand, ui_Param := UnwindCommandInvalid\<rparr>"

definition UnwindInfoStop :: UnwindInfo where
  "UnwindInfoStop =
     UnwindInfo_zero\<lparr>ui_Flags := UnwindFlagCommand, ui_Param := UnwindCommandStop\<rparr>"

definition UnwindInfoSignal :: UnwindInfo where
  "UnwindInfoSignal =
     UnwindInfo_zero\<lparr>ui_Flags := UnwindFlagCommand, ui_Param := UnwindCommandSignal\<rparr>"

definition UnwindInfoFramePointer :: UnwindInfo where
  "UnwindInfoFramePointer =
     UnwindInfo_zero\<lparr>ui_Flags := UnwindFlagCommand, ui_Param := UnwindCommandFramePointer\<rparr>"

definition UnwindInfoLR :: UnwindInfo where
  "UnwindInfoLR =
     UnwindInfo_zero\<lparr>ui_BaseReg := UnwindRegSp, ui_AuxBaseReg := UnwindRegLr\<rparr>"

lemmas UnwindInfo_consts [model_defs] =
  UnwindInfo_zero_def UnwindInfoInvalid_def UnwindInfoStop_def UnwindInfoSignal_def
  UnwindInfoFramePointer_def UnwindInfoLR_def

record StackDelta =
  sd_Offset :: u32
  sd_Info :: UnwindInfo

type_synonym StackDeltaArray = "StackDelta list"

record BasicBlock =
  bb_Start :: u64
  bb_End :: u64
  bb_Deltas :: StackDeltaArray

record IntervalData =
  iv_NumDeltas :: u32
  iv_Blocks :: "BasicBlock list"

definition IntervalData_zero :: IntervalData where
  "IntervalData_zero = \<lparr>iv_NumDeltas = 0, iv_Blocks = []\<rparr>"

section \<open>Operations\<close>

definition is_command :: "UnwindInfo \<Rightarrow> bool" where
  "is_command info \<longleftrightarrow> ui_Flags info AND UnwindFlagCommand \<noteq> 0"

definition normalize_command :: "UnwindInfo \<Rightarrow> UnwindInfo" where
  "normalize_command info =
     (if is_command info
      then UnwindInfo_zero\<lparr>ui_Flags := UnwindFlagCommand, ui_Param := ui_Param info\<rparr>
      else info)"

text \<open>\<open>(*StackDeltaArray).Add\<close>\<close>

definition StackDeltaArray_Add :: "StackDeltaArray \<Rightarrow> u32 \<Rightarrow> UnwindInfo \<Rightarrow> StackDeltaArray" where
  "StackDeltaArray_Add deltas offset info =
     (let info = normalize_command info
      in if deltas \<noteq> [] \<and> sd_Info (last deltas) = info then deltas
         else deltas @ [\<lparr>sd_Offset = offset, sd_Info = info\<rparr>])"

text \<open>\<open>(*IntervalData).Add\<close>: blocks are pointers, so extending the last one is an update in place.\<close>

definition IntervalData_Add :: "IntervalData \<Rightarrow> BasicBlock \<Rightarrow> IntervalData" where
  "IntervalData_Add iv bb =
     (let lastBlock = last (iv_Blocks iv)
      in if iv_Blocks iv \<noteq> [] \<and> length (bb_Deltas bb) = 1 \<and> length (bb_Deltas lastBlock) = 1 \<and>
            hd (bb_Deltas bb) = hd (bb_Deltas lastBlock) \<and>
            bb_Start bb - bb_End lastBlock \<le> MinimumGap
         then iv\<lparr>iv_Blocks := butlast (iv_Blocks iv) @ [lastBlock\<lparr>bb_End := bb_End bb\<rparr>]\<rparr>
         else iv\<lparr>iv_NumDeltas := iv_NumDeltas iv + word_of_nat (length (bb_Deltas bb)),
                 iv_Blocks := iv_Blocks iv @ [bb]\<rparr>)"

definition IntervalData_FindIndex :: "IntervalData \<Rightarrow> u64 \<Rightarrow> int" where
  "IntervalData_FindIndex iv addr =
     (let bs = iv_Blocks iv;
          (i, ok) = binarySearchFunc bs (\<lambda>bb. cmp_Compare (bb_Start bb) addr)
      in if \<not> ok \<and> i = 0 then - 1
         else let idx = (if ok then i else i - 1); bb = bs ! idx
              in if bb_Start bb \<le> addr \<and> addr < bb_End bb then int idx else - 1)"

definition IntervalData_Find :: "IntervalData \<Rightarrow> u64 \<Rightarrow> BasicBlock option" where
  "IntervalData_Find iv addr =
     (let idx = IntervalData_FindIndex iv addr
      in if idx \<ge> 0 then Some (iv_Blocks iv ! nat idx) else None)"

text \<open>
  \<open>Sort\<close>: \<open>slices.SortFunc\<close> by start address. The library does not promise stability;
  the lemmas about it use only that the result is sorted and has the same blocks.
\<close>

definition IntervalData_Sort :: "IntervalData \<Rightarrow> IntervalData" where
  "IntervalData_Sort iv = iv\<lparr>iv_Blocks := sort_key bb_Start (iv_Blocks iv)\<rparr>"

text \<open>
  \<open>PackDerefParam\<close> and \<open>UnpackDerefParam\<close>. The operands are \<open>int32\<close>; \<open>%\<close>
  and \<open>/\<close> are applied to a value known to be in \<open>0 .. 0x20\<close>, where Go's truncated
  division is the one on natural numbers.
\<close>

definition PackDerefParam :: "int32 \<Rightarrow> int32 \<Rightarrow> int32 \<times> bool" where
  "PackDerefParam preDeref postDeref =
     (if sint postDeref < 0 \<or> sint postDeref > 0x20 \<or>
         unat postDeref mod unat UnwindDerefMultiplier \<noteq> 0
      then (0, False)
      else (preDeref + word_of_nat (unat postDeref div unat UnwindDerefMultiplier), True))"

definition UnpackDerefParam :: "int32 \<Rightarrow> int32 \<times> int32" where
  "UnpackDerefParam param =
     (param AND NOT UnwindDerefMask, (param AND UnwindDerefMask) * UnwindDerefMultiplier)"

section \<open>Delta arrays\<close>

text \<open>
  The invariant of a delta array built by \<open>Add\<close>: no two neighbours carry the same unwind
  information, and command descriptors carry nothing but their parameter.
\<close>

fun no_dup_neighbours :: "StackDeltaArray \<Rightarrow> bool" where
  "no_dup_neighbours [] = True"
| "no_dup_neighbours [d] = True"
| "no_dup_neighbours (d # e # ds) = (sd_Info d \<noteq> sd_Info e \<and> no_dup_neighbours (e # ds))"

definition deltas_inv :: "StackDeltaArray \<Rightarrow> bool" where
  "deltas_inv ds \<longleftrightarrow> no_dup_neighbours ds \<and> list_all (\<lambda>d. normalize_command (sd_Info d) = sd_Info d) ds"

text \<open>The unwind rule in force at an offset of a block: the last delta at or before it.\<close>

fun rule_at :: "StackDeltaArray \<Rightarrow> u32 \<Rightarrow> UnwindInfo option" where
  "rule_at [] off = None"
| "rule_at (d # ds) off =
     (if sd_Offset d \<le> off
      then (case rule_at ds off of None \<Rightarrow> Some (sd_Info d) | Some i \<Rightarrow> Some i)
      else None)"

lemma is_command_normal [simp]: "is_command (normalize_command info) = is_command info"
  by (simp add: normalize_command_def is_command_def UnwindInfo_zero_def)

lemma normalize_command_idem [simp]:
  "normalize_command (normalize_command info) = normalize_command info"
  by (simp add: normalize_command_def is_command_def UnwindInfo_zero_def)

lemma normalize_not_command [simp]: "\<not> is_command info \<Longrightarrow> normalize_command info = info"
  by (simp add: normalize_command_def)

lemma no_dup_neighbours_snoc:
  "no_dup_neighbours (ds @ [d]) \<longleftrightarrow>
     no_dup_neighbours ds \<and> (ds = [] \<or> sd_Info (last ds) \<noteq> sd_Info d)"
  by (induction ds rule: no_dup_neighbours.induct) auto

lemma deltas_inv_Nil [simp]: "deltas_inv []"
  by (simp add: deltas_inv_def)

lemma StackDeltaArray_Add_inv [inv_rules]:
  "deltas_inv ds \<Longrightarrow> deltas_inv (StackDeltaArray_Add ds off info)"
  by (auto simp: StackDeltaArray_Add_def deltas_inv_def Let_def no_dup_neighbours_snoc)

lemma StackDeltaArray_Add_nonempty [simp]: "StackDeltaArray_Add ds off info \<noteq> []"
  by (auto simp: StackDeltaArray_Add_def Let_def)

lemma StackDeltaArray_Add_singleton:
  "StackDeltaArray_Add [] off info = [\<lparr>sd_Offset = off, sd_Info = normalize_command info\<rparr>]"
  by (simp add: StackDeltaArray_Add_def)

lemma rule_at_append:
  assumes "\<And>d. d \<in> set ds \<Longrightarrow> sd_Offset d \<le> off"
  shows "rule_at (ds @ es) off =
     (case rule_at es off of None \<Rightarrow> rule_at ds off | Some i \<Rightarrow> Some i)"
  using assms by (induction ds) (auto split: option.splits)

lemma rule_at_all_le:
  "ds \<noteq> [] \<Longrightarrow> (\<And>d. d \<in> set ds \<Longrightarrow> sd_Offset d \<le> off) \<Longrightarrow> rule_at ds off = Some (sd_Info (last ds))"
  by (induction ds) (auto split: option.splits)

lemma rule_at_snoc_before:
  "off < sd_Offset d \<Longrightarrow> rule_at (ds @ [d]) off = rule_at ds off"
  by (induction ds) auto


section \<open>Interval tables\<close>

definition bb_contains :: "BasicBlock \<Rightarrow> u64 \<Rightarrow> bool" where
  "bb_contains bb addr \<longleftrightarrow> bb_Start bb \<le> addr \<and> addr < bb_End bb"

text \<open>Non-empty blocks in address order that do not overlap.\<close>

definition blocks_wf :: "BasicBlock list \<Rightarrow> bool" where
  "blocks_wf bs \<longleftrightarrow> sorted_wrt (\<lambda>a b. bb_End a \<le> bb_Start b) bs \<and> list_all (\<lambda>b. bb_Start b < bb_End b) bs"

lemma blocks_wf_Nil [simp]: "blocks_wf []"
  by (simp add: blocks_wf_def)

lemma blocks_wf_snoc:
  "blocks_wf (bs @ [b]) \<longleftrightarrow>
     blocks_wf bs \<and> (\<forall>a \<in> set bs. bb_End a \<le> bb_Start b) \<and> bb_Start b < bb_End b"
  by (auto simp: blocks_wf_def sorted_wrt_append)

lemma blocks_wf_nonempty: "blocks_wf bs \<Longrightarrow> i < length bs \<Longrightarrow> bb_Start (bs ! i) < bb_End (bs ! i)"
  by (auto simp: blocks_wf_def list_all_length)

lemma blocks_wf_before:
  "blocks_wf bs \<Longrightarrow> i < j \<Longrightarrow> j < length bs \<Longrightarrow> bb_End (bs ! i) \<le> bb_Start (bs ! j)"
  by (auto simp: blocks_wf_def sorted_wrt_iff_nth_less)

lemma blocks_wf_start_mono:
  assumes "blocks_wf bs" "i \<le> j" "j < length bs"
  shows "bb_Start (bs ! i) \<le> bb_Start (bs ! j)"
proof (cases "i = j")
  case False
  then have "bb_Start (bs ! i) < bb_End (bs ! i)" "bb_End (bs ! i) \<le> bb_Start (bs ! j)"
    using assms blocks_wf_nonempty [of bs i] blocks_wf_before [of bs i j] by simp_all
  then show ?thesis by simp
qed simp

text \<open>Neither the number of deltas nor the coverage is lost by merging neighbours.\<close>

lemma IntervalData_Add_blocks:
  "iv_Blocks (IntervalData_Add iv bb) = iv_Blocks iv @ [bb] \<or>
   (\<exists>bs b. iv_Blocks iv = bs @ [b] \<and> bb_Deltas b = bb_Deltas bb \<and> length (bb_Deltas bb) = 1 \<and>
      bb_Start bb - bb_End b \<le> MinimumGap \<and>
      iv_Blocks (IntervalData_Add iv bb) = bs @ [b\<lparr>bb_End := bb_End bb\<rparr>])"
proof (cases "iv_Blocks iv" rule: rev_cases)
  case Nil
  then show ?thesis by (simp add: IntervalData_Add_def)
next
  case (snoc bs b)
  then show ?thesis
    by (auto simp: IntervalData_Add_def Let_def length_Suc_conv)
qed

lemma IntervalData_Add_wf [inv_rules]:
  assumes wf: "blocks_wf (iv_Blocks iv)" and ne: "bb_Start bb < bb_End bb"
    and after: "\<forall>b \<in> set (iv_Blocks iv). bb_End b \<le> bb_Start bb"
  shows "blocks_wf (iv_Blocks (IntervalData_Add iv bb))"
  using IntervalData_Add_blocks [of iv bb]
proof (elim disjE exE conjE)
  assume "iv_Blocks (IntervalData_Add iv bb) = iv_Blocks iv @ [bb]"
  then show ?thesis using wf ne after by (simp add: blocks_wf_snoc)
next
  fix bs b
  assume eq: "iv_Blocks iv = bs @ [b]"
    and new: "iv_Blocks (IntervalData_Add iv bb) = bs @ [b\<lparr>bb_End := bb_End bb\<rparr>]"
  have "bb_Start b < bb_End b" "bb_End b \<le> bb_Start bb"
    using wf after eq by (simp_all add: blocks_wf_snoc)
  then have "bb_Start b < bb_End bb" using ne by simp
  then show ?thesis using wf eq new by (simp add: blocks_wf_snoc)
qed

lemma FindIndex_hit:
  assumes wf: "blocks_wf (iv_Blocks iv)" and i: "i < length (iv_Blocks iv)"
    and hit: "bb_contains (iv_Blocks iv ! i) addr"
  shows "IntervalData_FindIndex iv addr = int i"
proof -
  let ?bs = "iv_Blocks iv"
  let ?p = "\<lambda>h. \<not> cmp_Compare (bb_Start (?bs ! h)) addr < 0"
  let ?k = "sort_Search (length ?bs) ?p"
  have up: "upward (length ?bs) ?p"
    using blocks_wf_start_mono [OF wf] by (fastforce simp: upward_def)
  have later: "addr < bb_Start (?bs ! m)" if "i < m" "m < length ?bs" for m
    using hit order.strict_trans2 [OF _ blocks_wf_before [OF wf that]] by (simp add: bb_contains_def)
  show ?thesis
  proof (cases "bb_Start (?bs ! i) = addr")
    case True
    have "bb_Start (?bs ! m) < addr" if "m < i" for m
      using blocks_wf_before [OF wf that i] blocks_wf_nonempty [OF wf, of m] i that True by simp
    then have "?k = i"
      using True by (intro goSearch.search_first [OF up i]) simp_all
    then show ?thesis
      using i hit True by (simp add: IntervalData_FindIndex_def binarySearchFunc_def Let_def bb_contains_def)
  next
    case False
    then have lt: "bb_Start (?bs ! i) < addr" using hit by (auto simp: bb_contains_def order_less_le)
    have "?p m" if "i < m" "m < length ?bs" for m using later [OF that] by simp
    then have "?k = Suc i"
      using goSearch.search_pred_last [OF up i] lt by simp
    moreover have "\<not> (Suc i < length ?bs \<and> bb_Start (?bs ! Suc i) = addr)"
      using later [of "Suc i"] by auto
    ultimately show ?thesis
      using hit by (auto simp: IntervalData_FindIndex_def binarySearchFunc_def Let_def bb_contains_def)
  qed
qed

lemma FindIndex_sound:
  assumes "IntervalData_FindIndex iv addr = int i"
  shows "i < length (iv_Blocks iv) \<and> bb_contains (iv_Blocks iv ! i) addr"
proof -
  let ?bs = "iv_Blocks iv"
  obtain k ok where k: "binarySearchFunc ?bs (\<lambda>bb. cmp_Compare (bb_Start bb) addr) = (k, ok)"
    by fastforce
  then have "k \<le> length ?bs" and "ok \<Longrightarrow> k < length ?bs"
    using goSearch.search_le by (auto simp: binarySearchFunc_def Let_def)
  then show ?thesis
    using assms k by (auto simp: IntervalData_FindIndex_def Let_def bb_contains_def split: if_splits)
qed

lemma FindIndex_range: "IntervalData_FindIndex iv addr = - 1 \<or> 0 \<le> IntervalData_FindIndex iv addr"
  by (auto simp: IntervalData_FindIndex_def Let_def split: prod.split if_splits)

lemma IntervalData_Sort_blocks:
  "mset (iv_Blocks (IntervalData_Sort iv)) = mset (iv_Blocks iv)"
  "sorted (map bb_Start (iv_Blocks (IntervalData_Sort iv)))"
  by (simp_all add: IntervalData_Sort_def)

section \<open>The rule at an address\<close>

text \<open>What the table says about an address: find its block, then the rule at the offset.\<close>

definition unwind_at :: "IntervalData \<Rightarrow> u64 \<Rightarrow> UnwindInfo option" where
  "unwind_at iv addr =
     (case IntervalData_Find iv addr of
        None \<Rightarrow> None
      | Some bb \<Rightarrow> rule_at (bb_Deltas bb) (ucast (addr - bb_Start bb)))"

lemma unwind_at_hit:
  assumes "blocks_wf (iv_Blocks iv)" "bb \<in> set (iv_Blocks iv)" "bb_contains bb addr"
  shows "unwind_at iv addr = rule_at (bb_Deltas bb) (ucast (addr - bb_Start bb))"
proof -
  from assms(2) obtain i where "i < length (iv_Blocks iv)" "iv_Blocks iv ! i = bb"
    by (auto simp: in_set_conv_nth)
  then show ?thesis
    using FindIndex_hit [OF assms(1)] assms(3)
    by (simp add: unwind_at_def IntervalData_Find_def Let_def)
qed

lemma rule_at_single_0: "length ds = 1 \<Longrightarrow> sd_Offset (hd ds) = 0 \<Longrightarrow> rule_at ds off = Some (sd_Info (hd ds))"
  by (cases ds) auto

lemma uint_of_small_sint:
  fixes b :: int32
  assumes "0 \<le> sint b" "sint b \<le> 0x20"
  shows "unat b \<le> 0x20"
proof -
  have "uint b = sint b"
    using assms by (simp add: uint_sint take_bit_int_eq_self)
  then show ?thesis using assms(2) by (metis nat_mono nat_numeral unat_eq_nat_uint)
qed

text \<open>The post-dereference offsets that can be packed are the multiples of 8 up to 32.\<close>

lemma packable_cases:
  fixes b :: int32
  assumes "0 \<le> sint b" "sint b \<le> 0x20" "unat b mod 8 = 0"
  obtains "b = 0" | "b = 8" | "b = 16" | "b = 24" | "b = 32"
proof -
  have "unat b \<in> {0, 8, 16, 24, 32}"
    using uint_of_small_sint [OF assms(1,2)] assms(3) by auto
  then have "b = 0 \<or> b = 8 \<or> b = 16 \<or> b = 24 \<or> b = 32"
    by (auto simp: word_unat_eq_iff)
  then show thesis using that by blast
qed

section \<open>Properties\<close>

text \<open>\<open>(*StackDeltaArray).Add\<close>: appending a rule at an offset not before the ones
  already there changes the rule in force from that offset on and nowhere else, although
  equal neighbours are dropped and command descriptors are normalised.\<close>

theorem StackDeltaArray_Add_rule:
  assumes "\<forall>d \<in> set ds. sd_Offset d \<le> off"
  shows "rule_at (StackDeltaArray_Add ds off info) o' =
    (if off \<le> o' then Some (normalize_command info) else rule_at ds o')"
proof (cases "off \<le> o'")
  case True
  let ?ds' = "StackDeltaArray_Add ds off info"
  have "sd_Info (last ?ds') = normalize_command info"
    by (auto simp: StackDeltaArray_Add_def Let_def)
  moreover have "\<forall>d \<in> set ?ds'. sd_Offset d \<le> o'"
    using assms True by (auto simp: StackDeltaArray_Add_def Let_def)
  ultimately show ?thesis using True rule_at_all_le [of ?ds' o'] by simp
next
  case False
  then show ?thesis
    by (auto simp: StackDeltaArray_Add_def Let_def rule_at_snoc_before not_le)
qed

theorem StackDeltaArray_Add_rule_witness:
  "rule_at (StackDeltaArray_Add (StackDeltaArray_Add [] 0 UnwindInfoLR) 4 UnwindInfoStop) 7 =
     Some UnwindInfoStop"
  using StackDeltaArray_Add_rule [of "StackDeltaArray_Add [] 0 UnwindInfoLR" 4 UnwindInfoStop 7]
  by (simp add: StackDeltaArray_Add_def UnwindInfo_consts normalize_command_def is_command_def)

text \<open>the delta array of a block, built by any sequence of \<open>Add\<close> calls from the
  empty array, never holds two neighbours with the same unwind information and holds command
  descriptors only in normal form.\<close>

theorem StackDeltaArray_built_inv:
  "deltas_inv (fold (\<lambda>(off, info) ds. StackDeltaArray_Add ds off info) adds [])"
proof -
  have "deltas_inv (fold (\<lambda>(off, info) ds. StackDeltaArray_Add ds off info) adds ds)"
    if "deltas_inv ds" for ds
    using that by (induction adds arbitrary: ds) (auto intro: inv_rules)
  then show ?thesis by simp
qed

text \<open>\<open>(*IntervalData).FindIndex\<close>: on a table of non-empty, ordered, disjoint blocks
  the binary search returns the index of the block that contains the address when there is
  one, and -1 when there is none.\<close>

theorem FindIndex_correct:
  assumes "blocks_wf (iv_Blocks iv)"
  shows "(\<forall>i < length (iv_Blocks iv). bb_contains (iv_Blocks iv ! i) addr \<longrightarrow>
            IntervalData_FindIndex iv addr = int i) \<and>
         ((\<forall>i < length (iv_Blocks iv). \<not> bb_contains (iv_Blocks iv ! i) addr) \<longrightarrow>
            IntervalData_FindIndex iv addr = - 1)"
proof (intro conjI allI impI)
  fix i
  assume "i < length (iv_Blocks iv)" "bb_contains (iv_Blocks iv ! i) addr"
  then show "IntervalData_FindIndex iv addr = int i" by (rule FindIndex_hit [OF assms])
next
  assume none: "\<forall>i < length (iv_Blocks iv). \<not> bb_contains (iv_Blocks iv ! i) addr"
  show "IntervalData_FindIndex iv addr = - 1"
  proof (rule ccontr)
    assume "IntervalData_FindIndex iv addr \<noteq> - 1"
    then obtain i where "IntervalData_FindIndex iv addr = int i"
      using FindIndex_range [of iv addr] by (auto simp: nonneg_int_cases elim: nonneg_int_cases)
    then show False using FindIndex_sound none by blast
  qed
qed

definition example_intervals :: IntervalData where
  "example_intervals = \<lparr>iv_NumDeltas = 2, iv_Blocks =
     [\<lparr>bb_Start = 0x1000, bb_End = 0x1040, bb_Deltas = [\<lparr>sd_Offset = 0, sd_Info = UnwindInfoLR\<rparr>]\<rparr>,
      \<lparr>bb_Start = 0x2000, bb_End = 0x2010, bb_Deltas = [\<lparr>sd_Offset = 0, sd_Info = UnwindInfoStop\<rparr>]\<rparr>]\<rparr>"

theorem FindIndex_correct_witness:
  "IntervalData_FindIndex example_intervals 0x2004 = 1 \<and>
   IntervalData_FindIndex example_intervals 0x1fff = - 1"
proof -
  have wf: "blocks_wf (iv_Blocks example_intervals)"
    by (simp add: example_intervals_def blocks_wf_def)
  have "bb_contains (iv_Blocks example_intervals ! 1) 0x2004"
    and "\<forall>i < length (iv_Blocks example_intervals). \<not> bb_contains (iv_Blocks example_intervals ! i) 0x1fff"
    by (simp_all add: example_intervals_def bb_contains_def less_Suc_eq)
  moreover have "1 < length (iv_Blocks example_intervals)" by (simp add: example_intervals_def)
  ultimately show ?thesis
    using FindIndex_correct [OF wf, of "0x2004"] FindIndex_correct [OF wf, of "0x1fff"]
    by (metis of_nat_1)
qed

text \<open>\<open>(*IntervalData).Add\<close>: adding a block behind an ordered table keeps it ordered
  and disjoint, gives every address of the new block the rule the block has for it, and keeps
  the rule of every address covered before, also when the block is merged into its
  predecessor.\<close>

theorem IntervalData_Add_unwind:
  assumes wf: "blocks_wf (iv_Blocks iv)" and ne: "bb_Start bb < bb_End bb"
    and after: "\<forall>b \<in> set (iv_Blocks iv). bb_End b \<le> bb_Start bb"
    and zero: "bb_Deltas bb \<noteq> []" "sd_Offset (hd (bb_Deltas bb)) = 0"
  shows "blocks_wf (iv_Blocks (IntervalData_Add iv bb)) \<and>
    (bb_contains bb addr \<longrightarrow>
       unwind_at (IntervalData_Add iv bb) addr =
         rule_at (bb_Deltas bb) (ucast (addr - bb_Start bb))) \<and>
    (\<forall>b \<in> set (iv_Blocks iv). bb_contains b addr \<longrightarrow>
       unwind_at (IntervalData_Add iv bb) addr = unwind_at iv addr)"
proof -
  let ?iv' = "IntervalData_Add iv bb"
  have wf': "blocks_wf (iv_Blocks ?iv')"
    using IntervalData_Add_wf [OF wf ne after] .
  note hit' = unwind_at_hit [OF wf'] and hit = unwind_at_hit [OF wf]
  from IntervalData_Add_blocks [of iv bb] show ?thesis
  proof (elim disjE exE conjE)
    assume "iv_Blocks ?iv' = iv_Blocks iv @ [bb]"
    then show ?thesis using wf' hit' hit by simp
  next
    fix bs b
    assume iv: "iv_Blocks iv = bs @ [b]" and same: "bb_Deltas b = bb_Deltas bb"
      and one: "length (bb_Deltas bb) = 1"
      and iv': "iv_Blocks ?iv' = bs @ [b\<lparr>bb_End := bb_End bb\<rparr>]"
    have "bb_Start b < bb_End b" "bb_End b \<le> bb_Start bb"
      using wf after iv by (simp_all add: blocks_wf_snoc)
    then have inside: "bb_contains (b\<lparr>bb_End := bb_End bb\<rparr>) addr"
      if "bb_contains bb addr \<or> bb_contains b addr"
      using that ne by (auto simp: bb_contains_def)
    have rule: "rule_at (bb_Deltas bb) off = Some (sd_Info (hd (bb_Deltas bb)))" for off
      using one zero(2) by (rule rule_at_single_0)
    have "unwind_at ?iv' addr = Some (sd_Info (hd (bb_Deltas bb)))"
      if "bb_contains bb addr \<or> bb_contains b addr"
      using hit' [of "b\<lparr>bb_End := bb_End bb\<rparr>"] inside [OF that] iv' same rule by simp
    then show ?thesis
      using wf' hit' [of _ addr] hit [of _ addr] iv iv' same rule by auto
  qed
qed

theorem IntervalData_Add_unwind_witness:
  "unwind_at (IntervalData_Add example_intervals
      \<lparr>bb_Start = 0x2018, bb_End = 0x2020, bb_Deltas = [\<lparr>sd_Offset = 0, sd_Info = UnwindInfoStop\<rparr>]\<rparr>)
      0x2019 = Some UnwindInfoStop"
  using IntervalData_Add_unwind [of example_intervals
      "\<lparr>bb_Start = 0x2018, bb_End = 0x2020, bb_Deltas = [\<lparr>sd_Offset = 0, sd_Info = UnwindInfoStop\<rparr>]\<rparr>"
      "0x2019"]
  by (simp add: example_intervals_def blocks_wf_def bb_contains_def)

lemma pack_deref_unpack:
  assumes pre: "pre AND UnwindDerefMask = 0" and pack: "PackDerefParam pre post = (param, True)"
  shows "UnpackDerefParam param = (pre, post)"
proof -
  have ok: "0 \<le> sint post" "sint post \<le> 0x20" "unat post mod 8 = 0"
    and param: "param = pre + word_of_nat (unat post div 8)"
    using pack by (simp_all add: PackDerefParam_def split: if_splits)
  obtain k :: int32 where k: "param = pre + k" "k AND NOT 7 = 0" "k * 8 = post"
    using ok by (rule packable_cases) (use param in auto)
  show ?thesis
    using masked_add [of pre 7 k] pre k by (simp add: UnpackDerefParam_def)
qed

text \<open>\<open>PackDerefParam\<close> and \<open>UnpackDerefParam\<close>: whatever packing accepts is
  recovered by unpacking, provided that the pre-dereference offset is a multiple of 8; the code
  does not check that, and an unaligned offset is accepted and corrupts both values.\<close>

theorem PackDerefParam_roundtrip:
  "(pre AND UnwindDerefMask = 0 \<longrightarrow> PackDerefParam pre post = (param, True) \<longrightarrow>
      UnpackDerefParam param = (pre, post)) \<and>
   PackDerefParam 4 8 = (5, True) \<and> UnpackDerefParam 5 = (0, 40)"
  by (auto intro: pack_deref_unpack simp: PackDerefParam_def [of 4 8] UnpackDerefParam_def [of 5])

theorem PackDerefParam_roundtrip_witness:
  "PackDerefParam 16 24 = (19, True) \<and> UnpackDerefParam 19 = (16, 24)"
  using PackDerefParam_roundtrip [of 16 24 19] by (simp add: PackDerefParam_def)

end
