(* ===== verification/EhReader.thy ===== *)
theory EhReader
  imports StackDelta
begin

text \<open>
  The byte reader of the exception frame parser (\<open>reader\<close> in
  \<open>nativeunwind/elfunwindinfo/elfehframe.go\<close>): fixed width integers, LEB128 numbers,
  strings, byte arrays, encoded pointers and DWARF expressions. The position is a
  \<open>uintptr\<close>, so that adding a length read from the file may wrap around; reads beyond the
  end give zeros and leave the reader invalid; what Go checks at run time (index and slice
  bounds) is checked here, with \<open>None\<close> for the panic.

  The lemmas show how far every operation moves the position, that LEB128 numbers are read back
  as they were written and that reading them always terminates, that pointers are decoded as
  the encoding byte says, and that an expression block with a wrapping length makes the
  process panic.
\<close>

unbundle bit_operations_syntax

section \<open>Errors\<close>

text \<open>
  The errors of the package. \<open>OutOfFuel\<close> is no error of the code: it is the value of a
  fuelled loop of this model whose fuel did not suffice.
\<close>

datatype eherr =
    ErrUnexpectedType
  | ErrEmptyEntry
  | ErrExpressionMissing
  | ErrExpressionUnsupported
  | ErrExpressionUnmatched
  | ErrFormatEncoding u8
  | ErrAdjustEncoding u8
  | ErrIndirectEncoding u8
  | ErrStackOverflow
  | ErrStackUnderflow
  | ErrOpcode u8
  | ErrInitialLength
  | ErrBeyondEnd
  | ErrFDEStart
  | ErrCIEVersion u8
  | ErrOldAugmentation
  | ErrAugmentation
  | ErrCIEHeader
  | ErrCIEFailed eherr
  | ErrCIEParsing
  | ErrIpStartMismatch
  | ErrFDEHeader
  | ErrFDEParsing
  | ErrFDEBeforeSection
  | ErrFDENotFound
  | ErrParseFDE eherr
  | ErrEntryLength
  | ErrCache
  | ErrELF string
  | OutOfFuel

section \<open>Constants\<close>

type_synonym uleb128 = u64
type_synonym sleb128 = int64
type_synonym cfaOpcode = u8
type_synonym expressionOpcode = u8
type_synonym encoding = u8

definition opDeref :: expressionOpcode where [simp]: "opDeref = 0x06"
definition opConstU :: expressionOpcode where [simp]: "opConstU = 0x10"
definition opConstS :: expressionOpcode where [simp]: "opConstS = 0x11"
definition opRot :: expressionOpcode where [simp]: "opRot = 0x17"
definition opAnd :: expressionOpcode where [simp]: "opAnd = 0x1a"
definition opMul :: expressionOpcode where [simp]: "opMul = 0x1e"
definition opPlus :: expressionOpcode where [simp]: "opPlus = 0x22"
definition opPlusUConst :: expressionOpcode where [simp]: "opPlusUConst = 0x23"
definition opShl :: expressionOpcode where [simp]: "opShl = 0x24"
definition opGE :: expressionOpcode where [simp]: "opGE = 0x2a"
definition opNE :: expressionOpcode where [simp]: "opNE = 0x2e"
definition opLit0 :: expressionOpcode where [simp]: "opLit0 = 0x30"
definition opBReg0 :: expressionOpcode where [simp]: "opBReg0 = 0x70"

definition encFormatNative :: encoding where [simp]: "encFormatNative = 0x00"
definition encFormatLeb128 :: encoding where [simp]: "encFormatLeb128 = 0x01"
definition encFormatData2 :: encoding where [simp]: "encFormatData2 = 0x02"
definition encFormatData4 :: encoding where [simp]: "encFormatData4 = 0x03"
definition encFormatData8 :: encoding where [simp]: "encFormatData8 = 0x04"
definition encFormatMask :: encoding where [simp]: "encFormatMask = 0x07"
definition encSignedMask :: encoding where [simp]: "encSignedMask = 0x08"
definition encAdjustAbs :: encoding where [simp]: "encAdjustAbs = 0x00"
definition encAdjustPcRel :: encoding where [simp]: "encAdjustPcRel = 0x10"
definition encAdjustTextRel :: encoding where [simp]: "encAdjustTextRel = 0x20"
definition encAdjustDataRel :: encoding where [simp]: "encAdjustDataRel = 0x30"
definition encAdjustFuncRel :: encoding where [simp]: "encAdjustFuncRel = 0x40"
definition encAdjustAligned :: encoding where [simp]: "encAdjustAligned = 0x50"
definition encAdjustMask :: encoding where [simp]: "encAdjustMask = 0x70"
definition encIndirect :: encoding where [simp]: "encIndirect = 0x80"
definition encOmit :: encoding where [simp]: "encOmit = 0xff"

record dwarfExpression =
  de_opcode :: expressionOpcode
  de_operand1 :: uleb128
  de_operand2 :: uleb128

section \<open>The reader\<close>

record reader =
  rd_debugFrame :: bool
  rd_data :: "byte list"
  rd_pos :: uintptr
  rd_end :: uintptr
  rd_vaddr :: uintptr

definition hasData :: "reader \<Rightarrow> bool" where
  "hasData r \<longleftrightarrow> rd_pos r < rd_end r"

definition isValid :: "reader \<Rightarrow> bool" where
  "isValid r \<longleftrightarrow> rd_pos r \<le> rd_end r"

text \<open>
  \<open>get(n)\<close> with the dereference its callers make: the \<open>n\<close> bytes at the position, zeros
  when the new position is beyond the end, a panic when \<open>data[pos]\<close> is out of range.
\<close>

definition rd_get :: "uintptr \<Rightarrow> reader \<Rightarrow> (byte list \<times> reader) option" where
  "rd_get n r =
     (let pos = rd_pos r; r' = r\<lparr>rd_pos := pos + n\<rparr>
      in if \<not> isValid r' then Some (replicate (unat n) 0, r')
         else if go_index_ok pos (rd_data r)
              then Some (take (unat n) (drop (unat pos) (rd_data r)), r')
              else None)"

definition rd_u8 :: "reader \<Rightarrow> (u8 \<times> reader) option" where
  "rd_u8 r = do { (bs, r) \<leftarrow> rd_get 1 r; Some (word_of_nat (le_nat bs), r) }"

definition rd_u16 :: "reader \<Rightarrow> (u16 \<times> reader) option" where
  "rd_u16 r = do { (bs, r) \<leftarrow> rd_get 2 r; Some (word_of_nat (le_nat bs), r) }"

definition rd_u32 :: "reader \<Rightarrow> (u32 \<times> reader) option" where
  "rd_u32 r = do { (bs, r) \<leftarrow> rd_get 4 r; Some (word_of_nat (le_nat bs), r) }"

definition rd_u64 :: "reader \<Rightarrow> (u64 \<times> reader) option" where
  "rd_u64 r = do { (bs, r) \<leftarrow> rd_get 8 r; Some (word_of_nat (le_nat bs), r) }"

subsection \<open>Facts about single reads, needed for the termination of the loops\<close>

lemma rd_get_pos [pos_lems]:
  "rd_get n r = Some (bs, r') \<Longrightarrow> r' = r\<lparr>rd_pos := rd_pos r + n\<rparr>"
  by (auto simp: rd_get_def Let_def split: if_splits)

lemma rd_u8_pos [pos_lems]: "rd_u8 r = Some (b, r') \<Longrightarrow> r' = r\<lparr>rd_pos := rd_pos r + 1\<rparr>"
  by (auto simp: rd_u8_def bind_eq_Some_conv dest: rd_get_pos)

text \<open>A byte that is not zero was really read, and then the position did not wrap.\<close>

lemma rd_u8_nonzero:
  assumes "rd_u8 r = Some (b, r')" "b \<noteq> 0"
  shows "unat (rd_pos r) < unat (rd_end r)" and "unat (rd_pos r') = Suc (unat (rd_pos r))"
    and "rd_end r' = rd_end r"
proof -
  from assms have valid: "isValid (r\<lparr>rd_pos := rd_pos r + 1\<rparr>)" and ok: "go_index_ok (rd_pos r) (rd_data r)"
    by (auto simp: rd_u8_def rd_get_def bind_eq_Some_conv Let_def split: if_splits)
  have suc: "unat (rd_pos r + 1) = Suc (unat (rd_pos r))"
    using go_index_okD(2) [OF ok] by (intro unat_Suc_no_wrap [where n = "2 ^ 63"]) simp_all
  then show "unat (rd_pos r) < unat (rd_end r)"
    using valid by (simp add: isValid_def word_le_nat_alt)
  show "unat (rd_pos r') = Suc (unat (rd_pos r))" and "rd_end r' = rd_end r"
    using rd_u8_pos [OF assms(1)] suc by simp_all
qed

subsection \<open>LEB128\<close>

text \<open>
  \<open>uleb\<close>: the loop ends at the first byte without the continuation bit. Shifts of 64 and
  more give 0 in Go, as \<open>push_bit\<close> on words does.
\<close>

function uleb_loop :: "reader \<Rightarrow> uleb128 \<Rightarrow> nat \<Rightarrow> (uleb128 \<times> reader) option" where
  "uleb_loop r val shift =
     (case rd_u8 r of
        None \<Rightarrow> None
      | Some (b, r') \<Rightarrow>
          let val' = val OR push_bit shift (ucast (b AND 0x7f))
          in if b AND 0x80 \<noteq> 0 then uleb_loop r' val' (shift + 7) else Some (val', r'))"
  by pat_completeness auto
termination
proof (relation "measure (\<lambda>(r, val, shift). unat (rd_end r) - unat (rd_pos r))", goal_cases)
  case (2 r val shift x b r' val')
  then have "b \<noteq> 0" by auto
  with 2 show ?case using rd_u8_nonzero [of r b r'] by auto
qed simp

declare uleb_loop.simps [simp del]

definition rd_uleb :: "reader \<Rightarrow> (uleb128 \<times> reader) option" where
  "rd_uleb r = uleb_loop r 0 0"

text \<open>\<open>sleb\<close>: the same loop, then sign extension from bit 6 of the last byte.\<close>

function sleb_loop :: "reader \<Rightarrow> sleb128 \<Rightarrow> nat \<Rightarrow> (sleb128 \<times> reader) option" where
  "sleb_loop r val shift =
     (case rd_u8 r of
        None \<Rightarrow> None
      | Some (b, r') \<Rightarrow>
          let val' = val OR push_bit shift (ucast (b AND 0x7f)); shift' = shift + 7
          in if b AND 0x80 \<noteq> 0 then sleb_loop r' val' shift'
             else if b AND 0x40 \<noteq> 0 then Some (val' OR push_bit shift' (- 1), r')
             else Some (val', r'))"
  by pat_completeness auto
termination
proof (relation "measure (\<lambda>(r, val, shift). unat (rd_end r) - unat (rd_pos r))", goal_cases)
  case (2 r val shift x b r' val' shift')
  then have "b \<noteq> 0" by auto
  with 2 show ?case using rd_u8_nonzero [of r b r'] by auto
qed simp

declare sleb_loop.simps [simp del]

definition rd_sleb :: "reader \<Rightarrow> (sleb128 \<times> reader) option" where
  "rd_sleb r = sleb_loop r 0 0"

subsection \<open>Strings and byte arrays\<close>

text \<open>
  \<open>str\<close>: the scan for the terminating zero, as the number of bytes before it, within the
  \<open>lim\<close> bytes left before the end; \<open>None\<close> when \<open>data\<close> is indexed out of range.
\<close>

fun scan_nul :: "nat \<Rightarrow> byte list \<Rightarrow> nat option" where
  "scan_nul 0 bs = Some 0"
| "scan_nul (Suc lim) [] = None"
| "scan_nul (Suc lim) (b # bs) = (if b = 0 then Some 0 else map_option Suc (scan_nul lim bs))"

definition rd_str :: "reader \<Rightarrow> (byte list \<times> reader) option" where
  "rd_str r =
     (let cur = rd_pos r; lim = unat (rd_end r) - unat cur
      in case scan_nul lim (drop (unat cur) (rd_data r)) of
           None \<Rightarrow> None
         | Some k \<Rightarrow>
             if k \<ge> lim then Some ([], r\<lparr>rd_pos := rd_end r + 1\<rparr>)
             else Some (take k (drop (unat cur) (rd_data r)), r\<lparr>rd_pos := cur + word_of_nat k + 1\<rparr>))"

text \<open>\<open>bytes(num)\<close>: \<open>Inl ()\<close> is the nil slice of an overread.\<close>

definition rd_bytes :: "uintptr \<Rightarrow> reader \<Rightarrow> ((unit + byte list) \<times> reader) option" where
  "rd_bytes num r =
     (let cur = rd_pos r; end = cur + num; r' = r\<lparr>rd_pos := end\<rparr>
      in if \<not> isValid r' then Some (Inl (), r')
         else if go_slice_ok cur end (rd_data r) then Some (Inr (go_slice cur end (rd_data r)), r')
         else None)"

subsection \<open>Expressions\<close>

text \<open>
  One iteration of the loop of \<open>expression\<close>: read an opcode with its operands.
  \<open>Inl\<close> is the unsupported opcode.
\<close>

definition read_expr_op :: "reader \<Rightarrow> ((eherr + dwarfExpression) \<times> reader) option" where
  "read_expr_op ed = do {
     (op, ed) \<leftarrow> rd_u8 ed;
     if opLit0 \<le> op \<and> op \<le> opLit0 + 31 then
       Some (Inr \<lparr>de_opcode = opLit0, de_operand1 = ucast (op - opLit0), de_operand2 = 0\<rparr>, ed)
     else if opBReg0 \<le> op \<and> op \<le> opBReg0 + 31 then do {
       (s, ed) \<leftarrow> rd_sleb ed;
       Some (Inr \<lparr>de_opcode = opBReg0, de_operand1 = ucast (op - opBReg0), de_operand2 = s\<rparr>, ed) }
     else if op = opConstU \<or> op = opPlusUConst then do {
       (u, ed) \<leftarrow> rd_uleb ed;
       Some (Inr \<lparr>de_opcode = op, de_operand1 = u, de_operand2 = 0\<rparr>, ed) }
     else if op = opConstS then do {
       (s, ed) \<leftarrow> rd_sleb ed;
       Some (Inr \<lparr>de_opcode = op, de_operand1 = s, de_operand2 = 0\<rparr>, ed) }
     else if op = opDeref \<or> opRot \<le> op \<and> op \<le> opNE then
       Some (Inr \<lparr>de_opcode = op, de_operand1 = 0, de_operand2 = 0\<rparr>, ed)
     else Some (Inl ErrExpressionUnsupported, ed) }"

fun expression_loop :: "nat \<Rightarrow> reader \<Rightarrow> dwarfExpression list \<Rightarrow> (eherr + dwarfExpression list) option" where
  "expression_loop 0 ed expr = Some (if hasData ed then Inl OutOfFuel else Inr expr)"
| "expression_loop (Suc fuel) ed expr =
     (if hasData ed then
        (case read_expr_op ed of
           None \<Rightarrow> None
         | Some (Inl e, ed') \<Rightarrow> Some (Inl e)
         | Some (Inr x, ed') \<Rightarrow> expression_loop fuel ed' (expr @ [x]))
      else Some (Inr expr))"

text \<open>
  \<open>expression\<close>: the block is parsed by a reader of its own over its bytes; every iteration
  consumes a byte, so that the length of the block is enough fuel
  (\<open>expression_enough_fuel\<close> below).
\<close>

definition expr_reader :: "byte list \<Rightarrow> uintptr \<Rightarrow> reader" where
  "expr_reader block blen =
     \<lparr>rd_debugFrame = False, rd_data = block, rd_pos = 0, rd_end = blen, rd_vaddr = 0\<rparr>"

definition rd_expression :: "reader \<Rightarrow> ((eherr + dwarfExpression list) \<times> reader) option" where
  "rd_expression r = do {
     (blen, r) \<leftarrow> rd_uleb r;
     (bs, r) \<leftarrow> rd_bytes blen r;
     case bs of
       Inl _ \<Rightarrow> Some (Inl ErrExpressionMissing, r)
     | Inr block \<Rightarrow>
         do { res \<leftarrow> expression_loop (length block) (expr_reader block blen) []; Some (res, r) } }"

subsection \<open>Encoded pointers\<close>

definition ptr_value :: "encoding \<Rightarrow> reader \<Rightarrow> ((eherr + uintptr) \<times> reader) option" where
  "ptr_value enc r =
     (let fmt = enc AND (encFormatMask OR encSignedMask)
      in if fmt = encFormatData2 then do { (v, r) \<leftarrow> rd_u16 r; Some (Inr (ucast v), r) }
         else if fmt = encFormatData4 then do { (v, r) \<leftarrow> rd_u32 r; Some (Inr (ucast v), r) }
         else if fmt = encFormatData8 \<or> fmt = encFormatNative \<or> fmt = encFormatData8 OR encSignedMask
         then do { (v, r) \<leftarrow> rd_u64 r; Some (Inr v, r) }
         else if fmt = encFormatData2 OR encSignedMask
         then do { (v, r) \<leftarrow> rd_u16 r; Some (Inr (scast v), r) }
         else if fmt = encFormatData4 OR encSignedMask
         then do { (v, r) \<leftarrow> rd_u32 r; Some (Inr (scast v), r) }
         else Some (Inl (ErrFormatEncoding enc), r))"

definition rd_ptr :: "encoding \<Rightarrow> reader \<Rightarrow> ((eherr + uintptr) \<times> reader) option" where
  "rd_ptr enc r =
     (if enc = encOmit then Some (Inr 0, r)
      else do {
        let pos = rd_pos r;
        (v, r) \<leftarrow> ptr_value enc r;
        case v of
          Inl e \<Rightarrow> Some (Inl e, r)
        | Inr val \<Rightarrow>
            let adj = enc AND encAdjustMask;
                res = (if adj = encAdjustAbs then Inr val
                       else if adj = encAdjustPcRel then Inr (val + (pos + rd_vaddr r))
                       else if adj = encAdjustDataRel then Inr (val + rd_vaddr r)
                       else Inl (ErrAdjustEncoding enc))
            in case res of
                 Inl e \<Rightarrow> Some (Inl e, r)
               | Inr val \<Rightarrow>
                   if enc AND encIndirect \<noteq> 0 then Some (Inl (ErrIndirectEncoding enc), r)
                   else Some (Inr val, r) })"


section \<open>Positions\<close>

text \<open>
  A reader is well formed when its end lies inside its data; \<open>rd_ok k r\<close> says in addition
  that neither its position nor its end is within \<open>k\<close> of wrapping around. \<open>advances c\<close> is
  what every read of the parser does to the reader: only the position changes, it does not
  move back, and it passes the end by at most \<open>c\<close>.
\<close>

definition rd_wf :: "reader \<Rightarrow> bool" where
  "rd_wf r \<longleftrightarrow> unat (rd_end r) \<le> length (rd_data r) \<and> length (rd_data r) < 2 ^ 63"

definition rd_ok :: "nat \<Rightarrow> reader \<Rightarrow> bool" where
  "rd_ok k r \<longleftrightarrow> rd_wf r \<and> max (unat (rd_pos r)) (unat (rd_end r)) + k < 2 ^ 64"

definition advances :: "nat \<Rightarrow> reader \<Rightarrow> reader \<Rightarrow> bool" where
  "advances c r r' \<longleftrightarrow> rd_data r' = rd_data r \<and> rd_end r' = rd_end r \<and> rd_vaddr r' = rd_vaddr r \<and>
     rd_debugFrame r' = rd_debugFrame r \<and> unat (rd_pos r) \<le> unat (rd_pos r') \<and>
     unat (rd_pos r') \<le> max (unat (rd_pos r)) (unat (rd_end r)) + c"

lemma advances_frame:
  assumes "advances c r r'"
  shows "rd_data r' = rd_data r" "rd_end r' = rd_end r" "rd_vaddr r' = rd_vaddr r"
    "rd_debugFrame r' = rd_debugFrame r" "unat (rd_pos r) \<le> unat (rd_pos r')"
  using assms by (simp_all add: advances_def)

lemma advances_refl [simp, intro]: "advances c r r"
  by (simp add: advances_def)

lemma advances_trans: "advances c r r' \<Longrightarrow> advances d r' r'' \<Longrightarrow> advances (c + d) r r''"
  unfolding advances_def by (auto simp: max_def split: if_splits)

lemma advances_mono: "advances c r r' \<Longrightarrow> c \<le> d \<Longrightarrow> advances d r r'"
  unfolding advances_def by auto

lemma rd_ok_advances: "rd_ok (c + k) r \<Longrightarrow> advances c r r' \<Longrightarrow> rd_ok k r'"
  by (auto simp: rd_ok_def rd_wf_def advances_def)

lemma rd_ok_mono: "rd_ok k r \<Longrightarrow> j \<le> k \<Longrightarrow> rd_ok j r"
  by (auto simp: rd_ok_def)

lemma rd_ok_wf: "rd_ok k r \<Longrightarrow> rd_wf r"
  by (simp add: rd_ok_def)

subsection \<open>Fixed width reads\<close>

lemma rd_get_ok:
  assumes ok: "rd_ok (unat n) r" and n: "n \<noteq> 0"
  shows "\<exists>bs. rd_get n r = Some (bs, r\<lparr>rd_pos := rd_pos r + n\<rparr>) \<and>
    unat (rd_pos r + n) = unat (rd_pos r) + unat n"
proof -
  have pos: "unat (rd_pos r + n) = unat (rd_pos r) + unat n"
    using ok by (intro unat_add_no_wrap) (auto simp: rd_ok_def)
  have "0 < unat n" using n by (simp add: unat_gt_0)
  then have "go_index_ok (rd_pos r) (rd_data r)" if "isValid (r\<lparr>rd_pos := rd_pos r + n\<rparr>)"
    using that ok pos by (auto simp: isValid_def go_index_ok_def rd_ok_def rd_wf_def word_le_nat_alt)
  then show ?thesis using pos by (simp add: rd_get_def Let_def)
qed

lemma rd_get_advances:
  assumes "rd_get n r = Some (bs, r')" "rd_ok (unat n) r"
  shows "advances (unat n) r r'" "unat (rd_pos r') = unat (rd_pos r) + unat n"
proof -
  have "unat (rd_pos r + n) = unat (rd_pos r) + unat n"
    using assms(2) by (intro unat_add_no_wrap) (auto simp: rd_ok_def)
  then show "advances (unat n) r r'" "unat (rd_pos r') = unat (rd_pos r) + unat n"
    using rd_get_pos [OF assms(1)] by (simp_all add: advances_def)
qed

lemma rd_get_ok_advances:
  assumes "rd_ok (unat n) r" "n \<noteq> 0"
  shows "\<exists>bs r'. rd_get n r = Some (bs, r') \<and> advances (unat n) r r' \<and> unat (rd_pos r) < unat (rd_pos r')"
  using rd_get_ok [OF assms] rd_get_advances [OF _ assms(1)] assms(2)
  by (metis less_add_same_cancel1 unat_gt_0)

lemma rd_fixed_ok:
  "rd_ok 1 r \<Longrightarrow> \<exists>v r'. rd_u8 r = Some (v, r') \<and> advances 1 r r' \<and> unat (rd_pos r) < unat (rd_pos r')"
  "rd_ok 2 r \<Longrightarrow> \<exists>v r'. rd_u16 r = Some (v, r') \<and> advances 2 r r' \<and> unat (rd_pos r) < unat (rd_pos r')"
  "rd_ok 4 r \<Longrightarrow> \<exists>v r'. rd_u32 r = Some (v, r') \<and> advances 4 r r' \<and> unat (rd_pos r) < unat (rd_pos r')"
  "rd_ok 8 r \<Longrightarrow> \<exists>v r'. rd_u64 r = Some (v, r') \<and> advances 8 r r' \<and> unat (rd_pos r) < unat (rd_pos r')"
  using rd_get_ok_advances [of 1 r] rd_get_ok_advances [of 2 r]
    rd_get_ok_advances [of 4 r] rd_get_ok_advances [of 8 r]
  by (auto simp: rd_u8_def rd_u16_def rd_u32_def rd_u64_def)

text \<open>Reading a byte inside the bounds gives the byte.\<close>

lemma rd_u8_inside:
  assumes "rd_wf r" "unat (rd_pos r) < unat (rd_end r)"
  shows "rd_u8 r = Some (rd_data r ! unat (rd_pos r), r\<lparr>rd_pos := rd_pos r + 1\<rparr>)"
proof -
  have len: "unat (rd_pos r) < length (rd_data r)" "unat (rd_pos r) < 2 ^ 63"
    using assms by (auto simp: rd_wf_def)
  have "unat (rd_pos r + 1) = Suc (unat (rd_pos r))"
    using len(2) by (intro unat_Suc_no_wrap [where n = "2 ^ 63"]) simp_all
  then have "isValid (r\<lparr>rd_pos := rd_pos r + 1\<rparr>)"
    using assms(2) by (simp add: isValid_def word_le_nat_alt)
  moreover have "take 1 (drop (unat (rd_pos r)) (rd_data r)) = [rd_data r ! unat (rd_pos r)]"
    using len(1) by (simp add: take_Suc_conv_app_nth flip: Cons_nth_drop_Suc)
  ultimately show ?thesis
    using len by (simp add: rd_u8_def rd_get_def Let_def go_index_ok_def)
qed

text \<open>A read that ends beyond the end gives zero.\<close>

lemma rd_u8_outside:
  assumes "unat (rd_end r) \<le> unat (rd_pos r)" "rd_ok 1 r"
  shows "rd_u8 r = Some (0, r\<lparr>rd_pos := rd_pos r + 1\<rparr>)"
proof -
  have "unat (rd_pos r + 1) = unat (rd_pos r) + 1"
    using assms(2) unat_add_no_wrap [of "rd_pos r" 1] by (simp add: rd_ok_def)
  then have "\<not> isValid (r\<lparr>rd_pos := rd_pos r + 1\<rparr>)"
    using assms(1) by (simp add: isValid_def word_le_nat_alt)
  then show ?thesis by (simp add: rd_u8_def rd_get_def Let_def)
qed

subsection \<open>LEB128 reads\<close>

text \<open>A LEB128 read consumes at least a byte and passes the end by at most one.\<close>

lemma uleb_loop_ok:
  assumes "rd_ok 1 r"
  shows "\<exists>v r'. uleb_loop r val shift = Some (v, r') \<and> advances 1 r r' \<and>
    unat (rd_pos r) < unat (rd_pos r')"
  using assms
proof (induction r val shift rule: uleb_loop.induct)
  case (1 r val shift)
  obtain b r1 where b: "rd_u8 r = Some (b, r1)" and adv: "advances 1 r r1"
    and lt: "unat (rd_pos r) < unat (rd_pos r1)"
    using rd_fixed_ok(1) [OF "1.prems"] by blast
  show ?case
  proof (cases "b AND 0x80 = 0")
    case True
    then show ?thesis
      using b adv lt by (subst uleb_loop.simps) (simp add: Let_def)
  next
    case False
    then have "b \<noteq> 0" by auto
    note nz = rd_u8_nonzero [OF b this]
    have ok1: "rd_ok 1 r1"
      using "1.prems" adv nz by (auto simp: rd_ok_def rd_wf_def advances_def)
    let ?val = "val OR push_bit shift (ucast (b AND 0x7f))"
    obtain v r' where v: "uleb_loop r1 ?val (shift + 7) = Some (v, r')" and adv': "advances 1 r1 r'"
      and lt': "unat (rd_pos r1) < unat (rd_pos r')"
      using "1.IH" [OF b refl refl False ok1] by blast
    have "uleb_loop r val shift = Some (v, r')"
      using b False v by (subst uleb_loop.simps) (simp add: Let_def)
    moreover have "advances 1 r r'"
      using adv adv' nz lt lt' by (auto simp: advances_def)
    ultimately show ?thesis using lt lt' by auto
  qed
qed

lemma sleb_loop_ok:
  assumes "rd_ok 1 r"
  shows "\<exists>v r'. sleb_loop r val shift = Some (v, r') \<and> advances 1 r r' \<and>
    unat (rd_pos r) < unat (rd_pos r')"
  using assms
proof (induction r val shift rule: sleb_loop.induct)
  case (1 r val shift)
  obtain b r1 where b: "rd_u8 r = Some (b, r1)" and adv: "advances 1 r r1"
    and lt: "unat (rd_pos r) < unat (rd_pos r1)"
    using rd_fixed_ok(1) [OF "1.prems"] by blast
  show ?case
  proof (cases "b AND 0x80 = 0")
    case True
    then show ?thesis
      using b adv lt by (subst sleb_loop.simps) (simp add: Let_def)
  next
    case False
    then have "b \<noteq> 0" by auto
    note nz = rd_u8_nonzero [OF b this]
    have ok1: "rd_ok 1 r1"
      using "1.prems" adv nz by (auto simp: rd_ok_def rd_wf_def advances_def)
    let ?val = "val OR push_bit shift (ucast (b AND 0x7f))"
    obtain v r' where v: "sleb_loop r1 ?val (shift + 7) = Some (v, r')" and adv': "advances 1 r1 r'"
      and lt': "unat (rd_pos r1) < unat (rd_pos r')"
      using "1.IH" [OF b refl refl refl False ok1] by blast
    have "sleb_loop r val shift = Some (v, r')"
      using b False v by (subst sleb_loop.simps) (simp add: Let_def)
    moreover have "advances 1 r r'"
      using adv adv' nz lt lt' by (auto simp: advances_def)
    ultimately show ?thesis using lt lt' by auto
  qed
qed

lemma rd_leb_ok:
  "rd_ok 1 r \<Longrightarrow> \<exists>v r'. rd_uleb r = Some (v, r') \<and> advances 1 r r' \<and> unat (rd_pos r) < unat (rd_pos r')"
  "rd_ok 1 r \<Longrightarrow> \<exists>v r'. rd_sleb r = Some (v, r') \<and> advances 1 r r' \<and> unat (rd_pos r) < unat (rd_pos r')"
  unfolding rd_uleb_def rd_sleb_def by (rule uleb_loop_ok sleb_loop_ok; assumption)+


section \<open>LEB128 round trips\<close>

text \<open>The standard encoders, as the DWARF specification gives them.\<close>

fun enc_uleb :: "nat \<Rightarrow> byte list" where
  "enc_uleb n =
     (if n < 128 then [word_of_nat n] else word_of_nat (n mod 128 + 128) # enc_uleb (n div 128))"

function enc_sleb :: "int \<Rightarrow> byte list" where
  "enc_sleb i =
     (if - 64 \<le> i \<and> i < 64 then [word_of_nat (nat (i mod 128))]
      else word_of_nat (nat (i mod 128) + 128) # enc_sleb (i div 128))"
  by pat_completeness auto
termination
  by (relation "measure (\<lambda>i. nat \<bar>i\<bar>)") auto

declare enc_uleb.simps [simp del] enc_sleb.simps [simp del]

text \<open>The bytes of an encoding are in the data at the position of the reader.\<close>

definition rd_at :: "reader \<Rightarrow> byte list \<Rightarrow> bool" where
  "rd_at r bs \<longleftrightarrow> rd_wf r \<and> unat (rd_pos r) + length bs \<le> unat (rd_end r) \<and>
     take (length bs) (drop (unat (rd_pos r)) (rd_data r)) = bs"

lemma rd_at_Cons:
  assumes "rd_at r (b # bs)"
  shows "rd_u8 r = Some (b, r\<lparr>rd_pos := rd_pos r + 1\<rparr>)" and "rd_at (r\<lparr>rd_pos := rd_pos r + 1\<rparr>) bs"
proof -
  have wf: "rd_wf r" and pos: "unat (rd_pos r) + Suc (length bs) \<le> unat (rd_end r)"
    and tk: "take (Suc (length bs)) (drop (unat (rd_pos r)) (rd_data r)) = b # bs"
    using assms by (simp_all add: rd_at_def)
  have len: "unat (rd_pos r) < length (rd_data r)" "unat (rd_pos r) < 2 ^ 63"
    using wf pos by (auto simp: rd_wf_def)
  have eq: "drop (unat (rd_pos r)) (rd_data r) =
      rd_data r ! unat (rd_pos r) # drop (Suc (unat (rd_pos r))) (rd_data r)"
    using len(1) by (simp add: Cons_nth_drop_Suc)
  then show "rd_u8 r = Some (b, r\<lparr>rd_pos := rd_pos r + 1\<rparr>)"
    using rd_u8_inside [OF wf] pos tk by simp
  have "unat (rd_pos r + 1) = Suc (unat (rd_pos r))"
    using len(2) by (intro unat_Suc_no_wrap [where n = "2 ^ 63"]) simp_all
  then show "rd_at (r\<lparr>rd_pos := rd_pos r + 1\<rparr>) bs"
    using wf pos tk eq by (simp add: rd_at_def rd_wf_def)
qed

text \<open>Below a shift that keeps the accumulator clear, \<open>|\<close> adds.\<close>

lemma or_push_bit_add:
  fixes val x :: u64
  assumes "take_bit s val = val"
  shows "val OR push_bit s x = val + x * 2 ^ s"
proof -
  have "take_bit s val AND push_bit s x = 0"
    by (auto simp: bit_eq_iff bit_simps)
  then show ?thesis
    using assms by (simp add: disjunctive_add_eq_or push_bit_eq_mult)
qed

lemma take_bit_or_push_bit:
  fixes val x :: u64
  assumes "take_bit s val = val" "take_bit 7 x = x"
  shows "take_bit (s + 7) (val OR push_bit s x) = val OR push_bit s x"
proof -
  have "take_bit (s + 7) val = val"
    using assms(1) by (metis le_add1 min.absorb1 take_bit_take_bit min.commute)
  moreover have "take_bit (s + 7) (push_bit s x) = push_bit s x"
    using assms(2) by (simp add: take_bit_push_bit)
  ultimately show ?thesis by simp
qed

lemma and_7f: "b AND 0x7f = take_bit 7 b" for b :: u8
proof -
  have m: "(0x7f::u8) = mask 7" by (simp add: mask_eq_exp_minus_1)
  show ?thesis unfolding m by (rule take_bit_eq_mask [symmetric])
qed

lemma low7: "take_bit 7 (ucast (b AND 0x7f) :: u64) = ucast (b AND 0x7f)" for b :: u8
  by (simp add: and_7f unsigned_take_bit_eq)

lemma unat_take_bit7: "unat (take_bit 7 b) = unat b mod 128" for b :: u8
  by (simp only: unsigned_take_bit_eq) (simp add: take_bit_eq_mod)

lemma low7_unat: "(ucast (b AND 0x7f) :: u64) = word_of_nat (unat b mod 128)" for b :: u8
  by (simp only: and_7f flip: unat_take_bit7) simp

lemma and_80: "b AND 0x80 = 0 \<longleftrightarrow> unat b < 128" for b :: u8
proof -
  have m: "(0x80::u8) = NOT (mask 7)" by (simp add: mask_eq_exp_minus_1)
  have "b AND 0x80 = 0 \<longleftrightarrow> take_bit 7 b = b"
    unfolding m by (auto simp: bit_eq_iff bit_simps)
  also have "\<dots> \<longleftrightarrow> unat b < 128"
    by (simp add: word_unat_eq_iff unsigned_take_bit_eq take_bit_nat_eq_self_iff)
  finally show ?thesis .
qed

lemma and_40: "b AND 0x40 = 0 \<longleftrightarrow> unat b mod 128 < 64" for b :: u8
proof -
  have m: "(0x40::u8) = mask 7 AND NOT (mask 6)" by (simp add: mask_eq_exp_minus_1)
  have "b AND 0x40 = 0 \<longleftrightarrow> take_bit 6 (take_bit 7 b) = take_bit 7 b"
    unfolding m by (auto simp: bit_eq_iff bit_simps)
  also have "\<dots> \<longleftrightarrow> unat b mod 128 < 64"
    by (simp only: word_unat_eq_iff unsigned_take_bit_eq take_bit_nat_eq_self_iff)
      (simp add: take_bit_eq_mod)
  finally show ?thesis .
qed

lemma unat_u8_of_nat: "n < 256 \<Longrightarrow> unat (word_of_nat n :: u8) = n"
  by (simp add: unat_of_nat)

lemma uleb_loop_enc:
  assumes "rd_at r (enc_uleb n)" "take_bit s val = val"
  shows "uleb_loop r val s =
    Some (val + word_of_nat n * 2 ^ s, r\<lparr>rd_pos := rd_pos r + word_of_nat (length (enc_uleb n))\<rparr>)"
  using assms
proof (induction n arbitrary: r val s rule: enc_uleb.induct)
  case (1 n)
  show ?case
  proof (cases "n < 128")
    case True
    then have "unat (word_of_nat n :: u8) = n" by (simp add: unat_of_nat)
    then show ?thesis
      using "1.prems" True rd_at_Cons(1) [of r "word_of_nat n" "[]"]
      by (subst uleb_loop.simps)
        (simp add: enc_uleb.simps [of n] and_80 low7_unat or_push_bit_add Let_def)
  next
    case False
    let ?b = "word_of_nat (n mod 128 + 128) :: u8"
    let ?r = "r\<lparr>rd_pos := rd_pos r + 1\<rparr>" and ?val = "val OR push_bit s (ucast (?b AND 0x7f))"
    have "n mod 128 < 128" by simp
    then have b: "unat ?b = n mod 128 + 128" by (intro unat_u8_of_nat) linarith
    have e: "enc_uleb n = ?b # enc_uleb (n div 128)"
      using False by (simp add: enc_uleb.simps [of n])
    have rd: "rd_u8 r = Some (?b, ?r)" and at: "rd_at ?r (enc_uleb (n div 128))"
      using rd_at_Cons [of r ?b "enc_uleb (n div 128)"] "1.prems"(1) e by simp_all
    have val: "?val = val + word_of_nat (n mod 128) * 2 ^ s"
      using "1.prems"(2) b by (simp only: or_push_bit_add low7_unat) simp
    have "uleb_loop r val s = uleb_loop ?r ?val (s + 7)"
      using b by (subst uleb_loop.simps) (simp only: rd Let_def option.case prod.case and_80, simp)
    also have "\<dots> = Some (?val + word_of_nat (n div 128) * 2 ^ (s + 7),
        ?r\<lparr>rd_pos := rd_pos ?r + word_of_nat (length (enc_uleb (n div 128)))\<rparr>)"
      using "1.IH" [OF False at take_bit_or_push_bit [OF "1.prems"(2) low7]] .
    also have "?val + word_of_nat (n div 128) * 2 ^ (s + 7) =
        val + (word_of_nat (n mod 128) + 128 * word_of_nat (n div 128)) * 2 ^ s"
      by (simp only: val) (simp add: power_add algebra_simps)
    also have "word_of_nat (n mod 128) + 128 * word_of_nat (n div 128) = (word_of_nat n :: u64)"
      by (metis mod_mult_div_eq of_nat_add of_nat_mult of_nat_numeral)
    finally show ?thesis by (simp add: e add_ac)
  qed
qed

lemma sleb_loop_enc:
  assumes "rd_at r (enc_sleb i)" "take_bit s val = val"
  shows "sleb_loop r val s =
    Some (val + word_of_int i * 2 ^ s, r\<lparr>rd_pos := rd_pos r + word_of_nat (length (enc_sleb i))\<rparr>)"
  using assms
proof (induction i arbitrary: r val s rule: enc_sleb.induct)
  case (1 i)
  have mod: "word_of_nat (nat (i mod 128)) = (word_of_int (i mod 128) :: u64)"
    by (simp add: of_nat_nat)
  show ?case
  proof (cases "- 64 \<le> i \<and> i < 64")
    case True
    let ?b = "word_of_nat (nat (i mod 128)) :: u8"
    have lt: "nat (i mod 128) < 128" by (simp add: nat_less_iff)
    then have b: "unat ?b = nat (i mod 128)" by (intro unat_u8_of_nat) simp
    have rd: "rd_u8 r = Some (?b, r\<lparr>rd_pos := rd_pos r + 1\<rparr>)"
      using rd_at_Cons(1) [of r ?b "[]"] "1.prems"(1) True by (simp add: enc_sleb.simps [of i])
    let ?val = "val OR push_bit s (ucast (?b AND 0x7f))"
    have val: "?val = val + word_of_int (i mod 128) * 2 ^ s"
      using "1.prems"(2) lt by (simp only: or_push_bit_add low7_unat b) (simp add: mod)
    have ext: "?val OR push_bit (s + 7) (- 1) = val + word_of_int (i mod 128 - 128) * 2 ^ s"
      by (subst or_push_bit_add [OF take_bit_or_push_bit [OF "1.prems"(2) low7]], subst val)
        (simp add: power_add algebra_simps)
    have "sleb_loop r val s =
        Some (val + word_of_int (if nat (i mod 128) < 64 then i mod 128 else i mod 128 - 128) * 2 ^ s,
          r\<lparr>rd_pos := rd_pos r + 1\<rparr>)"
      using lt by (subst sleb_loop.simps)
        (simp only: rd Let_def option.case prod.case and_80 and_40 b val ext [unfolded val], simp add: b)
    moreover have "(if nat (i mod 128) < 64 then i mod 128 else i mod 128 - 128) = i"
      using True by (simp add: nat_less_iff) presburger
    ultimately show ?thesis using True by (simp add: enc_sleb.simps [of i])
  next
    case False
    let ?b = "word_of_nat (nat (i mod 128) + 128) :: u8"
    let ?r = "r\<lparr>rd_pos := rd_pos r + 1\<rparr>" and ?val = "val OR push_bit s (ucast (?b AND 0x7f))"
    have lt: "nat (i mod 128) < 128" by (simp add: nat_less_iff)
    then have b: "unat ?b = nat (i mod 128) + 128" by (intro unat_u8_of_nat) simp
    have e: "enc_sleb i = ?b # enc_sleb (i div 128)"
      using False by (subst enc_sleb.simps) (simp only: if_False)
    have rd: "rd_u8 r = Some (?b, ?r)" and at: "rd_at ?r (enc_sleb (i div 128))"
      using rd_at_Cons [of r ?b "enc_sleb (i div 128)"] "1.prems"(1) e by simp_all
    have val: "?val = val + word_of_int (i mod 128) * 2 ^ s"
      using "1.prems"(2) lt by (simp only: or_push_bit_add low7_unat b) (simp add: mod)
    have "sleb_loop r val s = sleb_loop ?r ?val (s + 7)"
      using b by (subst sleb_loop.simps) (simp only: rd Let_def option.case prod.case and_80, simp)
    also have "\<dots> = Some (?val + word_of_int (i div 128) * 2 ^ (s + 7),
        ?r\<lparr>rd_pos := rd_pos ?r + word_of_nat (length (enc_sleb (i div 128)))\<rparr>)"
      using "1.IH" [OF False at take_bit_or_push_bit [OF "1.prems"(2) low7]] .
    also have "?val + word_of_int (i div 128) * 2 ^ (s + 7) =
        val + (word_of_int (i mod 128) + 128 * word_of_int (i div 128)) * 2 ^ s"
      by (simp only: val) (simp add: power_add algebra_simps)
    also have "word_of_int (i mod 128) + 128 * word_of_int (i div 128) = (word_of_int i :: u64)"
      by (metis mod_mult_div_eq of_int_add of_int_mult of_int_numeral)
    finally show ?thesis by (simp add: e add_ac)
  qed
qed

text \<open>C29: LEB128 numbers are read back as they were written: \<open>uleb\<close> on the encoding of a
  natural number and \<open>sleb\<close> on the encoding of an integer give the number modulo \<open>2^64\<close> and
  leave the position just behind the encoding, however long it is.\<close>

theorem leb128_roundtrip:
  assumes "rd_at r (enc_uleb n)" "rd_at r' (enc_sleb i)"
  shows "rd_uleb r =
      Some (word_of_nat n, r\<lparr>rd_pos := rd_pos r + word_of_nat (length (enc_uleb n))\<rparr>) \<and>
    rd_sleb r' =
      Some (word_of_int i, r'\<lparr>rd_pos := rd_pos r' + word_of_nat (length (enc_sleb i))\<rparr>)"
  using uleb_loop_enc [OF assms(1), of 0 0] sleb_loop_enc [OF assms(2), of 0 0]
  by (simp add: rd_uleb_def rd_sleb_def)

definition leb_example :: reader where
  "leb_example = \<lparr>rd_debugFrame = False, rd_data = [0xE5, 0x8E, 0x26, 0x80, 0x7f], rd_pos = 0,
     rd_end = 5, rd_vaddr = 0\<rparr>"

theorem leb128_roundtrip_witness:
  "rd_uleb leb_example = Some (624485, leb_example\<lparr>rd_pos := 3\<rparr>) \<and>
   rd_sleb (leb_example\<lparr>rd_pos := 3\<rparr>) = Some (- 128, leb_example\<lparr>rd_pos := 5\<rparr>)"
proof -
  have u: "enc_uleb 624485 = [0xE5, 0x8E, 0x26]" by (simp add: enc_uleb.simps)
  have s: "enc_sleb (- 128) = [0x80, 0x7f]" by (simp add: enc_sleb.simps)
  have "rd_at leb_example (enc_uleb 624485)" "rd_at (leb_example\<lparr>rd_pos := 3\<rparr>) (enc_sleb (- 128))"
    by (simp_all add: rd_at_def rd_wf_def leb_example_def u s)
  from leb128_roundtrip [OF this] show ?thesis
    by (simp add: u s leb_example_def)
qed

section \<open>Expressions\<close>

lemma read_expr_op_ok:
  assumes "rd_ok 2 r"
  shows "\<exists>res r'. read_expr_op r = Some (res, r') \<and> advances 2 r r' \<and>
    unat (rd_pos r) < unat (rd_pos r') \<and> res \<noteq> Inl OutOfFuel"
proof -
  obtain op r1 where op: "rd_u8 r = Some (op, r1)" and adv: "advances 1 r r1"
    and lt: "unat (rd_pos r) < unat (rd_pos r1)"
    using rd_fixed_ok(1) [OF rd_ok_mono [OF assms]] by auto
  have "rd_ok 1 r1" using rd_ok_advances [of 1 1, OF _ adv] assms by (simp add: numeral_2_eq_2)
  then obtain u r2 s r3 where u: "rd_uleb r1 = Some (u, r2)" "advances 1 r1 r2"
      "unat (rd_pos r1) < unat (rd_pos r2)"
    and s: "rd_sleb r1 = Some (s, r3)" "advances 1 r1 r3" "unat (rd_pos r1) < unat (rd_pos r3)"
    using rd_leb_ok by meson
  have "advances 2 r r1" "advances 2 r r2" "advances 2 r r3"
    using advances_mono [OF adv] advances_trans [OF adv u(2)] advances_trans [OF adv s(2)]
    by (simp_all add: numeral_2_eq_2)
  then show ?thesis
    using lt u s by (simp add: read_expr_op_def op)
qed

lemma expression_loop_total:
  assumes "rd_wf r" "unat (rd_pos r) \<le> unat (rd_end r) + 2"
    "unat (rd_end r) \<le> unat (rd_pos r) + fuel"
  shows "\<exists>res. expression_loop fuel r expr = Some res \<and> res \<noteq> Inl OutOfFuel"
  using assms
proof (induction fuel arbitrary: r expr)
  case 0
  then show ?case by (simp add: hasData_def word_less_nat_alt)
next
  case (Suc fuel)
  show ?case
  proof (cases "hasData r")
    case True
    have "rd_ok 2 r" using Suc.prems by (auto simp: rd_ok_def rd_wf_def)
    then obtain res r' where op: "read_expr_op r = Some (res, r')" and adv: "advances 2 r r'"
      and lt: "unat (rd_pos r) < unat (rd_pos r')" and res: "res \<noteq> Inl OutOfFuel"
      using read_expr_op_ok by blast
    have "rd_wf r'" using adv Suc.prems(1) by (simp add: advances_def rd_wf_def)
    moreover have "unat (rd_pos r') \<le> unat (rd_end r') + 2"
      using adv True by (simp add: advances_def hasData_def word_less_nat_alt)
    moreover have "unat (rd_end r') \<le> unat (rd_pos r') + fuel"
      using adv lt Suc.prems(3) by (simp add: advances_def)
    ultimately have "\<exists>res. expression_loop fuel r' e = Some res \<and> res \<noteq> Inl OutOfFuel" for e
      by (rule Suc.IH)
    then show ?thesis using True op res by (cases res) auto
  qed simp
qed

text \<open>The fuel that \<open>rd_expression\<close> gives the loop is enough.\<close>

lemma expression_enough_fuel:
  assumes "length block = unat blen" "length block < 2 ^ 63"
  shows "\<exists>res. expression_loop (length block) (expr_reader block blen) [] = Some res \<and> res \<noteq> Inl OutOfFuel"
  using assms by (intro expression_loop_total) (simp_all add: expr_reader_def rd_wf_def)

lemma rd_expression_result:
  assumes "rd_ok 1 r"
  shows "\<exists>blen r1. rd_uleb r = Some (blen, r1) \<and>
    (rd_expression r = None \<longleftrightarrow>
       2 ^ 64 \<le> unat (rd_pos r1) + unat blen \<and> rd_pos r1 + blen \<le> rd_end r) \<and>
    (\<forall>res r'. rd_expression r = Some (res, r') \<longrightarrow> res \<noteq> Inl OutOfFuel \<and>
       r' = r\<lparr>rd_pos := rd_pos r1 + blen\<rparr>)"
proof -
  obtain blen r1 where u: "rd_uleb r = Some (blen, r1)" and adv: "advances 1 r r1"
    using rd_leb_ok(1) [OF assms] by blast
  have r1: "r1\<lparr>rd_pos := p\<rparr> = r\<lparr>rd_pos := p\<rparr>" for p
    using adv by (cases r1; cases r) (simp add: advances_def)
  have data: "rd_data r1 = rd_data r" "rd_end r1 = rd_end r" using adv by (simp_all add: advances_def)
  have wf: "unat (rd_end r) \<le> length (rd_data r)" "length (rd_data r) < 2 ^ 63"
    using rd_ok_wf [OF assms] by (simp_all add: rd_wf_def)
  let ?fin = "rd_pos r1 + blen"
  have wrap: "unat ?fin = (unat (rd_pos r1) + unat blen) mod 2 ^ 64" by (simp add: unat_word_ariths)
  show ?thesis
  proof (cases "isValid (r1\<lparr>rd_pos := ?fin\<rparr>)")
    case invalid: False
    then have "rd_expression r = Some (Inl ErrExpressionMissing, r1\<lparr>rd_pos := ?fin\<rparr>)"
      by (simp add: rd_expression_def u rd_bytes_def Let_def)
    with invalid show ?thesis using u r1 data by (simp add: isValid_def)
  next
    case valid: True
    then have le: "unat ?fin \<le> unat (rd_end r)" "?fin \<le> rd_end r"
      by (simp_all add: isValid_def data word_le_nat_alt)
    show ?thesis
    proof (cases "unat (rd_pos r1) + unat blen < 2 ^ 64")
      case True
      then have e: "unat ?fin = unat (rd_pos r1) + unat blen" using wrap by simp
      then have ok: "go_slice_ok (rd_pos r1) ?fin (rd_data r)"
        using le wf by (simp add: go_slice_ok_def word_le_nat_alt)
      let ?block = "go_slice (rd_pos r1) ?fin (rd_data r)"
      have "length ?block = unat blen" using e by (simp add: length_go_slice [OF ok])
      moreover have "unat blen < 2 ^ 63" using e le wf by simp
      ultimately obtain res where "expression_loop (length ?block) (expr_reader ?block blen) [] = Some res"
        "res \<noteq> Inl OutOfFuel" using expression_enough_fuel [of ?block blen] by auto
      then have "rd_expression r = Some (res, r1\<lparr>rd_pos := ?fin\<rparr>)"
        using valid ok by (simp add: rd_expression_def u rd_bytes_def Let_def data)
      with True show ?thesis using u r1 \<open>res \<noteq> Inl OutOfFuel\<close> by simp
    next
      case False
      have "unat (rd_pos r1) < 2 ^ 64" "unat blen < 2 ^ 64" using unsigned_less [of "rd_pos r1"] unsigned_less [of blen] by simp_all
      then have "unat ?fin < unat (rd_pos r1)" using False wrap by (auto simp: mod_if split: if_splits)
      then have "\<not> go_slice_ok (rd_pos r1) ?fin (rd_data r)"
        by (simp add: go_slice_ok_def word_le_nat_alt)
      then have "rd_expression r = None"
        using valid by (simp add: rd_expression_def u rd_bytes_def Let_def data)
      with False show ?thesis using u le(2) by simp
    qed
  qed
qed

text \<open>
  C28: Parsing an expression always terminates, and without running out of fuel; it panics exactly
  when the length of the expression block, an arbitrary number of the file, makes the position
  wrap around to one before the end of the section.
\<close>

theorem rd_expression_panics_iff:
  assumes "rd_ok 1 r"
  shows "\<exists>blen r1. rd_uleb r = Some (blen, r1) \<and>
    (rd_expression r = None \<longleftrightarrow>
       2 ^ 64 \<le> unat (rd_pos r1) + unat blen \<and> rd_pos r1 + blen \<le> rd_end r) \<and>
    (\<forall>res r'. rd_expression r = Some (res, r') \<longrightarrow> res \<noteq> Inl OutOfFuel \<and>
       r' = r\<lparr>rd_pos := rd_pos r1 + blen\<rparr>)"
  using rd_expression_result [OF assms] .

text \<open>An expression whose block length is \<open>2^64 - 1\<close>.\<close>

definition panic_expression :: reader where
  "panic_expression = \<lparr>rd_debugFrame = False,
     rd_data = [0xff, 0xff, 0xff, 0xff, 0xff, 0xff, 0xff, 0xff, 0xff, 0x01, 0x00, 0x00], rd_pos = 0, rd_end = 12, rd_vaddr = 0\<rparr>"

theorem rd_expression_panics_iff_witness:
  "rd_uleb panic_expression = Some (18446744073709551615, panic_expression\<lparr>rd_pos := 10\<rparr>) \<and>
   rd_expression panic_expression = None"
proof -
  have e: "enc_uleb (18446744073709551615) = [0xff, 0xff, 0xff, 0xff, 0xff, 0xff, 0xff, 0xff, 0xff, 0x01]"
    by (simp add: enc_uleb.simps)
  have "rd_at panic_expression (enc_uleb (18446744073709551615))"
    by (simp add: rd_at_def rd_wf_def panic_expression_def e)
  then have u: "rd_uleb panic_expression = Some (18446744073709551615, panic_expression\<lparr>rd_pos := 10\<rparr>)"
    using uleb_loop_enc [of panic_expression 18446744073709551615 0 0]
    by (simp add: rd_uleb_def e panic_expression_def)
  have "rd_ok 1 panic_expression"
    by (simp add: rd_ok_def rd_wf_def panic_expression_def)
  from rd_expression_panics_iff [OF this] u show ?thesis
    by (simp add: panic_expression_def)
qed

section \<open>Encoded pointers\<close>

text \<open>
  Reading a pointer never panics away from the end of the address space, moves the position by at
  most eight bytes and fails exactly for the encodings that the code does not support.
\<close>

definition ptr_supported :: "encoding \<Rightarrow> bool" where
  "ptr_supported enc \<longleftrightarrow> enc = encOmit \<or>
     enc AND 0x0f \<in> {0x00, 0x02, 0x03, 0x04, 0x0a, 0x0b, 0x0c} \<and>
     enc AND encAdjustMask \<in> {encAdjustAbs, encAdjustPcRel, encAdjustDataRel} \<and>
     enc AND encIndirect = 0"

lemma ptr_value_ok:
  assumes "rd_ok 8 r"
  shows "\<exists>res r'. ptr_value enc r = Some (res, r') \<and> advances 8 r r' \<and> res \<noteq> Inl OutOfFuel \<and>
    ((\<exists>v. res = Inr v) \<longleftrightarrow> enc AND 0x0f \<in> {0x00, 0x02, 0x03, 0x04, 0x0a, 0x0b, 0x0c})"
proof -
  obtain a ra b rb c rc where a: "rd_u16 r = Some (a, ra)" "advances 2 r ra"
    and b: "rd_u32 r = Some (b, rb)" "advances 4 r rb" and c: "rd_u64 r = Some (c, rc)" "advances 8 r rc"
    using rd_fixed_ok(2-4) [OF rd_ok_mono [OF assms]] by fastforce
  then have "advances 8 r ra" "advances 8 r rb" by (auto intro: advances_mono)
  then show ?thesis using a b c by (simp add: ptr_value_def Let_def)
qed

lemma rd_ptr_ok:
  assumes "rd_ok 8 r"
  shows "\<exists>res r'. rd_ptr enc r = Some (res, r') \<and> advances 8 r r' \<and> res \<noteq> Inl OutOfFuel \<and>
    ((\<exists>v. res = Inr v) \<longleftrightarrow> ptr_supported enc)"
proof (cases "enc = encOmit")
  case False
  obtain res r' where v: "ptr_value enc r = Some (res, r')" "advances 8 r r'" "res \<noteq> Inl OutOfFuel"
    and ok: "(\<exists>v. res = Inr v) \<longleftrightarrow> enc AND 0x0f \<in> {0x00, 0x02, 0x03, 0x04, 0x0a, 0x0b, 0x0c}"
    using ptr_value_ok [OF assms] by blast
  then show ?thesis
    using False by (cases res) (auto simp: rd_ptr_def Let_def ptr_supported_def)
qed (simp add: rd_ptr_def ptr_supported_def)

end
