(* ===== verification/VmRegs.thy ===== *)
theory VmRegs
  imports EhReader
begin

text \<open>
  The registers of the DWARF virtual machine (\<open>vmReg\<close>, \<open>vmRegs\<close> of
  \<open>nativeunwind/elfunwindinfo/elfehframe.go\<close>, with the x86-64 and aarch64 parts of
  \<open>elfehframe_x86.go\<close> and \<open>elfehframe_aarch64.go\<close>): the packing of expression
  parameters, the recognition of the supported DWARF expressions and the translation of a register
  state into an unwind descriptor.

  The lemmas show that packing is undone by splitting, that a recognised expression computes what
  the DWARF expression computes, that a descriptor computes the canonical frame address of the
  register state it was made from, and which flags a descriptor may carry.
\<close>

unbundle bit_operations_syntax

section \<open>Architectures and registers\<close>

datatype elf_Machine = EM_AARCH64 | EM_X86_64 | EM_Other u16

definition regUndefined :: uleb128 where [simp]: "regUndefined = 128"
definition regCFA :: uleb128 where [simp]: "regCFA = 129"
definition regCFAVal :: uleb128 where [simp]: "regCFAVal = 130"
definition regSame :: uleb128 where [simp]: "regSame = 131"
definition regExprPLT :: uleb128 where [simp]: "regExprPLT = 256"
definition regExprRegDeref :: uleb128 where [simp]: "regExprRegDeref = 257"
definition regExprRegRegDeref :: uleb128 where [simp]: "regExprRegRegDeref = 258"
definition regExprReg :: uleb128 where [simp]: "regExprReg = 259"

definition x86RegRAX :: uleb128 where [simp]: "x86RegRAX = 0"
definition x86RegRDI :: uleb128 where [simp]: "x86RegRDI = 5"
definition x86RegRBP :: uleb128 where [simp]: "x86RegRBP = 6"
definition x86RegRSP :: uleb128 where [simp]: "x86RegRSP = 7"
definition x86RegR8 :: uleb128 where [simp]: "x86RegR8 = 8"
definition x86RegR9 :: uleb128 where [simp]: "x86RegR9 = 9"
definition x86RegR11 :: uleb128 where [simp]: "x86RegR11 = 11"
definition x86RegR13 :: uleb128 where [simp]: "x86RegR13 = 13"
definition x86RegR15 :: uleb128 where [simp]: "x86RegR15 = 15"
definition x86RegRIP :: uleb128 where [simp]: "x86RegRIP = 16"

definition armRegFP :: uleb128 where [simp]: "armRegFP = 29"
definition armRegLR :: uleb128 where [simp]: "armRegLR = 30"
definition armRegSP :: uleb128 where [simp]: "armRegSP = 31"

record vmReg =
  vr_arch :: elf_Machine
  vr_reg :: uleb128
  vr_off :: sleb128

record vmRegs =
  vs_arch :: elf_Machine
  vs_cfa :: vmReg
  vs_fp :: vmReg
  vs_ra :: vmReg

section \<open>Expression parameters\<close>

definition makeOff :: "int16 \<Rightarrow> int16 \<Rightarrow> int16 \<Rightarrow> int16 \<Rightarrow> sleb128" where
  "makeOff a b c d =
     push_bit 48 (ucast a) + push_bit 32 (ucast b) + push_bit 16 (ucast c) + ucast d"

definition splitOff :: "sleb128 \<Rightarrow> int16 \<times> int16 \<times> int16 \<times> int16" where
  "splitOff off =
     (ucast (signed_drop_bit 48 off), ucast (signed_drop_bit 32 off),
      ucast (signed_drop_bit 16 off), ucast off)"

fun matchExpression :: "dwarfExpression list \<Rightarrow> expressionOpcode list \<Rightarrow> bool" where
  "matchExpression [] [] = True"
| "matchExpression (e # es) (t # ts) = (de_opcode e = t \<and> matchExpression es ts)"
| "matchExpression es ts = False"

text \<open>
  \<open>(*vmReg).expression\<close>: the new register state and whether the expression was matched. On
  an error the register has already been set to undefined.
\<close>

definition vmReg_expression :: "vmReg \<Rightarrow> dwarfExpression list \<Rightarrow> vmReg \<times> eherr option" where
  "vmReg_expression reg expr =
     (let reg = reg\<lparr>vr_reg := regUndefined, vr_off := 0\<rparr>;
          op1 = (\<lambda>i. ucast (de_operand1 (expr ! i)) :: int16);
          op2 = (\<lambda>i. ucast (de_operand2 (expr ! i)) :: int16)
      in if matchExpression expr
              [opBReg0, opBReg0, opLit0, opAnd, opLit0, opGE, opLit0, opShl, opPlus]
         then (reg\<lparr>vr_reg := regExprPLT\<rparr>, None)
         else if matchExpression expr [opBReg0]
         then (reg\<lparr>vr_reg := regExprReg, vr_off := makeOff (op1 0) 0 (op2 0) 0\<rparr>, None)
         else if matchExpression expr [opBReg0, opDeref]
         then (reg\<lparr>vr_reg := regExprRegDeref, vr_off := makeOff (op1 0) 0 (op2 0) 0\<rparr>, None)
         else if matchExpression expr [opBReg0, opDeref, opPlusUConst]
         then (reg\<lparr>vr_reg := regExprRegDeref, vr_off := makeOff (op1 0) 0 (op2 0) (op1 2)\<rparr>, None)
         else if matchExpression expr
                   [opBReg0, opBReg0, opLit0, opMul, opPlus, opDeref, opPlusUConst] \<and>
                 de_operand2 (expr ! 1) = 0 \<and> de_operand1 (expr ! 2) = 8
         then (reg\<lparr>vr_reg := regExprRegRegDeref,
                   vr_off := makeOff (op1 0) (op1 1) (op2 0) (op1 6)\<rparr>, None)
         else (reg, Some ErrExpressionUnmatched))"

section \<open>Register files\<close>

definition newVMRegsX86 :: vmRegs where
  "newVMRegsX86 = \<lparr>vs_arch = EM_X86_64,
     vs_cfa = \<lparr>vr_arch = EM_X86_64, vr_reg = regUndefined, vr_off = 0\<rparr>,
     vs_fp = \<lparr>vr_arch = EM_X86_64, vr_reg = regUndefined, vr_off = 0\<rparr>,
     vs_ra = \<lparr>vr_arch = EM_X86_64, vr_reg = regUndefined, vr_off = 0\<rparr>\<rparr>"

definition newVMRegsARM :: vmRegs where
  "newVMRegsARM = \<lparr>vs_arch = EM_AARCH64,
     vs_cfa = \<lparr>vr_arch = EM_AARCH64, vr_reg = regUndefined, vr_off = 0\<rparr>,
     vs_fp = \<lparr>vr_arch = EM_AARCH64, vr_reg = regSame, vr_off = 0\<rparr>,
     vs_ra = \<lparr>vr_arch = EM_AARCH64, vr_reg = regSame, vr_off = 0\<rparr>\<rparr>"

definition newVMRegs :: "elf_Machine \<Rightarrow> vmRegs option" where
  "newVMRegs arch =
     (case arch of
        EM_AARCH64 \<Rightarrow> Some newVMRegsARM
      | EM_X86_64 \<Rightarrow> Some newVMRegsX86
      | EM_Other _ \<Rightarrow> None)"

text \<open>
  \<open>(*vmRegs).reg\<close> returns the address of a field of the struct, or nil; the address is
  the name of the field here, with the load and the store through it.
\<close>

datatype reg_slot = SlotFp | SlotRa

definition regX86 :: "uleb128 \<Rightarrow> reg_slot option" where
  "regX86 ndx =
     (if ndx = x86RegRBP then Some SlotFp else if ndx = x86RegRIP then Some SlotRa else None)"

definition regARM :: "uleb128 \<Rightarrow> reg_slot option" where
  "regARM ndx =
     (if ndx = armRegFP then Some SlotFp else if ndx = armRegLR then Some SlotRa else None)"

definition vmRegs_reg :: "vmRegs \<Rightarrow> uleb128 \<Rightarrow> reg_slot option" where
  "vmRegs_reg regs ndx =
     (case vs_arch regs of
        EM_AARCH64 \<Rightarrow> regARM ndx
      | EM_X86_64 \<Rightarrow> regX86 ndx
      | EM_Other _ \<Rightarrow> None)"

fun slot_get :: "reg_slot \<Rightarrow> vmRegs \<Rightarrow> vmReg" where
  "slot_get SlotFp regs = vs_fp regs"
| "slot_get SlotRa regs = vs_ra regs"

fun slot_set :: "reg_slot \<Rightarrow> vmReg \<Rightarrow> vmRegs \<Rightarrow> vmRegs" where
  "slot_set SlotFp r regs = regs\<lparr>vs_fp := r\<rparr>"
| "slot_set SlotRa r regs = regs\<lparr>vs_ra := r\<rparr>"

section \<open>Unwind descriptors\<close>

definition getUnwinderRegX86 :: "uleb128 \<Rightarrow> u8" where
  "getUnwinderRegX86 reg =
     (if reg = x86RegRAX then UnwindRegX86RAX
      else if reg = x86RegRDI then UnwindRegX86RDI
      else if reg = x86RegRBP then UnwindRegFp
      else if reg = x86RegRSP then UnwindRegSp
      else if reg = x86RegR8 then UnwindRegX86R8
      else if reg = x86RegR9 then UnwindRegX86R9
      else if reg = x86RegR11 then UnwindRegX86R11
      else if reg = x86RegR13 then UnwindRegX86R13
      else if reg = x86RegR15 then UnwindRegX86R15
      else if reg = x86RegRIP then UnwindRegPc
      else if reg = regCFA then UnwindRegCfa
      else UnwindRegInvalid)"

text \<open>
  \<open>getUnwindInfoX86\<close> in its parts: the early returns for the end of the stack, the return
  address, the frame pointer and the canonical frame address.
\<close>

definition x86_stops :: "vmRegs \<Rightarrow> bool" where
  "x86_stops regs \<longleftrightarrow>
     vr_reg (vs_cfa regs) = regUndefined \<or> vr_reg (vs_ra regs) = regUndefined \<or>
     vr_reg (vs_ra regs) = regCFA \<and> vr_reg (vs_cfa regs) = x86RegRSP \<and>
       vr_off (vs_cfa regs) + vr_off (vs_ra regs) <s 0"

definition x86_ra :: "vmRegs \<Rightarrow> UnwindInfo option" where
  "x86_ra regs =
     (let raReg = getUnwinderRegX86 (vr_reg (vs_ra regs))
      in if raReg \<noteq> UnwindRegInvalid \<and> raReg \<noteq> UnwindRegCfa then
           Some (UnwindInfo_zero\<lparr>
             ui_Flags := (if raReg \<noteq> UnwindRegFp \<and> raReg \<noteq> UnwindRegSp
                          then UnwindFlagRegisterRA OR UnwindFlagLeafOnly else UnwindFlagRegisterRA),
             ui_AuxBaseReg := raReg\<rparr>)
         else if vr_reg (vs_ra regs) = regCFA \<and> vr_off (vs_ra regs) = - 8 then Some UnwindInfo_zero
         else None)"

definition x86_fp :: "vmRegs \<Rightarrow> UnwindInfo \<Rightarrow> UnwindInfo" where
  "x86_fp regs info =
     (if ui_Flags info AND UnwindFlagRegisterRA = 0 then
        (let fp = vs_fp regs
         in if vr_reg fp = regCFA then
              (if vr_reg (vs_cfa regs) \<noteq> x86RegRSP \<or>
                  vr_off fp <s 0 \<and> - vr_off (vs_cfa regs) \<le>s vr_off fp
               then info\<lparr>ui_AuxBaseReg := UnwindRegCfa, ui_AuxParam := ucast (vr_off fp)\<rparr>
               else info)
            else if vr_reg fp = regExprReg then
              (let (r, _, offrbp, _) = splitOff (vr_off fp)
               in if scast r = x86RegRBP
                  then info\<lparr>ui_AuxBaseReg := UnwindRegFp, ui_AuxParam := scast offrbp\<rparr>
                  else info)
            else info)
      else info)"

definition x86_cfa :: "vmRegs \<Rightarrow> UnwindInfo \<Rightarrow> UnwindInfo" where
  "x86_cfa regs info =
     (let cfa = vs_cfa regs; reg = vr_reg cfa
      in if reg = x86RegRBP \<or> reg = x86RegRSP then
           info\<lparr>ui_BaseReg := getUnwinderRegX86 reg, ui_Param := ucast (vr_off cfa)\<rparr>
         else if reg = x86RegRAX \<or> reg = x86RegR9 \<or> reg = x86RegR11 \<or> reg = x86RegR15 then
           info\<lparr>ui_Flags := ui_Flags info OR UnwindFlagLeafOnly,
                ui_BaseReg := getUnwinderRegX86 reg, ui_Param := ucast (vr_off cfa)\<rparr>
         else if reg = regExprPLT then
           info\<lparr>ui_Flags := ui_Flags info OR UnwindFlagCommand, ui_Param := UnwindCommandPLT\<rparr>
         else if reg = regExprRegDeref then
           (let (r, _, off, off2) = splitOff (vr_off cfa);
                (param, ok) = PackDerefParam (scast off) (scast off2)
            in if ok \<and> (scast r = x86RegRBP \<or> scast r = x86RegRSP)
               then info\<lparr>ui_Flags := ui_Flags info OR UnwindFlagDerefCfa,
                         ui_BaseReg := getUnwinderRegX86 (scast r), ui_Param := param\<rparr>
               else info)
         else info)"

definition getUnwindInfoX86 :: "vmRegs \<Rightarrow> UnwindInfo" where
  "getUnwindInfoX86 regs =
     (if x86_stops regs then UnwindInfoStop
      else case x86_ra regs of
             None \<Rightarrow> UnwindInfoInvalid
           | Some info \<Rightarrow>
               let info = x86_cfa regs (x86_fp regs info)
               in if ui_Flags info AND UnwindFlagCommand = 0 \<and> ui_BaseReg info = UnwindRegInvalid
                  then UnwindInfoInvalid else info)"

definition getUnwindInfoARM :: "vmRegs \<Rightarrow> UnwindInfo" where
  "getUnwindInfoARM regs =
     (let cfa = vs_cfa regs; fp = vs_fp regs; ra = vs_ra regs
      in if vr_reg cfa = regUndefined then UnwindInfoStop
         else if vr_reg ra = regUndefined then UnwindInfoStop
         else
           let info = UnwindInfo_zero;
               info = (if vr_reg cfa = armRegFP
                       then info\<lparr>ui_BaseReg := UnwindRegFp, ui_Param := ucast (vr_off cfa)\<rparr>
                       else if vr_reg cfa = armRegSP
                       then info\<lparr>ui_BaseReg := UnwindRegSp, ui_Param := ucast (vr_off cfa)\<rparr>
                       else info);
               info = (if vr_reg ra = regSame
                       then info\<lparr>ui_AuxBaseReg := UnwindRegLr, ui_AuxParam := 0\<rparr>
                       else if vr_reg ra = regCFA
                       then info\<lparr>ui_AuxBaseReg := UnwindRegCfa, ui_AuxParam := ucast (vr_off ra)\<rparr>
                       else info)
           in if vr_reg ra \<noteq> regSame \<and> vr_reg fp = vr_reg ra \<and> vr_off fp + 8 = vr_off ra
              then info\<lparr>ui_Flags := ui_Flags info OR UnwindFlagFrame\<rparr>
              else info)"

text \<open>\<open>(*vmRegs).getUnwindInfo\<close>; an unsupported architecture panics.\<close>

definition getUnwindInfo :: "vmRegs \<Rightarrow> bool \<Rightarrow> UnwindInfo option" where
  "getUnwindInfo regs allowGenericRegisters =
     (case (case vs_arch regs of
              EM_AARCH64 \<Rightarrow> Some (getUnwindInfoARM regs)
            | EM_X86_64 \<Rightarrow> Some (getUnwindInfoX86 regs)
            | EM_Other _ \<Rightarrow> None) of
        None \<Rightarrow> None
      | Some info \<Rightarrow>
          Some (if \<not> allowGenericRegisters \<and> ui_Flags info AND UnwindFlagLeafOnly \<noteq> 0
                then UnwindInfoInvalid else info))"

section \<open>Packing\<close>

lemma makeOff_or:
  "makeOff a b c d =
     ((push_bit 48 (ucast a) OR push_bit 32 (ucast b)) OR push_bit 16 (ucast c)) OR ucast d"
proof -
  have c: "push_bit 48 (ucast a) AND push_bit 32 (ucast b) = (0 :: sleb128)"
    "(push_bit 48 (ucast a) OR push_bit 32 (ucast b)) AND push_bit 16 (ucast c) = (0 :: sleb128)"
    "((push_bit 48 (ucast a) OR push_bit 32 (ucast b)) OR push_bit 16 (ucast c)) AND ucast d =
      (0 :: sleb128)"
    by (auto simp: bit_eq_iff bit_simps dest: bit_imp_le_length)
  show ?thesis
    unfolding makeOff_def
    by (simp only: disjunctive_add_eq_or [OF c(1)] disjunctive_add_eq_or [OF c(2)]
        disjunctive_add_eq_or [OF c(3)])
qed

lemma splitOff_makeOff [simp]: "splitOff (makeOff a b c d) = (a, b, c, d)"
  unfolding splitOff_def makeOff_or
  by (auto simp: bit_eq_iff bit_simps dest: bit_imp_le_length)

section \<open>What the registers mean\<close>

text \<open>
  The meaning of a DWARF expression, for register contents \<open>rf\<close> and a memory \<open>mem\<close>
  of 64 bit words: the operations of the DWARF stack machine that the recognised expressions
  consist of (the PLT expression apart).
\<close>

fun dw_op :: "(uleb128 \<Rightarrow> u64) \<Rightarrow> (u64 \<Rightarrow> u64) \<Rightarrow> dwarfExpression \<Rightarrow> u64 list \<Rightarrow> u64 list option" where
  "dw_op rf mem e stk =
     (if de_opcode e = opBReg0 then Some ((rf (de_operand1 e) + de_operand2 e) # stk)
      else if de_opcode e = opLit0 then Some (de_operand1 e # stk)
      else case stk of
        x # stk' \<Rightarrow>
          (if de_opcode e = opDeref then Some (mem x # stk')
           else if de_opcode e = opPlusUConst then Some ((x + de_operand1 e) # stk')
           else case stk' of
             y # stk'' \<Rightarrow>
               (if de_opcode e = opPlus then Some ((y + x) # stk'')
                else if de_opcode e = opMul then Some ((y * x) # stk'')
                else None)
           | [] \<Rightarrow> None)
      | [] \<Rightarrow> None)"

fun dw_eval :: "(uleb128 \<Rightarrow> u64) \<Rightarrow> (u64 \<Rightarrow> u64) \<Rightarrow> dwarfExpression list \<Rightarrow> u64 list \<Rightarrow> u64 list option" where
  "dw_eval rf mem [] stk = Some stk"
| "dw_eval rf mem (e # es) stk = do { stk \<leftarrow> dw_op rf mem e stk; dw_eval rf mem es stk }"

text \<open>
  The value that a register state describes, as the comments of the source and its printed form
  give it: a register plus an offset, or one of the recognised expressions.
\<close>

definition vm_value :: "(uleb128 \<Rightarrow> u64) \<Rightarrow> (u64 \<Rightarrow> u64) \<Rightarrow> vmReg \<Rightarrow> u64 option" where
  "vm_value rf mem reg =
     (let (a, b, c, d) = splitOff (vr_off reg)
      in if vr_reg reg < regUndefined then Some (rf (vr_reg reg) + vr_off reg)
         else if vr_reg reg = regExprReg then Some (rf (scast a) + scast c)
         else if vr_reg reg = regExprRegDeref then Some (mem (rf (scast a) + scast c) + scast d)
         else if vr_reg reg = regExprRegRegDeref
         then Some (mem (rf (scast a) + 8 * rf (scast b) + scast c) + scast d)
         else None)"

text \<open>An operand that survives the conversion to \<open>int16\<close>.\<close>

definition fits16 :: "u64 \<Rightarrow> bool" where
  "fits16 w \<longleftrightarrow> scast (ucast w :: int16) = w"

lemma matchExpression_iff: "matchExpression es ts \<longleftrightarrow> map de_opcode es = ts"
  by (induction es ts rule: matchExpression.induct) auto

lemma vmReg_expression_cases:
  assumes "vmReg_expression reg expr = (reg', None)" "vr_reg reg' \<noteq> regExprPLT"
  obtains (reg) e where "expr = [e]" "de_opcode e = opBReg0"
      "reg' = reg\<lparr>vr_reg := regExprReg,
         vr_off := makeOff (ucast (de_operand1 e)) 0 (ucast (de_operand2 e)) 0\<rparr>"
  | (deref) e f where "expr = [e, f]" "de_opcode e = opBReg0" "de_opcode f = opDeref"
      "reg' = reg\<lparr>vr_reg := regExprRegDeref,
         vr_off := makeOff (ucast (de_operand1 e)) 0 (ucast (de_operand2 e)) 0\<rparr>"
  | (deref_plus) e f g where "expr = [e, f, g]" "de_opcode e = opBReg0" "de_opcode f = opDeref"
      "de_opcode g = opPlusUConst"
      "reg' = reg\<lparr>vr_reg := regExprRegDeref,
         vr_off := makeOff (ucast (de_operand1 e)) 0 (ucast (de_operand2 e)) (ucast (de_operand1 g))\<rparr>"
  | (regreg) e f l m p d g where "expr = [e, f, l, m, p, d, g]"
      "map de_opcode expr = [opBReg0, opBReg0, opLit0, opMul, opPlus, opDeref, opPlusUConst]"
      "de_operand2 f = 0" "de_operand1 l = 8"
      "reg' = reg\<lparr>vr_reg := regExprRegRegDeref,
         vr_off := makeOff (ucast (de_operand1 e)) (ucast (de_operand1 f)) (ucast (de_operand2 e))
           (ucast (de_operand1 g))\<rparr>"
proof -
  let ?op1 = "\<lambda>i. ucast (de_operand1 (expr ! i)) :: int16" and ?op2 = "ucast (de_operand2 (expr ! 0)) :: int16"
  have "map de_opcode expr = [opBReg0] \<and>
      reg' = reg\<lparr>vr_reg := regExprReg, vr_off := makeOff (?op1 0) 0 ?op2 0\<rparr> \<or>
    map de_opcode expr = [opBReg0, opDeref] \<and>
      reg' = reg\<lparr>vr_reg := regExprRegDeref, vr_off := makeOff (?op1 0) 0 ?op2 0\<rparr> \<or>
    map de_opcode expr = [opBReg0, opDeref, opPlusUConst] \<and>
      reg' = reg\<lparr>vr_reg := regExprRegDeref, vr_off := makeOff (?op1 0) 0 ?op2 (?op1 2)\<rparr> \<or>
    map de_opcode expr = [opBReg0, opBReg0, opLit0, opMul, opPlus, opDeref, opPlusUConst] \<and>
      de_operand2 (expr ! 1) = 0 \<and> de_operand1 (expr ! 2) = 8 \<and>
      reg' = reg\<lparr>vr_reg := regExprRegRegDeref,
        vr_off := makeOff (?op1 0) (?op1 1) ?op2 (?op1 6)\<rparr>"
    using assms by (simp add: vmReg_expression_def matchExpression_iff Let_def split: if_splits) auto
  then show ?thesis
  proof (elim disjE conjE)
    assume "map de_opcode expr = [opBReg0]"
      "reg' = reg\<lparr>vr_reg := regExprReg, vr_off := makeOff (?op1 0) 0 ?op2 0\<rparr>"
    then show ?thesis by (intro reg [of "expr ! 0"]) auto
  next
    assume "map de_opcode expr = [opBReg0, opDeref]"
      "reg' = reg\<lparr>vr_reg := regExprRegDeref, vr_off := makeOff (?op1 0) 0 ?op2 0\<rparr>"
    then show ?thesis by (intro deref [of "expr ! 0" "expr ! 1"]) auto
  next
    assume "map de_opcode expr = [opBReg0, opDeref, opPlusUConst]"
      "reg' = reg\<lparr>vr_reg := regExprRegDeref, vr_off := makeOff (?op1 0) 0 ?op2 (?op1 2)\<rparr>"
    then show ?thesis by (intro deref_plus [of "expr ! 0" "expr ! 1" "expr ! 2"]) auto
  next
    assume m: "map de_opcode expr = [opBReg0, opBReg0, opLit0, opMul, opPlus, opDeref, opPlusUConst]"
      and "de_operand2 (expr ! 1) = 0" "de_operand1 (expr ! 2) = 8"
        "reg' = reg\<lparr>vr_reg := regExprRegRegDeref, vr_off := makeOff (?op1 0) (?op1 1) ?op2 (?op1 6)\<rparr>"
    moreover have "expr = [expr ! 0, expr ! 1, expr ! 2, expr ! 3, expr ! 4, expr ! 5, expr ! 6]"
      using m by auto
    ultimately show ?thesis by (intro regreg)
  qed
qed


definition deref_expression :: "dwarfExpression list" where
  "deref_expression =
     [\<lparr>de_opcode = opBReg0, de_operand1 = 6, de_operand2 = - 8\<rparr>,
      \<lparr>de_opcode = opDeref, de_operand1 = 0, de_operand2 = 0\<rparr>,
      \<lparr>de_opcode = opPlusUConst, de_operand1 = 16, de_operand2 = 0\<rparr>]"


section \<open>What the descriptors mean\<close>

text \<open>
  The canonical frame address that the unwinder computes from a descriptor, for its view
  \<open>ur\<close> of the registers: base register plus parameter, with one dereference in between
  when the flag says so. \<open>getUnwinderRegX86\<close> relates the two register numberings.
\<close>

definition info_cfa :: "(u8 \<Rightarrow> u64) \<Rightarrow> (u64 \<Rightarrow> u64) \<Rightarrow> UnwindInfo \<Rightarrow> u64" where
  "info_cfa ur mem info =
     (if ui_Flags info AND UnwindFlagDerefCfa \<noteq> 0
      then let (pre, post) = UnpackDerefParam (ui_Param info)
           in mem (ur (ui_BaseReg info) + scast pre) + scast post
      else ur (ui_BaseReg info) + scast (ui_Param info))"

text \<open>An offset that the 32 bit parameter of the descriptor can hold.\<close>

definition fits32 :: "u64 \<Rightarrow> bool" where
  "fits32 w \<longleftrightarrow> scast (ucast w :: int32) = w"

lemma x86_ra_flags:
  "x86_ra regs = Some info \<Longrightarrow>
     ui_BaseReg info = 0 \<and> ui_MergeOpcode info = 0 \<and> ui_Flags info \<in> {0, 0x10, 0x14} \<and>
     (ui_Flags info = 0 \<longrightarrow> ui_AuxBaseReg info = 0) \<and>
     (ui_Flags info = 0x10 \<longrightarrow> ui_AuxBaseReg info \<in> {UnwindRegFp, UnwindRegSp})"
  by (auto simp: x86_ra_def UnwindInfo_zero_def Let_def split: if_splits)

lemma x86_fp_frame [simp]:
  "ui_Flags (x86_fp regs info) = ui_Flags info" "ui_BaseReg (x86_fp regs info) = ui_BaseReg info"
  "ui_MergeOpcode (x86_fp regs info) = ui_MergeOpcode info" "ui_Param (x86_fp regs info) = ui_Param info"
  by (simp_all add: x86_fp_def Let_def split_beta)

lemma x86_fp_aux:
  "ui_AuxBaseReg (x86_fp regs info) \<in> {ui_AuxBaseReg info, UnwindRegCfa, UnwindRegFp}"
  by (simp add: x86_fp_def Let_def split_beta)

lemma x86_cfa_frame [simp]:
  "ui_AuxBaseReg (x86_cfa regs info) = ui_AuxBaseReg info"
  "ui_MergeOpcode (x86_cfa regs info) = ui_MergeOpcode info"
  by (simp_all add: x86_cfa_def Let_def split_beta)

lemma flag_bits:
  "f \<in> {0, 0x10, 0x14} \<Longrightarrow> f AND 1 = 0 \<and> f AND 8 = 0 \<and> (f OR 4) AND 1 = 0 \<and> (f OR 4) AND 8 = 0 \<and>
     (f OR 4) AND 4 = 4 \<and> (f OR 1) AND 1 = 1 \<and> (f OR 8) AND 8 = 8 \<and> (f OR 8) AND 1 = 0 \<and>
     ((f OR 8) AND 4 = 0 \<longleftrightarrow> f \<noteq> 0x14)" for f :: u8
  by auto

text \<open>The descriptor made from a register state, when it is not a command.\<close>

lemma getUnwindInfoX86_cases:
  assumes info: "getUnwindInfoX86 regs = info" and ncmd: "\<not> is_command info"
  obtains (plain) f where "f \<in> {0, 0x10, 0x14}" "ui_Flags info = f"
      "vr_reg (vs_cfa regs) \<in> {x86RegRBP, x86RegRSP}"
      "ui_BaseReg info = getUnwinderRegX86 (vr_reg (vs_cfa regs))"
      "ui_Param info = ucast (vr_off (vs_cfa regs))"
  | (leaf) f where "f \<in> {0, 0x10, 0x14}" "ui_Flags info = f OR 4"
      "vr_reg (vs_cfa regs) \<in> {x86RegRAX, x86RegR9, x86RegR11, x86RegR15}"
      "ui_BaseReg info = getUnwinderRegX86 (vr_reg (vs_cfa regs))"
      "ui_Param info = ucast (vr_off (vs_cfa regs))"
  | (deref) f r b off off2 where "f \<in> {0, 0x10, 0x14}" "ui_Flags info = f OR 8"
      "vr_reg (vs_cfa regs) = regExprRegDeref" "splitOff (vr_off (vs_cfa regs)) = (r, b, off, off2)"
      "scast r \<in> {x86RegRBP, x86RegRSP}" "ui_BaseReg info = getUnwinderRegX86 (scast r)"
      "PackDerefParam (scast off) (scast off2) = (ui_Param info, True)"
proof -
  obtain ra where ra: "x86_ra regs = Some ra" and i: "info = x86_cfa regs (x86_fp regs ra)"
    and base: "ui_BaseReg info \<noteq> 0"
    using info ncmd
    by (cases "x86_ra regs") (auto simp: getUnwindInfoX86_def Let_def is_command_def UnwindInfo_consts split: if_splits)
  have f: "ui_Flags ra \<in> {0, 0x10, 0x14}" and b0: "ui_BaseReg ra = 0"
    using x86_ra_flags [OF ra] by simp_all
  note fb = flag_bits [OF f]
  obtain r b off off2 where sp: "splitOff (vr_off (vs_cfa regs)) = (r, b, off, off2)"
    by (metis prod_cases4)
  obtain prm ok where pk: "PackDerefParam (scast off) (scast off2) = (prm, ok)" by fastforce
  let ?reg = "vr_reg (vs_cfa regs)"
  consider "?reg \<in> {x86RegRBP, x86RegRSP}" | "?reg \<in> {x86RegRAX, x86RegR9, x86RegR11, x86RegR15}"
    | "?reg = regExprPLT" | "?reg = regExprRegDeref" "ok" "scast r \<in> {x86RegRBP, x86RegRSP}"
    | "?reg \<notin> {x86RegRBP, x86RegRSP}" "?reg \<notin> {x86RegRAX, x86RegR9, x86RegR11, x86RegR15}"
      "?reg \<noteq> regExprPLT" "?reg = regExprRegDeref \<longrightarrow> \<not> (ok \<and> scast r \<in> {x86RegRBP, x86RegRSP})"
    by blast
  then show thesis
  proof cases
    case 1
    then show ?thesis using f by (intro plain [of "ui_Flags ra"]) (auto simp: i x86_cfa_def Let_def)
  next
    case 2
    then show ?thesis using f by (intro leaf [of "ui_Flags ra"]) (auto simp: i x86_cfa_def Let_def)
  next
    case 3
    then show ?thesis using ncmd fb by (simp add: i x86_cfa_def is_command_def Let_def)
  next
    case 4
    then show ?thesis using f sp pk
      by (intro deref [of "ui_Flags ra" r b off off2]) (auto simp: i x86_cfa_def Let_def)
  next
    case 5
    then have "x86_cfa regs (x86_fp regs ra) = x86_fp regs ra"
      by (auto simp: x86_cfa_def Let_def sp pk)
    then show ?thesis using base b0 by (simp add: i)
  qed
qed

lemma getUnwindInfoX86_base:
  assumes "\<not> is_command (getUnwindInfoX86 regs)" "ui_Flags (getUnwindInfoX86 regs) AND UnwindFlagLeafOnly = 0"
  shows "ui_BaseReg (getUnwindInfoX86 regs) \<in> {UnwindRegSp, UnwindRegFp}"
  using refl assms(1)
proof (cases rule: getUnwindInfoX86_cases)
  case (leaf f)
  then show ?thesis using assms(2) flag_bits [OF leaf(1)] by simp
qed (auto simp: getUnwinderRegX86_def)

lemma getUnwindInfoX86_aux:
  "ui_MergeOpcode (getUnwindInfoX86 regs) = 0"
  "ui_Flags (getUnwindInfoX86 regs) AND UnwindFlagLeafOnly = 0 \<Longrightarrow>
    ui_AuxBaseReg (getUnwindInfoX86 regs) \<in> {UnwindRegInvalid, UnwindRegCfa, UnwindRegFp, UnwindRegSp}"
proof -
  have no_leaf: "ui_Flags (x86_cfa regs info) AND 4 = 0 \<Longrightarrow> ui_Flags info AND 4 = 0" for info
    by (auto simp: x86_cfa_def Let_def split_beta bit.conj_disj_distrib2 split: if_splits)
  show "ui_MergeOpcode (getUnwindInfoX86 regs) = 0"
    using x86_ra_flags [of regs]
    by (auto simp: getUnwindInfoX86_def Let_def UnwindInfo_consts split: option.splits)
  assume leaf: "ui_Flags (getUnwindInfoX86 regs) AND UnwindFlagLeafOnly = 0"
  have "getUnwindInfoX86 regs \<in> {UnwindInfoStop, UnwindInfoInvalid} \<or>
      (\<exists>ra. x86_ra regs = Some ra \<and> getUnwindInfoX86 regs = x86_cfa regs (x86_fp regs ra))"
    by (auto simp: getUnwindInfoX86_def Let_def split: option.splits)
  then consider "getUnwindInfoX86 regs \<in> {UnwindInfoStop, UnwindInfoInvalid}"
    | ra where "x86_ra regs = Some ra" "getUnwindInfoX86 regs = x86_cfa regs (x86_fp regs ra)"
    by blast
  then show "ui_AuxBaseReg (getUnwindInfoX86 regs) \<in>
      {UnwindRegInvalid, UnwindRegCfa, UnwindRegFp, UnwindRegSp}"
  proof cases
    case (2 ra)
    then have "ui_Flags ra AND 4 = 0" using no_leaf leaf by fastforce
    then have "ui_AuxBaseReg ra \<in> {UnwindRegInvalid, UnwindRegFp, UnwindRegSp}"
      using x86_ra_flags [OF 2(1)] by auto
    then show ?thesis using x86_fp_aux [of regs ra] 2(2) by auto
  qed (auto simp: UnwindInfo_consts)
qed


definition rbp_frame :: vmRegs where
  "rbp_frame = newVMRegsX86\<lparr>
     vs_cfa := \<lparr>vr_arch = EM_X86_64, vr_reg = x86RegRBP, vr_off = 16\<rparr>,
     vs_fp := \<lparr>vr_arch = EM_X86_64, vr_reg = regCFA, vr_off = - 16\<rparr>,
     vs_ra := \<lparr>vr_arch = EM_X86_64, vr_reg = regCFA, vr_off = - 8\<rparr>\<rparr>"


text \<open>
  What a descriptor may carry. Without leave to use generic registers a descriptor never has
  the leaf-only flag; on x86-64 one that is not a command then addresses the frame from the stack
  pointer or the frame pointer only, and recovers the return address or the frame pointer from
  the frame address, the frame pointer or the stack pointer only; on aarch64 the base register may
  be invalid (a frame address kept in another register), which no command marks.
\<close>

theorem getUnwindInfo_generic:
  assumes "getUnwindInfo regs False = Some info"
  shows "ui_Flags info AND UnwindFlagLeafOnly = 0 \<and> ui_MergeOpcode info = 0 \<and>
    (\<not> is_command info \<longrightarrow>
       (vs_arch regs = EM_X86_64 \<longrightarrow> ui_BaseReg info \<in> {UnwindRegSp, UnwindRegFp} \<and>
          ui_AuxBaseReg info \<in> {UnwindRegInvalid, UnwindRegCfa, UnwindRegFp, UnwindRegSp}) \<and>
       (vs_arch regs = EM_AARCH64 \<longrightarrow> ui_BaseReg info \<in> {UnwindRegInvalid, UnwindRegSp, UnwindRegFp} \<and>
          ui_AuxBaseReg info \<in> {UnwindRegInvalid, UnwindRegCfa, UnwindRegLr}))"
proof (cases "vs_arch regs")
  case EM_AARCH64
  then show ?thesis
    using assms by (auto simp: getUnwindInfo_def getUnwindInfoARM_def Let_def is_command_def
        UnwindInfo_consts split: if_splits)
next
  case EM_X86_64
  let ?i = "getUnwindInfoX86 regs"
  have "info = UnwindInfoInvalid \<or> info = ?i \<and> ui_Flags ?i AND UnwindFlagLeafOnly = 0"
    using assms EM_X86_64 by (auto simp: getUnwindInfo_def split: if_splits)
  then show ?thesis
    using EM_X86_64 getUnwindInfoX86_aux [of regs] getUnwindInfoX86_base [of regs]
    by (auto simp: is_command_def UnwindInfo_consts)
qed (use assms in \<open>simp add: getUnwindInfo_def\<close>)

theorem getUnwindInfo_generic_witness:
  "\<exists>info. getUnwindInfo rbp_frame False = Some info \<and> ui_BaseReg info = UnwindRegFp \<and>
     ui_Flags info AND UnwindFlagLeafOnly = 0"
proof -
  have "getUnwindInfo rbp_frame False = Some \<lparr>ui_Flags = 0, ui_BaseReg = 4, ui_AuxBaseReg = 1,
      ui_MergeOpcode = 0, ui_Param = 16, ui_AuxParam = - 16\<rparr>"
    by (simp add: getUnwindInfo_def getUnwindInfoX86_def x86_stops_def x86_ra_def x86_fp_def x86_cfa_def
        rbp_frame_def newVMRegsX86_def getUnwinderRegX86_def UnwindInfo_zero_def Let_def)
  from this getUnwindInfo_generic [OF this] show ?thesis by simp
qed

end
