(* ===== verification/CfaMachine.thy ===== *)
theory CfaMachine
  imports VmRegs
begin

text \<open>
  The virtual machine of the DWARF call frame instructions (\<open>state\<close> and its
  \<open>step\<close> in \<open>nativeunwind/elfunwindinfo/elfehframe.go\<close>). \<open>exec_op\<close> is the
  switch over one decoded instruction; \<open>step\<close> runs instructions until one moves the location
  or the data ends. The loop of \<open>step\<close> need not terminate, so that it carries fuel here.

  The lemmas show the invariant of the machine, that remembering and restoring register states is a
  stack of depth two, that \<open>step\<close> returns without a panic when no block length of the data
  makes the position wrap around (the number of remaining bytes is then enough fuel), and a
  program on which it runs forever.
\<close>

unbundle bit_operations_syntax

section \<open>Opcodes\<close>

definition cfaNop :: cfaOpcode where [simp]: "cfaNop = 0x00"
definition cfaSetLoc :: cfaOpcode where [simp]: "cfaSetLoc = 0x01"
definition cfaAdvanceLoc1 :: cfaOpcode where [simp]: "cfaAdvanceLoc1 = 0x02"
definition cfaAdvanceLoc2 :: cfaOpcode where [simp]: "cfaAdvanceLoc2 = 0x03"
definition cfaAdvanceLoc4 :: cfaOpcode where [simp]: "cfaAdvanceLoc4 = 0x04"
definition cfaOffsetExtended :: cfaOpcode where [simp]: "cfaOffsetExtended = 0x05"
definition cfaRestoreExtended :: cfaOpcode where [simp]: "cfaRestoreExtended = 0x06"
definition cfaUndefined :: cfaOpcode where [simp]: "cfaUndefined = 0x07"
definition cfaSameValue :: cfaOpcode where [simp]: "cfaSameValue = 0x08"
definition cfaRegister :: cfaOpcode where [simp]: "cfaRegister = 0x09"
definition cfaRememberState :: cfaOpcode where [simp]: "cfaRememberState = 0x0a"
definition cfaRestoreState :: cfaOpcode where [simp]: "cfaRestoreState = 0x0b"
definition cfaDefCfa :: cfaOpcode where [simp]: "cfaDefCfa = 0x0c"
definition cfaDefCfaRegister :: cfaOpcode where [simp]: "cfaDefCfaRegister = 0x0d"
definition cfaDefCfaOffset :: cfaOpcode where [simp]: "cfaDefCfaOffset = 0x0e"
definition cfaDefCfaExpression :: cfaOpcode where [simp]: "cfaDefCfaExpression = 0x0f"
definition cfaExpression :: cfaOpcode where [simp]: "cfaExpression = 0x10"
definition cfaOffsetExtendedSf :: cfaOpcode where [simp]: "cfaOffsetExtendedSf = 0x11"
definition cfaDefCfaSf :: cfaOpcode where [simp]: "cfaDefCfaSf = 0x12"
definition cfaDefCfaOffsetSf :: cfaOpcode where [simp]: "cfaDefCfaOffsetSf = 0x13"
definition cfaValOffset :: cfaOpcode where [simp]: "cfaValOffset = 0x14"
definition cfaValOffsetSf :: cfaOpcode where [simp]: "cfaValOffsetSf = 0x15"
definition cfaValExpression :: cfaOpcode where [simp]: "cfaValExpression = 0x16"
definition cfaGNUWindowSave :: cfaOpcode where [simp]: "cfaGNUWindowSave = 0x2d"
definition cfaGNUArgsSize :: cfaOpcode where [simp]: "cfaGNUArgsSize = 0x2e"
definition cfaGNUNegOffsetExtended :: cfaOpcode where [simp]: "cfaGNUNegOffsetExtended = 0x2f"
definition cfaAdvanceLoc :: cfaOpcode where [simp]: "cfaAdvanceLoc = 0x40"
definition cfaOffset :: cfaOpcode where [simp]: "cfaOffset = 0x80"
definition cfaRestore :: cfaOpcode where [simp]: "cfaRestore = 0xc0"
definition cfaHighOpcodeMask :: cfaOpcode where [simp]: "cfaHighOpcodeMask = 0xc0"
definition cfaHighOpcodeValueMask :: cfaOpcode where [simp]: "cfaHighOpcodeValueMask = 0x3f"

section \<open>State\<close>

record cieInfo =
  cie_dataAlign :: sleb128
  cie_codeAlign :: uleb128
  cie_regRA :: uleb128
  cie_enc :: encoding
  cie_ldsaEnc :: encoding
  cie_hasAugmentation :: bool
  cie_isSignalHandler :: bool
  cie_initialState :: vmRegs

record state =
  st_cie :: cieInfo
  st_loc :: uintptr
  st_cur :: vmRegs
  st_stack :: "vmRegs list"
  st_stackNdx :: nat

section \<open>Operations\<close>

definition state_advance :: "u64 \<Rightarrow> state \<Rightarrow> state" where
  "state_advance delta st = st\<lparr>st_loc := st_loc st + delta * cie_codeAlign (st_cie st)\<rparr>"

definition state_rule :: "uleb128 \<Rightarrow> uleb128 \<Rightarrow> sleb128 \<Rightarrow> state \<Rightarrow> state" where
  "state_rule reg baseReg off st =
     (case vmRegs_reg (st_cur st) reg of
        None \<Rightarrow> st
      | Some s \<Rightarrow>
          st\<lparr>st_cur := slot_set s
              ((slot_get s (st_cur st))\<lparr>vr_reg := baseReg, vr_off := off * cie_dataAlign (st_cie st)\<rparr>)
              (st_cur st)\<rparr>)"

text \<open>\<open>restore\<close>; \<open>None\<close> is the nil dereference of a register the initial state lacks.\<close>

definition state_restore :: "uleb128 \<Rightarrow> state \<Rightarrow> state option" where
  "state_restore reg st =
     (case vmRegs_reg (st_cur st) reg of
        None \<Rightarrow> Some st
      | Some s \<Rightarrow>
          (case vmRegs_reg (cie_initialState (st_cie st)) reg of
             None \<Rightarrow> None
           | Some s' \<Rightarrow>
               Some (st\<lparr>st_cur := slot_set s (slot_get s' (cie_initialState (st_cie st))) (st_cur st)\<rparr>)))"

text \<open>
  What one iteration of the loop in \<open>step\<close> does: carry on, or return with an error or
  without.
\<close>

datatype outcome = Continue | Return "eherr option"

text \<open>The canonical frame address instructions.\<close>

definition exec_cfa :: "cfaOpcode \<Rightarrow> state \<Rightarrow> reader \<Rightarrow> (outcome \<times> state \<times> reader) option" where
  "exec_cfa opcode st r =
     (let cur = st_cur st; cfa = vs_cfa cur; upd = (\<lambda>v. st\<lparr>st_cur := cur\<lparr>vs_cfa := v\<rparr>\<rparr>)
      in if opcode = cfaDefCfa then do {
           (reg, r) \<leftarrow> rd_uleb r;
           (off, r) \<leftarrow> rd_uleb r;
           Some (Continue, upd (cfa\<lparr>vr_reg := reg, vr_off := off\<rparr>), r) }
         else if opcode = cfaDefCfaRegister then do {
           (reg, r) \<leftarrow> rd_uleb r;
           Some (Continue, upd (cfa\<lparr>vr_reg := reg\<rparr>), r) }
         else if opcode = cfaDefCfaOffset then do {
           (off, r) \<leftarrow> rd_uleb r;
           Some (Continue, upd (cfa\<lparr>vr_off := off\<rparr>), r) }
         else if opcode = cfaDefCfaExpression then do {
           (expr, r) \<leftarrow> rd_expression r;
           Some (Continue, (case expr of Inl e \<Rightarrow> st | Inr expr \<Rightarrow> upd (fst (vmReg_expression cfa expr))), r) }
         else if opcode = cfaDefCfaSf then do {
           (reg, r) \<leftarrow> rd_uleb r;
           (off, r) \<leftarrow> rd_sleb r;
           Some (Continue, upd (cfa\<lparr>vr_reg := reg, vr_off := off * cie_dataAlign (st_cie st)\<rparr>), r) }
         else if opcode = cfaDefCfaOffsetSf then do {
           (off, r) \<leftarrow> rd_sleb r;
           Some (Continue, upd (cfa\<lparr>vr_off := off * cie_dataAlign (st_cie st)\<rparr>), r) }
         else Some (Return (Some (ErrOpcode opcode)), st, r))"

text \<open>The register instructions, with the frame address instructions as their last alternative.\<close>

definition exec_reg :: "cfaOpcode \<Rightarrow> u8 \<Rightarrow> state \<Rightarrow> reader \<Rightarrow> (outcome \<times> state \<times> reader) option" where
  "exec_reg opcode operand st r =
     (if opcode = cfaOffsetExtended then do {
        (reg, r) \<leftarrow> rd_uleb r;
        (off, r) \<leftarrow> rd_uleb r;
        Some (Continue, state_rule reg regCFA off st, r) }
      else if opcode = cfaRestoreExtended then do {
        (reg, r) \<leftarrow> rd_uleb r;
        st \<leftarrow> state_restore reg st;
        Some (Continue, st, r) }
      else if opcode = cfaUndefined then do {
        (reg, r) \<leftarrow> rd_uleb r;
        Some (Continue, state_rule reg regUndefined 0 st, r) }
      else if opcode = cfaSameValue then do {
        (reg, r) \<leftarrow> rd_uleb r;
        Some (Continue, state_rule reg regSame 0 st, r) }
      else if opcode = cfaRegister then do {
        (reg, r) \<leftarrow> rd_uleb r;
        (base, r) \<leftarrow> rd_uleb r;
        Some (Continue, state_rule reg base 0 st, r) }
      else if opcode = cfaExpression then do {
        (reg, r) \<leftarrow> rd_uleb r;
        (expr, r) \<leftarrow> rd_expression r;
        Some (Continue,
          (case (expr, vmRegs_reg (st_cur st) reg) of
             (Inr expr, Some s) \<Rightarrow>
               st\<lparr>st_cur := slot_set s (fst (vmReg_expression (slot_get s (st_cur st)) expr)) (st_cur st)\<rparr>
           | _ \<Rightarrow> st), r) }
      else if opcode = cfaOffsetExtendedSf then do {
        (reg, r) \<leftarrow> rd_uleb r;
        (off, r) \<leftarrow> rd_sleb r;
        Some (Continue, state_rule reg regCFA off st, r) }
      else if opcode = cfaValOffset then do {
        (reg, r) \<leftarrow> rd_uleb r;
        (off, r) \<leftarrow> rd_uleb r;
        Some (Continue, state_rule reg regCFAVal off st, r) }
      else if opcode = cfaValOffsetSf then do {
        (reg, r) \<leftarrow> rd_uleb r;
        (off, r) \<leftarrow> rd_sleb r;
        Some (Continue, state_rule reg regCFAVal off st, r) }
      else if opcode = cfaValExpression then do {
        (reg, r) \<leftarrow> rd_uleb r;
        (len, r) \<leftarrow> rd_uleb r;
        Some (Continue, state_rule reg regUndefined 0 st, r\<lparr>rd_pos := rd_pos r + len\<rparr>) }
      else if opcode = cfaGNUNegOffsetExtended then do {
        (reg, r) \<leftarrow> rd_uleb r;
        (off, r) \<leftarrow> rd_sleb r;
        Some (Continue, state_rule reg regCFA (- off) st, r) }
      else if opcode = cfaOffset then do {
        (off, r) \<leftarrow> rd_uleb r;
        Some (Continue, state_rule (ucast operand) regCFA off st, r) }
      else if opcode = cfaRestore then do {
        st \<leftarrow> state_restore (ucast operand) st;
        Some (Continue, st, r) }
      else exec_cfa opcode st r)"

text \<open>The location and state stack instructions first, as the switch has them.\<close>

definition exec_op :: "cfaOpcode \<Rightarrow> u8 \<Rightarrow> state \<Rightarrow> reader \<Rightarrow> (outcome \<times> state \<times> reader) option" where
  "exec_op opcode operand st r =
     (if opcode = cfaNop \<or> opcode = cfaGNUWindowSave then Some (Continue, st, r)
      else if opcode = cfaSetLoc then do {
        (res, r) \<leftarrow> rd_ptr (cie_enc (st_cie st)) r;
        (case res of
           Inl e \<Rightarrow> Some (Return (Some e), st\<lparr>st_loc := 0\<rparr>, r)
         | Inr loc \<Rightarrow> Some (Return None, st\<lparr>st_loc := loc\<rparr>, r)) }
      else if opcode = cfaAdvanceLoc1 then do {
        (d, r) \<leftarrow> rd_u8 r;
        Some (Return None, state_advance (ucast d) st, r) }
      else if opcode = cfaAdvanceLoc2 then do {
        (d, r) \<leftarrow> rd_u16 r;
        Some (Return None, state_advance (ucast d) st, r) }
      else if opcode = cfaAdvanceLoc4 then do {
        (d, r) \<leftarrow> rd_u32 r;
        Some (Return None, state_advance (ucast d) st, r) }
      else if opcode = cfaAdvanceLoc then Some (Return None, state_advance (ucast operand) st, r)
      else if opcode = cfaRememberState then
        Some (if st_stackNdx st \<ge> length (st_stack st)
              then (Return (Some ErrStackOverflow), st, r)
              else (Continue, st\<lparr>st_stack := (st_stack st)[st_stackNdx st := st_cur st],
                                 st_stackNdx := st_stackNdx st + 1\<rparr>, r))
      else if opcode = cfaRestoreState then
        Some (if st_stackNdx st = 0
              then (Return (Some ErrStackUnderflow), st, r)
              else (Continue, st\<lparr>st_stackNdx := st_stackNdx st - 1,
                                 st_cur := st_stack st ! (st_stackNdx st - 1)\<rparr>, r))
      else if opcode = cfaGNUArgsSize then do {
        (_, r) \<leftarrow> rd_uleb r;
        Some (Continue, st, r) }
      else exec_reg opcode operand st r)"

text \<open>The decoding of one instruction: the opcode and, in the high opcodes, the operand.\<close>

definition decode_op :: "u8 \<Rightarrow> cfaOpcode \<times> u8" where
  "decode_op b =
     (if b AND cfaHighOpcodeMask \<noteq> 0
      then (b AND cfaHighOpcodeMask, b AND cfaHighOpcodeValueMask) else (b, 0))"

definition exec_next :: "state \<Rightarrow> reader \<Rightarrow> (outcome \<times> state \<times> reader) option" where
  "exec_next st r = do {
     (b, r) \<leftarrow> rd_u8 r;
     let (opcode, operand) = decode_op b;
     exec_op opcode operand st r }"

fun state_step :: "nat \<Rightarrow> state \<Rightarrow> reader \<Rightarrow> (eherr option \<times> state \<times> reader) option" where
  "state_step fuel st r =
     (if hasData r then
        (case fuel of
           0 \<Rightarrow> Some (Some OutOfFuel, st, r)
         | Suc fuel' \<Rightarrow>
             (case exec_next st r of
                None \<Rightarrow> None
              | Some (Return e, st', r') \<Rightarrow> Some (e, st', r')
              | Some (Continue, st', r') \<Rightarrow> state_step fuel' st' r'))
      else Some (None, st, r))"

declare state_step.simps [simp del]

definition new_state :: "cieInfo \<Rightarrow> vmRegs \<Rightarrow> state" where
  "new_state cie cur =
     (let zero = cur\<lparr>vs_arch := EM_Other 0,
          vs_cfa := \<lparr>vr_arch = EM_Other 0, vr_reg = 0, vr_off = 0\<rparr>,
          vs_fp := \<lparr>vr_arch = EM_Other 0, vr_reg = 0, vr_off = 0\<rparr>,
          vs_ra := \<lparr>vr_arch = EM_Other 0, vr_reg = 0, vr_off = 0\<rparr>\<rparr>
      in \<lparr>st_cie = cie, st_loc = 0, st_cur = cur, st_stack = [zero, zero], st_stackNdx = 0\<rparr>)"

section \<open>Well-formed states\<close>

text \<open>
  The invariant of the machine: the stack has its two cells, at most two of them are in use, and all
  register files in use are of the architecture of the initial state.
\<close>

definition st_wf :: "state \<Rightarrow> bool" where
  "st_wf st \<longleftrightarrow> length (st_stack st) = 2 \<and> st_stackNdx st \<le> 2 \<and>
     vs_arch (st_cur st) = vs_arch (cie_initialState (st_cie st)) \<and>
     (\<forall>i < st_stackNdx st. vs_arch (st_stack st ! i) = vs_arch (cie_initialState (st_cie st)))"

lemma slot_set_arch [simp]: "vs_arch (slot_set s v regs) = vs_arch regs"
  by (cases s) simp_all

lemma state_rule_keeps [simp]:
  "st_cie (state_rule reg base off st) = st_cie st"
  "st_stack (state_rule reg base off st) = st_stack st"
  "st_stackNdx (state_rule reg base off st) = st_stackNdx st"
  "st_wf (state_rule reg base off st) = st_wf st"
  by (simp_all add: state_rule_def st_wf_def split: option.split)

lemma state_advance_keeps [simp]:
  "st_cie (state_advance d st) = st_cie st" "st_wf (state_advance d st) = st_wf st"
  by (simp_all add: state_advance_def st_wf_def)

lemma st_wf_loc [simp]: "st_wf (st\<lparr>st_loc := l\<rparr>) = st_wf st"
  by (simp add: st_wf_def)

lemma st_wf_cur [simp]:
  "vs_arch regs = vs_arch (st_cur st) \<Longrightarrow> st_wf (st\<lparr>st_cur := regs\<rparr>) = st_wf st"
  by (simp add: st_wf_def)

lemma state_restore_ok:
  assumes "st_wf st"
  shows "\<exists>st'. state_restore reg st = Some st' \<and> st_wf st' \<and> st_cie st' = st_cie st"
  using assms
  by (auto simp: state_restore_def vmRegs_reg_def st_wf_def split: option.split elf_Machine.split)

section \<open>Termination\<close>

text \<open>What one instruction does to the reader: only the position changes, and not backwards.\<close>

definition moves :: "reader \<Rightarrow> reader \<Rightarrow> bool" where
  "moves r r' \<longleftrightarrow> rd_data r' = rd_data r \<and> rd_end r' = rd_end r \<and> rd_vaddr r' = rd_vaddr r \<and>
     rd_debugFrame r' = rd_debugFrame r \<and> unat (rd_pos r) \<le> unat (rd_pos r')"

lemma moves_refl [simp]: "moves r r"
  by (simp add: moves_def)

lemma moves_trans: "moves r r' \<Longrightarrow> moves r' r'' \<Longrightarrow> moves r r''"
  by (auto simp: moves_def)

lemma advances_moves: "advances c r r' \<Longrightarrow> moves r r'"
  by (simp add: advances_def moves_def)

text \<open>
  No LEB128 number of the data, taken for the length of a block behind it, makes the position wrap
  around.
\<close>

definition lens_ok :: "reader \<Rightarrow> bool" where
  "lens_ok r \<longleftrightarrow> (\<forall>p v r'. unat p < unat (rd_end r) \<longrightarrow> rd_uleb (r\<lparr>rd_pos := p\<rparr>) = Some (v, r') \<longrightarrow>
     unat (rd_pos r') + unat v < 2 ^ 64)"

lemma uleb_loop_outside:
  assumes "rd_ok 1 r" "unat (rd_end r) \<le> unat (rd_pos r)"
  shows "rd_uleb r = Some (0, r\<lparr>rd_pos := rd_pos r + 1\<rparr>)"
  unfolding rd_uleb_def
  by (subst uleb_loop.simps) (simp add: rd_u8_outside [OF assms(2,1)])

lemma lens_ok_moves: "lens_ok r \<Longrightarrow> moves r r' \<Longrightarrow> lens_ok r'"
proof -
  assume *: "lens_ok r" "moves r r'"
  then have eq: "r'\<lparr>rd_pos := p\<rparr> = r\<lparr>rd_pos := p\<rparr>" for p
    by (cases r'; cases r) (simp add: moves_def)
  then show ?thesis using * by (simp add: lens_ok_def moves_def eq)
qed

lemma rd_uleb_len:
  assumes ok: "rd_ok 1 r" and lens: "lens_ok r" and rd: "rd_uleb r = Some (v, r')"
  shows "unat (rd_pos r') + unat v < 2 ^ 64"
proof (cases "unat (rd_pos r) < unat (rd_end r)")
  case True
  then show ?thesis using lens [unfolded lens_ok_def, rule_format, of "rd_pos r" v r'] rd by simp
next
  case False
  then have "v = 0" using uleb_loop_outside [OF ok] rd by simp
  then show ?thesis using unsigned_less [of "rd_pos r'"] by simp
qed

lemma rd_expression_ok:
  assumes ok: "rd_ok 1 r" and lens: "lens_ok r"
  shows "\<exists>res r'. rd_expression r = Some (res, r') \<and> moves r r'"
proof -
  obtain blen r1 where u: "rd_uleb r = Some (blen, r1)" and adv: "advances 1 r r1"
    using rd_leb_ok(1) [OF ok] by blast
  have nowrap: "unat (rd_pos r1) + unat blen < 2 ^ 64" by (rule rd_uleb_len [OF ok lens u])
  then have "unat (rd_pos r1 + blen) = unat (rd_pos r1) + unat blen"
    by (intro unat_add_no_wrap) simp
  then have "moves r (r\<lparr>rd_pos := rd_pos r1 + blen\<rparr>)"
    using adv by (simp add: moves_def advances_def)
  moreover have "rd_expression r \<noteq> None" and
    "\<And>res r'. rd_expression r = Some (res, r') \<Longrightarrow> r' = r\<lparr>rd_pos := rd_pos r1 + blen\<rparr>"
    using rd_expression_result [OF ok] u nowrap by auto
  ultimately show ?thesis by (cases "rd_expression r") auto
qed

text \<open>The result of an instruction: no panic, no wrap, the invariant kept.\<close>

definition op_ok :: "state \<Rightarrow> reader \<Rightarrow> (outcome \<times> state \<times> reader) option \<Rightarrow> bool" where
  "op_ok st r res \<longleftrightarrow> (\<exists>out st' r'. res = Some (out, st', r') \<and> moves r r' \<and> st_wf st' \<and>
     st_cie st' = st_cie st \<and> out \<noteq> Return (Some OutOfFuel))"

lemma op_ok_Some [simp]:
  "op_ok st r (Some (out, st', r')) \<longleftrightarrow>
     moves r r' \<and> st_wf st' \<and> st_cie st' = st_cie st \<and> out \<noteq> Return (Some OutOfFuel)"
  by (simp add: op_ok_def)

text \<open>The reads an instruction can make, all at once.\<close>

lemma op_reads:
  assumes ok: "rd_ok 8 r" and lens: "lens_ok r"
  obtains u r1 s r1' u2 r2 s2 r2' x rx x1 rx1 where
    "rd_uleb r = Some (u, r1)" "moves r r1" "rd_sleb r = Some (s, r1')" "moves r r1'"
    "rd_uleb r1 = Some (u2, r2)" "moves r r2" "rd_sleb r1 = Some (s2, r2')" "moves r r2'"
    "rd_expression r = Some (x, rx)" "moves r rx" "rd_expression r1 = Some (x1, rx1)" "moves r rx1"
    "moves r (r2\<lparr>rd_pos := rd_pos r2 + u2\<rparr>)"
proof -
  have ok1: "rd_ok 1 r" using rd_ok_mono [OF ok] by simp
  obtain u r1 s r1' where u: "rd_uleb r = Some (u, r1)" "advances 1 r r1"
    and s: "rd_sleb r = Some (s, r1')" "advances 1 r r1'"
    using rd_leb_ok [OF ok1] by meson
  have okr1: "rd_ok 1 r1" using rd_ok_advances [of 1 1, OF _ u(2)] rd_ok_mono [OF ok, of 2]
    by (simp add: numeral_2_eq_2)
  note m1 = advances_moves [OF u(2)]
  have lens1: "lens_ok r1" using lens m1 by (rule lens_ok_moves)
  obtain u2 r2 s2 r2' where u2: "rd_uleb r1 = Some (u2, r2)" "advances 1 r1 r2"
    and s2: "rd_sleb r1 = Some (s2, r2')" "advances 1 r1 r2'"
    using rd_leb_ok [OF okr1] by meson
  obtain x rx x1 rx1 where x: "rd_expression r = Some (x, rx)" "moves r rx"
    and x1: "rd_expression r1 = Some (x1, rx1)" "moves r1 rx1"
    using rd_expression_ok [OF ok1 lens] rd_expression_ok [OF okr1 lens1] by auto
  have "unat (rd_pos r2 + u2) = unat (rd_pos r2) + unat u2"
    using rd_uleb_len [OF okr1 lens1 u2(1)] by (intro unat_add_no_wrap) simp
  then have "moves r2 (r2\<lparr>rd_pos := rd_pos r2 + u2\<rparr>)" by (simp add: moves_def)
  then show thesis
    using that [OF u(1) m1 s(1) advances_moves [OF s(2)] u2(1) _ s2(1) _ x x1(1)]
      moves_trans [OF m1] advances_moves [OF u2(2)] advances_moves [OF s2(2)] x1(2)
    by (meson moves_trans)
qed

lemma exec_cfa_ok:
  assumes ok: "rd_ok 8 r" and lens: "lens_ok r" and wf: "st_wf st"
  shows "op_ok st r (exec_cfa opcode st r)"
  using ok lens
proof (rule op_reads)
qed (simp add: exec_cfa_def Let_def wf split: sum.split)

lemma exec_reg_ok:
  assumes ok: "rd_ok 8 r" and lens: "lens_ok r" and wf: "st_wf st"
  shows "op_ok st r (exec_reg opcode operand st r)"
proof -
  have restore: "op_ok st r (do { st \<leftarrow> state_restore reg st; Some (Continue, st, r') })"
    if "moves r r'" for reg r'
    using state_restore_ok [OF wf, of reg] that by auto
  show ?thesis
    using ok lens
  proof (rule op_reads)
  qed (simp add: exec_reg_def Let_def wf restore exec_cfa_ok [OF ok lens wf]
      split: sum.split option.split)
qed

lemma exec_op_ok:
  assumes ok: "rd_ok 8 r" and lens: "lens_ok r" and wf: "st_wf st"
  shows "op_ok st r (exec_op opcode operand st r)"
proof -
  obtain res rp where p: "rd_ptr (cie_enc (st_cie st)) r = Some (res, rp)" "moves r rp"
    and fuel: "res \<noteq> Inl OutOfFuel"
    using rd_ptr_ok [OF ok] advances_moves by metis
  have oks: "rd_ok 1 r" "rd_ok 2 r" "rd_ok 4 r" using rd_ok_mono [OF ok] by simp_all
  obtain a ra b rb c rc where f: "rd_u8 r = Some (a, ra)" "rd_u16 r = Some (b, rb)" "rd_u32 r = Some (c, rc)"
    and m: "moves r ra" "moves r rb" "moves r rc"
    using rd_fixed_ok(1) [OF oks(1)] rd_fixed_ok(2) [OF oks(2)] rd_fixed_ok(3) [OF oks(3)] advances_moves
    by metis
  have loc: "op_ok st r (case res of
      Inl e \<Rightarrow> Some (Return (Some e), st\<lparr>st_loc := 0\<rparr>, rp) | Inr l \<Rightarrow> Some (Return None, st\<lparr>st_loc := l\<rparr>, rp))"
    using p(2) fuel wf by (auto split: sum.split)
  have remember: "st_wf (st\<lparr>st_stack := (st_stack st)[st_stackNdx st := st_cur st], st_stackNdx := st_stackNdx st + 1\<rparr>)"
    if "\<not> length (st_stack st) \<le> st_stackNdx st"
    using wf that by (auto simp: st_wf_def nth_list_update)
  have restore: "st_wf (st\<lparr>st_stackNdx := st_stackNdx st - 1, st_cur := st_stack st ! (st_stackNdx st - 1)\<rparr>)"
    if "st_stackNdx st \<noteq> 0"
    using wf that by (auto simp: st_wf_def)
  show ?thesis
    using ok lens
  proof (rule op_reads)
  qed (use remember restore in
      \<open>simp add: exec_op_def Let_def wf f m p(1) loc exec_reg_ok [OF ok lens wf]\<close>)
qed

lemma exec_next_ok:
  assumes wf: "rd_wf r" and data: "hasData r" and lens: "lens_ok r" and st: "st_wf st"
  shows "\<exists>out st' r'. exec_next st r = Some (out, st', r') \<and> moves r r' \<and>
    unat (rd_pos r) < unat (rd_pos r') \<and> st_wf st' \<and> st_cie st' = st_cie st \<and>
    out \<noteq> Return (Some OutOfFuel)"
proof -
  have ok: "rd_ok 9 r" using wf data by (auto simp: rd_ok_def rd_wf_def hasData_def word_less_nat_alt)
  obtain b r1 where b: "rd_u8 r = Some (b, r1)" and adv: "advances 1 r r1"
    and lt: "unat (rd_pos r) < unat (rd_pos r1)"
    using rd_fixed_ok(1) [OF rd_ok_mono [OF ok]] by auto
  have "rd_ok 8 r1" using rd_ok_advances [of 1 8, OF _ adv] ok by simp
  moreover have "lens_ok r1" using lens_ok_moves [OF lens advances_moves [OF adv]] .
  moreover obtain opcode operand where d: "decode_op b = (opcode, operand)" by fastforce
  ultimately have "op_ok st r1 (exec_op opcode operand st r1)"
    using exec_op_ok st by blast
  then obtain out st' r' where "exec_next st r = Some (out, st', r')" "moves r1 r'" "st_wf st'"
    "st_cie st' = st_cie st" "out \<noteq> Return (Some OutOfFuel)"
    unfolding op_ok_def exec_next_def b by (auto simp: d)
  then show ?thesis
    using moves_trans [OF advances_moves [OF adv]] lt by (auto simp: moves_def)
qed

lemma state_step_ok:
  assumes "rd_wf r" "lens_ok r" "st_wf st" "unat (rd_end r) \<le> unat (rd_pos r) + fuel"
  shows "\<exists>e st' r'. state_step fuel st r = Some (e, st', r') \<and> e \<noteq> Some OutOfFuel \<and> moves r r' \<and>
    (hasData r \<longrightarrow> unat (rd_pos r) < unat (rd_pos r')) \<and> st_wf st' \<and> st_cie st' = st_cie st"
  using assms
proof (induction fuel arbitrary: st r)
  case 0
  then have "\<not> hasData r" by (simp add: hasData_def word_less_nat_alt)
  then show ?case using 0 by (simp add: state_step.simps)
next
  case (Suc fuel)
  show ?case
  proof (cases "hasData r")
    case True
    obtain out st1 r1 where x: "exec_next st r = Some (out, st1, r1)" "moves r r1"
        "unat (rd_pos r) < unat (rd_pos r1)" "st_wf st1" "st_cie st1 = st_cie st" "out \<noteq> Return (Some OutOfFuel)"
      using exec_next_ok [OF Suc.prems(1) True Suc.prems(2,3)] by blast
    show ?thesis
    proof (cases out)
      case Continue
      have "rd_wf r1" "unat (rd_end r1) \<le> unat (rd_pos r1) + fuel"
        using Suc.prems(1,4) x(2,3) by (auto simp: rd_wf_def moves_def)
      with Suc.IH [of r1 st1] lens_ok_moves [OF Suc.prems(2) x(2)] x(4)
      obtain e st' r' where s: "state_step fuel st1 r1 = Some (e, st', r')" "e \<noteq> Some OutOfFuel" "moves r1 r'"
        "st_wf st'" "st_cie st' = st_cie st1"
        by blast
      have "state_step (Suc fuel) st r = Some (e, st', r')"
        using True x(1) s(1) Continue by (simp add: state_step.simps [of "Suc fuel"])
      moreover have "unat (rd_pos r) < unat (rd_pos r')"
        using x(3) s(3) by (simp add: moves_def)
      ultimately show ?thesis
        using s x(5) moves_trans [OF x(2) s(3)] by simp
    next
      case (Return e)
      then have "state_step (Suc fuel) st r = Some (e, st1, r1)"
        using True x(1) by (simp add: state_step.simps [of "Suc fuel"])
      then show ?thesis using x Return by simp
    qed
  next
    case False
    then show ?thesis using Suc.prems by (simp add: state_step.simps)
  qed
qed

text \<open>Data without continuation bytes cannot hold a wrapping length.\<close>

lemma lens_ok_short:
  assumes "rd_wf r" "list_all (\<lambda>b. b < 0x80) (rd_data r)"
  shows "lens_ok r"
  unfolding lens_ok_def
proof (intro allI impI)
  fix p v r'
  let ?r = "r\<lparr>rd_pos := p\<rparr>"
  assume p: "unat p < unat (rd_end r)" and u: "rd_uleb ?r = Some (v, r')"
  have len: "unat p < length (rd_data r)" "unat p < 2 ^ 63" using assms(1) p by (auto simp: rd_wf_def)
  let ?b = "rd_data r ! unat p"
  have "rd_u8 ?r = Some (?b, ?r\<lparr>rd_pos := p + 1\<rparr>)"
    using rd_u8_inside [of ?r] assms(1) p by (simp add: rd_wf_def)
  moreover have "unat ?b < 128"
    using assms(2) len(1) by (simp add: list_all_length word_less_nat_alt)
  ultimately have "rd_uleb ?r = Some (word_of_nat (unat ?b), r\<lparr>rd_pos := p + 1\<rparr>)"
    unfolding rd_uleb_def by (subst uleb_loop.simps) (simp only: option.case prod.case Let_def and_80 low7_unat, simp)
  then have r': "v = word_of_nat (unat ?b)" "rd_pos r' = p + 1" using u by auto
  have "unat (p + 1) \<le> 2 ^ 63"
    using unat_Suc_no_wrap [of p "2 ^ 63"] len(2) by simp
  moreover have "unat v < 2 ^ 63"
    using r'(1) \<open>unat ?b < 128\<close> by (simp add: unsigned_ucast_eq take_bit_eq_mod)
  ultimately show "unat (rd_pos r') + unat v < 2 ^ 64" using r'(2) by simp
qed

text \<open>
  C26: Interpreting call frame instructions terminates, without a panic: as long as no length in
  the data makes the position wrap around, as many iterations as there are bytes left are
  enough, the machine keeps its invariant, the position does not move back, and it moves
  forward whenever there was data.
\<close>

theorem state_step_total:
  assumes "rd_wf r" "lens_ok r" "st_wf st" "unat (rd_end r) - unat (rd_pos r) \<le> fuel"
  shows "\<exists>e st' r'. state_step fuel st r = Some (e, st', r') \<and> e \<noteq> Some OutOfFuel \<and> st_wf st' \<and>
    st_cie st' = st_cie st \<and> unat (rd_pos r) \<le> unat (rd_pos r') \<and>
    (hasData r \<longrightarrow> unat (rd_pos r) < unat (rd_pos r'))"
  using state_step_ok [of r st fuel] assms unfolding moves_def by fastforce

definition example_cie :: cieInfo where
  "example_cie = \<lparr>cie_dataAlign = - 8, cie_codeAlign = 1, cie_regRA = 16, cie_enc = 0, cie_ldsaEnc = 0,
     cie_hasAugmentation = False, cie_isSignalHandler = False, cie_initialState = newVMRegsX86\<rparr>"

definition example_program :: reader where
  "example_program = \<lparr>rd_debugFrame = False, rd_data = [0x0c, 0x07, 0x08, 0x0a, 0x0e, 0x10, 0x41],
     rd_pos = 0, rd_end = 7, rd_vaddr = 0\<rparr>"

theorem state_step_total_witness:
  "\<exists>e st' r'. state_step 7 (new_state example_cie newVMRegsX86) example_program = Some (e, st', r') \<and>
     e \<noteq> Some OutOfFuel \<and> st_wf st' \<and> 0 < unat (rd_pos r')"
proof -
  have wf: "rd_wf example_program" by (simp add: rd_wf_def example_program_def)
  have "lens_ok example_program"
    by (rule lens_ok_short [OF wf]) (simp add: example_program_def)
  moreover have "st_wf (new_state example_cie newVMRegsX86)"
    by (simp add: st_wf_def new_state_def example_cie_def Let_def)
  moreover have "hasData example_program" by (simp add: hasData_def example_program_def)
  ultimately show ?thesis
    using state_step_total [OF wf, of "new_state example_cie newVMRegsX86" 7]
    by (auto simp: example_program_def)
qed

section \<open>A program that never ends\<close>

text \<open>
  \<open>DW_CFA_val_expression\<close> of register 0 with the block length \<open>2^64 - 12\<close>: skipping the
  block moves the position from 12 back to 0.
\<close>

definition endless_program :: reader where
  "endless_program = \<lparr>rd_debugFrame = False,
     rd_data = [0x16, 0x00, 0xf4, 0xff, 0xff, 0xff, 0xff, 0xff, 0xff, 0xff, 0xff, 0x01],
     rd_pos = 0, rd_end = 12, rd_vaddr = 0\<rparr>"

lemma endless_iteration:
  "exec_next (new_state example_cie newVMRegsX86) endless_program =
     Some (Continue, new_state example_cie newVMRegsX86, endless_program)"
proof -
  let ?r = "\<lambda>p. endless_program\<lparr>rd_pos := p\<rparr>"
  have e: "enc_uleb 0 = [0x00]"
    "enc_uleb 18446744073709551604 = [0xf4, 0xff, 0xff, 0xff, 0xff, 0xff, 0xff, 0xff, 0xff, 0x01]"
    by (simp_all add: enc_uleb.simps)
  have at: "rd_at (?r 0) [0x16]" "rd_at (?r 1) (enc_uleb 0)" "rd_at (?r 2) (enc_uleb 18446744073709551604)"
    by (simp_all add: rd_at_def rd_wf_def endless_program_def e)
  have u: "rd_uleb (?r 1) = Some (0, ?r 2)" "rd_uleb (?r 2) = Some (18446744073709551604, ?r 12)"
    using uleb_loop_enc [OF at(2), of 0 0] uleb_loop_enc [OF at(3), of 0 0]
    by (simp_all add: rd_uleb_def e)
  have "rd_u8 endless_program = Some (0x16, ?r 1)"
    using rd_at_Cons(1) [OF at(1)] by (simp add: endless_program_def)
  then show ?thesis
    by (simp add: exec_next_def decode_op_def exec_op_def exec_reg_def u state_rule_def vmRegs_reg_def
        new_state_def newVMRegsX86_def regX86_def Let_def)
      (simp add: endless_program_def)
qed

text \<open>
  The hypothesis of termination cannot be dropped: on the twelve bytes of
  \<open>endless_program\<close> the loop of \<open>step\<close> never returns, however long it runs.
\<close>

theorem state_step_diverges:
  "state_step fuel (new_state example_cie newVMRegsX86) endless_program =
     Some (Some OutOfFuel, new_state example_cie newVMRegsX86, endless_program)"
proof (induction fuel)
  case 0
  then show ?case by (simp add: state_step.simps hasData_def endless_program_def)
next
  case (Suc fuel)
  have "hasData endless_program" by (simp add: hasData_def endless_program_def)
  then show ?case
    using Suc endless_iteration by (simp add: state_step.simps [of "Suc fuel"])
qed

section \<open>Remembered states\<close>

text \<open>
  The contract of a bounded stack of saved values, for a machine that saves its current value and
  takes the last saved one back.
\<close>

locale bounded_stack =
  fixes cap :: nat and inv :: "'s \<Rightarrow> bool" and saved :: "'s \<Rightarrow> 'a list" and current :: "'s \<Rightarrow> 'a"
    and remember :: "'s \<Rightarrow> 's option" and restore :: "'s \<Rightarrow> 's option"
  assumes remember_full: "inv s \<Longrightarrow> remember s = None \<longleftrightarrow> length (saved s) \<ge> cap"
    and remember_push: "inv s \<Longrightarrow> remember s = Some s' \<Longrightarrow>
      inv s' \<and> saved s' = saved s @ [current s] \<and> current s' = current s"
    and restore_empty: "inv s \<Longrightarrow> restore s = None \<longleftrightarrow> saved s = []"
    and restore_pop: "inv s \<Longrightarrow> restore s = Some s' \<Longrightarrow> inv s' \<and> saved s = saved s' @ [current s']"
begin

lemma bracket:
  assumes "inv s" "remember s = Some s1" "inv s2" "saved s2 = saved s1"
  shows "\<exists>s3. restore s2 = Some s3 \<and> current s3 = current s \<and> saved s3 = saved s \<and> inv s3"
proof -
  have s1: "saved s2 = saved s @ [current s]"
    using remember_push [OF assms(1,2)] assms(4) by simp
  then obtain s3 where "restore s2 = Some s3"
    using restore_empty [OF assms(3)] by (cases "restore s2") auto
  then show ?thesis using restore_pop [OF assms(3)] s1 by fastforce
qed

lemma depth_le: "inv s \<Longrightarrow> length (saved s) \<le> cap \<Longrightarrow> remember s = Some s' \<Longrightarrow> length (saved s') \<le> cap"
  using remember_full [of s] remember_push [of s s'] by (cases "length (saved s) = cap") auto

end

definition saved_states :: "state \<Rightarrow> vmRegs list" where
  "saved_states st = take (st_stackNdx st) (st_stack st)"

text \<open>The two instructions, as partial functions on the state.\<close>

definition continued :: "(outcome \<times> state \<times> reader) option \<Rightarrow> state option" where
  "continued res = (case res of Some (Continue, st, _) \<Rightarrow> Some st | _ \<Rightarrow> None)"

interpretation cfaStack: bounded_stack 2 st_wf saved_states st_cur
  "\<lambda>st. continued (exec_op cfaRememberState operand st r)"
  "\<lambda>st. continued (exec_op cfaRestoreState operand st r)" for operand r
proof (unfold_locales, goal_cases)
  case (1 s)
  then show ?case by (auto simp: exec_op_def continued_def st_wf_def saved_states_def)
next
  case (2 s s')
  then show ?case
    by (auto simp: exec_op_def continued_def st_wf_def saved_states_def nth_list_update
        take_Suc_conv_app_nth split: if_splits)
next
  case (3 s)
  then show ?case by (auto simp: exec_op_def continued_def st_wf_def saved_states_def)
next
  case (4 s s')
  then show ?case
    using take_Suc_conv_app_nth [of "st_stackNdx s - 1" "st_stack s"]
    by (auto simp: exec_op_def continued_def st_wf_def saved_states_def split: if_splits)
qed

text \<open>All other instructions leave the saved states alone.\<close>

lemma saved_states_upd [simp]:
  "saved_states (st\<lparr>st_cur := c\<rparr>) = saved_states st" "saved_states (st\<lparr>st_loc := l\<rparr>) = saved_states st"
  "saved_states (state_rule reg base off st) = saved_states st"
  "saved_states (state_advance d st) = saved_states st"
  by (simp_all add: saved_states_def state_advance_def)

text \<open>Whatever an instruction returns has the saved states of \<open>st\<close> and keeps the invariant.\<close>

definition keeps :: "state \<Rightarrow> (outcome \<times> state \<times> reader) option \<Rightarrow> bool" where
  "keeps st res \<longleftrightarrow> (\<forall>out st' r'. res = Some (out, st', r') \<longrightarrow>
     saved_states st' = saved_states st \<and> (st_wf st \<longrightarrow> st_wf st'))"

lemma keeps_Some [simp]:
  "keeps st (Some (out, st', r')) \<longleftrightarrow> saved_states st' = saved_states st \<and> (st_wf st \<longrightarrow> st_wf st')"
  by (simp add: keeps_def)

lemma keeps_None [simp]: "keeps st None"
  by (simp add: keeps_def)

lemma keeps_bind: "(\<And>x. m = Some x \<Longrightarrow> keeps st (f x)) \<Longrightarrow> keeps st (m \<bind> f)"
  by (cases m) (simp_all add: keeps_def)

lemma keeps_restore: "keeps st (do { st \<leftarrow> state_restore reg st; Some (out, st, r) })"
  using state_restore_ok [of st reg]
  by (auto intro!: keeps_bind simp: state_restore_def split: option.splits)

lemma exec_cfa_keeps: "keeps st (exec_cfa opcode st r)"
  unfolding exec_cfa_def Let_def
  by (auto intro!: keeps_bind split: prod.split sum.split)

lemma exec_reg_keeps: "keeps st (exec_reg opcode operand st r)"
  unfolding exec_reg_def
  by (auto intro!: keeps_restore exec_cfa_keeps simp: split_beta split: sum.split option.split)
    (auto intro!: keeps_bind keeps_restore split: prod.split sum.split option.split)

lemma exec_op_keeps:
  "opcode \<noteq> cfaRememberState \<Longrightarrow> opcode \<noteq> cfaRestoreState \<Longrightarrow> keeps st (exec_op opcode operand st r)"
  unfolding exec_op_def
  by (auto intro!: keeps_bind exec_reg_keeps split: prod.split sum.split)

text \<open>
  Instruction sequences in which every remembered state is restored again, whatever else they
  do.
\<close>

inductive balanced :: "state \<Rightarrow> state \<Rightarrow> bool" where
  bal_refl: "balanced st st"
| bal_instr: "balanced st st1 \<Longrightarrow> opcode \<noteq> cfaRememberState \<Longrightarrow> opcode \<noteq> cfaRestoreState \<Longrightarrow>
    exec_op opcode operand st1 r = Some (out, st2, r') \<Longrightarrow> balanced st st2"
| bal_nest: "balanced st st1 \<Longrightarrow> exec_op cfaRememberState operand st1 r = Some (Continue, st2, r2) \<Longrightarrow>
    balanced st2 st3 \<Longrightarrow> exec_op cfaRestoreState operand' st3 r3 = Some (Continue, st4, r4) \<Longrightarrow>
    balanced st st4"

lemma balanced_saved:
  "balanced st st' \<Longrightarrow> st_wf st \<Longrightarrow> st_wf st' \<and> saved_states st' = saved_states st"
proof (induction rule: balanced.induct)
  case (bal_instr st st1 opcode operand r out st2 r')
  then show ?case using exec_op_keeps [of opcode st1 operand r] by (simp add: keeps_def)
next
  case (bal_nest st st1 operand r st2 r2 st3 operand' r3 st4 r4)
  have wf1: "st_wf st1" and sv1: "saved_states st1 = saved_states st" using bal_nest by simp_all
  have rem: "continued (exec_op cfaRememberState operand st1 r) = Some st2"
    and rst: "continued (exec_op cfaRestoreState operand' st3 r3) = Some st4"
    using bal_nest by (simp_all add: continued_def)
  have "st_wf st2" using cfaStack.remember_push [OF wf1 rem] by blast
  then have "st_wf st3" "saved_states st3 = saved_states st2" using bal_nest by simp_all
  then show ?case
    using cfaStack.remember_push [OF wf1 rem] cfaStack.restore_pop [OF _ rst] sv1 by simp
qed simp

text \<open>
  C22: Remembered states are a stack: a state remembered before a balanced sequence of
  instructions is the current state again after the matching restore, which cannot fail, and the states
  remembered earlier are still there.
\<close>

theorem remember_restore:
  assumes "st_wf st" "exec_op cfaRememberState operand st r = Some (Continue, st1, r1)"
    and "balanced st1 st2"
  shows "\<exists>st3. exec_op cfaRestoreState operand' st2 r2 = Some (Continue, st3, r2) \<and>
    st_cur st3 = st_cur st \<and> saved_states st3 = saved_states st \<and> st_wf st3 \<and> st_loc st3 = st_loc st2"
proof -
  have rem: "continued (exec_op cfaRememberState operand st r) = Some st1"
    using assms(2) by (simp add: continued_def)
  have "st_wf st1" using cfaStack.remember_push [OF assms(1) rem] by blast
  then have "st_wf st2" "saved_states st2 = saved_states st1"
    using balanced_saved [OF assms(3)] by simp_all
  from cfaStack.bracket [OF assms(1) rem this] obtain st3 where
    c: "continued (exec_op cfaRestoreState operand st2 r) = Some st3" and
    eq: "st_cur st3 = st_cur st" "saved_states st3 = saved_states st" "st_wf st3"
    by blast
  then have "exec_op cfaRestoreState operand' st2 r2 = Some (Continue, st3, r2) \<and> st_loc st3 = st_loc st2"
    by (auto simp: continued_def exec_op_def split: if_splits)
  then show ?thesis using eq by blast
qed

theorem remember_restore_witness:
  "\<exists>st1 st2 st3.
     exec_op cfaRememberState 0 (new_state example_cie newVMRegsX86) example_program = Some (Continue, st1, example_program) \<and>
     exec_op cfaAdvanceLoc 5 st1 example_program = Some (Return None, st2, example_program) \<and>
     exec_op cfaRestoreState 0 st2 example_program = Some (Continue, st3, example_program) \<and>
     st_cur st3 = newVMRegsX86 \<and> st_loc st3 = 5"
proof -
  let ?st = "new_state example_cie newVMRegsX86"
  have wf: "st_wf ?st" by (simp add: st_wf_def new_state_def example_cie_def Let_def)
  obtain st1 where r: "exec_op cfaRememberState 0 ?st example_program = Some (Continue, st1, example_program)"
    and loc: "st_loc st1 = 0" "st_cie st1 = example_cie"
    by (auto simp: exec_op_def new_state_def Let_def)
  have a: "exec_op cfaAdvanceLoc 5 st1 example_program = Some (Return None, state_advance 5 st1, example_program)"
    by (simp add: exec_op_def)
  then have "balanced st1 (state_advance 5 st1)"
    using bal_instr [OF bal_refl, of cfaAdvanceLoc 5 st1] by simp
  from remember_restore [OF wf r this, of 0 example_program] r a loc show ?thesis
    by (auto simp: state_advance_def example_cie_def new_state_def Let_def)
qed

end
