(* ===== verification/ExtractionFilter.thy ===== *)
theory ExtractionFilter
  imports CfaMachine
begin

text \<open>
  The hooks of the exception frame parser (\<open>extractionFilter\<close> in
  \<open>nativeunwind/elfunwindinfo/stackdeltaextraction.go\<close>): which frame description entries
  are kept, and where the synthesised block of the entry stub is inserted.

  The lemmas show for which entries \<open>fdeHook\<close> says yes, that the entry block is inserted at
  most once and before the first entry that starts at or behind it, and that kept entries keep the
  interval table in order.
\<close>

unbundle bit_operations_syntax

record fdeInfo =
  fde_ciePos :: u64
  fde_ipLen :: uintptr
  fde_ipStart :: uintptr

record extractionFilter =
  xf_start :: uintptr
  xf_end :: uintptr
  xf_entryStart :: uintptr
  xf_entryEnd :: uintptr
  xf_entryPending :: bool
  xf_ehFrames :: bool
  xf_golangFrames :: bool
  xf_unsortedFrames :: bool

definition extractionFilter_zero :: extractionFilter where
  "extractionFilter_zero = \<lparr>xf_start = 0, xf_end = 0, xf_entryStart = 0, xf_entryEnd = 0,
     xf_entryPending = False, xf_ehFrames = False, xf_golangFrames = False, xf_unsortedFrames = False\<rparr>"

definition entry_block :: "extractionFilter \<Rightarrow> BasicBlock" where
  "entry_block f = \<lparr>bb_Start = xf_entryStart f, bb_End = xf_entryEnd f,
     bb_Deltas = StackDeltaArray_Add [] 0 UnwindInfoStop\<rparr>"

definition addEntryDeltas :: "extractionFilter \<Rightarrow> IntervalData \<Rightarrow> extractionFilter \<times> IntervalData" where
  "addEntryDeltas f intervals =
     (f\<lparr>xf_ehFrames := True, xf_entryPending := False\<rparr>, IntervalData_Add intervals (entry_block f))"

definition fdeUnsorted :: "extractionFilter \<Rightarrow> extractionFilter" where
  "fdeUnsorted f = f\<lparr>xf_unsortedFrames := True\<rparr>"

definition golangHook :: "uintptr \<Rightarrow> uintptr \<Rightarrow> extractionFilter \<Rightarrow> extractionFilter" where
  "golangHook start end f = f\<lparr>xf_start := start, xf_end := end, xf_golangFrames := True\<rparr>"

definition fdeHook ::
  "fdeInfo \<Rightarrow> extractionFilter \<Rightarrow> IntervalData \<Rightarrow> bool \<times> extractionFilter \<times> IntervalData" where
  "fdeHook fde f intervals =
     (let ipEnd = fde_ipStart fde + fde_ipLen fde
      in if xf_start f \<le> fde_ipStart fde \<and> ipEnd \<le> xf_end f then (False, f, intervals)
         else if xf_unsortedFrames f \<and> fde_ipStart fde = 0 then (False, f, intervals)
         else
           let (f, intervals) =
                 (if xf_entryPending f \<and> fde_ipStart fde \<ge> xf_entryStart f
                  then addEntryDeltas f intervals else (f, intervals))
           in if ipEnd > xf_entryStart f \<and> xf_entryEnd f \<ge> fde_ipStart fde then (False, f, intervals)
              else (True, f\<lparr>xf_ehFrames := True\<rparr>, intervals))"

section \<open>Which entries are kept\<close>

text \<open>The conditions of the code under which an entry is dropped.\<close>

definition fde_dropped :: "extractionFilter \<Rightarrow> fdeInfo \<Rightarrow> bool" where
  "fde_dropped f fde \<longleftrightarrow>
     xf_start f \<le> fde_ipStart fde \<and> fde_ipStart fde + fde_ipLen fde \<le> xf_end f \<or>
     xf_unsortedFrames f \<and> fde_ipStart fde = 0 \<or>
     fde_ipStart fde + fde_ipLen fde > xf_entryStart f \<and> xf_entryEnd f \<ge> fde_ipStart fde"

lemma fdeHook_result: "fst (fdeHook fde f iv) \<longleftrightarrow> \<not> fde_dropped f fde"
  by (auto simp: fdeHook_def fde_dropped_def addEntryDeltas_def Let_def)

lemma fdeHook_frame:
  assumes "fdeHook fde f iv = (keep, f', iv')"
  shows "xf_start f' = xf_start f" "xf_end f' = xf_end f" "xf_entryStart f' = xf_entryStart f"
    "xf_entryEnd f' = xf_entryEnd f" "xf_unsortedFrames f' = xf_unsortedFrames f"
    "xf_golangFrames f' = xf_golangFrames f" "xf_entryPending f' \<Longrightarrow> xf_entryPending f"
  using assms by (auto simp: fdeHook_def addEntryDeltas_def Let_def split: if_splits)

lemma fdeHook_intervals:
  assumes "fdeHook fde f iv = (keep, f', iv')"
  shows "iv' = iv \<and> xf_entryPending f' = xf_entryPending f \<and> (xf_entryPending f \<and> keep \<longrightarrow> fde_ipStart fde < xf_entryStart f) \<or>
    xf_entryPending f \<and> \<not> xf_entryPending f' \<and> xf_entryStart f \<le> fde_ipStart fde \<and>
      iv' = IntervalData_Add iv (entry_block f)"
  using assms by (auto simp: fdeHook_def addEntryDeltas_def Let_def split: if_splits)

section \<open>Order of the interval table\<close>

text \<open>
  The state of a sorted extraction: the blocks so far are in order and end at or before
  \<open>bound\<close>, and a pending entry block still lies behind all of them.
\<close>

definition sorted_to :: "uintptr \<Rightarrow> extractionFilter \<Rightarrow> IntervalData \<Rightarrow> bool" where
  "sorted_to bound f iv \<longleftrightarrow> blocks_wf (iv_Blocks iv) \<and>
     (\<forall>b \<in> set (iv_Blocks iv). bb_End b \<le> bound \<or>
        bb_End b \<le> xf_entryEnd f \<and> xf_entryStart f \<le> bound \<and> \<not> xf_entryPending f) \<and>
     (xf_entryPending f \<longrightarrow> xf_entryStart f < xf_entryEnd f \<and>
        (\<forall>b \<in> set (iv_Blocks iv). bb_End b \<le> xf_entryStart f))"

lemma IntervalData_Add_ends:
  assumes "b \<in> set (iv_Blocks (IntervalData_Add iv bb))"
  shows "bb_End b = bb_End bb \<or> b \<in> set (iv_Blocks iv)"
  using IntervalData_Add_blocks [of iv bb] assms by auto

text \<open>
  Filtering an entry of a sorted table keeps the interval table in order: when the entries
  come in address order, each not empty and not wrapping, the hook's own insertion of the entry
  stub and the block that the caller adds for a kept entry leave non-empty, disjoint blocks in
  address order, and every block ends at or before the end of the entry (or of the entry
  stub).
\<close>

theorem fdeHook_sorted:
  assumes sorted: "sorted_to (fde_ipStart fde) f iv"
    and hook: "fdeHook fde f iv = (keep, f', iv')"
    and bb: "bb_Start bb = fde_ipStart fde" "bb_End bb = fde_ipStart fde + fde_ipLen fde"
      "bb_Start bb < bb_End bb"
    and next_fde: "fde_ipStart fde + fde_ipLen fde \<le> bound"
  shows "sorted_to bound f' (if keep then IntervalData_Add iv' bb else iv')"
proof -
  have wf: "blocks_wf (iv_Blocks iv)" using sorted by (simp add: sorted_to_def)
  have start_bound: "fde_ipStart fde \<le> bound" "fde_ipStart fde < bb_End bb" "bb_End bb \<le> bound"
    using bb next_fde by auto
  note frame = fdeHook_frame [OF hook]
  have keep: "keep \<longleftrightarrow> \<not> fde_dropped f fde" using fdeHook_result [of fde f iv] hook by simp
  have iv': "sorted_to (fde_ipStart fde) f' iv'"
    using fdeHook_intervals [OF hook]
  proof (elim disjE conjE)
    assume "iv' = iv" "xf_entryPending f' = xf_entryPending f"
    then show ?thesis using sorted frame by (simp add: sorted_to_def)
  next
    assume p: "xf_entryPending f" "\<not> xf_entryPending f'" "xf_entryStart f \<le> fde_ipStart fde"
      and eq: "iv' = IntervalData_Add iv (entry_block f)"
    have "blocks_wf (iv_Blocks iv')"
      using sorted p(1) unfolding eq
      by (intro IntervalData_Add_wf) (auto simp: sorted_to_def entry_block_def)
    moreover have "bb_End b \<le> fde_ipStart fde \<or> bb_End b \<le> xf_entryEnd f" if "b \<in> set (iv_Blocks iv')" for b
      using IntervalData_Add_ends [of b iv "entry_block f"] that sorted eq p(1)
      by (auto simp: sorted_to_def entry_block_def)
    ultimately show ?thesis using p(2,3) frame by (auto simp: sorted_to_def)
  qed
  show ?thesis
  proof (cases keep)
    case False
    then show ?thesis
      using iv' start_bound(1) by (auto simp: sorted_to_def intro: order_trans)
  next
    case True
    have entry: "xf_entryEnd f' < fde_ipStart fde \<or> bb_End bb \<le> xf_entryStart f'"
      using True keep bb frame by (auto simp: fde_dropped_def)
    have before: "bb_End b \<le> bb_Start bb" if "b \<in> set (iv_Blocks iv')" for b
      using iv' that entry start_bound(2) unfolding sorted_to_def bb(1)
      by (meson leD le_less_trans less_imp_le not_le order_trans)
    have pending: "bb_End bb \<le> xf_entryStart f'" if "xf_entryPending f'"
    proof -
      have "fde_ipStart fde < xf_entryStart f'" "xf_entryStart f' < xf_entryEnd f'"
        using fdeHook_intervals [OF hook] that True iv' frame by (auto simp: sorted_to_def)
      then show ?thesis using entry by (meson less_trans not_less_iff_gr_or_eq)
    qed
    have "blocks_wf (iv_Blocks (IntervalData_Add iv' bb))"
      using iv' bb(3) before by (intro IntervalData_Add_wf) (auto simp: sorted_to_def)
    moreover have "bb_End b \<le> bound \<or> bb_End b \<le> xf_entryEnd f' \<and> xf_entryStart f' \<le> bound \<and> \<not> xf_entryPending f'"
      if b: "b \<in> set (iv_Blocks (IntervalData_Add iv' bb))" for b
      using IntervalData_Add_ends [OF b] start_bound before bb(1) by (auto intro: order_trans)
    moreover have "bb_End b \<le> xf_entryStart f'"
      if "xf_entryPending f'" and b: "b \<in> set (iv_Blocks (IntervalData_Add iv' bb))" for b
      using IntervalData_Add_ends [OF b] pending [OF that(1)] iv' that(1) by (auto simp: sorted_to_def)
    ultimately show ?thesis
      using True iv' by (auto simp: sorted_to_def)
  qed
qed

definition example_filter :: extractionFilter where
  "example_filter = extractionFilter_zero\<lparr>xf_entryStart := 0x1000, xf_entryEnd := 0x1040,
     xf_entryPending := True\<rparr>"

definition example_fde :: fdeInfo where
  "example_fde = \<lparr>fde_ciePos = 0, fde_ipLen = 0x20, fde_ipStart = 0x1100\<rparr>"

theorem fdeHook_sorted_witness:
  "\<exists>f' iv'. fdeHook example_fde example_filter IntervalData_zero = (True, f', iv') \<and>
     sorted_to 0x1120 f' (IntervalData_Add iv' \<lparr>bb_Start = 0x1100, bb_End = 0x1120, bb_Deltas = []\<rparr>)"
proof -
  have "sorted_to (fde_ipStart example_fde) example_filter IntervalData_zero"
    by (simp add: sorted_to_def example_filter_def IntervalData_zero_def)
  moreover obtain f' iv' where h: "fdeHook example_fde example_filter IntervalData_zero = (True, f', iv')"
    using fdeHook_result [of example_fde example_filter IntervalData_zero]
    by (cases "fdeHook example_fde example_filter IntervalData_zero")
      (auto simp: fde_dropped_def example_fde_def example_filter_def extractionFilter_zero_def)
  ultimately have "sorted_to 0x1120 f'
      (if True then IntervalData_Add iv' \<lparr>bb_Start = 0x1100, bb_End = 0x1120, bb_Deltas = []\<rparr> else iv')"
    by (rule fdeHook_sorted) (simp_all add: example_fde_def)
  then show ?thesis using h by auto
qed

text \<open>
  Which entries are dropped: those inside the Go table's range, those at address zero of an
  unsorted source, and those that touch the entry stub. The last test is wider than the
  overlap that its comment names: an entry that starts right at the end of the stub, which is
  outside of it, is dropped too.
\<close>

theorem fdeHook_keeps_iff:
  "(fst (fdeHook fde f iv) \<longleftrightarrow>
      \<not> (xf_start f \<le> fde_ipStart fde \<and> fde_ipStart fde + fde_ipLen fde \<le> xf_end f) \<and>
      \<not> (xf_unsortedFrames f \<and> fde_ipStart fde = 0) \<and>
      (fde_ipStart fde + fde_ipLen fde \<le> xf_entryStart f \<or> xf_entryEnd f < fde_ipStart fde)) \<and>
   \<not> fst (fdeHook (example_fde\<lparr>fde_ipStart := 0x1040\<rparr>) example_filter iv)"
  by (auto simp: fdeHook_result fde_dropped_def example_fde_def example_filter_def extractionFilter_zero_def)

end
