(* ===== verification/EhFrame.thy ===== *)
theory EhFrame
  imports ExtractionFilter
begin

text \<open>
  The parser of \<open>.eh_frame\<close>, \<open>.debug_frame\<close> and \<open>.eh_frame_hdr\<close>
  (\<open>nativeunwind/elfunwindinfo/elfehframe.go\<close> from \<open>parseHDR\<close> on, and
  \<open>elfehframetable.go\<close>): entry headers, common information entries, frame description
  entries with the instructions they run, the linear walk over a section, and the binary search table.

  The cache of common information entries is a third-party LRU (\<open>freelru\<close>): its operations
  are the record \<open>cieLRU\<close>, an argument of the functions that use it. What the parser asks of
  the ELF file (\<open>pfelf.File\<close>) is the record \<open>elf_file\<close>. Loops that need not end
  carry fuel.

  The lemmas show the bounds that an accepted header has, when parsing a common information entry
  depends on the entry only (so that caching it is transparent), that the linear walk
  ends after at most one entry per four bytes of the section, and that the table lookup finds the
  last entry that starts at or before an address.
\<close>

unbundle bit_operations_syntax

section \<open>Entry headers\<close>

text \<open>\<open>parseHDR\<close>: the entry length, the position of the CIE, the error.\<close>

definition hdr_finish :: "bool \<Rightarrow> uintptr \<Rightarrow> u64 \<Rightarrow> u64 \<Rightarrow> u64 \<Rightarrow> u64 \<Rightarrow> reader \<Rightarrow> (u64 \<times> u64 \<times> eherr option) \<times> reader" where
  "hdr_finish expectCIE pos hlen idPos ciePos cieMarker r =
     (let r = r\<lparr>rd_end := pos + hlen\<rparr>
      in if unat (rd_end r) > length (rd_data r) then ((0, 0, Some ErrBeyondEnd), r)
         else
           let cieMarker = (if rd_debugFrame r then cieMarker else 0);
               isCIE = (ciePos = cieMarker)
           in if isCIE \<noteq> expectCIE then ((hlen, 0, Some ErrUnexpectedType), r)
              else if \<not> isCIE then
                let ciePos = (if rd_debugFrame r then ciePos else idPos - ciePos)
                in if unat ciePos \<ge> length (rd_data r) then ((0, 0, Some ErrFDEStart), r)
                   else ((hlen, ciePos, None), r)
              else ((hlen, ciePos, None), r))"

definition parseHDR :: "bool \<Rightarrow> reader \<Rightarrow> ((u64 \<times> u64 \<times> eherr option) \<times> reader) option" where
  "parseHDR expectCIE r = do {
     let pos = rd_pos r;
     (len32, r) \<leftarrow> rd_u32 r;
     let hlen = (ucast len32 :: u64);
     if hlen = 0 then Some ((4, 0, Some ErrEmptyEntry), r)
     else if hlen < 0xfffffff0 then do {
       let idPos = rd_pos r;
       (cp, r) \<leftarrow> rd_u32 r;
       Some (hdr_finish expectCIE pos (hlen + 4) idPos (ucast cp) 0xffffffff r) }
     else if hlen = 0xffffffff then do {
       (hlen, r) \<leftarrow> rd_u64 r;
       let idPos = rd_pos r;
       (cp, r) \<leftarrow> rd_u64 r;
       Some (hdr_finish expectCIE pos (hlen + (4 + 8)) idPos cp 0xffffffffffffffff r) }
     else Some ((0, 0, Some ErrInitialLength), r) }"

section \<open>Common information entries\<close>

definition zero_regs :: vmRegs where
  "zero_regs = \<lparr>vs_arch = EM_Other 0, vs_cfa = \<lparr>vr_arch = EM_Other 0, vr_reg = 0, vr_off = 0\<rparr>,
     vs_fp = \<lparr>vr_arch = EM_Other 0, vr_reg = 0, vr_off = 0\<rparr>,
     vs_ra = \<lparr>vr_arch = EM_Other 0, vr_reg = 0, vr_off = 0\<rparr>\<rparr>"

definition cieInfo_new :: cieInfo where
  "cieInfo_new = \<lparr>cie_dataAlign = 0, cie_codeAlign = 0, cie_regRA = 0,
     cie_enc = encFormatNative OR encAdjustAbs, cie_ldsaEnc = encFormatNative OR encAdjustAbs,
     cie_hasAugmentation = False, cie_isSignalHandler = False, cie_initialState = zero_regs\<rparr>"

text \<open>
  The loop over the characters of the augmentation string. Any byte outside ASCII is part of a
  character other than the four that are known, so that going through the bytes gives the error
  that going through the characters gives.
\<close>

fun parse_augmentation :: "byte list \<Rightarrow> cieInfo \<Rightarrow> reader \<Rightarrow> ((eherr + cieInfo) \<times> reader) option" where
  "parse_augmentation [] cie r = Some (Inr cie, r)"
| "parse_augmentation (ch # chs) cie r =
     (if ch = 0x4c then do {
        (e, r) \<leftarrow> rd_u8 r;
        parse_augmentation chs (cie\<lparr>cie_ldsaEnc := e\<rparr>) r }
      else if ch = 0x52 then do {
        (e, r) \<leftarrow> rd_u8 r;
        parse_augmentation chs (cie\<lparr>cie_enc := e\<rparr>) r }
      else if ch = 0x50 then do {
        (e, r) \<leftarrow> rd_u8 r;
        (res, r) \<leftarrow> rd_ptr (e AND NOT encIndirect) r;
        case res of
          Inl err \<Rightarrow> Some (Inl err, r)
        | Inr _ \<Rightarrow> parse_augmentation chs cie r }
      else if ch = 0x53 then parse_augmentation chs (cie\<lparr>cie_isSignalHandler := True\<rparr>) r
      else Some (Inl ErrAugmentation, r))"

definition parse_cie_body :: "u8 \<Rightarrow> reader \<Rightarrow> ((eherr + cieInfo) \<times> reader) option" where
  "parse_cie_body ver r = do {
     (augmentation, r) \<leftarrow> rd_str r;
     r \<leftarrow> (if ver = 4 then do { (_, r) \<leftarrow> rd_u8 r; (_, r) \<leftarrow> rd_u8 r; Some r } else Some r);
     (codeAlign, r) \<leftarrow> rd_uleb r;
     (dataAlign, r) \<leftarrow> rd_sleb r;
     (regRA, r) \<leftarrow> (if ver = 1 then do { (b, r) \<leftarrow> rd_u8 r; Some (ucast b, r) } else rd_uleb r);
     let cie = cieInfo_new\<lparr>cie_codeAlign := codeAlign, cie_dataAlign := dataAlign, cie_regRA := regRA\<rparr>;
     (res, r) \<leftarrow>
       (case augmentation of
          [] \<Rightarrow> Some (Inr cie, r)
        | c # cs \<Rightarrow>
            if c \<noteq> 0x7a then Some (Inl ErrOldAugmentation, r)
            else do {
              (_, r) \<leftarrow> rd_uleb r;
              parse_augmentation cs (cie\<lparr>cie_hasAugmentation := True\<rparr>) r });
     case res of
       Inl e \<Rightarrow> Some (Inl e, r)
     | Inr cie \<Rightarrow> Some (if \<not> isValid r then Inl ErrCIEHeader else Inr cie, r) }"

definition parseCIE :: "reader \<Rightarrow> ((eherr + cieInfo) \<times> reader) option" where
  "parseCIE r = do {
     ((_, _, err), r) \<leftarrow> parseHDR True r;
     case err of
       Some e \<Rightarrow> Some (Inl e, r)
     | None \<Rightarrow> do {
         (ver, r) \<leftarrow> rd_u8 r;
         if ver \<noteq> 1 \<and> ver \<noteq> 3 \<and> ver \<noteq> 4 then Some (Inl (ErrCIEVersion ver), r)
         else parse_cie_body ver r } }"

section \<open>Frame description entries\<close>

text \<open>What the parser uses of an ELF file.\<close>

record elf_section =
  sec_NoBits :: bool
  sec_Addr :: u64
  sec_Data :: "nat \<Rightarrow> eherr + byte list"

record elf_file =
  ef_Machine :: elf_Machine
  ef_Entry :: u64
  ef_VirtualMemory :: "u64 \<Rightarrow> nat \<Rightarrow> nat \<Rightarrow> eherr + byte list"
  ef_Section :: "string \<Rightarrow> elf_section option"
  ef_EHFrame :: "eherr + elf_section"
  ef_SONAME :: "eherr + string list"

text \<open>The operations of the LRU cache: construction, lookup (which moves the entry to the front) and insertion.\<close>

record 'c cieLRU =
  lru_New :: "nat \<Rightarrow> eherr + 'c"
  lru_Get :: "u64 \<Rightarrow> 'c \<Rightarrow> cieInfo option \<times> 'c"
  lru_Add :: "u64 \<Rightarrow> cieInfo \<Rightarrow> 'c \<Rightarrow> 'c"

definition cieCacheSize :: nat where [simp]: "cieCacheSize = 16"

definition sigretCodeMap :: "elf_Machine \<Rightarrow> byte list option" where
  "sigretCodeMap m =
     (case m of
        EM_AARCH64 \<Rightarrow> Some [0x68, 0x11, 0x80, 0xd2, 0x01, 0x00, 0x00, 0xd4]
      | EM_X86_64 \<Rightarrow> Some [0x48, 0xc7, 0xc0, 0x0f, 0x00, 0x00, 0x00, 0x0f, 0x05]
      | EM_Other _ \<Rightarrow> None)"

definition isSignalTrampoline :: "elf_file \<Rightarrow> fdeInfo \<Rightarrow> bool" where
  "isSignalTrampoline efCode fde =
     (case sigretCodeMap (ef_Machine efCode) of
        None \<Rightarrow> False
      | Some sigretCode \<Rightarrow>
          if unat (fde_ipLen fde) \<noteq> length sigretCode then False
          else case ef_VirtualMemory efCode (fde_ipStart fde) (length sigretCode) 64 of
                 Inl _ \<Rightarrow> False
               | Inr fdeCode \<Rightarrow> fdeCode = sigretCode)"

text \<open>The miss path of the cache in \<open>parsesFDEHeader\<close>: parse the CIE and run its instructions.\<close>

definition load_cie :: "nat \<Rightarrow> elf_Machine \<Rightarrow> u64 \<Rightarrow> reader \<Rightarrow> (eherr + cieInfo) option" where
  "load_cie fuel efm ciePos r = do {
     (res, cr) \<leftarrow> parseCIE (r\<lparr>rd_pos := ciePos\<rparr>);
     case res of
       Inl e \<Rightarrow> Some (Inl (ErrCIEFailed e))
     | Inr cie \<Rightarrow> do {
         init \<leftarrow> newVMRegs efm;
         (err, st, cr) \<leftarrow> state_step fuel (new_state (cie\<lparr>cie_initialState := init\<rparr>) init) cr;
         Some (case err of
                 Some e \<Rightarrow> Inl e
               | None \<Rightarrow> if \<not> isValid cr then Inl ErrCIEParsing
                         else Inr (cie\<lparr>cie_initialState := st_cur st\<rparr>)) } }"

definition get_cie :: "nat \<Rightarrow> 'c cieLRU \<Rightarrow> elf_Machine \<Rightarrow> u64 \<Rightarrow> reader \<Rightarrow> 'c \<Rightarrow> ((eherr + cieInfo) \<times> 'c) option" where
  "get_cie fuel lru efm ciePos r cache =
     (case lru_Get lru ciePos cache of
        (Some cie, cache) \<Rightarrow> Some (Inr cie, cache)
      | (None, cache) \<Rightarrow>
          (case load_cie fuel efm ciePos r of
             None \<Rightarrow> None
           | Some (Inl e) \<Rightarrow> Some (Inl e, cache)
           | Some (Inr cie) \<Rightarrow> Some (Inr cie, lru_Add lru ciePos cie cache)))"

text \<open>The part of the FDE header that depends on its CIE.\<close>

definition parse_fde_range ::
  "uintptr \<Rightarrow> cieInfo \<Rightarrow> fdeInfo \<Rightarrow> reader \<Rightarrow> (fdeInfo \<times> eherr option \<times> reader) option" where
  "parse_fde_range ipStart cie fde r = do {
     (res, r) \<leftarrow> rd_ptr (cie_enc cie) r;
     case res of
       Inl e \<Rightarrow> Some (fde, Some e, r)
     | Inr start \<Rightarrow>
         let fde = fde\<lparr>fde_ipStart := start\<rparr>
         in if ipStart \<noteq> 0 \<and> start \<noteq> ipStart then Some (fde, Some ErrIpStartMismatch, r)
            else do {
              (res, r) \<leftarrow> rd_ptr (if cie_enc cie AND encIndirect \<noteq> 0 then cie_enc cie
                                  else cie_enc cie AND (encFormatMask OR encSignedMask)) r;
              case res of
                Inl e \<Rightarrow> Some (fde, Some e, r)
              | Inr len \<Rightarrow> do {
                  let fde = fde\<lparr>fde_ipLen := len\<rparr>;
                  r \<leftarrow> (if cie_hasAugmentation cie
                        then do { (skip, r) \<leftarrow> rd_uleb r; Some (r\<lparr>rd_pos := rd_pos r + skip\<rparr>) }
                        else Some r);
                  Some (fde, if \<not> isValid r then Some ErrFDEHeader else None, r) } } }"

type_synonym 'c fde_result = "(u64 \<times> fdeInfo \<times> (eherr + cieInfo)) \<times> reader \<times> 'c"

definition parsesFDEHeader ::
  "nat \<Rightarrow> 'c cieLRU \<Rightarrow> elf_Machine \<Rightarrow> uintptr \<Rightarrow> reader \<Rightarrow> 'c \<Rightarrow> 'c fde_result option" where
  "parsesFDEHeader fuel lru efm ipStart r cache = do {
     ((fdeLen, ciePos, err), r) \<leftarrow> parseHDR False r;
     let fde = \<lparr>fde_ciePos = ciePos, fde_ipLen = 0, fde_ipStart = 0\<rparr>;
     case err of
       Some e \<Rightarrow> Some ((fdeLen, fde, Inl e), r, cache)
     | None \<Rightarrow> do {
         (res, cache) \<leftarrow> get_cie fuel lru efm ciePos r cache;
         case res of
           Inl e \<Rightarrow> Some ((0, fde, Inl e), r, cache)
         | Inr cie \<Rightarrow> do {
             (fde, err, r) \<leftarrow> parse_fde_range ipStart cie fde r;
             Some (case err of
                     Some e \<Rightarrow> ((0, fde, Inl e), r, cache)
                   | None \<Rightarrow> ((fdeLen, fde, Inr cie), r, cache)) } } }"

text \<open>The loop of \<open>parseFDE\<close> that turns the instructions into deltas.\<close>

fun fde_deltas ::
  "nat \<Rightarrow> nat \<Rightarrow> bool \<Rightarrow> state \<Rightarrow> reader \<Rightarrow> StackDeltaArray \<Rightarrow> (eherr option \<times> StackDeltaArray \<times> reader) option" where
  "fde_deltas n fuel allow st r deltas =
     (if hasData r then
        (case n of
           0 \<Rightarrow> Some (Some OutOfFuel, deltas, r)
         | Suc n' \<Rightarrow>
             (case state_step fuel st r of
                None \<Rightarrow> None
              | Some (Some e, st', r') \<Rightarrow> Some (Some e, deltas, r')
              | Some (None, st', r') \<Rightarrow>
                  (case getUnwindInfo (st_cur st') allow of
                     None \<Rightarrow> None
                   | Some info \<Rightarrow>
                       fde_deltas n' fuel allow st' r'
                         (StackDeltaArray_Add deltas (ucast (st_loc st)) info))))
      else Some (None, deltas, r))"

declare fde_deltas.simps [simp del]

record elfExtractor =
  ee_file :: elf_file
  ee_hooks :: extractionFilter
  ee_intervals :: IntervalData
  ee_allowGenericRegs :: bool

text \<open>\<open>parseFDE\<close>, with the \<open>deltaHook\<close> of the filter, which does nothing.\<close>

definition fde_block ::
  "nat \<Rightarrow> elfExtractor \<Rightarrow> cieInfo \<Rightarrow> fdeInfo \<Rightarrow> reader \<Rightarrow> (eherr + BasicBlock) option" where
  "fde_block fuel ee cie fde r =
     (let bb = \<lparr>bb_Start = fde_ipStart fde, bb_End = fde_ipStart fde + fde_ipLen fde, bb_Deltas = []\<rparr>
      in if cie_isSignalHandler cie \<or> isSignalTrampoline (ee_file ee) fde
         then Some (Inr (bb\<lparr>bb_Deltas := StackDeltaArray_Add [] 0 UnwindInfoSignal\<rparr>))
         else do {
           (err, deltas, r) \<leftarrow> fde_deltas fuel fuel (ee_allowGenericRegs ee)
             (new_state cie (cie_initialState cie)) r [];
           Some (case err of
                   Some e \<Rightarrow> Inl e
                 | None \<Rightarrow> if \<not> isValid r then Inl ErrFDEParsing else Inr (bb\<lparr>bb_Deltas := deltas\<rparr>)) })"

definition parseFDE ::
  "nat \<Rightarrow> 'c cieLRU \<Rightarrow> elf_Machine \<Rightarrow> uintptr \<Rightarrow> reader \<Rightarrow> elfExtractor \<Rightarrow> 'c \<Rightarrow>
     ((uintptr \<times> eherr option) \<times> elfExtractor \<times> 'c) option" where
  "parseFDE fuel lru efm ipStart r ee cache = do {
     ((fdeLen, fde, res), r, cache) \<leftarrow> parsesFDEHeader fuel lru efm ipStart r cache;
     case res of
       Inl e \<Rightarrow> Some ((fdeLen, Some e), ee, cache)
     | Inr cie \<Rightarrow>
         let (keep, hooks, intervals) = fdeHook fde (ee_hooks ee) (ee_intervals ee);
             ee = ee\<lparr>ee_hooks := hooks, ee_intervals := intervals\<rparr>
         in if \<not> keep then Some ((fdeLen, None), ee, cache)
            else do {
              blk \<leftarrow> fde_block fuel ee cie fde r;
              Some (case blk of
                      Inl e \<Rightarrow> ((0, Some e), ee, cache)
                    | Inr bb \<Rightarrow>
                        ((fdeLen, None), ee\<lparr>ee_intervals := IntervalData_Add (ee_intervals ee) bb\<rparr>, cache)) } }"

section \<open>Sections\<close>

record elfRegion =
  reg_data :: "byte list"
  reg_vaddr :: uintptr

definition elfRegion_reader :: "elfRegion \<Rightarrow> uintptr \<Rightarrow> bool \<Rightarrow> reader" where
  "elfRegion_reader ref pos debugFrame =
     \<lparr>rd_debugFrame = debugFrame, rd_data = reg_data ref, rd_pos = pos,
      rd_end = word_of_nat (length (reg_data ref)), rd_vaddr = reg_vaddr ref\<rparr>"

definition maxBytesEHFrame :: nat where [simp]: "maxBytesEHFrame = 64 * 1024 * 1024"

definition elfRegionFromSection :: "elf_section option \<Rightarrow> elfRegion option" where
  "elfRegionFromSection sec =
     (case sec of
        None \<Rightarrow> None
      | Some s \<Rightarrow>
          if sec_NoBits s then None
          else case sec_Data s maxBytesEHFrame of
                 Inl _ \<Rightarrow> None
               | Inr data \<Rightarrow> Some \<lparr>reg_data = data, reg_vaddr = sec_Addr s\<rparr>)"

text \<open>The header of \<open>.eh_frame_hdr\<close> is its first four bytes.\<close>

record ehFrameHdr =
  eh_version :: u8
  eh_ehFramePtrEnc :: encoding
  eh_fdeCountEnc :: encoding
  eh_tableEnc :: encoding

definition ehFrameHdrSize :: nat where [simp]: "ehFrameHdrSize = 4"

definition hdr_of :: "byte list \<Rightarrow> ehFrameHdr" where
  "hdr_of data = \<lparr>eh_version = data ! 0, eh_ehFramePtrEnc = data ! 1, eh_fdeCountEnc = data ! 2,
     eh_tableEnc = data ! 3\<rparr>"

definition validateEhFrameHdr :: "elfRegion option \<Rightarrow> ehFrameHdr option" where
  "validateEhFrameHdr ehFrameHdrSec =
     (case ehFrameHdrSec of
        None \<Rightarrow> None
      | Some sec \<Rightarrow>
          if length (reg_data sec) < ehFrameHdrSize then None
          else
            let h = hdr_of (reg_data sec)
            in if eh_version h \<noteq> 1 then None
               else if eh_tableEnc h \<noteq> encAdjustDataRel + encSignedMask + encFormatData4 then None
               else Some h)"

definition findEhSections :: "elf_file \<Rightarrow> elfRegion option \<times> elfRegion option \<times> eherr option" where
  "findEhSections ef =
     (let ehFrameSec = elfRegionFromSection (ef_Section ef ''.eh_frame'');
          ehFrameHdrSec = elfRegionFromSection (ef_Section ef ''.eh_frame_hdr'');
          ehFrameHdrSec = (if validateEhFrameHdr ehFrameHdrSec = None then None else ehFrameHdrSec)
      in if ehFrameSec \<noteq> None then (ehFrameHdrSec, ehFrameSec, None)
         else case ef_EHFrame ef of
                Inl _ \<Rightarrow> (None, None, None)
              | Inr prog \<Rightarrow>
                  (case sec_Data prog maxBytesEHFrame of
                     Inl e \<Rightarrow> (None, None, Some e)
                   | Inr data \<Rightarrow>
                       if length data < ehFrameHdrSize
                       then (None, None, Some (ErrELF ''eh_frame header too small''))
                       else
                         let hdrSec = \<lparr>reg_data = data, reg_vaddr = sec_Addr prog\<rparr>
                         in if validateEhFrameHdr (Some hdrSec) = None
                            then (None, None, Some (ErrELF ''no suitable eh_frame''))
                            else
                              let sec = \<lparr>reg_data = drop ehFrameHdrSize data,
                                         reg_vaddr = reg_vaddr hdrSec + word_of_nat ehFrameHdrSize\<rparr>
                              in if length data = 0
                                 then (None, None, Some (ErrELF ''eh_frame section is empty''))
                                 else (Some hdrSec, Some sec, None)))"

section \<open>The search table\<close>

record 'c EhFrameTable =
  et_fdeCount :: uintptr
  et_tableStartPos :: uintptr
  et_tableEntrySize :: u64
  et_tableEnc :: encoding
  et_ehFrameHdrSec :: elfRegion
  et_ehFrameSec :: elfRegion
  et_efm :: elf_Machine
  et_cieCache :: 'c

definition formatLen :: "encoding \<Rightarrow> u64" where
  "formatLen enc =
     (let fmt = enc AND encFormatMask
      in if fmt = encFormatData2 then 2
         else if fmt = encFormatData4 then 4
         else if fmt = encFormatData8 \<or> fmt = encFormatNative then 8
         else 0)"

definition newEhFrameTableFromSections ::
  "'c cieLRU \<Rightarrow> elfRegion \<Rightarrow> elfRegion \<Rightarrow> elf_Machine \<Rightarrow> (eherr + 'c EhFrameTable) option" where
  "newEhFrameTableFromSections lru ehFrameHdrSec ehFrameSec efm =
     (if reg_data ehFrameHdrSec = [] then None
      else do {
        let hdr = hdr_of (reg_data ehFrameHdrSec);
        (res, r) \<leftarrow> rd_ptr (eh_ehFramePtrEnc hdr)
          (elfRegion_reader ehFrameHdrSec (word_of_nat ehFrameHdrSize) False);
        (case res of
           Inl e \<Rightarrow> Some (Inl e)
         | Inr _ \<Rightarrow> do {
             (res, r) \<leftarrow> rd_ptr (eh_fdeCountEnc hdr) r;
             (case res of
                Inl e \<Rightarrow> Some (Inl e)
              | Inr fdeCount \<Rightarrow>
                  (case lru_New lru cieCacheSize of
                     Inl e \<Rightarrow> Some (Inl e)
                   | Inr cieCache \<Rightarrow>
                       Some (Inr \<lparr>et_fdeCount = fdeCount, et_tableStartPos = rd_pos r,
                         et_tableEntrySize = formatLen (eh_tableEnc hdr) * 2,
                         et_tableEnc = eh_tableEnc hdr, et_ehFrameHdrSec = ehFrameHdrSec,
                         et_ehFrameSec = ehFrameSec, et_efm = efm, et_cieCache = cieCache\<rparr>))) }) })"

text \<open>\<open>count\<close> converts to \<open>int\<close>: a huge count is negative, and a search over it empty.\<close>

definition table_count :: "'c EhFrameTable \<Rightarrow> int" where
  "table_count e = sint (et_fdeCount e)"

definition entryAt :: "'c EhFrameTable \<Rightarrow> u64 \<Rightarrow> reader" where
  "entryAt e idx =
     elfRegion_reader (et_ehFrameHdrSec e) (et_tableStartPos e + et_tableEntrySize e * idx) False"

definition decodeEntry :: "'c EhFrameTable \<Rightarrow> reader \<Rightarrow> ((eherr + uintptr \<times> reader) \<times> reader) option" where
  "decodeEntry e r = do {
     (res, r) \<leftarrow> rd_ptr (et_tableEnc e) r;
     case res of
       Inl err \<Rightarrow> Some (Inl err, r)
     | Inr ipStart \<Rightarrow> do {
         (res, r) \<leftarrow> rd_ptr (et_tableEnc e) r;
         case res of
           Inl err \<Rightarrow> Some (Inl err, r)
         | Inr fdeAddr \<Rightarrow>
             if fdeAddr < reg_vaddr (et_ehFrameSec e) then Some (Inl ErrFDEBeforeSection, r)
             else Some (Inr (ipStart,
               elfRegion_reader (et_ehFrameSec e) (fdeAddr - reg_vaddr (et_ehFrameSec e)) False), r) } }"

definition decodeEntryAt :: "'c EhFrameTable \<Rightarrow> u64 \<Rightarrow> (eherr + uintptr \<times> reader) option" where
  "decodeEntryAt e idx = do { (res, _) \<leftarrow> decodeEntry e (entryAt e idx); Some res }"

text \<open>\<open>sort.Search\<close> with a predicate that may panic: \<open>None\<close> when a probed index does.\<close>

function searchM_loop :: "(nat \<Rightarrow> bool option) \<Rightarrow> nat \<Rightarrow> nat \<Rightarrow> nat option" where
  "searchM_loop p i j =
     (if i < j
      then let h = (i + j) div 2
           in case p h of
                None \<Rightarrow> None
              | Some b \<Rightarrow> if \<not> b then searchM_loop p (h + 1) j else searchM_loop p i h
      else Some i)"
  by pat_completeness auto
termination
  by (relation "measure (\<lambda>(p, i, j). j - i)") auto

declare searchM_loop.simps [simp del]

definition entry_ip :: "'c EhFrameTable \<Rightarrow> u64 \<Rightarrow> uintptr option" where
  "entry_ip e idx = do {
     (res, _) \<leftarrow> rd_ptr (et_tableEnc e) (entryAt e idx);
     Some (case res of Inl _ \<Rightarrow> 0 | Inr v \<Rightarrow> v) }"

definition LookupIndex :: "'c EhFrameTable \<Rightarrow> u64 \<Rightarrow> (eherr + nat) option" where
  "LookupIndex e addr = do {
     idx \<leftarrow> searchM_loop (\<lambda>idx. do { ipStart \<leftarrow> entry_ip e (word_of_nat idx); Some (ipStart > addr) })
       0 (nat (table_count e));
     Some (if idx \<le> 0 then Inl ErrFDENotFound else Inr (idx - 1)) }"

record FDE =
  PCBegin :: uintptr
  PCRange :: uintptr

definition DecodeIndex :: "nat \<Rightarrow> 'c cieLRU \<Rightarrow> 'c EhFrameTable \<Rightarrow> nat \<Rightarrow> ((eherr + FDE) \<times> 'c EhFrameTable) option" where
  "DecodeIndex fuel lru e idx = do {
     res \<leftarrow> decodeEntryAt e (word_of_nat idx);
     case res of
       Inl err \<Rightarrow> Some (Inl err, e)
     | Inr (ipStart, fr) \<Rightarrow> do {
         ((_, fde, res), _, cache) \<leftarrow> parsesFDEHeader fuel lru (et_efm e) ipStart fr (et_cieCache e);
         let e = e\<lparr>et_cieCache := cache\<rparr>;
         Some (case res of
                 Inl err \<Rightarrow> (Inl err, e)
               | Inr _ \<Rightarrow> (Inr \<lparr>PCBegin = fde_ipStart fde, PCRange = fde_ipLen fde\<rparr>, e)) } }"

definition LookupFDE :: "nat \<Rightarrow> 'c cieLRU \<Rightarrow> 'c EhFrameTable \<Rightarrow> u64 \<Rightarrow> ((eherr + FDE) \<times> 'c EhFrameTable) option" where
  "LookupFDE fuel lru e addr = do {
     res \<leftarrow> LookupIndex e addr;
     case res of
       Inl err \<Rightarrow> Some (Inl err, e)
     | Inr idx \<Rightarrow> do {
         (res, e) \<leftarrow> DecodeIndex fuel lru e idx;
         Some (case res of
                 Inl err \<Rightarrow> (Inl err, e)
               | Inr fde \<Rightarrow>
                   if addr < PCBegin fde \<or> addr \<ge> PCBegin fde + PCRange fde
                   then (Inl ErrFDENotFound, e) else (Inr fde, e)) } }"

section \<open>Walking the entries\<close>

text \<open>
  \<open>walkBinSearchTable\<close>: one reader runs over the table. \<open>f\<close> counts up to the
  number of entries, a 64 bit number of the file, so that the recursion is on what is left.
\<close>

fun walk_table ::
  "nat \<Rightarrow> 'c cieLRU \<Rightarrow> 'c EhFrameTable \<Rightarrow> nat \<Rightarrow> reader \<Rightarrow> elfExtractor \<Rightarrow> (eherr option \<times> elfExtractor) option" where
  "walk_table fuel lru t 0 r ee = Some (None, ee)"
| "walk_table fuel lru t (Suc left) r ee = do {
     (res, r) \<leftarrow> decodeEntry t r;
     case res of
       Inl e \<Rightarrow> Some (Some e, ee)
     | Inr (ipStart, fr) \<Rightarrow> do {
         ((_, err), ee, cache) \<leftarrow> parseFDE fuel lru (et_efm t) ipStart fr ee (et_cieCache t);
         (case err of
            Some e \<Rightarrow>
              if e \<noteq> ErrEmptyEntry then Some (Some (ErrParseFDE e), ee)
              else walk_table fuel lru (t\<lparr>et_cieCache := cache\<rparr>) left r ee
          | None \<Rightarrow> walk_table fuel lru (t\<lparr>et_cieCache := cache\<rparr>) left r ee) } }"

definition walkBinSearchTable ::
  "nat \<Rightarrow> 'c cieLRU \<Rightarrow> elf_file \<Rightarrow> elfRegion \<Rightarrow> elfRegion \<Rightarrow> elfExtractor \<Rightarrow> (eherr option \<times> elfExtractor) option" where
  "walkBinSearchTable fuel lru ef ehFrameHdrSec ehFrameSec ee = do {
     res \<leftarrow> newEhFrameTableFromSections lru ehFrameHdrSec ehFrameSec (ef_Machine ef);
     case res of
       Inl e \<Rightarrow> Some (Some e, ee)
     | Inr t \<Rightarrow> walk_table fuel lru t (unat (et_fdeCount t)) (entryAt t 0) ee }"

text \<open>
  The loop of \<open>walkFDEs\<close>; the entry length may wrap \<open>f\<close> around, so that it needs
  fuel.
\<close>

fun walk_fdes ::
  "nat \<Rightarrow> nat \<Rightarrow> 'c cieLRU \<Rightarrow> elf_Machine \<Rightarrow> elfRegion \<Rightarrow> bool \<Rightarrow> uintptr \<Rightarrow> elfExtractor \<Rightarrow> 'c \<Rightarrow>
     (eherr option \<times> elfExtractor) option" where
  "walk_fdes n fuel lru efm sec debugFrame f ee cache =
     (if unat f < length (reg_data sec) then
        (case n of
           0 \<Rightarrow> Some (Some OutOfFuel, ee)
         | Suc n' \<Rightarrow> do {
             ((entryLen, err), ee, cache) \<leftarrow>
               parseFDE fuel lru efm 0 (elfRegion_reader sec f debugFrame) ee cache;
             (if err \<noteq> None \<and> err \<noteq> Some ErrUnexpectedType \<and> err \<noteq> Some ErrEmptyEntry
              then Some (map_option ErrParseFDE err, ee)
              else if entryLen = 0 then Some (Some ErrEntryLength, ee)
              else walk_fdes n' fuel lru efm sec debugFrame (f + entryLen) ee cache) })
      else Some (None, ee))"

declare walk_fdes.simps [simp del]

definition walkFDEs ::
  "nat \<Rightarrow> nat \<Rightarrow> 'c cieLRU \<Rightarrow> elf_file \<Rightarrow> elfRegion \<Rightarrow> bool \<Rightarrow> elfExtractor \<Rightarrow> (eherr option \<times> elfExtractor) option" where
  "walkFDEs n fuel lru ef ehFrameSec debugFrame ee =
     (case lru_New lru cieCacheSize of
        Inl e \<Rightarrow> Some (Some e, ee)
      | Inr cache \<Rightarrow>
          walk_fdes n fuel lru (ef_Machine ef) ehFrameSec debugFrame 0
            (ee\<lparr>ee_hooks := fdeUnsorted (ee_hooks ee)\<rparr>) cache)"

definition parseEHFrame :: "nat \<Rightarrow> nat \<Rightarrow> 'c cieLRU \<Rightarrow> elfExtractor \<Rightarrow> (eherr option \<times> elfExtractor) option" where
  "parseEHFrame n fuel lru ee =
     (case findEhSections (ee_file ee) of
        (_, _, Some e) \<Rightarrow> Some (Some e, ee)
      | (_, None, None) \<Rightarrow> Some (None, ee)
      | (Some hdr, Some sec, None) \<Rightarrow> walkBinSearchTable fuel lru (ee_file ee) hdr sec ee
      | (None, Some sec, None) \<Rightarrow> walkFDEs n fuel lru (ee_file ee) sec False ee)"

definition parseDebugFrame ::
  "nat \<Rightarrow> nat \<Rightarrow> 'c cieLRU \<Rightarrow> elf_file \<Rightarrow> elfExtractor \<Rightarrow> (eherr option \<times> elfExtractor) option" where
  "parseDebugFrame n fuel lru ef ee =
     (case elfRegionFromSection (ef_Section ef ''.debug_frame'') of
        None \<Rightarrow> Some (None, ee)
      | Some sec \<Rightarrow> walkFDEs n fuel lru ef sec True ee)"

section \<open>Headers\<close>

lemma rd_u32_pos: "rd_u32 r = Some (v, r') \<Longrightarrow> r' = r\<lparr>rd_pos := rd_pos r + 4\<rparr>"
  by (auto simp: rd_u32_def bind_eq_Some_conv dest: rd_get_pos)

lemma rd_u64_pos: "rd_u64 r = Some (v, r') \<Longrightarrow> r' = r\<lparr>rd_pos := rd_pos r + 8\<rparr>"
  by (auto simp: rd_u64_def bind_eq_Some_conv dest: rd_get_pos)

lemma hdr_finish_result:
  assumes "hdr_finish b pos hlen idPos cp m r = ((hl, c, err), r')"
  shows "r' = r\<lparr>rd_end := pos + hlen\<rparr>"
    and "err = None \<Longrightarrow> hl = hlen \<and> unat (pos + hlen) \<le> length (rd_data r) \<and> (\<not> b \<longrightarrow> unat c < length (rd_data r))"
    and "err = Some ErrUnexpectedType \<Longrightarrow> hl = hlen"
    and "err \<noteq> None \<Longrightarrow> err \<noteq> Some ErrUnexpectedType \<Longrightarrow> err \<in> Some ` {ErrBeyondEnd, ErrFDEStart}"
  using assms by (auto simp: hdr_finish_def Let_def split: if_splits)

text \<open>The ways a header is read.\<close>

lemma parseHDR_cases:
  assumes "parseHDR b r = Some ((hl, c, err), r')"
  obtains (empty) "hl = 4" "err = Some ErrEmptyEntry"
  | (hdr32) len32 cp where "(ucast (len32 :: u32) :: u64) \<noteq> 0" "(ucast len32 :: u64) < 0xfffffff0"
      "hdr_finish b (rd_pos r) (ucast len32 + 4) (rd_pos r + 4) cp 0xffffffff (r\<lparr>rd_pos := rd_pos r + 8\<rparr>) =
        ((hl, c, err), r')"
  | (hdr64) len64 cp where
      "hdr_finish b (rd_pos r) (len64 + 12) (rd_pos r + 12) cp 0xffffffffffffffff
        (r\<lparr>rd_pos := rd_pos r + 20\<rparr>) = ((hl, c, err), r')"
  | (bad) "hl = 0" "err = Some ErrInitialLength"
  using assms
  by (auto simp: parseHDR_def bind_eq_Some_conv Let_def add.assoc dest!: rd_u32_pos rd_u64_pos split: if_splits)

text \<open>
  A header that is accepted bounds everything that is read after it: the end of the
  entry is inside the section (so that the reader is well formed again), it is the start of
  the entry plus the length reported to the caller, nothing else of the reader has changed, and
  for a frame description entry the position of its CIE is inside the section.
\<close>

theorem parseHDR_bounds:
  assumes "parseHDR expectCIE r = Some ((hlen, ciePos, None), r')" "length (rd_data r) < 2 ^ 63"
  shows "rd_wf r' \<and> rd_end r' = rd_pos r + hlen \<and> rd_data r' = rd_data r \<and> rd_vaddr r' = rd_vaddr r \<and>
    rd_debugFrame r' = rd_debugFrame r \<and> (\<not> expectCIE \<longrightarrow> unat ciePos < length (rd_data r))"
  using assms(1)
proof (cases rule: parseHDR_cases)
  case (hdr32 len32 cp)
  note fin = hdr_finish_result [OF hdr32(3)]
  show ?thesis using fin(1) fin(2) [OF refl] assms(2) by (simp add: rd_wf_def)
next
  case (hdr64 len64 cp)
  note fin = hdr_finish_result [OF hdr64]
  show ?thesis using fin(1) fin(2) [OF refl] assms(2) by (simp add: rd_wf_def)
qed simp_all

text \<open>An entry of 12 bytes at position 8, whose CIE pointer leads to the start of the section.\<close>

definition example_section :: reader where
  "example_section = \<lparr>rd_debugFrame = False,
     rd_data = [0, 0, 0, 0, 0, 0, 0, 0, 0x08, 0, 0, 0, 0x0c, 0, 0, 0, 0, 0, 0, 0, 0, 0, 0, 0],
     rd_pos = 8, rd_end = 24, rd_vaddr = 0x1000\<rparr>"

theorem parseHDR_bounds_witness:
  "\<exists>r'. parseHDR False example_section = Some ((12, 0, None), r') \<and> rd_wf r' \<and> rd_end r' = 20"
proof -
  have "parseHDR False example_section =
      Some ((12, 0, None), example_section\<lparr>rd_pos := 16, rd_end := 20\<rparr>)"
    by (simp add: parseHDR_def hdr_finish_def rd_u32_def rd_get_def isValid_def go_index_ok_def
        example_section_def Let_def)
  from this parseHDR_bounds [OF this] show ?thesis by (simp add: example_section_def)
qed

section \<open>The linear walk\<close>

text \<open>No entry length makes the position of the walk wrap around.\<close>

definition hdrs_ok :: "elfRegion \<Rightarrow> bool \<Rightarrow> bool" where
  "hdrs_ok sec dbg \<longleftrightarrow> (\<forall>f hl c e r'. unat f < length (reg_data sec) \<longrightarrow>
     parseHDR False (elfRegion_reader sec f dbg) = Some ((hl, c, e), r') \<longrightarrow> unat f + unat hl < 2 ^ 64)"

text \<open>The length that \<open>parseFDE\<close> reports is that of the header, or zero.\<close>

definition hdr_len :: "reader \<Rightarrow> u64 \<Rightarrow> bool" where
  "hdr_len r len \<longleftrightarrow> len = 0 \<or> (\<exists>c e r1. parseHDR False r = Some ((len, c, e), r1))"

lemma parsesFDEHeader_len:
  "pred_option (\<lambda>((len, _), _). hdr_len r len) (parsesFDEHeader fuel lru efm ip r cache)"
  unfolding parsesFDEHeader_def Let_def
  by (auto intro!: pred_option_bind simp: hdr_len_def split: prod.split option.split sum.split)

lemma parsesFDEHeader_lenD:
  "parsesFDEHeader fuel lru efm ip r cache = Some ((len, x), y) \<Longrightarrow> hdr_len r len"
  using pred_optionD [OF parsesFDEHeader_len] by fastforce

lemma parseFDE_len:
  "pred_option (\<lambda>((len, _), _). hdr_len r len) (parseFDE fuel lru efm ip r ee cache)"
  unfolding parseFDE_def Let_def
  by (auto intro!: pred_option_bind simp: hdr_len_def [of _ 0] split: prod.split sum.split)
    (erule parsesFDEHeader_lenD)+

lemma walk_fdes_ends:
  assumes "hdrs_ok sec dbg" "length (reg_data sec) \<le> unat f + n"
  shows "walk_fdes n fuel lru efm sec dbg f ee cache \<noteq> Some (Some OutOfFuel, ee')"
  using assms(2)
proof (induction n arbitrary: f ee cache)
  case 0
  then show ?case by (simp add: walk_fdes.simps)
next
  case (Suc n)
  let ?r = "elfRegion_reader sec f dbg"
  show ?case
  proof (cases "unat f < length (reg_data sec)")
    case True
    show ?thesis
    proof (cases "parseFDE fuel lru efm 0 ?r ee cache")
      case None
      then show ?thesis using True by (simp add: walk_fdes.simps [of "Suc n"])
    next
      case (Some res)
      then obtain len err ee1 cache1 where p: "parseFDE fuel lru efm 0 ?r ee cache = Some ((len, err), ee1, cache1)"
        by (metis prod.collapse)
      have "length (reg_data sec) \<le> unat (f + len) + n" if nz: "len \<noteq> 0"
      proof -
        obtain c e r1 where "parseHDR False ?r = Some ((len, c, e), r1)"
          using pred_optionD [OF parseFDE_len p] nz by (auto simp: hdr_len_def)
        then have "unat (f + len) = unat f + unat len"
          using assms(1) True by (intro unat_add_no_wrap) (auto simp: hdrs_ok_def)
        moreover have "unat len > 0" using nz by (simp add: unat_gt_0)
        ultimately show ?thesis using Suc.prems by simp
      qed
      then show ?thesis
        using True p Suc.IH by (auto simp: walk_fdes.simps [of "Suc n"])
    qed
  next
    case False
    then show ?thesis by (simp add: walk_fdes.simps)
  qed
qed


text \<open>An association list as the cache, for examples.\<close>

definition list_lru :: "(u64 \<times> cieInfo) list cieLRU" where
  "list_lru = \<lparr>lru_New = (\<lambda>_. Inr []), lru_Get = (\<lambda>k c. (map_of c k, c)), lru_Add = (\<lambda>k v c. (k, v) # c)\<rparr>"

definition no_file :: elf_file where
  "no_file = \<lparr>ef_Machine = EM_X86_64, ef_Entry = 0, ef_VirtualMemory = (\<lambda>_ _ _. Inl ErrCache),
     ef_Section = (\<lambda>_. None), ef_EHFrame = Inl ErrCache, ef_SONAME = Inl ErrCache\<rparr>"

definition new_extractor :: "elf_file \<Rightarrow> elfExtractor" where
  "new_extractor ef = \<lparr>ee_file = ef, ee_hooks = extractionFilter_zero, ee_intervals = IntervalData_zero,
     ee_allowGenericRegs = False\<rparr>"

lemma parseHDR_zero:
  assumes "rd_u32 r = Some (0, r1)"
  shows "parseHDR b r = Some ((4, 0, Some ErrEmptyEntry), r1)"
  using assms by (simp add: parseHDR_def)


text \<open>
  A section of two entries: an empty one, and a 64 bit CIE of the length \<open>2^64 - 16\<close>, which
  with its header of 12 bytes leads the walk from position 4 back to 0.
\<close>

definition endless_section :: elfRegion where
  "endless_section = \<lparr>reg_data = [0, 0, 0, 0, 0xff, 0xff, 0xff, 0xff,
     0xf0, 0xff, 0xff, 0xff, 0xff, 0xff, 0xff, 0xff, 0, 0, 0, 0, 0, 0, 0, 0], reg_vaddr = 0\<rparr>"

lemma endless_headers:
  "parseHDR False (elfRegion_reader endless_section 0 False) =
     Some ((4, 0, Some ErrEmptyEntry), (elfRegion_reader endless_section 0 False)\<lparr>rd_pos := 4\<rparr>)"
  "parseHDR False (elfRegion_reader endless_section 4 False) =
     Some ((0xfffffffffffffffc, 0, Some ErrUnexpectedType),
       (elfRegion_reader endless_section 4 False)\<lparr>rd_pos := 24, rd_end := 0\<rparr>)"
  by (simp_all add: parseHDR_def hdr_finish_def rd_u32_def rd_u64_def rd_get_def isValid_def go_index_ok_def
      elfRegion_reader_def endless_section_def Let_def)

lemma parseFDE_hdr_error:
  assumes "parseHDR False r = Some ((len, c, Some e), r1)"
  shows "parseFDE fuel lru efm ip r ee cache = Some ((len, Some e), ee, cache)"
  using assms by (simp add: parseFDE_def parsesFDEHeader_def)

text \<open>
  The hypothesis on entry lengths cannot be dropped: on the 24 bytes of
  \<open>endless_section\<close> the walk never returns, whatever file, cache and hooks it is given.
\<close>

theorem walk_fdes_diverges:
  "walk_fdes n fuel lru efm endless_section False 0 ee cache = Some (Some OutOfFuel, ee)"
proof (induction n rule: less_induct)
  case (less n)
  have len: "length (reg_data endless_section) = 24" by (simp add: endless_section_def)
  have wrap: "(18446744073709551616 :: uintptr) = 0" by (simp add: word_unat_eq_iff)
  have step0: "walk_fdes (Suc k) fuel lru efm endless_section False 0 ee cache =
      walk_fdes k fuel lru efm endless_section False 4 ee cache" for k
    by (simp add: walk_fdes.simps [of "Suc k"] len parseFDE_hdr_error [OF endless_headers(1)])
  have step4: "walk_fdes (Suc k) fuel lru efm endless_section False 4 ee cache =
      walk_fdes k fuel lru efm endless_section False 0 ee cache" for k
    by (simp add: walk_fdes.simps [of "Suc k"] len wrap parseFDE_hdr_error [OF endless_headers(2)])
  have stop: "walk_fdes 0 fuel lru efm endless_section False f ee cache = Some (Some OutOfFuel, ee)"
    if "f = 0 \<or> f = 4" for f
    using that by (auto simp: walk_fdes.simps [of 0] len)
  consider "n = 0" | "n = 1" | k where "n = Suc (Suc k)" by (metis One_nat_def old.nat.exhaust)
  then show ?case
    by cases (use stop step0 step4 less in auto)
qed

section \<open>Caching common information entries\<close>

text \<open>A header that lies in front of the end is read in the same way whatever the end is.\<close>

lemma rd_get_inside:
  assumes "unat (rd_pos r) + unat n \<le> unat (rd_end r)" "rd_wf r" "n \<noteq> 0"
  shows "rd_get n r = Some (take (unat n) (drop (unat (rd_pos r)) (rd_data r)), r\<lparr>rd_pos := rd_pos r + n\<rparr>)"
    and "unat (rd_pos r + n) = unat (rd_pos r) + unat n"
proof -
  show pos: "unat (rd_pos r + n) = unat (rd_pos r) + unat n"
    using assms(1) by (intro unat_add_no_wrap) (use unat_u64_less [of "rd_end r"] in simp)
  have "0 < unat n" using assms(3) by (simp add: unat_gt_0)
  then have "go_index_ok (rd_pos r) (rd_data r)"
    using assms(1,2) by (auto simp: go_index_ok_def rd_wf_def)
  then show "rd_get n r = Some (take (unat n) (drop (unat (rd_pos r)) (rd_data r)), r\<lparr>rd_pos := rd_pos r + n\<rparr>)"
    using assms(1) pos by (simp add: rd_get_def isValid_def word_le_nat_alt Let_def)
qed

lemma rd_word_inside:
  assumes "rd_wf r"
  shows "unat (rd_pos r) + 4 \<le> unat (rd_end r) \<Longrightarrow> rd_u32 r =
      Some (word_of_nat (le_nat (take 4 (drop (unat (rd_pos r)) (rd_data r)))), r\<lparr>rd_pos := rd_pos r + 4\<rparr>)"
    and "unat (rd_pos r) + 8 \<le> unat (rd_end r) \<Longrightarrow> rd_u64 r =
      Some (word_of_nat (le_nat (take 8 (drop (unat (rd_pos r)) (rd_data r)))), r\<lparr>rd_pos := rd_pos r + 8\<rparr>)"
  using rd_get_inside(1) [of r 4] rd_get_inside(1) [of r 8] assms by (simp_all add: rd_u32_def rd_u64_def)

lemma hdr_finish_end [simp]: "hdr_finish b pos hl ip c m (r\<lparr>rd_end := e\<rparr>) = hdr_finish b pos hl ip c m r"
  by (simp add: hdr_finish_def)

lemma hdr_finish_end_pos [simp]:
  "hdr_finish b pos hl ip c m (r\<lparr>rd_end := e, rd_pos := p\<rparr>) = hdr_finish b pos hl ip c m (r\<lparr>rd_pos := p\<rparr>)"
  by (simp add: hdr_finish_def)

text \<open>The same result, up to the reader in an error.\<close>

definition same_result :: "('a \<Rightarrow> bool) \<Rightarrow> ('a \<times> reader) option \<Rightarrow> ('a \<times> reader) option \<Rightarrow> bool" where
  "same_result failed a b \<longleftrightarrow> a = b \<or> (\<exists>x r r'. a = Some (x, r) \<and> b = Some (x, r') \<and> failed x)"

lemma parseHDR_end:
  assumes wf: "rd_wf r" "rd_wf (r\<lparr>rd_end := e\<rparr>)"
    and inside: "unat (rd_pos r) + 20 \<le> unat (rd_end r)" "unat (rd_pos r) + 20 \<le> unat e"
  shows "same_result (\<lambda>(_, _, err). err \<noteq> None) (parseHDR b (r\<lparr>rd_end := e\<rparr>)) (parseHDR b r)"
proof -
  have pos: "unat (rd_pos r + 4) = unat (rd_pos r) + 4" "unat (rd_pos r + 12) = unat (rd_pos r) + 12"
    using inside(1) unat_u64_less [of "rd_end r"]
      unat_add_no_wrap [of "rd_pos r" 4] unat_add_no_wrap [of "rd_pos r" 12] by simp_all
  have wfs: "rd_wf (r\<lparr>rd_pos := p\<rparr>)" "rd_wf (r\<lparr>rd_pos := p, rd_end := e\<rparr>)" "rd_wf (r\<lparr>rd_end := e, rd_pos := p\<rparr>)" for p
    using wf by (simp_all add: rd_wf_def)
  let ?v = "\<lambda>n p. le_nat (take n (drop (unat p) (rd_data r)))"
  have u32: "rd_u32 r = Some (word_of_nat (?v 4 (rd_pos r)), r\<lparr>rd_pos := rd_pos r + 4\<rparr>)"
    "rd_u32 (r\<lparr>rd_end := e\<rparr>) = Some (word_of_nat (?v 4 (rd_pos r)), r\<lparr>rd_end := e, rd_pos := rd_pos r + 4\<rparr>)"
    "rd_u32 (r\<lparr>rd_pos := rd_pos r + 4\<rparr>) = Some (word_of_nat (?v 4 (rd_pos r + 4)), r\<lparr>rd_pos := rd_pos r + 8\<rparr>)"
    "rd_u32 (r\<lparr>rd_end := e, rd_pos := rd_pos r + 4\<rparr>) =
      Some (word_of_nat (?v 4 (rd_pos r + 4)), r\<lparr>rd_end := e, rd_pos := rd_pos r + 8\<rparr>)"
    using inside pos wf wfs by (simp_all add: rd_word_inside(1))
  have u64: "rd_u64 (r\<lparr>rd_pos := rd_pos r + 4\<rparr>) = Some (word_of_nat (?v 8 (rd_pos r + 4)), r\<lparr>rd_pos := rd_pos r + 12\<rparr>)"
    "rd_u64 (r\<lparr>rd_end := e, rd_pos := rd_pos r + 4\<rparr>) =
      Some (word_of_nat (?v 8 (rd_pos r + 4)), r\<lparr>rd_end := e, rd_pos := rd_pos r + 12\<rparr>)"
    "rd_u64 (r\<lparr>rd_pos := rd_pos r + 12\<rparr>) = Some (word_of_nat (?v 8 (rd_pos r + 12)), r\<lparr>rd_pos := rd_pos r + 20\<rparr>)"
    "rd_u64 (r\<lparr>rd_end := e, rd_pos := rd_pos r + 12\<rparr>) =
      Some (word_of_nat (?v 8 (rd_pos r + 12)), r\<lparr>rd_end := e, rd_pos := rd_pos r + 20\<rparr>)"
    using inside pos wf wfs by (simp_all add: rd_word_inside(2))
  show ?thesis
    unfolding parseHDR_def u32 by (simp add: u32 u64 Let_def same_result_def)
qed

lemma parseCIE_end:
  assumes "rd_wf r" "rd_wf (r\<lparr>rd_end := e\<rparr>)"
    "unat (rd_pos r) + 20 \<le> unat (rd_end r)" "unat (rd_pos r) + 20 \<le> unat e"
  shows "same_result (\<lambda>res. \<exists>x. res = Inl x) (parseCIE (r\<lparr>rd_end := e\<rparr>)) (parseCIE r)"
  using parseHDR_end [OF assms, of True]
  by (auto simp: same_result_def parseCIE_def)

lemma load_cie_end:
  assumes "rd_wf r" "rd_wf (r\<lparr>rd_end := e\<rparr>)" "unat ciePos + 20 \<le> unat (rd_end r)" "unat ciePos + 20 \<le> unat e"
  shows "load_cie fuel efm ciePos (r\<lparr>rd_end := e\<rparr>) = load_cie fuel efm ciePos r"
proof -
  let ?r = "r\<lparr>rd_pos := ciePos\<rparr>"
  have eq: "(r\<lparr>rd_end := e\<rparr>)\<lparr>rd_pos := ciePos\<rparr> = ?r\<lparr>rd_end := e\<rparr>" by simp
  have "same_result (\<lambda>res. \<exists>x. res = Inl x) (parseCIE (?r\<lparr>rd_end := e\<rparr>)) (parseCIE ?r)"
    using assms by (intro parseCIE_end) (simp_all add: rd_wf_def)
  then consider "parseCIE (?r\<lparr>rd_end := e\<rparr>) = parseCIE ?r"
    | x r1 r2 where "parseCIE (?r\<lparr>rd_end := e\<rparr>) = Some (Inl x, r1)" "parseCIE ?r = Some (Inl x, r2)"
    unfolding same_result_def by blast
  then show ?thesis unfolding load_cie_def eq by cases (simp_all only: bind.bind_lunit prod.case sum.case)
qed

text \<open>
  What is relied on of the LRU: it returns only what was put in under the same key, and lookups and
  evictions only lose entries.
\<close>

definition lru_ok :: "'c cieLRU \<Rightarrow> bool" where
  "lru_ok lru \<longleftrightarrow>
     (\<forall>n c k. lru_New lru n = Inr c \<longrightarrow> fst (lru_Get lru k c) = None) \<and>
     (\<forall>c k k' v. fst (lru_Get lru k (snd (lru_Get lru k' c))) = Some v \<longrightarrow> fst (lru_Get lru k c) = Some v) \<and>
     (\<forall>c k k' v v'. fst (lru_Get lru k (lru_Add lru k' v' c)) = Some v \<longrightarrow>
        k = k' \<and> v = v' \<or> fst (lru_Get lru k c) = Some v)"

text \<open>Every cached entry is what parsing it from the whole section gives.\<close>

definition cache_ok :: "nat \<Rightarrow> 'c cieLRU \<Rightarrow> elf_Machine \<Rightarrow> reader \<Rightarrow> 'c \<Rightarrow> bool" where
  "cache_ok fuel lru efm sec cache \<longleftrightarrow>
     (\<forall>k cie. fst (lru_Get lru k cache) = Some cie \<longrightarrow> load_cie fuel efm k sec = Some (Inr cie))"

text \<open>
  Caching common information entries is transparent: with a cache that returns only what was
  put into it, an entry whose header lies in front of the end of the frame description entry that
  refers to it is the one that parsing it in the whole section gives, whether it comes from the
  cache or not, and the cache stays coherent; an error, too, is the error of the section.
\<close>

theorem get_cie_transparent:
  assumes lru: "lru_ok lru" and cache: "cache_ok fuel lru efm sec cache"
    and sec: "rd_wf sec" and r: "r = sec\<lparr>rd_pos := pos, rd_end := e\<rparr>" "rd_wf r"
    and inside: "unat ciePos + 20 \<le> unat e" "unat ciePos + 20 \<le> unat (rd_end sec)"
    and get: "get_cie fuel lru efm ciePos r cache = Some (res, cache')"
  shows "load_cie fuel efm ciePos sec = Some res \<and> cache_ok fuel lru efm sec cache'"
proof -
  have load: "load_cie fuel efm ciePos r = load_cie fuel efm ciePos sec"
  proof -
    have "load_cie fuel efm ciePos r = load_cie fuel efm ciePos (sec\<lparr>rd_end := e\<rparr>)"
      by (simp add: r(1) load_cie_def)
    also have "\<dots> = load_cie fuel efm ciePos sec"
      using sec r inside by (intro load_cie_end) (simp_all add: rd_wf_def)
    finally show ?thesis .
  qed
  obtain o1 c1 where g: "lru_Get lru ciePos cache = (o1, c1)" by fastforce
  have c1: "cache_ok fuel lru efm sec c1"
    unfolding cache_ok_def
  proof (intro allI impI)
    fix k cie
    assume "fst (lru_Get lru k c1) = Some cie"
    then have "fst (lru_Get lru k cache) = Some cie"
      using lru g unfolding lru_ok_def by (metis snd_conv)
    then show "load_cie fuel efm k sec = Some (Inr cie)" using cache by (simp add: cache_ok_def)
  qed
  show ?thesis
  proof (cases o1)
    case (Some cie)
    then have "load_cie fuel efm ciePos sec = Some (Inr cie)"
      using cache g by (auto simp: cache_ok_def)
    then show ?thesis using get g Some c1 by (simp add: get_cie_def)
  next
    case None
    then obtain res' where l: "load_cie fuel efm ciePos sec = Some res'"
      using get g load by (auto simp: get_cie_def split: option.splits)
    show ?thesis
    proof (cases res')
      case (Inl err)
      then show ?thesis using get g None load l c1 by (simp add: get_cie_def)
    next
      case (Inr cie)
      have "cache_ok fuel lru efm sec (lru_Add lru ciePos cie c1)"
        unfolding cache_ok_def
      proof (intro allI impI)
        fix k cie'
        assume "fst (lru_Get lru k (lru_Add lru ciePos cie c1)) = Some cie'"
        then have "k = ciePos \<and> cie' = cie \<or> fst (lru_Get lru k c1) = Some cie'"
          using lru unfolding lru_ok_def by metis
        then show "load_cie fuel efm k sec = Some (Inr cie')"
          using c1 l Inr by (auto simp: cache_ok_def)
      qed
      then show ?thesis using get g None load l Inr by (simp add: get_cie_def)
    qed
  qed
qed

text \<open>
  A section with a CIE at position 0 (version 1, no augmentation, \<open>DW_CFA_def_cfa rsp+8\<close>), and
  a reader of it as the header of an entry behind it leaves it.
\<close>

definition cie_section :: reader where
  "cie_section = \<lparr>rd_debugFrame = False,
     rd_data = [0x0c, 0, 0, 0, 0, 0, 0, 0, 1, 0, 1, 0x38, 0x10, 0x0c, 7, 8, 0, 0, 0, 0, 0, 0, 0, 0],
     rd_pos = 0, rd_end = 24, rd_vaddr = 0\<rparr>"

lemma leb_byte:
  assumes "rd_u8 r = Some (b, r')" "unat b < 64"
  shows "rd_uleb r = Some (ucast b, r')" "rd_sleb r = Some (ucast b, r')"
proof -
  have b: "b AND 0x80 = 0" "b AND 0x40 = 0" and v: "ucast (b AND 0x7f) = (ucast b :: u64)"
    using assms(2) by (simp_all only: and_80 and_40 low7_unat) simp_all
  show "rd_uleb r = Some (ucast b, r')" "rd_sleb r = Some (ucast b, r')"
    unfolding rd_uleb_def rd_sleb_def
    by (subst uleb_loop.simps sleb_loop.simps, simp add: assms(1) b v)+
qed

lemma cie_section_parsed:
  "\<exists>cie. parseCIE (cie_section\<lparr>rd_end := 23, rd_pos := 0\<rparr>) = Some (Inr cie, cie_section\<lparr>rd_pos := 13, rd_end := 16\<rparr>)"
proof -
  let ?r = "\<lambda>p. cie_section\<lparr>rd_pos := p, rd_end := 16\<rparr>"
  have hdr: "parseHDR True (cie_section\<lparr>rd_end := 23, rd_pos := 0\<rparr>) = Some ((16, 0, None), ?r 8)"
    by (simp add: parseHDR_def hdr_finish_def rd_u32_def rd_get_def isValid_def go_index_ok_def
        cie_section_def Let_def)
  have u8: "rd_u8 (?r 8) = Some (1, ?r 9)" "rd_u8 (?r 10) = Some (1, ?r 11)" "rd_u8 (?r 11) = Some (0x38, ?r 12)"
    "rd_u8 (?r 12) = Some (0x10, ?r 13)"
    by (simp_all add: rd_u8_def rd_get_def isValid_def go_index_ok_def cie_section_def Let_def)
  have "scan_nul lim (0 # bs) = Some 0" for lim bs by (cases lim) simp_all
  then have str: "rd_str (?r 9) = Some ([], ?r 10)"
    by (simp add: rd_str_def cie_section_def Let_def)
  have valid: "isValid (?r 13)" by (simp add: isValid_def cie_section_def)
  show ?thesis
    using valid
    by (simp add: parseCIE_def parse_cie_body_def hdr u8 str leb_byte [OF u8(2)] leb_byte [OF u8(3)] Let_def)
qed

theorem get_cie_transparent_witness:
  "\<exists>res cache'. get_cie 20 list_lru EM_X86_64 0 (cie_section\<lparr>rd_pos := 22, rd_end := 23\<rparr>) [] = Some (res, cache') \<and>
     load_cie 20 EM_X86_64 0 cie_section = Some res"
proof -
  have lru: "lru_ok list_lru" by (auto simp: lru_ok_def list_lru_def split: if_splits)
  have cache: "cache_ok 20 list_lru EM_X86_64 cie_section []" by (simp add: cache_ok_def list_lru_def)
  have wf: "rd_wf cie_section" "rd_wf (cie_section\<lparr>rd_pos := 22, rd_end := 23\<rparr>)"
    by (simp_all add: rd_wf_def cie_section_def)
  let ?r = "cie_section\<lparr>rd_pos := 22, rd_end := 23\<rparr>"
  have "load_cie 20 EM_X86_64 0 ?r \<noteq> None"
  proof -
    let ?cr = "cie_section\<lparr>rd_pos := 13, rd_end := 16\<rparr>"
    obtain cie where cie: "parseCIE (?r\<lparr>rd_pos := 0\<rparr>) = Some (Inr cie, ?cr)"
      using cie_section_parsed by auto
    let ?st = "new_state (cie\<lparr>cie_initialState := newVMRegsX86\<rparr>) newVMRegsX86"
    have cr: "rd_wf ?cr" by (simp add: rd_wf_def cie_section_def)
    moreover have "lens_ok ?cr" by (rule lens_ok_short [OF cr]) (simp add: cie_section_def)
    moreover have "st_wf ?st" by (simp add: st_wf_def new_state_def Let_def)
    ultimately have "state_step 20 ?st ?cr \<noteq> None"
      using state_step_ok [of ?cr ?st 20] by (auto simp: cie_section_def)
    then show ?thesis using cie by (auto simp: load_cie_def newVMRegs_def)
  qed
  then have "get_cie 20 list_lru EM_X86_64 0 ?r [] \<noteq> None"
    by (auto simp: get_cie_def list_lru_def split: sum.split)
  then obtain res cache' where g: "get_cie 20 list_lru EM_X86_64 0 ?r [] = Some (res, cache')" by auto
  from get_cie_transparent [OF lru cache wf(1) refl wf(2) _ _ g] g show ?thesis
    by (auto simp: cie_section_def)
qed

section \<open>Table lookup\<close>

lemma searchM_loop_Some:
  assumes "\<And>k. k < n \<Longrightarrow> p k = Some (q k)" "j \<le> n"
  shows "searchM_loop p i j = Some (search_loop q i j)"
  using assms
proof (induction q i j rule: search_loop.induct)
  case (1 q i j)
  let ?h = "(i + j) div 2"
  show ?case
  proof (cases "i < j")
    case True
    then have h: "?h < n" using "1.prems"(2) by simp
    then have eq: "p ?h = Some (q ?h)" using "1.prems"(1) by simp
    show ?thesis
    proof (cases "q ?h")
      case True
      then show ?thesis
        using \<open>i < j\<close> "1.IH"(2) [OF \<open>i < j\<close> refl] "1.prems" h eq
        by (subst searchM_loop.simps, subst search_loop.simps) (simp add: Let_def)
    next
      case False
      then show ?thesis
        using \<open>i < j\<close> "1.IH"(1) [OF \<open>i < j\<close> refl False] "1.prems" eq
        by (subst searchM_loop.simps, subst search_loop.simps) (simp add: Let_def)
    qed
  next
    case False
    then show ?thesis by (subst searchM_loop.simps, subst search_loop.simps) simp
  qed
qed

text \<open>
  The table the lookup relies on: its entries can be read, and they are in address order.
\<close>

definition table_sorted :: "'c EhFrameTable \<Rightarrow> (nat \<Rightarrow> uintptr) \<Rightarrow> bool" where
  "table_sorted e ip \<longleftrightarrow>
     (\<forall>i < nat (table_count e). entry_ip e (word_of_nat i) = Some (ip i)) \<and>
     (\<forall>i j. i \<le> j \<longrightarrow> j < nat (table_count e) \<longrightarrow> ip i \<le> ip j)"

text \<open>
  The binary search of the table finds the entry of an address: over a table in address
  order, \<open>LookupIndex\<close> returns the last entry that starts at or before the address, and
  an error exactly when the address is in front of the first entry.
\<close>

theorem LookupIndex_correct:
  assumes "table_sorted e ip"
  shows "\<exists>res. LookupIndex e addr = Some res \<and>
    (\<forall>i. res = Inr i \<longleftrightarrow> i < nat (table_count e) \<and> ip i \<le> addr \<and>
       (\<forall>j. i < j \<longrightarrow> j < nat (table_count e) \<longrightarrow> addr < ip j)) \<and>
    (res = Inl ErrFDENotFound \<longleftrightarrow> (\<forall>i < nat (table_count e). addr < ip i))"
proof -
  let ?n = "nat (table_count e)"
  let ?q = "\<lambda>i. ip i > addr"
  let ?k = "sort_Search ?n ?q"
  have up: "upward ?n ?q"
    using assms by (fastforce simp: upward_def table_sorted_def intro: order.strict_trans2)
  have "searchM_loop (\<lambda>idx. do { ipStart \<leftarrow> entry_ip e (word_of_nat idx); Some (ipStart > addr) }) 0 ?n = Some ?k"
    unfolding sort_Search_def
    by (rule searchM_loop_Some [where n = ?n]) (use assms in \<open>auto simp: table_sorted_def\<close>)
  then have L: "LookupIndex e addr = Some (if ?k \<le> 0 then Inl ErrFDENotFound else Inr (?k - 1))"
    by (simp add: LookupIndex_def)
  have below: "ip i \<le> addr" if "i < ?k" for i
    using goSearch.search_below [OF up that] by simp
  have above: "addr < ip i" if "?k \<le> i" "i < ?n" for i
    using goSearch.search_above [OF up that] by simp
  have le: "?k \<le> ?n" by (rule goSearch.search_le)
  show ?thesis
  proof (cases "?k = 0")
    case True
    then show ?thesis using L above by (auto simp: not_le)
  next
    case False
    then have k: "?k - 1 < ?n" "ip (?k - 1) \<le> addr" using le below by simp_all
    have uniq: "i = ?k - 1" if "i < ?n" "ip i \<le> addr" "\<forall>j. i < j \<longrightarrow> j < ?n \<longrightarrow> addr < ip j" for i
    proof (rule ccontr)
      assume "i \<noteq> ?k - 1"
      moreover have "i < ?k" using above [of i] that by force
      ultimately have "i < ?k - 1" by simp
      then show False using that(3) k by force
    qed
    have after: "\<forall>j. ?k - 1 < j \<longrightarrow> j < ?n \<longrightarrow> addr < ip j" using above by auto
    have "(\<forall>i. ?k - 1 = i \<longleftrightarrow> i < ?n \<and> ip i \<le> addr \<and> (\<forall>j. i < j \<longrightarrow> j < ?n \<longrightarrow> addr < ip j))"
      using k uniq after by blast
    moreover have "\<not> (\<forall>i < ?n. addr < ip i)" using k by (metis leD)
    moreover have "LookupIndex e addr = Some (Inr (?k - 1))" using L False by simp
    ultimately show ?thesis by simp
  qed
qed

text \<open>A table of two entries, \<open>0x1100\<close> and \<open>0x1200\<close>.\<close>

definition example_table :: "(u64 \<times> cieInfo) list EhFrameTable" where
  "example_table = \<lparr>et_fdeCount = 2, et_tableStartPos = 0, et_tableEntrySize = 8, et_tableEnc = 0x3b,
     et_ehFrameHdrSec = \<lparr>reg_data = [0, 1, 0, 0, 0, 0, 0, 0, 0, 2, 0, 0, 0, 0, 0, 0], reg_vaddr = 0x1000\<rparr>,
     et_ehFrameSec = \<lparr>reg_data = [], reg_vaddr = 0\<rparr>, et_efm = EM_X86_64, et_cieCache = []\<rparr>"

theorem LookupIndex_correct_witness:
  "LookupIndex example_table 0x1180 = Some (Inr 0) \<and> LookupIndex example_table 0x10ff = Some (Inl ErrFDENotFound)"
proof -
  let ?ip = "\<lambda>i. if i = 0 then 0x1100 else 0x1200 :: uintptr"
  have n: "nat (table_count example_table) = 2" by (simp add: table_count_def example_table_def)
  have "entry_ip example_table 0 = Some 0x1100" "entry_ip example_table 1 = Some 0x1200"
    by (simp_all add: entry_ip_def rd_ptr_def ptr_value_def rd_u32_def rd_get_def isValid_def go_index_ok_def
        entryAt_def elfRegion_reader_def example_table_def Let_def)
  then have sorted: "table_sorted example_table ?ip"
    by (auto simp: table_sorted_def n less_2_cases_iff)
  have "LookupIndex example_table 0x1180 = Some (Inr 0)"
  proof -
    obtain res where r: "LookupIndex example_table 0x1180 = Some res"
      and spec: "\<forall>i. res = Inr i \<longleftrightarrow> i < nat (table_count example_table) \<and> ?ip i \<le> 0x1180 \<and>
        (\<forall>j. i < j \<longrightarrow> j < nat (table_count example_table) \<longrightarrow> 0x1180 < ?ip j)"
      using LookupIndex_correct [OF sorted, where addr = "0x1180"] by blast
    have "res = Inr 0" using spec [rule_format, of 0] by (simp add: n)
    then show ?thesis using r by simp
  qed
  moreover have "LookupIndex example_table 0x10ff = Some (Inl ErrFDENotFound)"
  proof -
    obtain res where r: "LookupIndex example_table 0x10ff = Some res"
      and spec: "res = Inl ErrFDENotFound \<longleftrightarrow> (\<forall>i < nat (table_count example_table). 0x10ff < ?ip i)"
      using LookupIndex_correct [OF sorted, where addr = "0x10ff"] by blast
    then show ?thesis by simp
  qed
  ultimately show ?thesis ..
qed

end
