(* ===== verification/Lpm.thy ===== *)
theory Lpm
  imports Prelude
begin

text \<open>
  Prefix lists for longest-prefix-match tries (\<open>lpm/lpm.go\<close>): an address range is cut into
  aligned blocks whose size is a power of two, each of them one key of the trie.

  The loop of \<open>calculateRmb\<close> runs forever when the current value is beyond the end
  (\<open>None\<close> here); the loops of \<open>CalculatePrefixList\<close> run forever when the current
  value wraps around to zero, so that they carry fuel. The lemmas show that ranges
  that end in the lower half of the address space are covered exactly, by pairwise disjoint
  prefixes, and give a range in the upper half on which the code does not return.
\<close>

unbundle bit_operations_syntax

section \<open>Model\<close>

record Prefix =
  pf_Key :: u64
  pf_Length :: u32

definition getRightmostSetBit :: "u64 \<Rightarrow> u64" where
  "getRightmostSetBit x = x AND (- x)"

text \<open>\<open>for currentVal+rmb > end { rmb >>= 1 }\<close>\<close>

function rmb_loop :: "u64 \<Rightarrow> u64 \<Rightarrow> u64 \<Rightarrow> u64 option" where
  "rmb_loop currentVal end rmb =
     (if currentVal + rmb > end
      then if rmb = 0 then None else rmb_loop currentVal end (drop_bit 1 rmb)
      else Some rmb)"
  by pat_completeness auto
termination
proof (relation "measure (\<lambda>(currentVal, end, rmb). unat rmb)", goal_cases)
  case (2 currentVal "end" rmb)
  then have "0 < unat rmb" by (simp add: unat_gt_0)
  then show ?case by (simp add: drop_bit_eq_div unat_div)
qed simp

declare rmb_loop.simps [simp del]

definition calculateRmb :: "u64 \<Rightarrow> u64 \<Rightarrow> u64 option" where
  "calculateRmb currentVal end =
     (let rmb = getRightmostSetBit currentVal;
          rmb = (if rmb = 0 then push_bit 63 1 else rmb)
      in rmb_loop currentVal end rmb)"

fun bitlen :: "nat \<Rightarrow> nat" where
  "bitlen n = (if n = 0 then 0 else Suc (bitlen (n div 2)))"

declare bitlen.simps [simp del]

definition LeadingZeros64 :: "u64 \<Rightarrow> nat" where
  "LeadingZeros64 w = 64 - bitlen (unat w)"

text \<open>The loop that counts the prefixes; \<open>None\<close> is non-termination.\<close>

fun size_loop :: "nat \<Rightarrow> u64 \<Rightarrow> u64 \<Rightarrow> nat option" where
  "size_loop fuel currentVal end =
     (if currentVal < end then
        (case fuel of
           0 \<Rightarrow> None
         | Suc fuel' \<Rightarrow>
             (case calculateRmb currentVal end of
                None \<Rightarrow> None
              | Some rmb \<Rightarrow> map_option Suc (size_loop fuel' (currentVal + rmb) end)))
      else Some 0)"

text \<open>The loop that fills the list; a store beyond its length would panic.\<close>

datatype 'a run = Done 'a | Panic | Forever

fun fill_loop :: "nat \<Rightarrow> u64 \<Rightarrow> u64 \<Rightarrow> nat \<Rightarrow> Prefix list \<Rightarrow> Prefix list run" where
  "fill_loop fuel currentVal end idx list =
     (if currentVal < end then
        (case fuel of
           0 \<Rightarrow> Forever
         | Suc fuel' \<Rightarrow>
             (case calculateRmb currentVal end of
                None \<Rightarrow> Forever
              | Some rmb \<Rightarrow>
                  if idx < length list
                  then fill_loop fuel' (currentVal + rmb) end (idx + 1)
                         (list[idx := \<lparr>pf_Key = currentVal,
                                       pf_Length = word_of_nat (1 + LeadingZeros64 rmb)\<rparr>])
                  else Panic))
      else Done list)"

declare size_loop.simps [simp del] fill_loop.simps [simp del]

datatype lpm_error = ErrEmptyRange

definition CalculatePrefixList :: "nat \<Rightarrow> u64 \<Rightarrow> u64 \<Rightarrow> (lpm_error + Prefix list) run" where
  "CalculatePrefixList fuel start end =
     (if end \<le> start then Done (Inl ErrEmptyRange)
      else case size_loop fuel start end of
             None \<Rightarrow> Forever
           | Some listSize \<Rightarrow>
               (case fill_loop fuel start end 0 (replicate listSize \<lparr>pf_Key = 0, pf_Length = 0\<rparr>) of
                  Done list \<Rightarrow> Done (Inr list)
                | Panic \<Rightarrow> Panic
                | Forever \<Rightarrow> Forever))"

section \<open>The lowest set bit\<close>

lemma rightmost_bit:
  assumes "x \<noteq> 0"
  obtains k where "k < 64" "getRightmostSetBit x = 2 ^ k" "2 ^ k dvd unat x"
proof -
  define k where "k = (LEAST n. bit x n)"
  have ex: "\<exists>n. bit x n" using assms by (metis bit_eqI bit_0_eq bot_apply bot_bool_def)
  then have k: "bit x k" unfolding k_def by (rule LeastI_ex)
  have low: "\<not> bit x n" if "n < k" for n using that not_less_Least unfolding k_def by blast
  have k64: "k < 64" using k bit_imp_le_length by force
  let ?z = "unset_bit k x"
  have "?z AND push_bit k 1 = 0" "?z AND mask k = 0"
    using low by (auto simp: bit_eq_iff bit_simps)
  then have sum: "?z + push_bit k 1 = ?z OR push_bit k 1" "?z + mask k = ?z OR mask k"
    by (simp_all add: disjunctive_add_eq_or)
  have "?z OR push_bit k 1 = x" using k by (intro bit_word_eqI) (auto simp: bit_simps)
  then have "x = ?z + 2 ^ k" using sum(1) by (simp add: push_bit_eq_mult)
  then have "x - 1 = ?z + mask k" by (simp add: mask_eq_exp_minus_1)
  then have eq: "?z OR mask k = x - 1" using sum(2) by simp
  have "- x = NOT (?z OR mask k)" unfolding eq by (simp add: not_eq_complement)
  then have "x AND - x = push_bit k 1"
    using k low by (intro bit_word_eqI) (auto simp: bit_simps)
  moreover have "take_bit k x = 0" using low by (auto simp: bit_eq_iff bit_simps)
  then have "unat (take_bit k x) = 0" by simp
  then have "2 ^ k dvd unat x"
    by (simp only: unsigned_take_bit_eq) (simp add: take_bit_eq_mod dvd_eq_mod_eq_0)
  ultimately show thesis
    using that [OF k64] by (simp add: getRightmostSetBit_def push_bit_eq_mult)
qed


section \<open>Blocks\<close>

text \<open>
  A block of size \<open>2^k\<close> that starts at a multiple of its size: what a prefix of \<open>64 - k\<close>
  bits matches.
\<close>

definition prefix_matches :: "Prefix \<Rightarrow> u64 \<Rightarrow> bool" where
  "prefix_matches p a \<longleftrightarrow>
     drop_bit (64 - unat (pf_Length p)) a = drop_bit (64 - unat (pf_Length p)) (pf_Key p)"

definition block_prefix :: "u64 \<Rightarrow> nat \<Rightarrow> Prefix" where
  "block_prefix key k = \<lparr>pf_Key = key, pf_Length = word_of_nat (64 - k)\<rparr>"

lemma bitlen_exp: "bitlen (2 ^ k) = Suc k"
  by (induction k) (simp_all add: bitlen.simps)

lemma unat_exp: "k < 64 \<Longrightarrow> unat (2 ^ k :: u64) = 2 ^ k"
  by (simp add: unsigned_push_bit_eq [of k 1, where 'a = nat, simplified push_bit_eq_mult, simplified]
      power_strict_increasing_iff unat_of_nat)

lemma prefix_of_rmb:
  "k < 64 \<Longrightarrow> \<lparr>pf_Key = key, pf_Length = word_of_nat (1 + LeadingZeros64 (2 ^ k))\<rparr> = block_prefix key k"
  by (simp add: block_prefix_def LeadingZeros64_def unat_exp bitlen_exp)

lemma block_prefix_matches:
  assumes "k < 64" "2 ^ k dvd unat key"
  shows "prefix_matches (block_prefix key k) a \<longleftrightarrow> unat key \<le> unat a \<and> unat a < unat key + 2 ^ k"
proof -
  have "unat (word_of_nat (64 - k) :: u32) = 64 - k" by (simp only: unat_of_nat) simp
  then have len: "unat (pf_Length (block_prefix key k)) = 64 - k" by (simp only: block_prefix_def Prefix.select_convs)
  have key: "pf_Key (block_prefix key k) = key" by (simp add: block_prefix_def)
  obtain m where m: "unat key = 2 ^ k * m" using assms(2) by (elim dvdE)
  then have mdiv: "unat key div 2 ^ k = m" by simp
  have "prefix_matches (block_prefix key k) a \<longleftrightarrow> unat (drop_bit k a) = unat (drop_bit k key)"
    using assms(1) by (simp add: prefix_matches_def len key word_unat_eq_iff)
  also have "\<dots> \<longleftrightarrow> unat a div 2 ^ k = m"
    using mdiv by (simp only: unsigned_drop_bit_eq)
      (simp add: drop_bit_eq_div take_bit_nat_eq_self unat_u64_less [simplified])
  also have "\<dots> \<longleftrightarrow> unat key \<le> unat a \<and> unat a < unat key + 2 ^ k"
    by (auto simp: m div_nat_eqI less_eq_div_iff_mult_less_eq mult.commute)
      (metis add.commute mult.commute mult_Suc dividend_less_times_div zero_less_numeral zero_less_power div_mult_mod_eq)+
  finally show ?thesis .
qed


section \<open>Covering a range\<close>

lemma rmb_loop_block:
  assumes "k < 64" "2 ^ k dvd unat cv" "unat cv < unat end" "unat cv + 2 ^ k < 2 ^ 64"
  obtains j where "j < 64" "rmb_loop cv end (2 ^ k) = Some (2 ^ j)" "2 ^ j dvd unat cv" "unat cv + 2 ^ j \<le> unat end"
  using assms
proof (induction k arbitrary: thesis)
  case 0
  have "unat (cv + 1) = unat cv + 1" using "0.prems"(5) unat_add_no_wrap [of cv 1] by simp
  then have "\<not> cv + 1 > end" using "0.prems"(4) by (simp add: word_less_nat_alt)
  then have "rmb_loop cv end (2 ^ 0) = Some (2 ^ 0)" by (subst rmb_loop.simps) simp
  then show ?case using "0.prems"(1) [of 0] "0.prems"(4) by simp
next
  case (Suc k)
  let ?r = "2 ^ Suc k :: u64"
  have r: "unat ?r = 2 ^ Suc k" using Suc.prems(2) by (rule unat_exp)
  have sum: "unat (cv + ?r) = unat cv + 2 ^ Suc k"
    using Suc.prems(5) r unat_add_no_wrap [of cv ?r] by simp
  show ?case
  proof (cases "cv + ?r > end")
    case True
    have "?r \<noteq> 0" using r by (metis power_not_zero unsigned_0 zero_neq_numeral)
    moreover have "drop_bit 1 ?r = 2 ^ k"
      using Suc.prems(2) by (intro bit_word_eqI) (auto simp: bit_simps simp del: power_Suc)
    ultimately have "rmb_loop cv end ?r = rmb_loop cv end (2 ^ k)"
      using True by (subst rmb_loop.simps) simp
    moreover have "2 ^ k dvd unat cv" using Suc.prems(3) by (meson dvd_trans le_imp_power_dvd lessI less_imp_le_nat)
    ultimately show ?thesis
      using Suc.IH [OF Suc.prems(1)] Suc.prems by simp
  next
    case False
    then have "rmb_loop cv end ?r = Some ?r" by (subst rmb_loop.simps) simp
    moreover have "unat cv + 2 ^ Suc k \<le> unat end" using False sum by (simp add: word_less_nat_alt not_less)
    ultimately show ?thesis using Suc.prems(1) [of "Suc k"] Suc.prems(2,3) by blast
  qed
qed

lemma calculateRmb_block:
  assumes "unat cv < unat end" "unat end \<le> 2 ^ 63"
  obtains k where "k < 64" "calculateRmb cv end = Some (2 ^ k)" "2 ^ k dvd unat cv" "unat cv + 2 ^ k \<le> unat end"
proof (cases "cv = 0")
  case True
  have "calculateRmb cv end = rmb_loop cv end (2 ^ 63)"
    using True by (simp add: calculateRmb_def getRightmostSetBit_def push_bit_eq_mult)
  moreover obtain j where "j < 64" "rmb_loop cv end (2 ^ 63) = Some (2 ^ j)" "2 ^ j dvd unat cv" "unat cv + 2 ^ j \<le> unat end"
    using rmb_loop_block [of 63 cv "end"] assms(1) True by auto
  ultimately show ?thesis using that by metis
next
  case False
  obtain k where k: "k < 64" "getRightmostSetBit cv = 2 ^ k" "2 ^ k dvd unat cv"
    using rightmost_bit [OF False] by blast
  have "0 < unat cv" using False by (simp add: unat_gt_0)
  then have "2 ^ k \<le> unat cv" using k(3) by (rule dvd_imp_le [rotated])
  then have "unat cv + 2 ^ k < 2 ^ 64" using assms by simp
  moreover have "(2 ^ k :: u64) \<noteq> 0" using unat_exp [OF k(1)] by (metis power_not_zero unsigned_0 zero_neq_numeral)
  then have "calculateRmb cv end = rmb_loop cv end (2 ^ k)" using k(2) by (simp add: calculateRmb_def)
  ultimately show ?thesis
    using rmb_loop_block [OF k(1,3) assms(1)] that by metis
qed

text \<open>The blocks from \<open>cv\<close> to \<open>end\<close>, as keys and sizes.\<close>

inductive tiling :: "nat \<Rightarrow> nat \<Rightarrow> (u64 \<times> nat) list \<Rightarrow> bool" where
  tile_Nil: "tiling e e []"
| tile_Cons: "unat key = c \<Longrightarrow> k < 64 \<Longrightarrow> 2 ^ k dvd c \<Longrightarrow> tiling (c + 2 ^ k) e bs \<Longrightarrow> tiling c e ((key, k) # bs)"

inductive_cases tiling_NilE: "tiling c e []"
inductive_cases tiling_ConsE: "tiling c e ((key, k) # bs)"

lemma tiling_le: "tiling c e bs \<Longrightarrow> c \<le> e"
  by (induction rule: tiling.induct) auto

lemma tiling_covers:
  assumes "tiling c e bs"
  shows "(\<exists>(key, k) \<in> set bs. prefix_matches (block_prefix key k) a) \<longleftrightarrow> c \<le> unat a \<and> unat a < e"
  using assms
proof (induction rule: tiling.induct)
  case (tile_Cons key c k e bs)
  have "c + 2 ^ k \<le> e" using tile_Cons.hyps(4) by (rule tiling_le)
  then show ?case using tile_Cons block_prefix_matches [of k key a] by auto
qed simp

lemma tiling_disjoint:
  "tiling c e bs \<Longrightarrow> sorted_wrt (\<lambda>(key, k) (key', k').
     \<not> (prefix_matches (block_prefix key k) a \<and> prefix_matches (block_prefix key' k') a)) bs"
proof (induction rule: tiling.induct)
  case (tile_Cons key c k e bs)
  have "\<not> prefix_matches (block_prefix key' k') a"
    if "prefix_matches (block_prefix key k) a" "(key', k') \<in> set bs" for key' k'
    using that tile_Cons.hyps tiling_covers [OF tile_Cons.hyps(4), of a] block_prefix_matches [of k key a]
    by fastforce
  then show ?case using tile_Cons.IH by auto
qed simp


lemma loops_tile:
  assumes "unat end \<le> 2 ^ 63" "unat cv \<le> unat end" "unat end - unat cv \<le> fuel"
  shows "\<exists>bs. tiling (unat cv) (unat end) bs \<and> size_loop fuel cv end = Some (length bs) \<and>
    (\<forall>pre suf. length suf = length bs \<longrightarrow> fill_loop fuel cv end (length pre) (pre @ suf) =
       Done (pre @ map (\<lambda>(key, k). block_prefix key k) bs))"
  using assms(2,3)
proof (induction fuel arbitrary: cv)
  case 0
  then have "\<not> cv < end" "unat cv = unat end" by (simp_all add: word_less_nat_alt)
  then show ?case by (intro exI [of _ "[]"]) (auto simp: size_loop.simps fill_loop.simps intro: tile_Nil)
next
  case (Suc fuel)
  show ?case
  proof (cases "cv < end")
    case False
    then have "unat cv = unat end" using Suc.prems by (simp add: word_less_nat_alt)
    then show ?thesis
      using False by (intro exI [of _ "[]"]) (auto simp: size_loop.simps fill_loop.simps intro: tile_Nil)
  next
    case True
    then have "unat cv < unat end" by (simp add: word_less_nat_alt)
    then obtain k where k: "k < 64" "calculateRmb cv end = Some (2 ^ k)" "2 ^ k dvd unat cv" "unat cv + 2 ^ k \<le> unat end"
      using calculateRmb_block assms(1) by blast
    have cv': "unat (cv + 2 ^ k) = unat cv + 2 ^ k"
      using k(4) assms(1) unat_exp [OF k(1)] unat_add_no_wrap [of cv "2 ^ k"] by simp
    have "unat end - unat (cv + 2 ^ k) \<le> fuel"
      using cv' Suc.prems(2) one_le_power [of "2 :: nat" k] by linarith
    then obtain bs where bs: "tiling (unat (cv + 2 ^ k)) (unat end) bs" "size_loop fuel (cv + 2 ^ k) end = Some (length bs)"
      and fill: "\<And>pre suf. length suf = length bs \<Longrightarrow> fill_loop fuel (cv + 2 ^ k) end (length pre) (pre @ suf) =
         Done (pre @ map (\<lambda>(key, k). block_prefix key k) bs)"
      using Suc.IH [of "cv + 2 ^ k"] cv' k(4) by metis
    have "fill_loop (Suc fuel) cv end (length pre) (pre @ suf) =
        Done (pre @ map (\<lambda>(key, k). block_prefix key k) ((cv, k) # bs))"
      if len: "length suf = Suc (length bs)" for pre suf
    proof -
      obtain x suf' where suf: "suf = x # suf'" "length suf' = length bs" using len by (cases suf) auto
      have "fill_loop (Suc fuel) cv end (length pre) (pre @ suf) =
          fill_loop fuel (cv + 2 ^ k) end (length (pre @ [block_prefix cv k])) ((pre @ [block_prefix cv k]) @ suf')"
        using True k(1,2) suf(1) prefix_of_rmb [OF k(1), of cv]
        by (simp add: fill_loop.simps [of "Suc fuel"])
      then show ?thesis using fill [OF suf(2), of "pre @ [block_prefix cv k]"] by simp
    qed
    moreover have "size_loop (Suc fuel) cv end = Some (Suc (length bs))"
      using True k(2) bs(2) by (simp add: size_loop.simps [of "Suc fuel"])
    moreover have "tiling (unat cv) (unat end) ((cv, k) # bs)"
      using bs(1) k(1,3) cv' by (auto intro: tile_Cons)
    ultimately show ?thesis by (intro exI [of _ "(cv, k) # bs"]) simp
  qed
qed

text \<open>
  C21: The prefix list covers its range exactly: for a range that ends in the lower half of the
  address space the code returns (as many iterations as there are addresses are enough), it
  does not store beyond the list it allocated, an address is matched by a prefix of the list exactly
  when it lies in the range, and no address is matched by two of them.
\<close>

theorem CalculatePrefixList_covers:
  assumes "start < end" "end \<le> 2 ^ 63" "unat end - unat start \<le> fuel"
  shows "\<exists>list. CalculatePrefixList fuel start end = Done (Inr list) \<and>
    (\<forall>a. (\<exists>p \<in> set list. prefix_matches p a) \<longleftrightarrow> start \<le> a \<and> a < end) \<and>
    (\<forall>a. sorted_wrt (\<lambda>p q. \<not> (prefix_matches p a \<and> prefix_matches q a)) list)"
proof -
  have "unat (2 ^ 63 :: u64) = 2 ^ 63" by simp
  then have e: "unat end \<le> 2 ^ 63" using assms(2) by (metis word_le_nat_alt)
  obtain bs where bs: "tiling (unat start) (unat end) bs" "size_loop fuel start end = Some (length bs)"
    and fill: "\<And>suf. length suf = length bs \<Longrightarrow> fill_loop fuel start end 0 suf = Done (map (\<lambda>(key, k). block_prefix key k) bs)"
  proof -
    have "unat start \<le> unat end" using assms(1) by (simp add: word_less_nat_alt)
    from loops_tile [OF e this assms(3)] show ?thesis
      using that by (metis append_Nil list.size(3))
  qed
  have "CalculatePrefixList fuel start end = Done (Inr (map (\<lambda>(key, k). block_prefix key k) bs))"
    using assms(1) bs(2) fill by (simp add: CalculatePrefixList_def)
  moreover have "(\<exists>p \<in> set (map (\<lambda>(key, k). block_prefix key k) bs). prefix_matches p a) \<longleftrightarrow> start \<le> a \<and> a < end" for a
    using tiling_covers [OF bs(1), of a] by (simp add: split_beta word_le_nat_alt word_less_nat_alt)
  moreover have "sorted_wrt (\<lambda>p q. \<not> (prefix_matches p a \<and> prefix_matches q a)) (map (\<lambda>(key, k). block_prefix key k) bs)" for a
    using tiling_disjoint [OF bs(1), of a] by (simp add: sorted_wrt_map case_prod_unfold)
  ultimately show ?thesis by blast
qed

theorem CalculatePrefixList_covers_witness:
  "\<exists>list. CalculatePrefixList 12 10 22 = Done (Inr list) \<and> (\<exists>p \<in> set list. prefix_matches p 21) \<and>
     \<not> (\<exists>p \<in> set list. prefix_matches p 22)"
proof -
  obtain list where l: "CalculatePrefixList 12 10 22 = Done (Inr list)"
    and cov: "\<And>a. (\<exists>p \<in> set list. prefix_matches p a) \<longleftrightarrow> 10 \<le> a \<and> a < 22"
    using CalculatePrefixList_covers [of 10 22 12] by auto
  show ?thesis using l cov [of 21] cov [of 22] by auto
qed

text \<open>
  A range in the upper half of the address space: from \<open>2^63\<close> to \<open>2^63 + 1\<close> the
  current value plus its lowest set bit wraps around to zero, the block of \<open>2^63\<close> is not
  made smaller, and the loop starts again at zero; the code never returns.
\<close>

theorem CalculatePrefixList_diverges:
  "CalculatePrefixList fuel (2 ^ 63) (2 ^ 63 + 1) = Forever"
proof -
  have rmb: "calculateRmb (2 ^ 63) (2 ^ 63 + 1) = Some (2 ^ 63)" "calculateRmb 0 (2 ^ 63 + 1) = Some (2 ^ 63)"
    by (simp_all add: calculateRmb_def getRightmostSetBit_def rmb_loop.simps)
  have wrap: "(18446744073709551616 :: u64) = 0" by (simp add: word_unat_eq_iff)
  have "size_loop fuel (2 ^ 63) (2 ^ 63 + 1) = None \<and> size_loop fuel 0 (2 ^ 63 + 1) = None" for fuel
  proof (induction fuel)
    case (Suc fuel)
    then show ?case using rmb by (simp add: size_loop.simps [of "Suc fuel"] wrap)
  qed (simp add: size_loop.simps)
  then show ?thesis by (simp add: CalculatePrefixList_def)
qed

end
