(* ===== verification/EbpfMaps.thy ===== *)
theory EbpfMaps
  imports StackDelta Lpm
begin

text \<open>
  The user space side of the eBPF maps (\<open>processmanager/ebpf/ebpf.go\<close>,
  \<open>asyncupdate.go\<close>, \<open>processmanager/ebpfapi\<close>, \<open>support/helper.go\<close>): the keys and
  values that are written, the choice of the stack delta bucket, the error counters, and the
  pool of workers that makes the updates of the nested maps.

  The maps themselves are the kernel's, reached through the cilium library: their operations are
  the record \<open>kops\<close>, an argument. A key or value handed over as an unsafe pointer is the
  value behind it (\<open>kkey\<close>, \<open>kval\<close>).

  The lemmas show that a key of the page trie matches exactly the addresses of its prefix in its
  process, that the bias encoding can be undone, that a bucket has room for the deltas it
  is chosen for, that the pages of a file partition its deltas, and that updates of one
  file are made in the order in which they were requested.
\<close>

unbundle bit_operations_syntax

section \<open>Constants and data\<close>

definition ProgUnwindNative :: u8 where [simp]: "ProgUnwindNative = 0x1"
definition DeltaCommandFlag :: u16 where [simp]: "DeltaCommandFlag = 0x8000"
definition MergeOpcodeNegative :: u8 where [simp]: "MergeOpcodeNegative = 0x80"
definition BitWidthPID :: u32 where [simp]: "BitWidthPID = 0x20"
definition BitWidthPage :: u32 where [simp]: "BitWidthPage = 0x40"
definition StackDeltaBucketSmallest :: nat where [simp]: "StackDeltaBucketSmallest = 0x8"
definition StackDeltaBucketLargest :: nat where [simp]: "StackDeltaBucketLargest = 0x17"
definition StackDeltaPageBits :: nat where [simp]: "StackDeltaPageBits = 0x10"
definition StackDeltaPageMask :: u64 where [simp]: "StackDeltaPageMask = 0xffff"

type_synonym FileID = u64
type_synonym PID = u32

record PIDPage =
  pp_PrefixLen :: u32
  pp_Pid :: u32
  pp_Page :: u64

record PIDPageMappingInfo =
  pm_File_id :: u64
  pm_Bias_and_unwind_program :: u64

record StackDeltaEBPF =
  se_AddressLow :: u16
  se_UnwindInfo :: u16

record StackDeltaPageInfo =
  pi_FirstDelta :: u32
  pi_NumDeltas :: u16
  pi_MapID :: u16

record StackDeltaPageKey =
  pk_FileID :: u64
  pk_Page :: u64

record Range =
  rg_Start :: u64
  rg_End :: u64

record OffsetRange =
  or_Lower_offset1 :: u64
  or_Upper_offset1 :: u64
  or_Lower_offset2 :: u64
  or_Upper_offset2 :: u64
  or_Program_index :: u16

datatype kkey = KPidPage PIDPage | KPage StackDeltaPageKey | KU32 u32 | KU64 u64

datatype kval = VMapping PIDPageMappingInfo | VPage StackDeltaPageInfo | VInfo UnwindInfo
  | VOffsets OffsetRange | VData "byte list" | VFd u32 | VU64 u64 | VDelta StackDeltaEBPF

datatype updflag = UpdateAny | UpdateNoExist

datatype ebpferr = ErrKernel nat | ErrBias | ErrRanges | ErrInterpType | ErrMapFull | ErrNoMap
  | ErrMapID | ErrNegativeCount | ErrRlimit nat | ErrJoin ebpferr ebpferr | ErrWrap ebpferr | ErrIDLength
  | ErrBatchCount int int

record 'm kops =
  km_Update :: "kkey \<Rightarrow> kval \<Rightarrow> updflag \<Rightarrow> 'm \<Rightarrow> ebpferr option \<times> 'm"
  km_Delete :: "kkey \<Rightarrow> 'm \<Rightarrow> ebpferr option \<times> 'm"
  km_Lookup :: "kkey \<Rightarrow> 'm \<Rightarrow> ebpferr + kval"
  km_BatchUpdate :: "kkey list \<Rightarrow> kval list \<Rightarrow> updflag \<Rightarrow> 'm \<Rightarrow> (int \<times> ebpferr option) \<times> 'm"
  km_BatchDelete :: "kkey list \<Rightarrow> 'm \<Rightarrow> (int \<times> ebpferr option) \<times> 'm"
  km_MaxEntries :: "'m \<Rightarrow> u32"
  km_MaximizeMemlock :: "ebpferr option"
  km_NewMap :: "nat \<Rightarrow> ebpferr + 'm"
  km_NewProbeMap :: "bool \<Rightarrow> nat \<Rightarrow> ebpferr + 'm"
  km_Clone :: "'m \<Rightarrow> ebpferr + 'm"

section \<open>Encodings\<close>

text \<open>\<open>bits.ReverseBytes32\<close> and \<open>bits.ReverseBytes64\<close>, byte by byte.\<close>

definition byte_of :: "nat \<Rightarrow> 'a::len word \<Rightarrow> byte" where
  "byte_of i w = ucast (drop_bit (8 * i) w)"

definition ReverseBytes32 :: "u32 \<Rightarrow> u32" where
  "ReverseBytes32 w = push_bit 24 (ucast (byte_of 0 w)) OR push_bit 16 (ucast (byte_of 1 w)) OR
     push_bit 8 (ucast (byte_of 2 w)) OR ucast (byte_of 3 w)"

definition ReverseBytes64 :: "u64 \<Rightarrow> u64" where
  "ReverseBytes64 w = push_bit 56 (ucast (byte_of 0 w)) OR push_bit 48 (ucast (byte_of 1 w)) OR
     push_bit 40 (ucast (byte_of 2 w)) OR push_bit 32 (ucast (byte_of 3 w)) OR
     push_bit 24 (ucast (byte_of 4 w)) OR push_bit 16 (ucast (byte_of 5 w)) OR
     push_bit 8 (ucast (byte_of 6 w)) OR ucast (byte_of 7 w)"

definition getPIDPage :: "PID \<Rightarrow> u64 \<Rightarrow> u32 \<Rightarrow> PIDPage" where
  "getPIDPage pid key len =
     \<lparr>pp_PrefixLen = BitWidthPID + len, pp_Pid = ReverseBytes32 pid, pp_Page = ReverseBytes64 key\<rparr>"

definition getPIDPageFromPrefix :: "PID \<Rightarrow> Prefix \<Rightarrow> PIDPage" where
  "getPIDPageFromPrefix pid prefix = getPIDPage pid (pf_Key prefix) (pf_Length prefix)"

definition EncodeBiasAndUnwindProgram :: "u64 \<Rightarrow> u8 \<Rightarrow> ebpferr + u64" where
  "EncodeBiasAndUnwindProgram bias unwindProgram =
     (if drop_bit 56 bias > 0 then Inl ErrBias else Inr (bias OR push_bit 56 (ucast unwindProgram)))"

definition DecodeBiasAndUnwindProgram :: "u64 \<Rightarrow> u64 \<times> u8" where
  "DecodeBiasAndUnwindProgram b = (b AND 0x00FFFFFFFFFFFFFF, ucast (drop_bit 56 b))"

definition InterpreterOffsetKeyValue :: "u16 \<Rightarrow> FileID \<Rightarrow> Range list \<Rightarrow> ebpferr + u64 \<times> OffsetRange" where
  "InterpreterOffsetKeyValue ebpfProgIndex fileID offsetRanges =
     (let rLen = length offsetRanges
      in if rLen < 1 \<or> rLen > 2 then Inl ErrRanges
         else
           let first = offsetRanges ! 0;
               value = \<lparr>or_Lower_offset1 = rg_Start first, or_Upper_offset1 = rg_End first,
                        or_Lower_offset2 = 0, or_Upper_offset2 = 0, or_Program_index = ebpfProgIndex\<rparr>;
               value = (if rLen = 2
                        then value\<lparr>or_Lower_offset2 := rg_Start (offsetRanges ! 1),
                                   or_Upper_offset2 := rg_End (offsetRanges ! 1)\<rparr>
                        else value)
           in Inr (fileID, value))"

definition FileIDFromBytes :: "byte list \<Rightarrow> ebpferr + FileID" where
  "FileIDFromBytes b =
     (if length b \<noteq> 8 then Inl ErrIDLength else Inr (word_of_nat (le_nat (rev b))))"

text \<open>\<open>32 - bits.LeadingZeros32(n)\<close> is the number of significant bits.\<close>

definition getMapID :: "u32 \<Rightarrow> ebpferr + u16" where
  "getMapID numDeltas =
     (let significantBits = bitlen (unat numDeltas)
      in if significantBits \<le> StackDeltaBucketSmallest then Inr (word_of_nat StackDeltaBucketSmallest)
         else if significantBits > StackDeltaBucketLargest then Inl ErrNoMap
         else Inr (word_of_nat significantBits))"

section \<open>The update pool\<close>

text \<open>
  A request for a nested map: the outer map (its number), the file and the inner map, or none
  for a deletion. A worker is the list of requests in its queue; a full queue blocks the
  sender until a worker takes a request, so that the requests of one sender are appended in the
  order in which it makes them.
\<close>

record 'm asyncMapInMapUpdate =
  am_Outer :: nat
  am_FileID :: FileID
  am_Inner :: "'m option"

type_synonym 'm pool = "'m asyncMapInMapUpdate list list"

definition updatePoolWorkers :: nat where [simp]: "updatePoolWorkers = 16"

definition newAsyncMapUpdaterPool :: "nat \<Rightarrow> 'm pool" where
  "newAsyncMapUpdaterPool numWorkers = replicate numWorkers []"

text \<open>\<open>EnqueueUpdate\<close>; \<open>done\<close> is whether the context is cancelled. A pool without workers would panic.\<close>

definition EnqueueUpdate ::
  "bool \<Rightarrow> nat \<Rightarrow> FileID \<Rightarrow> 'm option \<Rightarrow> 'm pool \<Rightarrow> 'm pool option" where
  "EnqueueUpdate cancelled outer fileID inner p =
     (if p = [] then None
      else let w = unat fileID mod length p
           in if cancelled then Some p
              else Some (p[w := p ! w @ [\<lparr>am_Outer = outer, am_FileID = fileID, am_Inner = inner\<rparr>]]))"

text \<open>One iteration of \<open>serve\<close>: take a request and update the outer map; errors are only logged.\<close>

definition apply_update ::
  "'m kops \<Rightarrow> ('m \<Rightarrow> u32) \<Rightarrow> 'm asyncMapInMapUpdate \<Rightarrow> 'm list \<Rightarrow> 'm list" where
  "apply_update k fd u outers =
     (if am_Outer u < length outers then
        (case am_Inner u of
           None \<Rightarrow> outers[am_Outer u := snd (km_Delete k (KU64 (am_FileID u)) (outers ! am_Outer u))]
         | Some inner \<Rightarrow>
             outers[am_Outer u := snd (km_Update k (KU64 (am_FileID u)) (VFd (fd inner)) UpdateNoExist
                                        (outers ! am_Outer u))])
      else outers)"

definition serve_one :: "nat \<Rightarrow> 'm pool \<Rightarrow> ('m asyncMapInMapUpdate \<times> 'm pool) option" where
  "serve_one w p =
     (if w < length p then
        (case p ! w of [] \<Rightarrow> None | u # us \<Rightarrow> Some (u, p[w := us]))
      else None)"

text \<open>The end of \<open>serve\<close> after cancellation: the queue is emptied and its inner maps are closed, unused.\<close>

definition serve_drain :: "nat \<Rightarrow> 'm pool \<Rightarrow> 'm pool" where
  "serve_drain w p = p[w := []]"

section \<open>The maps\<close>

datatype MetricID = IDUnwindInfoArrayUpdate | IDExeIDToStackDeltasBatchUpdate
  | IDStackDeltaPageToInfoBatchUpdate | IDStackDeltaPageToInfoDelete | IDPidPageToMappingInfoUpdate
  | IDPidPageToMappingInfoDelete | IDPidPageToMappingInfoBatchDelete

record 'm ebpfMapsImpl =
  im_InterpreterOffsets :: 'm
  im_PyProcs :: 'm
  im_ExeIDToStackDeltaMaps :: "'m list"
  im_StackDeltaPageToInfo :: 'm
  im_PidPageToMappingInfo :: 'm
  im_UnwindInfoArray :: 'm
  im_ReportedPIDs :: 'm
  im_errCounter :: "MetricID \<Rightarrow> u64"
  im_hasLPMTrieBatchOperations :: bool
  im_updateWorkers :: "'m pool"
  im_ctxDone :: bool

type_synonym 'm impl = "'m ebpfMapsImpl"

definition trackMapError :: "MetricID \<Rightarrow> ebpferr option \<Rightarrow> 'm impl \<Rightarrow> ebpferr option \<times> 'm impl" where
  "trackMapError mid err impl =
     (err, if err \<noteq> None then impl\<lparr>im_errCounter := (im_errCounter impl)(mid := im_errCounter impl mid + 1)\<rparr>
           else impl)"

text \<open>\<open>CollectMetrics\<close> reports the counters that are not zero and clears them.\<close>

definition CollectMetrics :: "'m impl \<Rightarrow> (MetricID \<Rightarrow> u64) \<times> 'm impl" where
  "CollectMetrics impl = (im_errCounter impl, impl\<lparr>im_errCounter := (\<lambda>_. 0)\<rparr>)"

definition UpdateInterpreterOffsets ::
  "'m kops \<Rightarrow> u16 \<Rightarrow> FileID \<Rightarrow> Range list \<Rightarrow> 'm impl \<Rightarrow> ebpferr option \<times> 'm impl" where
  "UpdateInterpreterOffsets k ebpfProgIndex fileID offsetRanges impl =
     (case InterpreterOffsetKeyValue ebpfProgIndex fileID offsetRanges of
        Inl e \<Rightarrow> (Some e, impl)
      | Inr (key, value) \<Rightarrow>
          let (err, m) = km_Update k (KU64 key) (VOffsets value) UpdateAny (im_InterpreterOffsets impl)
          in (map_option ErrWrap err, impl\<lparr>im_InterpreterOffsets := m\<rparr>))"

datatype InterpreterType = Interp_Python | Interp_Other nat

definition getInterpreterTypeMap :: "InterpreterType \<Rightarrow> 'm impl \<Rightarrow> ebpferr + 'm" where
  "getInterpreterTypeMap typ impl =
     (case typ of Interp_Python \<Rightarrow> Inr (im_PyProcs impl) | Interp_Other _ \<Rightarrow> Inl ErrInterpType)"

definition UpdateProcData ::
  "'m kops \<Rightarrow> InterpreterType \<Rightarrow> PID \<Rightarrow> byte list \<Rightarrow> 'm impl \<Rightarrow> ebpferr option \<times> 'm impl" where
  "UpdateProcData k typ pid data impl =
     (case getInterpreterTypeMap typ impl of
        Inl e \<Rightarrow> (Some e, impl)
      | Inr ebpfMap \<Rightarrow>
          let (err, m) = km_Update k (KU32 pid) (VData data) UpdateAny ebpfMap
          in (map_option ErrWrap err, impl\<lparr>im_PyProcs := m\<rparr>))"

definition DeleteProcData :: "'m kops \<Rightarrow> InterpreterType \<Rightarrow> PID \<Rightarrow> 'm impl \<Rightarrow> ebpferr option \<times> 'm impl" where
  "DeleteProcData k typ pid impl =
     (case getInterpreterTypeMap typ impl of
        Inl e \<Rightarrow> (Some e, impl)
      | Inr ebpfMap \<Rightarrow>
          let (err, m) = km_Delete k (KU32 pid) ebpfMap
          in (map_option ErrWrap err, impl\<lparr>im_PyProcs := m\<rparr>))"

definition UpdatePidInterpreterMapping ::
  "'m kops \<Rightarrow> PID \<Rightarrow> Prefix \<Rightarrow> u8 \<Rightarrow> FileID \<Rightarrow> u64 \<Rightarrow> 'm impl \<Rightarrow> ebpferr option \<times> 'm impl" where
  "UpdatePidInterpreterMapping k pid prefix interpreterProgram fileID bias impl =
     (case EncodeBiasAndUnwindProgram bias interpreterProgram of
        Inl e \<Rightarrow> (Some e, impl)
      | Inr b \<Rightarrow>
          let (err, m) = km_Update k (KPidPage (getPIDPageFromPrefix pid prefix))
                (VMapping \<lparr>pm_File_id = fileID, pm_Bias_and_unwind_program = b\<rparr>) UpdateNoExist
                (im_PidPageToMappingInfo impl)
          in (err, impl\<lparr>im_PidPageToMappingInfo := m\<rparr>))"

definition DeletePidInterpreterMapping :: "'m kops \<Rightarrow> PID \<Rightarrow> Prefix \<Rightarrow> 'm impl \<Rightarrow> ebpferr option \<times> 'm impl" where
  "DeletePidInterpreterMapping k pid prefix impl =
     (let (err, m) = km_Delete k (KPidPage (getPIDPageFromPrefix pid prefix)) (im_PidPageToMappingInfo impl)
      in (err, impl\<lparr>im_PidPageToMappingInfo := m\<rparr>))"

section \<open>Probing batch operations\<close>

text \<open>The keys and values of the probe; 32-bit keys for arrays, 64-bit keys otherwise.\<close>

definition generateSlice :: "(u64 \<Rightarrow> 'k) \<Rightarrow> nat \<Rightarrow> 'k list" where
  "generateSlice mk num = map (\<lambda>i. mk (word_of_nat i)) [0 ..< num]"

definition probeBatchOperationsInner :: "'m kops \<Rightarrow> 'm \<Rightarrow> kkey list \<Rightarrow> kval list \<Rightarrow> ebpferr option" where
  "probeBatchOperationsInner k probeMap keys values =
     (case km_BatchUpdate k keys values UpdateAny probeMap of
        ((_, Some e), _) \<Rightarrow> Some e
      | ((n, None), probeMap) \<Rightarrow>
          if n \<noteq> int (length keys) then Some (ErrBatchCount (int (length keys)) n)
          else (case km_BatchDelete k keys probeMap of
                  ((_, Some e), _) \<Rightarrow> Some e
                | ((m, None), _) \<Rightarrow>
                    if m \<noteq> int (length keys) then Some (ErrBatchCount (int (length keys)) m) else None))"

definition probeMapOperations ::
  "'m kops \<Rightarrow> bool \<Rightarrow> ('m \<Rightarrow> kkey list \<Rightarrow> kval list \<Rightarrow> ebpferr option) \<Rightarrow> ebpferr option" where
  "probeMapOperations k isArray probe =
     (case km_MaximizeMemlock k of
        Some e \<Rightarrow> Some (ErrWrap e)
      | None \<Rightarrow>
          (case km_NewProbeMap k isArray 5 of
             Inl e \<Rightarrow> Some (ErrWrap e)
           | Inr probeMap \<Rightarrow>
               probe probeMap (generateSlice (if isArray then KU32 \<circ> ucast else KU64) 5)
                 (generateSlice VU64 5)))"

definition probeBatchOperations :: "'m kops \<Rightarrow> bool \<Rightarrow> ebpferr option" where
  "probeBatchOperations k isArray = probeMapOperations k isArray (probeBatchOperationsInner k)"

definition SupportsLPMTrieBatchOperations :: "'m impl \<Rightarrow> bool" where
  "SupportsLPMTrieBatchOperations impl = im_hasLPMTrieBatchOperations impl"

section \<open>Stack deltas and mappings\<close>

text \<open>The number of the outer map for a bucket, if there is one.\<close>

definition getOuterMap :: "'m impl \<Rightarrow> u16 \<Rightarrow> nat option" where
  "getOuterMap impl mapID =
     (if unat mapID < StackDeltaBucketSmallest \<or> unat mapID > StackDeltaBucketLargest then None
      else Some (unat mapID - StackDeltaBucketSmallest))"

definition RemoveReportedPID :: "'m kops \<Rightarrow> PID \<Rightarrow> 'm impl \<Rightarrow> 'm impl" where
  "RemoveReportedPID k pid impl =
     impl\<lparr>im_ReportedPIDs := snd (km_Delete k (KU32 pid) (im_ReportedPIDs impl))\<rparr>"

definition UpdateUnwindInfo :: "'m kops \<Rightarrow> u16 \<Rightarrow> UnwindInfo \<Rightarrow> 'm impl \<Rightarrow> ebpferr option \<times> 'm impl" where
  "UpdateUnwindInfo k index value impl =
     (if (ucast index :: u32) \<ge> km_MaxEntries k (im_UnwindInfoArray impl) then (Some ErrMapFull, impl)
      else let (err, m) = km_Update k (KU32 (ucast index)) (VInfo value) UpdateAny (im_UnwindInfoArray impl)
           in trackMapError IDUnwindInfoArrayUpdate err (impl\<lparr>im_UnwindInfoArray := m\<rparr>))"

text \<open>
  \<open>UpdateExeIDToStackDeltas\<close>: the request for the outer map is queued before the inner map is
  filled, and stays queued when filling it fails. The result of the inner map's update is
  visible through the clone, which is the same kernel object.
\<close>

definition UpdateExeIDToStackDeltas ::
  "'m kops \<Rightarrow> FileID \<Rightarrow> StackDeltaEBPF list \<Rightarrow> 'm impl \<Rightarrow> ((ebpferr + u16) \<times> 'm impl) option" where
  "UpdateExeIDToStackDeltas k fileID deltas impl =
     (case getMapID (word_of_nat (length deltas)) of
        Inl e \<Rightarrow> Some (Inl e, impl)
      | Inr mapID \<Rightarrow>
          (case km_MaximizeMemlock k of
             Some e \<Rightarrow> Some (Inl (ErrWrap e), impl)
           | None \<Rightarrow>
               (case km_NewMap k (2 ^ unat mapID) of
                  Inl e \<Rightarrow> Some (Inl (ErrWrap e), impl)
                | Inr innerMap \<Rightarrow>
                    (case km_Clone k innerMap of
                       Inl e \<Rightarrow> Some (Inl (ErrWrap e), impl)
                     | Inr innerMapCloned \<Rightarrow> do {
                         outer \<leftarrow> getOuterMap impl mapID;
                         workers \<leftarrow> EnqueueUpdate (im_ctxDone impl) outer fileID (Some innerMapCloned)
                                      (im_updateWorkers impl);
                         let impl = impl\<lparr>im_updateWorkers := workers\<rparr>;
                         let ((_, err), _) = km_BatchUpdate k
                               (map (\<lambda>i. KU32 (word_of_nat i)) [0 ..< length deltas])
                               (map VDelta deltas) UpdateAny innerMap;
                         Some (case err of
                                 Some e \<Rightarrow>
                                   let (_, impl) = trackMapError IDExeIDToStackDeltasBatchUpdate (Some e) impl
                                   in (Inl (ErrWrap e), impl)
                               | None \<Rightarrow> (Inr mapID, impl)) }))))"

definition DeleteExeIDToStackDeltas ::
  "FileID \<Rightarrow> u16 \<Rightarrow> 'm impl \<Rightarrow> (ebpferr option \<times> 'm impl) option" where
  "DeleteExeIDToStackDeltas fileID mapID impl =
     (case getOuterMap impl mapID of
        None \<Rightarrow> Some (Some ErrMapID, impl)
      | Some outer \<Rightarrow> do {
          workers \<leftarrow> EnqueueUpdate (im_ctxDone impl) outer fileID None (im_updateWorkers impl);
          Some (None, impl\<lparr>im_updateWorkers := workers\<rparr>) })"

text \<open>The loop of \<open>UpdateStackDeltaPages\<close> that prepares the keys and values.\<close>

fun page_entries ::
  "FileID \<Rightarrow> u16 \<Rightarrow> u64 \<Rightarrow> nat \<Rightarrow> u32 \<Rightarrow> u16 list \<Rightarrow> (StackDeltaPageKey \<times> StackDeltaPageInfo) list" where
  "page_entries fileID mapID firstPageAddr pageNumber firstDelta [] = []"
| "page_entries fileID mapID firstPageAddr pageNumber firstDelta (numDeltas # rest) =
     (\<lparr>pk_FileID = fileID, pk_Page = firstPageAddr + push_bit StackDeltaPageBits (word_of_nat pageNumber)\<rparr>,
      \<lparr>pi_FirstDelta = firstDelta, pi_NumDeltas = numDeltas, pi_MapID = mapID\<rparr>)
     # page_entries fileID mapID firstPageAddr (pageNumber + 1) (firstDelta + ucast numDeltas) rest"

definition UpdateStackDeltaPages ::
  "'m kops \<Rightarrow> FileID \<Rightarrow> u16 list \<Rightarrow> u16 \<Rightarrow> u64 \<Rightarrow> 'm impl \<Rightarrow> ebpferr option \<times> 'm impl" where
  "UpdateStackDeltaPages k fileID numDeltasPerPage mapID firstPageAddr impl =
     (let es = page_entries fileID mapID firstPageAddr 0 0 numDeltasPerPage;
          ((_, err), m) = km_BatchUpdate k (map (KPage \<circ> fst) es) (map (VPage \<circ> snd) es) UpdateNoExist
            (im_StackDeltaPageToInfo impl)
      in trackMapError IDStackDeltaPageToInfoBatchUpdate err (impl\<lparr>im_StackDeltaPageToInfo := m\<rparr>))"

definition DeleteStackDeltaPage :: "'m kops \<Rightarrow> FileID \<Rightarrow> u64 \<Rightarrow> 'm impl \<Rightarrow> ebpferr option \<times> 'm impl" where
  "DeleteStackDeltaPage k fileID page impl =
     (let (err, m) = km_Delete k (KPage \<lparr>pk_FileID = fileID, pk_Page = page\<rparr>) (im_StackDeltaPageToInfo impl)
      in trackMapError IDStackDeltaPageToInfoDelete err (impl\<lparr>im_StackDeltaPageToInfo := m\<rparr>))"

definition UpdatePidPageMappingInfo ::
  "'m kops \<Rightarrow> PID \<Rightarrow> Prefix \<Rightarrow> u64 \<Rightarrow> u64 \<Rightarrow> 'm impl \<Rightarrow> ebpferr option \<times> 'm impl" where
  "UpdatePidPageMappingInfo k pid prefix fileID bias impl =
     (case EncodeBiasAndUnwindProgram bias ProgUnwindNative of
        Inl e \<Rightarrow> (Some e, impl)
      | Inr b \<Rightarrow>
          let (err, m) = km_Update k (KPidPage (getPIDPageFromPrefix pid prefix))
                (VMapping \<lparr>pm_File_id = fileID, pm_Bias_and_unwind_program = b\<rparr>) UpdateAny
                (im_PidPageToMappingInfo impl)
          in trackMapError IDPidPageToMappingInfoUpdate err (impl\<lparr>im_PidPageToMappingInfo := m\<rparr>))"

definition join_err :: "ebpferr option \<Rightarrow> ebpferr option \<Rightarrow> ebpferr option" where
  "join_err a b = (case (a, b) of (None, e) \<Rightarrow> e | (e, None) \<Rightarrow> e | (Some x, Some y) \<Rightarrow> Some (ErrJoin x y))"

fun DeletePidPageMappingInfoSingle ::
  "'m kops \<Rightarrow> PID \<Rightarrow> Prefix list \<Rightarrow> 'm impl \<Rightarrow> (u64 \<times> ebpferr option) \<times> 'm impl" where
  "DeletePidPageMappingInfoSingle k pid [] impl = ((0, None), impl)"
| "DeletePidPageMappingInfoSingle k pid (prefix # prefixes) impl =
     (let (err, m) = km_Delete k (KPidPage (getPIDPageFromPrefix pid prefix)) (im_PidPageToMappingInfo impl);
          (_, impl) = trackMapError IDPidPageToMappingInfoDelete err (impl\<lparr>im_PidPageToMappingInfo := m\<rparr>);
          ((deleted, errs), impl) = DeletePidPageMappingInfoSingle k pid prefixes impl
      in ((if err = None then deleted + 1 else deleted, join_err err errs), impl))"

definition DeletePidPageMappingInfoBatch ::
  "'m kops \<Rightarrow> PID \<Rightarrow> Prefix list \<Rightarrow> 'm impl \<Rightarrow> (u64 \<times> ebpferr option) \<times> 'm impl" where
  "DeletePidPageMappingInfoBatch k pid prefixes impl =
     (let ((deleted, err), m) = km_BatchDelete k (map (KPidPage \<circ> getPIDPageFromPrefix pid) prefixes)
            (im_PidPageToMappingInfo impl);
          (deleted, err) = (if deleted < 0 then (0, join_err err (Some ErrNegativeCount)) else (deleted, err));
          (err, impl) = trackMapError IDPidPageToMappingInfoBatchDelete err (impl\<lparr>im_PidPageToMappingInfo := m\<rparr>)
      in ((word_of_int deleted, err), impl))"

definition DeletePidPageMappingInfo ::
  "'m kops \<Rightarrow> PID \<Rightarrow> Prefix list \<Rightarrow> 'm impl \<Rightarrow> (u64 \<times> ebpferr option) \<times> 'm impl" where
  "DeletePidPageMappingInfo k pid prefixes impl =
     (if im_hasLPMTrieBatchOperations impl then
        (case DeletePidPageMappingInfoBatch k pid prefixes impl of
           ((deleted, Some e), impl) \<Rightarrow>
             (case DeletePidPageMappingInfoSingle k pid prefixes impl of
                ((deleted2, _), impl) \<Rightarrow> ((deleted + deleted2, Some e), impl))
         | ((deleted, None), impl) \<Rightarrow> ((deleted, None), impl))
      else DeletePidPageMappingInfoSingle k pid prefixes impl)"

definition LookupPidPageInformation ::
  "'m kops \<Rightarrow> PID \<Rightarrow> u64 \<Rightarrow> 'm impl \<Rightarrow> ebpferr + FileID \<times> u64" where
  "LookupPidPageInformation k pid page impl =
     (case km_Lookup k (KPidPage (getPIDPage pid page BitWidthPage)) (im_PidPageToMappingInfo impl) of
        Inl e \<Rightarrow> Inl (ErrWrap e)
      | Inr (VMapping v) \<Rightarrow> Inr (pm_File_id v, fst (DecodeBiasAndUnwindProgram (pm_Bias_and_unwind_program v)))
      | Inr _ \<Rightarrow> Inr (0, 0))"

section \<open>Trie keys\<close>

text \<open>
  The bytes of a key in memory, on a little-endian machine, and its bits in the order in which the
  kernel's trie compares them: from the most significant bit of the first byte on.
\<close>

definition msb_bits :: "byte \<Rightarrow> bool list" where
  "msb_bits b = map (\<lambda>j. bit b (7 - j)) [0 ..< 8]"

definition key_bits :: "PIDPage \<Rightarrow> bool list" where
  "key_bits p = concat (map (\<lambda>i. msb_bits (byte_of i (pp_Pid p))) [0 ..< 4]) @
     concat (map (\<lambda>i. msb_bits (byte_of i (pp_Page p))) [0 ..< 8])"

text \<open>The entry \<open>prefix\<close> of the trie matches the looked up key.\<close>

definition trie_match :: "PIDPage \<Rightarrow> PIDPage \<Rightarrow> bool" where
  "trie_match prefix key \<longleftrightarrow>
     take (unat (pp_PrefixLen prefix)) (key_bits prefix) = take (unat (pp_PrefixLen prefix)) (key_bits key)"

lemma bit_byte_of: "bit (byte_of i w) j \<longleftrightarrow> j < 8 \<and> bit w (8 * i + j)" for w :: "'a::len word"
  by (auto simp: byte_of_def bit_simps dest: bit_imp_le_length)

lemma byte_of_Reverse32:
  "byte_of 0 (ReverseBytes32 w) = byte_of 3 w" "byte_of (Suc 0) (ReverseBytes32 w) = byte_of 2 w"
  "byte_of 2 (ReverseBytes32 w) = byte_of 1 w" "byte_of 3 (ReverseBytes32 w) = byte_of 0 w"
  by (rule bit_word_eqI; auto simp: bit_byte_of ReverseBytes32_def bit_simps)+

lemma byte_of_Reverse64:
  "byte_of 0 (ReverseBytes64 w) = byte_of 7 w" "byte_of (Suc 0) (ReverseBytes64 w) = byte_of 6 w"
  "byte_of 2 (ReverseBytes64 w) = byte_of 5 w" "byte_of 3 (ReverseBytes64 w) = byte_of 4 w"
  "byte_of 4 (ReverseBytes64 w) = byte_of 3 w" "byte_of 5 (ReverseBytes64 w) = byte_of 2 w"
  "byte_of 6 (ReverseBytes64 w) = byte_of 1 w" "byte_of 7 (ReverseBytes64 w) = byte_of 0 w"
  by (rule bit_word_eqI; auto simp: bit_byte_of ReverseBytes64_def bit_simps)+

lemma key_bits_getPIDPage:
  "key_bits (getPIDPage pid key len) =
     map (\<lambda>j. bit pid (31 - j)) [0 ..< 32] @ map (\<lambda>j. bit key (63 - j)) [0 ..< 64]"
  by (simp add: key_bits_def getPIDPage_def msb_bits_def upt_rec byte_of_Reverse32 byte_of_Reverse64)
    (simp add: bit_byte_of ReverseBytes32_def ReverseBytes64_def bit_simps numeral_2_eq_2)

lemma drop_bit_eq_iff:
  fixes a b :: u64
  assumes "n \<le> 64"
  shows "drop_bit (64 - n) a = drop_bit (64 - n) b \<longleftrightarrow> (\<forall>j < n. bit a (63 - j) = bit b (63 - j))"
proof
  assume eq: "drop_bit (64 - n) a = drop_bit (64 - n) b"
  show "\<forall>j < n. bit a (63 - j) = bit b (63 - j)"
  proof (intro allI impI)
    fix j assume j: "j < n"
    then have "63 - j = (64 - n) + (n - 1 - j)" using assms by simp
    then show "bit a (63 - j) = bit b (63 - j)"
      using arg_cong [OF eq, of "\<lambda>w. bit w (n - 1 - j)"] by (simp add: bit_drop_bit_eq)
  qed
next
  assume all: "\<forall>j < n. bit a (63 - j) = bit b (63 - j)"
  show "drop_bit (64 - n) a = drop_bit (64 - n) b"
  proof (rule bit_word_eqI)
    fix i assume "i < LENGTH(64)"
    show "bit (drop_bit (64 - n) a) i = bit (drop_bit (64 - n) b) i"
    proof (cases "i < n")
      case True
      then have e: "64 - n + i = 63 - (n - 1 - i)" using assms by simp
      have "n - 1 - i < n" using True by simp
      from all [rule_format, OF this] show ?thesis by (simp only: bit_drop_bit_eq comp_apply e)
    next
      case False
      then show ?thesis
        using bit_imp_le_length [of a "64 - n + i"] bit_imp_le_length [of b "64 - n + i"] by (auto simp: bit_drop_bit_eq)
    qed
  qed
qed

text \<open>
  A key of the page trie stands for its process and its address block: the entry written for
  a prefix matches the lookup of an address in a process exactly when the process is the same and
  the address lies in the block that the prefix describes (for prefixes of at most 64 bits).
\<close>

theorem pid_page_key_matches:
  assumes "unat (pf_Length prefix) \<le> 64"
  shows "trie_match (getPIDPageFromPrefix pid prefix) (getPIDPage pid' addr BitWidthPage) \<longleftrightarrow>
    pid = pid' \<and> prefix_matches prefix addr"
proof -
  let ?n = "unat (pf_Length prefix)"
  have plen: "unat (pp_PrefixLen (getPIDPageFromPrefix pid prefix)) = 32 + ?n"
    using assms by (simp add: getPIDPageFromPrefix_def getPIDPage_def unat_word_ariths)
  have pid: "(\<forall>x \<in> {0 ..< 32}. bit pid (31 - x) = bit pid' (31 - x)) \<longleftrightarrow> pid = pid'"
  proof
    assume eq: "\<forall>x \<in> {0 ..< 32}. bit pid (31 - x) = bit pid' (31 - x)"
    show "pid = pid'"
    proof (rule bit_word_eqI)
      fix i assume "i < LENGTH(32)"
      then have "31 - (31 - i) = i" "31 - i \<in> {0 ..< 32}" by simp_all
      then show "bit pid i = bit pid' i" using eq by metis
    qed
  qed simp
  have "take ?n (map (\<lambda>j. bit k (63 - j)) [0 ..< 64]) = map (\<lambda>j. bit k (63 - j)) [0 ..< ?n]" for k :: u64
    using assms by (simp add: take_map take_upt)
  then have "trie_match (getPIDPageFromPrefix pid prefix) (getPIDPage pid' addr BitWidthPage) \<longleftrightarrow>
      pid = pid' \<and> map (\<lambda>j. bit (pf_Key prefix) (63 - j)) [0 ..< ?n] = map (\<lambda>j. bit addr (63 - j)) [0 ..< ?n]"
    unfolding trie_match_def plen
    by (simp add: getPIDPageFromPrefix_def key_bits_getPIDPage pid del: upt_conv_Cons)
  also have "\<dots> \<longleftrightarrow> pid = pid' \<and> prefix_matches prefix addr"
    using drop_bit_eq_iff [OF assms, of addr "pf_Key prefix"]
    by (auto simp: prefix_matches_def)
  finally show ?thesis .
qed

theorem pid_page_key_matches_witness:
  "trie_match (getPIDPageFromPrefix 42 (block_prefix 0x1000 12)) (getPIDPage 42 0x1abc BitWidthPage) \<and>
   \<not> trie_match (getPIDPageFromPrefix 42 (block_prefix 0x1000 12)) (getPIDPage 42 0x2000 BitWidthPage)"
proof -
  have len: "unat (pf_Length (block_prefix 0x1000 12)) \<le> 64" by (simp add: block_prefix_def)
  show ?thesis
    using pid_page_key_matches [OF len] by (simp add: prefix_matches_def block_prefix_def drop_bit_eq_div)
qed

text \<open>
  The bias and the unwind program of a mapping are read back as they were encoded; a bias of
  more than 56 bits is refused.
\<close>

theorem bias_roundtrip:
  "(drop_bit 56 bias = 0 \<longrightarrow> (\<exists>b. EncodeBiasAndUnwindProgram bias prog = Inr b \<and>
      DecodeBiasAndUnwindProgram b = (bias, prog))) \<and>
   (drop_bit 56 bias \<noteq> 0 \<longrightarrow> EncodeBiasAndUnwindProgram bias prog = Inl ErrBias)"
proof -
  have m: "(0x00FFFFFFFFFFFFFF :: u64) = mask 56" by (simp add: mask_eq_exp_minus_1)
  have "(bias OR push_bit 56 (ucast prog)) AND mask 56 = bias" "ucast (drop_bit 56 (bias OR push_bit 56 (ucast prog))) = prog"
    if z: "drop_bit 56 bias = 0"
  proof -
    have hi: "n < 56" if "bit bias n" for n
      using arg_cong [OF z, of "\<lambda>w. bit w (n - 56)"] that by (cases "n < 56") (simp_all add: bit_drop_bit_eq)
    then have lo: "\<not> bit bias (56 + n)" for n by force
    show "(bias OR push_bit 56 (ucast prog)) AND mask 56 = bias"
      by (rule bit_word_eqI) (auto simp: bit_simps dest: hi)
    show "ucast (drop_bit 56 (bias OR push_bit 56 (ucast prog))) = prog"
      by (rule bit_word_eqI) (auto simp: bit_simps lo)
  qed
  then show ?thesis
    by (auto simp: EncodeBiasAndUnwindProgram_def DecodeBiasAndUnwindProgram_def m word_gt_0)
qed

theorem bias_roundtrip_witness:
  "\<exists>b. EncodeBiasAndUnwindProgram 0x7f0000001000 ProgUnwindNative = Inr b \<and>
     DecodeBiasAndUnwindProgram b = (0x7f0000001000, ProgUnwindNative)"
  using bias_roundtrip [of "0x7f0000001000" ProgUnwindNative] by (simp add: drop_bit_eq_div)

section \<open>Buckets and pages\<close>

lemma bitlen_le_iff: "bitlen n \<le> k \<longleftrightarrow> n < 2 ^ k"
proof (induction k arbitrary: n)
  case 0
  then show ?case by (simp add: bitlen.simps)
next
  case (Suc k)
  then show ?case by (subst bitlen.simps) (auto simp: less_mult_imp_div_less mult.commute div_less_iff_less_mult)
qed

text \<open>
  The bucket chosen for a number of deltas exists, has room for all of them, and is the smallest
  that has; numbers that no bucket can hold, and only those, are refused.
\<close>

theorem getMapID_capacity:
  "(unat n < 2 ^ StackDeltaBucketLargest \<longrightarrow>
      (\<exists>m. getMapID n = Inr m \<and> StackDeltaBucketSmallest \<le> unat m \<and> unat m \<le> StackDeltaBucketLargest \<and>
        getOuterMap impl m = Some (unat m - StackDeltaBucketSmallest) \<and> unat n < 2 ^ unat m \<and>
        (StackDeltaBucketSmallest < unat m \<longrightarrow> 2 ^ (unat m - 1) \<le> unat n))) \<and>
   (2 ^ StackDeltaBucketLargest \<le> unat n \<longrightarrow> getMapID n = Inl ErrNoMap)"
proof (intro conjI impI)
  assume "unat n < 2 ^ StackDeltaBucketLargest"
  then have le: "bitlen (unat n) \<le> 23" by (simp add: bitlen_le_iff)
  let ?m = "word_of_nat (max 8 (bitlen (unat n))) :: u16"
  have m: "unat ?m = max 8 (bitlen (unat n))"
    using le by (simp add: unat_of_nat take_bit_nat_eq_self)
  have "getMapID n = Inr ?m" using le by (simp add: getMapID_def Let_def max_def)
  moreover have "unat n < 2 ^ unat ?m" unfolding m bitlen_le_iff [symmetric] by simp
  moreover have "2 ^ (unat ?m - 1) \<le> unat n" if "8 < unat ?m"
  proof -
    from that m have "\<not> bitlen (unat n) \<le> bitlen (unat n) - 1" "unat ?m = bitlen (unat n)" by auto
    then show ?thesis by (simp add: bitlen_le_iff)
  qed
  ultimately show "\<exists>m. getMapID n = Inr m \<and> StackDeltaBucketSmallest \<le> unat m \<and> unat m \<le> StackDeltaBucketLargest \<and>
        getOuterMap impl m = Some (unat m - StackDeltaBucketSmallest) \<and> unat n < 2 ^ unat m \<and>
        (StackDeltaBucketSmallest < unat m \<longrightarrow> 2 ^ (unat m - 1) \<le> unat n)"
    using le m by (intro exI [of _ ?m]) (simp add: getOuterMap_def)
next
  assume "2 ^ StackDeltaBucketLargest \<le> unat n"
  then have "\<not> bitlen (unat n) \<le> 23" by (simp add: bitlen_le_iff)
  then show "getMapID n = Inl ErrNoMap" by (simp add: getMapID_def Let_def)
qed

theorem getMapID_capacity_witness:
  "\<exists>m. getMapID 1000 = Inr m \<and> unat (1000 :: u32) < 2 ^ unat m"
  using getMapID_capacity [of 1000] by auto

lemma page_entries_nth:
  "i < length ns \<Longrightarrow> page_entries f m a p d ns ! i =
     (\<lparr>pk_FileID = f, pk_Page = a + push_bit StackDeltaPageBits (word_of_nat (p + i))\<rparr>,
      \<lparr>pi_FirstDelta = d + sum_list (map ucast (take i ns)), pi_NumDeltas = ns ! i, pi_MapID = m\<rparr>)"
  by (induction ns arbitrary: p d i) (auto simp: nth_Cons add.assoc add.left_commute split: nat.split)

lemma length_page_entries [simp]: "length (page_entries f m a p d ns) = length ns"
  by (induction ns arbitrary: p d) auto

lemma unat_sum_ucast:
  "sum_list (map unat ns) < 2 ^ 32 \<Longrightarrow> unat (sum_list (map ucast ns) :: u32) = sum_list (map unat ns)" for ns :: "u16 list"
proof (induction ns)
  case (Cons n ns)
  have "unat (ucast n :: u32) = unat n" by (simp add: unsigned_ucast_eq take_bit_nat_eq_self order_less_trans [OF unsigned_less])
  then show ?case using Cons by (simp add: unat_word_ariths)
qed simp

text \<open>
  The page entries written for a file describe consecutive runs of its delta array: the entry of page \<open>i\<close>
  starts where the deltas of the earlier pages stop, and has that page's address and count
  (as long as the counts do not add up to 32 bits).
\<close>

theorem page_entries_partition:
  assumes "sum_list (map unat ns) < 2 ^ 32" and "i < length ns"
  shows "let (key, info) = page_entries fileID mapID firstPage 0 0 ns ! i in
    pk_FileID key = fileID \<and> pk_Page key = firstPage + push_bit 16 (word_of_nat i) \<and> pi_MapID info = mapID \<and>
    unat (pi_FirstDelta info) = sum_list (map unat (take i ns)) \<and> pi_NumDeltas info = ns ! i \<and>
    (i + 1 < length ns \<longrightarrow>
       unat (pi_FirstDelta (snd (page_entries fileID mapID firstPage 0 0 ns ! (i + 1)))) =
       unat (pi_FirstDelta info) + unat (pi_NumDeltas info))"
proof -
  have le: "sum_list (map unat (take j ns)) < 2 ^ 32" for j
    using assms(1) by (metis append_take_drop_id le_add1 le_less_trans map_append sum_list_append)
  then have u: "unat (sum_list (map ucast (take j ns)) :: u32) = sum_list (map unat (take j ns))" for j
    by (rule unat_sum_ucast)
  have "sum_list (map unat (take (i + 1) ns)) = sum_list (map unat (take i ns)) + unat (ns ! i)"
    using assms(2) by (simp add: take_Suc_conv_app_nth)
  then show ?thesis using assms(2) u by (simp add: page_entries_nth)
qed

theorem page_entries_partition_witness:
  "pi_FirstDelta (snd (page_entries 7 8 0x10000 0 0 [3, 5, 2] ! 2)) = 8"
  using page_entries_partition [of "[3, 5, 2]" 2] by (simp add: word_unat_eq_iff)

section \<open>Order of updates\<close>

text \<open>
  The steps of the pool: a sender enqueues a request, or a worker executes the first request of its
  queue. The history is the list of all requests made and of all requests executed.
\<close>

inductive pool_step ::
  "'m pool \<times> 'm asyncMapInMapUpdate list \<times> 'm asyncMapInMapUpdate list \<Rightarrow>
   'm pool \<times> 'm asyncMapInMapUpdate list \<times> 'm asyncMapInMapUpdate list \<Rightarrow> bool" where
  enqueue: "EnqueueUpdate False outer fileID inner p = Some p' \<Longrightarrow>
     pool_step (p, req, exe) (p', req @ [\<lparr>am_Outer = outer, am_FileID = fileID, am_Inner = inner\<rparr>], exe)"
| serve: "serve_one w p = Some (u, p') \<Longrightarrow> pool_step (p, req, exe) (p', req, exe @ [u])"

definition of_file :: "FileID \<Rightarrow> 'm asyncMapInMapUpdate list \<Rightarrow> 'm asyncMapInMapUpdate list" where
  "of_file f us = filter (\<lambda>u. am_FileID u = f) us"

lemma of_file_simps [simp]:
  "of_file f [] = []" "of_file f (xs @ ys) = of_file f xs @ of_file f ys"
  "of_file f (u # us) = (if am_FileID u = f then u # of_file f us else of_file f us)"
  by (simp_all add: of_file_def)

text \<open>Requests are in the queue of their file's worker, and what was asked for is what was done followed by what is queued.\<close>

definition pool_inv ::
  "nat \<Rightarrow> 'm pool \<times> 'm asyncMapInMapUpdate list \<times> 'm asyncMapInMapUpdate list \<Rightarrow> bool" where
  "pool_inv n s = (case s of (p, req, exe) \<Rightarrow> length p = n \<and>
     (\<forall>w < n. \<forall>u \<in> set (p ! w). unat (am_FileID u) mod n = w) \<and>
     (\<forall>f. of_file f req = of_file f exe @ of_file f (p ! (unat f mod n))))"

lemma pool_step_inv:
  assumes "pool_step s s'" and "pool_inv n s" and "0 < n"
  shows "pool_inv n s'"
  using assms
proof (induction rule: pool_step.induct)
  case (enqueue outer fileID inner p p' req exe)
  let ?u = "\<lparr>am_Outer = outer, am_FileID = fileID, am_Inner = inner\<rparr>"
  have p: "p' = p[unat fileID mod n := p ! (unat fileID mod n) @ [?u]]" and n: "length p = n"
    using enqueue by (auto simp: EnqueueUpdate_def pool_inv_def Let_def split: if_splits)
  have lt: "unat fileID mod n < n" using enqueue.prems by simp
  have q: "p' ! w = (if w = unat fileID mod n then p ! w @ [?u] else p ! w)" if "w < n" for w
    using lt that n by (simp add: p nth_list_update)
  have m: "unat f mod n < n" for f :: FileID using enqueue.prems by simp
  show ?case using enqueue.prems n lt
    by (simp add: pool_inv_def q m) (auto simp: p)
next
  case (serve w p u p' req exe)
  then obtain us where w: "w < length p" "p ! w = u # us" and p: "p' = p[w := us]"
    by (auto simp: serve_one_def split: if_splits list.splits)
  then have f: "unat (am_FileID u) mod n = w" using serve.prems by (auto simp: pool_inv_def)
  have m: "unat g mod n < n" for g :: FileID using serve.prems by simp
  have q: "p' ! v = (if v = w then us else p ! v)" if "v < length p" for v
    using that w by (simp add: p nth_list_update)
  show ?case using serve.prems w f
    by (simp add: pool_inv_def q m) (auto simp: p)
qed

text \<open>
  C9: Updates of one file are made in the order in which they were requested: after any
  interleaving of senders and workers, the executed updates of the file are a prefix of the requested
  ones, and the rest is waiting, in order, in one queue.
\<close>

theorem updates_in_order:
  assumes "pool_step\<^sup>*\<^sup>* (newAsyncMapUpdaterPool updatePoolWorkers, [], []) (p, req, exe)"
  shows "of_file f req = of_file f exe @ of_file f (p ! (unat f mod updatePoolWorkers))"
proof -
  have "pool_inv 16 (newAsyncMapUpdaterPool updatePoolWorkers, [], [])"
    by (auto simp: pool_inv_def newAsyncMapUpdaterPool_def of_file_def nth_replicate)
  with assms have "pool_inv 16 (p, req, exe)"
    by (induction rule: rtranclp_induct) (auto intro: pool_step_inv)
  then show ?thesis by (simp add: pool_inv_def)
qed

theorem updates_in_order_witness:
  "\<exists>p req exe. pool_step\<^sup>*\<^sup>* (newAsyncMapUpdaterPool updatePoolWorkers, [], []) (p, req, exe) \<and>
     req = [\<lparr>am_Outer = 0, am_FileID = 17, am_Inner = Some True\<rparr>] \<and>
     of_file 17 req = of_file 17 exe @ of_file 17 (p ! 1)"
proof -
  let ?p = "newAsyncMapUpdaterPool updatePoolWorkers"
  obtain p' where "EnqueueUpdate False 0 17 (Some True) ?p = Some p'"
    by (auto simp: EnqueueUpdate_def newAsyncMapUpdaterPool_def Let_def)
  from pool_step.enqueue [OF this, of "[]" "[]"]
  have r: "pool_step\<^sup>*\<^sup>* (?p, [], []) (p', [\<lparr>am_Outer = 0, am_FileID = 17, am_Inner = Some True\<rparr>], [])" by simp
  have "unat (17 :: FileID) mod updatePoolWorkers = 1" by simp
  then have "of_file 17 [\<lparr>am_Outer = 0, am_FileID = 17, am_Inner = Some True\<rparr>] = of_file 17 [] @ of_file 17 (p' ! 1)"
    using updates_in_order [OF r, of 17] by (simp only:)
  with r show ?thesis by blast
qed

end
