(* ===== verification/SynthDeltas.thy ===== *)
theory SynthDeltas
  imports DeltaExtraction
begin

text \<open>
  Synthetic stack deltas for the arm64 vDSO (\<open>processmanager/execinfomanager/synthdeltas.go\<close>),
  which has no exception frames: the link register rule for the code of every dynamic symbol, a
  frame pointer rule between a matching \<open>STP\<close> and \<open>LDP\<close> of frame pointer and link
  register, and the signal rule for the return trampoline.

  Arguments: the instruction decoder, which gives the operation with the register numbers of the
  first two operands (\<open>arm.Xreg2num\<close>) and the immediate of the third (\<open>arm.DecodeImmediate\<close>);
  the dynamic symbols and the memory of the ELF file (\<open>pfelf\<close>).

  The lemmas show that the scan of a symbol ends, and that the deltas of a block start at its
  first byte, are in order and within the symbol.
\<close>

unbundle bit_operations_syntax

definition regFP :: int where [simp]: "regFP = 29"
definition regLR :: int where [simp]: "regLR = 30"

datatype vdso_op = VD_RET | VD_STP | VD_LDP | VD_Other

record arm_inst =
  ai_Op :: vdso_op
  ai_Reg0 :: "int option"
  ai_Reg1 :: "int option"
  ai_Imm2 :: "int64 option"

record Symbol =
  sy_Name :: string
  sy_Address :: u64
  sy_Size :: u64

record vdso_file =
  vd_file :: elf_file
  vd_DynamicSymbols :: "Symbol list"
  vd_ReadAt :: "nat \<Rightarrow> u64 \<Rightarrow> eherr + byte list"

type_synonym arm_decoder = "byte list \<Rightarrow> arm_inst option"

text \<open>Both operands are the frame pointer and the link register.\<close>

definition saves_frame :: "arm_inst \<Rightarrow> bool" where
  "saves_frame inst \<longleftrightarrow> ai_Reg0 inst = Some regFP \<and> ai_Reg1 inst = Some regLR"

definition frame_info :: "int64 \<Rightarrow> UnwindInfo" where
  "frame_info frameSize = UnwindInfo_zero\<lparr>ui_BaseReg := UnwindRegFp, ui_Param := ucast frameSize,
     ui_AuxBaseReg := UnwindRegFp, ui_AuxParam := 8\<rparr>"

text \<open>
  The loop over the instructions of a symbol. The offset is a \<open>uint32\<close>, so that it wraps around
  for a size just below \<open>2 ^ 32\<close>; then the fuel runs out and the result is \<open>None\<close>.
\<close>

fun unwind_loop ::
  "arm_decoder \<Rightarrow> byte list \<Rightarrow> u32 \<Rightarrow> nat \<Rightarrow> u32 \<Rightarrow> u32 \<Rightarrow> int64 \<Rightarrow> StackDeltaArray \<Rightarrow> StackDeltaArray option" where
  "unwind_loop dec code sz fuel offs frameStart frameSize deltas =
     (if offs < sz then
        (case fuel of
           0 \<Rightarrow> None
         | Suc fuel' \<Rightarrow>
             (case dec (drop (unat offs) code) of
                None \<Rightarrow> unwind_loop dec code sz fuel' (offs + 4) frameStart frameSize deltas
              | Some inst \<Rightarrow>
                  (case ai_Op inst of
                     VD_RET \<Rightarrow> Some deltas
                   | VD_STP \<Rightarrow>
                       (case ai_Imm2 inst of
                          Some imm \<Rightarrow>
                            if saves_frame inst \<and> sint (- imm) < 1024
                            then unwind_loop dec code sz fuel' (offs + 4) (offs + 4) (- imm) deltas
                            else unwind_loop dec code sz fuel' (offs + 4) frameStart frameSize deltas
                        | None \<Rightarrow> unwind_loop dec code sz fuel' (offs + 4) frameStart frameSize deltas)
                   | VD_LDP \<Rightarrow>
                       if \<not> saves_frame inst
                       then unwind_loop dec code sz fuel' (offs + 4) frameStart frameSize deltas
                       else if frameStart = 0 then Some deltas
                       else unwind_loop dec code sz fuel' (offs + 4) 0 frameSize
                              (StackDeltaArray_Add
                                (StackDeltaArray_Add deltas frameStart (frame_info frameSize))
                                (offs + 4) UnwindInfoLR)
                   | VD_Other \<Rightarrow> unwind_loop dec code sz fuel' (offs + 4) frameStart frameSize deltas)))
      else Some deltas)"

declare unwind_loop.simps [simp del]

text \<open>
  The visit of one dynamic symbol. Allocating a buffer of more than \<open>2 ^ 48\<close> bytes panics.
\<close>

definition visit_symbol :: "arm_decoder \<Rightarrow> vdso_file \<Rightarrow> Symbol \<Rightarrow> u64 \<times> IntervalData \<Rightarrow> (u64 \<times> IntervalData) option" where
  "visit_symbol dec f sm acc =
     (case acc of (firstAddress, intervals) \<Rightarrow>
        if sy_Address sm = 0 \<or> sy_Size sm = 0 then Some (firstAddress, intervals)
        else
          let firstAddress = min firstAddress (sy_Address sm);
              bb = \<lparr>bb_Start = sy_Address sm, bb_End = sy_Address sm + sy_Size sm, bb_Deltas = []\<rparr>
          in if sy_Name sm = ''__kernel_rt_sigreturn''
             then Some (firstAddress, IntervalData_Add intervals
                    (bb\<lparr>bb_Deltas := StackDeltaArray_Add [] 0 UnwindInfoSignal\<rparr>))
             else if 2 ^ 48 < unat (sy_Size sm) then None
             else (case vd_ReadAt f (unat (sy_Size sm)) (sy_Address sm) of
                     Inl _ \<Rightarrow> Some (firstAddress, intervals)
                   | Inr code \<Rightarrow>
                       let sz = ucast (sy_Size sm) :: u32
                       in map_option (\<lambda>deltas. (firstAddress, IntervalData_Add intervals (bb\<lparr>bb_Deltas := deltas\<rparr>)))
                            (unwind_loop dec code sz (Suc (unat sz div 4)) 0 0 0
                               (StackDeltaArray_Add [] 0 UnwindInfoLR))))"

fun visit_symbols :: "arm_decoder \<Rightarrow> vdso_file \<Rightarrow> Symbol list \<Rightarrow> u64 \<times> IntervalData \<Rightarrow> (u64 \<times> IntervalData) option" where
  "visit_symbols dec f [] acc = Some acc"
| "visit_symbols dec f (sm # sms) acc = visit_symbol dec f sm acc \<bind> visit_symbols dec f sms"

definition createVDSOSyntheticRecordArm64 :: "arm_decoder \<Rightarrow> vdso_file \<Rightarrow> IntervalData option" where
  "createVDSOSyntheticRecordArm64 dec f =
     map_option (\<lambda>(firstAddress, intervals).
       if iv_Blocks intervals \<noteq> []
       then IntervalData_Sort (IntervalData_Add intervals
              \<lparr>bb_Start = 0, bb_End = firstAddress, bb_Deltas = StackDeltaArray_Add [] 0 UnwindInfoLR\<rparr>)
       else intervals)
     (visit_symbols dec f (vd_DynamicSymbols f) (- 1, IntervalData_zero))"

text \<open>\<open>soname[0]\<close> would panic on an empty result; \<open>DynString\<close> returns one entry for this tag.\<close>

definition synthesizeIntervalData :: "arm_decoder \<Rightarrow> vdso_file \<Rightarrow> IntervalData option" where
  "synthesizeIntervalData dec f =
     (if ef_Machine (vd_file f) = EM_AARCH64
      then (case ef_SONAME (vd_file f) of
              Inl _ \<Rightarrow> Some IntervalData_zero
            | Inr [] \<Rightarrow> None
            | Inr (soname # _) \<Rightarrow>
                if soname = ''linux-vdso.so.1'' then createVDSOSyntheticRecordArm64 dec f
                else Some IntervalData_zero)
      else Some IntervalData_zero)"

section \<open>The scan of a symbol\<close>

text \<open>The deltas start at the first byte, are in order, and none lies behind an offset.\<close>

definition deltas_upto :: "nat \<Rightarrow> StackDeltaArray \<Rightarrow> bool" where
  "deltas_upto n ds \<longleftrightarrow> ds \<noteq> [] \<and> sd_Offset (hd ds) = 0 \<and> sorted_wrt (<) (map (unat \<circ> sd_Offset) ds) \<and>
     (\<forall>d \<in> set ds. unat (sd_Offset d) \<le> n)"

lemma deltas_upto_mono: "deltas_upto n ds \<Longrightarrow> n \<le> m \<Longrightarrow> deltas_upto m ds"
  by (force simp: deltas_upto_def)

lemma deltas_upto_Add:
  assumes "deltas_upto n ds" "n < unat off" "unat off \<le> m"
  shows "deltas_upto m (StackDeltaArray_Add ds off info)"
  using assms by (force simp: deltas_upto_def StackDeltaArray_Add_def Let_def sorted_wrt_append)

text \<open>One step of the offset inside the symbol, as a number.\<close>

lemma offs_step:
  fixes offs sz :: u32
  assumes "offs < sz" "unat sz \<le> 2 ^ 32 - 4"
  shows "unat (offs + 4) = unat offs + 4"
proof -
  have "unat offs + unat (4 :: u32) < 2 ^ LENGTH(32)" using assms by (simp add: word_less_nat_alt)
  then show ?thesis by (simp add: unat_add_no_wrap)
qed

lemma unwind_loop_deltas:
  assumes sz: "unat sz \<le> 2 ^ 32 - 4"
  shows "unat sz \<le> unat offs + 4 * fuel \<Longrightarrow> deltas_upto n ds \<Longrightarrow> n \<le> unat offs \<Longrightarrow>
    frameStart = 0 \<or> n < unat frameStart \<and> frameStart \<le> offs \<Longrightarrow> unat offs < unat sz + 4 \<Longrightarrow>
    \<exists>ds'. unwind_loop dec code sz fuel offs frameStart frameSize ds = Some ds' \<and> deltas_upto (unat sz + 3) ds'"
proof (induction fuel arbitrary: offs frameStart frameSize ds n)
  case 0
  then show ?case by (auto simp: unwind_loop.simps word_less_nat_alt intro: deltas_upto_mono)
next
  case (Suc fuel)
  show ?case
  proof (cases "offs < sz")
    case False
    then show ?thesis using Suc.prems by (auto simp: unwind_loop.simps intro: deltas_upto_mono)
  next
    case True
    note o4 = offs_step [OF True sz]
    have lt: "unat offs < unat sz" using True by (simp add: word_less_nat_alt)
    have le: "offs \<le> offs + 4" by (simp add: word_le_nat_alt o4)
    have d: "deltas_upto (unat sz + 3) ds" using Suc.prems lt by (auto intro: deltas_upto_mono)
    have skip: "\<exists>ds'. unwind_loop dec code sz fuel (offs + 4) frameStart frameSize ds = Some ds' \<and>
        deltas_upto (unat sz + 3) ds'"
      using Suc.IH [of "offs + 4" n ds frameStart frameSize] Suc.prems lt order_trans [OF _ le] by (auto simp: o4)
    have stp: "\<exists>ds'. unwind_loop dec code sz fuel (offs + 4) (offs + 4) s ds = Some ds' \<and>
        deltas_upto (unat sz + 3) ds'" for s
      using Suc.IH [of "offs + 4" n ds "offs + 4" s] Suc.prems lt by (auto simp: o4)
    have ldp: "\<exists>ds'. unwind_loop dec code sz fuel (offs + 4) 0 frameSize
        (StackDeltaArray_Add (StackDeltaArray_Add ds frameStart i) (offs + 4) j) = Some ds' \<and>
        deltas_upto (unat sz + 3) ds'" if "frameStart \<noteq> 0" for i j
    proof -
      have "deltas_upto (unat frameStart) (StackDeltaArray_Add ds frameStart i)"
        using Suc.prems that by (intro deltas_upto_Add) auto
      then have "deltas_upto (unat (offs + 4)) (StackDeltaArray_Add (StackDeltaArray_Add ds frameStart i) (offs + 4) j)"
        using Suc.prems that by (intro deltas_upto_Add) (auto simp: o4 word_le_nat_alt)
      then show ?thesis
        using Suc.IH [of "offs + 4" "unat (offs + 4)" _ 0 frameSize] Suc.prems lt by (auto simp: o4)
    qed
    show ?thesis
      using True d skip stp ldp
      by (subst unwind_loop.simps) (auto split: option.split vdso_op.split)
  qed
qed

text \<open>
  Scanning the code of a vDSO symbol ends (for a size that leaves room for the last step of
  the offset), whatever the bytes are; the deltas found start with the first byte of the
  symbol, are strictly in order, and none lies more than an instruction behind its end.
\<close>

theorem unwind_loop_ends:
  assumes "unat sz \<le> 2 ^ 32 - 4"
  shows "\<exists>ds. unwind_loop dec code sz (Suc (unat sz div 4)) 0 0 0 (StackDeltaArray_Add [] 0 UnwindInfoLR) = Some ds \<and>
    ds \<noteq> [] \<and> sd_Offset (hd ds) = 0 \<and> sorted_wrt (<) (map (unat \<circ> sd_Offset) ds) \<and>
    (\<forall>d \<in> set ds. unat (sd_Offset d) \<le> unat sz + 3)"
proof -
  have "deltas_upto 0 (StackDeltaArray_Add [] 0 UnwindInfoLR)"
    by (simp add: deltas_upto_def StackDeltaArray_Add_def)
  then show ?thesis
    using unwind_loop_deltas [OF assms, of 0 "Suc (unat sz div 4)" 0 _ 0 dec code 0]
    by (auto simp: deltas_upto_def)
qed

definition push_pop_decoder :: arm_decoder where
  "push_pop_decoder code =
     (if code = [] then None
      else if code ! 0 = 1 then Some \<lparr>ai_Op = VD_STP, ai_Reg0 = Some 29, ai_Reg1 = Some 30, ai_Imm2 = Some (- 32)\<rparr>
      else if code ! 0 = 2 then Some \<lparr>ai_Op = VD_LDP, ai_Reg0 = Some 29, ai_Reg1 = Some 30, ai_Imm2 = Some 32\<rparr>
      else if code ! 0 = 3 then Some \<lparr>ai_Op = VD_RET, ai_Reg0 = None, ai_Reg1 = None, ai_Imm2 = None\<rparr>
      else None)"

theorem unwind_loop_ends_witness:
  "\<exists>ds. unwind_loop push_pop_decoder [1,0,0,0, 0,0,0,0, 2,0,0,0, 3,0,0,0] 16 5 0 0 0
      (StackDeltaArray_Add [] 0 UnwindInfoLR) = Some ds \<and> sorted_wrt (<) (map (unat \<circ> sd_Offset) ds) \<and>
    map sd_Offset ds = [0, 4, 12]"
proof -
  let ?code = "[1,0,0,0, 0,0,0,0, 2,0,0,0, 3,0,0,0] :: byte list"
  have r: "unwind_loop push_pop_decoder ?code 16 5 0 0 0 (StackDeltaArray_Add [] 0 UnwindInfoLR) =
      Some [\<lparr>sd_Offset = 0, sd_Info = UnwindInfoLR\<rparr>, \<lparr>sd_Offset = 4, sd_Info = frame_info 32\<rparr>,
            \<lparr>sd_Offset = 12, sd_Info = UnwindInfoLR\<rparr>]"
    by (simp add: unwind_loop.simps push_pop_decoder_def saves_frame_def StackDeltaArray_Add_def
        normalize_command_def is_command_def frame_info_def UnwindInfo_consts Let_def)
  have "unat (16 :: u32) \<le> 2 ^ 32 - 4" by simp
  from unwind_loop_ends [OF this, of push_pop_decoder ?code] r show ?thesis by auto
qed

end
