(* ===== verification/ExecInfo.thy ===== *)
theory ExecInfo
  imports SynthDeltas EbpfMaps
begin

text \<open>
  The manager of executables (\<open>processmanager/execinfomanager/manager.go\<close>): a reference counted
  table of the ELF files in use, the conversion of their stack deltas to the form that the eBPF
  maps hold, the table of distinct unwind descriptors, and the removal of files that have been
  unused for a while.

  The state behind the manager's lock is the record \<open>executableInfoManagerState\<close>; it contains the
  eBPF handler of \<open>EbpfMaps\<close>. \<open>AddOrIncRef\<close> takes the lock twice and works without it in
  between, so that it is two steps (\<open>AddOrIncRef_begin\<close>, \<open>AddOrIncRef_commit\<close>) and their
  composition. Arguments: the kernel maps, the time, the LRU of deferred files (\<open>freelru\<close>),
  the interpreter loaders, and what is known of an ELF file. The iteration order of a Go map is
  an argument of \<open>CleanupUnused\<close>.

  The lemmas show the laws of the reference counts, for any interleaving of callers (the locale
  \<open>ref_counting\<close>, interpreted on the steps of the manager), and that the clean-up removes
  expired files only and never meets its two consistency errors. What the conversion of the
  deltas computes is the subject of \<open>ExecDeltas\<close>.
\<close>

unbundle bit_operations_syntax

section \<open>Data\<close>

record mapRef =
  mr_StartPage :: u64
  mr_NumPages :: u32
  mr_MapID :: u16

definition mapRef_zero :: mapRef where
  "mapRef_zero = \<lparr>mr_StartPage = 0, mr_NumPages = 0, mr_MapID = 0\<rparr>"

text \<open>Interpreter data: that of one loader, or of several that recognised the file.\<close>

datatype 'd Data = DataOne 'd | MultiData "'d list"

record ('d, 'c) ExecutableInfo =
  ei_Data :: "'d Data option"
  ei_LibcInfo :: "'c option"

record ('d, 'c) eim_entry =
  en_Info :: "('d, 'c) ExecutableInfo"
  en_mapRef :: mapRef
  en_rc :: u64

record LoaderInfo =
  li_fileID :: FileID
  li_intervals :: IntervalData

datatype loaderr = LoadNotExist | LoadOther nat

type_synonym ('m, 'd) loader = "LoaderInfo \<Rightarrow> 'm impl \<Rightarrow> (loaderr + 'd option) \<times> 'm impl"

record ('m, 'd, 'c) executableInfoManagerState =
  es_interpreterLoaders :: "('m, 'd) loader list"
  es_ebpf :: "'m impl"
  es_executables :: "FileID \<rightharpoonup> ('d, 'c) eim_entry"
  es_unusedExecutables :: "FileID \<rightharpoonup> int"
  es_unwindInfoIndex :: "(UnwindInfo \<times> u16) list"
  es_numStackDeltaMapPages :: u64

type_synonym ('m, 'd, 'c) eimState = "('m, 'd, 'c) executableInfoManagerState"

datatype eimerr = ErrDeferredFileID | ErrExtract eherr | ErrELF eherr | ErrLoadDeltas ebpferr
  | ErrUnknownFile FileID | ErrZeroRC | ErrNotTracked FileID | ErrInUse FileID u64 | ErrUnload FileID ebpferr

text \<open>What the manager asks of the reference to an ELF file.\<close>

record 'c elfRef =
  er_extract :: "eherr + IntervalData"
  er_ELF :: "eherr + vdso_file"
  er_IsPotentialLibcDSO :: bool
  er_ExtractLibcInfo :: "vdso_file \<Rightarrow> 'c option"

record 'l deferredLRU =
  dl_Get :: "FileID \<Rightarrow> 'l \<Rightarrow> bool \<times> 'l"
  dl_Add :: "FileID \<Rightarrow> 'l \<Rightarrow> 'l"

record ('m, 'd, 'c, 'l) ExecutableInfoManager =
  mg_stats :: Statistics
  mg_state :: "('m, 'd, 'c) eimState"
  mg_deferredFileIDs :: 'l

definition NewExecutableInfoManager ::
  "('m, 'd) loader option \<Rightarrow> ('m, 'd) loader \<Rightarrow> 'l \<Rightarrow> 'm impl \<Rightarrow> ('m, 'd, 'c, 'l) ExecutableInfoManager" where
  "NewExecutableInfoManager python native deferredFileIDs ebpf =
     \<lparr>mg_stats = \<lparr>st_Success = 0, st_ExtractionErrors = 0\<rparr>,
      mg_state = \<lparr>es_interpreterLoaders = (case python of None \<Rightarrow> [] | Some p \<Rightarrow> [p]) @ [native],
                  es_ebpf = ebpf, es_executables = Map.empty, es_unusedExecutables = Map.empty,
                  es_unwindInfoIndex = [], es_numStackDeltaMapPages = 0\<rparr>,
      mg_deferredFileIDs = deferredFileIDs\<rparr>"

section \<open>Unwind descriptors\<close>

text \<open>\<open>calculateMergeOpcode\<close>; the differences wrap around as in the code.\<close>

definition calculateMergeOpcode :: "StackDelta \<Rightarrow> StackDelta \<Rightarrow> u8" where
  "calculateMergeOpcode delta nextDelta =
     (if is_command (sd_Info delta) then 0
      else
        let addrDiff = sd_Offset nextDelta - sd_Offset delta
        in if addrDiff < 1 \<or> addrDiff > 2 then 0
           else if ui_BaseReg (sd_Info nextDelta) \<noteq> ui_BaseReg (sd_Info delta) \<or>
                   ui_AuxBaseReg (sd_Info nextDelta) \<noteq> ui_AuxBaseReg (sd_Info delta) \<or>
                   ui_AuxParam (sd_Info nextDelta) \<noteq> ui_AuxParam (sd_Info delta) then 0
           else
             let paramDiff = ui_Param (sd_Info nextDelta) - ui_Param (sd_Info delta)
             in if paramDiff = 8 then ucast addrDiff
                else if paramDiff = - 8 then ucast addrDiff OR MergeOpcodeNegative
                else 0)"

definition getUnwindInfoIndex ::
  "'m kops \<Rightarrow> UnwindInfo \<Rightarrow> ('m, 'd, 'c) eimState \<Rightarrow> (ebpferr + u16) \<times> ('m, 'd, 'c) eimState" where
  "getUnwindInfoIndex k info st =
     (if is_command info then (Inr (ucast (ui_Param info) OR DeltaCommandFlag), st)
      else
        (case map_of (es_unwindInfoIndex st) info of
           Some index \<Rightarrow> (Inr index, st)
         | None \<Rightarrow>
             let index = word_of_nat (length (es_unwindInfoIndex st)) :: u16;
                 (err, ebpf) = UpdateUnwindInfo k index info (es_ebpf st);
                 st = st\<lparr>es_ebpf := ebpf\<rparr>
             in (case err of
                   Some e \<Rightarrow> (Inl (ErrWrap e), st)
                 | None \<Rightarrow> (Inr index, st\<lparr>es_unwindInfoIndex := (info, index) # es_unwindInfoIndex st\<rparr>))))"

section \<open>Loading deltas\<close>

text \<open>The variables of \<open>loadDeltas\<close> that its closure \<open>addDelta\<close> changes.\<close>

record ('m, 'd, 'c) loadVars =
  lv_state :: "('m, 'd, 'c) eimState"
  lv_ebpfDeltas :: "StackDeltaEBPF list"
  lv_numDeltasPerPage :: "u16 list"

text \<open>\<open>addDelta\<close>; \<open>None\<close> is the panic of an index outside \<open>numDeltasPerPage\<close>.\<close>

definition addDelta ::
  "'m kops \<Rightarrow> u64 \<Rightarrow> u64 \<Rightarrow> UnwindInfo \<Rightarrow> ('m, 'd, 'c) loadVars \<Rightarrow> (ebpferr option \<times> ('m, 'd, 'c) loadVars) option" where
  "addDelta k firstPage addr info v =
     (case getUnwindInfoIndex k info (lv_state v) of
        (Inl e, st) \<Rightarrow> Some (Some e, v\<lparr>lv_state := st\<rparr>)
      | (Inr unwindInfoIndex, st) \<Rightarrow>
          let v = v\<lparr>lv_state := st\<rparr>
          in if lv_ebpfDeltas v = [] \<or> se_UnwindInfo (last (lv_ebpfDeltas v)) \<noteq> unwindInfoIndex
             then
               let v = v\<lparr>lv_ebpfDeltas := lv_ebpfDeltas v @ [\<lparr>se_AddressLow = ucast addr, se_UnwindInfo = unwindInfoIndex\<rparr>]\<rparr>;
                   p = drop_bit StackDeltaPageBits addr - firstPage
               in if go_index_ok p (lv_numDeltasPerPage v)
                  then Some (None, v\<lparr>lv_numDeltasPerPage := (lv_numDeltasPerPage v)[unat p := lv_numDeltasPerPage v ! unat p + 1]\<rparr>)
                  else None
             else Some (None, v))"

definition is_signal :: "UnwindInfo \<Rightarrow> bool" where
  "is_signal info \<longleftrightarrow> is_command info \<and> ui_Param info = UnwindCommandSignal"

text \<open>The inner loop, over the deltas of a block, with the variable \<open>unwindInfo\<close>.\<close>

fun load_block ::
  "'m kops \<Rightarrow> u64 \<Rightarrow> u64 \<Rightarrow> StackDelta list \<Rightarrow> UnwindInfo \<Rightarrow> ('m, 'd, 'c) loadVars \<Rightarrow>
     ((ebpferr option \<times> UnwindInfo) \<times> ('m, 'd, 'c) loadVars) option" where
  "load_block k firstPage start [] unwindInfo v = Some ((None, unwindInfo), v)"
| "load_block k firstPage start (delta # rest) unwindInfo v =
     (if ui_MergeOpcode unwindInfo \<noteq> 0
      then load_block k firstPage start rest (unwindInfo\<lparr>ui_MergeOpcode := 0\<rparr>) v
      else
        let unwindInfo = sd_Info delta;
            unwindInfo = (case rest of
                            [] \<Rightarrow> unwindInfo
                          | nextDelta # _ \<Rightarrow> unwindInfo\<lparr>ui_MergeOpcode := calculateMergeOpcode delta nextDelta\<rparr>);
            addr = start + ucast (sd_Offset delta);
            addr = (if is_signal unwindInfo then addr - 1 else addr)
        in (case addDelta k firstPage addr unwindInfo v of
              None \<Rightarrow> None
            | Some (Some e, v) \<Rightarrow> Some ((Some e, unwindInfo), v)
            | Some (None, v) \<Rightarrow> load_block k firstPage start rest unwindInfo v))"

text \<open>The outer loop, over the blocks.\<close>

fun load_blocks ::
  "'m kops \<Rightarrow> u64 \<Rightarrow> BasicBlock list \<Rightarrow> UnwindInfo \<Rightarrow> ('m, 'd, 'c) loadVars \<Rightarrow>
     (ebpferr option \<times> ('m, 'd, 'c) loadVars) option" where
  "load_blocks k firstPage [] unwindInfo v = Some (None, v)"
| "load_blocks k firstPage (block # rest) unwindInfo v =
     (case load_block k firstPage (bb_Start block) (bb_Deltas block) unwindInfo v of
        None \<Rightarrow> None
      | Some ((Some e, _), v) \<Rightarrow> Some (Some e, v)
      | Some ((None, unwindInfo), v) \<Rightarrow>
          if rest = [] \<or> bb_End block + MinimumGap < bb_Start (hd rest)
          then (case addDelta k firstPage (bb_End block) UnwindInfoInvalid v of
                  None \<Rightarrow> None
                | Some (Some e, v) \<Rightarrow> Some (Some e, v)
                | Some (None, v) \<Rightarrow> load_blocks k firstPage rest unwindInfo v)
          else load_blocks k firstPage rest unwindInfo v)"

text \<open>
  The first half of \<open>loadDeltas\<close>, up to the updates of the maps: first page, address of that
  page, number of pages, and the converted deltas. Allocating more than \<open>2 ^ 47\<close> counters of
  two bytes panics.
\<close>

definition first_page :: "IntervalData \<Rightarrow> u64" where
  "first_page intervals = drop_bit StackDeltaPageBits (bb_Start (hd (iv_Blocks intervals)))"

definition first_page_addr :: "IntervalData \<Rightarrow> u64" where
  "first_page_addr intervals = bb_Start (hd (iv_Blocks intervals)) AND NOT StackDeltaPageMask"

definition num_pages :: "IntervalData \<Rightarrow> u64" where
  "num_pages intervals = drop_bit StackDeltaPageBits (bb_End (last (iv_Blocks intervals))) - first_page intervals + 1"

definition convertDeltas ::
  "'m kops \<Rightarrow> IntervalData \<Rightarrow> ('m, 'd, 'c) eimState \<Rightarrow> (ebpferr option \<times> ('m, 'd, 'c) loadVars) option" where
  "convertDeltas k intervals st =
     (if 2 ^ 47 < unat (num_pages intervals) then None
      else load_blocks k (first_page intervals) (iv_Blocks intervals) UnwindInfo_zero
             \<lparr>lv_state = st, lv_ebpfDeltas = [], lv_numDeltasPerPage = replicate (unat (num_pages intervals)) 0\<rparr>)"

text \<open>\<open>loadDeltas\<close>; taking the first block of an empty table panics.\<close>

definition loadDeltas ::
  "'m kops \<Rightarrow> FileID \<Rightarrow> IntervalData \<Rightarrow> ('m, 'd, 'c) eimState \<Rightarrow>
     ((ebpferr + mapRef) \<times> ('m, 'd, 'c) eimState) option" where
  "loadDeltas k fileID intervals st =
     (if iv_NumDeltas intervals = 0 then Some (Inr mapRef_zero, st)
      else if iv_Blocks intervals = [] then None
      else
        (case convertDeltas k intervals st of
           None \<Rightarrow> None
         | Some (Some e, v) \<Rightarrow> Some (Inl e, lv_state v)
         | Some (None, v) \<Rightarrow>
             (case UpdateExeIDToStackDeltas k fileID (lv_ebpfDeltas v) (es_ebpf (lv_state v)) of
                None \<Rightarrow> None
              | Some (Inl e, ebpf) \<Rightarrow> Some (Inl (ErrWrap e), (lv_state v)\<lparr>es_ebpf := ebpf\<rparr>)
              | Some (Inr mapID, ebpf) \<Rightarrow>
                  (case UpdateStackDeltaPages k fileID (lv_numDeltasPerPage v) mapID (first_page_addr intervals) ebpf of
                     (Some e, ebpf) \<Rightarrow>
                       map_option (\<lambda>(_, ebpf). (Inl (ErrWrap e), (lv_state v)\<lparr>es_ebpf := ebpf\<rparr>))
                         (DeleteExeIDToStackDeltas fileID mapID ebpf)
                   | (None, ebpf) \<Rightarrow>
                       Some (Inr \<lparr>mr_StartPage = first_page_addr intervals, mr_NumPages = ucast (num_pages intervals),
                                  mr_MapID = mapID\<rparr>,
                             (lv_state v)\<lparr>es_ebpf := ebpf,
                                es_numStackDeltaMapPages := es_numStackDeltaMapPages (lv_state v) + num_pages intervals\<rparr>)))))"

text \<open>The loop of \<open>unloadDeltas\<close> over the pages of the file, with the errors joined.\<close>

fun delete_pages ::
  "'m kops \<Rightarrow> FileID \<Rightarrow> u64 \<Rightarrow> nat \<Rightarrow> nat \<Rightarrow> ebpferr option \<Rightarrow> 'm impl \<Rightarrow> ebpferr option \<times> 'm impl" where
  "delete_pages k fileID startPage i 0 err ebpf = (err, ebpf)"
| "delete_pages k fileID startPage i (Suc n) err ebpf =
     (let (e, ebpf) = DeleteStackDeltaPage k fileID (startPage + push_bit StackDeltaPageBits (word_of_nat i)) ebpf
      in delete_pages k fileID startPage (Suc i) n (join_err err e) ebpf)"

definition unloadDeltas ::
  "'m kops \<Rightarrow> FileID \<Rightarrow> mapRef \<Rightarrow> ('m, 'd, 'c) eimState \<Rightarrow> (ebpferr option \<times> ('m, 'd, 'c) eimState) option" where
  "unloadDeltas k fileID r st =
     (if mr_MapID r = 0 then Some (None, st)
      else
        let (err, ebpf) = delete_pages k fileID (mr_StartPage r) 0 (unat (mr_NumPages r)) None (es_ebpf st);
            st = st\<lparr>es_ebpf := ebpf, es_numStackDeltaMapPages := es_numStackDeltaMapPages st - ucast (mr_NumPages r)\<rparr>
        in map_option (\<lambda>(e, ebpf). (join_err err e, st\<lparr>es_ebpf := ebpf\<rparr>))
             (DeleteExeIDToStackDeltas fileID (mr_MapID r) ebpf))"

section \<open>Interpreters\<close>

fun run_loaders :: "('m, 'd) loader list \<Rightarrow> LoaderInfo \<Rightarrow> 'm impl \<Rightarrow> 'd list \<times> 'm impl" where
  "run_loaders [] info ebpf = ([], ebpf)"
| "run_loaders (load # ls) info ebpf =
     (case load info ebpf of
        (Inl _, ebpf) \<Rightarrow> run_loaders ls info ebpf
      | (Inr None, ebpf) \<Rightarrow> run_loaders ls info ebpf
      | (Inr (Some d), ebpf) \<Rightarrow>
          let (matches, ebpf) = run_loaders ls info ebpf in (d # matches, ebpf))"

definition detectAndLoadInterpData ::
  "LoaderInfo \<Rightarrow> ('m, 'd, 'c) eimState \<Rightarrow> 'd Data option \<times> ('m, 'd, 'c) eimState" where
  "detectAndLoadInterpData info st =
     (let (matches, ebpf) = run_loaders (es_interpreterLoaders st) info (es_ebpf st)
      in (case matches of [] \<Rightarrow> None | [d] \<Rightarrow> Some (DataOne d) | _ \<Rightarrow> Some (MultiData matches),
          st\<lparr>es_ebpf := ebpf\<rparr>))"

text \<open>\<open>Unload\<close> of interpreter data; \<open>unload\<close> is the method of the single interpreters.\<close>

definition Data_Unload :: "('d \<Rightarrow> 'm impl \<Rightarrow> 'm impl) \<Rightarrow> 'd Data \<Rightarrow> 'm impl \<Rightarrow> 'm impl" where
  "Data_Unload unload d ebpf = (case d of DataOne x \<Rightarrow> unload x ebpf | MultiData xs \<Rightarrow> fold unload xs ebpf)"

section \<open>Reference counting\<close>

text \<open>The lookup and increment that both critical sections of \<open>AddOrIncRef\<close> start with.\<close>

definition incRef ::
  "FileID \<Rightarrow> ('m, 'd, 'c) eimState \<Rightarrow> (('d, 'c) ExecutableInfo \<times> ('m, 'd, 'c) eimState) option" where
  "incRef fileID st =
     (case es_executables st fileID of
        None \<Rightarrow> None
      | Some info \<Rightarrow>
          let info = info\<lparr>en_rc := en_rc info + 1\<rparr>;
              st = st\<lparr>es_executables := (es_executables st)(fileID \<mapsto> info)\<rparr>;
              st = (if en_rc info = 1
                    then st\<lparr>es_unusedExecutables := (es_unusedExecutables st)(fileID := None)\<rparr> else st)
          in Some (en_Info info, st))"

text \<open>The first part: the deferred files and the fast path. \<open>None\<close> inside the result is the slow path.\<close>

definition AddOrIncRef_begin ::
  "'l deferredLRU \<Rightarrow> FileID \<Rightarrow> ('m, 'd, 'c, 'l) ExecutableInfoManager \<Rightarrow>
     (eimerr + ('d, 'c) ExecutableInfo) option \<times> ('m, 'd, 'c, 'l) ExecutableInfoManager" where
  "AddOrIncRef_begin lru fileID mgr =
     (let (exists, l) = dl_Get lru fileID (mg_deferredFileIDs mgr);
          mgr = mgr\<lparr>mg_deferredFileIDs := l\<rparr>
      in if exists then (Some (Inl ErrDeferredFileID), mgr)
         else (case incRef fileID (mg_state mgr) of
                 Some (info, st) \<Rightarrow> (Some (Inr info), mgr\<lparr>mg_state := st\<rparr>)
               | None \<Rightarrow> (None, mgr)))"

text \<open>The work without the lock: extraction, synthetic deltas and libc information.\<close>

definition AddOrIncRef_gather ::
  "(eherr \<Rightarrow> bool) \<Rightarrow> 'l deferredLRU \<Rightarrow> arm_decoder \<Rightarrow> FileID \<Rightarrow> 'c elfRef \<Rightarrow> ('m, 'd, 'c, 'l) ExecutableInfoManager \<Rightarrow>
     ((eimerr + IntervalData \<times> 'c option) \<times> ('m, 'd, 'c, 'l) ExecutableInfoManager) option" where
  "AddOrIncRef_gather isNotExist lru dec fileID elfRef mgr =
     (let (res, stats) = GetIntervalDataForFile isNotExist (er_extract elfRef) (mg_stats mgr);
          mgr = mgr\<lparr>mg_stats := stats\<rparr>;
          libcInfo = (if er_IsPotentialLibcDSO elfRef
                      then (case er_ELF elfRef of Inl _ \<Rightarrow> None | Inr ef \<Rightarrow> er_ExtractLibcInfo elfRef ef)
                      else None)
      in (case res of
            Inl err \<Rightarrow>
              Some (Inl (ErrExtract err),
                    if \<not> isNotExist err
                    then mgr\<lparr>mg_deferredFileIDs := dl_Add lru fileID (mg_deferredFileIDs mgr)\<rparr> else mgr)
          | Inr intervalData \<Rightarrow>
              if iv_Blocks intervalData = []
              then (case er_ELF elfRef of
                      Inl err \<Rightarrow> Some (Inl (ErrELF err), mgr)
                    | Inr ef \<Rightarrow>
                        map_option (\<lambda>iv. (Inr (iv, libcInfo), mgr)) (synthesizeIntervalData dec ef))
              else Some (Inr (intervalData, libcInfo), mgr)))"

text \<open>The second critical section.\<close>

definition AddOrIncRef_commit ::
  "'m kops \<Rightarrow> 'l deferredLRU \<Rightarrow> FileID \<Rightarrow> IntervalData \<Rightarrow> 'c option \<Rightarrow> ('m, 'd, 'c, 'l) ExecutableInfoManager \<Rightarrow>
     ((eimerr + ('d, 'c) ExecutableInfo) \<times> ('m, 'd, 'c, 'l) ExecutableInfoManager) option" where
  "AddOrIncRef_commit k lru fileID intervalData libcInfo mgr =
     (case incRef fileID (mg_state mgr) of
        Some (info, st) \<Rightarrow> Some (Inr info, mgr\<lparr>mg_state := st\<rparr>)
      | None \<Rightarrow>
          (case loadDeltas k fileID intervalData (mg_state mgr) of
             None \<Rightarrow> None
           | Some (Inl e, st) \<Rightarrow>
               Some (Inl (ErrLoadDeltas e),
                     mgr\<lparr>mg_state := st, mg_deferredFileIDs := dl_Add lru fileID (mg_deferredFileIDs mgr)\<rparr>)
           | Some (Inr r, st) \<Rightarrow>
               let (interpData, st) = detectAndLoadInterpData \<lparr>li_fileID = fileID, li_intervals = intervalData\<rparr> st;
                   info = \<lparr>en_Info = \<lparr>ei_Data = interpData, ei_LibcInfo = libcInfo\<rparr>, en_mapRef = r, en_rc = 1\<rparr>
               in Some (Inr (en_Info info),
                        mgr\<lparr>mg_state := st\<lparr>es_executables := (es_executables st)(fileID \<mapsto> info)\<rparr>\<rparr>)))"

definition AddOrIncRef ::
  "'m kops \<Rightarrow> (eherr \<Rightarrow> bool) \<Rightarrow> 'l deferredLRU \<Rightarrow> arm_decoder \<Rightarrow> FileID \<Rightarrow> 'c elfRef \<Rightarrow>
     ('m, 'd, 'c, 'l) ExecutableInfoManager \<Rightarrow>
     ((eimerr + ('d, 'c) ExecutableInfo) \<times> ('m, 'd, 'c, 'l) ExecutableInfoManager) option" where
  "AddOrIncRef k isNotExist lru dec fileID elfRef mgr =
     (case AddOrIncRef_begin lru fileID mgr of
        (Some res, mgr) \<Rightarrow> Some (res, mgr)
      | (None, mgr) \<Rightarrow>
          (case AddOrIncRef_gather isNotExist lru dec fileID elfRef mgr of
             None \<Rightarrow> None
           | Some (Inl e, mgr) \<Rightarrow> Some (Inl e, mgr)
           | Some (Inr (intervalData, libcInfo), mgr) \<Rightarrow>
               AddOrIncRef_commit k lru fileID intervalData libcInfo mgr))"

definition DecRef ::
  "int \<Rightarrow> FileID \<Rightarrow> ('m, 'd, 'c) eimState \<Rightarrow> eimerr option \<times> ('m, 'd, 'c) eimState" where
  "DecRef now fileID st =
     (case es_executables st fileID of
        None \<Rightarrow> (Some (ErrUnknownFile fileID), st)
      | Some info \<Rightarrow>
          if en_rc info = 0 then (Some ErrZeroRC, st)
          else
            let info = info\<lparr>en_rc := en_rc info - 1\<rparr>;
                st = st\<lparr>es_executables := (es_executables st)(fileID \<mapsto> info)\<rparr>
            in (None, if en_rc info = 0
                      then st\<lparr>es_unusedExecutables := (es_unusedExecutables st)(fileID \<mapsto> now)\<rparr> else st))"

text \<open>
  The loop of \<open>CleanupUnused\<close>, over the unused files in the order in which the map is iterated.
  Entries are only removed after they were visited, so that the order is fixed at the start.
\<close>

fun cleanup_loop ::
  "'m kops \<Rightarrow> ('d \<Rightarrow> 'm impl \<Rightarrow> 'm impl) \<Rightarrow> int \<Rightarrow> FileID list \<Rightarrow> ('m, 'd, 'c) eimState \<Rightarrow>
     (eimerr option \<times> ('m, 'd, 'c) eimState) option" where
  "cleanup_loop k unload cutoff [] st = Some (None, st)"
| "cleanup_loop k unload cutoff (fileID # rest) st =
     (case es_unusedExecutables st fileID of
        None \<Rightarrow> cleanup_loop k unload cutoff rest st
      | Some unusedSince \<Rightarrow>
          if unusedSince > cutoff then cleanup_loop k unload cutoff rest st
          else
            (case es_executables st fileID of
               None \<Rightarrow> Some (Some (ErrNotTracked fileID), st)
             | Some info \<Rightarrow>
                 if en_rc info \<noteq> 0 then Some (Some (ErrInUse fileID (en_rc info)), st)
                 else
                   (case unloadDeltas k fileID (en_mapRef info) st of
                      None \<Rightarrow> None
                    | Some (Some e, st) \<Rightarrow> Some (Some (ErrUnload fileID e), st)
                    | Some (None, st) \<Rightarrow>
                        let st = (case ei_Data (en_Info info) of
                                    None \<Rightarrow> st
                                  | Some d \<Rightarrow> st\<lparr>es_ebpf := Data_Unload unload d (es_ebpf st)\<rparr>)
                        in cleanup_loop k unload cutoff rest
                             (st\<lparr>es_executables := (es_executables st)(fileID := None),
                                 es_unusedExecutables := (es_unusedExecutables st)(fileID := None)\<rparr>))))"

definition CleanupUnused ::
  "'m kops \<Rightarrow> ('d \<Rightarrow> 'm impl \<Rightarrow> 'm impl) \<Rightarrow> int \<Rightarrow> int \<Rightarrow> FileID list \<Rightarrow> ('m, 'd, 'c) eimState \<Rightarrow>
     (eimerr option \<times> ('m, 'd, 'c) eimState) option" where
  "CleanupUnused k unload now age order st = cleanup_loop k unload (now - age) order st"

definition NumInterpreterLoaders :: "('m, 'd, 'c) eimState \<Rightarrow> nat" where
  "NumInterpreterLoaders st = length (es_interpreterLoaders st)"

text \<open>The values of \<open>UpdateMetricSummary\<close>, in the order in which they are set.\<close>

definition UpdateMetricSummary ::
  "('m, 'd, 'c, 'l) ExecutableInfoManager \<Rightarrow> u64 list \<times> ('m, 'd, 'c, 'l) ExecutableInfoManager" where
  "UpdateMetricSummary mgr =
     (let st = mg_state mgr; (stats, stats') = GetAndResetStatistics (mg_stats mgr)
      in ([word_of_nat (card (dom (es_executables st))), word_of_nat (length (es_unwindInfoIndex st)),
           es_numStackDeltaMapPages st, st_Success stats, st_ExtractionErrors stats],
          mgr\<lparr>mg_stats := stats'\<rparr>))"

section \<open>What loading and unloading leave alone\<close>

text \<open>The tables of files, as opposed to the eBPF maps and the counters.\<close>

definition same_files :: "('m, 'd, 'c) eimState \<Rightarrow> ('m, 'd, 'c) eimState \<Rightarrow> bool" where
  "same_files st st' \<longleftrightarrow> es_executables st' = es_executables st \<and>
     es_unusedExecutables st' = es_unusedExecutables st \<and> es_interpreterLoaders st' = es_interpreterLoaders st"

lemma same_files_refl [simp]: "same_files st st"
  by (simp add: same_files_def)

lemma same_files_trans [trans]: "same_files a b \<Longrightarrow> same_files b c \<Longrightarrow> same_files a c"
  by (simp add: same_files_def)

lemma same_files_getUnwindInfoIndex: "same_files st (snd (getUnwindInfoIndex k info st))"
  by (auto simp: getUnwindInfoIndex_def same_files_def Let_def split: option.split prod.split)

lemma same_files_addDelta:
  assumes "addDelta k p a i v = Some (e, v')"
  shows "same_files (lv_state v) (lv_state v')"
  using assms same_files_getUnwindInfoIndex [of "lv_state v" k i]
  by (auto simp: addDelta_def Let_def split: prod.splits sum.splits if_splits)

lemma same_files_load_block:
  "load_block k p s ds u v = Some (r, v') \<Longrightarrow> same_files (lv_state v) (lv_state v')"
  by (induction ds arbitrary: u v)
    (auto simp: Let_def same_files_def split: if_splits option.splits dest!: same_files_addDelta)

lemma same_files_load_blocks:
  "load_blocks k p bs u v = Some (r, v') \<Longrightarrow> same_files (lv_state v) (lv_state v')"
  by (induction bs arbitrary: u v)
    (auto simp: same_files_def split: if_splits option.splits dest!: same_files_addDelta same_files_load_block)

lemma same_files_loadDeltas:
  assumes "loadDeltas k f iv st = Some (r, st')"
  shows "same_files st st'"
  using assms
  by (auto simp: loadDeltas_def convertDeltas_def same_files_def
      split: if_splits option.splits sum.splits prod.splits dest!: same_files_load_blocks)

lemma same_files_unloadDeltas:
  assumes "unloadDeltas k f r st = Some (e, st')"
  shows "same_files st st'"
  using assms by (auto simp: unloadDeltas_def Let_def same_files_def split: if_splits prod.splits)

lemma same_files_detect: "same_files st (snd (detectAndLoadInterpData info st))"
  by (auto simp: detectAndLoadInterpData_def same_files_def split: prod.split)

section \<open>Reference counts\<close>

text \<open>A run of a labelled step relation, with the list of its labels.\<close>

inductive labelled_run :: "('e \<Rightarrow> 's \<Rightarrow> 's \<Rightarrow> bool) \<Rightarrow> 's \<Rightarrow> 'e list \<Rightarrow> 's \<Rightarrow> bool" for step where
  run_Nil: "labelled_run step s [] s"
| run_snoc: "labelled_run step s es s' \<Longrightarrow> step e s' s'' \<Longrightarrow> labelled_run step s (es @ [e]) s''"

text \<open>
  The contract of a reference counted table, for clients that see only which references are
  taken and given back: how the counts change, and that they never change otherwise. The
  counters are bounded.
\<close>

datatype 'f refevent = Acquired 'f | Released 'f | Silent

locale ref_counting =
  fixes step :: "'f refevent \<Rightarrow> 's \<Rightarrow> 's \<Rightarrow> bool"
    and inv :: "'s \<Rightarrow> bool"
    and count :: "'s \<Rightarrow> 'f \<Rightarrow> nat"
    and bound :: nat
  assumes acquired: "step (Acquired f) s s' \<Longrightarrow> inv s \<Longrightarrow> Suc (count s f) < bound \<Longrightarrow>
      inv s' \<and> count s' = (count s)(f := Suc (count s f))"
    and released: "step (Released f) s s' \<Longrightarrow> inv s \<Longrightarrow>
      inv s' \<and> 0 < count s f \<and> count s' = (count s)(f := count s f - 1)"
    and silent: "step Silent s s' \<Longrightarrow> inv s \<Longrightarrow> inv s' \<and> count s' = count s"
begin

lemma run_counts:
  assumes "labelled_run step s es s'" and "inv s" and "\<And>f. count s f = 0" and "length es + 1 < bound"
  shows "inv s' \<and> (\<forall>f. count s' f + count_list es (Released f) = count_list es (Acquired f))"
  using assms
proof (induction rule: labelled_run.induct)
  case (run_Nil s)
  then show ?case by simp
next
  case (run_snoc s es s' e s'')
  then have IH: "inv s'" "\<And>f. count s' f + count_list es (Released f) = count_list es (Acquired f)" by auto
  show ?case
  proof (cases e)
    case (Acquired g)
    have "count s' g \<le> length es" using IH(2) [of g] count_le_length [of es "Acquired g"] by simp
    then show ?thesis using acquired [of g s' s''] run_snoc.hyps(2) run_snoc.prems IH Acquired by simp
  next
    case (Released g)
    then have r: "inv s''" "0 < count s' g" "count s'' = (count s')(g := count s' g - 1)"
      using released [of g s' s''] run_snoc.hyps(2) IH(1) by auto
    have "count s'' f + count_list (es @ [e]) (Released f) = count s' f + count_list es (Released f)" for f
      using r(2,3) Released by auto
    then show ?thesis using r(1) IH(2) Released by simp
  next
    case Silent
    then show ?thesis using silent [of s' s''] run_snoc.hyps(2) IH by simp
  qed
qed

end

text \<open>
  The steps of the manager. Every critical section is one step, and so is the work between the
  two sections of \<open>AddOrIncRef\<close>: a run is any interleaving of any number of callers, and what is
  gathered for a file may be old by the time it is committed.
\<close>

inductive eim_step ::
  "'m kops \<Rightarrow> 'l deferredLRU \<Rightarrow> ('d \<Rightarrow> 'm impl \<Rightarrow> 'm impl) \<Rightarrow> FileID refevent \<Rightarrow>
     ('m, 'd, 'c, 'l) ExecutableInfoManager \<Rightarrow> ('m, 'd, 'c, 'l) ExecutableInfoManager \<Rightarrow> bool"
  for k lru unload where
  begin_hit: "AddOrIncRef_begin lru f mgr = (Some (Inr info), mgr') \<Longrightarrow> eim_step k lru unload (Acquired f) mgr mgr'"
| begin_deferred: "AddOrIncRef_begin lru f mgr = (Some (Inl e), mgr') \<Longrightarrow> eim_step k lru unload Silent mgr mgr'"
| begin_miss: "AddOrIncRef_begin lru f mgr = (None, mgr') \<Longrightarrow> eim_step k lru unload Silent mgr mgr'"
| gather: "AddOrIncRef_gather isNotExist lru dec f elfRef mgr = Some (r, mgr') \<Longrightarrow> eim_step k lru unload Silent mgr mgr'"
| commit_ok: "AddOrIncRef_commit k lru f iv li mgr = Some (Inr info, mgr') \<Longrightarrow> eim_step k lru unload (Acquired f) mgr mgr'"
| commit_err: "AddOrIncRef_commit k lru f iv li mgr = Some (Inl e, mgr') \<Longrightarrow> eim_step k lru unload Silent mgr mgr'"
| dec_ok: "DecRef now f (mg_state mgr) = (None, st') \<Longrightarrow>
    eim_step k lru unload (Released f) mgr (mgr\<lparr>mg_state := st'\<rparr>)"
| dec_err: "DecRef now f (mg_state mgr) = (Some e, st') \<Longrightarrow> eim_step k lru unload Silent mgr (mgr\<lparr>mg_state := st'\<rparr>)"
| cleanup: "CleanupUnused k unload now age order (mg_state mgr) = Some (r, st') \<Longrightarrow>
    eim_step k lru unload Silent mgr (mgr\<lparr>mg_state := st'\<rparr>)"
| metrics: "UpdateMetricSummary mgr = (vs, mgr') \<Longrightarrow> eim_step k lru unload Silent mgr mgr'"

inductive_cases eim_acquired_cases: "eim_step k lru unload (Acquired f) mgr mgr'"
inductive_cases eim_released_cases: "eim_step k lru unload (Released f) mgr mgr'"
inductive_cases eim_silent_cases: "eim_step k lru unload Silent mgr mgr'"

text \<open>The files that wait for their removal are those without references.\<close>

definition file_inv :: "('d, 'c) eim_entry option \<Rightarrow> int option \<Rightarrow> bool" where
  "file_inv e since \<longleftrightarrow> (since \<noteq> None \<longleftrightarrow> (\<exists>x. e = Some x \<and> en_rc x = 0))"

lemma file_inv_simps [simp]:
  "file_inv None since \<longleftrightarrow> since = None" "file_inv (Some e) since \<longleftrightarrow> (since \<noteq> None \<longleftrightarrow> en_rc e = 0)"
  by (simp_all add: file_inv_def)

definition eim_inv :: "('m, 'd, 'c) eimState \<Rightarrow> bool" where
  "eim_inv st \<longleftrightarrow> (\<forall>f. file_inv (es_executables st f) (es_unusedExecutables st f))"

definition rc_of :: "('m, 'd, 'c) eimState \<Rightarrow> FileID \<Rightarrow> nat" where
  "rc_of st f = (case es_executables st f of None \<Rightarrow> 0 | Some e \<Rightarrow> unat (en_rc e))"

lemma same_files_inv: "same_files st st' \<Longrightarrow> eim_inv st' = eim_inv st" "same_files st st' \<Longrightarrow> rc_of st' = rc_of st"
  by (simp_all add: same_files_def eim_inv_def rc_of_def fun_eq_iff dom_def)

lemma eim_invD: "eim_inv st \<Longrightarrow> es_executables st f = Some e \<Longrightarrow> es_unusedExecutables st f \<noteq> None \<longleftrightarrow> en_rc e = 0"
  by (metis eim_inv_def file_inv_simps(2))

lemma incRef_law:
  assumes "incRef f st = Some (info, st')" "eim_inv st" "Suc (rc_of st f) < 2 ^ 64"
  shows "eim_inv st'" "rc_of st' = (rc_of st)(f := Suc (rc_of st f))"
proof -
  obtain e where e: "es_executables st f = Some e" using assms(1) by (auto simp: incRef_def split: option.splits)
  have u: "unat (en_rc e + 1) = Suc (unat (en_rc e))"
    using assms(3) e by (intro unat_Suc_no_wrap [of _ "2 ^ 64 - 1"]) (auto simp: rc_of_def)
  then have nz: "en_rc e + 1 \<noteq> 0" by (metis nat.distinct(1) unat_0)
  have z: "en_rc e + 1 = 1 \<longleftrightarrow> en_rc e = 0" by simp
  have d: "es_unusedExecutables st f \<noteq> None \<longleftrightarrow> en_rc e = 0" using eim_invD [OF assms(2) e] .
  show "rc_of st' = (rc_of st)(f := Suc (rc_of st f))"
    using assms(1) e u by (auto simp: incRef_def Let_def rc_of_def fun_eq_iff)
  show "eim_inv st'"
    using assms(1,2) e nz d z by (auto simp: incRef_def Let_def eim_inv_def split: if_splits)
qed

lemma DecRef_law:
  assumes "DecRef now f st = (r, st')" "eim_inv st"
  shows "eim_inv st'" "r = None \<Longrightarrow> 0 < rc_of st f \<and> rc_of st' = (rc_of st)(f := rc_of st f - 1)"
    and "r \<noteq> None \<Longrightarrow> st' = st"
proof -
  show "eim_inv st'"
  proof (cases "r = None")
    case True
    then obtain e where e: "es_executables st f = Some e" "en_rc e \<noteq> 0"
      using assms(1) by (auto simp: DecRef_def split: option.splits if_splits)
    then have "es_unusedExecutables st f = None" using eim_invD [OF assms(2)] by blast
    then show ?thesis
      using assms e by (auto simp: DecRef_def Let_def eim_inv_def split: if_splits)
  next
    case False
    then show ?thesis using assms by (auto simp: DecRef_def Let_def split: option.splits if_splits)
  qed
  show "r \<noteq> None \<Longrightarrow> st' = st"
    using assms(1) by (auto simp: DecRef_def Let_def split: option.splits if_splits)
  assume "r = None"
  then obtain e where e: "es_executables st f = Some e" "en_rc e \<noteq> 0"
    using assms(1) by (auto simp: DecRef_def split: option.splits if_splits)
  then have "unat (en_rc e - 1) = unat (en_rc e) - 1" "0 < unat (en_rc e)"
    by (simp_all add: unat_minus_one unat_gt_0)
  then show "0 < rc_of st f \<and> rc_of st' = (rc_of st)(f := rc_of st f - 1)"
    using assms(1) e by (auto simp: DecRef_def Let_def rc_of_def fun_eq_iff split: if_splits)
qed

section \<open>Cleaning up\<close>

text \<open>The files that a clean-up may remove: unused since the cut-off time or longer.\<close>

definition expired :: "int \<Rightarrow> ('m, 'd, 'c) eimState \<Rightarrow> FileID set" where
  "expired cutoff st = {f. \<exists>t. es_unusedExecutables st f = Some t \<and> t \<le> cutoff}"

text \<open>
  What one round of the clean-up does to the tables: it removes the entries of some expired
  files, of all of those iterated over unless it stops with an error of the eBPF maps.
\<close>

lemma cleanup_loop_files:
  assumes "cleanup_loop k unload cutoff order st = Some (r, st')" and "eim_inv st"
  shows "\<exists>R \<subseteq> expired cutoff st \<inter> set order.
    es_executables st' = es_executables st |` (- R) \<and> es_unusedExecutables st' = es_unusedExecutables st |` (- R) \<and>
    (r = None \<and> R = expired cutoff st \<inter> set order \<or> (\<exists>f e. r = Some (ErrUnload f e)))"
  using assms
proof (induction order arbitrary: st)
  case Nil
  then show ?case by (intro exI [of _ "{}"]) simp
next
  case (Cons f fs)
  consider (skip) "f \<notin> expired cutoff st" | (hit) t e where "es_unusedExecutables st f = Some t" "t \<le> cutoff"
      "es_executables st f = Some e" "en_rc e = 0"
    using spec [OF Cons.prems(2) [unfolded eim_inv_def], of f] by (auto simp: expired_def file_inv_def)
  then show ?case
  proof cases
    case skip
    then have "cleanup_loop k unload cutoff fs st = Some (r, st')"
      using Cons.prems(1) by (auto simp: expired_def split: option.splits if_splits)
    from Cons.IH [OF this Cons.prems(2)] skip show ?thesis by auto
  next
    case hit
    then obtain er st1 where u: "unloadDeltas k f (en_mapRef e) st = Some (er, st1)"
      using Cons.prems(1) by (auto split: option.splits)
    have sf: "es_executables st1 = es_executables st" "es_unusedExecutables st1 = es_unusedExecutables st"
      using same_files_unloadDeltas [OF u] by (auto simp: same_files_def)
    show ?thesis
    proof (cases er)
      case (Some x)
      then show ?thesis using Cons.prems(1) hit u sf by (intro exI [of _ "{}"]) auto
    next
      case None
      define st2 where "st2 = (case ei_Data (en_Info e) of None \<Rightarrow> st1
          | Some d \<Rightarrow> st1\<lparr>es_ebpf := Data_Unload unload d (es_ebpf st1)\<rparr>)"
      define st3 where "st3 = st2\<lparr>es_executables := (es_executables st2)(f := None),
          es_unusedExecutables := (es_unusedExecutables st2)(f := None)\<rparr>"
      have 3: "es_executables st3 = es_executables st |` (- {f})" "es_unusedExecutables st3 = es_unusedExecutables st |` (- {f})"
        by (auto simp: st3_def st2_def sf restrict_map_def split: option.split)
      then have inv: "eim_inv st3" using Cons.prems(2) by (auto simp: eim_inv_def restrict_map_def)
      have ex: "expired cutoff st3 = expired cutoff st - {f}" by (auto simp: expired_def 3 restrict_map_def)
      have f: "f \<in> expired cutoff st" using hit by (auto simp: expired_def)
      have "cleanup_loop k unload cutoff fs st3 = Some (r, st')"
        using Cons.prems(1) hit u None by (simp add: st3_def st2_def Let_def)
      from Cons.IH [OF this inv] obtain R where R: "R \<subseteq> expired cutoff st3 \<inter> set fs"
          "es_executables st' = es_executables st3 |` (- R)" "es_unusedExecutables st' = es_unusedExecutables st3 |` (- R)"
          "r = None \<and> R = expired cutoff st3 \<inter> set fs \<or> (\<exists>f e. r = Some (ErrUnload f e))" by blast
      have "- insert f R = - {f} \<inter> - R" by auto
      then show ?thesis using R f by (intro exI [of _ "insert f R"]) (auto simp: 3 ex)
    qed
  qed
qed

lemma cleanup_law:
  assumes "cleanup_loop k unload cutoff order st = Some (r, st')" and inv: "eim_inv st"
  shows "eim_inv st'" "rc_of st' = rc_of st"
proof -
  obtain R where R: "R \<subseteq> expired cutoff st" "es_executables st' = es_executables st |` (- R)"
      "es_unusedExecutables st' = es_unusedExecutables st |` (- R)"
    using cleanup_loop_files [OF assms] by blast
  then show "eim_inv st'" using inv by (auto simp: eim_inv_def restrict_map_def)
  have "rc_of st f = 0" if "f \<in> R" for f
    using that R(1) spec [OF inv [unfolded eim_inv_def], of f] by (auto simp: expired_def file_inv_def rc_of_def)
  then show "rc_of st' = rc_of st" using R(2) by (auto simp: fun_eq_iff rc_of_def restrict_map_def)
qed

section \<open>Kernel maps\<close>

text \<open>
  What a kernel map promises: an update is seen by lookups of its key only, a failed one by none,
  and the capacity is fixed.
\<close>

definition kmap_ok :: "'m kops \<Rightarrow> bool" where
  "kmap_ok k \<longleftrightarrow> (\<forall>key v fl m err m'. km_Update k key v fl m = (err, m') \<longrightarrow>
     km_MaxEntries k m' = km_MaxEntries k m \<and>
     (\<forall>key'. km_Lookup k key' m' = (if err = None \<and> key' = key then Inr v else km_Lookup k key' m)))"

text \<open>A map in memory with these laws, for examples.\<close>

definition mem_kops :: "(kkey \<rightharpoonup> kval) kops" where
  "mem_kops =
     \<lparr>km_Update = (\<lambda>key v fl m. if fl = UpdateNoExist \<and> m key \<noteq> None then (Some (ErrKernel 17), m)
                                else (None, m(key \<mapsto> v))),
      km_Delete = (\<lambda>key m. if m key = None then (Some (ErrKernel 2), m) else (None, m(key := None))),
      km_Lookup = (\<lambda>key m. case m key of None \<Rightarrow> Inl (ErrKernel 2) | Some v \<Rightarrow> Inr v),
      km_BatchUpdate = (\<lambda>keys vs fl m. ((int (length keys), None), m(keys [\<mapsto>] vs))),
      km_BatchDelete = (\<lambda>keys m. ((int (length keys), None), m |` (- set keys))),
      km_MaxEntries = (\<lambda>_. 0x4000), km_MaximizeMemlock = None, km_NewMap = (\<lambda>_. Inr Map.empty),
      km_NewProbeMap = (\<lambda>_ _. Inr Map.empty), km_Clone = Inr\<rparr>"

definition mem_impl :: "(kkey \<rightharpoonup> kval) impl" where
  "mem_impl =
     \<lparr>im_InterpreterOffsets = Map.empty, im_PyProcs = Map.empty,
      im_ExeIDToStackDeltaMaps = replicate 16 Map.empty, im_StackDeltaPageToInfo = Map.empty,
      im_PidPageToMappingInfo = Map.empty, im_UnwindInfoArray = Map.empty, im_ReportedPIDs = Map.empty,
      im_errCounter = (\<lambda>_. 0), im_hasLPMTrieBatchOperations = True,
      im_updateWorkers = newAsyncMapUpdaterPool updatePoolWorkers, im_ctxDone = False\<rparr>"

definition no_deferred :: "unit deferredLRU" where
  "no_deferred = \<lparr>dl_Get = (\<lambda>_ _. (False, ())), dl_Add = (\<lambda>_ _. ())\<rparr>"

definition mem_manager :: "(kkey \<rightharpoonup> kval, unit, unit, unit) ExecutableInfoManager" where
  "mem_manager = NewExecutableInfoManager None (\<lambda>_ ebpf. (Inr None, ebpf)) () mem_impl"

lemma kmap_ok_mem: "kmap_ok mem_kops"
  by (simp add: kmap_ok_def mem_kops_def split: option.split)

lemma begin_law:
  assumes "AddOrIncRef_begin lru f mgr = (r, mgr')"
  shows "(\<exists>info. r = Some (Inr info) \<and> incRef f (mg_state mgr) = Some (info, mg_state mgr')) \<or>
    (r = None \<or> r = Some (Inl ErrDeferredFileID)) \<and> mg_state mgr' = mg_state mgr"
  using assms by (auto simp: AddOrIncRef_begin_def Let_def split: prod.splits if_splits option.splits)

lemma gather_law:
  assumes "AddOrIncRef_gather isNotExist lru dec f elfRef mgr = Some (r, mgr')"
  shows "mg_state mgr' = mg_state mgr"
  using assms by (auto simp: AddOrIncRef_gather_def Let_def split: prod.splits if_splits option.splits sum.splits)

text \<open>The second section: another caller was faster, the deltas could not be loaded, or there is a new entry.\<close>

lemma commit_cases:
  assumes "AddOrIncRef_commit k lru f iv li mgr = Some (r, mgr')"
  obtains (hit) info where "r = Inr info" "incRef f (mg_state mgr) = Some (info, mg_state mgr')"
  | (failed) e where "r = Inl (ErrLoadDeltas e)" "same_files (mg_state mgr) (mg_state mgr')"
      "es_executables (mg_state mgr) f = None"
  | (fresh) info st1 where "r = Inr (en_Info info)" "same_files (mg_state mgr) st1" "en_rc info = 1"
      "es_executables (mg_state mgr) f = None"
      "mg_state mgr' = st1\<lparr>es_executables := (es_executables st1)(f \<mapsto> info)\<rparr>"
proof (cases "incRef f (mg_state mgr)")
  case (Some a)
  then show ?thesis using assms hit by (cases a) (auto simp: AddOrIncRef_commit_def)
next
  case None
  then have n: "es_executables (mg_state mgr) f = None" by (auto simp: incRef_def Let_def split: option.splits)
  obtain r1 st1 where l: "loadDeltas k f iv (mg_state mgr) = Some (r1, st1)"
    using assms None by (auto simp: AddOrIncRef_commit_def split: option.splits)
  note sf = same_files_loadDeltas [OF l]
  show ?thesis
  proof (cases r1)
    case (Inl e)
    then show ?thesis using assms None l sf n failed by (auto simp: AddOrIncRef_commit_def)
  next
    case (Inr mr)
    obtain d st2 where d: "detectAndLoadInterpData \<lparr>li_fileID = f, li_intervals = iv\<rparr> st1 = (d, st2)" by fastforce
    have sf2: "same_files (mg_state mgr) st2"
      using sf same_files_detect [of st1 "\<lparr>li_fileID = f, li_intervals = iv\<rparr>"] d by (auto intro: same_files_trans)
    let ?info = "\<lparr>en_Info = \<lparr>ei_Data = d, ei_LibcInfo = li\<rparr>, en_mapRef = mr, en_rc = 1\<rparr>"
    have "r = Inr (en_Info ?info)" "mg_state mgr' = st2\<lparr>es_executables := (es_executables st2)(f \<mapsto> ?info)\<rparr>"
      using assms None l Inr d by (auto simp: AddOrIncRef_commit_def)
    then show ?thesis using fresh [of ?info st2] sf2 n by simp
  qed
qed

lemma fresh_law:
  assumes "same_files st st1" "eim_inv st" "es_executables st f = None" "en_rc info = 1"
    "st' = st1\<lparr>es_executables := (es_executables st1)(f \<mapsto> info)\<rparr>"
  shows "eim_inv st'" "rc_of st' = (rc_of st)(f := Suc (rc_of st f))"
proof -
  have "es_unusedExecutables st f = None" using spec [OF assms(2) [unfolded eim_inv_def], of f] assms(3) by simp
  then show "eim_inv st'" using assms by (auto simp: eim_inv_def same_files_def)
  show "rc_of st' = (rc_of st)(f := Suc (rc_of st f))"
    using assms by (auto simp: rc_of_def same_files_def fun_eq_iff)
qed

interpretation eimRefs: ref_counting "eim_step k lru unload" "\<lambda>mgr. eim_inv (mg_state mgr)" "\<lambda>mgr. rc_of (mg_state mgr)" "2 ^ 64"
proof
  fix f :: FileID and s s'
  assume st: "eim_step k lru unload (Acquired f) s s'" and inv: "eim_inv (mg_state s)"
    and lt: "Suc (rc_of (mg_state s) f) < 2 ^ 64"
  from st show "eim_inv (mg_state s') \<and> rc_of (mg_state s') = (rc_of (mg_state s))(f := Suc (rc_of (mg_state s) f))"
  proof (rule eim_acquired_cases)
    fix info assume "AddOrIncRef_begin lru f s = (Some (Inr info), s')"
    then have "incRef f (mg_state s) = Some (info, mg_state s')" using begin_law [of lru f s] by auto
    from incRef_law [OF this inv lt] show ?thesis by blast
  next
    fix iv li info assume c: "AddOrIncRef_commit k lru f iv li s = Some (Inr info, s')"
    show ?thesis
    proof (rule commit_cases [OF c])
      fix i assume "incRef f (mg_state s) = Some (i, mg_state s')"
      from incRef_law [OF this inv lt] show ?thesis by blast
    next
      fix i st1
      assume "same_files (mg_state s) st1" "en_rc i = 1" "es_executables (mg_state s) f = None"
        "mg_state s' = st1\<lparr>es_executables := (es_executables st1)(f \<mapsto> i)\<rparr>"
      from fresh_law [OF this(1) inv this(3,2,4)] show ?thesis by blast
    qed simp
  qed
next
  fix f :: FileID and s s'
  assume st: "eim_step k lru unload (Released f) s s'" and inv: "eim_inv (mg_state s)"
  from st show "eim_inv (mg_state s') \<and> 0 < rc_of (mg_state s) f \<and>
      rc_of (mg_state s') = (rc_of (mg_state s))(f := rc_of (mg_state s) f - 1)"
    by (rule eim_released_cases) (use DecRef_law [OF _ inv] in auto)
next
  fix s s'
  assume st: "eim_step k lru unload Silent s s'" and inv: "eim_inv (mg_state s)"
  have "mg_state s' = mg_state s \<or> same_files (mg_state s) (mg_state s') \<or>
      (\<exists>now age order r. CleanupUnused k unload now age order (mg_state s) = Some (r, mg_state s'))"
    using st
  proof (rule eim_silent_cases)
    fix f iv li e assume "AddOrIncRef_commit k lru f iv li s = Some (Inl e, s')"
    then show ?thesis by (rule commit_cases) auto
  next
    fix now f e st' assume "s' = s\<lparr>mg_state := st'\<rparr>" "DecRef now f (mg_state s) = (Some e, st')"
    then show ?thesis using DecRef_law(3) [OF _ inv] by fastforce
  qed (use begin_law gather_law in \<open>fastforce simp: UpdateMetricSummary_def GetAndResetStatistics_def Let_def\<close>)+
  then show "eim_inv (mg_state s') \<and> rc_of (mg_state s') = rc_of (mg_state s)"
    using inv same_files_inv cleanup_law [OF _ inv] by (auto simp: CleanupUnused_def)
qed

text \<open>
  C5: Reference counts are exact: after any interleaving of the operations of the manager, by
  any number of callers (fewer than \<open>2 ^ 64\<close> steps), the count of a file is the number of
  successful \<open>AddOrIncRef\<close> less the number of successful \<open>DecRef\<close>, and exactly the files
  with count zero wait for their removal.
\<close>

theorem eim_counts:
  fixes mgr :: "('m, 'd, 'c, 'l) ExecutableInfoManager"
  assumes "labelled_run (eim_step k lru unload) (NewExecutableInfoManager python native deferred ebpf) es mgr"
    and "length es + 1 < 2 ^ 64"
  shows "rc_of (mg_state mgr) f + count_list es (Released f) = count_list es (Acquired f) \<and>
    (es_unusedExecutables (mg_state mgr) f \<noteq> None \<longleftrightarrow>
      (\<exists>e. es_executables (mg_state mgr) f = Some e \<and> en_rc e = 0))"
proof -
  let ?m = "NewExecutableInfoManager python native deferred ebpf :: ('m, 'd, 'c, 'l) ExecutableInfoManager"
  have "eim_inv (mg_state ?m)" "\<And>f. rc_of (mg_state ?m) f = 0"
    by (simp_all add: NewExecutableInfoManager_def eim_inv_def rc_of_def)
  from eimRefs.run_counts [OF assms(1) this assms(2)] show ?thesis
    by (auto simp: eim_inv_def file_inv_def)
qed

theorem eim_counts_witness:
  "\<exists>mgr. labelled_run (eim_step mem_kops no_deferred (\<lambda>_ e. e)) mem_manager [Acquired 7] mgr \<and>
     rc_of (mg_state mgr) 7 = 1"
proof -
  obtain info mgr where c: "AddOrIncRef_commit mem_kops no_deferred 7 IntervalData_zero None mem_manager = Some (Inr info, mgr)"
    by (simp add: AddOrIncRef_commit_def incRef_def mem_manager_def NewExecutableInfoManager_def loadDeltas_def
        IntervalData_zero_def detectAndLoadInterpData_def)
  have "labelled_run (eim_step mem_kops no_deferred (\<lambda>_ e. e)) mem_manager ([] @ [Acquired 7]) mgr"
    by (rule run_snoc [OF run_Nil]) (rule commit_ok [OF c])
  then have r: "labelled_run (eim_step mem_kops no_deferred (\<lambda>_ e. e)) mem_manager [Acquired 7] mgr" by simp
  from eim_counts [OF r [unfolded mem_manager_def], of 7] r show ?thesis by auto
qed

text \<open>
  C36: The clean-up removes nothing that is in use: it changes the entries of expired files
  only, and the two internal errors that it checks for cannot happen; if it succeeds, exactly the expired files
  are gone.
\<close>

theorem CleanupUnused_expired:
  assumes "CleanupUnused k unload now age order st = Some (r, st')"
    and "eim_inv st" and "set order = dom (es_unusedExecutables st)"
  shows "(\<forall>f. f \<notin> expired (now - age) st \<longrightarrow> es_executables st' f = es_executables st f) \<and>
    (\<forall>f e. es_executables st f = Some e \<and> en_rc e \<noteq> 0 \<longrightarrow> es_executables st' f = Some e) \<and>
    (r = None \<and> (\<forall>f \<in> expired (now - age) st. es_executables st' f = None) \<or> (\<exists>f e. r = Some (ErrUnload f e)))"
proof -
  obtain R where R: "R \<subseteq> expired (now - age) st" "es_executables st' = es_executables st |` (- R)"
      "r = None \<and> R = expired (now - age) st \<inter> set order \<or> (\<exists>f e. r = Some (ErrUnload f e))"
    using cleanup_loop_files [OF assms(1) [unfolded CleanupUnused_def] assms(2)] by blast
  have "f \<notin> expired (now - age) st" if "es_executables st f = Some e" "en_rc e \<noteq> 0" for f e
    using eim_invD [OF assms(2) that(1)] that(2) by (auto simp: expired_def)
  moreover have "expired (now - age) st \<inter> set order = expired (now - age) st"
    using assms(3) by (auto simp: expired_def)
  ultimately show ?thesis using R by (auto simp: restrict_map_def)
qed

definition idle_state :: "(kkey \<rightharpoonup> kval, unit, unit) eimState" where
  "idle_state = (mg_state mem_manager)\<lparr>
     es_executables := [7 \<mapsto> \<lparr>en_Info = \<lparr>ei_Data = None, ei_LibcInfo = None\<rparr>, en_mapRef = mapRef_zero, en_rc = 0\<rparr>],
     es_unusedExecutables := [7 \<mapsto> 5]\<rparr>"

theorem CleanupUnused_expired_witness:
  "\<exists>r st'. CleanupUnused mem_kops (\<lambda>_ e. e) 100 10 [7] idle_state = Some (r, st') \<and> es_executables st' 7 = None"
proof -
  obtain st' where c: "CleanupUnused mem_kops (\<lambda>_ e. e) 100 10 [7] idle_state = Some (None, st')"
    by (simp add: CleanupUnused_def idle_state_def unloadDeltas_def mapRef_zero_def)
  have "eim_inv idle_state" "set [7] = dom (es_unusedExecutables idle_state)" "7 \<in> expired (100 - 10) idle_state"
    by (simp_all add: eim_inv_def idle_state_def expired_def)
  with CleanupUnused_expired [OF c this(1,2)] c show ?thesis by auto
qed

end
