(* ===== verification/ExecDeltas.thy ===== *)
theory ExecDeltas
  imports ExecInfo "HOL-Library.Sublist"
begin

text \<open>
  What the manager of executables writes to the eBPF maps (definitions in \<open>ExecInfo\<close>): the table
  of unwind descriptors is in one to one correspondence with the kernel's array, a merge opcode
  stands for the delta that it replaces, the entry of a page names exactly the deltas of that
  page, and what happens when loading or unloading goes wrong.
\<close>

unbundle bit_operations_syntax

section \<open>The table of unwind descriptors\<close>

definition UnwindInfoMaxEntries :: nat where [simp]: "UnwindInfoMaxEntries = 0x4000"

text \<open>
  The table gives the descriptors consecutive indices, which the kernel's array has room for, and
  the array holds each of them there.
\<close>

definition index_inv :: "'m kops \<Rightarrow> ('m, 'd, 'c) eimState \<Rightarrow> bool" where
  "index_inv k st \<longleftrightarrow>
     (let idx = es_unwindInfoIndex st; arr = im_UnwindInfoArray (es_ebpf st)
      in length idx \<le> unat (km_MaxEntries k arr) \<and> unat (km_MaxEntries k arr) \<le> UnwindInfoMaxEntries \<and>
         distinct (map fst idx) \<and>
         map snd idx = rev (map word_of_nat [0 ..< length idx]) \<and>
         (\<forall>(x, i) \<in> set idx. km_Lookup k (KU32 (ucast i)) arr = Inr (VInfo x)))"

lemma getUnwindInfoIndex_new:
  assumes "\<not> is_command info" "map_of (es_unwindInfoIndex st) info = None"
    and "getUnwindInfoIndex k info st = (Inr i, st')"
  shows "i = word_of_nat (length (es_unwindInfoIndex st))"
    and "es_unwindInfoIndex st' = (info, i) # es_unwindInfoIndex st"
    and "(ucast i :: u32) < km_MaxEntries k (im_UnwindInfoArray (es_ebpf st))"
    and "km_Update k (KU32 (ucast i)) (VInfo info) UpdateAny (im_UnwindInfoArray (es_ebpf st)) =
      (None, im_UnwindInfoArray (es_ebpf st'))"
  using assms
  by (auto simp: getUnwindInfoIndex_def UpdateUnwindInfo_def trackMapError_def Let_def
      split: prod.splits option.splits if_splits)

lemma getUnwindInfoIndex_keep:
  assumes "getUnwindInfoIndex k info st = (r, st')"
    and "is_command info \<or> map_of (es_unwindInfoIndex st) info \<noteq> None \<or> (\<exists>e. r = Inl e)"
  shows "es_unwindInfoIndex st' = es_unwindInfoIndex st"
    and "im_UnwindInfoArray (es_ebpf st') = im_UnwindInfoArray (es_ebpf st) \<or>
      (\<exists>i e. km_Update k (KU32 i) (VInfo info) UpdateAny (im_UnwindInfoArray (es_ebpf st)) =
        (Some e, im_UnwindInfoArray (es_ebpf st')))"
  using assms
  by (auto simp: getUnwindInfoIndex_def UpdateUnwindInfo_def trackMapError_def Let_def
      split: prod.splits option.splits if_splits)

lemma unat_index: "n < 2 ^ 16 \<Longrightarrow> unat (word_of_nat n :: u16) = n"
  by (simp add: unat_of_nat take_bit_nat_eq_self)

lemma unat_u16_u32: "unat (ucast (i :: u16) :: u32) = unat i"
  by (simp add: unsigned_ucast_eq take_bit_nat_eq_self order_less_trans [OF unsigned_less])

lemma index_bound:
  assumes "index_inv k st" "(x, j) \<in> set (es_unwindInfoIndex st)"
  shows "unat j < length (es_unwindInfoIndex st)"
proof -
  let ?n = "length (es_unwindInfoIndex st)"
  have "set (map snd (es_unwindInfoIndex st)) = word_of_nat ` {0 ..< ?n}"
    using assms(1) by (simp add: index_inv_def Let_def del: set_map) simp
  then obtain n where "n < ?n" "j = word_of_nat n" using assms(2) by force
  moreover have "?n \<le> 0x4000" using assms(1) by (simp add: index_inv_def Let_def)
  ultimately show ?thesis by (simp add: unat_index)
qed

lemma and_command_flag: "unat i < 0x8000 \<Longrightarrow> i AND DeltaCommandFlag = 0" for i :: u16
proof -
  assume "unat i < 0x8000"
  then have "unat (take_bit 15 i) = unat i" by (simp only: unsigned_take_bit_eq) (simp add: take_bit_nat_eq_self)
  then have "take_bit 15 i = i" by (simp add: word_unat_eq_iff)
  then have n: "\<not> bit i 15" by (metis bit_take_bit_iff less_irrefl)
  have eq: "DeltaCommandFlag = push_bit 15 1" by (simp add: push_bit_eq_mult)
  show "i AND DeltaCommandFlag = 0"
    unfolding eq
  proof (rule bit_word_eqI)
    fix j assume "j < LENGTH(16)"
    then have "15 \<le> j \<Longrightarrow> j = 15" by simp
    then show "bit (i AND push_bit 15 1) j = bit 0 j" using n by (simp only: bit_simps) auto
  qed
qed

lemma index_inv_step:
  assumes "kmap_ok k" and inv: "index_inv k st" and g: "getUnwindInfoIndex k info st = (r, st')"
  shows "index_inv k st'"
proof (cases "is_command info \<or> map_of (es_unwindInfoIndex st) info \<noteq> None \<or> (\<exists>e. r = Inl e)")
  case True
  note keep = getUnwindInfoIndex_keep [OF g True]
  have "km_MaxEntries k (im_UnwindInfoArray (es_ebpf st')) = km_MaxEntries k (im_UnwindInfoArray (es_ebpf st))"
    "km_Lookup k key (im_UnwindInfoArray (es_ebpf st')) = km_Lookup k key (im_UnwindInfoArray (es_ebpf st))" for key
    using keep(2) assms(1) unfolding kmap_ok_def by (metis option.distinct(1))+
  then show ?thesis using inv keep(1) by (simp add: index_inv_def Let_def)
next
  case False
  then obtain i where r: "r = Inr i" by (cases r) auto
  let ?idx = "es_unwindInfoIndex st" and ?arr = "im_UnwindInfoArray (es_ebpf st)"
  note new = getUnwindInfoIndex_new [of info st k i st'] False g [unfolded r]
  have i: "i = word_of_nat (length ?idx)" and idx: "es_unwindInfoIndex st' = (info, i) # ?idx"
    and lt: "(ucast i :: u32) < km_MaxEntries k ?arr"
    and upd: "km_Update k (KU32 (ucast i)) (VInfo info) UpdateAny ?arr = (None, im_UnwindInfoArray (es_ebpf st'))"
    using new by auto
  have len: "length ?idx \<le> 0x4000" using inv by (simp add: index_inv_def Let_def)
  then have ui: "unat i = length ?idx" by (simp add: i unat_index)
  have ltn: "length ?idx < unat (km_MaxEntries k ?arr)"
    using lt ui by (simp add: word_less_nat_alt unat_u16_u32)
  have fresh: "info \<notin> fst ` set ?idx" using False by (simp add: map_of_eq_None_iff)
  have old: "(ucast j :: u32) \<noteq> ucast i" if "(x, j) \<in> set ?idx" for x j
  proof -
    have "unat j < unat i" using index_bound [OF inv that] ui by simp
    then show ?thesis by (metis less_irrefl unat_u16_u32)
  qed
  show ?thesis
    using inv upd assms(1) [unfolded kmap_ok_def, rule_format, OF upd] ltn fresh old
    by (auto simp: index_inv_def Let_def idx i)
qed

text \<open>
  C25: Unwind descriptors and indices correspond one to one: asking for the index of a descriptor keeps the
  table consistent with the kernel's array, never changes an index given before, and gives
  different descriptors different indices, none of which can be taken for a command.
\<close>

theorem getUnwindInfoIndex_sound:
  assumes "kmap_ok k" and "index_inv k st" and "getUnwindInfoIndex k info st = (Inr i, st')" and "\<not> is_command info"
  shows "index_inv k st' \<and> map_of (es_unwindInfoIndex st') info = Some i \<and> i AND DeltaCommandFlag = 0 \<and>
    (\<forall>x j. map_of (es_unwindInfoIndex st) x = Some j \<longrightarrow> map_of (es_unwindInfoIndex st') x = Some j) \<and>
    (\<forall>x. map_of (es_unwindInfoIndex st') x = Some i \<longrightarrow> x = info) \<and>
    km_Lookup k (KU32 (ucast i)) (im_UnwindInfoArray (es_ebpf st')) = Inr (VInfo info)"
proof -
  let ?idx = "es_unwindInfoIndex st'"
  have inv: "index_inv k st'" by (rule index_inv_step [OF assms(1,2,3)])
  have m: "map_of ?idx info = Some i" and keep: "\<forall>x j. map_of (es_unwindInfoIndex st) x = Some j \<longrightarrow> map_of ?idx x = Some j"
  proof -
    show "map_of ?idx info = Some i"
    proof (cases "map_of (es_unwindInfoIndex st) info")
      case None
      then show ?thesis using getUnwindInfoIndex_new(2) [OF assms(4) None assms(3)] by simp
    next
      case (Some j)
      then show ?thesis using assms(3,4) by (simp add: getUnwindInfoIndex_def)
    qed
    show "\<forall>x j. map_of (es_unwindInfoIndex st) x = Some j \<longrightarrow> map_of ?idx x = Some j"
      using getUnwindInfoIndex_new(2) [OF assms(4) _ assms(3)] getUnwindInfoIndex_keep(1) [OF assms(3)]
      by (cases "map_of (es_unwindInfoIndex st) info") auto
  qed
  have len: "length ?idx \<le> 0x4000" using inv by (simp add: index_inv_def Let_def)
  have inj: "inj_on (word_of_nat :: nat \<Rightarrow> u16) {0 ..< length ?idx}"
    using len by (intro inj_on_inverseI [of _ unat]) (simp add: unat_index)
  then have dist: "distinct (map snd ?idx)" using inv by (simp add: index_inv_def Let_def distinct_map)
  have flag: "i AND DeltaCommandFlag = 0"
    using index_bound [OF inv map_of_SomeD [OF m]] len by (intro and_command_flag) simp
  have "x = info" if "map_of ?idx x = Some i" for x
    using dist map_of_SomeD [OF m] map_of_SomeD [OF that] by (metis distinct_map fst_conv inj_onD snd_conv)
  moreover have "km_Lookup k (KU32 (ucast i)) (im_UnwindInfoArray (es_ebpf st')) = Inr (VInfo info)"
    using inv map_of_SomeD [OF m] by (auto simp: index_inv_def Let_def)
  ultimately show ?thesis using inv m keep flag by blast
qed

theorem getUnwindInfoIndex_sound_witness:
  "\<exists>i st'. getUnwindInfoIndex mem_kops UnwindInfoLR (mg_state mem_manager) = (Inr i, st') \<and> i = 0 \<and>
     km_Lookup mem_kops (KU32 (ucast i)) (im_UnwindInfoArray (es_ebpf st')) = Inr (VInfo UnwindInfoLR)"
proof -
  have inv: "index_inv mem_kops (mg_state mem_manager)"
    by (simp add: index_inv_def mem_manager_def NewExecutableInfoManager_def mem_kops_def)
  obtain st' where g: "getUnwindInfoIndex mem_kops UnwindInfoLR (mg_state mem_manager) = (Inr 0, st')"
    by (simp add: getUnwindInfoIndex_def UpdateUnwindInfo_def trackMapError_def is_command_def UnwindInfo_consts
        mem_manager_def NewExecutableInfoManager_def mem_kops_def)
  have "\<not> is_command UnwindInfoLR" by (simp add: is_command_def UnwindInfo_consts)
  from getUnwindInfoIndex_sound [OF kmap_ok_mem inv g this] g show ?thesis by blast
qed

section \<open>Merge opcodes\<close>

text \<open>
  What the unwinder does with a merge opcode: from the given number of bytes behind the delta on,
  its parameter is eight larger or smaller.
\<close>

definition merged_offset :: "StackDelta \<Rightarrow> u8 \<Rightarrow> u32" where
  "merged_offset d m = sd_Offset d + ucast (m AND NOT MergeOpcodeNegative)"

definition merged_info :: "UnwindInfo \<Rightarrow> u8 \<Rightarrow> UnwindInfo" where
  "merged_info info m = info\<lparr>ui_Param := ui_Param info + (if m AND MergeOpcodeNegative \<noteq> 0 then - 8 else 8)\<rparr>"

text \<open>
  A merge opcode stands for the delta that it replaces: the place it describes is that of the next delta, and
  the descriptor it describes is that of the next delta but for the flags, which the code does not compare
  (nor copy), and the merge opcode. A command is never merged with its successor, and the next
  delta's flags have no influence.
\<close>

theorem calculateMergeOpcode_sound:
  "(calculateMergeOpcode d n \<noteq> 0 \<longrightarrow>
      \<not> is_command (sd_Info d) \<and> sd_Offset n = merged_offset d (calculateMergeOpcode d n) \<and>
      merged_info (sd_Info d) (calculateMergeOpcode d n) =
        (sd_Info n)\<lparr>ui_Flags := ui_Flags (sd_Info d), ui_MergeOpcode := ui_MergeOpcode (sd_Info d)\<rparr>) \<and>
   calculateMergeOpcode d (n\<lparr>sd_Info := (sd_Info n)\<lparr>ui_Flags := fl\<rparr>\<rparr>) = calculateMergeOpcode d n"
proof (intro conjI impI)
  show "calculateMergeOpcode d (n\<lparr>sd_Info := (sd_Info n)\<lparr>ui_Flags := fl\<rparr>\<rparr>) = calculateMergeOpcode d n"
    by (simp add: calculateMergeOpcode_def Let_def)
  let ?m = "calculateMergeOpcode d n" and ?a = "sd_Offset n - sd_Offset d"
  assume nz: "?m \<noteq> 0"
  then show "\<not> is_command (sd_Info d)" by (auto simp: calculateMergeOpcode_def)
  have a: "?a = 1 \<or> ?a = 2"
  proof -
    have "1 \<le> unat ?a" "unat ?a \<le> 2"
      using nz by (auto simp: calculateMergeOpcode_def Let_def not_less word_le_nat_alt word_less_nat_alt split: if_splits)
    then have "unat ?a = 1 \<or> unat ?a = 2" by linarith
    then show ?thesis by (auto simp: word_unat_eq_iff)
  qed
  have p: "ui_Param (sd_Info n) - ui_Param (sd_Info d) = 8 \<and> ?m = ucast ?a \<or>
      ui_Param (sd_Info n) - ui_Param (sd_Info d) = - 8 \<and> ?m = ucast ?a OR MergeOpcodeNegative"
    using nz by (auto simp: calculateMergeOpcode_def Let_def split: if_splits)
  show "sd_Offset n = merged_offset d ?m"
    using a p by (auto simp: merged_offset_def algebra_simps)
  have eq: "ui_BaseReg (sd_Info n) = ui_BaseReg (sd_Info d)" "ui_AuxBaseReg (sd_Info n) = ui_AuxBaseReg (sd_Info d)"
      "ui_AuxParam (sd_Info n) = ui_AuxParam (sd_Info d)"
    using nz by (auto simp: calculateMergeOpcode_def Let_def split: if_splits)
  have "(0x80 :: u8) \<noteq> 0" by (simp add: word_unat_eq_iff)
  then have "?m AND MergeOpcodeNegative = 0 \<longleftrightarrow> ui_Param (sd_Info n) - ui_Param (sd_Info d) = 8"
    using a p by auto
  then have "ui_Param (sd_Info n) = ui_Param (sd_Info d) + (if ?m AND MergeOpcodeNegative \<noteq> 0 then - 8 else 8)"
    using p by (auto simp: algebra_simps simp del: MergeOpcodeNegative_def)
  then show "merged_info (sd_Info d) ?m =
      (sd_Info n)\<lparr>ui_Flags := ui_Flags (sd_Info d), ui_MergeOpcode := ui_MergeOpcode (sd_Info d)\<rparr>"
    using eq by (cases "sd_Info n"; cases "sd_Info d") (simp add: merged_info_def)
qed

theorem calculateMergeOpcode_sound_witness:
  "let d = \<lparr>sd_Offset = 4, sd_Info = UnwindInfoLR\<rparr>;
       n = \<lparr>sd_Offset = 5, sd_Info = UnwindInfoLR\<lparr>ui_Param := 8\<rparr>\<rparr>
   in calculateMergeOpcode d n = 1 \<and> sd_Offset n = merged_offset d (calculateMergeOpcode d n)"
proof -
  have "calculateMergeOpcode \<lparr>sd_Offset = 4, sd_Info = UnwindInfoLR\<rparr> \<lparr>sd_Offset = 5, sd_Info = UnwindInfoLR\<lparr>ui_Param := 8\<rparr>\<rparr> = 1"
    by (simp add: calculateMergeOpcode_def is_command_def UnwindInfo_consts)
  then show ?thesis
    using calculateMergeOpcode_sound [of "\<lparr>sd_Offset = 4, sd_Info = UnwindInfoLR\<rparr>" "\<lparr>sd_Offset = 5, sd_Info = UnwindInfoLR\<lparr>ui_Param := 8\<rparr>\<rparr>"]
    by (simp add: Let_def)
qed

section \<open>Pages\<close>

text \<open>The places at which \<open>loadDeltas\<close> may add a delta, in its order.\<close>

definition delta_place :: "u64 \<Rightarrow> StackDelta \<Rightarrow> u64" where
  "delta_place start d = (let a = start + ucast (sd_Offset d) in if is_signal (sd_Info d) then a - 1 else a)"

fun delta_places :: "BasicBlock list \<Rightarrow> u64 list" where
  "delta_places [] = []"
| "delta_places (b # bs) = map (delta_place (bb_Start b)) (bb_Deltas b) @
     (if bs = [] \<or> bb_End b + MinimumGap < bb_Start (hd bs) then [bb_End b] else []) @ delta_places bs"

text \<open>
  The places at which deltas were added, with what the two arrays say of them: the low half of the
  address, and the number of deltas in each page.
\<close>

definition page_of :: "u64 \<Rightarrow> u64 \<Rightarrow> nat" where
  "page_of firstPage a = unat (drop_bit StackDeltaPageBits a - firstPage)"

definition load_inv :: "u64 \<Rightarrow> nat \<Rightarrow> ('m, 'd, 'c) loadVars \<Rightarrow> u64 list \<Rightarrow> bool" where
  "load_inv firstPage n v addrs \<longleftrightarrow>
     map se_AddressLow (lv_ebpfDeltas v) = map ucast addrs \<and> length (lv_numDeltasPerPage v) = n \<and>
     (\<forall>p < n. lv_numDeltasPerPage v ! p = word_of_nat (length (filter (\<lambda>a. page_of firstPage a = p) addrs))) \<and>
     (\<forall>a \<in> set addrs. page_of firstPage a < n)"

lemma addDelta_inv:
  assumes "addDelta k fp a i v = Some (None, v')" and "load_inv fp n v addrs"
  shows "load_inv fp n v' addrs \<or> load_inv fp n v' (addrs @ [a])"
proof -
  obtain idx st where g: "getUnwindInfoIndex k i (lv_state v) = (Inr idx, st)"
    using assms(1) by (auto simp: addDelta_def split: prod.splits sum.splits)
  show ?thesis
  proof (cases "lv_ebpfDeltas v = [] \<or> se_UnwindInfo (last (lv_ebpfDeltas v)) \<noteq> idx")
    case False
    then have "v' = v\<lparr>lv_state := st\<rparr>" using assms(1) g by (simp add: addDelta_def Let_def)
    then show ?thesis using assms(2) by (simp add: load_inv_def)
  next
    case True
    let ?p = "drop_bit StackDeltaPageBits a - fp"
    have ok: "unat ?p < length (lv_numDeltasPerPage v)"
      using True assms(1) g by (auto simp: addDelta_def Let_def dest: go_index_okD split: if_splits)
    have v': "v' = v\<lparr>lv_state := st, lv_ebpfDeltas := lv_ebpfDeltas v @ [\<lparr>se_AddressLow = ucast a, se_UnwindInfo = idx\<rparr>],
        lv_numDeltasPerPage := (lv_numDeltasPerPage v)[unat ?p := lv_numDeltasPerPage v ! unat ?p + 1]\<rparr>"
      using True assms(1) g by (auto simp: addDelta_def Let_def split: if_splits)
    have "load_inv fp n v' (addrs @ [a])"
      using assms(2) ok by (auto simp: load_inv_def v' nth_list_update page_of_def)
    then show ?thesis ..
  qed
qed

lemma load_block_inv:
  assumes "load_block k fp s ds u v = Some ((None, u'), v')" and "load_inv fp n v addrs"
  shows "\<exists>more. subseq more (map (delta_place s) ds) \<and> load_inv fp n v' (addrs @ more)"
  using assms
proof (induction ds arbitrary: u v addrs)
  case Nil
  then show ?case by (intro exI [of _ "[]"]) simp
next
  case (Cons d ds)
  show ?case
  proof (cases "ui_MergeOpcode u = 0")
    case False
    then have "load_block k fp s ds (u\<lparr>ui_MergeOpcode := 0\<rparr>) v = Some ((None, u'), v')" using Cons.prems(1) by simp
    from Cons.IH [OF this Cons.prems(2)] show ?thesis by (auto intro: list_emb_Cons)
  next
    case True
    define w where "w = (case ds of [] \<Rightarrow> sd_Info d
        | nextDelta # _ \<Rightarrow> (sd_Info d)\<lparr>ui_MergeOpcode := calculateMergeOpcode d nextDelta\<rparr>)"
    have sig: "is_signal w = is_signal (sd_Info d)"
      by (cases ds) (simp_all add: w_def is_signal_def is_command_def)
    obtain v1 where a: "addDelta k fp (delta_place s d) w v = Some (None, v1)" and
        l: "load_block k fp s ds w v1 = Some ((None, u'), v')"
      using Cons.prems(1) True by (auto simp: w_def [symmetric] Let_def sig delta_place_def split: option.splits)
    from addDelta_inv [OF a Cons.prems(2)] show ?thesis
    proof
      assume "load_inv fp n v1 addrs"
      from Cons.IH [OF l this] show ?thesis by (auto intro: list_emb_Cons)
    next
      assume "load_inv fp n v1 (addrs @ [delta_place s d])"
      from Cons.IH [OF l this] obtain more where "subseq more (map (delta_place s) ds)" "load_inv fp n v' (addrs @ delta_place s d # more)" by auto
      then show ?thesis by (intro exI [of _ "delta_place s d # more"]) simp
    qed
  qed
qed

lemma load_blocks_inv:
  assumes "load_blocks k fp bs u v = Some (None, v')" and "load_inv fp n v addrs"
  shows "\<exists>more. subseq more (delta_places bs) \<and> load_inv fp n v' (addrs @ more)"
  using assms
proof (induction bs arbitrary: u v addrs)
  case Nil
  then show ?case by (intro exI [of _ "[]"]) simp
next
  case (Cons b bs)
  then obtain u1 v1 where l: "load_block k fp (bb_Start b) (bb_Deltas b) u v = Some ((None, u1), v1)"
    by (auto split: option.splits)
  from load_block_inv [OF l Cons.prems(2)] obtain m1 where
    m1: "subseq m1 (map (delta_place (bb_Start b)) (bb_Deltas b))" "load_inv fp n v1 (addrs @ m1)" by blast
  let ?c = "bs = [] \<or> bb_End b + MinimumGap < bb_Start (hd bs)"
  obtain v2 m2 where m2: "load_blocks k fp bs u1 v2 = Some (None, v')" "load_inv fp n v2 ((addrs @ m1) @ m2)"
      "subseq m2 (if ?c then [bb_End b] else [])"
  proof (cases ?c)
    case True
    then obtain v2 where a: "addDelta k fp (bb_End b) UnwindInfoInvalid v1 = Some (None, v2)" and
        r: "load_blocks k fp bs u1 v2 = Some (None, v')"
      using Cons.prems(1) l by (auto split: option.splits)
    from addDelta_inv [OF a m1(2)] show ?thesis
    proof
      assume "load_inv fp n v2 (addrs @ m1)"
      then show ?thesis using that [OF r, of "[]"] True by simp
    next
      assume "load_inv fp n v2 ((addrs @ m1) @ [bb_End b])"
      then show ?thesis using that [OF r, of "[bb_End b]"] True by simp
    qed
  next
    case False
    then show ?thesis using that [of v1 "[]"] Cons.prems(1) l m1(2) by simp
  qed
  from Cons.IH [OF m2(1,2)] obtain m3 where m3: "subseq m3 (delta_places bs)" "load_inv fp n v' (((addrs @ m1) @ m2) @ m3)"
    by blast
  have "subseq (m1 @ m2 @ m3) (delta_places (b # bs))"
    unfolding delta_places.simps by (intro list_emb_append_mono m1(1) m2(3) m3(1))
  then show ?case using m3(2) by (intro exI [of _ "m1 @ m2 @ m3"]) simp
qed

text \<open>In a sorted list, the elements of one key are a segment, behind those with a smaller key.\<close>

lemma sorted_segment:
  fixes g :: "'a \<Rightarrow> nat"
  assumes "sorted (map g xs)"
  shows "take (length (filter (\<lambda>x. g x = p) xs)) (drop (length (filter (\<lambda>x. g x < p) xs)) xs) = filter (\<lambda>x. g x = p) xs"
  using assms
proof (induction xs)
  case (Cons x xs)
  consider "g x < p" | "g x = p" | "p < g x" by linarith
  then show ?case
  proof cases
    case 1
    then show ?thesis using Cons by simp
  next
    case 2
    then have "filter (\<lambda>x. g x < p) xs = []" using Cons.prems by (auto simp: filter_empty_conv)
    then show ?thesis using 2 Cons by simp
  next
    case 3
    then have "filter (\<lambda>x. g x < p) xs = []" "filter (\<lambda>x. g x = p) xs = []"
      using Cons.prems by (fastforce simp: filter_empty_conv)+
    then show ?thesis using 3 by simp
  qed
qed simp

lemma sum_keys_below: "(\<Sum>q < p. length (filter (\<lambda>x. g x = q) xs)) = length (filter (\<lambda>x. g x < p) xs)" for p :: nat
proof (induction p)
  case (Suc p)
  have "length (filter (\<lambda>x. g x < Suc p) xs) = length (filter (\<lambda>x. g x < p) xs) + length (filter (\<lambda>x. g x = p) xs)"
    by (induction xs) auto
  then show ?case using Suc by simp
qed simp

lemma subseq_sorted: "subseq xs ys \<Longrightarrow> sorted ys \<Longrightarrow> sorted xs" for ys :: "'a::linorder list"
  by (induction rule: list_emb.induct) (auto dest: list_emb_set)

lemma subseq_filter_length: "subseq xs ys \<Longrightarrow> length (filter P xs) \<le> length (filter P ys)"
  by (induction rule: list_emb.induct) auto

lemma length_filter_zip:
  "length xs = length ys \<Longrightarrow> length (filter (\<lambda>x. P (fst x)) (zip xs ys)) = length (filter P xs)"
  by (induction xs ys rule: list_induct2) auto

lemma unat_page: "unat (drop_bit 16 (a :: u64)) = unat a div 2 ^ 16"
  by (simp only: unat_drop_bit_eq) (simp only: drop_bit_eq_div)

lemma page_of_mono:
  assumes "a \<le> b" "firstPage \<le> drop_bit 16 a"
  shows "page_of firstPage a \<le> page_of firstPage b"
proof -
  have "drop_bit 16 a \<le> drop_bit 16 b"
    using assms(1) by (simp only: word_le_nat_alt unat_page) (simp add: div_le_mono)
  then show ?thesis using assms(2) by (simp add: page_of_def unat_sub word_le_nat_alt)
qed

lemma page_address:
  fixes z :: u64
  assumes "unat z < 2 ^ 48"
  shows "drop_bit 16 (push_bit 16 z) = z"
proof -
  have "unat (push_bit 16 z) = unat z * 2 ^ 16"
    using assms by (simp add: push_bit_eq_mult unat_word_ariths)
  then show ?thesis by (simp add: word_unat_eq_iff unat_page)
qed

text \<open>The number of pages tells that the first page is not behind the last.\<close>

lemma num_pages_bound:
  assumes "unat (num_pages iv) \<le> 2 ^ 47" "p < unat (num_pages iv)"
  shows "unat (first_page iv) + p < 2 ^ 48"
proof -
  let ?l = "drop_bit 16 (bb_End (last (iv_Blocks iv)))" and ?f = "first_page iv"
  have b: "unat ?l < 2 ^ 48" "unat ?f < 2 ^ 48"
    using unat_u64_less [of "bb_End (last (iv_Blocks iv))"] unat_u64_less [of "bb_Start (hd (iv_Blocks iv))"]
    by (simp_all add: first_page_def unat_page)
  have "unat (num_pages iv) = (unat ?l + 1 + 2 ^ 64 - unat ?f) mod 2 ^ 64"
  proof -
    have "num_pages iv = (?l + 1) - ?f" by (simp add: num_pages_def)
    moreover have "unat (?l + 1) = unat ?l + 1" using b(1) by (intro trans [OF unat_Suc_no_wrap [of _ "2 ^ 48"]]) simp_all
    ultimately show ?thesis using b by (simp add: unat_sub_if_size word_size) (auto simp: mod_if)
  qed
  then show ?thesis using assms b by (cases "unat ?f \<le> unat ?l + 1") (auto simp: mod_if split: if_splits)
qed

lemma page_key:
  assumes "unat (first_page iv) + p < 2 ^ 48"
  shows "drop_bit 16 (first_page_addr iv + push_bit 16 (word_of_nat p)) = first_page iv + word_of_nat p"
proof -
  have m: "StackDeltaPageMask = mask 16" by (simp add: mask_eq_exp_minus_1)
  have "first_page_addr iv = push_bit 16 (first_page iv)"
    unfolding first_page_addr_def first_page_def m by (rule bit_word_eqI) (auto simp: bit_simps)
  then have "first_page_addr iv + push_bit 16 (word_of_nat p) = push_bit 16 (first_page iv + word_of_nat p)"
    by (simp add: push_bit_add)
  moreover have "unat (first_page iv + word_of_nat p) = unat (first_page iv) + p"
    using assms by (subst unat_add_no_wrap) (simp_all add: unat_of_nat take_bit_nat_eq_self)
  ultimately show ?thesis using assms by (simp add: page_address)
qed

lemma page_of_eq_iff:
  assumes "p < 2 ^ 64"
  shows "page_of fp a = p \<longleftrightarrow> drop_bit 16 a = fp + word_of_nat p"
proof -
  have "page_of fp a = p \<longleftrightarrow> drop_bit 16 a - fp = word_of_nat p"
    using assms by (simp add: page_of_def word_unat_eq_iff unat_of_nat take_bit_nat_eq_self)
  then show ?thesis by (auto simp: algebra_simps)
qed

text \<open>The counters of the pages, as numbers, and the first delta of a page.\<close>

lemma load_inv_counts:
  assumes inv: "load_inv fp n v addrs" and few: "\<And>p. length (filter (\<lambda>a. page_of fp a = p) addrs) < 2 ^ 16"
    and len: "length addrs < 2 ^ 32" and p: "p < n"
  shows "unat (lv_numDeltasPerPage v ! p) = length (filter (\<lambda>a. page_of fp a = p) addrs)"
    and "unat (sum_list (map ucast (take p (lv_numDeltasPerPage v))) :: u32) = length (filter (\<lambda>a. page_of fp a < p) addrs)"
proof -
  let ?ns = "lv_numDeltasPerPage v"
  have c: "unat (?ns ! q) = length (filter (\<lambda>a. page_of fp a = q) addrs)" if "q < n" for q
    using inv that few [of q] by (simp add: load_inv_def unat_of_nat take_bit_nat_eq_self)
  then show "unat (?ns ! p) = length (filter (\<lambda>a. page_of fp a = p) addrs)" using p .
  have "sum_list (map unat (take p ?ns)) = (\<Sum>q < p. unat (?ns ! q))"
    using inv p by (simp add: load_inv_def sum_list_sum_nth atLeast0LessThan)
  also have "\<dots> = (\<Sum>q < p. length (filter (\<lambda>a. page_of fp a = q) addrs))"
    using p by (intro sum.cong) (simp_all add: c)
  finally have s: "sum_list (map unat (take p ?ns)) = length (filter (\<lambda>a. page_of fp a < p) addrs)"
    by (simp add: sum_keys_below)
  moreover have "length (filter (\<lambda>a. page_of fp a < p) addrs) < 2 ^ 32"
    using len le_less_trans [OF length_filter_le] by blast
  ultimately show "unat (sum_list (map ucast (take p ?ns)) :: u32) = length (filter (\<lambda>a. page_of fp a < p) addrs)"
    by (simp add: unat_sum_ucast)
qed

text \<open>
  C15: The page table describes the deltas of each page: when the places of the deltas are in order and no
  page has \<open>2 ^ 16\<close> of them, then, for every page, the run of the delta array that the entry
  written for the page names is exactly the deltas whose address lies in that page.
\<close>

theorem loadDeltas_pages:
  assumes "convertDeltas k iv st = Some (None, v)" and "sorted (delta_places (iv_Blocks iv))"
    and "\<forall>a \<in> set (delta_places (iv_Blocks iv)). first_page iv \<le> drop_bit 16 a"
    and "\<forall>p. length (filter (\<lambda>a. page_of (first_page iv) a = p) (delta_places (iv_Blocks iv))) < 2 ^ 16"
    and "length (delta_places (iv_Blocks iv)) < 2 ^ 32"
  shows "\<exists>addrs. map se_AddressLow (lv_ebpfDeltas v) = map ucast addrs \<and> subseq addrs (delta_places (iv_Blocks iv)) \<and>
    (\<forall>p < unat (num_pages iv).
       let (key, info) = page_entries fileID mapID (first_page_addr iv) 0 0 (lv_numDeltasPerPage v) ! p
       in take (unat (pi_NumDeltas info)) (drop (unat (pi_FirstDelta info)) (zip addrs (lv_ebpfDeltas v))) =
          filter (\<lambda>(a, d). drop_bit 16 a = drop_bit 16 (pk_Page key)) (zip addrs (lv_ebpfDeltas v)))"
proof -
  let ?fp = "first_page iv" and ?n = "unat (num_pages iv)" and ?D = "delta_places (iv_Blocks iv)"
  have np: "?n \<le> 2 ^ 47" using assms(1) by (auto simp: convertDeltas_def split: if_splits)
  have l: "load_blocks k ?fp (iv_Blocks iv) UnwindInfo_zero
      \<lparr>lv_state = st, lv_ebpfDeltas = [], lv_numDeltasPerPage = replicate ?n 0\<rparr> = Some (None, v)"
    using assms(1) by (auto simp: convertDeltas_def split: if_splits)
  obtain addrs where sub: "subseq addrs ?D" and inv: "load_inv ?fp ?n v addrs"
    using load_blocks_inv [OF l, of ?n "[]"] by (auto simp: load_inv_def)
  have few: "length (filter (\<lambda>a. page_of ?fp a = p) addrs) < 2 ^ 16" for p
    using assms(4) le_less_trans [OF subseq_filter_length [OF sub]] by blast
  have len: "length addrs < 2 ^ 32" using assms(5) list_emb_length [OF sub] by simp
  have le: "length addrs = length (lv_ebpfDeltas v)" using inv by (metis load_inv_def length_map)
  have "set addrs \<subseteq> set ?D" using sub by (auto dest: list_emb_set)
  then have "sorted (map (page_of ?fp) addrs)"
    using subseq_sorted [OF sub assms(2)] assms(3) by (auto simp: sorted_map elim!: sorted_wrt_mono_rel [rotated] intro!: page_of_mono)
  moreover have "map (\<lambda>x. page_of ?fp (fst x)) (zip addrs (lv_ebpfDeltas v)) =
      map (page_of ?fp) (map fst (zip addrs (lv_ebpfDeltas v)))" by simp
  then have "map (\<lambda>x. page_of ?fp (fst x)) (zip addrs (lv_ebpfDeltas v)) = map (page_of ?fp) addrs"
    by (simp only: map_fst_zip [OF le])
  ultimately have srt: "sorted (map (\<lambda>x. page_of ?fp (fst x)) (zip addrs (lv_ebpfDeltas v)))" by simp
  note flt = length_filter_zip [OF le]
  show ?thesis
  proof (intro exI [of _ addrs] conjI allI impI sub)
    show "map se_AddressLow (lv_ebpfDeltas v) = map ucast addrs" using inv by (simp add: load_inv_def)
    fix p assume p: "p < ?n"
    have pl: "p < length (lv_numDeltasPerPage v)" using inv p by (simp add: load_inv_def)
    have key: "drop_bit 16 (first_page_addr iv + push_bit 16 (word_of_nat p)) = ?fp + word_of_nat p"
      by (rule page_key [OF num_pages_bound [OF np p]])
    have "p < 2 ^ 64" using p np by simp
    then have eq: "(\<lambda>(a, d :: StackDeltaEBPF). drop_bit 16 a = ?fp + word_of_nat p) = (\<lambda>x. page_of ?fp (fst x) = p)"
      by (auto simp: page_of_eq_iff fun_eq_iff)
    show "let (key, info) = page_entries fileID mapID (first_page_addr iv) 0 0 (lv_numDeltasPerPage v) ! p
       in take (unat (pi_NumDeltas info)) (drop (unat (pi_FirstDelta info)) (zip addrs (lv_ebpfDeltas v))) =
          filter (\<lambda>(a, d). drop_bit 16 a = drop_bit 16 (pk_Page key)) (zip addrs (lv_ebpfDeltas v))"
      using sorted_segment [OF srt, of p] load_inv_counts [OF inv few len p]
      by (simp add: page_entries_nth [OF pl] key eq flt [of "\<lambda>a. page_of ?fp a = p"] flt [of "\<lambda>a. page_of ?fp a < p"])
  qed
qed

definition two_pages :: IntervalData where
  "two_pages = \<lparr>iv_NumDeltas = 2, iv_Blocks =
     [\<lparr>bb_Start = 0x1fff0, bb_End = 0x20020, bb_Deltas =
        [\<lparr>sd_Offset = 0, sd_Info = UnwindInfoStop\<rparr>, \<lparr>sd_Offset = 32, sd_Info = UnwindInfoFramePointer\<rparr>]\<rparr>]\<rparr>"

theorem loadDeltas_pages_witness:
  "\<exists>v addrs. convertDeltas mem_kops two_pages (mg_state mem_manager) = Some (None, v) \<and>
     lv_numDeltasPerPage v = [1, 2] \<and> subseq addrs (delta_places (iv_Blocks two_pages)) \<and>
     map se_AddressLow (lv_ebpfDeltas v) = map ucast addrs"
proof -
  have n: "unat (num_pages two_pages) = 2" "first_page two_pages = 1"
    by (simp_all add: num_pages_def first_page_def two_pages_def drop_bit_eq_div)
  have step: "addDelta mem_kops 1 a i v =
      Some (None, v\<lparr>lv_ebpfDeltas := lv_ebpfDeltas v @ [\<lparr>se_AddressLow = ucast a, se_UnwindInfo = ucast (ui_Param i) OR 0x8000\<rparr>],
        lv_numDeltasPerPage := (lv_numDeltasPerPage v)[unat p := lv_numDeltasPerPage v ! unat p + 1]\<rparr>)"
    if "is_command i" "drop_bit 16 a - 1 = p" "unat p < length (lv_numDeltasPerPage v)" "length (lv_numDeltasPerPage v) = 2"
      "lv_ebpfDeltas v = [] \<or> se_UnwindInfo (last (lv_ebpfDeltas v)) \<noteq> ucast (ui_Param i) OR 0x8000"
    for a p i and v :: "(kkey \<rightharpoonup> kval, unit, unit) loadVars"
    using that by (auto simp: addDelta_def getUnwindInfoIndex_def go_index_ok_def Let_def)
  have ic: "is_command UnwindInfoStop" "is_command UnwindInfoFramePointer" "is_command UnwindInfoInvalid"
    by (simp_all add: is_command_def UnwindInfo_consts)
  then have m: "calculateMergeOpcode \<lparr>sd_Offset = 0, sd_Info = UnwindInfoStop\<rparr> d = 0" for d
    by (simp add: calculateMergeOpcode_def)
  have z: "UnwindInfoStop\<lparr>ui_MergeOpcode := 0\<rparr> = UnwindInfoStop" "ui_MergeOpcode UnwindInfoStop = 0"
      "ui_MergeOpcode UnwindInfo_zero = 0" "\<not> is_signal UnwindInfoStop" "\<not> is_signal UnwindInfoFramePointer"
      "ui_Param UnwindInfoStop = 1" "ui_Param UnwindInfoFramePointer = 4" "ui_Param UnwindInfoInvalid = 0"
    by (simp_all add: UnwindInfo_consts is_signal_def)
  have b: "iv_Blocks two_pages = [\<lparr>bb_Start = 0x1fff0, bb_End = 0x20020, bb_Deltas =
        [\<lparr>sd_Offset = 0, sd_Info = UnwindInfoStop\<rparr>, \<lparr>sd_Offset = 32, sd_Info = UnwindInfoFramePointer\<rparr>]\<rparr>]"
    by (simp add: two_pages_def)
  have r: "replicate 2 (0 :: u16) = [0, 0]" by (simp add: numeral_2_eq_2)
  have p: "drop_bit 16 (0x1fff0 :: u64) - 1 = 0" "drop_bit 16 (0x20010 :: u64) - 1 = 1" "drop_bit 16 (0x20020 :: u64) - 1 = 1"
    by (simp_all add: drop_bit_eq_div)
  obtain v where c: "convertDeltas mem_kops two_pages (mg_state mem_manager) = Some (None, v)" "lv_numDeltasPerPage v = [1, 2]"
    by (simp add: convertDeltas_def n b r step [OF _ p(1)] step [OF _ p(2)] step [OF _ p(3)] ic m z Let_def)
  have d: "delta_places (iv_Blocks two_pages) = [0x1fff0, 0x20010, 0x20020]"
    by (simp add: two_pages_def delta_place_def is_signal_def is_command_def UnwindInfo_consts)
  have "sorted (delta_places (iv_Blocks two_pages))" "length (delta_places (iv_Blocks two_pages)) < 2 ^ 32"
      "\<forall>p. length (filter (\<lambda>a. page_of (first_page two_pages) a = p) (delta_places (iv_Blocks two_pages))) < 2 ^ 16"
      "\<forall>a \<in> set (delta_places (iv_Blocks two_pages)). first_page two_pages \<le> drop_bit 16 a"
    unfolding d n(2) by (simp_all add: drop_bit_eq_div)
  from loadDeltas_pages [OF c(1) this(1,4,3,2)] c show ?thesis by blast
qed

section \<open>Failures\<close>

text \<open>
  A signal rule at the first byte of the first page moves its delta to the page before, whose
  counter does not exist: the code panics.
\<close>

lemma loadDeltas_signal_panics:
  assumes "bb_Start b = firstPage * 0x10000" "unat firstPage < 2 ^ 48" "0 < firstPage" "bb_Deltas b = \<lparr>sd_Offset = 0, sd_Info = UnwindInfoSignal\<rparr> # ds"
    and "iv_Blocks iv = b # bs"
  shows "convertDeltas k iv st = None"
proof (cases "2 ^ 47 < unat (num_pages iv)")
  case False
  have fp: "first_page iv = firstPage"
    using assms(1,2,5) page_address [of firstPage] by (simp add: first_page_def push_bit_eq_mult mult.commute)
  have u: "unat (firstPage * 0x10000) = unat firstPage * 2 ^ 16" using assms(2) by (simp add: unat_word_ariths)
  have pos: "0 < unat firstPage" using assms(3) by (simp add: word_less_nat_alt)
  have ge: "(1 :: u64) \<le> firstPage * 0x10000" using u pos by (simp add: word_le_nat_alt)
  have "unat (firstPage * 0x10000 - 1) = unat firstPage * 2 ^ 16 - 1"
    using u ge by (simp add: unat_sub)
  moreover have "(unat firstPage * 2 ^ 16 - 1) div 2 ^ 16 = unat firstPage - 1"
    using pos by (intro div_nat_eqI) (simp_all add: algebra_simps diff_mult_distrib)
  ultimately have "drop_bit 16 (firstPage * 0x10000 - 1) = firstPage - 1"
    using unat_minus_one [of firstPage] pos by (auto simp: word_unat_eq_iff unat_page)
  then have p: "drop_bit StackDeltaPageBits (firstPage * 0x10000 - 1) - firstPage = - 1" by simp
  have nok: "\<not> go_index_ok (- 1) (xs :: u16 list)" for xs
    by (simp add: go_index_ok_def unsigned_minus_1_eq_mask mask_eq_exp_minus_1)
  have sg: "is_signal (UnwindInfoSignal\<lparr>ui_MergeOpcode := m\<rparr>)" "is_command (UnwindInfoSignal\<lparr>ui_MergeOpcode := m\<rparr>)" for m
    by (simp_all add: is_signal_def is_command_def UnwindInfo_consts)
  have w: "addDelta k firstPage (firstPage * 0x10000 - 1) w \<lparr>lv_state = st, lv_ebpfDeltas = [], lv_numDeltasPerPage = ns\<rparr> = None"
    if "is_command w" for w ns
    using that p nok by (simp add: addDelta_def getUnwindInfoIndex_def Let_def)
  have "load_block k firstPage (bb_Start b) (bb_Deltas b) UnwindInfo_zero
      \<lparr>lv_state = st, lv_ebpfDeltas = [], lv_numDeltasPerPage = ns\<rparr> = None" for ns
    using w sg [of 0] sg by (cases ds) (simp_all add: assms(1,4) UnwindInfo_zero_def UnwindInfoSignal_def)
  then show ?thesis using False assms(5) by (simp add: convertDeltas_def fp)
qed (simp add: convertDeltas_def)

text \<open>
  A clean-up that cannot remove a file from the kernel's maps leaves the file in both tables, to be tried
  again, but has already subtracted its pages from the count of pages, and does so with every further
  attempt.
\<close>

theorem CleanupUnused_failure:
  assumes "es_unusedExecutables st f = Some t" "t \<le> now - age" "es_executables st f = Some e" "en_rc e = 0"
    and "mr_MapID (en_mapRef e) \<noteq> 0" and "CleanupUnused k unload now age [f] st = Some (Some err, st')"
  shows "es_executables st' f = Some e \<and> es_unusedExecutables st' f = Some t \<and>
    es_numStackDeltaMapPages st' = es_numStackDeltaMapPages st - ucast (mr_NumPages (en_mapRef e))"
proof -
  obtain x where u: "unloadDeltas k f (en_mapRef e) st = Some (Some x, st')"
    using assms by (auto simp: CleanupUnused_def split: option.splits)
  then have "es_numStackDeltaMapPages st' = es_numStackDeltaMapPages st - ucast (mr_NumPages (en_mapRef e))"
    using assms(5) by (auto simp: unloadDeltas_def Let_def split: prod.splits)
  then show ?thesis using same_files_unloadDeltas [OF u] assms by (simp add: same_files_def)
qed

definition lost_page_state :: "(kkey \<rightharpoonup> kval, unit, unit) eimState" where
  "lost_page_state = idle_state\<lparr>
     es_executables := [7 \<mapsto> \<lparr>en_Info = \<lparr>ei_Data = None, ei_LibcInfo = None\<rparr>,
       en_mapRef = \<lparr>mr_StartPage = 0x10000, mr_NumPages = 1, mr_MapID = 8\<rparr>, en_rc = 0\<rparr>]\<rparr>"

theorem CleanupUnused_failure_witness:
  "\<exists>err st'. CleanupUnused mem_kops (\<lambda>_ e. e) 100 10 [7] lost_page_state = Some (Some err, st') \<and>
     es_executables st' 7 \<noteq> None \<and> es_numStackDeltaMapPages st' = - 1"
proof -
  obtain err st' where c: "CleanupUnused mem_kops (\<lambda>_ e. e) 100 10 [7] lost_page_state = Some (Some err, st')"
    by (simp add: CleanupUnused_def lost_page_state_def idle_state_def unloadDeltas_def DeleteStackDeltaPage_def
        DeleteExeIDToStackDeltas_def getOuterMap_def EnqueueUpdate_def newAsyncMapUpdaterPool_def mem_manager_def
        NewExecutableInfoManager_def mem_impl_def mem_kops_def trackMapError_def join_err_def Let_def)
  have z: "es_numStackDeltaMapPages lost_page_state = 0"
    by (simp add: lost_page_state_def idle_state_def mem_manager_def NewExecutableInfoManager_def)
  show ?thesis
    using CleanupUnused_failure [OF _ _ _ _ _ c, of 5 "\<lparr>en_Info = \<lparr>ei_Data = None, ei_LibcInfo = None\<rparr>,
       en_mapRef = \<lparr>mr_StartPage = 0x10000, mr_NumPages = 1, mr_MapID = 8\<rparr>, en_rc = 0\<rparr>"] c z
    by (auto simp: lost_page_state_def idle_state_def)
qed

end
