(* ===== verification/Interpreters.thy ===== *)
theory Interpreters
  imports ExecInfo
begin

text \<open>
  Interpreter instances (\<open>interpreter/multi.go\<close>, \<open>interpreter/types.go\<close>) and the C library
  information handed to them (\<open>libc/libc.go\<close>). The interpreters themselves are arguments: the
  record \<open>iops\<close> has the methods of the interfaces \<open>Data\<close> and \<open>Instance\<close>. An instance
  is a pointer in the code; here a method that may change it returns it. Several interpreters in one
  executable are a \<open>MultiData\<close>, attached as a \<open>MultiInstance\<close>.
\<close>

unbundle bit_operations_syntax

section \<open>C library information\<close>

record TSDInfo =
  ts_Offset :: int16
  ts_Multiplier :: u8
  ts_Indirect :: u8

record DTVInfo =
  dv_Offset :: int16
  dv_Multiplier :: u8

record LibcInfo =
  lc_TSDInfo :: TSDInfo
  lc_DTVInfo :: DTVInfo

definition TSDInfo_zero :: TSDInfo where "TSDInfo_zero = \<lparr>ts_Offset = 0, ts_Multiplier = 0, ts_Indirect = 0\<rparr>"
definition DTVInfo_zero :: DTVInfo where "DTVInfo_zero = \<lparr>dv_Offset = 0, dv_Multiplier = 0\<rparr>"

definition LibcInfo_IsEqual :: "LibcInfo \<Rightarrow> LibcInfo \<Rightarrow> bool" where
  "LibcInfo_IsEqual l other \<longleftrightarrow> lc_TSDInfo l = lc_TSDInfo other \<and> lc_DTVInfo l = lc_DTVInfo other"

definition LibcInfo_Merge :: "LibcInfo \<Rightarrow> LibcInfo \<Rightarrow> LibcInfo" where
  "LibcInfo_Merge l other =
     (let l = (if lc_TSDInfo l = TSDInfo_zero then l\<lparr>lc_TSDInfo := lc_TSDInfo other\<rparr> else l)
      in if lc_DTVInfo l = DTVInfo_zero then l\<lparr>lc_DTVInfo := lc_DTVInfo other\<rparr> else l)"

definition HasTSDInfo :: "LibcInfo \<Rightarrow> bool" where
  "HasTSDInfo l \<longleftrightarrow> ts_Multiplier (lc_TSDInfo l) \<noteq> 0"

definition HasDTVInfo :: "LibcInfo \<Rightarrow> bool" where
  "HasDTVInfo l \<longleftrightarrow> dv_Multiplier (lc_DTVInfo l) \<noteq> 0"

section \<open>Raw mappings\<close>

record RawMapping =
  rm_Vaddr :: u64
  rm_Length :: u64
  rm_Flags :: u32
  rm_FileOffset :: u64
  rm_Device :: u64
  rm_Inode :: u64
  rm_Path :: string

type_synonym OnDiskFileIdentifier = "u64 \<times> u64"

definition VdsoPathName :: string where "VdsoPathName = ''linux-vdso.1.so''"

definition IsExecutable :: "RawMapping \<Rightarrow> bool" where
  "IsExecutable m \<longleftrightarrow> rm_Flags m AND 1 = 1"

definition IsVDSO :: "RawMapping \<Rightarrow> bool" where
  "IsVDSO m \<longleftrightarrow> rm_Path m = VdsoPathName"

definition IsMemFD :: "RawMapping \<Rightarrow> bool" where
  "IsMemFD m \<longleftrightarrow> hasPrefix (rm_Path m) ''/memfd:''"

definition IsFileBacked :: "RawMapping \<Rightarrow> bool" where
  "IsFileBacked m \<longleftrightarrow> rm_Path m \<noteq> '''' \<and> \<not> IsVDSO m \<and> \<not> IsMemFD m"

definition IsAnonymous :: "RawMapping \<Rightarrow> bool" where
  "IsAnonymous m \<longleftrightarrow> \<not> IsFileBacked m \<and> \<not> IsVDSO m"

definition GetOnDiskFileIdentifier :: "RawMapping \<Rightarrow> OnDiskFileIdentifier" where
  "GetOnDiskFileIdentifier m = (rm_Device m, rm_Inode m)"

section \<open>Instances\<close>

text \<open>Errors of interpreters; a joined error is the list of its parts, and no error the empty list.\<close>

datatype ierr = ErrMismatchInterpreterType | IErr nat

record ('m, 'd, 'i) iops =
  io_Attach :: "'d \<Rightarrow> PID \<Rightarrow> u64 \<Rightarrow> 'm impl \<Rightarrow> (ierr + 'i option) \<times> 'm impl"
  io_Detach :: "'i \<Rightarrow> PID \<Rightarrow> 'm impl \<Rightarrow> ierr option \<times> 'm impl"
  io_UsesAnonymousMappings :: "'i \<Rightarrow> bool"
  io_SynchronizeMappings :: "'i \<Rightarrow> PID \<Rightarrow> RawMapping list \<Rightarrow> 'm impl \<Rightarrow> (ierr option \<times> 'i) \<times> 'm impl"
  io_UpdateLibcInfo :: "'i \<Rightarrow> PID \<Rightarrow> LibcInfo \<Rightarrow> 'm impl \<Rightarrow> (ierr option \<times> 'i) \<times> 'm impl"

datatype 'i Instance = InstOne 'i | MultiInstance "'i list"

fun attach_all ::
  "('m, 'd, 'i) iops \<Rightarrow> PID \<Rightarrow> u64 \<Rightarrow> 'd list \<Rightarrow> 'm impl \<Rightarrow> ('i list \<times> ierr list) \<times> 'm impl" where
  "attach_all io pid bias [] ebpf = (([], []), ebpf)"
| "attach_all io pid bias (d # ds) ebpf =
     (let (r, ebpf) = io_Attach io d pid bias ebpf;
          ((is, errs), ebpf) = attach_all io pid bias ds ebpf
      in (case r of
            Inl e \<Rightarrow> ((is, e # errs), ebpf)
          | Inr None \<Rightarrow> ((is, errs), ebpf)
          | Inr (Some i) \<Rightarrow> ((i # is, errs), ebpf)))"

text \<open>
  \<open>MultiData.Attach\<close>: an instance of those that could be attached; without any, the joined
  errors, and no instance and no error if there were none.
\<close>

definition Data_Attach ::
  "('m, 'd, 'i) iops \<Rightarrow> 'd Data \<Rightarrow> PID \<Rightarrow> u64 \<Rightarrow> 'm impl \<Rightarrow> (ierr list + 'i Instance option) \<times> 'm impl" where
  "Data_Attach io data pid bias ebpf =
     (case data of
        DataOne d \<Rightarrow>
          (case io_Attach io d pid bias ebpf of
             (Inl e, ebpf) \<Rightarrow> (Inl [e], ebpf)
           | (Inr i, ebpf) \<Rightarrow> (Inr (map_option InstOne i), ebpf))
      | MultiData ds \<Rightarrow>
          let ((instances, errs), ebpf) = attach_all io pid bias ds ebpf
          in if instances = []
             then (if errs = [] then Inr None else Inl errs, ebpf)
             else (Inr (Some (MultiInstance instances)), ebpf))"

fun detach_all :: "('m, 'd, 'i) iops \<Rightarrow> PID \<Rightarrow> 'i list \<Rightarrow> 'm impl \<Rightarrow> ierr list \<times> 'm impl" where
  "detach_all io pid [] ebpf = ([], ebpf)"
| "detach_all io pid (i # is) ebpf =
     (let (e, ebpf) = io_Detach io i pid ebpf; (errs, ebpf) = detach_all io pid is ebpf
      in ((case e of None \<Rightarrow> errs | Some e \<Rightarrow> e # errs), ebpf))"

definition instances_of :: "'i Instance \<Rightarrow> 'i list" where
  "instances_of x = (case x of InstOne i \<Rightarrow> [i] | MultiInstance is \<Rightarrow> is)"

definition Instance_Detach :: "('m, 'd, 'i) iops \<Rightarrow> 'i Instance \<Rightarrow> PID \<Rightarrow> 'm impl \<Rightarrow> ierr list \<times> 'm impl" where
  "Instance_Detach io x pid ebpf = detach_all io pid (instances_of x) ebpf"

definition Instance_UsesAnonymousMappings :: "('m, 'd, 'i) iops \<Rightarrow> 'i Instance \<Rightarrow> bool" where
  "Instance_UsesAnonymousMappings io x = list_ex (io_UsesAnonymousMappings io) (instances_of x)"

text \<open>A method called on every instance of a list, in order, with the errors collected.\<close>

fun method_all :: "('i \<Rightarrow> 'm impl \<Rightarrow> (ierr option \<times> 'i) \<times> 'm impl) \<Rightarrow> 'i list \<Rightarrow> 'm impl \<Rightarrow> (ierr list \<times> 'i list) \<times> 'm impl" where
  "method_all f [] ebpf = (([], []), ebpf)"
| "method_all f (i # is) ebpf =
     (let ((e, i), ebpf) = f i ebpf; ((errs, is), ebpf) = method_all f is ebpf
      in ((case e of None \<Rightarrow> errs | Some e \<Rightarrow> e # errs, i # is), ebpf))"

definition instance_method ::
  "('i \<Rightarrow> 'm impl \<Rightarrow> (ierr option \<times> 'i) \<times> 'm impl) \<Rightarrow> 'i Instance \<Rightarrow> 'm impl \<Rightarrow> (ierr list \<times> 'i Instance) \<times> 'm impl" where
  "instance_method f x ebpf =
     (case x of
        InstOne i \<Rightarrow>
          let ((e, i), ebpf) = f i ebpf in ((case e of None \<Rightarrow> [] | Some e \<Rightarrow> [e], InstOne i), ebpf)
      | MultiInstance is \<Rightarrow>
          let ((errs, is), ebpf) = method_all f is ebpf in ((errs, MultiInstance is), ebpf))"

definition Instance_SynchronizeMappings ::
  "('m, 'd, 'i) iops \<Rightarrow> PID \<Rightarrow> RawMapping list \<Rightarrow> 'i Instance \<Rightarrow> 'm impl \<Rightarrow> (ierr list \<times> 'i Instance) \<times> 'm impl" where
  "Instance_SynchronizeMappings io pid mappings = instance_method (\<lambda>i. io_SynchronizeMappings io i pid mappings)"

definition Instance_UpdateLibcInfo ::
  "('m, 'd, 'i) iops \<Rightarrow> PID \<Rightarrow> LibcInfo \<Rightarrow> 'i Instance \<Rightarrow> 'm impl \<Rightarrow> (ierr list \<times> 'i Instance) \<times> 'm impl" where
  "Instance_UpdateLibcInfo io pid info = instance_method (\<lambda>i. io_UpdateLibcInfo io i pid info)"

end
