(* ===== verification/ProcessInfo.thy ===== *)
theory ProcessInfo
  imports Interpreters "HOL-Library.AList"
begin

text \<open>
  The process manager (\<open>processmanager/processinfo.go\<close>, \<open>types.go\<close>, with
  \<open>libpf/pfelf/addressmapper.go\<close>): the executable mappings of every process, their
  synchronisation with \<open>/proc/PID/maps\<close>, the exit of processes, and the lookup of the
  mapping of a frame.

  State: the record \<open>ProcessManager\<close>. Its eBPF handler is the one of the executable manager
  (\<open>pm_ebpf\<close>). What is outside is an argument: the record \<open>pm_env\<close> has the kernel maps, the LRU
  caches, the interpreters, the time and the fuel of the prefix computation; the record
  \<open>proc\<close> has what the \<open>Process\<close> interface reports of one process (its mappings, files and
  metadata). Reports to the exe reporter and log messages are left out: nothing here
  depends on them. \<open>None\<close> is a panic or a loop that does not end.

  The order in which a Go map is iterated is that of the list which stands for it.
\<close>

unbundle bit_operations_syntax

section \<open>Address mapping\<close>

record addressMapperPHDR =
  ap_offset :: u64
  ap_vaddr :: u64
  ap_filesz :: u64

type_synonym AddressMapper = "addressMapperPHDR list"

definition pageSizeMinusOne :: u64 where [simp]: "pageSizeMinusOne = 0xfff"

fun FileOffsetToVirtualAddress :: "AddressMapper \<Rightarrow> u64 \<Rightarrow> u64 option" where
  "FileOffsetToVirtualAddress [] fileOffset = None"
| "FileOffsetToVirtualAddress (p # ps) fileOffset =
     (let alignedOffset = ap_offset p AND NOT pageSizeMinusOne
      in if fileOffset \<ge> alignedOffset \<and> fileOffset < ap_offset p + ap_filesz p
         then Some (ap_vaddr p - (ap_offset p - fileOffset))
         else FileOffsetToVirtualAddress ps fileOffset)"

record elf_prog =
  ph_PT_LOAD :: bool
  ph_Flags :: u32
  ph_Off :: u64
  ph_Vaddr :: u64
  ph_Filesz :: u64

definition GetAddressMapper :: "elf_prog list \<Rightarrow> AddressMapper" where
  "GetAddressMapper progs =
     map (\<lambda>p. \<lparr>ap_offset = ph_Off p, ap_vaddr = ph_Vaddr p, ap_filesz = ph_Filesz p\<rparr>)
       (filter (\<lambda>p. ph_PT_LOAD p \<and> ph_Flags p AND 1 \<noteq> 0) progs)"

section \<open>Mappings\<close>

record libpf_FileID =
  fi_hi :: u64
  fi_lo :: u64

definition FileIDFromLibpf :: "libpf_FileID \<Rightarrow> FileID" where
  "FileIDFromLibpf i = fi_hi i"

record FrameMappingFileData =
  ff_FileID :: libpf_FileID
  ff_FileName :: string
  ff_GnuBuildID :: string
  ff_GoBuildID :: string

record FrameMappingData =
  fm_File :: FrameMappingFileData
  fm_Start :: u64
  fm_End :: u64
  fm_FileOffset :: u64

text \<open>An interned \<open>FrameMapping\<close> is its value; the invalid one is \<open>None\<close>, and never stored.\<close>

record Mapping =
  mp_Vaddr :: u64
  mp_Length :: u64
  mp_Device :: u64
  mp_Inode :: u64
  mp_FrameMapping :: FrameMappingData

definition mp_fid :: "Mapping \<Rightarrow> FileID" where
  "mp_fid m = FileIDFromLibpf (ff_FileID (fm_File (mp_FrameMapping m)))"

definition compareMapping :: "Mapping \<Rightarrow> Mapping \<Rightarrow> int" where
  "compareMapping a b =
     (if mp_fid a \<noteq> mp_fid b then (if mp_fid a < mp_fid b then - 1 else 1)
      else if mp_Vaddr a < mp_Vaddr b then - 1
      else if mp_Vaddr a > mp_Vaddr b then 1
      else 0)"

text \<open>\<open>slices.SortFunc\<close> with \<open>compareMapping\<close>, as an insertion sort.\<close>

fun insert_mapping :: "Mapping \<Rightarrow> Mapping list \<Rightarrow> Mapping list" where
  "insert_mapping m [] = [m]"
| "insert_mapping m (x # xs) = (if compareMapping m x \<le> 0 then m # x # xs else x # insert_mapping m xs)"

definition sort_mappings :: "Mapping list \<Rightarrow> Mapping list" where
  "sort_mappings ms = foldr insert_mapping ms []"

section \<open>State\<close>

record 'x ctxInfo =
  cx_Context :: "'x option"
  cx_PublishedAtNs :: u64

record 'x ProcessMeta =
  me_Executable :: string
  me_EnvVariables :: "(string \<times> string) list"
  me_ContainerID :: string
  me_ProcessContextInfo :: "'x ctxInfo"

record 'x processInfo =
  po_meta :: "'x ProcessMeta"
  po_mappings :: "Mapping list"
  po_libcInfo :: "LibcInfo option"

datatype operr = OpNotExist | OpOther nat

record elfInfo =
  ef_err :: "operr option"
  ef_lastModified :: int64
  ef_mappingFile :: FrameMappingFileData
  ef_addressMapper :: AddressMapper

record mappingStats =
  ms_errProcNotExist :: u32
  ms_errProcESRCH :: u32
  ms_errProcPerm :: u32
  ms_numProcAttempts :: u32
  ms_maxProcParseUsec :: u32
  ms_totalProcParseUsec :: u32
  ms_numProcParseErrors :: u32

record ('m, 'd, 'l, 'i, 'e, 'x) ProcessManager =
  pm_interpreterTracerEnabled :: bool
  pm_eim :: "('m, 'd, LibcInfo, 'l) ExecutableInfoManager"
  pm_interpreters :: "PID \<rightharpoonup> (OnDiskFileIdentifier \<times> 'i Instance) list"
  pm_pidToProcessInfo :: "PID \<rightharpoonup> 'x processInfo"
  pm_exitEvents :: "PID \<rightharpoonup> u64"
  pm_elfInfoCache :: 'e
  pm_elfInfoCacheHit :: u64
  pm_elfInfoCacheMiss :: u64
  pm_mappingStats :: mappingStats
  pm_pidPageToMappingInfoSize :: u64
  pm_selfCgroupIno :: u64
  pm_selfContainerID :: string

type_synonym ('m, 'd, 'l, 'i, 'e, 'x) pm = "('m, 'd, 'l, 'i, 'e, 'x) ProcessManager"

record 'e elfLRU =
  el_Get :: "OnDiskFileIdentifier \<Rightarrow> 'e \<Rightarrow> elfInfo option \<times> 'e"
  el_Add :: "OnDiskFileIdentifier \<Rightarrow> elfInfo \<Rightarrow> 'e \<Rightarrow> 'e"

record ('m, 'd, 'l, 'i, 'e) pm_env =
  ev_k :: "'m kops"
  ev_io :: "('m, 'd, 'i) iops"
  ev_lru :: "'l deferredLRU"
  ev_elf :: "'e elfLRU"
  ev_isNotExist :: "eherr \<Rightarrow> bool"
  ev_dec :: arm_decoder
  ev_fuel :: nat
  ev_now :: int

datatype iterr = It_CallbackStopped | It_Permission | It_NoMappings | It_NotExist | It_ESRCH | It_Other

datatype ctxerr = Cx_NoUpdate | Cx_ConcurrentUpdate | Cx_Other

text \<open>What the ELF file of a mapping has to say, if it can be opened.\<close>

record elf_facts =
  ea_GnuBuildID :: string
  ea_IsGolang :: bool
  ea_GoBuildID :: string
  ea_Progs :: "elf_prog list"

record 'x proc =
  pr_PID :: PID
  pr_Exe :: string
  pr_Meta :: "'x ProcessMeta"
  pr_CgroupRootInode :: "u64 option"
  pr_Mappings :: "RawMapping list"
  pr_NumParseErrors :: u32
  pr_IterateError :: "iterr option"
  pr_ParseUsec :: u32
  pr_LastModified :: "RawMapping \<Rightarrow> int64"
  pr_ELF :: "RawMapping \<Rightarrow> operr + elf_facts"
  pr_MappingFileID :: "RawMapping \<Rightarrow> operr + libpf_FileID"
  pr_elfRef :: "RawMapping \<Rightarrow> LibcInfo elfRef"
  pr_ReadContext :: "u64 \<Rightarrow> u64 \<Rightarrow> ctxerr + 'x ctxInfo"
  pr_ClearAttributes :: "'x \<Rightarrow> 'x"

definition dummyPrefix :: Prefix where "dummyPrefix = \<lparr>pf_Key = 0, pf_Length = 64\<rparr>"

definition pm_ebpf :: "('m, 'd, 'l, 'i, 'e, 'x) pm \<Rightarrow> 'm impl" where
  "pm_ebpf pm = es_ebpf (mg_state (pm_eim pm))"

definition set_ebpf :: "'m impl \<Rightarrow> ('m, 'd, 'l, 'i, 'e, 'x) pm \<Rightarrow> ('m, 'd, 'l, 'i, 'e, 'x) pm" where
  "set_ebpf ebpf pm = pm\<lparr>pm_eim := (pm_eim pm)\<lparr>mg_state := (mg_state (pm_eim pm))\<lparr>es_ebpf := ebpf\<rparr>\<rparr>\<rparr>"

section \<open>Construction\<close>

text \<open>
  \<open>New\<close>: the caches are created by the caller; the reporters, the metrics and the symbolizer
  of the kernel are not part of this state.
\<close>

definition mappingStats_zero :: mappingStats where
  "mappingStats_zero = \<lparr>ms_errProcNotExist = 0, ms_errProcESRCH = 0, ms_errProcPerm = 0, ms_numProcAttempts = 0,
     ms_maxProcParseUsec = 0, ms_totalProcParseUsec = 0, ms_numProcParseErrors = 0\<rparr>"

definition NewProcessManager ::
  "('m, 'd) loader option \<Rightarrow> ('m, 'd) loader \<Rightarrow> 'l \<Rightarrow> 'm impl \<Rightarrow> 'e \<Rightarrow> u64 \<times> string \<Rightarrow> ('m, 'd, 'l, 'i, 'e, 'x) pm" where
  "NewProcessManager python native deferredFileIDs ebpf elfInfoCache self =
     (let em = NewExecutableInfoManager python native deferredFileIDs ebpf
      in \<lparr>pm_interpreterTracerEnabled = NumInterpreterLoaders (mg_state em) > 0, pm_eim = em,
          pm_interpreters = Map.empty, pm_pidToProcessInfo = Map.empty, pm_exitEvents = Map.empty,
          pm_elfInfoCache = elfInfoCache, pm_elfInfoCacheHit = 0, pm_elfInfoCacheMiss = 0,
          pm_mappingStats = mappingStats_zero, pm_pidPageToMappingInfoSize = 0,
          pm_selfCgroupIno = fst self, pm_selfContainerID = snd self\<rparr>)"

section \<open>Process information\<close>

definition interpreters_of :: "('m, 'd, 'l, 'i, 'e, 'x) pm \<Rightarrow> PID \<Rightarrow> (OnDiskFileIdentifier \<times> 'i Instance) list" where
  "interpreters_of pm pid = (case pm_interpreters pm pid of None \<Rightarrow> [] | Some is \<Rightarrow> is)"

text \<open>A method that every interpreter of the process is called with; its errors are only logged.\<close>

fun call_interpreters ::
  "('i Instance \<Rightarrow> 'm impl \<Rightarrow> (ierr list \<times> 'i Instance) \<times> 'm impl) \<Rightarrow>
     (OnDiskFileIdentifier \<times> 'i Instance) list \<Rightarrow> 'm impl \<Rightarrow> (OnDiskFileIdentifier \<times> 'i Instance) list \<times> 'm impl" where
  "call_interpreters f [] ebpf = ([], ebpf)"
| "call_interpreters f ((key, x) # is) ebpf =
     (let ((_, x), ebpf) = f x ebpf; (is, ebpf) = call_interpreters f is ebpf
      in ((key, x) # is, ebpf))"

definition with_interpreters ::
  "('i Instance \<Rightarrow> 'm impl \<Rightarrow> (ierr list \<times> 'i Instance) \<times> 'm impl) \<Rightarrow> PID \<Rightarrow>
     ('m, 'd, 'l, 'i, 'e, 'x) pm \<Rightarrow> ('m, 'd, 'l, 'i, 'e, 'x) pm" where
  "with_interpreters f pid pm =
     (case pm_interpreters pm pid of
        None \<Rightarrow> pm
      | Some is \<Rightarrow>
          let (is, ebpf) = call_interpreters f is (pm_ebpf pm)
          in set_ebpf ebpf (pm\<lparr>pm_interpreters := (pm_interpreters pm)(pid \<mapsto> is)\<rparr>))"

definition assignLibcInfo ::
  "('m, 'd, 'l, 'i, 'e) pm_env \<Rightarrow> PID \<Rightarrow> LibcInfo option \<Rightarrow> ('m, 'd, 'l, 'i, 'e, 'x) pm \<Rightarrow> ('m, 'd, 'l, 'i, 'e, 'x) pm" where
  "assignLibcInfo env pid libcInfo pm =
     (case libcInfo of
        None \<Rightarrow> pm
      | Some newLibcInfo \<Rightarrow>
          (case pm_pidToProcessInfo pm pid of
             None \<Rightarrow> pm
           | Some info \<Rightarrow>
               (let assign = (\<lambda>new. with_interpreters (Instance_UpdateLibcInfo (ev_io env) pid new) pid
                      (pm\<lparr>pm_pidToProcessInfo := (pm_pidToProcessInfo pm)(pid \<mapsto> info\<lparr>po_libcInfo := Some new\<rparr>)\<rparr>))
                in case po_libcInfo info of
                     None \<Rightarrow> assign newLibcInfo
                   | Some old \<Rightarrow>
                       if LibcInfo_IsEqual old newLibcInfo then pm
                       else assign (LibcInfo_Merge old newLibcInfo))))"

definition getLibcInfo :: "('m, 'd, 'l, 'i, 'e, 'x) pm \<Rightarrow> PID \<Rightarrow> LibcInfo option" where
  "getLibcInfo pm pid = (case pm_pidToProcessInfo pm pid of None \<Rightarrow> None | Some info \<Rightarrow> po_libcInfo info)"

definition fillSelfContainerID ::
  "('m, 'd, 'l, 'i, 'e, 'x) pm \<Rightarrow> 'x proc \<Rightarrow> 'x ProcessMeta \<Rightarrow> 'x ProcessMeta" where
  "fillSelfContainerID pm pr meta =
     (if me_ContainerID meta \<noteq> '''' \<or> pm_selfContainerID pm = '''' then meta
      else (case pr_CgroupRootInode pr of
              None \<Rightarrow> meta
            | Some ino \<Rightarrow>
                if ino = pm_selfCgroupIno pm then meta\<lparr>me_ContainerID := pm_selfContainerID pm\<rparr> else meta))"

definition getPidInformation ::
  "('m, 'd, 'l, 'i, 'e) pm_env \<Rightarrow> 'x proc \<Rightarrow> ('m, 'd, 'l, 'i, 'e, 'x) pm \<Rightarrow>
     'x processInfo option \<times> ('m, 'd, 'l, 'i, 'e, 'x) pm" where
  "getPidInformation env pr pm =
     (let pid = pr_PID pr
      in case pm_pidToProcessInfo pm pid of
           Some info \<Rightarrow> (Some info, pm)
         | None \<Rightarrow>
             (case UpdatePidPageMappingInfo (ev_k env) pid dummyPrefix 0 0 (pm_ebpf pm) of
                (Some _, ebpf) \<Rightarrow> (None, set_ebpf ebpf pm)
              | (None, ebpf) \<Rightarrow>
                  let info = \<lparr>po_meta = fillSelfContainerID pm pr (pr_Meta pr), po_mappings = [], po_libcInfo = None\<rparr>
                  in (Some info, set_ebpf ebpf
                        (pm\<lparr>pm_pidToProcessInfo := (pm_pidToProcessInfo pm)(pid \<mapsto> info),
                            pm_pidPageToMappingInfoSize := pm_pidPageToMappingInfoSize pm + 1\<rparr>))))"

definition assignInterpreter ::
  "PID \<Rightarrow> OnDiskFileIdentifier \<Rightarrow> 'i Instance \<Rightarrow> ('m, 'd, 'l, 'i, 'e, 'x) pm \<Rightarrow> ('m, 'd, 'l, 'i, 'e, 'x) pm" where
  "assignInterpreter pid key x pm =
     pm\<lparr>pm_interpreters := (pm_interpreters pm)(pid \<mapsto> AList.update key x (interpreters_of pm pid))\<rparr>"

definition PIDPageMappingInfoFlagUsesAnonymousMappings :: u64 where
  [simp]: "PIDPageMappingInfoFlagUsesAnonymousMappings = 1"

definition updatePIDAnonymousMappingInterest ::
  "('m, 'd, 'l, 'i, 'e) pm_env \<Rightarrow> PID \<Rightarrow> bool \<Rightarrow> ('m, 'd, 'l, 'i, 'e, 'x) pm \<Rightarrow> ebpferr option \<times> ('m, 'd, 'l, 'i, 'e, 'x) pm" where
  "updatePIDAnonymousMappingInterest env pid enabled pm =
     (let fileID = (if enabled then PIDPageMappingInfoFlagUsesAnonymousMappings else 0);
          (err, ebpf) = UpdatePidPageMappingInfo (ev_k env) pid dummyPrefix fileID 0 (pm_ebpf pm)
      in (map_option ErrWrap err, set_ebpf ebpf pm))"

text \<open>
  \<open>handleNewInterpreter\<close>: errors of attaching are returned. The code calls methods of the
  instance without a test for \<open>nil\<close>, so that no instance and no error is a panic.
\<close>

definition handleNewInterpreter ::
  "('m, 'd, 'l, 'i, 'e) pm_env \<Rightarrow> PID \<Rightarrow> u64 \<Rightarrow> OnDiskFileIdentifier \<Rightarrow> 'd Data \<Rightarrow> bool \<Rightarrow> ('m, 'd, 'l, 'i, 'e, 'x) pm \<Rightarrow>
     ((ierr list + bool) \<times> ('m, 'd, 'l, 'i, 'e, 'x) pm) option" where
  "handleNewInterpreter env pid bias oid data anonymousMappingsWanted pm =
     (if map_of (interpreters_of pm pid) oid \<noteq> None then Some (Inr anonymousMappingsWanted, pm)
      else
        (case Data_Attach (ev_io env) data pid bias (pm_ebpf pm) of
           (Inl e, ebpf) \<Rightarrow> Some (Inl e, set_ebpf ebpf pm)
         | (Inr None, ebpf) \<Rightarrow> None
         | (Inr (Some x), ebpf) \<Rightarrow>
             let pm = assignInterpreter pid oid x (set_ebpf ebpf pm);
                 (x, pm) = (case getLibcInfo pm pid of
                         None \<Rightarrow> (x, pm)
                       | Some libcInfo \<Rightarrow>
                           let ((_, x), ebpf) = Instance_UpdateLibcInfo (ev_io env) pid libcInfo x (pm_ebpf pm)
                           in (x, assignInterpreter pid oid x (set_ebpf ebpf pm)))
             in Some (Inr (anonymousMappingsWanted \<or> Instance_UsesAnonymousMappings (ev_io env) x), pm)))"

text \<open>\<open>path.Base\<close> of the standard library: the last element, without trailing slashes.\<close>

definition path_Base :: "string \<Rightarrow> string" where
  "path_Base s =
     (if s = '''' then ''.''
      else let t = dropWhile (\<lambda>c. c = CHR ''/'') (rev s); b = rev (takeWhile (\<lambda>c. c \<noteq> CHR ''/'') t)
           in if b = '''' then ''/'' else b)"

definition getELFInfo ::
  "('m, 'd, 'l, 'i, 'e) pm_env \<Rightarrow> 'x proc \<Rightarrow> RawMapping \<Rightarrow> ('m, 'd, 'l, 'i, 'e, 'x) pm \<Rightarrow> elfInfo \<times> ('m, 'd, 'l, 'i, 'e, 'x) pm" where
  "getELFInfo env pr mapping pm =
     (let key = GetOnDiskFileIdentifier mapping;
          lastModified = pr_LastModified pr mapping;
          (cached, cache) = el_Get (ev_elf env) key (pm_elfInfoCache pm);
          pm = pm\<lparr>pm_elfInfoCache := cache\<rparr>;
          add = (\<lambda>info pm. pm\<lparr>pm_elfInfoCache := el_Add (ev_elf env) key info (pm_elfInfoCache pm)\<rparr>);
          zero = \<lparr>ef_err = None, ef_lastModified = lastModified,
                  ef_mappingFile = \<lparr>ff_FileID = \<lparr>fi_hi = 0, fi_lo = 0\<rparr>, ff_FileName = '''', ff_GnuBuildID = '''', ff_GoBuildID = ''''\<rparr>,
                  ef_addressMapper = []\<rparr>;
          failed = (\<lambda>err pm. let info = zero\<lparr>ef_err := Some err\<rparr>
                             in (info, if err = OpNotExist then pm else add info pm))
      in if (case cached of None \<Rightarrow> False | Some info \<Rightarrow> ef_lastModified info = lastModified)
         then (the cached, pm\<lparr>pm_elfInfoCacheHit := pm_elfInfoCacheHit pm + 1\<rparr>)
         else
           let pm = pm\<lparr>pm_elfInfoCacheMiss := pm_elfInfoCacheMiss pm + 1\<rparr>
           in (case pr_ELF pr mapping of
                 Inl err \<Rightarrow> failed err pm
               | Inr ef \<Rightarrow>
                   (case pr_MappingFileID pr mapping of
                      Inl err \<Rightarrow> failed err pm
                    | Inr fileID \<Rightarrow>
                        let baseName = path_Base (rm_Path mapping);
                            baseName = (if baseName = ''/'' then ''<anonymous-blob>'' else baseName);
                            info = zero\<lparr>ef_mappingFile :=
                                     \<lparr>ff_FileID = fileID, ff_FileName = baseName, ff_GnuBuildID = ea_GnuBuildID ef,
                                      ff_GoBuildID = (if ea_IsGolang ef then ea_GoBuildID ef else '''')\<rparr>,
                                   ef_addressMapper := GetAddressMapper (ea_Progs ef)\<rparr>
                        in (info, add info pm))))"

section \<open>Mappings of a process\<close>

text \<open>The prefixes of the addresses of a mapping; \<open>None\<close> inside is an error.\<close>

definition mapping_prefixes :: "nat \<Rightarrow> Mapping \<Rightarrow> Prefix list option option" where
  "mapping_prefixes fuel m =
     (case CalculatePrefixList fuel (mp_Vaddr m)
             (mp_Vaddr m + fm_End (mp_FrameMapping m) - fm_Start (mp_FrameMapping m)) of
        Done (Inr prefixes) \<Rightarrow> Some (Some prefixes)
      | Done (Inl _) \<Rightarrow> Some None
      | _ \<Rightarrow> None)"

fun add_prefixes :: "'m kops \<Rightarrow> PID \<Rightarrow> u64 \<Rightarrow> u64 \<Rightarrow> Prefix list \<Rightarrow> 'm impl \<Rightarrow> u64 \<times> 'm impl" where
  "add_prefixes k pid fileID bias [] ebpf = (0, ebpf)"
| "add_prefixes k pid fileID bias (p # ps) ebpf =
     (case UpdatePidPageMappingInfo k pid p fileID bias ebpf of
        (Some _, ebpf) \<Rightarrow> (0, ebpf)
      | (None, ebpf) \<Rightarrow> let (added, ebpf) = add_prefixes k pid fileID bias ps ebpf in (added + 1, ebpf))"

definition processNewMapping ::
  "('m, 'd, 'l, 'i, 'e) pm_env \<Rightarrow> PID \<Rightarrow> Mapping \<Rightarrow> ('m, 'd, 'l, 'i, 'e, 'x) pm \<Rightarrow> (u64 \<times> ('m, 'd, 'l, 'i, 'e, 'x) pm) option" where
  "processNewMapping env pid m pm =
     (case mapping_prefixes (ev_fuel env) m of
        None \<Rightarrow> None
      | Some None \<Rightarrow> Some (0, pm)
      | Some (Some prefixes) \<Rightarrow>
          let bias = mp_Vaddr m - fm_Start (mp_FrameMapping m);
              (added, ebpf) = add_prefixes (ev_k env) pid (mp_fid m) bias prefixes (pm_ebpf pm)
          in Some (added, set_ebpf ebpf pm))"

definition pm_DecRef ::
  "('m, 'd, 'l, 'i, 'e) pm_env \<Rightarrow> FileID \<Rightarrow> ('m, 'd, 'l, 'i, 'e, 'x) pm \<Rightarrow> ('m, 'd, 'l, 'i, 'e, 'x) pm" where
  "pm_DecRef env fileID pm =
     pm\<lparr>pm_eim := (pm_eim pm)\<lparr>mg_state := snd (DecRef (ev_now env) fileID (mg_state (pm_eim pm)))\<rparr>\<rparr>"

definition processRemovedMapping ::
  "('m, 'd, 'l, 'i, 'e) pm_env \<Rightarrow> PID \<Rightarrow> Mapping \<Rightarrow> ('m, 'd, 'l, 'i, 'e, 'x) pm \<Rightarrow> (u64 \<times> ('m, 'd, 'l, 'i, 'e, 'x) pm) option" where
  "processRemovedMapping env pid m pm =
     (case mapping_prefixes (ev_fuel env) m of
        None \<Rightarrow> None
      | Some None \<Rightarrow> Some (0, pm)
      | Some (Some prefixes) \<Rightarrow>
          let ((deleted, _), ebpf) = DeletePidPageMappingInfo (ev_k env) pid prefixes (pm_ebpf pm)
          in Some (deleted, pm_DecRef env (mp_fid m) (set_ebpf ebpf pm)))"

text \<open>A function that is called for every mapping of a list, with the sum of its results.\<close>

fun sum_mappings ::
  "(Mapping \<Rightarrow> 's \<Rightarrow> (u64 \<times> 's) option) \<Rightarrow> Mapping list \<Rightarrow> 's \<Rightarrow> (u64 \<times> 's) option" where
  "sum_mappings f [] s = Some (0, s)"
| "sum_mappings f (m # ms) s =
     (case f m s of
        None \<Rightarrow> None
      | Some (n, s) \<Rightarrow> map_option (\<lambda>(n', s). (n + n', s)) (sum_mappings f ms s))"

definition shrink_pages :: "u64 \<Rightarrow> ('m, 'd, 'l, 'i, 'e, 'x) pm \<Rightarrow> ('m, 'd, 'l, 'i, 'e, 'x) pm" where
  "shrink_pages n pm =
     pm\<lparr>pm_pidPageToMappingInfoSize := pm_pidPageToMappingInfoSize pm - min (pm_pidPageToMappingInfoSize pm) n\<rparr>"

fun detach_invalid ::
  "('m, 'd, 'i) iops \<Rightarrow> PID \<Rightarrow> OnDiskFileIdentifier set \<Rightarrow> (OnDiskFileIdentifier \<times> 'i Instance) list \<Rightarrow> 'm impl \<Rightarrow>
     (OnDiskFileIdentifier \<times> 'i Instance) list \<times> 'm impl" where
  "detach_invalid io pid valid [] ebpf = ([], ebpf)"
| "detach_invalid io pid valid ((key, x) # is) ebpf =
     (if key \<in> valid
      then let (is, ebpf) = detach_invalid io pid valid is ebpf in ((key, x) # is, ebpf)
      else let (_, ebpf) = Instance_Detach io x pid ebpf in detach_invalid io pid valid is ebpf)"

definition processRemovedInterpreters ::
  "('m, 'd, 'l, 'i, 'e) pm_env \<Rightarrow> PID \<Rightarrow> OnDiskFileIdentifier set \<Rightarrow> ('m, 'd, 'l, 'i, 'e, 'x) pm \<Rightarrow> bool \<times> ('m, 'd, 'l, 'i, 'e, 'x) pm" where
  "processRemovedInterpreters env pid interpretersValid pm =
     (if \<not> pm_interpreterTracerEnabled pm then (False, pm)
      else
        (case pm_interpreters pm pid of
           None \<Rightarrow> (False, pm)
         | Some is \<Rightarrow>
             let (is, ebpf) = detach_invalid (ev_io env) pid interpretersValid is (pm_ebpf pm);
                 wanted = list_ex (\<lambda>(_, x). Instance_UsesAnonymousMappings (ev_io env) x) is
             in (wanted, set_ebpf ebpf
                   (pm\<lparr>pm_interpreters := (pm_interpreters pm)(pid := (if is = [] then None else Some is))\<rparr>))))"

definition with_eim ::
  "('m, 'd, LibcInfo, 'l) ExecutableInfoManager \<Rightarrow> ('m, 'd, 'l, 'i, 'e, 'x) pm \<Rightarrow> ('m, 'd, 'l, 'i, 'e, 'x) pm" where
  "with_eim mgr pm = pm\<lparr>pm_eim := mgr\<rparr>"

text \<open>\<open>newFrameMapping\<close>: the mapping, if it could be made, and whether anonymous mappings are wanted.\<close>

definition newFrameMapping ::
  "('m, 'd, 'l, 'i, 'e) pm_env \<Rightarrow> 'x proc \<Rightarrow> RawMapping \<Rightarrow> bool \<Rightarrow> ('m, 'd, 'l, 'i, 'e, 'x) pm \<Rightarrow>
     ((FrameMappingData option \<times> bool) \<times> ('m, 'd, 'l, 'i, 'e, 'x) pm) option" where
  "newFrameMapping env pr m wanted pm =
     (let (info, pm) = getELFInfo env pr m pm
      in if ef_err info \<noteq> None then Some ((None, wanted), pm)
         else
           (case FileOffsetToVirtualAddress (ef_addressMapper info) (rm_FileOffset m) of
              None \<Rightarrow> Some ((None, wanted), pm)
            | Some elfSpaceVA \<Rightarrow>
                (case AddOrIncRef (ev_k env) (ev_isNotExist env) (ev_lru env) (ev_dec env)
                        (FileIDFromLibpf (ff_FileID (ef_mappingFile info))) (pr_elfRef pr m) (pm_eim pm) of
                   None \<Rightarrow> None
                 | Some (Inl _, mgr) \<Rightarrow> Some ((None, wanted), with_eim mgr pm)
                 | Some (Inr ei, mgr) \<Rightarrow>
                     let pm = assignLibcInfo env (pr_PID pr) (ei_LibcInfo ei) (with_eim mgr pm);
                         fm = \<lparr>fm_File = ef_mappingFile info, fm_Start = elfSpaceVA, fm_End = elfSpaceVA + rm_Length m,
                               fm_FileOffset = rm_FileOffset m\<rparr>
                     in (case ei_Data ei of
                           None \<Rightarrow> Some ((Some fm, wanted), pm)
                         | Some data \<Rightarrow>
                             (case handleNewInterpreter env (pr_PID pr) (rm_Vaddr m - elfSpaceVA)
                                     (GetOnDiskFileIdentifier m) data wanted pm of
                                None \<Rightarrow> None
                              | Some (Inl _, pm) \<Rightarrow> Some ((Some fm, wanted), pm)
                              | Some (Inr wanted, pm) \<Rightarrow> Some ((Some fm, wanted), pm))))))"

section \<open>Exit of processes\<close>

definition pm_RemoveReportedPID ::
  "('m, 'd, 'l, 'i, 'e) pm_env \<Rightarrow> PID \<Rightarrow> ('m, 'd, 'l, 'i, 'e, 'x) pm \<Rightarrow> ('m, 'd, 'l, 'i, 'e, 'x) pm" where
  "pm_RemoveReportedPID env pid pm = set_ebpf (RemoveReportedPID (ev_k env) pid (pm_ebpf pm)) pm"

text \<open>\<open>processPIDExit\<close>; the deferred call for the reported process comes last on every path.\<close>

definition processPIDExit ::
  "('m, 'd, 'l, 'i, 'e) pm_env \<Rightarrow> u64 \<Rightarrow> PID \<Rightarrow> ('m, 'd, 'l, 'i, 'e, 'x) pm \<Rightarrow> ('m, 'd, 'l, 'i, 'e, 'x) pm option" where
  "processPIDExit env exitKTime pid pm =
     (case pm_pidToProcessInfo pm pid of
        None \<Rightarrow> Some (pm_RemoveReportedPID env pid pm)
      | Some info \<Rightarrow>
          (case pm_exitEvents pm pid of
             Some _ \<Rightarrow> Some (pm_RemoveReportedPID env pid pm)
           | None \<Rightarrow>
               let pm = pm\<lparr>pm_exitEvents := (pm_exitEvents pm)(pid \<mapsto> exitKTime)\<rparr>;
                   ((deleted, _), ebpf) = DeletePidPageMappingInfo (ev_k env) pid [dummyPrefix] (pm_ebpf pm);
                   pm = set_ebpf ebpf pm
               in (case sum_mappings (processRemovedMapping env pid) (po_mappings info) pm of
                     None \<Rightarrow> None
                   | Some (n, pm) \<Rightarrow>
                       let pm = shrink_pages (deleted + n) pm;
                           (_, pm) = processRemovedInterpreters env pid {} pm
                       in Some (pm_RemoveReportedPID env pid pm))))"

text \<open>\<open>ProcessedUntil\<close>: the processes that exited before a time, in the order of the list.\<close>

definition forget_pid ::
  "('m, 'd, 'l, 'i, 'e) pm_env \<Rightarrow> PID \<Rightarrow> ('m, 'd, 'l, 'i, 'e, 'x) pm \<Rightarrow> ('m, 'd, 'l, 'i, 'e, 'x) pm" where
  "forget_pid env pid pm =
     (let ebpf = fold (\<lambda>(_, x) ebpf. snd (Instance_Detach (ev_io env) x pid ebpf)) (interpreters_of pm pid) (pm_ebpf pm)
      in set_ebpf ebpf
           (pm\<lparr>pm_pidToProcessInfo := (pm_pidToProcessInfo pm)(pid := None),
               pm_interpreters := (pm_interpreters pm)(pid := None),
               pm_exitEvents := (pm_exitEvents pm)(pid := None)\<rparr>))"

fun ProcessedUntil ::
  "('m, 'd, 'l, 'i, 'e) pm_env \<Rightarrow> u64 \<Rightarrow> PID list \<Rightarrow> ('m, 'd, 'l, 'i, 'e, 'x) pm \<Rightarrow> ('m, 'd, 'l, 'i, 'e, 'x) pm" where
  "ProcessedUntil env traceCaptureKTime [] pm = pm"
| "ProcessedUntil env traceCaptureKTime (pid # pids) pm =
     ProcessedUntil env traceCaptureKTime pids
       (case pm_exitEvents pm pid of
          None \<Rightarrow> pm
        | Some pidExitKTime \<Rightarrow> if pidExitKTime > traceCaptureKTime then pm else forget_pid env pid pm)"

text \<open>The results of the signal 0 and of looking at \<open>/proc/PID/maps\<close>; whether the process lives, and whether there is an error.\<close>

datatype killres = Kill_Ok | Kill_ESRCH | Kill_EPERM | Kill_Errno | Kill_Other

datatype statres = Stat_Ok | Stat_NotExist | Stat_Other

definition isPIDLive :: "killres \<times> statres \<Rightarrow> bool \<times> bool" where
  "isPIDLive sys =
     (case fst sys of
        Kill_Ok \<Rightarrow> (True, False)
      | Kill_ESRCH \<Rightarrow> (False, False)
      | Kill_Errno \<Rightarrow> (True, True)
      | _ \<Rightarrow> (case snd sys of Stat_NotExist \<Rightarrow> (False, False) | Stat_Ok \<Rightarrow> (True, False) | Stat_Other \<Rightarrow> (True, True)))"

text \<open>\<open>CleanupPIDs\<close>: the known processes in the order of the list, and what the system says of each.\<close>

definition CleanupPIDs ::
  "('m, 'd, 'l, 'i, 'e) pm_env \<Rightarrow> u64 \<Rightarrow> (PID \<Rightarrow> killres \<times> statres) \<Rightarrow> PID list \<Rightarrow> ('m, 'd, 'l, 'i, 'e, 'x) pm \<Rightarrow>
     ('m, 'd, 'l, 'i, 'e, 'x) pm option" where
  "CleanupPIDs env now sys pids pm =
     fold (\<lambda>pid acc. acc \<bind> processPIDExit env now pid) (filter (\<lambda>pid. \<not> fst (isPIDLive (sys pid))) pids) (Some pm)"

section \<open>Interpreter mappings\<close>

definition hasSuffix :: "string \<Rightarrow> string \<Rightarrow> bool" where
  "hasSuffix s p \<longleftrightarrow> length p \<le> length s \<and> drop (length s - length p) s = p"

definition isInterpreterMapping :: "RawMapping \<Rightarrow> bool" where
  "isInterpreterMapping m \<longleftrightarrow> IsExecutable m \<and> IsAnonymous m \<or> hasSuffix (rm_Path m) ''.dll''"

record interpreterMappingCollector =
  ic_collected :: "RawMapping list"
  ic_pending :: "RawMapping list"

definition newInterpreterMappingCollector :: interpreterMappingCollector where
  "newInterpreterMappingCollector = \<lparr>ic_collected = [], ic_pending = []\<rparr>"

definition collector_add :: "RawMapping \<Rightarrow> bool \<Rightarrow> interpreterMappingCollector \<Rightarrow> interpreterMappingCollector" where
  "collector_add m collect c =
     (if \<not> isInterpreterMapping m then c
      else if collect then c\<lparr>ic_collected := ic_collected c @ [m]\<rparr>
      else c\<lparr>ic_pending := ic_pending c @ [m]\<rparr>)"

definition collector_enable :: "interpreterMappingCollector \<Rightarrow> interpreterMappingCollector" where
  "collector_enable c =
     (if ic_pending c = [] then c
      else c\<lparr>ic_collected := ic_collected c @ ic_pending c, ic_pending := []\<rparr>)"

section \<open>Synchronisation\<close>

definition IsContextMapping :: "bool \<Rightarrow> string \<Rightarrow> bool" where
  "IsContextMapping isExecutable mappingPath \<longleftrightarrow> \<not> isExecutable \<and>
     (mappingPath = ''/memfd:OTEL_CTX'' \<or> mappingPath = ''/memfd:OTEL_CTX (deleted)'' \<or>
      mappingPath = ''[anon:OTEL_CTX]'' \<or> mappingPath = ''[anon_shmem:OTEL_CTX]'')"

definition ctxInfo_zero :: "'x ctxInfo" where
  "ctxInfo_zero = \<lparr>cx_Context = None, cx_PublishedAtNs = 0\<rparr>"

definition readProcessContext :: "'x proc \<Rightarrow> u64 \<Rightarrow> 'x ctxInfo \<Rightarrow> 'x ctxInfo" where
  "readProcessContext pr mappingAddr old =
     (case pr_ReadContext pr mappingAddr (cx_PublishedAtNs old) of
        Inr ctxInfo \<Rightarrow> ctxInfo
      | Inl Cx_NoUpdate \<Rightarrow> old
      | Inl Cx_ConcurrentUpdate \<Rightarrow> old\<lparr>cx_Context := map_option (pr_ClearAttributes pr) (cx_Context old)\<rparr>
      | Inl Cx_Other \<Rightarrow> ctxInfo_zero)"

text \<open>The variables that the callback for the mappings changes.\<close>

record ('m, 'd, 'l, 'i, 'e, 'x) syncVars =
  sv_pm :: "('m, 'd, 'l, 'i, 'e, 'x) pm"
  sv_mpRemove :: "Mapping list"
  sv_interpreterMappings :: interpreterMappingCollector
  sv_interpretersValid :: "OnDiskFileIdentifier set"
  sv_mappings :: "Mapping list"
  sv_mpAdd :: "Mapping list"
  sv_collect :: bool
  sv_context :: "'x ctxInfo"

text \<open>The lookup table of the old mappings, by address; of two with the same address the later one counts.\<close>

fun remove_table :: "Mapping list \<Rightarrow> Mapping list" where
  "remove_table [] = []"
| "remove_table (m # ms) =
     (if mp_Vaddr m \<in> mp_Vaddr ` set ms then remove_table ms else m # remove_table ms)"

definition same_mapping :: "Mapping \<Rightarrow> RawMapping \<Rightarrow> bool" where
  "same_mapping old m \<longleftrightarrow> mp_Length old = rm_Length m \<and> mp_Device old = rm_Device m \<and> mp_Inode old = rm_Inode m"

definition old_mapping :: "RawMapping \<Rightarrow> Mapping list \<Rightarrow> Mapping option" where
  "old_mapping m table =
     (case find (\<lambda>x. mp_Vaddr x = rm_Vaddr m) table of
        None \<Rightarrow> None
      | Some old \<Rightarrow> if same_mapping old m then Some old else None)"

definition add_mapping ::
  "RawMapping \<Rightarrow> FrameMappingData \<Rightarrow> bool \<Rightarrow> ('m, 'd, 'l, 'i, 'e, 'x) syncVars \<Rightarrow> ('m, 'd, 'l, 'i, 'e, 'x) syncVars" where
  "add_mapping m fm newMapping v =
     (let x = \<lparr>mp_Vaddr = rm_Vaddr m, mp_Length = rm_Length m, mp_Device = rm_Device m, mp_Inode = rm_Inode m,
               mp_FrameMapping = fm\<rparr>;
          v = v\<lparr>sv_interpretersValid := insert (GetOnDiskFileIdentifier m) (sv_interpretersValid v),
                sv_mappings := sv_mappings v @ [x]\<rparr>
      in if newMapping then v\<lparr>sv_mpAdd := sv_mpAdd v @ [x]\<rparr> else v)"

definition sync_callback ::
  "('m, 'd, 'l, 'i, 'e) pm_env \<Rightarrow> 'x proc \<Rightarrow> 'x ctxInfo \<Rightarrow> RawMapping \<Rightarrow> ('m, 'd, 'l, 'i, 'e, 'x) syncVars \<Rightarrow>
     ('m, 'd, 'l, 'i, 'e, 'x) syncVars option" where
  "sync_callback env pr oldContext m v =
     (let v = (if IsContextMapping (IsExecutable m) (rm_Path m)
               then v\<lparr>sv_context := readProcessContext pr (rm_Vaddr m) oldContext\<rparr> else v);
          v = v\<lparr>sv_interpreterMappings := collector_add m (sv_collect v) (sv_interpreterMappings v)\<rparr>
      in if \<not> (IsExecutable m \<and> \<not> IsAnonymous m) then Some v
         else
           (case old_mapping m (sv_mpRemove v) of
              Some old \<Rightarrow>
                Some (add_mapping m (mp_FrameMapping old) False
                  (v\<lparr>sv_mpRemove := filter (\<lambda>x. mp_Vaddr x \<noteq> rm_Vaddr m) (sv_mpRemove v)\<rparr>))
            | None \<Rightarrow>
                (case newFrameMapping env pr m (sv_collect v) (sv_pm v) of
                   None \<Rightarrow> None
                 | Some ((fm, wanted), pm) \<Rightarrow>
                     let v' = v\<lparr>sv_pm := pm, sv_collect := wanted,
                            sv_interpreterMappings := (if \<not> sv_collect v \<and> wanted
                              then collector_enable (sv_interpreterMappings v) else sv_interpreterMappings v)\<rparr>
                     in Some (case fm of None \<Rightarrow> v' | Some fm \<Rightarrow> add_mapping m fm True v'))))"

fun sync_mappings ::
  "('m, 'd, 'l, 'i, 'e) pm_env \<Rightarrow> 'x proc \<Rightarrow> 'x ctxInfo \<Rightarrow> RawMapping list \<Rightarrow> ('m, 'd, 'l, 'i, 'e, 'x) syncVars \<Rightarrow>
     ('m, 'd, 'l, 'i, 'e, 'x) syncVars option" where
  "sync_mappings env pr oldContext [] v = Some v"
| "sync_mappings env pr oldContext (m # ms) v = sync_callback env pr oldContext m v \<bind> sync_mappings env pr oldContext ms"

definition with_stats ::
  "(mappingStats \<Rightarrow> mappingStats) \<Rightarrow> ('m, 'd, 'l, 'i, 'e, 'x) pm \<Rightarrow> ('m, 'd, 'l, 'i, 'e, 'x) pm" where
  "with_stats f pm = pm\<lparr>pm_mappingStats := f (pm_mappingStats pm)\<rparr>"

text \<open>The part of \<open>SynchronizeProcess\<close> behind the iteration: removal, addition, publication.\<close>

definition sync_finish ::
  "('m, 'd, 'l, 'i, 'e) pm_env \<Rightarrow> 'x proc \<Rightarrow> bool \<Rightarrow> bool \<Rightarrow> bool \<Rightarrow> ('m, 'd, 'l, 'i, 'e, 'x) syncVars \<Rightarrow>
     ('m, 'd, 'l, 'i, 'e, 'x) pm option" where
  "sync_finish env pr updateProcessMeta previousWanted newProcess v =
     (let pid = pr_PID pr;
          pm = with_stats (\<lambda>s. s\<lparr>ms_maxProcParseUsec := max (ms_maxProcParseUsec s) (pr_ParseUsec pr),
                 ms_totalProcParseUsec := ms_totalProcParseUsec s + pr_ParseUsec pr\<rparr>) (sv_pm v)
      in case sum_mappings (processRemovedMapping env pid) (sv_mpRemove v) pm of
           None \<Rightarrow> None
         | Some (n, pm) \<Rightarrow>
             (let (wanted, pm) = processRemovedInterpreters env pid (sv_interpretersValid v) (shrink_pages n pm);
                  pm = (if wanted \<noteq> previousWanted then snd (updatePIDAnonymousMappingInterest env pid wanted pm) else pm)
              in case sum_mappings (processNewMapping env pid) (sv_mpAdd v) pm of
                   None \<Rightarrow> None
                 | Some (n, pm) \<Rightarrow>
                     let pm = pm\<lparr>pm_pidPageToMappingInfoSize := pm_pidPageToMappingInfoSize pm + n\<rparr>;
                         meta = fillSelfContainerID pm pr (pr_Meta pr);
                         (info, pm) = getPidInformation env pr pm;
                         pm = (case info of
                                 None \<Rightarrow> pm
                               | Some info \<Rightarrow>
                                   let info = info\<lparr>po_mappings := sort_mappings (sv_mappings v)\<rparr>;
                                       info = (if updateProcessMeta then info\<lparr>po_meta := meta\<rparr> else info);
                                       info = info\<lparr>po_meta := (po_meta info)\<lparr>me_ProcessContextInfo := sv_context v\<rparr>\<rparr>
                                   in pm\<lparr>pm_pidToProcessInfo := (pm_pidToProcessInfo pm)(pid \<mapsto> info)\<rparr>);
                         pm = with_interpreters
                                (Instance_SynchronizeMappings (ev_io env) pid (ic_collected (sv_interpreterMappings v))) pid pm
                     in Some (if newProcess then pm_RemoveReportedPID env pid pm else pm)))"

definition sync_begin ::
  "'x processInfo \<Rightarrow> bool \<Rightarrow> ('m, 'd, 'l, 'i, 'e, 'x) pm \<Rightarrow> ('m, 'd, 'l, 'i, 'e, 'x) syncVars" where
  "sync_begin info collect pm =
     \<lparr>sv_pm = pm, sv_mpRemove = remove_table (po_mappings info),
      sv_interpreterMappings = newInterpreterMappingCollector, sv_interpretersValid = {},
      sv_mappings = [], sv_mpAdd = [], sv_collect = collect, sv_context = ctxInfo_zero\<rparr>"

definition SynchronizeProcess ::
  "('m, 'd, 'l, 'i, 'e) pm_env \<Rightarrow> u64 \<Rightarrow> 'x proc \<Rightarrow> ('m, 'd, 'l, 'i, 'e, 'x) pm \<Rightarrow> ('m, 'd, 'l, 'i, 'e, 'x) pm option" where
  "SynchronizeProcess env now pr pm =
     (let pid = pr_PID pr
      in if pm_exitEvents pm pid \<noteq> None then Some (pm_RemoveReportedPID env pid pm)
         else
           (case getPidInformation env pr pm of
              (None, pm) \<Rightarrow> Some pm
            | (Some info, pm) \<Rightarrow>
                let updateProcessMeta = (pr_Exe pr \<noteq> '''' \<and> pr_Exe pr \<noteq> me_Executable (po_meta info));
                    oldContext = me_ProcessContextInfo (po_meta info);
                    newProcess = (po_mappings info = []);
                    collect = list_ex (\<lambda>(_, x). Instance_UsesAnonymousMappings (ev_io env) x) (interpreters_of pm pid);
                    pm = with_stats (\<lambda>s. s\<lparr>ms_numProcAttempts := ms_numProcAttempts s + 1\<rparr>) pm
                in (case sync_mappings env pr oldContext (pr_Mappings pr) (sync_begin info collect pm) of
                      None \<Rightarrow> None
                    | Some v \<Rightarrow>
                        let pm = with_stats (\<lambda>s. s\<lparr>ms_numProcParseErrors := ms_numProcParseErrors s + pr_NumParseErrors pr\<rparr>) (sv_pm v);
                            v = v\<lparr>sv_pm := pm\<rparr>
                        in (case pr_IterateError pr of
                              None \<Rightarrow> sync_finish env pr updateProcessMeta collect newProcess v
                            | Some It_CallbackStopped \<Rightarrow> sync_finish env pr updateProcessMeta collect newProcess v
                            | Some It_Permission \<Rightarrow> Some (with_stats (\<lambda>s. s\<lparr>ms_errProcPerm := ms_errProcPerm s + 1\<rparr>) pm)
                            | Some It_NoMappings \<Rightarrow> Some (pm_RemoveReportedPID env pid pm)
                            | Some It_NotExist \<Rightarrow>
                                processPIDExit env now pid (with_stats (\<lambda>s. s\<lparr>ms_errProcNotExist := ms_errProcNotExist s + 1\<rparr>) pm)
                            | Some It_ESRCH \<Rightarrow>
                                processPIDExit env now pid (with_stats (\<lambda>s. s\<lparr>ms_errProcESRCH := ms_errProcESRCH s + 1\<rparr>) pm)
                            | Some It_Other \<Rightarrow> processPIDExit env now pid pm))))"

section \<open>Lookup\<close>

definition metaForPID :: "'x ProcessMeta \<Rightarrow> ('m, 'd, 'l, 'i, 'e, 'x) pm \<Rightarrow> PID \<Rightarrow> 'x ProcessMeta" where
  "metaForPID zero pm pid = (case pm_pidToProcessInfo pm pid of None \<Rightarrow> zero | Some info \<Rightarrow> po_meta info)"

definition find_mapping :: "Mapping list \<Rightarrow> FileID \<Rightarrow> u64 \<Rightarrow> FrameMappingData option" where
  "find_mapping maps fid addr =
     (let i = sort_Search (length maps)
            (\<lambda>i. let e = maps ! i
                 in if mp_fid e \<noteq> fid then mp_fid e \<ge> fid else fm_Start (mp_FrameMapping e) \<ge> addr)
      in if i \<ge> 1
         then let e = maps ! (i - 1); fm = mp_FrameMapping e
              in if mp_fid e = fid \<and> fm_Start fm \<le> addr \<and> addr < fm_End fm then Some fm else None
         else None)"

definition findMappingForTrace ::
  "('m, 'd, 'l, 'i, 'e, 'x) pm \<Rightarrow> PID \<Rightarrow> FileID \<Rightarrow> u64 \<Rightarrow> FrameMappingData option" where
  "findMappingForTrace pm pid fid addr =
     (case pm_pidToProcessInfo pm pid of None \<Rightarrow> None | Some info \<Rightarrow> find_mapping (po_mappings info) fid addr)"

end
