(* ===== verification/RefCounts.thy ===== *)
theory RefCounts
  imports ProcessRefs
begin

text \<open>
  References of the process manager: the counts of the executable manager against the mappings of
  the processes. Every operation of the process manager is followed through
  its steps (\<open>quiet\<close> steps that concern no reference, \<open>newFrameMapping_law\<close>,
  \<open>processRemovedMapping_law\<close>), the loop over the mappings has the invariant \<open>sync_inv\<close>, and
  \<open>refs_inv\<close> is kept by all of them (\<open>pm_step_refs\<close>).
\<close>

unbundle bit_operations_syntax

section \<open>References\<close>

text \<open>The references that a list of mappings stands for, and what of the state they concern.\<close>

definition cnt :: "Mapping list \<Rightarrow> FileID \<Rightarrow> nat" where
  "cnt ms f = length (filter (\<lambda>m. mp_fid m = f) ms)"

lemma cnt_simps [simp]:
  "cnt [] f = 0" "cnt (m # ms) f = (if mp_fid m = f then Suc (cnt ms f) else cnt ms f)"
  "cnt (xs @ ys) f = cnt xs f + cnt ys f"
  by (simp_all add: cnt_def)

definition pm_st :: "('m, 'd, 'l, 'i, 'e, 'x) pm \<Rightarrow> ('m, 'd, LibcInfo) eimState" where
  "pm_st pm = mg_state (pm_eim pm)"

definition mappings_of :: "('m, 'd, 'l, 'i, 'e, 'x) pm \<Rightarrow> PID \<Rightarrow> Mapping list option" where
  "mappings_of pm pid = map_option po_mappings (pm_pidToProcessInfo pm pid)"

lemma mappings_of_eim [simp]: "mappings_of (pm\<lparr>pm_eim := m\<rparr>) = mappings_of pm"
  by (simp add: mappings_of_def fun_eq_iff)

text \<open>Steps that concern neither the mappings of a process nor a reference.\<close>

definition quiet :: "('m, 'd, 'l, 'i, 'e, 'x) pm \<Rightarrow> ('m, 'd, 'l, 'i, 'e, 'x) pm \<Rightarrow> bool" where
  "quiet pm pm' \<longleftrightarrow> mappings_of pm' = mappings_of pm \<and> pm_exitEvents pm' = pm_exitEvents pm \<and>
     same_files (pm_st pm) (pm_st pm')"

lemma quiet_refl [simp]: "quiet pm pm"
  by (simp add: quiet_def)

lemma quiet_trans [trans]: "quiet a b \<Longrightarrow> quiet b c \<Longrightarrow> quiet a c"
  by (auto simp: quiet_def dest: same_files_trans)

lemma quiet_set_ebpf [simp]: "quiet pm (set_ebpf e pm)"
  by (simp add: quiet_def set_ebpf_def mappings_of_def pm_st_def same_files_def fun_eq_iff)

lemma quiet_set_ebpf_iff [simp]: "quiet pm (set_ebpf e pm') \<longleftrightarrow> quiet pm pm'"
  by (simp add: quiet_def set_ebpf_def mappings_of_def pm_st_def same_files_def fun_eq_iff)

lemma quiet_fields [simp]:
  "quiet pm (pm'\<lparr>pm_interpreters := x\<rparr>) \<longleftrightarrow> quiet pm pm'"
  "quiet pm (pm'\<lparr>pm_elfInfoCache := c\<rparr>) \<longleftrightarrow> quiet pm pm'"
  "quiet pm (pm'\<lparr>pm_elfInfoCacheHit := n\<rparr>) \<longleftrightarrow> quiet pm pm'"
  "quiet pm (pm'\<lparr>pm_elfInfoCacheMiss := n\<rparr>) \<longleftrightarrow> quiet pm pm'"
  "quiet pm (pm'\<lparr>pm_pidPageToMappingInfoSize := n\<rparr>) \<longleftrightarrow> quiet pm pm'"
  "quiet pm (with_stats f pm') \<longleftrightarrow> quiet pm pm'" "quiet pm (shrink_pages n pm') \<longleftrightarrow> quiet pm pm'"
  "quiet pm (pm_RemoveReportedPID env pid pm') \<longleftrightarrow> quiet pm pm'"
  "quiet pm (assignInterpreter pid key i pm') \<longleftrightarrow> quiet pm pm'"
  by (simp_all add: quiet_def mappings_of_def pm_st_def with_stats_def shrink_pages_def pm_RemoveReportedPID_def
      set_ebpf_def same_files_def assignInterpreter_def fun_eq_iff)

lemma with_stats_simps [simp]:
  "pm_st (with_stats h p) = pm_st p" "mappings_of (with_stats h p) = mappings_of p"
  "pm_exitEvents (with_stats h p) = pm_exitEvents p"
  by (simp_all add: with_stats_def pm_st_def mappings_of_def fun_eq_iff)

lemma quiet_with_interpreters [simp]: "quiet pm (with_interpreters f pid pm') \<longleftrightarrow> quiet pm pm'"
  by (simp add: with_interpreters_def split: option.split prod.split)

lemma quiet_assignLibcInfo [simp]: "quiet pm (assignLibcInfo env pid li pm)"
proof -
  have "quiet pm (pm\<lparr>pm_pidToProcessInfo := (pm_pidToProcessInfo pm)(pid \<mapsto> info\<lparr>po_libcInfo := x\<rparr>)\<rparr>)"
    if "pm_pidToProcessInfo pm pid = Some info" for info x
    using that by (auto simp: quiet_def mappings_of_def pm_st_def fun_eq_iff)
  then show ?thesis by (auto simp: assignLibcInfo_def Let_def split: option.split)
qed

lemma quiet_after_libc: "quiet (assignLibcInfo env pid li pm) pm' \<Longrightarrow> quiet pm pm'"
  by (rule quiet_trans [OF quiet_assignLibcInfo])

lemma quiet_handleNewInterpreter:
  assumes "handleNewInterpreter env pid bias oid data w pm = Some (r, pm')"
  shows "quiet pm pm'"
  using assms by (auto simp: handleNewInterpreter_def Let_def split: if_splits prod.splits sum.splits option.splits)

lemma quiet_getELFInfo: "quiet pm (snd (getELFInfo env pr m pm))"
  by (auto simp: getELFInfo_def Let_def split: prod.split sum.split option.split)

lemma getELFInfo_eim: "pm_eim (snd (getELFInfo env pr m pm)) = pm_eim pm"
  by (auto simp: getELFInfo_def Let_def split: prod.split sum.split option.split)

lemma quiet_processNewMapping:
  assumes "processNewMapping env pid m pm = Some (n, pm')"
  shows "quiet pm pm'"
  using assms by (auto simp: processNewMapping_def Let_def split: option.splits prod.splits)

lemma quiet_processRemovedInterpreters: "quiet pm (snd (processRemovedInterpreters env pid valid pm))"
  by (auto simp: processRemovedInterpreters_def Let_def split: option.split prod.split)

lemma quiet_updateInterest: "quiet pm (snd (updatePIDAnonymousMappingInterest env pid b pm))"
  by (auto simp: updatePIDAnonymousMappingInterest_def Let_def split: prod.split)

lemma quiet_sum_new:
  "sum_mappings (processNewMapping env pid) ms pm = Some (n, pm') \<Longrightarrow> quiet pm pm'"
proof (induction ms arbitrary: pm n)
  case (Cons m ms)
  then show ?case
    by (auto split: option.splits dest!: quiet_processNewMapping intro: quiet_trans)
qed simp

section \<open>How references change\<close>

lemma AddOrIncRef_law:
  assumes a: "AddOrIncRef k ne lru dec f er mgr = Some (r, mgr')" and inv: "eim_inv (mg_state mgr)"
    and lt: "Suc (rc_of (mg_state mgr) f) < 2 ^ 64"
  shows "eim_inv (mg_state mgr') \<and> rc_of (mg_state mgr') =
    (case r of Inl _ \<Rightarrow> rc_of (mg_state mgr) | Inr _ \<Rightarrow> (rc_of (mg_state mgr))(f := Suc (rc_of (mg_state mgr) f)))"
proof -
  obtain rb m1 where b: "AddOrIncRef_begin lru f mgr = (rb, m1)" by fastforce
  show ?thesis
  proof (cases rb)
    case (Some r1)
    then have "r = r1" "mgr' = m1" using a b by (auto simp: AddOrIncRef_def)
    then show ?thesis using begin_law [OF b] Some inv incRef_law [OF _ inv lt] by auto
  next
    case None
    then have s1: "mg_state m1 = mg_state mgr" using begin_law [OF b] by auto
    obtain rg m2 where g: "AddOrIncRef_gather ne lru dec f er m1 = Some (rg, m2)"
      using a b None by (auto simp: AddOrIncRef_def split: option.splits)
    have s2: "mg_state m2 = mg_state mgr" using gather_law [OF g] s1 by simp
    show ?thesis
    proof (cases rg)
      case (Inl e)
      then have "r = Inl e" "mgr' = m2" using a b None g by (auto simp: AddOrIncRef_def)
      then show ?thesis using s2 inv by simp
    next
      case (Inr x)
      then obtain iv li where "rg = Inr (iv, li)" by (cases x) auto
      then have c: "AddOrIncRef_commit k lru f iv li m2 = Some (r, mgr')"
        using a b None g by (auto simp: AddOrIncRef_def)
      show ?thesis
      proof (rule commit_cases [OF c])
        fix i assume "r = Inr i" "incRef f (mg_state m2) = Some (i, mg_state mgr')"
        then show ?thesis using incRef_law [OF _ inv lt] s2 by auto
      next
        fix e assume "r = Inl (ErrLoadDeltas e)" "same_files (mg_state m2) (mg_state mgr')"
        then show ?thesis using same_files_inv s2 inv by auto
      next
        fix i st1
        assume h: "r = Inr (en_Info i)" "same_files (mg_state m2) st1" "en_rc i = 1" "es_executables (mg_state m2) f = None"
          "mg_state mgr' = st1\<lparr>es_executables := (es_executables st1)(f \<mapsto> i)\<rparr>"
        then show ?thesis using fresh_law [OF h(2) _ h(4,3,5)] s2 inv by auto
      qed
    qed
  qed
qed

text \<open>What the steps of the process manager do to the counts of one file.\<close>

lemma newFrameMapping_law:
  assumes n: "newFrameMapping env pr m w pm = Some ((fm, w'), pm')" and inv: "eim_inv (pm_st pm)"
    and lt: "\<And>f. Suc (rc_of (pm_st pm) f) < 2 ^ 64"
  shows "mappings_of pm' = mappings_of pm" "pm_exitEvents pm' = pm_exitEvents pm" "eim_inv (pm_st pm')"
    and "rc_of (pm_st pm') = (case fm of None \<Rightarrow> rc_of (pm_st pm)
      | Some d \<Rightarrow> let f = FileIDFromLibpf (ff_FileID (fm_File d)) in (rc_of (pm_st pm))(f := Suc (rc_of (pm_st pm) f)))"
    and "\<And>d. fm = Some d \<Longrightarrow> fm_End d = fm_Start d + rm_Length m"
proof -
  obtain info pm1 where e: "getELFInfo env pr m pm = (info, pm1)" by fastforce
  have q1: "quiet pm pm1" "pm_eim pm1 = pm_eim pm"
    using quiet_getELFInfo [of pm env pr m] getELFInfo_eim [of env pr m pm] e by auto
  let ?f = "FileIDFromLibpf (ff_FileID (ef_mappingFile info))"
  consider (none) "fm = None" "pm' = pm1"
    | (failed) mgr e where "fm = None" "pm' = with_eim mgr pm1"
        "AddOrIncRef (ev_k env) (ev_isNotExist env) (ev_lru env) (ev_dec env) ?f (pr_elfRef pr m) (pm_eim pm1) = Some (Inl e, mgr)"
    | (ok) mgr ei d where "fm = Some d" "fm_File d = ef_mappingFile info" "fm_End d = fm_Start d + rm_Length m"
        "AddOrIncRef (ev_k env) (ev_isNotExist env) (ev_lru env) (ev_dec env) ?f (pr_elfRef pr m) (pm_eim pm1) = Some (Inr ei, mgr)"
        "quiet (with_eim mgr pm1) pm'"
    using n e
    by (auto simp: newFrameMapping_def Let_def split: if_splits option.splits sum.splits
        dest!: quiet_handleNewInterpreter quiet_after_libc)
  then have "mappings_of pm' = mappings_of pm \<and> pm_exitEvents pm' = pm_exitEvents pm \<and> eim_inv (pm_st pm') \<and>
    rc_of (pm_st pm') = (case fm of None \<Rightarrow> rc_of (pm_st pm)
      | Some d \<Rightarrow> let f = FileIDFromLibpf (ff_FileID (fm_File d)) in (rc_of (pm_st pm))(f := Suc (rc_of (pm_st pm) f))) \<and>
    (\<forall>d. fm = Some d \<longrightarrow> fm_End d = fm_Start d + rm_Length m)"
  proof cases
    case none
    then show ?thesis using q1 inv by (auto simp: quiet_def pm_st_def)
  next
    case (failed mgr e)
    then show ?thesis using AddOrIncRef_law [OF failed(3)] q1 inv lt
      by (auto simp: pm_st_def with_eim_def quiet_def)
  next
    case (ok mgr ei d)
    have a: "eim_inv (mg_state mgr)" "rc_of (mg_state mgr) = (rc_of (pm_st pm))(?f := Suc (rc_of (pm_st pm) ?f))"
      using AddOrIncRef_law [OF ok(4)] q1 inv lt by (auto simp: pm_st_def)
    have sf: "same_files (mg_state mgr) (pm_st pm')" using ok(5) by (simp add: quiet_def pm_st_def with_eim_def)
    show ?thesis using ok(1,2,3,5) a same_files_inv [OF sf] q1(1)
      by (auto simp: quiet_def with_eim_def Let_def)
  qed
  then show "mappings_of pm' = mappings_of pm" "pm_exitEvents pm' = pm_exitEvents pm" "eim_inv (pm_st pm')"
    "rc_of (pm_st pm') = (case fm of None \<Rightarrow> rc_of (pm_st pm)
      | Some d \<Rightarrow> let f = FileIDFromLibpf (ff_FileID (fm_File d)) in (rc_of (pm_st pm))(f := Suc (rc_of (pm_st pm) f)))"
    "\<And>d. fm = Some d \<Longrightarrow> fm_End d = fm_Start d + rm_Length m" by auto
qed

definition prefixes_ok :: "nat \<Rightarrow> Mapping \<Rightarrow> bool" where
  "prefixes_ok fuel m \<longleftrightarrow> (\<exists>ps. mapping_prefixes fuel m = Some (Some ps))"

text \<open>
  A count that is at least the number of references that are due, and exactly that number in a run without lost references.
\<close>

definition covers :: "bool \<Rightarrow> nat \<Rightarrow> nat \<Rightarrow> bool" where
  "covers clean x y \<longleftrightarrow> y \<le> x \<and> (clean \<longrightarrow> x = y)"

lemma processRemovedMapping_law:
  assumes "processRemovedMapping env pid m pm = Some (n, pm')" "clean \<longrightarrow> prefixes_ok (ev_fuel env) m"
    and inv: "eim_inv (pm_st pm)" and pos: "0 < rc_of (pm_st pm) (mp_fid m)"
  shows "mappings_of pm' = mappings_of pm \<and> pm_exitEvents pm' = pm_exitEvents pm \<and> eim_inv (pm_st pm') \<and>
    (\<exists>d. covers clean 1 d \<and> rc_of (pm_st pm') = (rc_of (pm_st pm))(mp_fid m := rc_of (pm_st pm) (mp_fid m) - d))"
proof (cases "prefixes_ok (ev_fuel env) m")
  case True
  then obtain ebpf where e: "pm' = pm_DecRef env (mp_fid m) (set_ebpf ebpf pm)"
    using assms(1) by (auto simp: processRemovedMapping_def prefixes_ok_def Let_def split: prod.splits)
  let ?s = "pm_st (set_ebpf ebpf pm)"
  have sf: "same_files (pm_st pm) ?s" using quiet_set_ebpf [of pm ebpf] by (simp add: quiet_def)
  have inv': "eim_inv ?s" and rc: "rc_of ?s = rc_of (pm_st pm)" using same_files_inv [OF sf] inv by auto
  obtain r st where d: "DecRef (ev_now env) (mp_fid m) ?s = (r, st)" by fastforce
  have "0 < rc_of ?s (mp_fid m)" using pos rc by simp
  then have "r = None" using d by (auto simp: DecRef_def rc_of_def Let_def split: option.splits if_splits)
  moreover have "pm_st pm' = st" using d by (simp add: e pm_DecRef_def pm_st_def)
  ultimately show ?thesis using DecRef_law [OF d inv'] rc
    by (intro conjI exI [of _ 1]) (simp_all add: covers_def e pm_DecRef_def mappings_of_def set_ebpf_def fun_eq_iff)
next
  case False
  then have "pm' = pm" using assms(1) by (auto simp: processRemovedMapping_def prefixes_ok_def split: option.splits)
  then show ?thesis using inv False assms(2) by (intro conjI exI [of _ 0]) (simp_all add: covers_def)
qed

lemma removed_law:
  assumes "sum_mappings (processRemovedMapping env pid) ms pm = Some (n, pm')" "clean \<longrightarrow> (\<forall>m \<in> set ms. prefixes_ok (ev_fuel env) m)"
    and "eim_inv (pm_st pm)" and "\<And>f. covers clean (rc_of (pm_st pm) f) (b f + cnt ms f)"
  shows "mappings_of pm' = mappings_of pm \<and> pm_exitEvents pm' = pm_exitEvents pm \<and> eim_inv (pm_st pm') \<and>
    (\<forall>f. covers clean (rc_of (pm_st pm') f) (b f))"
  using assms
proof (induction ms arbitrary: pm n)
  case Nil
  then show ?case by (auto simp: fun_eq_iff)
next
  case (Cons m ms)
  then obtain k pm1 k' where s: "processRemovedMapping env pid m pm = Some (k, pm1)"
      "sum_mappings (processRemovedMapping env pid) ms pm1 = Some (k', pm')" by (auto split: option.splits)
  have pos: "0 < rc_of (pm_st pm) (mp_fid m)" using Cons.prems(4) [of "mp_fid m"] by (simp add: covers_def)
  have "clean \<longrightarrow> prefixes_ok (ev_fuel env) m" using Cons.prems(2) by simp
  from processRemovedMapping_law [OF s(1) this Cons.prems(3) pos] obtain d
    where r: "mappings_of pm1 = mappings_of pm" "pm_exitEvents pm1 = pm_exitEvents pm" "eim_inv (pm_st pm1)"
      "covers clean 1 d" "rc_of (pm_st pm1) = (rc_of (pm_st pm))(mp_fid m := rc_of (pm_st pm) (mp_fid m) - d)" by blast
  have "covers clean (rc_of (pm_st pm1) f) (b f + cnt ms f)" for f
    using Cons.prems(4) [of f] r(4,5) by (auto simp: covers_def split: if_splits)
  then show ?case using Cons.IH [OF s(2)] r Cons.prems(2) by simp
qed

lemma mset_sort_mappings [simp]: "mset (sort_mappings ms) = mset ms"
proof -
  have "mset (insert_mapping m xs) = add_mset m (mset xs)" for m xs
    by (induction xs) auto
  then show ?thesis by (induction ms) (auto simp: sort_mappings_def)
qed

lemma sort_mappings_simps [simp]:
  "set (sort_mappings ms) = set ms" "cnt (sort_mappings ms) f = cnt ms f"
  "distinct (map mp_Vaddr (sort_mappings ms)) = distinct (map mp_Vaddr ms)"
proof -
  show "set (sort_mappings ms) = set ms" by (metis mset_sort_mappings set_mset_mset)
  show "cnt (sort_mappings ms) f = cnt ms f" unfolding cnt_def by (metis mset_sort_mappings mset_filter size_mset)
  show "distinct (map mp_Vaddr (sort_mappings ms)) = distinct (map mp_Vaddr ms)"
    by (metis mset_sort_mappings mset_map mset_eq_imp_distinct_iff)
qed

section \<open>The synchronisation\<close>

text \<open>Counts that can grow by \<open>n\<close> without wrap-around.\<close>

definition room :: "nat \<Rightarrow> (FileID \<Rightarrow> nat) \<Rightarrow> bool" where
  "room n rc \<longleftrightarrow> (\<forall>f. rc f + n < 2 ^ 64)"

lemma room_Suc: "room (Suc n) rc \<Longrightarrow> room n rc" "room (Suc n) rc \<Longrightarrow> room n (rc(f := Suc (rc f)))"
  unfolding room_def by (auto simp: less_Suc_eq_le intro: Suc_lessD)

lemma room_step: "room (Suc n) rc \<Longrightarrow> Suc (rc f) < 2 ^ 64"
  unfolding room_def by (metis add_Suc_right add_lessD1 add_Suc)

text \<open>
  What holds before the remaining mappings \<open>ms\<close>; the other processes have \<open>b\<close> references, and counts have not fallen below those at the beginning, \<open>o'\<close>.
\<close>

definition sync_inv ::
  "nat \<Rightarrow> bool \<Rightarrow> (FileID \<Rightarrow> nat) \<Rightarrow> (FileID \<Rightarrow> nat) \<Rightarrow> RawMapping list \<Rightarrow> ('m, 'd, 'l, 'i, 'e, 'x) syncVars \<Rightarrow> bool" where
  "sync_inv fuel clean b o' ms v \<longleftrightarrow> eim_inv (pm_st (sv_pm v)) \<and> o' \<le> rc_of (pm_st (sv_pm v)) \<and>
     (\<forall>f. covers clean (rc_of (pm_st (sv_pm v)) f) (b f + cnt (sv_mpRemove v) f + cnt (sv_mappings v) f)) \<and>
     room (length ms) (rc_of (pm_st (sv_pm v))) \<and>
     distinct (map mp_Vaddr (sv_mpRemove v)) \<and> distinct (map mp_Vaddr (sv_mappings v) @ map rm_Vaddr ms) \<and>
     (clean \<longrightarrow> (\<forall>m \<in> set (sv_mpRemove v) \<union> set (sv_mappings v). prefixes_ok fuel m))"

definition raw_ok :: "nat \<Rightarrow> RawMapping \<Rightarrow> bool" where
  "raw_ok fuel m \<longleftrightarrow> (\<exists>ps. CalculatePrefixList fuel (rm_Vaddr m) (rm_Vaddr m + rm_Length m) = Done (Inr ps))"

lemma add_mapping_mappings [simp]:
  "sv_mappings (add_mapping m fm b v) = sv_mappings v @
     [\<lparr>mp_Vaddr = rm_Vaddr m, mp_Length = rm_Length m, mp_Device = rm_Device m, mp_Inode = rm_Inode m, mp_FrameMapping = fm\<rparr>]"
  by (simp add: add_mapping_def Let_def)

lemma old_mappingD:
  assumes "old_mapping m t = Some x"
  shows "x \<in> set t" "mp_Vaddr x = rm_Vaddr m"
  using assms by (auto simp: old_mapping_def find_Some_iff split: option.splits if_splits)

lemma cnt_taken:
  assumes "x \<in> set t" "distinct (map mp_Vaddr t)"
  shows "cnt t f = cnt (filter (\<lambda>y. mp_Vaddr y \<noteq> mp_Vaddr x) t) f + (if mp_fid x = f then 1 else 0)"
  using assms
proof (induction t)
  case (Cons y t)
  show ?case
  proof (cases "x = y")
    case True
    have "filter (\<lambda>y. mp_Vaddr y \<noteq> mp_Vaddr x) t = t"
      using Cons.prems(2) True by (intro filter_True ballI) (auto simp: image_iff)
    then show ?thesis using True by simp
  next
    case False
    then have "x \<in> set t" using Cons.prems(1) by simp
    then have "mp_Vaddr y \<noteq> mp_Vaddr x" using Cons.prems(2) by auto
    then show ?thesis using Cons.IH [OF \<open>x \<in> set t\<close>] Cons.prems(2) by simp
  qed
qed simp

lemma prefixes_ok_new:
  assumes "raw_ok fuel m" "fm_End fm = fm_Start fm + rm_Length m" "mp_Vaddr x = rm_Vaddr m" "mp_FrameMapping x = fm"
  shows "prefixes_ok fuel x"
proof -
  have "mp_Vaddr x + fm_End (mp_FrameMapping x) - fm_Start (mp_FrameMapping x) = rm_Vaddr m + rm_Length m"
    using assms by simp
  then show ?thesis using assms by (auto simp: prefixes_ok_def raw_ok_def mapping_prefixes_def)
qed

lemma prefixes_ok_eq:
  assumes "prefixes_ok fuel x" "mp_Vaddr y = mp_Vaddr x" "mp_FrameMapping y = mp_FrameMapping x"
  shows "prefixes_ok fuel y"
  using assms by (simp add: prefixes_ok_def mapping_prefixes_def)

lemma sync_callback_law:
  assumes c: "sync_callback env pr old m v = Some v'" and inv: "sync_inv (ev_fuel env) clean b o' (m # ms) v" and raw: "clean \<longrightarrow> raw_ok (ev_fuel env) m"
  shows "sync_inv (ev_fuel env) clean b o' ms v' \<and> mappings_of (sv_pm v') = mappings_of (sv_pm v) \<and>
    pm_exitEvents (sv_pm v') = pm_exitEvents (sv_pm v)"
  using c
proof (cases rule: sync_callback_cases)
  case skip
  then show ?thesis using inv by (auto simp: sync_inv_def intro: room_Suc)
next
  case (same om)
  let ?x = "\<lparr>mp_Vaddr = rm_Vaddr m, mp_Length = rm_Length m, mp_Device = rm_Device m, mp_Inode = rm_Inode m,
    mp_FrameMapping = mp_FrameMapping om\<rparr>"
  note o = old_mappingD [OF same(2)]
  have x: "clean \<longrightarrow> prefixes_ok (ev_fuel env) ?x" "mp_fid ?x = mp_fid om"
    using inv o prefixes_ok_eq [of "ev_fuel env" om ?x] by (auto simp: sync_inv_def mp_fid_def)
  have "cnt (sv_mpRemove v) f = cnt (filter (\<lambda>y. mp_Vaddr y \<noteq> rm_Vaddr m) (sv_mpRemove v)) f + (if mp_fid om = f then 1 else 0)" for f
    using cnt_taken [OF o(1)] inv o(2) by (simp add: sync_inv_def)
  then have "b f + cnt (filter (\<lambda>y. mp_Vaddr y \<noteq> rm_Vaddr m) (sv_mpRemove v)) f + cnt (sv_mappings v @ [?x]) f =
      b f + cnt (sv_mpRemove v) f + cnt (sv_mappings v) f" for f using x(2) by simp
  moreover have "covers clean (rc_of (pm_st (sv_pm v)) f) (b f + cnt (sv_mpRemove v) f + cnt (sv_mappings v) f)" for f
    using inv by (simp add: sync_inv_def)
  ultimately have "covers clean (rc_of (pm_st (sv_pm v)) f)
      (b f + cnt (filter (\<lambda>y. mp_Vaddr y \<noteq> rm_Vaddr m) (sv_mpRemove v)) f + cnt (sv_mappings v @ [?x]) f)" for f by presburger
  then show ?thesis using same inv x
    by (auto simp: sync_inv_def distinct_map_filter simp del: cnt_simps intro: room_Suc)
next
  case (new fm w pm)
  let ?x = "\<lambda>d. \<lparr>mp_Vaddr = rm_Vaddr m, mp_Length = rm_Length m, mp_Device = rm_Device m, mp_Inode = rm_Inode m,
    mp_FrameMapping = d\<rparr>"
  have rm: "room (Suc (length ms)) (rc_of (pm_st (sv_pm v)))" using inv by (simp add: sync_inv_def)
  have i: "eim_inv (pm_st (sv_pm v))" "\<And>f. Suc (rc_of (pm_st (sv_pm v)) f) < 2 ^ 64"
    using inv room_step [OF rm] by (simp_all only: sync_inv_def)
  note n = newFrameMapping_law [OF new(2) i]
  show ?thesis
  proof (cases fm)
    case None
    then show ?thesis using new(3) n inv by (auto simp: sync_inv_def intro: room_Suc)
  next
    case (Some d)
    have "clean \<longrightarrow> prefixes_ok (ev_fuel env) (?x d)" using prefixes_ok_new [OF _ n(5) [OF Some]] raw by simp
    moreover have "mp_fid (?x d) = FileIDFromLibpf (ff_FileID (fm_File d))" by (simp add: mp_fid_def)
    moreover have "room (length ms) (rc_of (pm_st pm))"
      using n(4) Some room_Suc(2) [OF rm] by (simp add: Let_def)
    moreover have "o' \<le> rc_of (pm_st pm)" using n(4) Some inv by (auto simp: sync_inv_def le_fun_def Let_def le_SucI)
    moreover have "covers clean (rc_of (pm_st pm) f) (b f + cnt (sv_mpRemove v) f + cnt (sv_mappings v @ [?x d]) f)" for f
      using n(4) Some inv by (auto simp: sync_inv_def covers_def Let_def mp_fid_def)
    ultimately show ?thesis using new(3) n(1-3) inv Some
      by (auto simp: sync_inv_def simp del: cnt_simps)
  qed
qed

lemma sync_mappings_law:
  assumes "sync_mappings env pr old ms v = Some v'" "sync_inv (ev_fuel env) clean b o' ms v" "clean \<longrightarrow> (\<forall>m \<in> set ms. raw_ok (ev_fuel env) m)"
  shows "sync_inv (ev_fuel env) clean b o' [] v' \<and> mappings_of (sv_pm v') = mappings_of (sv_pm v) \<and>
    pm_exitEvents (sv_pm v') = pm_exitEvents (sv_pm v)"
  using assms
proof (induction ms arbitrary: v)
  case (Cons m ms)
  then obtain u where u: "sync_callback env pr old m v = Some u" "sync_mappings env pr old ms u = Some v'"
    by (auto split: bind_splits)
  show ?case using sync_callback_law [OF u(1) Cons.prems(2)] Cons.IH [OF u(2)] Cons.prems(3) by simp
qed simp

lemma mappings_of_upd [simp]:
  "mappings_of (pm\<lparr>pm_pidToProcessInfo := (pm_pidToProcessInfo pm)(pid \<mapsto> info)\<rparr>) = (mappings_of pm)(pid \<mapsto> po_mappings info)"
  by (simp add: mappings_of_def fun_eq_iff)

lemma getPidInformation_law:
  assumes "getPidInformation env pr pm = (r, pm')"
  shows "same_files (pm_st pm) (pm_st pm') \<and> pm_exitEvents pm' = pm_exitEvents pm \<and>
    (case r of None \<Rightarrow> mappings_of pm' = mappings_of pm
     | Some info \<Rightarrow> mappings_of pm' = (mappings_of pm)(pr_PID pr \<mapsto> po_mappings info) \<and>
         (mappings_of pm (pr_PID pr) = None \<and> po_mappings info = [] \<or> mappings_of pm (pr_PID pr) = Some (po_mappings info)))"
proof (cases "pm_pidToProcessInfo pm (pr_PID pr)")
  case (Some info)
  then have "r = Some info" "pm' = pm" using assms by (simp_all add: getPidInformation_def)
  then show ?thesis using Some by (simp add: mappings_of_def fun_eq_iff)
next
  case None
  then show ?thesis using assms
    by (auto simp: getPidInformation_def Let_def set_ebpf_def mappings_of_def pm_st_def same_files_def fun_eq_iff
        split: prod.splits option.splits)
qed

lemma getPidInformation_known:
  "mappings_of pm (pr_PID pr) = Some ms \<Longrightarrow> \<exists>info. getPidInformation env pr pm = (Some info, pm)"
  by (auto simp: getPidInformation_def mappings_of_def)

lemma sync_finish_law:
  assumes f: "sync_finish env pr um pw np v = Some pm'" and inv: "sync_inv (ev_fuel env) clean b o' [] v"
    and known: "mappings_of (sv_pm v) (pr_PID pr) = Some ms"
  shows "mappings_of pm' = (mappings_of (sv_pm v))(pr_PID pr \<mapsto> sort_mappings (sv_mappings v)) \<and>
    pm_exitEvents pm' = pm_exitEvents (sv_pm v) \<and> eim_inv (pm_st pm') \<and>
    (\<forall>f. covers clean (rc_of (pm_st pm') f) (b f + cnt (sv_mappings v) f))"
proof -
  let ?st = "\<lambda>s. s\<lparr>ms_maxProcParseUsec := max (ms_maxProcParseUsec s) (pr_ParseUsec pr),
                 ms_totalProcParseUsec := ms_totalProcParseUsec s + pr_ParseUsec pr\<rparr>"
  let ?p0 = "with_stats ?st (sv_pm v)"
  have q0: "quiet (sv_pm v) ?p0" by simp
  obtain n p1 where p1: "sum_mappings (processRemovedMapping env (pr_PID pr)) (sv_mpRemove v) ?p0 = Some (n, p1)"
    using f by (auto simp: sync_finish_def Let_def split: option.splits)
  obtain wd p2 where p2: "processRemovedInterpreters env (pr_PID pr) (sv_interpretersValid v) (shrink_pages n p1) = (wd, p2)"
    by fastforce
  define p3 where "p3 = (if wd \<noteq> pw then snd (updatePIDAnonymousMappingInterest env (pr_PID pr) wd p2) else p2)"
  obtain k p4 where p4: "sum_mappings (processNewMapping env (pr_PID pr)) (sv_mpAdd v) p3 = Some (k, p4)"
    using f p1 p2 by (auto simp: sync_finish_def Let_def p3_def split: option.splits prod.splits)
  have r: "mappings_of p1 = mappings_of ?p0 \<and> pm_exitEvents p1 = pm_exitEvents ?p0 \<and> eim_inv (pm_st p1) \<and>
      (\<forall>f. covers clean (rc_of (pm_st p1) f) (b f + cnt (sv_mappings v) f))"
    by (rule removed_law [OF p1]) (use inv in \<open>auto simp: sync_inv_def ac_simps\<close>)
  have "quiet p1 p2" using quiet_processRemovedInterpreters [of "shrink_pages n p1"] p2
    by (metis quiet_fields(7) quiet_refl quiet_trans snd_conv)
  moreover have "quiet p2 p3" using quiet_updateInterest by (auto simp: p3_def)
  ultimately have q4: "quiet p1 p4" using quiet_sum_new [OF p4] quiet_trans by blast
  define p5 where "p5 = p4\<lparr>pm_pidPageToMappingInfoSize := pm_pidPageToMappingInfoSize p4 + k\<rparr>"
  have q5: "quiet p1 p5" using q4 by (simp add: p5_def)
  then have m5: "mappings_of p5 = mappings_of (sv_pm v)" "pm_exitEvents p5 = pm_exitEvents (sv_pm v)"
    using r q0 by (simp_all add: quiet_def)
  then obtain info where g: "getPidInformation env pr p5 = (Some info, p5)"
    using getPidInformation_known known by metis
  define i1 where "i1 = info\<lparr>po_mappings := sort_mappings (sv_mappings v)\<rparr>"
  define i2 where "i2 = (if um then i1\<lparr>po_meta := fillSelfContainerID p5 pr (pr_Meta pr)\<rparr> else i1)"
  define info' where "info' = i2\<lparr>po_meta := (po_meta i2)\<lparr>me_ProcessContextInfo := sv_context v\<rparr>\<rparr>"
  have i: "po_mappings info' = sort_mappings (sv_mappings v)" by (simp add: info'_def i2_def i1_def)
  let ?p6 = "p5\<lparr>pm_pidToProcessInfo := (pm_pidToProcessInfo p5)(pr_PID pr \<mapsto> info')\<rparr>"
  let ?p7 = "with_interpreters (Instance_SynchronizeMappings (ev_io env) (pr_PID pr)
    (ic_collected (sv_interpreterMappings v))) (pr_PID pr) ?p6"
  have "pm' = (if np then pm_RemoveReportedPID env (pr_PID pr) ?p7 else ?p7)"
    using f p1 p2 p4 g
    by (cases wd; cases pw; cases um; cases np; simp add: sync_finish_def Let_def p3_def p5_def [symmetric] info'_def i2_def i1_def)
  then have q: "quiet ?p6 pm'" by simp
  have "same_files (pm_st p1) (pm_st pm')" using q q5 by (auto simp: quiet_def pm_st_def intro: same_files_trans)
  from same_files_inv [OF this] show ?thesis using r q i m5 by (simp add: quiet_def)
qed

section \<open>The invariant\<close>

text \<open>The references of a process: one for every mapping, until it exits.\<close>

definition pid_refs :: "('m, 'd, 'l, 'i, 'e, 'x) pm \<Rightarrow> FileID \<Rightarrow> PID \<Rightarrow> nat" where
  "pid_refs pm f pid =
     (if pm_exitEvents pm pid \<noteq> None then 0 else case mappings_of pm pid of None \<Rightarrow> 0 | Some ms \<Rightarrow> cnt ms f)"

definition maps_inv :: "nat \<Rightarrow> bool \<Rightarrow> Mapping list \<Rightarrow> bool" where
  "maps_inv fuel clean ms \<longleftrightarrow> distinct (map mp_Vaddr ms) \<and> (clean \<longrightarrow> (\<forall>m \<in> set ms. prefixes_ok fuel m))"

definition refs_inv :: "nat \<Rightarrow> bool \<Rightarrow> ('m, 'd, 'l, 'i, 'e, 'x) pm \<Rightarrow> bool" where
  "refs_inv fuel clean pm \<longleftrightarrow> eim_inv (pm_st pm) \<and>
     (\<forall>f. covers clean (rc_of (pm_st pm) f) (\<Sum>pid\<in>UNIV. pid_refs pm f pid)) \<and>
     (\<forall>pid ms. mappings_of pm pid = Some ms \<longrightarrow> maps_inv fuel clean ms)"

lemma refs_inv_quiet: "quiet pm pm' \<Longrightarrow> refs_inv fuel clean pm' = refs_inv fuel clean pm"
proof -
  assume q: "quiet pm pm'"
  then have "pid_refs pm' = pid_refs pm" by (simp add: quiet_def pid_refs_def fun_eq_iff)
  moreover have "same_files (pm_st pm) (pm_st pm')" using q by (simp add: quiet_def)
  note same_files_inv [OF this]
  ultimately show ?thesis using q by (simp add: quiet_def refs_inv_def)
qed

text \<open>A change at one process.\<close>

lemma refs_at:
  assumes "refs_inv fuel clean pm"
  shows "covers clean (rc_of (pm_st pm) f) ((\<Sum>p\<in>UNIV - {pid}. pid_refs pm f p) + pid_refs pm f pid)"
proof -
  have "(\<Sum>p\<in>UNIV. pid_refs pm f p) = (\<Sum>p\<in>UNIV - {pid}. pid_refs pm f p) + pid_refs pm f pid"
    using sum.remove [of UNIV pid "pid_refs pm f"] by simp
  then show ?thesis using assms unfolding refs_inv_def by metis
qed

lemma refs_inv_change:
  assumes inv: "refs_inv fuel clean pm" and eim: "eim_inv (pm_st pm')"
    and rc: "\<And>f. covers clean (rc_of (pm_st pm') f) ((\<Sum>p\<in>UNIV - {pid}. pid_refs pm f p) + pid_refs pm' f pid)"
    and others: "\<And>p. p \<noteq> pid \<Longrightarrow> mappings_of pm' p = mappings_of pm p \<and> pm_exitEvents pm' p = pm_exitEvents pm p"
    and own: "\<And>ms. mappings_of pm' pid = Some ms \<Longrightarrow> maps_inv fuel clean ms"
  shows "refs_inv fuel clean pm'"
proof -
  have "pid_refs pm' f p = pid_refs pm f p" if "p \<noteq> pid" for f p
    using others [OF that] by (simp add: pid_refs_def)
  then have "(\<Sum>p\<in>UNIV - {pid}. pid_refs pm f p) = (\<Sum>p\<in>UNIV - {pid}. pid_refs pm' f p)" for f
    by (intro sum.cong) auto
  then have "covers clean (rc_of (pm_st pm') f) (\<Sum>p\<in>UNIV. pid_refs pm' f p)" for f
    using rc [of f] sum.remove [of UNIV pid "pid_refs pm' f"] by (simp add: add.commute)
  moreover have "maps_inv fuel clean ms" if "mappings_of pm' p = Some ms" for p ms
    using own others [of p] inv that by (cases "p = pid") (auto simp: refs_inv_def)
  ultimately show ?thesis using eim by (simp add: refs_inv_def)
qed

lemma processPIDExit_refs:
  assumes e: "processPIDExit env t pid pm = Some pm'" and inv: "refs_inv (ev_fuel env) clean pm"
  shows "refs_inv (ev_fuel env) clean pm'"
proof (cases "pm_pidToProcessInfo pm pid = None \<or> pm_exitEvents pm pid \<noteq> None")
  case True
  then have "pm' = pm_RemoveReportedPID env pid pm" using e by (auto simp: processPIDExit_def split: option.splits)
  then show ?thesis using inv refs_inv_quiet [of pm pm'] by simp
next
  case False
  then obtain info where info: "pm_pidToProcessInfo pm pid = Some info" and live: "pm_exitEvents pm pid = None" by auto
  define b where "b f = (\<Sum>p\<in>UNIV - {pid}. pid_refs pm f p)" for f
  have ms: "mappings_of pm pid = Some (po_mappings info)" using info by (simp add: mappings_of_def)
  let ?p0 = "\<lambda>ebpf. set_ebpf ebpf (pm\<lparr>pm_exitEvents := (pm_exitEvents pm)(pid \<mapsto> t)\<rparr>)"
  obtain ebpf n d p1 wd p2 where s: "sum_mappings (processRemovedMapping env pid) (po_mappings info) (?p0 ebpf) = Some (n, p1)"
      and p2: "processRemovedInterpreters env pid {} (shrink_pages d p1) = (wd, p2)" and pm': "pm' = pm_RemoveReportedPID env pid p2"
    using e info live by (auto simp: processPIDExit_def Let_def split: option.splits prod.splits)
  have p0: "same_files (pm_st pm) (pm_st (?p0 ebpf))" "mappings_of (?p0 ebpf) = mappings_of pm"
    "pm_exitEvents (?p0 ebpf) = (pm_exitEvents pm)(pid \<mapsto> t)"
    by (simp_all add: pm_st_def set_ebpf_def same_files_def mappings_of_def fun_eq_iff)
  have "mappings_of p1 = mappings_of (?p0 ebpf) \<and> pm_exitEvents p1 = pm_exitEvents (?p0 ebpf) \<and> eim_inv (pm_st p1) \<and>
      (\<forall>f. covers clean (rc_of (pm_st p1) f) (b f))"
    using removed_law [OF s, of clean b] inv same_files_inv [OF p0(1)] refs_at [OF inv, of _ pid] ms live
    by (auto simp: refs_inv_def maps_inv_def pid_refs_def b_def)
  moreover have "quiet p1 pm'"
    using quiet_processRemovedInterpreters [of "shrink_pages d p1" env pid "{}"] pm' p2
    by (metis quiet_fields(7,8) quiet_refl quiet_trans snd_conv)
  ultimately have "mappings_of pm' = mappings_of pm" "pm_exitEvents pm' = (pm_exitEvents pm)(pid \<mapsto> t)"
    "eim_inv (pm_st pm')" "\<forall>f. covers clean (rc_of (pm_st pm') f) (b f)"
    using p0 same_files_inv [of "pm_st p1" "pm_st pm'"] by (auto simp: quiet_def)
  then show ?thesis using refs_inv_change [OF inv, of pm' pid] inv
    by (auto simp: pid_refs_def b_def refs_inv_def)
qed

lemma forget_pid_refs:
  assumes inv: "refs_inv (ev_fuel env) clean pm" and "pm_exitEvents pm pid \<noteq> None"
  shows "refs_inv (ev_fuel env) clean (forget_pid env pid pm)"
proof -
  have f: "same_files (pm_st pm) (pm_st (forget_pid env pid pm))"
    "mappings_of (forget_pid env pid pm) = (mappings_of pm)(pid := None)"
    "pm_exitEvents (forget_pid env pid pm) = (pm_exitEvents pm)(pid := None)"
    by (simp_all add: forget_pid_def Let_def set_ebpf_def pm_st_def same_files_def mappings_of_def fun_eq_iff)
  show ?thesis
    using refs_inv_change [OF inv, of "forget_pid env pid pm" pid] same_files_inv [OF f(1)] f(2,3)
      refs_at [OF inv, of _ pid] assms
    by (auto simp: pid_refs_def refs_inv_def)
qed

lemma ProcessedUntil_refs: "refs_inv (ev_fuel env) clean pm \<Longrightarrow> refs_inv (ev_fuel env) clean (ProcessedUntil env t pids pm)"
proof (induction pids arbitrary: pm)
  case (Cons pid pids)
  then show ?case using forget_pid_refs [of env clean pm pid] by (cases "pm_exitEvents pm pid") auto
qed simp

lemma CleanupPIDs_refs:
  assumes "CleanupPIDs env now sys pids pm = Some pm'" "refs_inv (ev_fuel env) clean pm"
  shows "refs_inv (ev_fuel env) clean pm'"
proof -
  have n: "fold (\<lambda>pid acc. acc \<bind> processPIDExit env now pid) ps None = None" for ps
    by (induction ps) auto
  have "fold (\<lambda>pid acc. acc \<bind> processPIDExit env now pid) ps (Some pm) = Some pm' \<Longrightarrow> refs_inv (ev_fuel env) clean pm \<Longrightarrow> refs_inv (ev_fuel env) clean pm'" for ps pm
  proof (induction ps arbitrary: pm)
    case (Cons p ps)
    then show ?case by (cases "processPIDExit env now p pm") (auto simp: n dest: processPIDExit_refs)
  qed simp
  then show ?thesis using assms by (auto simp: CleanupPIDs_def)
qed

lemma remove_table_distinct: "distinct (map mp_Vaddr ms) \<Longrightarrow> remove_table ms = ms"
  by (induction ms) auto

text \<open>
  Synchronisations: addresses are distinct, as the kernel makes them, and counts have room for the new references. A clean one
  ends without an error of the iteration, and the mappings have prefix lists.
\<close>

definition sync_ok :: "nat \<Rightarrow> bool \<Rightarrow> 'x proc \<Rightarrow> ('m, 'd, 'l, 'i, 'e, 'x) pm \<Rightarrow> bool" where
  "sync_ok fuel clean pr pm \<longleftrightarrow>
     distinct (map rm_Vaddr (pr_Mappings pr)) \<and> room (length (pr_Mappings pr)) (rc_of (pm_st pm)) \<and>
     (clean \<longrightarrow> (pr_IterateError pr = None \<or> pr_IterateError pr = Some It_CallbackStopped) \<and> (\<forall>m \<in> set (pr_Mappings pr). raw_ok fuel m))"

text \<open>The part behind the iteration over the mappings.\<close>

lemma sync_end_refs:
  assumes inv: "refs_inv (ev_fuel env) clean pm" and l: "sync_inv (ev_fuel env) clean b (rc_of (pm_st pm)) [] u"
    and b: "b = (\<lambda>f. \<Sum>p\<in>UNIV - {pr_PID pr}. pid_refs pm f p)"
    and m: "mappings_of (sv_pm u) = (mappings_of pm)(pr_PID pr \<mapsto> ms)" "pm_exitEvents (sv_pm u) = pm_exitEvents pm" "pm_exitEvents pm (pr_PID pr) = None"
    and ms: "maps_inv (ev_fuel env) clean ms" "mappings_of pm (pr_PID pr) = None \<and> ms = [] \<or> mappings_of pm (pr_PID pr) = Some ms"
  shows "sync_finish env pr um pw np u = Some pm' \<Longrightarrow> refs_inv (ev_fuel env) clean pm'"
    and "\<not> clean \<Longrightarrow> refs_inv (ev_fuel env) clean (sv_pm u)"
proof -
  assume f: "sync_finish env pr um pw np u = Some pm'"
  have known: "mappings_of (sv_pm u) (pr_PID pr) = Some ms" using m by simp
  note fl = sync_finish_law [OF f l known]
  have "maps_inv (ev_fuel env) clean (sort_mappings (sv_mappings u))" using l by (simp add: sync_inv_def maps_inv_def)
  then show "refs_inv (ev_fuel env) clean pm'"
    using refs_inv_change [OF inv, of pm' "pr_PID pr"] fl m by (auto simp: b pid_refs_def)
next
  assume c: "\<not> clean"
  have "covers clean (rc_of (pm_st (sv_pm u)) f) (b f + pid_refs (sv_pm u) f (pr_PID pr))" for f
  proof -
    have "b f + pid_refs pm f (pr_PID pr) \<le> rc_of (pm_st pm) f" using refs_at [OF inv, of f "pr_PID pr"] by (simp add: covers_def b)
    moreover have "rc_of (pm_st pm) f \<le> rc_of (pm_st (sv_pm u)) f" using l by (simp add: sync_inv_def le_fun_def)
    moreover have "pid_refs (sv_pm u) f (pr_PID pr) = pid_refs pm f (pr_PID pr)" using m ms(2) by (auto simp: pid_refs_def)
    ultimately show ?thesis using c by (simp add: covers_def)
  qed
  then show "refs_inv (ev_fuel env) clean (sv_pm u)"
    using refs_inv_change [OF inv, of "sv_pm u" "pr_PID pr"] l m ms(1) by (auto simp: b sync_inv_def)
qed

lemma SynchronizeProcess_refs:
  assumes s: "SynchronizeProcess env now pr pm = Some pm'" and inv: "refs_inv (ev_fuel env) clean pm" and ok: "sync_ok (ev_fuel env) clean pr pm"
  shows "refs_inv (ev_fuel env) clean pm'"
proof -
  let ?pid = "pr_PID pr"
  obtain r p1 where g: "getPidInformation env pr pm = (r, p1)" by fastforce
  note gl = getPidInformation_law [OF g]
  consider (exited) "pm' = pm_RemoveReportedPID env ?pid pm" | (failed) "r = None" "pm' = p1" "pm_exitEvents pm ?pid = None"
    | (sync) info where "r = Some info" "pm_exitEvents pm ?pid = None"
  proof (cases "pm_exitEvents pm ?pid")
    case None
    then show ?thesis using s g failed sync by (cases r) (auto simp: SynchronizeProcess_def)
  qed (use s exited in \<open>auto simp: SynchronizeProcess_def\<close>)
  then show ?thesis
  proof cases
    case exited
    then show ?thesis using inv refs_inv_quiet [of pm pm'] by simp
  next
    case failed
    then have "quiet pm pm'" using gl by (simp add: quiet_def)
    then show ?thesis using inv refs_inv_quiet [of pm pm'] by simp
  next
    case (sync info)
    define b where "b f = (\<Sum>p\<in>UNIV - {?pid}. pid_refs pm f p)" for f
    let ?collect = "list_ex (\<lambda>(_, x). Instance_UsesAnonymousMappings (ev_io env) x) (interpreters_of p1 ?pid)"
    let ?v0 = "sync_begin info ?collect (with_stats (\<lambda>s. s\<lparr>ms_numProcAttempts := ms_numProcAttempts s + 1\<rparr>) p1)"
    let ?old = "me_ProcessContextInfo (po_meta info)"
    obtain v where v: "sync_mappings env pr ?old (pr_Mappings pr) ?v0 = Some v"
      using s g sync by (auto simp: SynchronizeProcess_def Let_def split: option.splits)
    define u where "u = v\<lparr>sv_pm := with_stats (\<lambda>s. s\<lparr>ms_numProcParseErrors := ms_numProcParseErrors s + pr_NumParseErrors pr\<rparr>) (sv_pm v)\<rparr>"
    have m: "maps_inv (ev_fuel env) clean (po_mappings info)" using inv gl sync(1) by (auto simp: refs_inv_def maps_inv_def)
    have rc: "covers clean (rc_of (pm_st pm) f) (b f + cnt (po_mappings info) f)" for f
      using refs_at [OF inv, of f ?pid] gl sync by (auto simp: b_def pid_refs_def)
    have i0: "sync_inv (ev_fuel env) clean b (rc_of (pm_st pm)) (pr_Mappings pr) ?v0"
      using m rc ok inv gl same_files_inv [of "pm_st pm" "pm_st p1"]
      by (auto simp: sync_inv_def sync_begin_def maps_inv_def remove_table_distinct sync_ok_def refs_inv_def)
    from sync_mappings_law [OF v i0] ok have l: "sync_inv (ev_fuel env) clean b (rc_of (pm_st pm)) [] u" "mappings_of (sv_pm u) = mappings_of p1"
      "pm_exitEvents (sv_pm u) = pm_exitEvents pm"
      using gl by (auto simp: sync_ok_def sync_inv_def u_def sync_begin_def)
    have mu: "mappings_of (sv_pm u) = (mappings_of pm)(?pid \<mapsto> po_mappings info)"
      and mi: "mappings_of pm ?pid = None \<and> po_mappings info = [] \<or> mappings_of pm ?pid = Some (po_mappings info)"
      using l gl sync by auto
    note end_refs = sync_end_refs [OF inv l(1) _ mu l(3) sync(2) m mi, unfolded b_def, OF refl]
    show ?thesis
    proof (cases "pr_IterateError pr = None \<or> pr_IterateError pr = Some It_CallbackStopped")
      case True
      then obtain um pw np where "sync_finish env pr um pw np u = Some pm'"
        using s g sync v by (auto simp: SynchronizeProcess_def Let_def u_def)
      then show ?thesis by (rule end_refs(1))
    next
      case False
      then have "\<not> clean" using ok by (auto simp: sync_ok_def)
      then have i: "refs_inv (ev_fuel env) clean (sv_pm u)" by (rule end_refs(2))
      define q where "q = (case pr_IterateError pr of
          Some It_Permission \<Rightarrow> with_stats (\<lambda>s. s\<lparr>ms_errProcPerm := ms_errProcPerm s + 1\<rparr>) (sv_pm u)
        | Some It_NoMappings \<Rightarrow> pm_RemoveReportedPID env ?pid (sv_pm u)
        | Some It_NotExist \<Rightarrow> with_stats (\<lambda>s. s\<lparr>ms_errProcNotExist := ms_errProcNotExist s + 1\<rparr>) (sv_pm u)
        | Some It_ESRCH \<Rightarrow> with_stats (\<lambda>s. s\<lparr>ms_errProcESRCH := ms_errProcESRCH s + 1\<rparr>) (sv_pm u)
        | _ \<Rightarrow> sv_pm u)"
      have q: "quiet (sv_pm u) q" by (simp add: q_def split: option.split iterr.split)
      have "pm' = q \<or> processPIDExit env now ?pid q = Some pm'"
        using s g sync v False by (auto simp: SynchronizeProcess_def Let_def u_def q_def split: option.splits iterr.splits)
      then show ?thesis using i refs_inv_quiet [OF q, of "ev_fuel env" clean] processPIDExit_refs [of env now ?pid q pm' clean] by blast
    qed
  qed
qed

text \<open>
  The operations of the process manager that change mappings or references, in any order, with any
  kernel, clock and interpreters: synchronisation with any outcome, exit, the release of exited processes, the
  cleanup of processes and the periodic cleanup of executables. In a clean run the synchronisations are clean.
\<close>

inductive pm_step :: "nat \<Rightarrow> bool \<Rightarrow> ('m, 'd, 'l, 'i, 'e, 'x) pm \<Rightarrow> ('m, 'd, 'l, 'i, 'e, 'x) pm \<Rightarrow> bool" for fuel clean where
  step_sync: "SynchronizeProcess env now pr pm = Some pm' \<Longrightarrow> ev_fuel env = fuel \<Longrightarrow> sync_ok fuel clean pr pm \<Longrightarrow> pm_step fuel clean pm pm'"
| step_exit: "processPIDExit env now pid pm = Some pm' \<Longrightarrow> ev_fuel env = fuel \<Longrightarrow> pm_step fuel clean pm pm'"
| step_until: "pm_step fuel clean pm (ProcessedUntil env t pids pm)" if "ev_fuel env = fuel"
| step_pids: "CleanupPIDs env now sys pids pm = Some pm' \<Longrightarrow> ev_fuel env = fuel \<Longrightarrow> pm_step fuel clean pm pm'"
| step_unused: "CleanupUnused k unload now age order (pm_st pm) = Some (r, st) \<Longrightarrow>
    pm_step fuel clean pm (pm\<lparr>pm_eim := (pm_eim pm)\<lparr>mg_state := st\<rparr>\<rparr>)"

lemma pm_step_refs:
  assumes "pm_step fuel clean pm pm'" "refs_inv fuel clean pm"
  shows "refs_inv fuel clean pm'"
  using assms
proof (induction rule: pm_step.induct)
  case (step_unused k unload now age order pm r st)
  let ?pm = "pm\<lparr>pm_eim := (pm_eim pm)\<lparr>mg_state := st\<rparr>\<rparr>"
  have c: "eim_inv st" "rc_of st = rc_of (pm_st pm)"
    using cleanup_law [of k unload "now - age" order "pm_st pm"] step_unused by (auto simp: CleanupUnused_def refs_inv_def)
  have "pm_st ?pm = st" "pid_refs ?pm = pid_refs pm" by (simp_all add: pm_st_def pid_refs_def fun_eq_iff)
  then show ?case using c step_unused.prems by (simp add: refs_inv_def)
qed (auto dest: SynchronizeProcess_refs processPIDExit_refs CleanupPIDs_refs intro: ProcessedUntil_refs)

lemma refs_inv_New: "refs_inv fuel clean (NewProcessManager python native deferred ebpf cache self)"
  by (simp add: refs_inv_def NewProcessManager_def NewExecutableInfoManager_def Let_def pm_st_def eim_inv_def rc_of_def
      pid_refs_def mappings_of_def covers_def)

lemma raw_ok_bounds:
  assumes "rm_Length m \<noteq> 0" "unat (rm_Vaddr m) + unat (rm_Length m) \<le> 2 ^ 63" "unat (rm_Length m) \<le> fuel"
  shows "raw_ok fuel m"
proof -
  let ?e = "rm_Vaddr m + rm_Length m"
  have e: "unat ?e = unat (rm_Vaddr m) + unat (rm_Length m)"
    using assms(2) by (intro unat_add_no_wrap) simp
  have "unat ?e \<le> 2 ^ 63" "unat (rm_Vaddr m) \<le> unat ?e" "unat ?e - unat (rm_Vaddr m) \<le> fuel"
    using assms(2,3) e by simp_all
  from loops_tile [OF this] obtain bs where "size_loop fuel (rm_Vaddr m) ?e = Some (length bs)"
    "fill_loop fuel (rm_Vaddr m) ?e 0 (replicate (length bs) \<lparr>pf_Key = 0, pf_Length = 0\<rparr>) =
       Done (map (\<lambda>(key, k). block_prefix key k) bs)"
    by (metis append_Nil length_replicate list.size(3))
  moreover have "\<not> ?e \<le> rm_Vaddr m" using e assms(1) by (simp add: word_le_nat_alt unat_eq_0)
  ultimately show ?thesis by (simp add: raw_ok_def CalculatePrefixList_def)
qed

lemma sum_mappings_total:
  assumes "\<And>m pm. m \<in> set ms \<Longrightarrow> \<exists>r. f m pm = Some r"
  shows "\<exists>r. sum_mappings f ms pm = Some r"
  using assms
proof (induction ms arbitrary: pm)
  case (Cons m ms)
  obtain n pm1 where "f m pm = Some (n, pm1)" using Cons.prems [of m pm] by auto
  moreover obtain r where "sum_mappings f ms pm1 = Some r" using Cons.IH [of pm1] Cons.prems by auto
  ultimately show ?case by simp
qed simp

lemma sync_finish_total:
  assumes "\<forall>m \<in> set (sv_mpRemove v) \<union> set (sv_mpAdd v). prefixes_ok (ev_fuel env) m"
  shows "\<exists>pm'. sync_finish env pr um pw np v = Some pm'"
proof -
  have total: "\<exists>r. sum_mappings (processRemovedMapping env (pr_PID pr)) (sv_mpRemove v) pm = Some r" for pm
    by (rule sum_mappings_total) (use assms in \<open>force simp: prefixes_ok_def processRemovedMapping_def Let_def split_beta\<close>)
  have total': "\<exists>r. sum_mappings (processNewMapping env (pr_PID pr)) (sv_mpAdd v) pm = Some r" for pm
    by (rule sum_mappings_total) (use assms in \<open>force simp: prefixes_ok_def processNewMapping_def Let_def split_beta\<close>)
  let ?st = "\<lambda>s. s\<lparr>ms_maxProcParseUsec := max (ms_maxProcParseUsec s) (pr_ParseUsec pr),
                 ms_totalProcParseUsec := ms_totalProcParseUsec s + pr_ParseUsec pr\<rparr>"
  obtain n p1 where p1: "sum_mappings (processRemovedMapping env (pr_PID pr)) (sv_mpRemove v) (with_stats ?st (sv_pm v)) = Some (n, p1)"
    using total by fastforce
  obtain wd p2 where p2: "processRemovedInterpreters env (pr_PID pr) (sv_interpretersValid v) (shrink_pages n p1) = (wd, p2)"
    by fastforce
  let ?p3 = "if wd \<noteq> pw then snd (updatePIDAnonymousMappingInterest env (pr_PID pr) wd p2) else p2"
  obtain k p4 where "sum_mappings (processNewMapping env (pr_PID pr)) (sv_mpAdd v) ?p3 = Some (k, p4)"
    using total' by fastforce
  with p1 p2 show ?thesis by (auto simp: sync_finish_def Let_def split: prod.split)
qed

lemma sample_newFrameMapping:
  assumes "es_executables (pm_st pm) = Map.empty" "es_interpreterLoaders (pm_st pm) = es_interpreterLoaders (pm_st sample_pm)"
  shows "\<exists>pm' fm. newFrameMapping sample_env sample_proc sample_raw w pm = Some ((Some fm, w), pm') \<and> fm_Start fm = 0 \<and> fm_End fm = 0x1000 \<and>
    FileIDFromLibpf (ff_FileID (fm_File fm)) = 7"
  using assms
  by (simp add: newFrameMapping_def getELFInfo_def sample_env_def sample_proc_def sample_raw_def GetAddressMapper_def
    AddOrIncRef_def AddOrIncRef_begin_def AddOrIncRef_gather_def AddOrIncRef_commit_def incRef_def no_deferred_def
    loadDeltas_def detectAndLoadInterpData_def GetIntervalDataForFile_def pm_st_def FileIDFromLibpf_def Let_def
    assignLibcInfo_def sample_pm_def NewProcessManager_def NewExecutableInfoManager_def with_eim_def path_Base_def split: if_splits)

lemma sample_start: "es_executables (pm_st sample_pm) = Map.empty" "pm_exitEvents sample_pm = Map.empty"
  "rc_of (pm_st sample_pm) = (\<lambda>_. 0)" "eim_inv (pm_st sample_pm)"
  by (simp_all add: sample_pm_def NewProcessManager_def NewExecutableInfoManager_def pm_st_def rc_of_def eim_inv_def fun_eq_iff)

lemma sample_sync: "\<exists>pm. (pm_step 0x1000 True)\<^sup>*\<^sup>* sample_pm pm \<and> pid_refs pm 7 42 = 1"
proof -
  have raw: "raw_ok 0x1000 sample_raw" by (rule raw_ok_bounds) (simp_all add: sample_raw_def)
  have fl: "ev_fuel sample_env = 0x1000" by (simp add: sample_env_def)
  have pid: "pr_PID sample_proc = 42" by (simp add: sample_proc_def)
  note s0 = sample_start
  obtain info p1 where g: "getPidInformation sample_env sample_proc sample_pm = (Some info, p1)"
    and i: "po_mappings info = []" "me_Executable (po_meta info) = ''/bin/a''"
    by (simp add: getPidInformation_def sample_env_def sample_proc_def sample_pm_def NewProcessManager_def Let_def
        mem_kops_def UpdatePidPageMappingInfo_def EncodeBiasAndUnwindProgram_def trackMapError_def fillSelfContainerID_def sample_meta_def)
  note gl = getPidInformation_law [OF g]
  let ?p = "with_stats (\<lambda>s. s\<lparr>ms_numProcAttempts := ms_numProcAttempts s + 1\<rparr>) p1"
  have "es_executables (pm_st ?p) = Map.empty" "es_interpreterLoaders (pm_st ?p) = es_interpreterLoaders (pm_st sample_pm)"
    using gl s0(1) by (simp_all add: same_files_def)
  from sample_newFrameMapping [OF this, of False] obtain p2 fm
    where n: "newFrameMapping sample_env sample_proc sample_raw False ?p = Some ((Some fm, False), p2)"
      and fm: "fm_Start fm = 0" "fm_End fm = 0x1000" "FileIDFromLibpf (ff_FileID (fm_File fm)) = 7" by blast
  have rc: "rc_of (pm_st ?p) = (\<lambda>_. 0)" "eim_inv (pm_st ?p)"
    using gl s0(3,4) same_files_inv [of "pm_st sample_pm" "pm_st p1"] by simp_all
  note nl = newFrameMapping_law [OF n rc(2)]
  define x where "x = \<lparr>mp_Vaddr = 0x400000, mp_Length = 0x1000, mp_Device = 1, mp_Inode = 2, mp_FrameMapping = fm\<rparr>"
  have x: "mp_fid x = 7" "prefixes_ok 0x1000 x"
    using fm prefixes_ok_new [OF raw, of fm x] by (simp_all add: x_def mp_fid_def sample_raw_def)
  have c: "pm_interpreters p1 = Map.empty"
    using g by (auto simp: getPidInformation_def sample_pm_def NewProcessManager_def Let_def set_ebpf_def split: prod.splits option.splits)
  define v where "v = add_mapping sample_raw fm True (callback_new False p2 (callback_head sample_proc (me_ProcessContextInfo (po_meta info)) sample_raw
    (sync_begin info False ?p)))"
  have v: "sync_mappings sample_env sample_proc (me_ProcessContextInfo (po_meta info)) [sample_raw] (sync_begin info False ?p) = Some v"
    using n i(1)
    by (simp add: sync_callback_def v_def callback_head_def callback_new_def sync_begin_def old_mapping_def sample_raw_def IsExecutable_def
        IsAnonymous_def IsFileBacked_def IsVDSO_def IsMemFD_def hasPrefix_def VdsoPathName_def Let_def)
  have vp: "sv_pm v = p2" by (simp add: v_def)
  define u where "u = v\<lparr>sv_pm := with_stats (\<lambda>s. s\<lparr>ms_numProcParseErrors := ms_numProcParseErrors s + 0\<rparr>) p2\<rparr>"
  have u: "sv_mappings u = [x]" "sv_mpAdd u = [x]" "sv_mpRemove u = []" "pm_st (sv_pm u) = pm_st p2"
    "mappings_of (sv_pm u) = mappings_of p2" "pm_exitEvents (sv_pm u) = pm_exitEvents p2"
    using i(1) by (simp_all add: u_def v_def x_def sync_begin_def add_mapping_def sample_raw_def Let_def)
  obtain pm' where f: "sync_finish sample_env sample_proc False False True u = Some pm'"
    using sync_finish_total [of u sample_env sample_proc False False True] x(2) fl by (auto simp: u)
  have sy: "SynchronizeProcess sample_env 0 sample_proc sample_pm = Some pm'"
    using g s0(2) v f i c
    by (simp add: SynchronizeProcess_def Let_def pid interpreters_of_def u_def sample_proc_def vp)
  have "sync_ok 0x1000 True sample_proc sample_pm" using raw s0(3) by (simp add: sync_ok_def sample_proc_def room_def)
  then have r: "(pm_step 0x1000 True)\<^sup>*\<^sup>* sample_pm pm'" using step_sync [OF sy fl] by blast
  have "sync_inv 0x1000 True (\<lambda>_. 0) (\<lambda>_. 0) [] u"
    using nl rc(1) fm(3) x by (auto simp: sync_inv_def u room_def Let_def covers_def le_fun_def)
  moreover have "mappings_of (sv_pm u) (pr_PID sample_proc) = Some []" using nl(1) rc(1) gl i(1) by (simp add: u)
  ultimately have "mappings_of pm' 42 = Some [x]" "pm_exitEvents pm' = Map.empty"
    using sync_finish_law [OF f, of True "\<lambda>_. 0" "\<lambda>_. 0" "[]"] nl(2) rc(1) gl s0(2) fl by (simp_all add: u pid sort_mappings_def)
  then have "pid_refs pm' 7 42 = 1" using x(1) by (simp add: pid_refs_def)
  with r show ?thesis by blast
qed



section \<open>Exit\<close>

lemma removed_keeps:
  "sum_mappings (processRemovedMapping env pid) ms pm = Some (n, pm') \<Longrightarrow>
     pm_exitEvents pm' = pm_exitEvents pm \<and> pm_pidToProcessInfo pm' = pm_pidToProcessInfo pm"
proof (induction ms arbitrary: pm n)
  case (Cons m ms)
  then obtain k pm1 k' where s: "processRemovedMapping env pid m pm = Some (k, pm1)"
      "sum_mappings (processRemovedMapping env pid) ms pm1 = Some (k', pm')" by (auto split: option.splits)
  have "pm_exitEvents pm1 = pm_exitEvents pm \<and> pm_pidToProcessInfo pm1 = pm_pidToProcessInfo pm"
    using s(1) by (auto simp: processRemovedMapping_def pm_DecRef_def set_ebpf_def Let_def split: option.splits prod.splits)
  then show ?case using Cons.IH [OF s(2)] by simp
qed simp

lemma processPIDExit_marks:
  assumes "processPIDExit env t pid pm = Some pm'" "pm_pidToProcessInfo pm pid \<noteq> None"
  shows "pm_exitEvents pm' pid \<noteq> None"
  using assms
  by (auto simp: processPIDExit_def processRemovedInterpreters_def shrink_pages_def pm_RemoveReportedPID_def set_ebpf_def Let_def
      split: option.splits prod.splits if_splits dest!: removed_keeps)

text \<open>
  The exit of a process is handled once: after an exit a second one, or a late
  synchronisation of the process, removes the pending report of the process from the kernel and
  changes nothing else, so that no reference is given back twice, until \<open>ProcessedUntil\<close> forgets it.
\<close>

theorem exit_handled_once:
  assumes "processPIDExit env t (pr_PID pr) pm = Some pm'"
  shows "processPIDExit env' t' (pr_PID pr) pm' = Some (pm_RemoveReportedPID env' (pr_PID pr) pm') \<and>
    (pm_pidToProcessInfo pm (pr_PID pr) \<noteq> None \<longrightarrow>
       SynchronizeProcess env' now pr pm' = Some (pm_RemoveReportedPID env' (pr_PID pr) pm'))"
proof (cases "pm_pidToProcessInfo pm (pr_PID pr)")
  case None
  then have "pm_pidToProcessInfo pm' (pr_PID pr) = None"
    using assms by (auto simp: processPIDExit_def pm_RemoveReportedPID_def set_ebpf_def)
  then show ?thesis using None by (simp add: processPIDExit_def)
next
  case (Some info)
  then obtain e where "pm_exitEvents pm' (pr_PID pr) = Some e" using processPIDExit_marks [OF assms] by auto
  then show ?thesis by (simp add: processPIDExit_def SynchronizeProcess_def Let_def split: option.split)
qed

theorem exit_handled_once_witness:
  "\<exists>pm'. processPIDExit sample_env 9 42 (sample_pm\<lparr>pm_pidToProcessInfo := [42 \<mapsto> sample_info]\<rparr>) = Some pm' \<and>
     SynchronizeProcess sample_env 9 sample_proc pm' = Some (pm_RemoveReportedPID sample_env 42 pm')"
proof -
  have pid: "pr_PID sample_proc = 42" by (simp add: sample_proc_def)
  let ?pm = "sample_pm\<lparr>pm_pidToProcessInfo := [42 \<mapsto> sample_info]\<rparr>"
  have "pm_exitEvents ?pm 42 = None" by (simp add: sample_pm_def NewProcessManager_def Let_def)
  then obtain pm' where "processPIDExit sample_env 9 42 ?pm = Some pm'"
    by (simp add: processPIDExit_def sample_info_def Let_def split_beta)
  with exit_handled_once [of sample_env 9 sample_proc ?pm pm' sample_env 9 9] show ?thesis by (simp add: pid)
qed

end
