(* ===== verification/Kallsyms.thy ===== *)
theory Kallsyms
  imports ProcessInfo
begin

text \<open>
  Kernel symbols (\<open>kallsyms/kallsyms.go\<close>, \<open>kallsyms/bpf.go\<close>, \<open>kallsyms/bpf_platform_linux.go\<close>,
  \<open>stringutil.FieldsN\<close>): the table of kernel modules read from \<open>/proc/kallsyms\<close> and \<open>/sys/module\<close>,
  the table of BPF programs, and their lookups.

  The names of the symbols of a module are in one byte slice. While the file is parsed, the
  slices of the modules share the working buffer, and a module without symbols keeps sharing it: the arrays
  behind the slices are therefore an explicit store (\<open>heap\<close>), with a growth strategy
  for \<open>append\<close> as an argument. The slices of symbols are values: a slice that shares
  the buffer beyond the parsing of its module is empty. Go strings are lists of
  characters, one for each byte. What sysfs, the kernel and the scanner say is an argument.
  \<open>None\<close> is a panic. The sort of the standard library is a stable one here.
\<close>

unbundle bit_operations_syntax

section \<open>Slices of bytes\<close>

record bslice =
  bs_arr :: nat
  bs_len :: nat

type_synonym heap = "char list list"

text \<open>\<open>append\<close>: in place while the capacity suffices, otherwise into a new array.\<close>

definition go_append :: "(nat \<Rightarrow> nat) \<Rightarrow> bslice \<Rightarrow> char list \<Rightarrow> heap \<Rightarrow> bslice \<times> heap" where
  "go_append grow s bs h =
     (let a = h ! bs_arr s; n = bs_len s + length bs
      in if n \<le> length a
         then (s\<lparr>bs_len := n\<rparr>, h[bs_arr s := take (bs_len s) a @ bs @ drop n a])
         else (\<lparr>bs_arr = length h, bs_len = n\<rparr>,
               h @ [take (bs_len s) a @ bs @ replicate (grow n) (CHR 0x00)]))"

definition go_make :: "nat \<Rightarrow> heap \<Rightarrow> bslice \<times> heap" where
  "go_make cap h = (\<lparr>bs_arr = length h, bs_len = 0\<rparr>, h @ [replicate cap (CHR 0x00)])"

definition bytes_Clone :: "bslice \<Rightarrow> heap \<Rightarrow> bslice \<times> heap" where
  "bytes_Clone s h = (\<lparr>bs_arr = length h, bs_len = bs_len s\<rparr>, h @ [take (bs_len s) (h ! bs_arr s)])"

section \<open>Modules\<close>

record symbol =
  sy_offset :: u32
  sy_index :: u32

definition compareSymbol :: "symbol \<Rightarrow> symbol \<Rightarrow> int" where
  "compareSymbol a b = int (unat (sy_offset b)) - int (unat (sy_offset a))"

record Module =
  mo_start :: u64
  mo_end :: u64
  mo_mtime :: int64
  mo_stub :: bool
  mo_mapping :: "FrameMappingData option"
  mo_names :: bslice
  mo_symbols :: "symbol list"

type_synonym Generation = u64

record moduleTable =
  mt_generation :: Generation
  mt_modules :: "Module list"

definition makeModuleGeneration :: "u64 \<Rightarrow> Generation" where "makeModuleGeneration g = push_bit 1 g"
definition makeBPFGeneration :: "u64 \<Rightarrow> Generation" where "makeBPFGeneration g = push_bit 1 g OR 1"
definition isBPF :: "Generation \<Rightarrow> bool" where "isBPF g \<longleftrightarrow> g AND 1 \<noteq> 0"
definition next_generation :: "Generation \<Rightarrow> Generation" where "next_generation g = g + 2"

definition table_modules :: "moduleTable option \<Rightarrow> Module list" where
  "table_modules t = (case t of None \<Rightarrow> [] | Some t \<Rightarrow> mt_modules t)"

definition module_symbolGeneration :: "moduleTable option \<Rightarrow> Generation" where
  "module_symbolGeneration t = (case t of None \<Rightarrow> makeModuleGeneration 0 | Some t \<Rightarrow> mt_generation t)"

definition compareModule :: "Module \<Rightarrow> Module \<Rightarrow> int" where
  "compareModule a b = (if mo_start a > mo_start b then - 1 else if mo_start a < mo_start b then 1 else 0)"

text \<open>\<open>slices.SortFunc\<close> with the two comparisons: both descending.\<close>

definition sort_modules :: "Module list \<Rightarrow> Module list" where
  "sort_modules = sort_key (\<lambda>m. - uint (mo_start m))"

definition sort_symbols :: "symbol list \<Rightarrow> symbol list" where
  "sort_symbols = sort_key (\<lambda>s. - uint (sy_offset s))"

definition addName :: "(nat \<Rightarrow> nat) \<Rightarrow> string \<Rightarrow> Module \<Rightarrow> heap \<Rightarrow> (u32 \<times> Module) \<times> heap" where
  "addName grow name m h =
     (let index = bs_len (mo_names m);
          l = min (length name) 255;
          (s, h) = go_append grow (mo_names m) [char_of l] h;
          (s, h) = go_append grow s (take l name) h
      in ((word_of_nat index, m\<lparr>mo_names := s\<rparr>), h))"

definition setStub :: "(nat \<Rightarrow> nat) \<Rightarrow> string \<Rightarrow> Module \<Rightarrow> heap \<Rightarrow> Module \<times> heap" where
  "setStub grow name m h =
     (let (s, h) = go_make (length name) h;
          ((_, m), h) = addName grow name (m\<lparr>mo_names := s\<rparr>) h
      in (m\<lparr>mo_stub := True\<rparr>, h))"

text \<open>The slice expression may reach beyond the length, up to the capacity.\<close>

definition stringAt :: "heap \<Rightarrow> Module \<Rightarrow> u32 \<Rightarrow> string option" where
  "stringAt h m index =
     (let i = unat index; a = h ! bs_arr (mo_names m)
      in if i \<ge> bs_len (mo_names m) then None
         else let l = of_char (a ! i) :: nat
              in if i + 1 + l > length a then None else Some (take l (drop (i + 1) a)))"

definition module_Name :: "heap \<Rightarrow> Module \<Rightarrow> string option" where
  "module_Name h m = stringAt h m 0"

definition Kernel :: string where "Kernel = ''vmlinux''"

definition max_address :: u64 where "max_address = NOT 0"

definition module_finish :: "Module \<Rightarrow> Module option" where
  "module_finish m =
     (let fin = (\<lambda>m. m\<lparr>mo_symbols := sort_symbols (mo_symbols m)\<rparr>)
      in if mo_end m = 0 \<or> mo_end m = max_address
         then if mo_symbols m = [] then None
              else let lastSymbol = mo_start m + ucast (sy_offset (last (mo_symbols m)))
                   in Some (fin (m\<lparr>mo_end := (lastSymbol + 4095) AND NOT 4095\<rparr>))
         else Some (fin m))"

datatype kerr = ErrSymbolPermissions | ErrNoModule | ErrNoSymbol | ErrModuleStub
  | ErrBadLine string | ErrBadAddress string | ErrBadModuleName string | ErrScan | ErrSysfs

definition LookupSymbolByAddress :: "heap \<Rightarrow> Module \<Rightarrow> u64 \<Rightarrow> (kerr + string \<times> u64) option" where
  "LookupSymbolByAddress h m pc =
     (if mo_stub m then Some (Inl ErrModuleStub)
      else
        let pcOffs = ucast (pc - mo_start m) :: u32;
            (symIdx, _) = binarySearchFunc (mo_symbols m) (\<lambda>s. compareSymbol s \<lparr>sy_offset = pcOffs, sy_index = 0\<rparr>)
        in if symIdx \<ge> length (mo_symbols m) then Some (Inl ErrNoSymbol)
           else let s = mo_symbols m ! symIdx
                in map_option (\<lambda>name. Inr (name, ucast (pcOffs - sy_offset s))) (stringAt h m (sy_index s)))"

fun lookup_symbols :: "heap \<Rightarrow> Module \<Rightarrow> string \<Rightarrow> symbol list \<Rightarrow> (kerr + u64) option" where
  "lookup_symbols h m name [] = Some (Inl ErrNoSymbol)"
| "lookup_symbols h m name (s # ss) =
     (case stringAt h m (sy_index s) of
        None \<Rightarrow> None
      | Some n \<Rightarrow> if n = name then Some (Inr (mo_start m + ucast (sy_offset s))) else lookup_symbols h m name ss)"

definition LookupSymbol :: "heap \<Rightarrow> Module \<Rightarrow> string \<Rightarrow> (kerr + u64) option" where
  "LookupSymbol h m name = lookup_symbols h m name (mo_symbols m)"

fun lookup_prefix :: "heap \<Rightarrow> Module \<Rightarrow> string \<Rightarrow> symbol list \<Rightarrow> (string \<times> u64) list option" where
  "lookup_prefix h m p [] = Some []"
| "lookup_prefix h m p (s # ss) =
     (case stringAt h m (sy_index s) of
        None \<Rightarrow> None
      | Some n \<Rightarrow>
          map_option (\<lambda>r. if hasPrefix n p then (n, mo_start m + ucast (sy_offset s)) # r else r) (lookup_prefix h m p ss))"

definition LookupSymbolsByPrefix :: "heap \<Rightarrow> Module \<Rightarrow> string \<Rightarrow> (string \<times> u64) list option" where
  "LookupSymbolsByPrefix h m p = lookup_prefix h m p (mo_symbols m)"

definition getModuleByAddress :: "Module list \<Rightarrow> u64 \<Rightarrow> Module option" where
  "getModuleByAddress modules pc =
     (let i = sort_Search (length modules) (\<lambda>i. pc \<ge> mo_start (modules ! i))
      in if i \<ge> length modules then None
         else let m = modules ! i in if pc < mo_start m \<or> pc \<ge> mo_end m then None else Some m)"

section \<open>Metadata\<close>

text \<open>What sysfs says: time of modification, attributes, and the build ID (with an error flag).\<close>

record sysfs =
  sf_Stat :: "string \<Rightarrow> int64 option"
  sf_Uint :: "string \<Rightarrow> string \<Rightarrow> u64 option"
  sf_BuildID :: "string \<Rightarrow> string \<times> bool"
  sf_KernelFileID :: "string \<Rightarrow> libpf_FileID"

definition UnknownKernelFileID :: libpf_FileID where
  "UnknownKernelFileID = \<lparr>fi_hi = - 3, fi_lo = - 3\<rparr>"

text \<open>\<open>loadModuleMetadata\<close>; \<open>None\<close> is the result false, after which the module is not used.\<close>

definition set_mapping :: "sysfs \<Rightarrow> string \<Rightarrow> string \<Rightarrow> Module \<Rightarrow> Module" where
  "set_mapping sf name notesFile m =
     (let (buildID, failed) = sf_BuildID sf notesFile;
          fileID = (if \<not> failed \<and> length buildID \<ge> 16 then sf_KernelFileID sf buildID else UnknownKernelFileID)
      in m\<lparr>mo_mapping := Some \<lparr>fm_File = \<lparr>ff_FileID = fileID, ff_FileName = name, ff_GnuBuildID = buildID, ff_GoBuildID = ''''\<rparr>,
             fm_Start = 0, fm_End = 0, fm_FileOffset = 0\<rparr>\<rparr>)"

definition loadModuleMetadata :: "sysfs \<Rightarrow> Module \<Rightarrow> string \<Rightarrow> int64 \<Rightarrow> Module option" where
  "loadModuleMetadata sf m name oldMtime =
     (if name \<noteq> Kernel
      then (case sf_Stat sf name of
              None \<Rightarrow> None
            | Some mtime \<Rightarrow>
                if mtime = oldMtime then None
                else
                  (case (sf_Uint sf name ''sections/.text'', sf_Uint sf name ''coresize'') of
                     (Some addr, Some sz) \<Rightarrow>
                       Some (set_mapping sf name (''/sys/module/'' @ name @ ''/notes/.note.gnu.build-id'')
                         (m\<lparr>mo_mtime := mtime, mo_start := addr, mo_end := addr + sz\<rparr>))
                   | _ \<Rightarrow> None))
      else if mo_mtime m = 1 then None
      else Some (set_mapping sf name ''/sys/kernel/notes'' (m\<lparr>mo_mtime := 1\<rparr>)))"

section \<open>Parsing\<close>

definition asciiSpace :: "char \<Rightarrow> bool" where
  "asciiSpace c \<longleftrightarrow> of_char c \<in> {9, 10, 11, 12, 13, 32 :: nat}"

text \<open>\<open>FieldsN\<close>: the list of the fields that are set; its length is the result.\<close>

fun fields_loop :: "nat \<Rightarrow> string \<Rightarrow> string list" where
  "fields_loop 0 s = (let s = dropWhile asciiSpace s in if s = [] then [] else [s])"
| "fields_loop (Suc n) s =
     (let s = dropWhile asciiSpace s; f = takeWhile (\<lambda>c. \<not> asciiSpace c) s
      in if f = [] then [] else f # fields_loop n (drop (length f) s))"

definition FieldsN :: "nat \<Rightarrow> string \<Rightarrow> string list" where
  "FieldsN n s = (if n = 0 then [] else fields_loop (n - 1) s)"

text \<open>\<open>strconv.ParseUint(s, 16, 64)\<close>.\<close>

definition hex_digit :: "char \<Rightarrow> nat option" where
  "hex_digit c =
     (let n = of_char c :: nat
      in if 48 \<le> n \<and> n \<le> 57 then Some (n - 48)
         else if 97 \<le> n \<and> n \<le> 102 then Some (n - 87)
         else if 65 \<le> n \<and> n \<le> 70 then Some (n - 55)
         else None)"

fun hex_value :: "nat \<Rightarrow> string \<Rightarrow> nat option" where
  "hex_value acc [] = Some acc"
| "hex_value acc (c # cs) = (case hex_digit c of None \<Rightarrow> None | Some d \<Rightarrow> hex_value (16 * acc + d) cs)"

definition ParseHex64 :: "string \<Rightarrow> u64 option" where
  "ParseHex64 s =
     (if s = [] then None
      else case hex_value 0 s of None \<Rightarrow> None | Some n \<Rightarrow> if n < 2 ^ 64 then Some (word_of_nat n) else None)"

datatype kline = KSkip | KError kerr | KPanic | KSym u64 string string

text \<open>
  A line: fields, filter, address and the name of the module. The name is not accepted only
  if both brackets are missing, and one that is a single bracket panics.
\<close>

definition parse_line :: "string \<Rightarrow> kline" where
  "parse_line line =
     (let fs = FieldsN 4 line; f3 = (if length fs > 3 then fs ! 3 else [])
      in if length fs < 3 then KError (ErrBadLine line)
         else if f3 = ''[bpf]'' then KSkip
         else if hd (fs ! 1) \<notin> set ''TtVvWw'' \<and> fs ! 2 \<noteq> ''_etext'' then KSkip
         else
           (case ParseHex64 (fs ! 0) of
              None \<Rightarrow> KError (ErrBadAddress (fs ! 0))
            | Some address \<Rightarrow>
                if f3 = [] then KSym address (fs ! 2) Kernel
                else if hd f3 \<noteq> CHR ''['' \<and> last f3 \<noteq> CHR '']'' then KError (ErrBadModuleName f3)
                else if length f3 < 2 then KPanic
                else KSym address (fs ! 2) (butlast (tl f3))))"

record updVars =
  uv_mod :: "nat option"
  uv_curName :: string
  uv_names :: bslice
  uv_noSymbols :: bool
  uv_mods :: "Module list"
  uv_seen :: "string set"
  uv_heap :: heap

text \<open>The end of a module that has symbols: its names move out of the working buffer.\<close>

definition close_module :: "updVars \<Rightarrow> updVars option" where
  "close_module v =
     (case uv_mod v of
        None \<Rightarrow> Some v
      | Some i \<Rightarrow>
          let m = uv_mods v ! i
          in if mo_symbols m = [] then Some (v\<lparr>uv_mod := None\<rparr>)
             else
               let (names, h) = bytes_Clone (mo_names m) (uv_heap v)
               in (case module_finish (m\<lparr>mo_names := names\<rparr>) of
                     None \<Rightarrow> None
                   | Some m' \<Rightarrow>
                       map_option (\<lambda>n. v\<lparr>uv_mod := None, uv_names := (mo_names m)\<lparr>bs_len := 0\<rparr>, uv_heap := h,
                           uv_mods := (uv_mods v)[i := m'], uv_seen := insert n (uv_seen v)\<rparr>)
                         (module_Name h m')))"

definition Module_new :: "bslice \<Rightarrow> Module" where
  "Module_new names = \<lparr>mo_start = 0, mo_end = max_address, mo_mtime = 0, mo_stub = False, mo_mapping = None,
     mo_names = names\<lparr>bs_len := 0\<rparr>, mo_symbols = []\<rparr>"

text \<open>The start of a module: new metadata, or the module of the old table, or neither.\<close>

definition old_module :: "heap \<Rightarrow> Module list \<Rightarrow> u64 \<Rightarrow> string \<Rightarrow> Module option option" where
  "old_module h modules address moduleName =
     (case getModuleByAddress modules address of
        None \<Rightarrow> Some None
      | Some m \<Rightarrow>
          if mo_stub m then Some None
          else map_option (\<lambda>n. if n = moduleName then Some m else None) (module_Name h m))"

definition open_module :: "(nat \<Rightarrow> nat) \<Rightarrow> sysfs \<Rightarrow> Module list \<Rightarrow> u64 \<Rightarrow> string \<Rightarrow> updVars \<Rightarrow> updVars option" where
  "open_module grow sf modules address moduleName v =
     (if moduleName \<in> uv_seen v then Some v
      else
        (case old_module (uv_heap v) modules address moduleName of
           None \<Rightarrow> None
         | Some oldMod \<Rightarrow>
             (case loadModuleMetadata sf (Module_new (uv_names v)) moduleName (case oldMod of None \<Rightarrow> 0 | Some m \<Rightarrow> mo_mtime m) of
                Some m \<Rightarrow>
                  let ((_, m), h) = addName grow moduleName m (uv_heap v)
                  in map_option (\<lambda>n. v\<lparr>uv_mods := uv_mods v @ [m], uv_mod := Some (length (uv_mods v)), uv_heap := h, uv_curName := n\<rparr>)
                       (module_Name h m)
              | None \<Rightarrow>
                  (case oldMod of
                     None \<Rightarrow> Some v
                   | Some m \<Rightarrow>
                       map_option (\<lambda>n. v\<lparr>uv_mods := uv_mods v @ [m], uv_curName := n\<rparr>) (module_Name (uv_heap v) m)))))"

text \<open>What a symbol does to its module.\<close>

definition add_symbol :: "(nat \<Rightarrow> nat) \<Rightarrow> u64 \<Rightarrow> string \<Rightarrow> Module \<Rightarrow> heap \<Rightarrow> Module \<times> heap" where
  "add_symbol grow address name m h =
     (let started = (if mo_start m = 0 then m\<lparr>mo_start := address\<rparr> else m)
      in if name = ''_stext'' \<or> name = ''_text'' then (started, h)
         else if name = ''_etext''
         then (if mo_end m = max_address then m\<lparr>mo_end := address\<rparr> else m, h)
         else if name = ''_sinittext'' \<or> name = ''_einittext'' then (m, h)
         else if address \<ge> mo_start started \<and> address < mo_end started
         then let ((index, m), h) = addName grow name started h
              in (m\<lparr>mo_symbols := mo_symbols m @ [\<lparr>sy_offset = ucast (address - mo_start m), sy_index = index\<rparr>]\<rparr>, h)
         else (started, h))"

definition update_line ::
  "(nat \<Rightarrow> nat) \<Rightarrow> sysfs \<Rightarrow> Module list \<Rightarrow> string \<Rightarrow> updVars \<Rightarrow> (kerr + updVars) option" where
  "update_line grow sf modules line v =
     (case parse_line line of
        KSkip \<Rightarrow> Some (Inr v)
      | KError e \<Rightarrow> Some (Inl e)
      | KPanic \<Rightarrow> None
      | KSym address name moduleName \<Rightarrow>
          let v = (if address \<noteq> 0 then v\<lparr>uv_noSymbols := False\<rparr> else v)
          in if uv_curName v \<noteq> moduleName \<and> uv_curName v = Kernel \<and> uv_noSymbols v then Some (Inl ErrSymbolPermissions)
             else
               (case (if uv_curName v \<noteq> moduleName then close_module v \<bind> open_module grow sf modules address moduleName else Some v) of
                  None \<Rightarrow> None
                | Some v \<Rightarrow>
                    (case uv_mod v of
                       None \<Rightarrow> Some (Inr v)
                     | Some i \<Rightarrow>
                         let (m, h) = add_symbol grow address name (uv_mods v ! i) (uv_heap v)
                         in Some (Inr (v\<lparr>uv_mods := (uv_mods v)[i := m], uv_heap := h\<rparr>)))))"

fun update_lines ::
  "(nat \<Rightarrow> nat) \<Rightarrow> sysfs \<Rightarrow> Module list \<Rightarrow> string list \<Rightarrow> updVars \<Rightarrow> (kerr + updVars) option" where
  "update_lines grow sf modules [] v = Some (Inr v)"
| "update_lines grow sf modules (l # ls) v =
     (case update_line grow sf modules l v of
        None \<Rightarrow> None
      | Some (Inl e) \<Rightarrow> Some (Inl e)
      | Some (Inr v) \<Rightarrow> update_lines grow sf modules ls v)"

section \<open>Programs\<close>

record bpfSymbol =
  bp_address :: u64
  bp_size :: u32
  bp_name :: string

record bpfSymbolTable =
  bt_generation :: Generation
  bt_symbols :: "bpfSymbol list"

definition bpf_search :: "bpfSymbol list \<Rightarrow> u64 \<Rightarrow> nat \<times> bool" where
  "bpf_search symbols addr = binarySearchFunc symbols (\<lambda>s. cmp_Compare (bp_address s) addr)"

definition bpf_lookup :: "bpfSymbolTable \<Rightarrow> u64 \<Rightarrow> (string \<times> u64) option" where
  "bpf_lookup t addr =
     (let (idx, found) = bpf_search (bt_symbols t) addr
      in if \<not> found \<and> idx = 0 then None
         else let s = bt_symbols t ! (if found then idx else idx - 1)
              in if addr \<ge> bp_address s + ucast (bp_size s) then None
                 else Some (bp_name s, addr - bp_address s))"

definition bpf_symbolGeneration :: "bpfSymbolTable option \<Rightarrow> Generation" where
  "bpf_symbolGeneration t = (case t of None \<Rightarrow> makeBPFGeneration 0 | Some t \<Rightarrow> bt_generation t)"

definition bpf_LookupSymbol :: "bpfSymbolTable option \<Rightarrow> u64 \<Rightarrow> (string \<times> u64) option" where
  "bpf_LookupSymbol t addr = (case t of None \<Rightarrow> None | Some t \<Rightarrow> bpf_lookup t addr)"

definition addBPFSymbol :: "u64 \<Rightarrow> string \<Rightarrow> u32 \<Rightarrow> bpfSymbolTable option \<Rightarrow> bpfSymbolTable option" where
  "addBPFSymbol addr name sz old =
     (let oldSymbols = (case old of None \<Rightarrow> [] | Some t \<Rightarrow> bt_symbols t);
          (idx, found) = bpf_search oldSymbols addr
      in if found \<and> bp_name (oldSymbols ! idx) = name then old
         else Some \<lparr>bt_generation = next_generation (bpf_symbolGeneration old),
                    bt_symbols = take idx oldSymbols @ [\<lparr>bp_address = addr, bp_size = sz, bp_name = name\<rparr>] @ drop idx oldSymbols\<rparr>)"

definition removeBPFSymbol :: "u64 \<Rightarrow> bpfSymbolTable option \<Rightarrow> bpfSymbolTable option" where
  "removeBPFSymbol addr old =
     (case old of
        None \<Rightarrow> None
      | Some t \<Rightarrow>
          let (idx, found) = bpf_search (bt_symbols t) addr
          in if \<not> found then old
             else Some \<lparr>bt_generation = next_generation (bt_generation t),
                        bt_symbols = take idx (bt_symbols t) @ drop (idx + 1) (bt_symbols t)\<rparr>)"

text \<open>
  The programs that the kernel lists, for each the information on it, if it could be read: tag, name,
  addresses of the compiled functions (if available) and their lengths.
\<close>

record bpfProgInfo =
  bi_Tag :: string
  bi_Name :: string
  bi_Addrs :: "u64 list option"
  bi_Lens :: "u32 list"

definition bpfProgPrefix :: string where "bpfProgPrefix = ''bpf_prog_''"

definition prog_symbols :: "bpfProgInfo option \<Rightarrow> bpfSymbol list" where
  "prog_symbols p =
     (case p of
        None \<Rightarrow> []
      | Some info \<Rightarrow>
          (case bi_Addrs info of
             None \<Rightarrow> []
           | Some addrs \<Rightarrow>
               let name = bpfProgPrefix @ bi_Tag info @ ''_'' @ bi_Name info
               in map (\<lambda>i. \<lparr>bp_address = addrs ! i, bp_size = (if i < length (bi_Lens info) then bi_Lens info ! i else 0),
                            bp_name = name\<rparr>) [0..<length addrs]))"

definition loadBPFPrograms :: "bpfProgInfo option list \<Rightarrow> bpfSymbolTable option \<Rightarrow> bpfSymbolTable option" where
  "loadBPFPrograms progs old =
     Some \<lparr>bt_generation = next_generation (bpf_symbolGeneration old),
           bt_symbols = sort_key bp_address (concat (map prog_symbols progs))\<rparr>"

record KSymbolRecord =
  kr_Addr :: u64
  kr_Len :: u32
  kr_Unregister :: bool
  kr_Name :: string

text \<open>A record of the kernel, \<open>None\<close> for lost ones; the result says whether there is an error.\<close>

definition handleBPFUpdate :: "KSymbolRecord option \<Rightarrow> bpfSymbolTable option \<Rightarrow> bool \<times> bpfSymbolTable option" where
  "handleBPFUpdate r t =
     (case r of
        None \<Rightarrow> (True, t)
      | Some r \<Rightarrow>
          if \<not> hasPrefix (kr_Name r) bpfProgPrefix then (False, t)
          else if kr_Unregister r then (False, removeBPFSymbol (kr_Addr r) t)
          else (False, addBPFSymbol (kr_Addr r) (kr_Name r) (kr_Len r) t))"

section \<open>Symbolizer\<close>

record Symbolizer =
  ks_modules :: "moduleTable option"
  ks_bpf :: "bpfSymbolTable option"
  ks_reloadModules :: bool
  ks_heap :: heap

text \<open>The working buffers: a module of the kernel in the old table is kept and not read again.\<close>

definition kernel_first :: "heap \<Rightarrow> Module list \<Rightarrow> Module list option" where
  "kernel_first h modules =
     (if list_ex (\<lambda>m. module_Name h m = None) (takeWhile (\<lambda>m. module_Name h m \<noteq> Some Kernel) modules) then None
      else Some (case find (\<lambda>m. module_Name h m = Some Kernel) modules of None \<Rightarrow> [] | Some m \<Rightarrow> [m]))"

definition update_begin :: "Symbolizer \<Rightarrow> updVars option" where
  "update_begin s =
     (let modules = table_modules (ks_modules s);
          (names, h) = go_make (if modules = [] then 3 * 1024 * 1024 else 512 * 1024) (ks_heap s)
      in map_option (\<lambda>mods. \<lparr>uv_mod = None, uv_curName = [], uv_names = names, uv_noSymbols = True, uv_mods = mods,
              uv_seen = (if mods = [] then {} else {Kernel}), uv_heap = h\<rparr>) (kernel_first h modules))"

text \<open>The scanner gives the lines of the file, and perhaps an error behind them.\<close>

definition updateSymbolsFrom ::
  "(nat \<Rightarrow> nat) \<Rightarrow> sysfs \<Rightarrow> string list \<Rightarrow> bool \<Rightarrow> Symbolizer \<Rightarrow> (kerr option \<times> Symbolizer) option" where
  "updateSymbolsFrom grow sf lines scanErr s =
     (case update_begin s of
        None \<Rightarrow> None
      | Some v \<Rightarrow>
          (case update_lines grow sf (table_modules (ks_modules s)) lines v of
             None \<Rightarrow> None
           | Some (Inl e) \<Rightarrow> Some (Some e, s)
           | Some (Inr v) \<Rightarrow>
               if scanErr then Some (Some ErrScan, s)
               else
                 (case (case uv_mod v of None \<Rightarrow> Some (uv_mods v)
                        | Some i \<Rightarrow> map_option (\<lambda>m. (uv_mods v)[i := m]) (module_finish (uv_mods v ! i))) of
                    None \<Rightarrow> None
                  | Some mods \<Rightarrow>
                      if uv_noSymbols v then Some (Some ErrSymbolPermissions, s)
                      else Some (None, s\<lparr>ks_heap := uv_heap v, ks_modules := Some
                        \<lparr>mt_generation = next_generation (module_symbolGeneration (ks_modules s)),
                         mt_modules = sort_modules mods\<rparr>\<rparr>))))"

text \<open>\<open>loadModules\<close>: the directories below \<open>/sys/module\<close>.\<close>

fun scan_modules ::
  "(nat \<Rightarrow> nat) \<Rightarrow> sysfs \<Rightarrow> Module list \<Rightarrow> string list \<Rightarrow> Module list \<Rightarrow> bool \<Rightarrow> heap \<Rightarrow> (Module list \<times> bool \<times> heap) option" where
  "scan_modules grow sf modules [] mods need h = Some (mods, need, h)"
| "scan_modules grow sf modules (name # names) mods need h =
     (case loadModuleMetadata sf (Module_new \<lparr>bs_arr = 0, bs_len = 0\<rparr>\<lparr>mo_end := 0\<rparr>) name 0 of
        None \<Rightarrow> scan_modules grow sf modules names mods need h
      | Some curMod \<Rightarrow>
          (case getModuleByAddress modules (mo_start curMod) of
             None \<Rightarrow>
               let (m, h) = setStub grow name curMod h in scan_modules grow sf modules names (mods @ [m]) True h
           | Some oldMod \<Rightarrow>
               (case module_Name h oldMod of
                  None \<Rightarrow> None
                | Some n \<Rightarrow>
                    if n = name \<and> mo_mtime oldMod = mo_mtime curMod
                    then scan_modules grow sf modules names (mods @ [oldMod]) need h
                    else let (m, h) = setStub grow name curMod h in scan_modules grow sf modules names (mods @ [m]) True h)))"

definition loadModules ::
  "(nat \<Rightarrow> nat) \<Rightarrow> sysfs \<Rightarrow> (string \<times> bool) list option \<Rightarrow> bool \<Rightarrow> Symbolizer \<Rightarrow> ((kerr + bool) \<times> Symbolizer) option" where
  "loadModules grow sf dir readErr s =
     (case dir of
        None \<Rightarrow> Some (Inl ErrSysfs, s)
      | Some entries \<Rightarrow>
          let modules = table_modules (ks_modules s)
          in if list_ex (\<lambda>m. module_Name (ks_heap s) m = None) modules then None
             else
               (case scan_modules grow sf modules (map fst (filter snd entries))
                       (filter (\<lambda>m. module_Name (ks_heap s) m = Some Kernel) modules) False (ks_heap s) of
                  None \<Rightarrow> None
                | Some (mods, need, h) \<Rightarrow>
                    if readErr then Some (Inl ErrSysfs, s)
                    else Some (Inr need, s\<lparr>ks_heap := h, ks_modules := Some
                      \<lparr>mt_generation = next_generation (module_symbolGeneration (ks_modules s)), mt_modules = sort_modules mods\<rparr>\<rparr>)))"

section \<open>Snapshots\<close>

record Snapshot =
  sn_bpf :: "bpfSymbolTable option"
  sn_modules :: "moduleTable option"
  sn_heap :: heap

datatype AddressResolution =
    Unresolved
  | ResolvedBPF Generation string u64
  | ResolvedModule Generation Module

definition take_Snapshot :: "Symbolizer \<Rightarrow> Snapshot" where
  "take_Snapshot s = \<lparr>sn_bpf = ks_bpf s, sn_modules = ks_modules s, sn_heap = ks_heap s\<rparr>"

definition IsGenerationValid :: "Snapshot \<Rightarrow> Generation \<Rightarrow> bool" where
  "IsGenerationValid s g \<longleftrightarrow>
     (if isBPF g then (case sn_bpf s of None \<Rightarrow> False | Some t \<Rightarrow> bt_generation t = g)
      else (case sn_modules s of None \<Rightarrow> False | Some t \<Rightarrow> mt_generation t = g))"

definition BPFGeneration :: "Snapshot \<Rightarrow> Generation" where
  "BPFGeneration s = bpf_symbolGeneration (sn_bpf s)"

definition KernelGeneration :: "Snapshot \<Rightarrow> Generation" where
  "KernelGeneration s = module_symbolGeneration (sn_modules s)"

definition ResolveAddress :: "Snapshot \<Rightarrow> u64 \<Rightarrow> AddressResolution" where
  "ResolveAddress s addr =
     (case bpf_LookupSymbol (sn_bpf s) addr of
        Some (name, offset) \<Rightarrow> ResolvedBPF (BPFGeneration s) name offset
      | None \<Rightarrow>
          (case getModuleByAddress (table_modules (sn_modules s)) addr of
             Some m \<Rightarrow> ResolvedModule (KernelGeneration s) m
           | None \<Rightarrow> Unresolved))"

definition GetModuleByAddress :: "Snapshot \<Rightarrow> u64 \<Rightarrow> Module option" where
  "GetModuleByAddress s pc = getModuleByAddress (table_modules (sn_modules s)) pc"

fun module_by_name :: "heap \<Rightarrow> string \<Rightarrow> Module list \<Rightarrow> Module option option" where
  "module_by_name h name [] = Some None"
| "module_by_name h name (m # ms) =
     (case module_Name h m of None \<Rightarrow> None | Some n \<Rightarrow> if n = name then Some (Some m) else module_by_name h name ms)"

definition GetModuleByName :: "Snapshot \<Rightarrow> string \<Rightarrow> Module option option" where
  "GetModuleByName s name = module_by_name (sn_heap s) name (table_modules (sn_modules s))"

definition LookupBPFSymbol :: "Snapshot \<Rightarrow> u64 \<Rightarrow> (string \<times> u64) option" where
  "LookupBPFSymbol s addr = bpf_LookupSymbol (sn_bpf s) addr"

section \<open>Workers\<close>

text \<open>
  The reload worker: timers are armed with a delay in milliseconds. An event is a request, or one
  of the timers with the outcome of the load it triggers.
\<close>

record reloadTimers =
  rt_modules :: "nat option"
  rt_kallsyms :: "nat option"

datatype reloadEvent = EvRequest | EvModules "kerr + bool" | EvKallsyms "kerr option"

definition reload_step :: "reloadEvent \<Rightarrow> reloadTimers \<Rightarrow> reloadTimers" where
  "reload_step ev t =
     (case ev of
        EvRequest \<Rightarrow> if rt_modules t = None then t\<lparr>rt_modules := Some 100\<rparr> else t
      | EvModules (Inr reloadSymbols) \<Rightarrow>
          let t = t\<lparr>rt_modules := None\<rparr>
          in if reloadSymbols \<and> rt_kallsyms t = None then t\<lparr>rt_kallsyms := Some 60000\<rparr> else t
      | EvModules (Inl _) \<Rightarrow> t\<lparr>rt_modules := Some 10000\<rparr>
      | EvKallsyms None \<Rightarrow> t\<lparr>rt_kallsyms := None\<rparr>
      | EvKallsyms (Some _) \<Rightarrow> t\<lparr>rt_kallsyms := Some 60000\<rparr>)"

text \<open>The worker for programs: the timer for a full scan, and the records of the kernel.\<close>

datatype bpfEvent = EvScan "bpfProgInfo option list" | EvRecord "KSymbolRecord option"

definition bpf_reload_step ::
  "bpfEvent \<Rightarrow> nat option \<times> bpfSymbolTable option \<Rightarrow> nat option \<times> bpfSymbolTable option" where
  "bpf_reload_step ev st =
     (let (timer, t) = st
      in case ev of
           EvScan progs \<Rightarrow> (None, loadBPFPrograms progs t)
         | EvRecord r \<Rightarrow> let (failed, t) = handleBPFUpdate r t in (if failed then Some 1000 else timer, t))"

end
