(* ===== verification/KernelSymbols.thy ===== *)
theory KernelSymbols
  imports Kallsyms
begin

text \<open>
  Properties of the kernel symbol tables (definitions in \<open>Kallsyms\<close>): names are read back as they were stored,
  addresses are resolved to the module and the symbol that contain them, the table of BPF programs stays
  sorted and answers by the last program that starts at or below an address, and what
  becomes of modules whose symbols are all filtered out.
\<close>

unbundle bit_operations_syntax

section \<open>Names\<close>

definition slice_ok :: "heap \<Rightarrow> bslice \<Rightarrow> bool" where
  "slice_ok h s \<longleftrightarrow> bs_arr s < length h \<and> bs_len s \<le> length (h ! bs_arr s)"

definition content :: "heap \<Rightarrow> bslice \<Rightarrow> char list" where
  "content h s = take (bs_len s) (h ! bs_arr s)"

lemma go_append_law:
  assumes "go_append grow s bs h = (s', h')" "slice_ok h s"
  shows "slice_ok h' s'" "content h' s' = content h s @ bs" "bs_len s' = bs_len s + length bs"
  using assms by (auto simp: go_append_def slice_ok_def content_def Let_def nth_append split: if_splits)

text \<open>A string stored inside the length of the slice.\<close>

lemma stringAt_content:
  assumes "slice_ok h (mo_names m)" "content h (mo_names m) = pre @ char_of (length n) # n @ post"
    "unat i = length pre" "length n < 256"
  shows "stringAt h m i = Some n"
proof -
  let ?a = "h ! bs_arr (mo_names m)"
  obtain rest where a: "?a = pre @ char_of (length n) # n @ post @ rest"
    using assms(2) by (metis append.assoc append_Cons append_take_drop_id content_def)
  have "bs_len (mo_names m) = length (content h (mo_names m))" using assms(1) by (simp add: content_def slice_ok_def)
  then have "unat i < bs_len (mo_names m)" using assms(2,3) by simp
  moreover have "of_char (?a ! unat i) = length n" using assms(3,4) a by (simp add: nth_append)
  ultimately show ?thesis using a assms(3) by (simp add: stringAt_def Let_def)
qed

lemma addName_law:
  assumes "addName grow name m h = ((i, m'), h')" "slice_ok h (mo_names m)"
  shows "slice_ok h' (mo_names m')" "i = word_of_nat (bs_len (mo_names m))"
    "content h' (mo_names m') = content h (mo_names m) @ char_of (min (length name) 255) # take 255 name"
proof -
  let ?l = "min (length name) 255"
  obtain s1 h1 where s1: "go_append grow (mo_names m) [char_of ?l] h = (s1, h1)" by fastforce
  obtain s2 h2 where s2: "go_append grow s1 (take ?l name) h1 = (s2, h2)" by fastforce
  have m': "m' = m\<lparr>mo_names := s2\<rparr>" "h' = h2" "i = word_of_nat (bs_len (mo_names m))"
    using assms(1) s1 s2 by (auto simp: addName_def Let_def)
  note a1 = go_append_law [OF s1 assms(2)]
  note a2 = go_append_law [OF s2 a1(1)]
  show "slice_ok h' (mo_names m')" "i = word_of_nat (bs_len (mo_names m))"
    "content h' (mo_names m') = content h (mo_names m) @ char_of ?l # take 255 name"
    using a1 a2 m' by (simp_all add: min_def)
qed

text \<open>
  Names round trip: a name is read back at the index under which it was stored, cut
  off behind 255 bytes, and the names stored earlier are still read as before.
\<close>

theorem addName_roundtrip:
  assumes "addName grow name m h = ((i, m'), h')" and "slice_ok h (mo_names m)" and "bs_len (mo_names m) < 2 ^ 32"
  shows "stringAt h' m' i = Some (take 255 name) \<and>
    (\<forall>pre n post. content h (mo_names m) = pre @ char_of (length n) # n @ post \<and> length n < 256 \<longrightarrow>
       stringAt h' m' (word_of_nat (length pre)) = Some n)"
proof -
  note a = addName_law [OF assms(1,2)]
  have len: "length (content h (mo_names m)) = bs_len (mo_names m)" using assms(2) by (simp add: content_def slice_ok_def)
  have u: "unat (word_of_nat k :: u32) = k" if "k < 2 ^ 32" for k using that by (simp add: unat_of_nat)
  have "stringAt h' m' i = Some (take 255 name)"
    using stringAt_content [OF a(1), of "content h (mo_names m)" "take 255 name" "[]" i] a(2,3) u [OF assms(3)] len
    by (simp add: min.commute)
  moreover have "stringAt h' m' (word_of_nat (length pre)) = Some n"
    if "content h (mo_names m) = pre @ char_of (length n) # n @ post" "length n < 256" for pre n post
  proof -
    have "length pre < 2 ^ 32" using len assms(3) that(1) by simp
    then show ?thesis using stringAt_content [OF a(1), of pre n _ "word_of_nat (length pre)"] a(3) that u by simp
  qed
  ultimately show ?thesis by blast
qed

theorem addName_roundtrip_witness:
  "\<exists>m' h'. addName (\<lambda>n. n) ''abc'' (Module_new \<lparr>bs_arr = 0, bs_len = 0\<rparr>) [[]] = ((0, m'), h') \<and> stringAt h' m' 0 = Some ''abc''"
proof -
  let ?m = "Module_new \<lparr>bs_arr = 0, bs_len = 0\<rparr>"
  obtain i m' h' where e: "addName (\<lambda>n. n) ''abc'' ?m [[]] = ((i, m'), h')" by (metis prod.exhaust)
  moreover have "i = 0" using e by (auto simp: addName_def Module_new_def Let_def split: prod.splits)
  moreover have "slice_ok [[]] (mo_names ?m)" "bs_len (mo_names ?m) < 2 ^ 32" by (simp_all add: slice_ok_def Module_new_def)
  from addName_roundtrip [OF e this] have "stringAt h' m' i = Some ''abc''" by simp
  ultimately show ?thesis by auto
qed

section \<open>Lookup\<close>

text \<open>Modules in descending order with disjoint ranges.\<close>

definition modules_ok :: "Module list \<Rightarrow> bool" where
  "modules_ok ms \<longleftrightarrow> sorted_wrt (\<lambda>a b. mo_end b \<le> mo_start a) ms \<and> (\<forall>m \<in> set ms. mo_start m < mo_end m)"

lemma modules_okD:
  assumes "modules_ok ms" "i < j" "j < length ms"
  shows "mo_start (ms ! j) < mo_end (ms ! j)" "mo_end (ms ! j) \<le> mo_start (ms ! i)"
  using assms by (auto simp: modules_ok_def sorted_wrt_iff_nth_less)

lemma getModuleByAddress_iff:
  assumes "modules_ok ms"
  shows "getModuleByAddress ms pc = Some m \<longleftrightarrow> m \<in> set ms \<and> mo_start m \<le> pc \<and> pc < mo_end m"
proof -
  let ?p = "\<lambda>i. pc \<ge> mo_start (ms ! i)"
  let ?i = "sort_Search (length ms) ?p"
  have mono: "upward (length ms) ?p"
    unfolding upward_def
  proof (intro allI impI)
    fix i j assume a: "i \<le> j" "j < length ms" "pc \<ge> mo_start (ms ! i)"
    show "pc \<ge> mo_start (ms ! j)" using modules_okD [OF assms, of i j] a by (cases "i = j") force+
  qed
  show ?thesis
  proof
    assume "getModuleByAddress ms pc = Some m"
    then show "m \<in> set ms \<and> mo_start m \<le> pc \<and> pc < mo_end m"
      by (auto simp: getModuleByAddress_def Let_def split: if_splits)
  next
    assume r: "m \<in> set ms \<and> mo_start m \<le> pc \<and> pc < mo_end m"
    then obtain k where k: "k < length ms" "ms ! k = m" by (metis in_set_conv_nth)
    have "\<not> ?p i" if "i < k" for i
      using modules_okD(2) [OF assms that k(1)] r k(2) by (metis leD order_less_le_trans)
    then have "?i = k" using goSearch.search_first [OF mono k(1)] r k(2) by blast
    then show "getModuleByAddress ms pc = Some m" using k r by (auto simp: getModuleByAddress_def Let_def not_less not_le)
  qed
qed

text \<open>The symbols of a module in descending order of their offsets.\<close>

lemma compareSymbol_le: "\<not> compareSymbol s \<lparr>sy_offset = o', sy_index = 0\<rparr> < 0 \<longleftrightarrow> sy_offset s \<le> o'"
  by (simp add: compareSymbol_def word_le_def not_less)

lemma lookup_index:
  assumes s: "sorted_wrt (\<lambda>a b. sy_offset b < sy_offset a) syms" and k: "k < length syms" "sy_offset (syms ! k) \<le> o'"
    and above: "\<forall>s \<in> set syms. sy_offset s \<le> o' \<longrightarrow> sy_offset s \<le> sy_offset (syms ! k)"
  shows "fst (binarySearchFunc syms (\<lambda>s. compareSymbol s \<lparr>sy_offset = o', sy_index = 0\<rparr>)) = k"
proof -
  let ?p = "\<lambda>h. \<not> compareSymbol (syms ! h) \<lparr>sy_offset = o', sy_index = 0\<rparr> < 0"
  have p: "?p h \<longleftrightarrow> sy_offset (syms ! h) \<le> o'" for h
    by (rule compareSymbol_le)
  have desc: "sy_offset (syms ! j) < sy_offset (syms ! i)" if "i < j" "j < length syms" for i j
    using s that by (simp add: sorted_wrt_iff_nth_less)
  have mono: "upward (length syms) ?p"
    unfolding upward_def p
  proof (intro allI impI)
    fix i j assume a: "i \<le> j" "j < length syms" "sy_offset (syms ! i) \<le> o'"
    show "sy_offset (syms ! j) \<le> o'" using desc [of i j] a by (cases "i = j") force+
  qed
  have "\<not> ?p m" if "m < k" for m
    using desc [OF that k(1)] above nth_mem [of m syms] that k(1) unfolding p by force
  then have "sort_Search (length syms) ?p = k" using goSearch.search_first [OF mono k(1)] k(2) p by blast
  then show ?thesis by (simp add: binarySearchFunc_def Let_def)
qed

lemma unat_up: "unat (ucast (s :: u32) :: u64) = unat s"
  by (simp add: unsigned_ucast_eq take_bit_nat_eq_self order.strict_trans [OF unsigned_less])

lemma unat_down: "unat x < 2 ^ 32 \<Longrightarrow> unat (ucast (x :: u64) :: u32) = unat x"
  by (simp add: unsigned_ucast_eq take_bit_nat_eq_self)


definition sample_module :: Module where
  "sample_module = \<lparr>mo_start = 0x1000, mo_end = 0x2000, mo_mtime = 1, mo_stub = False, mo_mapping = None,
     mo_names = \<lparr>bs_arr = 0, bs_len = 4\<rparr>, mo_symbols = [\<lparr>sy_offset = 0x20, sy_index = 2\<rparr>, \<lparr>sy_offset = 0, sy_index = 0\<rparr>]\<rparr>"

definition sample_snapshot :: Snapshot where
  "sample_snapshot = \<lparr>sn_bpf = None, sn_modules = Some \<lparr>mt_generation = 2, mt_modules = [sample_module]\<rparr>,
     sn_heap = [[CHR 0x01, CHR ''f'', CHR 0x01, CHR ''g'']]\<rparr>"


section \<open>Programs\<close>

text \<open>
  What the table of programs promises to those who register, unregister and look up: it stands for a map from
  start addresses to names and sizes, and a lookup is answered by the last program that
  starts at or below the address.
\<close>

locale program_table =
  fixes inv :: "'t \<Rightarrow> bool" and abs :: "'t \<Rightarrow> u64 \<Rightarrow> (string \<times> u32) option"
    and register :: "u64 \<Rightarrow> string \<Rightarrow> u32 \<Rightarrow> 't \<Rightarrow> 't" and unregister :: "u64 \<Rightarrow> 't \<Rightarrow> 't"
    and find_program :: "'t \<Rightarrow> u64 \<Rightarrow> (string \<times> u64) option"
  assumes register_law: "inv t \<Longrightarrow> abs t a = None \<Longrightarrow>
      inv (register a n sz t) \<and> abs (register a n sz t) = (abs t)(a \<mapsto> (n, sz))"
    and unregister_law: "inv t \<Longrightarrow> inv (unregister a t) \<and> abs (unregister a t) = (abs t)(a := None)"
    and find_last: "inv t \<Longrightarrow> abs t a = Some (n, sz) \<Longrightarrow> a \<le> x \<Longrightarrow> (\<And>b. abs t b \<noteq> None \<Longrightarrow> b \<le> x \<Longrightarrow> b \<le> a) \<Longrightarrow>
      find_program t x = (if x < a + ucast sz then Some (n, x - a) else None)"
    and find_none: "inv t \<Longrightarrow> (\<And>b. abs t b \<noteq> None \<Longrightarrow> \<not> b \<le> x) \<Longrightarrow> find_program t x = None"
begin

lemma find_determined:
  assumes "inv t" "inv t'" "abs t = abs t'"
  shows "find_program t x = find_program t' x"
proof (cases "\<exists>b. abs t b \<noteq> None \<and> b \<le> x")
  case True
  let ?D = "{b. abs t b \<noteq> None \<and> b \<le> x}"
  have ne: "?D \<noteq> {}" using True by blast
  have "Max ?D \<in> ?D" using Max_in [of ?D] ne by simp
  then obtain n sz where a: "abs t (Max ?D) = Some (n, sz)" "Max ?D \<le> x" by auto
  have mx: "b \<le> Max ?D" if "abs t b \<noteq> None" "b \<le> x" for b using that by (intro Max_ge) auto
  have "find_program t x = (if x < Max ?D + ucast sz then Some (n, x - Max ?D) else None)"
    by (rule find_last [OF assms(1) a]) (use mx in blast)
  moreover have "find_program t' x = (if x < Max ?D + ucast sz then Some (n, x - Max ?D) else None)"
    by (rule find_last [OF assms(2)]) (use a mx assms(3) in auto)
  ultimately show ?thesis by simp
next
  case False
  have "find_program t x = None" by (rule find_none [OF assms(1)]) (use False in blast)
  moreover have "find_program t' x = None" by (rule find_none [OF assms(2)]) (use False assms(3) in auto)
  ultimately show ?thesis by simp
qed

lemma register_find:
  assumes "inv t" "abs t a = None" "a \<le> x" "x < a + ucast sz" "\<And>b. abs t b \<noteq> None \<Longrightarrow> \<not> (a < b \<and> b \<le> x)"
  shows "find_program (register a n sz t) x = Some (n, x - a)"
proof -
  note r = register_law [OF assms(1,2), of n sz]
  have "find_program (register a n sz t) x = (if x < a + ucast sz then Some (n, x - a) else None)"
  proof (rule find_last)
    fix b assume "abs (register a n sz t) b \<noteq> None" "b \<le> x"
    then show "b \<le> a" using r assms(5) [of b] by (cases "b = a") (auto simp: not_less)
  qed (use r assms(3) in auto)
  then show ?thesis using assms(4) by simp
qed

lemma register_unregister:
  assumes "inv t" "abs t a = None"
  shows "find_program (unregister a (register a n sz t)) x = find_program t x"
proof (rule find_determined)
  note r = register_law [OF assms, of n sz]
  then show "inv (unregister a (register a n sz t))" using unregister_law by blast
  show "abs (unregister a (register a n sz t)) = abs t"
    using unregister_law [of "register a n sz t" a] r assms(2) by (simp add: fun_upd_idem)
qed (rule assms(1))

end

definition bpf_syms :: "bpfSymbolTable option \<Rightarrow> bpfSymbol list" where
  "bpf_syms t = (case t of None \<Rightarrow> [] | Some t \<Rightarrow> bt_symbols t)"

definition bpf_inv :: "bpfSymbolTable option \<Rightarrow> bool" where
  "bpf_inv t \<longleftrightarrow> sorted_wrt (\<lambda>a b. bp_address a < bp_address b) (bpf_syms t)"

definition bpf_abs :: "bpfSymbolTable option \<Rightarrow> u64 \<Rightarrow> (string \<times> u32) option" where
  "bpf_abs t = map_of (map (\<lambda>s. (bp_address s, (bp_name s, bp_size s))) (bpf_syms t))"

lemma bpf_search_split:
  assumes "sorted_wrt (\<lambda>a b. bp_address a < bp_address b) xs" "bpf_search xs a = (i, found)"
  shows "i \<le> length xs" "\<forall>s \<in> set (take i xs). bp_address s < a" "\<forall>s \<in> set (drop i xs). a \<le> bp_address s"
    "found \<longleftrightarrow> i < length xs \<and> bp_address (xs ! i) = a"
proof -
  let ?p = "\<lambda>h. \<not> cmp_Compare (bp_address (xs ! h)) a < 0"
  have asc: "bp_address (xs ! i) < bp_address (xs ! j)" if "i < j" "j < length xs" for i j
    using assms(1) that by (simp add: sorted_wrt_iff_nth_less)
  have mono: "upward (length xs) ?p"
    unfolding upward_def
  proof (intro allI impI)
    fix h j assume x: "h \<le> j" "j < length xs" "?p h"
    then show "?p j" using asc [of h j] by (cases "h = j") auto
  qed
  have i: "i = sort_Search (length xs) ?p" "found \<longleftrightarrow> i < length xs \<and> bp_address (xs ! i) = a"
    using assms(2) by (auto simp: bpf_search_def binarySearchFunc_def Let_def)
  show le: "i \<le> length xs" using goSearch.search_le [of "length xs" ?p] i(1) by simp
  show "\<forall>s \<in> set (take i xs). bp_address s < a"
    using goSearch.search_below [OF mono] i(1) by (auto simp: in_set_conv_nth)
  show "\<forall>s \<in> set (drop i xs). a \<le> bp_address s"
  proof
    fix s assume "s \<in> set (drop i xs)"
    then obtain k where k: "k < length xs - i" "s = xs ! (i + k)" by (auto simp: in_set_conv_nth)
    then have "?p (i + k)" using goSearch.search_above [OF mono, of "i + k"] i(1) le by simp
    then show "a \<le> bp_address s" using k(2) by (simp add: not_less)
  qed
  show "found \<longleftrightarrow> i < length xs \<and> bp_address (xs ! i) = a" by (rule i(2))
qed

lemma bp_eta [simp]: "\<lparr>bp_address = bp_address x, bp_size = bp_size x, bp_name = bp_name x\<rparr> = (x :: bpfSymbol)"
  by (cases x) simp

lemma bpf_abs_iff:
  assumes "bpf_inv t"
  shows "bpf_abs t a = Some (n, sz) \<longleftrightarrow> \<lparr>bp_address = a, bp_size = sz, bp_name = n\<rparr> \<in> set (bpf_syms t)"
proof -
  have "distinct (map bp_address (bpf_syms t))"
    using assms strict_sorted_iff [of "map bp_address (bpf_syms t)"] by (simp add: bpf_inv_def sorted_wrt_map)
  then show ?thesis
    by (auto simp: bpf_abs_def map_of_eq_Some_iff comp_def image_iff intro: bexI [of _ "\<lparr>bp_address = a, bp_size = sz, bp_name = n\<rparr>"])
qed

lemma bpf_abs_None:
  assumes "bpf_inv t"
  shows "bpf_abs t a = None \<longleftrightarrow> a \<notin> bp_address ` set (bpf_syms t)"
  by (simp add: bpf_abs_def map_of_eq_None_iff image_image)

lemma bpf_map_eqI:
  assumes "bpf_inv t" "set (bpf_syms t) = S"
    "\<And>a n sz. \<lparr>bp_address = a, bp_size = sz, bp_name = n\<rparr> \<in> S \<longleftrightarrow> g a = Some (n, sz)"
  shows "bpf_abs t = g"
proof
  fix a
  show "bpf_abs t a = g a"
    using bpf_abs_iff [OF assms(1), of a] assms(2,3) by (cases "bpf_abs t a"; cases "g a") auto
qed

lemma addBPFSymbol_law:
  assumes inv: "bpf_inv t" and fresh: "bpf_abs t a = None"
  shows "bpf_inv (addBPFSymbol a n sz t) \<and> bpf_abs (addBPFSymbol a n sz t) = (bpf_abs t)(a \<mapsto> (n, sz))"
proof -
  let ?xs = "bpf_syms t" and ?x = "\<lparr>bp_address = a, bp_size = sz, bp_name = n\<rparr>"
  obtain i found where s: "bpf_search ?xs a = (i, found)" by fastforce
  note sp = bpf_search_split [OF inv [unfolded bpf_inv_def] s]
  have no: "a \<notin> bp_address ` set ?xs" using fresh bpf_abs_None [OF inv] by simp
  then have "\<not> found" using sp(4) nth_mem by fastforce
  then have syms: "bpf_syms (addBPFSymbol a n sz t) = take i ?xs @ ?x # drop i ?xs"
    using s by (simp add: addBPFSymbol_def bpf_syms_def Let_def split: option.splits)
  have "sorted_wrt (\<lambda>a b. bp_address a < bp_address b) (take i ?xs @ drop i ?xs)" using inv by (simp add: bpf_inv_def)
  moreover have "\<forall>s \<in> set (drop i ?xs). a < bp_address s"
    using sp(3) no by (metis image_eqI in_set_dropD order_le_imp_less_or_eq)
  ultimately have inv': "bpf_inv (addBPFSymbol a n sz t)"
    using sp(2) by (auto simp: bpf_inv_def syms sorted_wrt_append intro: less_trans)
  have set': "set (bpf_syms (addBPFSymbol a n sz t)) = insert ?x (set ?xs)"
    unfolding syms by (metis append_take_drop_id list.simps(15) set_append Un_insert_right)
  show ?thesis
  proof (rule conjI [OF inv'], rule bpf_map_eqI [OF inv' set'])
    fix b m z
    show "\<lparr>bp_address = b, bp_size = z, bp_name = m\<rparr> \<in> insert ?x (set ?xs) \<longleftrightarrow> ((bpf_abs t)(a \<mapsto> (n, sz))) b = Some (m, z)"
      using bpf_abs_iff [OF inv, of b m z] no by (auto simp: image_iff)
  qed
qed

lemma removeBPFSymbol_law:
  assumes inv: "bpf_inv t"
  shows "bpf_inv (removeBPFSymbol a t) \<and> bpf_abs (removeBPFSymbol a t) = (bpf_abs t)(a := None)"
proof (cases t)
  case None
  then show ?thesis by (simp add: removeBPFSymbol_def bpf_inv_def bpf_abs_def bpf_syms_def fun_eq_iff)
next
  case (Some u)
  let ?xs = "bpf_syms t"
  obtain i found where s: "bpf_search ?xs a = (i, found)" by fastforce
  note sp = bpf_search_split [OF inv [unfolded bpf_inv_def] s]
  show ?thesis
  proof (cases found)
    case False
    have "a \<notin> bp_address ` set ?xs"
    proof
      assume "a \<in> bp_address ` set ?xs"
      then obtain k where k: "k < length ?xs" "bp_address (?xs ! k) = a" by (auto simp: in_set_conv_nth)
      then have "\<not> k < i" using sp(2) by (metis in_set_conv_nth length_take less_irrefl min_less_iff_conj nth_take)
      moreover have "bp_address (?xs ! i) \<le> a" "i < length ?xs"
        using inv k \<open>\<not> k < i\<close> by (auto simp: bpf_inv_def sorted_wrt_iff_nth_less not_less le_less)
      ultimately have "bp_address (?xs ! i) = a" using sp(3) by (metis antisym hd_drop_conv_nth hd_in_set drop_eq_Nil not_le)
      then show False using sp(4) False \<open>i < length ?xs\<close> by simp
    qed
    then have "bpf_abs t a = None" using bpf_abs_None [OF inv] by simp
    moreover have "removeBPFSymbol a t = t" using Some s False by (simp add: removeBPFSymbol_def bpf_syms_def)
    ultimately show ?thesis using inv by (simp add: fun_upd_idem)
  next
    case True
    have i: "i < length ?xs" "bp_address (?xs ! i) = a" using sp(4) True by auto
    have xs: "?xs = take i ?xs @ ?xs ! i # drop (i + 1) ?xs" using i(1) by (simp add: id_take_nth_drop)
    have syms: "bpf_syms (removeBPFSymbol a t) = take i ?xs @ drop (i + 1) ?xs"
      using Some s True by (simp add: removeBPFSymbol_def bpf_syms_def)
    have srt: "sorted_wrt (\<lambda>a b. bp_address a < bp_address b) (take i ?xs @ ?xs ! i # drop (i + 1) ?xs)"
      using inv xs by (simp add: bpf_inv_def)
    then have inv': "bpf_inv (removeBPFSymbol a t)" by (auto simp: bpf_inv_def syms sorted_wrt_append)
    have "set ?xs = insert (?xs ! i) (set (take i ?xs @ drop (i + 1) ?xs))" using xs by (metis insert_is_Un set_append Un_left_commute list.simps(15))
    then have set': "set (bpf_syms (removeBPFSymbol a t)) = {s \<in> set ?xs. bp_address s \<noteq> a}"
      unfolding syms using srt i(2) by (auto simp: sorted_wrt_append)
    show ?thesis
    proof (rule conjI [OF inv'], rule bpf_map_eqI [OF inv' set'])
      fix b m z
      show "\<lparr>bp_address = b, bp_size = z, bp_name = m\<rparr> \<in> {s \<in> set ?xs. bp_address s \<noteq> a} \<longleftrightarrow> ((bpf_abs t)(a := None)) b = Some (m, z)"
        using bpf_abs_iff [OF inv, of b m z] by auto
    qed
  qed
qed

lemma bpf_find_last:
  assumes inv: "bpf_inv t" and a: "bpf_abs t a = Some (n, sz)" "a \<le> x"
    and last: "\<And>b. bpf_abs t b \<noteq> None \<Longrightarrow> b \<le> x \<Longrightarrow> b \<le> a"
  shows "bpf_LookupSymbol t x = (if x < a + ucast sz then Some (n, x - a) else None)"
proof -
  let ?xs = "bpf_syms t" and ?s = "\<lparr>bp_address = a, bp_size = sz, bp_name = n\<rparr>"
  obtain u where t: "t = Some u" using a(1) by (cases t) (auto simp: bpf_abs_def bpf_syms_def)
  obtain k where k: "k < length ?xs" "?xs ! k = ?s" using a(1) bpf_abs_iff [OF inv] by (metis in_set_conv_nth)
  have asc: "bp_address (?xs ! i) < bp_address (?xs ! j)" if "i < j" "j < length ?xs" for i j
    using inv that by (simp add: bpf_inv_def sorted_wrt_iff_nth_less)
  obtain i found where s: "bpf_search ?xs x = (i, found)" by fastforce
  note sp = bpf_search_split [OF inv [unfolded bpf_inv_def] s]
  have above: "x < bp_address (?xs ! j)" if j: "k < j" "j < length ?xs" for j
  proof -
    have "bpf_abs t (bp_address (?xs ! j)) \<noteq> None" using bpf_abs_None [OF inv] j(2) by simp
    then show ?thesis using last [of "bp_address (?xs ! j)"] asc [OF j] k(2) by fastforce
  qed
  have "(if found then i else i - 1) = k \<and> (found \<or> 0 < i)"
  proof (cases "a = x")
    case True
    have "\<not> k < i" using sp(2) k True by (force simp: in_set_conv_nth)
    moreover have "\<not> i < k"
    proof
      assume "i < k"
      then have "bp_address (?xs ! i) < x" using asc [of i k] k True by simp
      moreover have "?xs ! i \<in> set (drop i ?xs)" using \<open>i < k\<close> k(1) by (metis Cons_nth_drop_Suc less_trans list.set_intros(1))
      ultimately show False using sp(3) by fastforce
    qed
    ultimately have "i = k" by simp
    then show ?thesis using sp(4) k True by simp
  next
    case False
    then have lt: "a < x" using a(2) by simp
    have "\<not> i \<le> k"
    proof
      assume "i \<le> k"
      then have "?xs ! k \<in> set (drop i ?xs)" using k(1) by (auto simp: in_set_conv_nth intro!: exI [of _ "k - i"])
      then show False using sp(3) k(2) lt by fastforce
    qed
    moreover have "\<not> Suc k < i"
    proof
      assume "Suc k < i"
      then have "?xs ! Suc k \<in> set (take i ?xs)" "Suc k < length ?xs"
        using sp(1) by (auto simp: in_set_conv_nth intro!: exI [of _ "Suc k"])
      then have "bp_address (?xs ! Suc k) < x" "Suc k < length ?xs" using sp(2) by blast+
      then show False using above [of "Suc k"] by simp
    qed
    ultimately have "i = Suc k" by simp
    moreover have "\<not> found" using sp(4) above [of i] calculation by fastforce
    ultimately show ?thesis by simp
  qed
  then show ?thesis using t s k
    by (auto simp: bpf_LookupSymbol_def bpf_lookup_def bpf_syms_def Let_def split: if_splits)
qed

lemma bpf_find_none:
  assumes inv: "bpf_inv t" and no: "\<And>b. bpf_abs t b \<noteq> None \<Longrightarrow> \<not> b \<le> x"
  shows "bpf_LookupSymbol t x = None"
proof (cases t)
  case (Some u)
  let ?xs = "bpf_syms t"
  obtain i found where s: "bpf_search ?xs x = (i, found)" by fastforce
  note sp = bpf_search_split [OF inv [unfolded bpf_inv_def] s]
  have gt: "x < bp_address y" if "y \<in> set ?xs" for y using no [of "bp_address y"] bpf_abs_None [OF inv] that by auto
  have "i = 0"
  proof (rule ccontr)
    assume "i \<noteq> 0"
    then have "?xs ! 0 \<in> set (take i ?xs)" using sp(1) by (auto simp: in_set_conv_nth intro!: exI [of _ 0])
    then show False using sp(2) gt by (meson in_set_takeD less_asym)
  qed
  moreover have "\<not> found" using sp(4) gt nth_mem by (metis less_irrefl)
  ultimately show ?thesis using s Some by (simp add: bpf_LookupSymbol_def bpf_lookup_def bpf_syms_def)
qed (simp add: bpf_LookupSymbol_def)

interpretation bpfTable: program_table bpf_inv bpf_abs addBPFSymbol removeBPFSymbol bpf_LookupSymbol
  by unfold_locales (use addBPFSymbol_law removeBPFSymbol_law bpf_find_last bpf_find_none in blast)+


definition sample_record :: KSymbolRecord where
  "sample_record = \<lparr>kr_Addr = 0x100, kr_Len = 0x10, kr_Unregister = False, kr_Name = ''bpf_prog_a''\<rparr>"


text \<open>
  A program that is registered at the address of one that is still in the table: its first
  address resolves to the new program, the others to the old one.
\<close>

lemma bpf_stale_program:
  "let t = addBPFSymbol 0x100 ''bpf_prog_b'' 0x10 (addBPFSymbol 0x100 ''bpf_prog_a'' 0x10 None)
   in bpf_LookupSymbol t 0x100 = Some (''bpf_prog_b'', 0) \<and> bpf_LookupSymbol t 0x101 = Some (''bpf_prog_a'', 1)"
  by (simp add: addBPFSymbol_def bpf_search_def binarySearchFunc_def sort_Search_def search_loop.simps cmp_Compare_def
      bpf_LookupSymbol_def bpf_lookup_def Let_def)

section \<open>Modules without symbols\<close>

text \<open>
  A module all of whose symbols are filtered out loses its name: its slice of names stays in the working
  buffer, and the name of the next module is written over it.
\<close>

theorem empty_module_loses_name:
  assumes "uv_mod v = Some i" "i < length (uv_mods v)" "mo_symbols (uv_mods v ! i) = []"
    and "bs_arr (mo_names (uv_mods v ! i)) = bs_arr (uv_names v)" "0 < bs_len (mo_names (uv_mods v ! i))"
    and "bs_arr (uv_names v) < length (uv_heap v)" "length name < length (uv_heap v ! bs_arr (uv_names v))"
    and "length name < 256" "name \<notin> uv_seen v"
    and "old_module (uv_heap v) modules address name = Some None"
    and "loadModuleMetadata sf (Module_new (uv_names v)) name 0 = Some m"
  shows "\<exists>v'. (close_module v \<bind> open_module grow sf modules address name) = Some v' \<and>
    module_Name (uv_heap v') (uv_mods v' ! i) = Some name \<and> module_Name (uv_heap v') (last (uv_mods v')) = Some name"
proof -
  let ?a = "bs_arr (uv_names v)" and ?w = "v\<lparr>uv_mod := None\<rparr>"
  have c: "close_module v = Some ?w" using assms(1,3) by (simp add: close_module_def)
  have mn: "mo_names m = (uv_names v)\<lparr>bs_len := 0\<rparr>"
    using assms(11) by (auto simp: loadModuleMetadata_def set_mapping_def Module_new_def Let_def split: if_splits option.splits prod.splits)
  obtain k m' h' where a: "addName grow name m (uv_heap v) = ((k, m'), h')" by (metis prod.exhaust)
  let ?buf = "char_of (length name) # name @ drop (Suc (length name)) (uv_heap v ! ?a)"
  have l: "min (length name) 255 = length name" using assms(8) by simp
  have am: "mo_names m' = \<lparr>bs_arr = ?a, bs_len = Suc (length name)\<rparr>" "h' = (uv_heap v)[?a := ?buf]"
  proof -
    let ?h1 = "(uv_heap v)[?a := char_of (length name) # drop 1 (uv_heap v ! ?a)]"
    have "go_append grow (mo_names m) [char_of (length name)] (uv_heap v) = (\<lparr>bs_arr = ?a, bs_len = 1\<rparr>, ?h1)"
      using assms(7) by (cases "uv_names v") (auto simp: go_append_def mn Suc_le_eq Let_def)
    moreover have "go_append grow \<lparr>bs_arr = ?a, bs_len = 1\<rparr> name ?h1 = (\<lparr>bs_arr = ?a, bs_len = Suc (length name)\<rparr>, (uv_heap v)[?a := ?buf])"
      using assms(6,7) by (simp add: go_append_def Let_def Suc_le_eq)
    ultimately show "mo_names m' = \<lparr>bs_arr = ?a, bs_len = Suc (length name)\<rparr>" "h' = (uv_heap v)[?a := ?buf]"
      using a by (auto simp: addName_def Let_def l)
  qed
  have n: "module_Name h' x = Some name" if "bs_arr (mo_names x) = ?a" "0 < bs_len (mo_names x)" for x
    using that assms(6,7,8) by (simp add: module_Name_def stringAt_def am(2) Let_def)
  let ?v' = "?w\<lparr>uv_mods := uv_mods v @ [m'], uv_mod := Some (length (uv_mods v)), uv_heap := h', uv_curName := name\<rparr>"
  have "open_module grow sf modules address name ?w = Some ?v'"
    using assms(9-11) a n [of m'] am(1) by (simp add: open_module_def Let_def)
  moreover have "module_Name h' (uv_mods ?v' ! i) = Some name" "module_Name h' (last (uv_mods ?v')) = Some name"
    using n [of "uv_mods v ! i"] n [of m'] am(1) assms(2,4,5) by (simp_all add: nth_append)
  ultimately show ?thesis using c by auto
qed

definition sample_sysfs :: sysfs where
  "sample_sysfs = \<lparr>sf_Stat = (\<lambda>_. Some 7), sf_Uint = (\<lambda>_ _. Some 0x1000), sf_BuildID = (\<lambda>_. ([], True)),
     sf_KernelFileID = (\<lambda>_. UnknownKernelFileID)\<rparr>"

definition sample_parse :: updVars where
  "sample_parse = \<lparr>uv_mod = Some 0, uv_curName = ''a'', uv_names = \<lparr>bs_arr = 0, bs_len = 0\<rparr>, uv_noSymbols = False,
     uv_mods = [(Module_new \<lparr>bs_arr = 0, bs_len = 0\<rparr>)\<lparr>mo_names := \<lparr>bs_arr = 0, bs_len = 2\<rparr>\<rparr>], uv_seen = {},
     uv_heap = [[CHR 0x01, CHR ''a'', CHR 0x00, CHR 0x00]]\<rparr>"

theorem empty_module_loses_name_witness:
  "module_Name (uv_heap sample_parse) (uv_mods sample_parse ! 0) = Some ''a'' \<and>
   (\<exists>v'. (close_module sample_parse \<bind> open_module (\<lambda>n. n) sample_sysfs [] 0x1000 ''bc'') = Some v' \<and>
      module_Name (uv_heap v') (uv_mods v' ! 0) = Some ''bc'')"
proof -
  obtain m where "loadModuleMetadata sample_sysfs (Module_new (uv_names sample_parse)) ''bc'' 0 = Some m"
    by (simp add: loadModuleMetadata_def sample_sysfs_def Kernel_def)
  from empty_module_loses_name [OF _ _ _ _ _ _ _ _ _ _ this, of 0 "[]" "0x1000" "\<lambda>n. n"] show ?thesis
    by (auto simp: sample_parse_def Module_new_def old_module_def getModuleByAddress_def module_Name_def stringAt_def)
qed

section \<open>Reloads\<close>

lemma reload_keeps:
  "(\<And>r. EvModules (Inr r) \<notin> set evs) \<Longrightarrow> rt_modules t \<noteq> None \<Longrightarrow> rt_modules (fold reload_step evs t) \<noteq> None"
  "EvKallsyms None \<notin> set evs \<Longrightarrow> rt_kallsyms t \<noteq> None \<Longrightarrow> rt_kallsyms (fold reload_step evs t) \<noteq> None"
proof -
  have m: "rt_modules (reload_step ev t) \<noteq> None" if "\<And>r. ev \<noteq> EvModules (Inr r)" "rt_modules t \<noteq> None" for ev t
    using that by (auto simp: reload_step_def split: reloadEvent.split sum.split option.split)
  have k: "rt_kallsyms (reload_step ev t) \<noteq> None" if "ev \<noteq> EvKallsyms None" "rt_kallsyms t \<noteq> None" for ev t
    using that by (auto simp: reload_step_def Let_def split: reloadEvent.split sum.split option.split)
  show "(\<And>r. EvModules (Inr r) \<notin> set evs) \<Longrightarrow> rt_modules t \<noteq> None \<Longrightarrow> rt_modules (fold reload_step evs t) \<noteq> None"
    by (induction evs arbitrary: t) (simp, metis fold_simps(2) list.set_intros(1,2) m)
  show "EvKallsyms None \<notin> set evs \<Longrightarrow> rt_kallsyms t \<noteq> None \<Longrightarrow> rt_kallsyms (fold reload_step evs t) \<noteq> None"
    by (induction evs arbitrary: t) (simp, metis fold_simps(2) list.set_intros(1,2) k)
qed

text \<open>
  C32: No reload is forgotten: after a request to reload the modules the timer stays armed until they are loaded
  without an error, and after modules without symbols were found the timer for the
  symbols stays armed until they are, whatever happens in between.
\<close>

theorem reload_not_forgotten:
  "(\<forall>pre post. evs = pre @ EvRequest # post \<and> (\<forall>r. EvModules (Inr r) \<notin> set post) \<longrightarrow>
      rt_modules (fold reload_step evs t) \<noteq> None) \<and>
   (\<forall>pre post. evs = pre @ EvModules (Inr True) # post \<and> EvKallsyms None \<notin> set post \<longrightarrow>
      rt_kallsyms (fold reload_step evs t) \<noteq> None)"
proof (intro conjI allI impI)
  fix pre post assume a: "evs = pre @ EvRequest # post \<and> (\<forall>r. EvModules (Inr r) \<notin> set post)"
  have "rt_modules (reload_step EvRequest u) \<noteq> None" for u by (simp add: reload_step_def)
  then show "rt_modules (fold reload_step evs t) \<noteq> None" using a reload_keeps(1) [of post] by simp
next
  fix pre post assume a: "evs = pre @ EvModules (Inr True) # post \<and> EvKallsyms None \<notin> set post"
  have "rt_kallsyms (reload_step (EvModules (Inr True)) u) \<noteq> None" for u by (simp add: reload_step_def Let_def)
  then show "rt_kallsyms (fold reload_step evs t) \<noteq> None" using a reload_keeps(2) [of post] by simp
qed

theorem reload_not_forgotten_witness:
  "rt_modules (fold reload_step [EvRequest, EvModules (Inl ErrSysfs)] \<lparr>rt_modules = None, rt_kallsyms = None\<rparr>) \<noteq> None"
proof -
  have "[EvRequest, EvModules (Inl ErrSysfs)] = [] @ EvRequest # [EvModules (Inl ErrSysfs)]" by simp
  moreover have "\<forall>r. EvModules (Inr r) \<notin> set [EvModules (Inl ErrSysfs)]" by simp
  ultimately show ?thesis using reload_not_forgotten [of "[EvRequest, EvModules (Inl ErrSysfs)]"] by blast
qed

end
