(* ===== verification/TraceConvert.thy ===== *)
theory TraceConvert
  imports Kallsyms
begin

text \<open>
  Conversion of traces (\<open>processmanager/manager.go\<close>, \<open>processmanager/kernelsymbolization.go\<close>,
  \<open>libpf/trace.go\<close>, \<open>libpf/frametype.go\<close>, \<open>libpf/frameflags.go\<close>, \<open>libpf/interpretertype.go\<close>,
  \<open>interpreter/multi.go\<close>): the words that the kernel delivers for the frames of a
  trace become the frames that are reported, by way of the frame cache, the interpreters of the process and the
  kernel symbols.

  The state is the process manager together with the frame cache and its counters. The frame cache
  (an LRU cache of a library) and the methods of interpreters that symbolize are
  arguments. What is reported is the result of \<open>HandleTrace\<close>. \<open>None\<close> is a panic.
\<close>

unbundle bit_operations_syntax

section \<open>Frame types\<close>

type_synonym FrameType = u8
type_synonym FrameFlags = u8

datatype InterpreterType = Interp u64

definition FrameMarkerUnknown :: u8 where [simp]: "FrameMarkerUnknown = 0x0"
definition FrameMarkerPython :: u8 where [simp]: "FrameMarkerPython = 0x1"
definition FrameMarkerPHP :: u8 where [simp]: "FrameMarkerPHP = 0x2"
definition FrameMarkerNative :: u8 where [simp]: "FrameMarkerNative = 0x3"
definition FrameMarkerKernel :: u8 where [simp]: "FrameMarkerKernel = 0x4"
definition FrameMarkerHotSpot :: u8 where [simp]: "FrameMarkerHotSpot = 0x5"
definition FrameMarkerRuby :: u8 where [simp]: "FrameMarkerRuby = 0x6"
definition FrameMarkerPerl :: u8 where [simp]: "FrameMarkerPerl = 0x7"
definition FrameMarkerV8 :: u8 where [simp]: "FrameMarkerV8 = 0x8"
definition FrameMarkerPHPJIT :: u8 where [simp]: "FrameMarkerPHPJIT = 0x9"
definition FrameMarkerDotnet :: u8 where [simp]: "FrameMarkerDotnet = 0xa"
definition FrameMarkerGo :: u8 where [simp]: "FrameMarkerGo = 0xb"
definition FrameMarkerBEAM :: u8 where [simp]: "FrameMarkerBEAM = 0xc"
definition FrameMarkerLuaJIT :: u8 where [simp]: "FrameMarkerLuaJIT = 0xd"

definition FrameFlagError :: u8 where [simp]: "FrameFlagError = 0x1"
definition FrameFlagReturnAddress :: u8 where [simp]: "FrameFlagReturnAddress = 0x2"
definition FrameFlagPidSpecific :: u8 where [simp]: "FrameFlagPidSpecific = 0x4"

definition errorBit :: u8 where [simp]: "errorBit = 0x80"
definition abortFrame :: FrameType where [simp]: "abortFrame = errorBit OR FrameMarkerUnknown"

definition ff_Error :: "FrameFlags \<Rightarrow> bool" where "ff_Error ff \<longleftrightarrow> ff AND FrameFlagError \<noteq> 0"
definition ff_ReturnAddress :: "FrameFlags \<Rightarrow> bool" where "ff_ReturnAddress ff \<longleftrightarrow> ff AND FrameFlagReturnAddress \<noteq> 0"
definition ff_PIDSpecific :: "FrameFlags \<Rightarrow> bool" where "ff_PIDSpecific ff \<longleftrightarrow> ff AND FrameFlagPidSpecific \<noteq> 0"

definition ft_Interpreter :: "FrameType \<Rightarrow> InterpreterType" where "ft_Interpreter ty = Interp (ucast (ty AND NOT errorBit))"
definition IsInterpType :: "FrameType \<Rightarrow> InterpreterType \<Rightarrow> bool" where "IsInterpType ty ity \<longleftrightarrow> ity = ft_Interpreter ty"
definition ft_Error :: "FrameType \<Rightarrow> FrameType" where "ft_Error ty = ty OR errorBit"
definition IsError :: "FrameType \<Rightarrow> bool" where "IsError ty \<longleftrightarrow> ty AND errorBit \<noteq> 0"
definition IsAbort :: "FrameType \<Rightarrow> bool" where "IsAbort ty \<longleftrightarrow> ty = abortFrame"

definition interp_Frame :: "InterpreterType \<Rightarrow> FrameType" where
  "interp_Frame i = (case i of Interp n \<Rightarrow> if \<not> n <s 0x100 then FrameMarkerUnknown else ucast n)"

definition interpreterTypeToString :: "(InterpreterType \<times> string) list" where
  "interpreterTypeToString =
     [(Interp (ucast FrameMarkerUnknown), ''unknown''), (Interp (ucast FrameMarkerPHP), ''php''),
      (Interp (ucast FrameMarkerPHPJIT), ''php''), (Interp (ucast FrameMarkerPython), ''cpython''),
      (Interp (ucast FrameMarkerNative), ''native''), (Interp (ucast FrameMarkerKernel), ''kernel''),
      (Interp (ucast FrameMarkerHotSpot), ''jvm''), (Interp (ucast FrameMarkerRuby), ''ruby''),
      (Interp (ucast FrameMarkerPerl), ''perl''), (Interp (ucast FrameMarkerV8), ''v8js''),
      (Interp (ucast FrameMarkerDotnet), ''dotnet''), (Interp (ucast FrameMarkerBEAM), ''beam''),
      (Interp 0x100, ''apm-integration''), (Interp (ucast FrameMarkerLuaJIT), ''luajit''),
      (Interp (ucast FrameMarkerGo), ''go'')]"

definition interp_String :: "InterpreterType \<Rightarrow> string" where
  "interp_String i = (case map_of interpreterTypeToString i of Some s \<Rightarrow> s | None \<Rightarrow> ''<invalid>'')"

text \<open>The inverse table, which leaves the compiled PHP frames out.\<close>

definition stringToInterpreterType :: "(string \<times> InterpreterType) list" where
  "stringToInterpreterType =
     map (\<lambda>(k, v). (v, k)) (filter (\<lambda>(k, _). k \<noteq> Interp (ucast FrameMarkerPHPJIT)) interpreterTypeToString)"

definition InterpreterTypeFromString :: "string \<Rightarrow> InterpreterType" where
  "InterpreterTypeFromString name =
     (case map_of stringToInterpreterType name of Some i \<Rightarrow> i | None \<Rightarrow> Interp (ucast FrameMarkerUnknown))"

definition ft_String :: "FrameType \<Rightarrow> string" where
  "ft_String ty = (if ty = abortFrame then ''abort-marker'' else interp_String (ft_Interpreter ty))"

definition FrameTypeFromString :: "string \<Rightarrow> FrameType" where
  "FrameTypeFromString name =
     (if name = ''abort-marker'' then abortFrame else interp_Frame (InterpreterTypeFromString name))"

section \<open>Frames\<close>

type_synonym EbpfFrame = "u64 list"

definition NewEbpfFrameHeader :: "FrameType \<Rightarrow> FrameFlags \<Rightarrow> u8 \<Rightarrow> u64 \<Rightarrow> u64" where
  "NewEbpfFrameHeader ty ff l data =
     push_bit 60 (ucast ty) OR push_bit 56 (ucast ff) OR push_bit 52 (ucast l) OR data"

definition NewEbpfFrame :: "FrameType \<Rightarrow> FrameFlags \<Rightarrow> u8 \<Rightarrow> u64 \<Rightarrow> EbpfFrame option" where
  "NewEbpfFrame ty ff l data =
     (if l = 0 then None else Some ((replicate (unat l) 0)[0 := NewEbpfFrameHeader ty ff l data]))"

text \<open>The accessors of a frame with a header; without one they panic.\<close>

definition ef_Type :: "EbpfFrame \<Rightarrow> FrameType" where "ef_Type f = ucast (drop_bit 60 (f ! 0))"
definition ef_Flags :: "EbpfFrame \<Rightarrow> FrameFlags" where "ef_Flags f = ucast (drop_bit 56 (f ! 0) AND 0xf)"
definition ef_Length :: "EbpfFrame \<Rightarrow> u8" where "ef_Length f = ucast (drop_bit 52 (f ! 0)) AND 0xf"
definition ef_Data :: "EbpfFrame \<Rightarrow> u64" where "ef_Data f = f ! 0 AND 0xfffffffffffff"

record Frame =
  fr_FunctionName :: string
  fr_SourceFile :: string
  fr_Mapping :: "FrameMappingData option"
  fr_SourceLine :: u64
  fr_SourceColumn :: u64
  fr_AddressOrLineno :: u64
  fr_FunctionOffset :: u32
  fr_Type :: FrameType

definition Frame_zero :: Frame where
  "Frame_zero = \<lparr>fr_FunctionName = [], fr_SourceFile = [], fr_Mapping = None, fr_SourceLine = 0, fr_SourceColumn = 0,
     fr_AddressOrLineno = 0, fr_FunctionOffset = 0, fr_Type = 0\<rparr>"

record frameCacheKey =
  fk_pid :: PID
  fk_data :: "u64 list"

definition kernelFrameCacheKey :: "u64 \<Rightarrow> Generation \<Rightarrow> frameCacheKey" where
  "kernelFrameCacheKey address generation =
     \<lparr>fk_pid = 0, fk_data = [NewEbpfFrameHeader FrameMarkerKernel 0 3 0, address, generation]\<rparr>"

text \<open>The key of a frame: the process if the frame depends on it, and the first three words.\<close>

definition frame_key :: "PID \<Rightarrow> EbpfFrame \<Rightarrow> frameCacheKey" where
  "frame_key pid frame =
     \<lparr>fk_pid = (if ff_PIDSpecific (ef_Flags frame) then pid else 0), fk_data = take 3 (frame @ [0, 0, 0])\<rparr>"

section \<open>State\<close>

record 'f frameLRU =
  fl_Get :: "frameCacheKey \<Rightarrow> 'f \<Rightarrow> Frame list option \<times> 'f"
  fl_Add :: "frameCacheKey \<Rightarrow> Frame list \<Rightarrow> 'f \<Rightarrow> 'f"

record 'i symops =
  so_Symbolize :: "'i \<Rightarrow> EbpfFrame \<Rightarrow> FrameMappingData option \<Rightarrow> Frame list \<Rightarrow> (ierr option \<times> Frame list) \<times> 'i"
  so_ReleaseResources :: "'i \<Rightarrow> ierr option \<times> 'i"

record ('m, 'd, 'l, 'i, 'e, 'x, 'f) TraceManager =
  tm_pm :: "('m, 'd, 'l, 'i, 'e, 'x) pm"
  tm_frameCache :: 'f
  tm_frameCacheHit :: u64
  tm_frameCacheMiss :: u64
  tm_filterErrorFrames :: bool

section \<open>Interpreters\<close>

text \<open>\<open>MultiInstance.Symbolize\<close>: the first that does not refuse the type of the frame.\<close>

fun symbolize_first ::
  "'i symops \<Rightarrow> EbpfFrame \<Rightarrow> FrameMappingData option \<Rightarrow> 'i list \<Rightarrow> Frame list \<Rightarrow> (ierr option \<times> Frame list) \<times> 'i list" where
  "symbolize_first so ef mapping [] frames = ((Some ErrMismatchInterpreterType, frames), [])"
| "symbolize_first so ef mapping (i # is) frames =
     (let ((err, frames), i) = so_Symbolize so i ef mapping frames
      in if err \<noteq> Some ErrMismatchInterpreterType then ((err, frames), i # is)
         else let (r, is) = symbolize_first so ef mapping is frames in (r, i # is))"

definition Instance_Symbolize ::
  "'i symops \<Rightarrow> EbpfFrame \<Rightarrow> FrameMappingData option \<Rightarrow> 'i Instance \<Rightarrow> Frame list \<Rightarrow> (ierr option \<times> Frame list) \<times> 'i Instance" where
  "Instance_Symbolize so ef mapping x frames =
     (case x of
        InstOne i \<Rightarrow> let (r, i) = so_Symbolize so i ef mapping frames in (r, InstOne i)
      | MultiInstance is \<Rightarrow> let (r, is) = symbolize_first so ef mapping is frames in (r, MultiInstance is))"

definition Instance_ReleaseResources :: "'i symops \<Rightarrow> 'i Instance \<Rightarrow> 'i Instance" where
  "Instance_ReleaseResources so x =
     (case x of
        InstOne i \<Rightarrow> InstOne (snd (so_ReleaseResources so i))
      | MultiInstance is \<Rightarrow> MultiInstance (map (\<lambda>i. snd (so_ReleaseResources so i)) is))"

datatype symerr = ErrPIDGone | ErrSymbolizationNotSupported | SymErr ierr

fun symbolize_loop ::
  "'i symops \<Rightarrow> EbpfFrame \<Rightarrow> FrameMappingData option \<Rightarrow> (OnDiskFileIdentifier \<times> 'i Instance) list \<Rightarrow> Frame list \<Rightarrow>
     (symerr option \<times> Frame list) \<times> (OnDiskFileIdentifier \<times> 'i Instance) list" where
  "symbolize_loop so ef mapping [] frames = ((Some ErrSymbolizationNotSupported, frames), [])"
| "symbolize_loop so ef mapping ((key, x) # is) frames =
     (let ((err, frames), x) = Instance_Symbolize so ef mapping x frames
      in if err = Some ErrMismatchInterpreterType
         then let (r, is) = symbolize_loop so ef mapping is frames in (r, (key, x) # is)
         else ((map_option SymErr err, frames), (key, x) # is))"

definition with_pm_interpreters ::
  "PID \<Rightarrow> (OnDiskFileIdentifier \<times> 'i Instance) list \<Rightarrow> ('m, 'd, 'l, 'i, 'e, 'x, 'f) TraceManager \<Rightarrow> ('m, 'd, 'l, 'i, 'e, 'x, 'f) TraceManager" where
  "with_pm_interpreters pid is tm =
     tm\<lparr>tm_pm := (tm_pm tm)\<lparr>pm_interpreters := (pm_interpreters (tm_pm tm))(pid \<mapsto> is)\<rparr>\<rparr>"

definition symbolizeFrame ::
  "'i symops \<Rightarrow> PID \<Rightarrow> EbpfFrame \<Rightarrow> FrameMappingData option \<Rightarrow> Frame list \<Rightarrow> ('m, 'd, 'l, 'i, 'e, 'x, 'f) TraceManager \<Rightarrow>
     (symerr option \<times> Frame list) \<times> ('m, 'd, 'l, 'i, 'e, 'x, 'f) TraceManager" where
  "symbolizeFrame so pid ef mapping frames tm =
     (let is = interpreters_of (tm_pm tm) pid
      in if is = [] then ((Some ErrPIDGone, frames), tm)
         else let (r, is) = symbolize_loop so ef mapping is frames in (r, with_pm_interpreters pid is tm))"

section \<open>Kernel frames\<close>

definition symbolizeBPFFrame :: "string \<Rightarrow> u64 \<Rightarrow> Frame" where
  "symbolizeBPFFrame name offset =
     Frame_zero\<lparr>fr_Type := FrameMarkerKernel, fr_AddressOrLineno := offset, fr_FunctionName := name\<rparr>"

text \<open>The frame and whether it may be cached; the name lookup panics on a module with a broken name table.\<close>

definition symbolizeKernelFrame :: "heap \<Rightarrow> u64 \<Rightarrow> AddressResolution \<Rightarrow> (Frame \<times> bool) option" where
  "symbolizeKernelFrame h address resolution =
     (let frame = Frame_zero\<lparr>fr_Type := FrameMarkerKernel, fr_AddressOrLineno := address - 1\<rparr>
      in case resolution of
           ResolvedBPF _ name offset \<Rightarrow> Some (symbolizeBPFFrame name offset, True)
         | Unresolved \<Rightarrow> Some (frame, False)
         | ResolvedModule _ kmod \<Rightarrow>
             let frame = frame\<lparr>fr_Mapping := mo_mapping kmod, fr_AddressOrLineno := address - 1 - mo_start kmod\<rparr>
             in map_option (\<lambda>r. (case r of Inr (funcName, _) \<Rightarrow> frame\<lparr>fr_FunctionName := funcName\<rparr> | Inl _ \<Rightarrow> frame, mo_mapping kmod \<noteq> None))
                  (LookupSymbolByAddress h kmod address))"

definition resolution_generation :: "AddressResolution \<Rightarrow> Generation option" where
  "resolution_generation r = (case r of Unresolved \<Rightarrow> None | ResolvedBPF g _ _ \<Rightarrow> Some g | ResolvedModule g _ \<Rightarrow> Some g)"

record kernelFrames =
  kf_Frames :: "Frame list"
  kf_Hit :: u64
  kf_Miss :: u64

fun appendKernelFrames ::
  "'f frameLRU \<Rightarrow> Snapshot \<Rightarrow> u64 list \<Rightarrow> kernelFrames \<Rightarrow> 'f \<Rightarrow> (kernelFrames \<times> 'f) option" where
  "appendKernelFrames fl snapshot [] k c = Some (k, c)"
| "appendKernelFrames fl snapshot (address # addrs) k c =
     (case fl_Get fl (kernelFrameCacheKey address (KernelGeneration snapshot)) c of
        (Some cached, c) \<Rightarrow>
          appendKernelFrames fl snapshot addrs (k\<lparr>kf_Frames := kf_Frames k @ cached, kf_Hit := kf_Hit k + 1\<rparr>) c
      | (None, c) \<Rightarrow>
          (case fl_Get fl (kernelFrameCacheKey address (BPFGeneration snapshot)) c of
             (Some cached, c) \<Rightarrow>
               appendKernelFrames fl snapshot addrs (k\<lparr>kf_Frames := kf_Frames k @ cached, kf_Hit := kf_Hit k + 1\<rparr>) c
           | (None, c) \<Rightarrow>
               let resolution = ResolveAddress snapshot address
               in (case symbolizeKernelFrame (sn_heap snapshot) address resolution of
                     None \<Rightarrow> None
                   | Some (frame, cacheable) \<Rightarrow>
                       (case resolution_generation resolution of
                          Some g \<Rightarrow>
                            if cacheable
                            then appendKernelFrames fl snapshot addrs
                                   (k\<lparr>kf_Frames := kf_Frames k @ [frame], kf_Miss := kf_Miss k + 1\<rparr>)
                                   (fl_Add fl (kernelFrameCacheKey address g) [frame] c)
                            else appendKernelFrames fl snapshot addrs (k\<lparr>kf_Frames := kf_Frames k @ [frame]\<rparr>) c
                        | None \<Rightarrow> appendKernelFrames fl snapshot addrs (k\<lparr>kf_Frames := kf_Frames k @ [frame]\<rparr>) c))))"

section \<open>User frames\<close>

text \<open>\<open>convertFrame\<close>: whether the result may be cached, the frames, and the state.\<close>

definition convertFrame ::
  "'i symops \<Rightarrow> PID \<Rightarrow> EbpfFrame \<Rightarrow> Frame list \<Rightarrow> ('m, 'd, 'l, 'i, 'e, 'x, 'f) TraceManager \<Rightarrow>
     ((bool \<times> Frame list) \<times> ('m, 'd, 'l, 'i, 'e, 'x, 'f) TraceManager) option" where
  "convertFrame so pid ef dst tm =
     (let ty = ft_Interpreter (ef_Type ef)
      in if ty = Interp (ucast FrameMarkerUnknown) \<or> ty = Interp (ucast FrameMarkerKernel) then Some ((False, dst), tm)
         else if ty = Interp (ucast FrameMarkerNative)
         then
           if length ef < 2 then None
           else
             let fileID = ef ! 1;
                 address = ef_Data ef;
                 mapping = findMappingForTrace (tm_pm tm) pid fileID address;
                 ((err, dst'), tm) = symbolizeFrame so pid ef mapping dst tm
             in if err = None then Some ((True, dst'), tm)
                else
                  let address = (if ff_ReturnAddress (ef_Flags ef) then address - 1 else address)
                  in Some ((mapping \<noteq> None,
                            dst' @ [Frame_zero\<lparr>fr_Type := ef_Type ef, fr_AddressOrLineno := address, fr_Mapping := mapping\<rparr>]), tm)
         else
           let ((err, dst'), tm) = symbolizeFrame so pid ef None dst tm
           in if err = None then Some ((True, dst'), tm)
              else Some ((False, dst' @ [Frame_zero\<lparr>fr_Type := ef_Type ef\<rparr>]), tm))"

record traceVars =
  tv_Frames :: "Frame list"
  tv_Hit :: u64
  tv_Miss :: u64

definition user_frame ::
  "'i symops \<Rightarrow> 'f frameLRU \<Rightarrow> PID \<Rightarrow> EbpfFrame \<Rightarrow> traceVars \<Rightarrow> ('m, 'd, 'l, 'i, 'e, 'x, 'f) TraceManager \<Rightarrow>
     (traceVars \<times> ('m, 'd, 'l, 'i, 'e, 'x, 'f) TraceManager) option" where
  "user_frame so fl pid frame v tm =
     (if ff_Error (ef_Flags frame)
      then Some (if tm_filterErrorFrames tm then v
                 else v\<lparr>tv_Frames := tv_Frames v @
                        [Frame_zero\<lparr>fr_Type := ft_Error (ef_Type frame), fr_AddressOrLineno := ef_Data frame\<rparr>]\<rparr>, tm)
      else
        let key = frame_key pid frame;
            (cached, cache) = fl_Get fl key (tm_frameCache tm);
            tm = tm\<lparr>tm_frameCache := cache\<rparr>
        in (case cached of
              Some fs \<Rightarrow> Some (v\<lparr>tv_Frames := tv_Frames v @ fs, tv_Hit := tv_Hit v + 1\<rparr>, tm)
            | None \<Rightarrow>
                (case convertFrame so pid frame (tv_Frames v) tm of
                   None \<Rightarrow> None
                 | Some ((cacheable, frames), tm) \<Rightarrow>
                     Some (if cacheable
                           then (v\<lparr>tv_Frames := frames, tv_Miss := tv_Miss v + 1\<rparr>,
                                 tm\<lparr>tm_frameCache := fl_Add fl key (drop (length (tv_Frames v)) frames) (tm_frameCache tm)\<rparr>)
                           else (v\<lparr>tv_Frames := frames\<rparr>, tm)))))"

text \<open>
  The loop over the frames of the process. A frame of length zero has no header and panics, as does
  one that reaches beyond the data.
\<close>

function user_frames ::
  "'i symops \<Rightarrow> 'f frameLRU \<Rightarrow> PID \<Rightarrow> u64 list \<Rightarrow> traceVars \<Rightarrow> ('m, 'd, 'l, 'i, 'e, 'x, 'f) TraceManager \<Rightarrow>
     (traceVars \<times> ('m, 'd, 'l, 'i, 'e, 'x, 'f) TraceManager) option" where
  "user_frames so fl pid frames v tm =
     (if frames = [] then Some (v, tm)
      else
        let l = unat (ef_Length frames)
        in if l = 0 \<or> length frames < l then None
           else
             (case user_frame so fl pid (take l frames) v tm of
                None \<Rightarrow> None
              | Some (v, tm) \<Rightarrow> user_frames so fl pid (drop l frames) v tm))"
  by pat_completeness auto
termination
  by (relation "measure (\<lambda>(_, _, _, frames, _, _). length frames)") auto

declare user_frames.simps [simp del]

section \<open>Traces\<close>

record EbpfTrace =
  et_CustomLabels :: "(string \<times> string) list"
  et_Comm :: "byte list"
  et_FrameData :: "u64 list"
  et_Value :: int64
  et_KTime :: int64
  et_CpuID :: u32
  et_TID :: PID
  et_PID :: PID
  et_NumFrames :: u16
  et_NumKernelFrames :: u16
  et_Origin :: u16
  et_APMTraceID :: "byte list"
  et_APMTransactionID :: "byte list"

record Trace =
  tr_CustomLabels :: "(string \<times> string) list"
  tr_Frames :: "Frame list"

record 'p TraceEventMeta =
  te_Timestamp :: u64
  te_Comm :: "byte list"
  te_PID :: PID
  te_TID :: PID
  te_APMServiceName :: string
  te_CPU :: u32
  te_ExecutablePath :: string
  te_ContainerID :: string
  te_ProfileType :: 'p
  te_Value :: int64
  te_EnvVars :: "(string \<times> string) list"
  te_TraceID :: "byte list"
  te_SpanID :: "byte list"

definition trace_meta :: "'x ProcessMeta \<Rightarrow> int64 \<Rightarrow> 'p \<Rightarrow> EbpfTrace \<Rightarrow> 'p TraceEventMeta" where
  "trace_meta procMeta bootTimeUnixNano profileType t =
     \<lparr>te_Timestamp = et_KTime t + bootTimeUnixNano, te_Comm = et_Comm t, te_PID = et_PID t, te_TID = et_TID t,
      te_APMServiceName = [], te_CPU = et_CpuID t, te_ExecutablePath = me_Executable procMeta,
      te_ContainerID = me_ContainerID procMeta, te_ProfileType = profileType, te_Value = et_Value t,
      te_EnvVars = me_EnvVariables procMeta, te_TraceID = et_APMTraceID t, te_SpanID = et_APMTransactionID t\<rparr>"

definition ProcessMeta_zero :: "'x ProcessMeta" where
  "ProcessMeta_zero = \<lparr>me_Executable = [], me_EnvVariables = [], me_ContainerID = [], me_ProcessContextInfo = ctxInfo_zero\<rparr>"

text \<open>The interpreters of the process release what they used for the trace.\<close>

definition release_resources ::
  "'i symops \<Rightarrow> PID \<Rightarrow> ('m, 'd, 'l, 'i, 'e, 'x, 'f) TraceManager \<Rightarrow> ('m, 'd, 'l, 'i, 'e, 'x, 'f) TraceManager" where
  "release_resources so pid tm =
     (case pm_interpreters (tm_pm tm) pid of
        None \<Rightarrow> tm
      | Some is \<Rightarrow> with_pm_interpreters pid (map (\<lambda>(key, x). (key, Instance_ReleaseResources so x)) is) tm)"

definition HandleTrace ::
  "'i symops \<Rightarrow> 'f frameLRU \<Rightarrow> int64 \<Rightarrow> Snapshot \<Rightarrow> EbpfTrace \<Rightarrow> 'p \<Rightarrow> ('m, 'd, 'l, 'i, 'e, 'x, 'f) TraceManager \<Rightarrow>
     ((Trace \<times> 'p TraceEventMeta) \<times> ('m, 'd, 'l, 'i, 'e, 'x, 'f) TraceManager) option" where
  "HandleTrace so fl bootTimeUnixNano snapshot t profileType tm =
     (let meta = trace_meta (metaForPID ProcessMeta_zero (tm_pm tm) (et_PID t)) bootTimeUnixNano profileType t;
          numKernelFrames = min (unat (et_NumKernelFrames t)) (length (et_FrameData t))
      in (case (if numKernelFrames > 0
                then appendKernelFrames fl snapshot (take numKernelFrames (et_FrameData t))
                       \<lparr>kf_Frames = [], kf_Hit = 0, kf_Miss = 0\<rparr> (tm_frameCache tm)
                else Some (\<lparr>kf_Frames = [], kf_Hit = 0, kf_Miss = 0\<rparr>, tm_frameCache tm)) of
            None \<Rightarrow> None
          | Some (k, c) \<Rightarrow>
              (case user_frames so fl (et_PID t) (drop numKernelFrames (et_FrameData t))
                      \<lparr>tv_Frames = kf_Frames k, tv_Hit = kf_Hit k, tv_Miss = kf_Miss k\<rparr> (tm\<lparr>tm_frameCache := c\<rparr>) of
                 None \<Rightarrow> None
               | Some (v, tm) \<Rightarrow>
                   Some ((\<lparr>tr_CustomLabels = et_CustomLabels t, tr_Frames = tv_Frames v\<rparr>, meta),
                         release_resources so (et_PID t)
                           (tm\<lparr>tm_frameCacheMiss := tm_frameCacheMiss tm + tv_Miss v,
                               tm_frameCacheHit := tm_frameCacheHit tm + tv_Hit v\<rparr>)))))"

section \<open>Metrics\<close>

type_synonym Summary = "u16 \<rightharpoonup> int64"

text \<open>\<open>updateMetricSummary\<close>: the metrics of an interpreter are added to the sums.\<close>

fun add_metrics :: "(u16 \<times> int64) list \<Rightarrow> Summary \<Rightarrow> Summary" where
  "add_metrics [] summary = summary"
| "add_metrics ((mid, value) # ms) summary =
     add_metrics ms (summary(mid \<mapsto> (case summary mid of None \<Rightarrow> 0 | Some v \<Rightarrow> v) + value))"

end
