(* ===== verification/TraceProps.thy ===== *)
theory TraceProps
  imports TraceConvert ProcessRefs
begin

text \<open>
  Properties of the conversion of traces (definitions in \<open>TraceConvert\<close>): the header of a frame round
  trips, the words of a trace are taken apart into frames without rest, and the frame cache does
  not change the kernel frames that are reported, although symbol tables come and go.
\<close>

unbundle bit_operations_syntax

section \<open>Headers\<close>

lemma small_bits:
  fixes x :: "'a::len word"
  assumes "unat x < 2 ^ k" "k \<le> n"
  shows "\<not> bit x n"
proof -
  have "unat x < 2 ^ n" using assms by (meson order_less_le_trans one_le_numeral power_increasing)
  then have "\<not> bit (unat x) n" by (simp add: bit_iff_odd)
  then show ?thesis by (auto simp: bit_unsigned_iff dest: bit_imp_le_length)
qed

lemma header_bits:
  assumes "unat ty < 16" "unat ff < 16" "unat l < 16" "unat data < 2 ^ 52"
  shows "bit (NewEbpfFrameHeader ty ff l data) n \<longleftrightarrow> n < 64 \<and>
    (if n \<ge> 60 then bit ty (n - 60) else if n \<ge> 56 then bit ff (n - 56) else if n \<ge> 52 then bit l (n - 52) else bit data n)"
proof -
  have s: "4 \<le> n \<Longrightarrow> \<not> bit ty n" "4 \<le> n \<Longrightarrow> \<not> bit ff n" "4 \<le> n \<Longrightarrow> \<not> bit l n" "52 \<le> n \<Longrightarrow> \<not> bit data n" for n
    using small_bits [of ty 4 n] small_bits [of ff 4 n] small_bits [of l 4 n] small_bits [of data 52 n] assms by simp_all
  then show ?thesis
    by (auto simp: NewEbpfFrameHeader_def bit_or_iff bit_push_bit_iff bit_ucast_iff dest: bit_imp_le_length)
qed

text \<open>
  The header of a frame round trips: type, flags, length and data are read back as they were written,
  if each fits into its field (4, 4, 4 and 52 bits).
\<close>

theorem frame_header_roundtrip:
  assumes "unat ty < 16" "unat ff < 16" "unat l < 16" "unat data < 2 ^ 52"
  shows "let f = NewEbpfFrameHeader ty ff l data # rest
    in ef_Type f = ty \<and> ef_Flags f = ff \<and> ef_Length f = l \<and> ef_Data f = data"
proof -
  have m: "(0xf :: u64) = mask 4" "(0xf :: u8) = mask 4" "(0xfffffffffffff :: u64) = mask 52" by (simp_all add: mask_eq_exp_minus_1)
  have s: "4 \<le> n \<Longrightarrow> \<not> bit ty n" "4 \<le> n \<Longrightarrow> \<not> bit ff n" "4 \<le> n \<Longrightarrow> \<not> bit l n" "52 \<le> n \<Longrightarrow> \<not> bit data n" for n
    using small_bits [of ty 4 n] small_bits [of ff 4 n] small_bits [of l 4 n] small_bits [of data 52 n] assms by simp_all
  have s': "bit ty n \<Longrightarrow> n < 4" "bit ff n \<Longrightarrow> n < 4" "bit l n \<Longrightarrow> n < 4" "bit data n \<Longrightarrow> n < 52" for n
    using s [of n] by (meson not_less)+
  show ?thesis
    unfolding Let_def ef_Type_def ef_Flags_def ef_Length_def ef_Data_def m
    by (intro conjI bit_eqI)
      (auto simp: bit_ucast_iff bit_and_iff bit_mask_iff bit_drop_bit_eq header_bits [OF assms] not_less dest: s' bit_imp_le_length)
qed

theorem frame_header_roundtrip_witness:
  "let f = NewEbpfFrameHeader FrameMarkerNative 2 2 0x222a0 # [7] in ef_Type f = FrameMarkerNative \<and> ef_Data f = 0x222a0"
  using frame_header_roundtrip [of FrameMarkerNative 2 2 "0x222a0" "[7]"] by (simp add: Let_def)

section \<open>Taking traces apart\<close>

text \<open>The frames of a sequence of words, as their headers say; nothing if the headers do not fit the words.\<close>

function frames_split :: "u64 list \<Rightarrow> EbpfFrame list option" where
  "frames_split ws =
     (if ws = [] then Some []
      else let l = unat (ef_Length ws)
           in if l = 0 \<or> length ws < l then None else map_option (\<lambda>fs. take l ws # fs) (frames_split (drop l ws)))"
  by pat_completeness auto
termination
  by (relation "measure length") auto

declare frames_split.simps [simp del]

lemma frames_split_concat: "frames_split ws = Some fs \<Longrightarrow> concat fs = ws \<and> (\<forall>f \<in> set fs. f \<noteq> [] \<and> length f < 16 \<and> unat (ef_Length f) = length f)"
proof (induction ws arbitrary: fs rule: frames_split.induct)
  case (1 ws)
  show ?case
  proof (cases "ws = []")
    case True
    then show ?thesis using 1(2) by (simp add: frames_split.simps)
  next
    case False
    let ?l = "unat (ef_Length ws)"
    have ok: "?l \<noteq> 0" "?l \<le> length ws" using 1(2) False by (auto simp: frames_split.simps [of ws] Let_def split: if_splits)
    then obtain gs where g: "frames_split (drop ?l ws) = Some gs" "fs = take ?l ws # gs"
      using 1(2) False by (auto simp: frames_split.simps [of ws] Let_def)
    have "unat (x AND 0xf) < 16" for x :: u8
      using word_and_le1 [of x "0xf"] by (simp add: word_le_nat_alt)
    then have "?l < 16" by (simp add: ef_Length_def)
    moreover have "ef_Length (take ?l ws) = ef_Length ws" using ok by (simp add: ef_Length_def)
    moreover have "concat gs = drop ?l ws \<and> (\<forall>f \<in> set gs. f \<noteq> [] \<and> length f < 16 \<and> unat (ef_Length f) = length f)"
      using 1(1) [OF False refl _ g(1)] ok by simp
    moreover have "take ?l ws \<noteq> []" "length (take ?l ws) = ?l" using ok False by auto
    ultimately show ?thesis unfolding g(2) by simp
  qed
qed

fun each_frame ::
  "'i symops \<Rightarrow> 'f frameLRU \<Rightarrow> PID \<Rightarrow> EbpfFrame list \<Rightarrow> traceVars \<Rightarrow> ('m, 'd, 'l, 'i, 'e, 'x, 'f) TraceManager \<Rightarrow>
     (traceVars \<times> ('m, 'd, 'l, 'i, 'e, 'x, 'f) TraceManager) option" where
  "each_frame so fl pid [] v tm = Some (v, tm)"
| "each_frame so fl pid (f # fs) v tm =
     (case user_frame so fl pid f v tm of None \<Rightarrow> None | Some (v, tm) \<Rightarrow> each_frame so fl pid fs v tm)"

lemma user_frames_each:
  "user_frames so fl pid ws v tm = (case frames_split ws of None \<Rightarrow> None | Some fs \<Rightarrow> each_frame so fl pid fs v tm)"
proof (induction ws arbitrary: v tm rule: frames_split.induct)
  case (1 ws)
  let ?l = "unat (ef_Length ws)"
  show ?case
  proof (cases "ws = [] \<or> ?l = 0 \<or> length ws < ?l")
    case True
    then show ?thesis by (auto simp: user_frames.simps [of so fl pid ws] frames_split.simps [of ws] Let_def)
  next
    case False
    then have p: "ws \<noteq> []" "\<not> (?l = 0 \<or> length ws < ?l)" by simp_all
    show ?thesis using 1 [OF p(1) refl p(2)] p
      by (auto simp: user_frames.simps [of so fl pid ws] frames_split.simps [of ws] Let_def split: option.split)
  qed
qed

text \<open>A frame that can be converted: a native one has its file as the second word.\<close>

definition frame_readable :: "EbpfFrame \<Rightarrow> bool" where
  "frame_readable f \<longleftrightarrow>
     (ft_Interpreter (ef_Type f) = Interp (ucast FrameMarkerNative) \<and> \<not> ff_Error (ef_Flags f) \<longrightarrow> length f \<ge> 2)"

lemma convertFrame_total:
  assumes "ft_Interpreter (ef_Type f) = Interp (ucast FrameMarkerNative) \<Longrightarrow> length f \<ge> 2"
  shows "convertFrame so pid f fs tm \<noteq> None"
  using assms by (auto simp: convertFrame_def Let_def split_beta)

lemma user_frame_total:
  assumes "frame_readable f"
  shows "user_frame so fl pid f v tm \<noteq> None"
proof (cases "ff_Error (ef_Flags f)")
  case False
  obtain r c where g: "fl_Get fl (frame_key pid f) (tm_frameCache tm) = (r, c)" by fastforce
  have "convertFrame so pid f (tv_Frames v) (tm\<lparr>tm_frameCache := c\<rparr>) \<noteq> None"
    by (rule convertFrame_total) (use assms False in \<open>simp add: frame_readable_def\<close>)
  then show ?thesis using False g by (auto simp: user_frame_def Let_def split: option.split)
qed (simp add: user_frame_def)

lemma each_frame_total:
  "\<forall>f \<in> set fs. frame_readable f \<Longrightarrow> each_frame so fl pid fs v tm \<noteq> None"
proof (induction fs arbitrary: v tm)
  case (Cons f fs)
  then show ?case using user_frame_total [of f so fl pid v tm] by (auto split: option.splits)
qed simp


definition sample_fl :: "(frameCacheKey \<rightharpoonup> Frame list) frameLRU" where
  "sample_fl = \<lparr>fl_Get = (\<lambda>k c. (c k, c)), fl_Add = (\<lambda>k fs c. c(k \<mapsto> fs))\<rparr>"

definition sample_symops :: "unit symops" where
  "sample_symops = \<lparr>so_Symbolize = (\<lambda>i ef m fs. ((Some ErrMismatchInterpreterType, fs), i)), so_ReleaseResources = (\<lambda>i. (None, i))\<rparr>"

definition sample_tm :: "(sample_kmap, unit, unit, unit, unit, unit, frameCacheKey \<rightharpoonup> Frame list) TraceManager" where
  "sample_tm = \<lparr>tm_pm = sample_pm, tm_frameCache = Map.empty, tm_frameCacheHit = 0, tm_frameCacheMiss = 0, tm_filterErrorFrames = False\<rparr>"

definition sample_trace :: "u64 list \<Rightarrow> EbpfTrace" where
  "sample_trace ws = \<lparr>et_CustomLabels = [], et_Comm = [], et_FrameData = ws, et_Value = 1, et_KTime = 0, et_CpuID = 0, et_TID = 42,
     et_PID = 42, et_NumFrames = 1, et_NumKernelFrames = 0, et_Origin = 1, et_APMTraceID = [], et_APMTransactionID = []\<rparr>"

definition empty_snapshot :: Snapshot where
  "empty_snapshot = \<lparr>sn_bpf = None, sn_modules = None, sn_heap = []\<rparr>"


section \<open>The cache of kernel frames\<close>

text \<open>The kernel frame of an address as the symbol tables of a snapshot have it.\<close>

definition kernel_frame :: "Snapshot \<Rightarrow> u64 \<Rightarrow> Frame option" where
  "kernel_frame s a = map_option fst (symbolizeKernelFrame (sn_heap s) a (ResolveAddress s a))"

text \<open>
  The snapshots of a run: the generation of a table determines its contents, generations of modules and programs
  are different, and programs are never inside a module.
\<close>

definition history_ok :: "Snapshot set \<Rightarrow> bool" where
  "history_ok H \<longleftrightarrow> (\<forall>s \<in> H. \<forall>s' \<in> H.
     (KernelGeneration s = KernelGeneration s' \<longrightarrow>
        table_modules (sn_modules s) = table_modules (sn_modules s') \<and> sn_heap s = sn_heap s') \<and>
     (BPFGeneration s = BPFGeneration s' \<longrightarrow> bpf_LookupSymbol (sn_bpf s) = bpf_LookupSymbol (sn_bpf s')) \<and>
     KernelGeneration s \<noteq> BPFGeneration s' \<and>
     (\<forall>a. bpf_LookupSymbol (sn_bpf s) a \<noteq> None \<longrightarrow> getModuleByAddress (table_modules (sn_modules s')) a = None))"

text \<open>What an LRU cache promises, with the entries that it may hold: it returns what was stored.\<close>

definition frame_lru_ok :: "'f frameLRU \<Rightarrow> ('f \<Rightarrow> frameCacheKey \<Rightarrow> Frame list \<Rightarrow> bool) \<Rightarrow> bool" where
  "frame_lru_ok fl holds \<longleftrightarrow>
     (\<forall>k c r c'. fl_Get fl k c = (r, c') \<longrightarrow>
        (\<forall>fs. r = Some fs \<longrightarrow> holds c k fs) \<and> (\<forall>k' fs. holds c' k' fs \<longrightarrow> holds c k' fs)) \<and>
     (\<forall>k fs c k' fs'. holds (fl_Add fl k fs c) k' fs' \<longrightarrow> k' = k \<and> fs' = fs \<or> holds c k' fs')"

definition kernel_cache_inv :: "Snapshot set \<Rightarrow> ('f \<Rightarrow> frameCacheKey \<Rightarrow> Frame list \<Rightarrow> bool) \<Rightarrow> 'f \<Rightarrow> bool" where
  "kernel_cache_inv H holds c \<longleftrightarrow>
     (\<forall>a g fs. holds c (kernelFrameCacheKey a g) fs \<longrightarrow>
        (\<exists>s \<in> H. \<exists>f. resolution_generation (ResolveAddress s a) = Some g \<and> kernel_frame s a = Some f \<and> fs = [f]))"

lemma kernelFrameCacheKey_inj [simp]: "kernelFrameCacheKey a g = kernelFrameCacheKey a' g' \<longleftrightarrow> a = a' \<and> g = g'"
  by (simp add: kernelFrameCacheKey_def)

lemma same_generation_same_frame:
  assumes H: "history_ok H" "s \<in> H" "s' \<in> H"
    and g: "resolution_generation (ResolveAddress s' a) = Some g" "g = KernelGeneration s \<or> g = BPFGeneration s"
  shows "kernel_frame s a = kernel_frame s' a"
proof -
  have h: "KernelGeneration s' \<noteq> BPFGeneration s" "BPFGeneration s' \<noteq> KernelGeneration s"
    using H unfolding history_ok_def by (meson, metis)
  consider (bpf) n o' where "bpf_LookupSymbol (sn_bpf s') a = Some (n, o')" "g = BPFGeneration s'"
    | (mod) m where "bpf_LookupSymbol (sn_bpf s') a = None" "getModuleByAddress (table_modules (sn_modules s')) a = Some m" "g = KernelGeneration s'"
    using g(1) by (auto simp: ResolveAddress_def resolution_generation_def split: option.splits)
  then show ?thesis
  proof cases
    case bpf
    then have "BPFGeneration s = BPFGeneration s'" using g(2) h by auto
    then have "bpf_LookupSymbol (sn_bpf s) = bpf_LookupSymbol (sn_bpf s')" using H unfolding history_ok_def by metis
    then show ?thesis using bpf by (simp add: kernel_frame_def ResolveAddress_def symbolizeKernelFrame_def)
  next
    case mod
    then have eq: "KernelGeneration s = KernelGeneration s'" using g(2) h by auto
    then have "table_modules (sn_modules s) = table_modules (sn_modules s') \<and> sn_heap s = sn_heap s'"
      using H unfolding history_ok_def by metis
    moreover have "bpf_LookupSymbol (sn_bpf s) a = None"
      using H mod(2) unfolding history_ok_def by (metis option.distinct(1))
    ultimately show ?thesis using mod eq by (simp add: kernel_frame_def ResolveAddress_def)
  qed
qed

lemma cache_hit:
  assumes H: "history_ok H" "s \<in> H" and inv: "kernel_cache_inv H holds c"
    and h: "holds c (kernelFrameCacheKey a g) fs" "g = KernelGeneration s \<or> g = BPFGeneration s"
  shows "\<exists>f. kernel_frame s a = Some f \<and> fs = [f]"
proof -
  obtain s' f where s': "s' \<in> H" "resolution_generation (ResolveAddress s' a) = Some g" "kernel_frame s' a = Some f" "fs = [f]"
    using inv h(1) unfolding kernel_cache_inv_def by blast
  from same_generation_same_frame [OF H s'(1,2) h(2)] s' show ?thesis by simp
qed

lemma cache_inv_mono: "kernel_cache_inv H holds c \<Longrightarrow> (\<And>k fs. holds c' k fs \<Longrightarrow> holds c k fs) \<Longrightarrow> kernel_cache_inv H holds c'"
  unfolding kernel_cache_inv_def by blast

lemma appendKernelFrames_law:
  assumes H: "history_ok H" "s \<in> H" and fl: "frame_lru_ok fl holds"
    and a: "appendKernelFrames fl s addrs k c = Some (k', c')" and inv: "kernel_cache_inv H holds c"
  shows "map Some (kf_Frames k') = map Some (kf_Frames k) @ map (kernel_frame s) addrs \<and> kernel_cache_inv H holds c'"
  using a inv
proof (induction addrs arbitrary: k c)
  case Nil
  then show ?case by simp
next
  case (Cons a addrs)
  obtain r1 c1 where g1: "fl_Get fl (kernelFrameCacheKey a (KernelGeneration s)) c = (r1, c1)" by fastforce
  have h1: "\<And>k fs. holds c1 k fs \<Longrightarrow> holds c k fs" and v1: "r1 = Some fs \<Longrightarrow> holds c (kernelFrameCacheKey a (KernelGeneration s)) fs" for fs
    using fl g1 unfolding frame_lru_ok_def by blast+
  have i1: "kernel_cache_inv H holds c1" using cache_inv_mono [OF Cons.prems(2)] h1 by blast
  show ?case
  proof (cases r1)
    case (Some fs)
    then obtain f where f: "kernel_frame s a = Some f" "fs = [f]" using cache_hit [OF H Cons.prems(2) v1] by blast
    then show ?thesis using Cons.IH [OF _ i1] Cons.prems(1) g1 Some by fastforce
  next
    case None
    obtain r2 c2 where g2: "fl_Get fl (kernelFrameCacheKey a (BPFGeneration s)) c1 = (r2, c2)" by fastforce
    have h2: "\<And>k fs. holds c2 k fs \<Longrightarrow> holds c1 k fs" and v2: "r2 = Some fs \<Longrightarrow> holds c1 (kernelFrameCacheKey a (BPFGeneration s)) fs" for fs
      using fl g2 unfolding frame_lru_ok_def by blast+
    have i2: "kernel_cache_inv H holds c2" using cache_inv_mono [OF i1] h2 by blast
    show ?thesis
    proof (cases r2)
      case (Some fs)
      then obtain f where f: "kernel_frame s a = Some f" "fs = [f]" using cache_hit [OF H i1 v2] by blast
      then show ?thesis using Cons.IH [OF _ i2] Cons.prems(1) g1 g2 None Some by fastforce
    next
      case N2: None
      obtain f cacheable where f: "symbolizeKernelFrame (sn_heap s) a (ResolveAddress s a) = Some (f, cacheable)"
        using Cons.prems(1) g1 g2 None N2 by (auto simp: Let_def split: option.splits)
      then have kf: "kernel_frame s a = Some f" by (simp add: kernel_frame_def)
      let ?g = "resolution_generation (ResolveAddress s a)"
      have "kernel_cache_inv H holds (fl_Add fl (kernelFrameCacheKey a g) [f] c2)" if "?g = Some g" for g
        unfolding kernel_cache_inv_def
      proof (intro allI impI)
        fix a' g' fs' assume "holds (fl_Add fl (kernelFrameCacheKey a g) [f] c2) (kernelFrameCacheKey a' g') fs'"
        then have "a' = a \<and> g' = g \<and> fs' = [f] \<or> holds c2 (kernelFrameCacheKey a' g') fs'"
          using fl unfolding frame_lru_ok_def by (metis kernelFrameCacheKey_inj)
        then show "\<exists>s \<in> H. \<exists>f. resolution_generation (ResolveAddress s a') = Some g' \<and> kernel_frame s a' = Some f \<and> fs' = [f]"
          using i2 H(2) that kf unfolding kernel_cache_inv_def by blast
      qed
      then show ?thesis using Cons.IH [OF _ i2] Cons.IH Cons.prems(1) g1 g2 None N2 f kf
        by (auto simp: Let_def split: option.splits if_splits) 
    qed
  qed
qed

text \<open>Frames of a process never take the place of kernel frames in the cache.\<close>

lemma convertFrame_cache:
  assumes "convertFrame so pid f dst tm = Some ((cb, fs), tm')"
  shows "tm_frameCache tm' = tm_frameCache tm" "cb \<Longrightarrow> ft_Interpreter (ef_Type f) \<noteq> Interp (ucast FrameMarkerKernel)"
  using assms
  by (auto simp: convertFrame_def symbolizeFrame_def with_pm_interpreters_def Let_def split: if_splits prod.splits)

lemma kernel_key_type:
  assumes "frame_key pid f = kernelFrameCacheKey a g" "f \<noteq> []"
  shows "ft_Interpreter (ef_Type f) = Interp (ucast FrameMarkerKernel)"
proof -
  obtain w ws where f: "f = w # ws" using assms(2) by (cases f) auto
  have "w = NewEbpfFrameHeader FrameMarkerKernel 0 3 0"
    using assms(1) f by (cases ws; cases "tl ws") (auto simp: frame_key_def kernelFrameCacheKey_def numeral_3_eq_3)
  then show ?thesis
    using f by (simp add: ft_Interpreter_def ef_Type_def NewEbpfFrameHeader_def push_bit_eq_mult drop_bit_eq_div)
qed

lemma user_frame_cache:
  assumes fl: "frame_lru_ok fl holds" and u: "user_frame so fl pid f v tm = Some (v', tm')" "f \<noteq> []"
    and inv: "kernel_cache_inv H holds (tm_frameCache tm)"
  shows "kernel_cache_inv H holds (tm_frameCache tm')"
proof -
  obtain r c where g: "fl_Get fl (frame_key pid f) (tm_frameCache tm) = (r, c)" by fastforce
  have "\<And>k fs. holds c k fs \<Longrightarrow> holds (tm_frameCache tm) k fs" using fl g unfolding frame_lru_ok_def by blast
  then have ic: "kernel_cache_inv H holds c" using cache_inv_mono [OF inv] by blast
  have add: "kernel_cache_inv H holds (fl_Add fl (frame_key pid f) fs c)"
    if "ft_Interpreter (ef_Type f) \<noteq> Interp (ucast FrameMarkerKernel)" for fs
  proof -
    have "holds c (kernelFrameCacheKey a g') fs'" if "holds (fl_Add fl (frame_key pid f) fs c) (kernelFrameCacheKey a g') fs'" for a g' fs'
      using fl that kernel_key_type [of pid f a g'] u(2) \<open>ft_Interpreter (ef_Type f) \<noteq> _\<close> unfolding frame_lru_ok_def by metis
    then show ?thesis using ic unfolding kernel_cache_inv_def by blast
  qed
  from u(1) show ?thesis
    using g inv ic add convertFrame_cache [of so pid f "tv_Frames v" "tm\<lparr>tm_frameCache := c\<rparr>"]
    by (auto simp: user_frame_def Let_def split: if_splits option.splits)
qed

text \<open>An interpreter appends to the frames.\<close>

definition symops_ok :: "'i symops \<Rightarrow> bool" where
  "symops_ok so \<longleftrightarrow> (\<forall>i ef m fs err fs' i'. so_Symbolize so i ef m fs = ((err, fs'), i') \<longrightarrow> prefix fs fs')"

lemma symbolize_first_prefix:
  assumes "symops_ok so"
  shows "symbolize_first so ef m is fs = ((err, fs'), is') \<Longrightarrow> prefix fs fs'"
proof (induction "is" arbitrary: fs is')
  case (Cons i "is")
  obtain e1 fs1 i1 where s: "so_Symbolize so i ef m fs = ((e1, fs1), i1)" by (metis prod.exhaust)
  have p: "prefix fs fs1" using assms s unfolding symops_ok_def by blast
  show ?case
  proof (cases "e1 = Some ErrMismatchInterpreterType")
    case True
    obtain is2 where "symbolize_first so ef m is fs1 = ((err, fs'), is2)"
      using Cons.prems s True by (auto split: prod.splits)
    then show ?thesis using Cons.IH p prefix_order.trans by blast
  next
    case False
    then show ?thesis using Cons.prems s p by auto
  qed
qed simp

lemma Instance_Symbolize_prefix:
  assumes "symops_ok so" "Instance_Symbolize so ef m x fs = ((err, fs'), x')"
  shows "prefix fs fs'"
proof (cases x)
  case (InstOne i)
  then obtain i' where "so_Symbolize so i ef m fs = ((err, fs'), i')"
    using assms(2) by (auto simp: Instance_Symbolize_def split: prod.splits)
  then show ?thesis using assms(1) unfolding symops_ok_def by blast
next
  case (MultiInstance "is")
  then obtain is' where "symbolize_first so ef m is fs = ((err, fs'), is')"
    using assms(2) by (auto simp: Instance_Symbolize_def split: prod.splits)
  then show ?thesis using symbolize_first_prefix [OF assms(1)] by blast
qed

lemma symbolize_loop_prefix:
  assumes "symops_ok so"
  shows "symbolize_loop so ef m is fs = ((err, fs'), is') \<Longrightarrow> prefix fs fs'"
proof (induction "is" arbitrary: fs is')
  case (Cons e "is")
  obtain key x where e: "e = (key, x)" by fastforce
  obtain e1 fs1 x1 where s: "Instance_Symbolize so ef m x fs = ((e1, fs1), x1)" by (metis prod.exhaust)
  have p: "prefix fs fs1" using Instance_Symbolize_prefix [OF assms s] .
  show ?case
  proof (cases "e1 = Some ErrMismatchInterpreterType")
    case True
    obtain is2 where "symbolize_loop so ef m is fs1 = ((err, fs'), is2)"
      using Cons.prems s True e by (auto split: prod.splits)
    then show ?thesis using Cons.IH p prefix_order.trans by blast
  next
    case False
    then show ?thesis using Cons.prems s p e by auto
  qed
qed simp

lemma symbolizeFrame_prefix:
  assumes "symops_ok so" "symbolizeFrame so pid ef m fs tm = ((err, fs'), tm')"
  shows "prefix fs fs'"
  using assms symbolize_loop_prefix [OF assms(1)]
  by (auto simp: symbolizeFrame_def Let_def split: if_splits prod.splits)

lemma convertFrame_prefix:
  assumes "symops_ok so" "convertFrame so pid f fs tm = Some ((cb, fs'), tm')"
  shows "prefix fs fs'"
  using assms(2) symbolizeFrame_prefix [OF assms(1)]
  by (fastforce simp: convertFrame_def Let_def split: if_splits prod.splits)

lemma user_frame_prefix:
  assumes "symops_ok so" "user_frame so fl pid f v tm = Some (v', tm')"
  shows "prefix (tv_Frames v) (tv_Frames v')"
  using assms(2) convertFrame_prefix [OF assms(1)]
  by (auto simp: user_frame_def Let_def split: if_splits option.splits prod.splits)

lemma each_frame_law:
  assumes "symops_ok so" "frame_lru_ok fl holds"
  shows "each_frame so fl pid fs v tm = Some (v', tm') \<Longrightarrow> \<forall>f \<in> set fs. f \<noteq> [] \<Longrightarrow> kernel_cache_inv H holds (tm_frameCache tm) \<Longrightarrow>
    prefix (tv_Frames v) (tv_Frames v') \<and> kernel_cache_inv H holds (tm_frameCache tm')"
proof (induction fs arbitrary: v tm)
  case (Cons f fs)
  then obtain v1 tm1 where u: "user_frame so fl pid f v tm = Some (v1, tm1)" "each_frame so fl pid fs v1 tm1 = Some (v', tm')"
    by (auto split: option.splits)
  have "kernel_cache_inv H holds (tm_frameCache tm1)" using user_frame_cache [OF assms(2) u(1)] Cons.prems by simp
  then show ?case using Cons.IH [OF u(2)] user_frame_prefix [OF assms(1) u(1)] Cons.prems(2) prefix_order.trans by auto
qed simp

text \<open>
  C10: The frame cache does not show in the kernel frames of a trace: they are what the symbol tables of the
  snapshot give for the addresses, in their order, whatever was cached before under earlier tables,
  and the frames of the process do not disturb what is cached for the kernel.
\<close>

theorem kernel_frames_transparent:
  assumes "history_ok H" "s \<in> H" "frame_lru_ok fl holds" "symops_ok so" "kernel_cache_inv H holds (tm_frameCache tm)"
    and "HandleTrace so fl boot s t ptype tm = Some ((tr, meta), tm')"
    and "n = min (unat (et_NumKernelFrames t)) (length (et_FrameData t))"
  shows "map Some (take n (tr_Frames tr)) = map (kernel_frame s) (take n (et_FrameData t)) \<and>
    kernel_cache_inv H holds (tm_frameCache tm')"
proof -
  let ?k0 = "\<lparr>kf_Frames = [], kf_Hit = 0, kf_Miss = 0\<rparr>"
  obtain k c where k: "appendKernelFrames fl s (take n (et_FrameData t)) ?k0 (tm_frameCache tm) = Some (k, c)"
    using assms(6,7) by (cases "n = 0") (auto simp: HandleTrace_def Let_def split: option.splits if_splits)
  note kl = appendKernelFrames_law [OF assms(1-3) k assms(5)]
  obtain v tm1 where u: "user_frames so fl (et_PID t) (drop n (et_FrameData t))
      \<lparr>tv_Frames = kf_Frames k, tv_Hit = kf_Hit k, tv_Miss = kf_Miss k\<rparr> (tm\<lparr>tm_frameCache := c\<rparr>) = Some (v, tm1)"
    and tr: "tr_Frames tr = tv_Frames v" and c': "tm_frameCache tm' = tm_frameCache tm1"
    using assms(6,7) k
    by (cases "n = 0") (auto simp: HandleTrace_def Let_def release_resources_def with_pm_interpreters_def split: option.splits if_splits)
  obtain fs where fs: "frames_split (drop n (et_FrameData t)) = Some fs"
    "each_frame so fl (et_PID t) fs \<lparr>tv_Frames = kf_Frames k, tv_Hit = kf_Hit k, tv_Miss = kf_Miss k\<rparr> (tm\<lparr>tm_frameCache := c\<rparr>) = Some (v, tm1)"
    using u by (auto simp: user_frames_each split: option.splits)
  have e: "prefix (kf_Frames k) (tv_Frames v) \<and> kernel_cache_inv H holds (tm_frameCache tm1)"
    using each_frame_law [OF assms(4,3) fs(2), of H] frames_split_concat [OF fs(1)] kl by simp
  have "map Some (kf_Frames k) = map (kernel_frame s) (take n (et_FrameData t))" using kl by simp
  moreover from this have "length (kf_Frames k) = n" using assms(7) by (metis length_map length_take min.absorb2 min.cobounded2)
  ultimately show ?thesis using e tr c' by (auto simp: prefix_def)
qed

theorem kernel_frames_transparent_witness:
  "\<exists>tr meta tm'. HandleTrace sample_symops sample_fl 0 empty_snapshot (sample_trace [0xffff]\<lparr>et_NumKernelFrames := 1\<rparr>) () sample_tm = Some ((tr, meta), tm') \<and>
     map Some (take 1 (tr_Frames tr)) = [kernel_frame empty_snapshot 0xffff]"
proof -
  let ?t = "sample_trace [0xffff]\<lparr>et_NumKernelFrames := 1\<rparr>" and ?holds = "\<lambda>c k fs. c k = Some fs"
  have h: "history_ok {empty_snapshot}" "frame_lru_ok sample_fl ?holds" "symops_ok sample_symops"
      "kernel_cache_inv {empty_snapshot} ?holds (tm_frameCache sample_tm)"
    by (auto simp: history_ok_def empty_snapshot_def KernelGeneration_def BPFGeneration_def module_symbolGeneration_def
        bpf_symbolGeneration_def makeModuleGeneration_def makeBPFGeneration_def bpf_LookupSymbol_def frame_lru_ok_def sample_fl_def
        symops_ok_def sample_symops_def kernel_cache_inv_def sample_tm_def split: if_splits)
  obtain tr meta tm' where t: "HandleTrace sample_symops sample_fl 0 empty_snapshot ?t () sample_tm = Some ((tr, meta), tm')"
    by (simp add: HandleTrace_def sample_trace_def sample_fl_def sample_tm_def empty_snapshot_def ResolveAddress_def bpf_LookupSymbol_def
        table_modules_def getModuleByAddress_def symbolizeKernelFrame_def resolution_generation_def user_frames.simps Let_def)
  have "1 = min (unat (et_NumKernelFrames ?t)) (length (et_FrameData ?t))" by (simp add: sample_trace_def)
  from kernel_frames_transparent [OF h(1) _ h(2,3,4) t this] t show ?thesis by (auto simp: sample_trace_def)
qed

end
