(* ===== verification/GoStrings.thy ===== *)
theory GoStrings
  imports Prelude
begin

text \<open>
  Strings: Go strings that are made of bytes, \<open>CString\<close> of \<open>stringutil/stringutil.go\<close>, and what the sources use
  of \<open>unicode/utf8\<close>.
\<close>

definition bytes_string :: "byte list \<Rightarrow> string" where
  "bytes_string bs = map (\<lambda>b. char_of (unat b)) bs"

text \<open>\<open>stringutil.CString\<close>.\<close>

definition CString :: "byte list \<Rightarrow> byte list" where "CString buf = takeWhile (\<lambda>b. b \<noteq> 0) buf"

text \<open>
  \<open>unicode/utf8\<close>: the size of the first character, 0 if the bytes do not start with the encoding of one (where
  \<open>DecodeRune\<close> gives \<open>RuneError\<close> with size one).
\<close>

definition continuation :: "byte \<Rightarrow> bool" where "continuation b \<longleftrightarrow> 0x80 \<le> b \<and> b \<le> 0xBF"

definition second_ok :: "byte \<Rightarrow> byte \<Rightarrow> bool" where
  "second_ok b0 b1 \<longleftrightarrow> (if b0 = 0xE0 then 0xA0 \<le> b1 \<and> b1 \<le> 0xBF else if b0 = 0xED then 0x80 \<le> b1 \<and> b1 \<le> 0x9F
     else if b0 = 0xF0 then 0x90 \<le> b1 \<and> b1 \<le> 0xBF else if b0 = 0xF4 then 0x80 \<le> b1 \<and> b1 \<le> 0x8F else continuation b1)"

fun rune_size :: "byte list \<Rightarrow> nat" where
  "rune_size [] = 0"
| "rune_size (b0 # bs) =
     (if b0 < 0x80 then 1
      else if 0xC2 \<le> b0 \<and> b0 \<le> 0xDF then (case bs of b1 # _ \<Rightarrow> if second_ok b0 b1 then 2 else 0 | _ \<Rightarrow> 0)
      else if 0xE0 \<le> b0 \<and> b0 \<le> 0xEF
      then (case bs of b1 # b2 # _ \<Rightarrow> if second_ok b0 b1 \<and> continuation b2 then 3 else 0 | _ \<Rightarrow> 0)
      else if 0xF0 \<le> b0 \<and> b0 \<le> 0xF4
      then (case bs of b1 # b2 # b3 # _ \<Rightarrow> if second_ok b0 b1 \<and> continuation b2 \<and> continuation b3 then 4 else 0 | _ \<Rightarrow> 0)
      else 0)"

text \<open>The walk of \<open>validateValue\<close>: the position of the first byte that is not part of a character.\<close>

function valid_prefix :: "byte list \<Rightarrow> nat" where
  "valid_prefix b = (if b = [] \<or> rune_size b = 0 then 0 else rune_size b + valid_prefix (drop (rune_size b) b))"
  by pat_completeness auto
termination
  by (relation "measure length") auto

declare valid_prefix.simps [simp del]

definition utf8_Valid :: "byte list \<Rightarrow> bool" where
  "utf8_Valid b \<longleftrightarrow> valid_prefix b = length b"

end
