(* ===== verification/TraceEvents.thy ===== *)
theory TraceEvents
  imports TraceConvert GoStrings "HOL-Library.AList"
begin

text \<open>
  Trace events (\<open>tracer/events.go\<close>, \<open>tracer/stackcount.go\<close>, \<open>tracer/labels.go\<close>, the trace related parts of
  \<open>tracer/tracer.go\<close>, \<open>internal/stackcompress/jhash.go\<close>) and the side of the kernel that decides between a full
  trace and a compact event (\<open>stack_compress_try_send\<close> of \<open>support/ebpf/interpreter_dispatcher.ebpf.c\<close>).

  Records of the ring buffer are lists of bytes. What the goroutine sends to its channel, and its calls of
  \<open>ProcessedUntil\<close>, are a list of outputs. The cache of traces is an association list, whose length is the length
  of the Go map. Traces are values: the pool only recycles memory, and the slice of frame words in
  a cached trace is copied when it is cached and not written afterwards. \<open>None\<close> is a panic.
\<close>

unbundle bit_operations_syntax

section \<open>Fingerprints\<close>

definition StackFpSeed :: u64 where "StackFpSeed = 0x6c6c70666c6c7066"

definition fpStep :: "u64 \<Rightarrow> u64 \<Rightarrow> u64" where
  "fpStep h v =
     (let h = h XOR v * 0x9E3779B97F4A7C15;
          h = push_bit 31 h OR drop_bit 33 h;
          h = h * 0xC2B2AE3D27D4EB4F
      in h XOR drop_bit 29 h)"

text \<open>The slice expression panics when more kernel frames than words are skipped.\<close>

definition Fingerprint :: "u64 list \<Rightarrow> nat \<Rightarrow> u64 option" where
  "Fingerprint frameData skipKernelFrames =
     (if length frameData < skipKernelFrames then None
      else Some (foldl fpStep StackFpSeed (drop skipKernelFrames frameData)))"

definition le_u64 :: "byte list \<Rightarrow> u64" where
  "le_u64 b = ucast (b ! 0) OR push_bit 8 (ucast (b ! 1)) OR push_bit 16 (ucast (b ! 2)) OR push_bit 24 (ucast (b ! 3)) OR
     push_bit 32 (ucast (b ! 4)) OR push_bit 40 (ucast (b ! 5)) OR push_bit 48 (ucast (b ! 6)) OR push_bit 56 (ucast (b ! 7))"

fun fingerprint_loop :: "u64 \<Rightarrow> byte list \<Rightarrow> u64" where
  "fingerprint_loop h (b0 # b1 # b2 # b3 # b4 # b5 # b6 # b7 # bs) =
     fingerprint_loop (fpStep h (le_u64 [b0, b1, b2, b3, b4, b5, b6, b7])) bs"
| "fingerprint_loop h _ = h"

definition FingerprintBytes :: "byte list \<Rightarrow> u64" where
  "FingerprintBytes b = fingerprint_loop StackFpSeed b"

definition StackIDEventMagic :: u64 where "StackIDEventMagic = 0x5349434b49444556"
definition StackIDEventSize :: nat where "StackIDEventSize = 40"

section \<open>Labels\<close>

record customLabelValidator =
  cl_droppedInvalidName :: int64
  cl_droppedInvalidValue :: int64

definition validateKey :: "byte list \<Rightarrow> customLabelValidator \<Rightarrow> byte list option \<times> customLabelValidator" where
  "validateKey buf v =
     (let b = CString buf
      in if b = [] \<or> \<not> utf8_Valid b then (None, v\<lparr>cl_droppedInvalidName := cl_droppedInvalidName v + 1\<rparr>) else (Some b, v))"

definition validateValue :: "byte list \<Rightarrow> customLabelValidator \<Rightarrow> byte list option \<times> customLabelValidator" where
  "validateValue buf v =
     (let b = CString buf
      in if utf8_Valid b then (Some b, v)
         else let pos = valid_prefix b
              in if pos = 0 then (None, v\<lparr>cl_droppedInvalidValue := cl_droppedInvalidValue v + 1\<rparr>) else (Some (take pos b), v))"

definition getAndResetMetrics :: "customLabelValidator \<Rightarrow> (int64 \<times> int64) \<times> customLabelValidator" where
  "getAndResetMetrics v =
     ((cl_droppedInvalidName v, cl_droppedInvalidValue v), \<lparr>cl_droppedInvalidName = 0, cl_droppedInvalidValue = 0\<rparr>)"

section \<open>State\<close>

record 'p originRegistry =
  or_lastID :: u32
  or_types :: "u16 \<rightharpoonup> 'p"

definition origin_register :: "'p \<Rightarrow> 'p originRegistry \<Rightarrow> u16 option \<times> 'p originRegistry" where
  "origin_register metadata r =
     (if or_lastID r \<ge> 0xffff then (None, r)
      else let i = or_lastID r + 1
           in (Some (ucast i), r\<lparr>or_lastID := i, or_types := (or_types r)(ucast i \<mapsto> metadata)\<rparr>))"

definition origin_lookup :: "'p originRegistry \<Rightarrow> u16 \<Rightarrow> 'p option" where
  "origin_lookup r origin = or_types r origin"

record 'p Tracer =
  tc_stackCompress :: bool
  tc_pendingStackCounts :: "u64 \<rightharpoonup> int64"
  tc_stackCache :: "(u64 \<times> EbpfTrace) list"
  tc_totalRingbufBytes :: int64
  tc_customLabels :: customLabelValidator
  tc_origins :: "'p originRegistry"
  tc_targetPID :: u32

definition pending_count :: "'p Tracer \<Rightarrow> u64 \<Rightarrow> int64" where
  "pending_count t fp = (case tc_pendingStackCounts t fp of None \<Rightarrow> 0 | Some n \<Rightarrow> n)"

definition add_pending :: "u64 \<Rightarrow> int64 \<Rightarrow> 'p Tracer \<Rightarrow> 'p Tracer" where
  "add_pending fp cnt t =
     t\<lparr>tc_pendingStackCounts := (tc_pendingStackCounts t)(fp \<mapsto> pending_count t fp + cnt)\<rparr>"

section \<open>Loading traces\<close>

datatype loaderr = ErrRecordTooSmall | ErrRecordUnexpectedSize | ErrOriginUnexpected

text \<open>Offsets of the fields of \<open>support.Trace\<close> under the layout rules of Go.\<close>

definition frameListOffs :: nat where "frameListOffs = 744"

definition field :: "nat \<Rightarrow> nat \<Rightarrow> byte list \<Rightarrow> byte list" where
  "field off n raw = take n (drop off raw)"

definition raw_word :: "nat \<Rightarrow> nat \<Rightarrow> byte list \<Rightarrow> 'w::len word" where
  "raw_word off n raw = word_of_nat (le_nat (field off n raw))"

text \<open>The labels of a trace: an index beyond the array of ten panics.\<close>

fun load_labels ::
  "byte list \<Rightarrow> nat \<Rightarrow> nat \<Rightarrow> (string \<times> string) list \<Rightarrow> customLabelValidator \<Rightarrow>
     ((string \<times> string) list \<times> customLabelValidator) option" where
  "load_labels raw i 0 labels v = Some (labels, v)"
| "load_labels raw i (Suc n) labels v =
     (if i \<ge> 10 then None
      else
        (case validateKey (field (60 + 64 * i) 16 raw) v of
           (None, v) \<Rightarrow> load_labels raw (Suc i) n labels v
         | (Some key, v) \<Rightarrow>
             (case validateValue (field (76 + 64 * i) 48 raw) v of
                (None, v) \<Rightarrow> load_labels raw (Suc i) n labels v
              | (Some val, v) \<Rightarrow>
                  load_labels raw (Suc i) n (AList.update (bytes_string key) (bytes_string val) labels) v)))"

definition frame_words :: "byte list \<Rightarrow> nat \<Rightarrow> u64 list" where
  "frame_words raw n = map (\<lambda>i. raw_word (frameListOffs + 8 * i) 8 raw) [0..<n]"

definition loadBpfTrace :: "byte list \<Rightarrow> 'p Tracer \<Rightarrow> ((loaderr + EbpfTrace) \<times> 'p Tracer) option" where
  "loadBpfTrace raw t =
     (if length raw < frameListOffs then Some (Inl ErrRecordTooSmall, t)
      else
        let frameDataLen = unat (raw_word 700 2 raw :: u16)
        in if length raw < frameListOffs + 8 * frameDataLen then Some (Inl ErrRecordUnexpectedSize, t)
           else
             let origin = raw_word 706 2 raw
             in if origin_lookup (tc_origins t) origin = None then Some (Inl ErrOriginUnexpected, t)
                else
                  (case load_labels raw 0 (unat (raw_word 56 4 raw :: u32)) [] (tc_customLabels t) of
                     None \<Rightarrow> None
                   | Some (labels, v) \<Rightarrow>
                       let t = t\<lparr>tc_customLabels := v\<rparr>; numKernelFrames = raw_word 704 2 raw :: u16
                       in if unat numKernelFrames > frameDataLen then Some (Inl ErrRecordUnexpectedSize, t)
                          else if frameDataLen > 3072 then None
                          else Some (Inr
                            \<lparr>et_CustomLabels = labels, et_Comm = field 16 16 raw, et_FrameData = frame_words raw frameDataLen,
                             et_Value = raw_word 712 8 raw, et_KTime = raw_word 8 8 raw, et_CpuID = raw_word 736 4 raw,
                             et_TID = raw_word 4 4 raw, et_PID = raw_word 0 4 raw, et_NumFrames = raw_word 702 2 raw,
                             et_NumKernelFrames = numKernelFrames, et_Origin = origin,
                             et_APMTraceID = field 40 16 raw, et_APMTransactionID = field 32 8 raw\<rparr>, t)))"

section \<open>Events\<close>

datatype goOutput = OTrace EbpfTrace | OBarrier | OUntil int64

text \<open>A compact event of the ring buffer.\<close>

record StackIDEvent =
  si_ktime :: int64
  si_fp :: u64
  si_pid :: PID
  si_tid :: PID
  si_count :: u32

definition parse_StackIDEvent :: "byte list \<Rightarrow> StackIDEvent option" where
  "parse_StackIDEvent raw =
     (if length raw = StackIDEventSize \<and> raw_word 0 8 raw = StackIDEventMagic
      then Some \<lparr>si_ktime = raw_word 8 8 raw, si_fp = raw_word 16 8 raw, si_pid = raw_word 24 4 raw,
                 si_tid = raw_word 28 4 raw, si_count = raw_word 36 4 raw\<rparr>
      else None)"

text \<open>A compact event: clones of the cached trace, or a count that waits for the next full trace.\<close>

definition handle_StackIDEvent :: "StackIDEvent \<Rightarrow> 'p Tracer \<Rightarrow> EbpfTrace list \<times> 'p Tracer" where
  "handle_StackIDEvent e t =
     (case map_of (tc_stackCache t) (si_fp e) of
        Some cached \<Rightarrow>
          (replicate (unat (si_count e)) (cached\<lparr>et_KTime := si_ktime e, et_PID := si_pid e, et_TID := si_tid e\<rparr>), t)
      | None \<Rightarrow> ([], add_pending (si_fp e) (ucast (si_count e)) t))"

text \<open>A full trace: counts that wait for it are added to its value, and it is cached.\<close>

definition fold_pending :: "u64 \<Rightarrow> EbpfTrace \<Rightarrow> 'p Tracer \<Rightarrow> EbpfTrace \<times> 'p Tracer" where
  "fold_pending fp trace t =
     (let n = pending_count t fp
      in if 0 <s n then (trace\<lparr>et_Value := et_Value trace + n\<rparr>, t\<lparr>tc_pendingStackCounts := (tc_pendingStackCounts t)(fp := None)\<rparr>)
         else (trace, t))"

definition cache_trace :: "u64 \<Rightarrow> EbpfTrace \<Rightarrow> 'p Tracer \<Rightarrow> 'p Tracer" where
  "cache_trace fp trace t =
     (if length (tc_stackCache t) < 2 ^ 16 then t\<lparr>tc_stackCache := AList.update fp trace (tc_stackCache t)\<rparr> else t)"

definition handle_full :: "EbpfTrace \<Rightarrow> 'p Tracer \<Rightarrow> (EbpfTrace \<times> 'p Tracer) option" where
  "handle_full trace t =
     (if tc_stackCompress t
      then map_option (\<lambda>fp. let (trace, t) = fold_pending fp trace t in (trace, cache_trace fp trace t))
             (Fingerprint (et_FrameData trace) (unat (et_NumKernelFrames trace)))
      else Some (trace, t))"

text \<open>One record: skipped, or the end of the goroutine, or traces; a full one counts for the time of the batch.\<close>

datatype recordResult = RContinue "EbpfTrace list" | RStop | RFull int64 EbpfTrace

definition handle_record :: "byte list \<Rightarrow> 'p Tracer \<Rightarrow> (recordResult \<times> 'p Tracer) option" where
  "handle_record raw t =
     (let t = t\<lparr>tc_totalRingbufBytes := tc_totalRingbufBytes t + word_of_nat (length raw)\<rparr>
      in (case (if tc_stackCompress t then parse_StackIDEvent raw else None) of
            Some e \<Rightarrow> let (ts, t) = handle_StackIDEvent e t in Some (RContinue ts, t)
          | None \<Rightarrow>
              (case loadBpfTrace raw t of
                 None \<Rightarrow> None
               | Some (Inl e, t) \<Rightarrow> Some (if e = ErrOriginUnexpected then RContinue [] else RStop, t)
               | Some (Inr trace, t) \<Rightarrow> map_option (\<lambda>(trace', t). (RFull (et_KTime trace) trace', t)) (handle_full trace t))))"

definition maxEvents :: nat where "maxEvents = 4096"

record 'p batch =
  ba_rest :: "byte list list"
  ba_out :: "EbpfTrace list"
  ba_minKTime :: int64
  ba_stopped :: bool
  ba_noData :: u64
  ba_tracer :: "'p Tracer"

definition min_ktime :: "int64 \<Rightarrow> int64 \<Rightarrow> int64" where
  "min_ktime minKTime k = (if minKTime = 0 \<or> k <s minKTime then k else minKTime)"

text \<open>
  The inner loop over what is in the ring buffer, up to its end or to the limit. The limit is
  only tested behind a full trace.
\<close>

fun read_events :: "byte list list \<Rightarrow> nat \<Rightarrow> 'p batch \<Rightarrow> 'p batch option" where
  "read_events [] eventCount b = Some (b\<lparr>ba_rest := []\<rparr>)"
| "read_events (raw # raws) eventCount b =
     (if raw = [] then read_events raws eventCount (b\<lparr>ba_noData := ba_noData b + 1\<rparr>)
      else
        (case handle_record raw (ba_tracer b) of
           None \<Rightarrow> None
         | Some (RContinue ts, t) \<Rightarrow> read_events raws (eventCount + 1) (b\<lparr>ba_out := ba_out b @ ts, ba_tracer := t\<rparr>)
         | Some (RStop, t) \<Rightarrow> Some (b\<lparr>ba_rest := raws, ba_stopped := True, ba_tracer := t\<rparr>)
         | Some (RFull k trace, t) \<Rightarrow>
             let b = b\<lparr>ba_out := ba_out b @ [trace], ba_minKTime := min_ktime (ba_minKTime b) k, ba_tracer := t\<rparr>
             in if eventCount + 1 = maxEvents then Some (b\<lparr>ba_rest := raws\<rparr>) else read_events raws (eventCount + 1) b))"

text \<open>The end of a batch: what is reported as processed, and the time that is kept for the next batch.\<close>

definition poll_end :: "int64 \<Rightarrow> int64 \<Rightarrow> goOutput list \<times> int64" where
  "poll_end oldKTime minKTime =
     (if 0 <s oldKTime
      then if 0 <s minKTime \<and> minKTime \<le>s oldKTime then ([OBarrier, OUntil minKTime], 0)
           else ([OBarrier, OUntil oldKTime], minKTime)
      else ([], minKTime))"

text \<open>One round of the poll loop; the second component says whether the goroutine goes on.\<close>

definition poll_step ::
  "byte list list \<Rightarrow> int64 \<Rightarrow> 'p Tracer \<Rightarrow> (goOutput list \<times> bool \<times> int64 \<times> byte list list \<times> 'p Tracer) option" where
  "poll_step raws oldKTime t =
     map_option (\<lambda>b. if ba_stopped b then (map OTrace (ba_out b), False, oldKTime, ba_rest b, ba_tracer b)
         else let (outs, oldKTime) = poll_end oldKTime (ba_minKTime b)
              in (map OTrace (ba_out b) @ outs, True, oldKTime, ba_rest b, ba_tracer b))
       (read_events raws 0 \<lparr>ba_rest = [], ba_out = [], ba_minKTime = 0, ba_stopped = False, ba_noData = 0, ba_tracer = t\<rparr>)"

text \<open>Rounds of the poll loop, with what the kernel has added to the ring buffer before each of them.\<close>

fun poll_loop :: "byte list list list \<Rightarrow> byte list list \<Rightarrow> int64 \<Rightarrow> 'p Tracer \<Rightarrow> (goOutput list \<times> 'p Tracer) option" where
  "poll_loop [] ring oldKTime t = Some ([], t)"
| "poll_loop (raws # rounds) ring oldKTime t =
     (case poll_step (ring @ raws) oldKTime t of
        None \<Rightarrow> None
      | Some (outs, go_on, oldKTime, ring, t) \<Rightarrow>
          if go_on then map_option (\<lambda>(outs', t). (outs @ outs', t)) (poll_loop rounds ring oldKTime t)
          else Some (outs, t))"

section \<open>Window aggregation\<close>

text \<open>A count that is read as a signed number; nothing is sent for a negative one.\<close>

definition emitExpanded :: "u64 \<Rightarrow> int64 \<Rightarrow> 'p Tracer \<Rightarrow> EbpfTrace list \<times> 'p Tracer" where
  "emitExpanded fp cnt t =
     (case map_of (tc_stackCache t) fp of
        Some cached \<Rightarrow> (replicate (nat (sint cnt)) cached, t)
      | None \<Rightarrow> ([], add_pending fp cnt t))"

text \<open>
  The drain and the kernel share the table of counters, one for each CPU. The steps of the kernel come between those of the
  drain: reading the next entry, and deleting it, which may fail, and sending its traces. The event loop meanwhile handles full
  traces, which take the counts that wait for them.
\<close>

record 'p drainState =
  dr_counts :: "u64 \<rightharpoonup> u32 list"
  dr_read :: "(u64 \<times> u64) option"
  dr_out :: "EbpfTrace list"
  dr_tracer :: "'p Tracer"

text \<open>
  How the kernel counts a sample: in the entry that its lookup has found, unless the drain has deleted it since; or in a new
  entry, unless the insertion fails, because the table is full or another CPU was faster.
\<close>

datatype hit = HitFound | HitStale | HitInserted | HitFailed

datatype drainEvent = KCount u64 nat hit | DNext u64 | DDelete bool | DFull EbpfTrace

text \<open>\<open>None\<close>: the table does not allow this outcome.\<close>

definition count_hit :: "nat \<Rightarrow> u64 \<Rightarrow> nat \<Rightarrow> hit \<Rightarrow> (u64 \<rightharpoonup> u32 list) \<Rightarrow> (u64 \<rightharpoonup> u32 list) option" where
  "count_hit ncpu fp cpu h m =
     (case (h, m fp) of
        (HitFound, Some cs) \<Rightarrow> Some (m(fp \<mapsto> cs[cpu := cs ! cpu + 1]))
      | (HitInserted, None) \<Rightarrow> Some (m(fp \<mapsto> (replicate ncpu 0)[cpu := 1]))
      | (HitStale, _) \<Rightarrow> Some m
      | (HitFailed, _) \<Rightarrow> Some m
      | _ \<Rightarrow> None)"

definition total_count :: "u32 list \<Rightarrow> u64" where "total_count perCPU = sum_list (map ucast perCPU)"

definition drain_step :: "nat \<Rightarrow> drainEvent \<Rightarrow> 'p drainState \<Rightarrow> 'p drainState option" where
  "drain_step ncpu ev s =
     (case ev of
        KCount fp cpu h \<Rightarrow>
          if cpu < ncpu then map_option (\<lambda>m. s\<lparr>dr_counts := m\<rparr>) (count_hit ncpu fp cpu h (dr_counts s)) else None
      | DNext fp \<Rightarrow>
          (case (dr_read s, dr_counts s fp) of
             (None, Some cs) \<Rightarrow> Some (if total_count cs = 0 then s else s\<lparr>dr_read := Some (fp, total_count cs)\<rparr>)
           | _ \<Rightarrow> None)
      | DDelete deleted \<Rightarrow>
          (case dr_read s of
             None \<Rightarrow> None
           | Some (fp, tot) \<Rightarrow>
               let (ts, t) = emitExpanded fp tot (dr_tracer s)
               in Some (s\<lparr>dr_counts := (if deleted then (dr_counts s)(fp := None) else dr_counts s), dr_read := None,
                    dr_out := dr_out s @ ts, dr_tracer := t\<rparr>))
      | DFull trace \<Rightarrow> map_option (\<lambda>(_, t). s\<lparr>dr_tracer := t\<rparr>) (handle_full trace (dr_tracer s)))"

fun drain_steps :: "nat \<Rightarrow> drainEvent list \<Rightarrow> 'p drainState \<Rightarrow> 'p drainState option" where
  "drain_steps ncpu [] s = Some s"
| "drain_steps ncpu (e # es) s = (case drain_step ncpu e s of None \<Rightarrow> None | Some s \<Rightarrow> drain_steps ncpu es s)"

section \<open>The side of the kernel\<close>

text \<open>
  \<open>stack_compress_try_send\<close>: a sample with a known fingerprint becomes a compact event, or is counted when there is a window.
  Otherwise the fingerprint is registered, which may fail, and the caller sends the full trace.
\<close>

datatype message = MFull EbpfTrace | MStackID StackIDEvent
datatype tryResult = TrySend StackIDEvent | TryCount u64 | TryFull

definition user_fp :: "EbpfTrace \<Rightarrow> u64" where
  "user_fp t = foldl fpStep StackFpSeed (drop (unat (et_NumKernelFrames t)) (et_FrameData t))"

definition stack_id_event :: "EbpfTrace \<Rightarrow> StackIDEvent" where
  "stack_id_event t = \<lparr>si_ktime = et_KTime t, si_fp = user_fp t, si_pid = et_PID t, si_tid = et_TID t, si_count = 1\<rparr>"

definition stack_compress_try_send :: "u32 \<Rightarrow> bool \<Rightarrow> EbpfTrace \<Rightarrow> u64 set \<Rightarrow> tryResult \<times> u64 set" where
  "stack_compress_try_send window registered t dict =
     (if user_fp t \<in> dict then (if 0 < window then TryCount (user_fp t) else TrySend (stack_id_event t), dict)
      else (TryFull, if registered then insert (user_fp t) dict else dict))"

text \<open>
  The CPUs of a kernel without a window. A CPU looks its sample up, and what it writes is output in a later step, which may fail;
  other CPUs come in between. The table may evict entries at any time, here before a lookup. A record of the ring is kept with the
  sample that it was made of.
\<close>

record kernelState =
  ks_dict :: "u64 set"
  ks_cpu :: "nat \<rightharpoonup> EbpfTrace \<times> message"
  ks_ring :: "(EbpfTrace \<times> message) list"

datatype kernelEvent = KLookup nat "u64 set" bool EbpfTrace | KOutput nat bool

definition kernel_step :: "kernelEvent \<Rightarrow> kernelState \<Rightarrow> kernelState option" where
  "kernel_step ev s =
     (case ev of
        KLookup cpu evicted registered x \<Rightarrow>
          if ks_cpu s cpu \<noteq> None then None
          else
            (case stack_compress_try_send 0 registered x (ks_dict s - evicted) of
               (TrySend e, dict) \<Rightarrow> Some (s\<lparr>ks_dict := dict, ks_cpu := (ks_cpu s)(cpu \<mapsto> (x, MStackID e))\<rparr>)
             | (TryFull, dict) \<Rightarrow> Some (s\<lparr>ks_dict := dict, ks_cpu := (ks_cpu s)(cpu \<mapsto> (x, MFull x))\<rparr>)
             | (TryCount _, _) \<Rightarrow> None)
      | KOutput cpu ok \<Rightarrow>
          (case ks_cpu s cpu of
             None \<Rightarrow> None
           | Some r \<Rightarrow> Some (s\<lparr>ks_cpu := (ks_cpu s)(cpu := None), ks_ring := (if ok then ks_ring s @ [r] else ks_ring s)\<rparr>)))"

fun kernel_steps :: "kernelEvent list \<Rightarrow> kernelState \<Rightarrow> kernelState option" where
  "kernel_steps [] s = Some s"
| "kernel_steps (e # es) s = (case kernel_step e s of None \<Rightarrow> None | Some s \<Rightarrow> kernel_steps es s)"

definition kernel_start :: kernelState where
  "kernel_start = \<lparr>ks_dict = {}, ks_cpu = Map.empty, ks_ring = []\<rparr>"

section \<open>Other operations of the tracer\<close>

text \<open>\<open>HandleTrace\<close>: traces of other processes are dropped; the result is what the process manager gets.\<close>

definition tracer_HandleTrace :: "EbpfTrace \<Rightarrow> 'p Tracer \<Rightarrow> (EbpfTrace \<times> 'p option) option" where
  "tracer_HandleTrace trace t =
     (if tc_targetPID t \<noteq> 0 \<and> et_PID trace \<noteq> tc_targetPID t then None
      else Some (trace, origin_lookup (tc_origins t) (et_Origin trace)))"

definition schedTimesSize :: "u32 \<Rightarrow> u32" where
  "schedTimesSize threshold =
     (let sz = ucast ((4096 * ucast threshold :: u64) div 0xffffffff)
      in if sz < 16 then 16 else if sz > 4096 then 4096 else sz)"

type_synonym PIDTID = u64

definition pidtid_PID :: "PIDTID \<Rightarrow> u32" where "pidtid_PID pt = ucast (drop_bit 32 pt)"
definition pidtid_TID :: "PIDTID \<Rightarrow> u32" where "pidtid_TID pt = ucast (pt AND 0xFFFFFFFF)"

text \<open>
  \<open>monitorPIDEventsMap\<close>: batches of keys with the outcome of each call, until the end of the map or another
  error; the keys of a failed batch are kept.
\<close>

datatype batchErr = BatchOk | BatchEnd | BatchFailed

fun monitorPIDEventsMap :: "(PIDTID list \<times> batchErr) list \<Rightarrow> PIDTID list \<Rightarrow> (bool \<times> PIDTID list) option" where
  "monitorPIDEventsMap [] keys = None"
| "monitorPIDEventsMap ((removed, err) # calls) keys =
     (case err of
        BatchEnd \<Rightarrow> Some (True, keys @ removed)
      | BatchFailed \<Rightarrow> Some (False, keys @ removed)
      | BatchOk \<Rightarrow> monitorPIDEventsMap calls (keys @ removed))"

text \<open>
  \<open>eBPFMetricsCollector\<close>: the sums over the CPUs, as differences for the counters. A gap in the translation table has the
  invalid metric 0; a failed lookup is \<open>None\<close>.
\<close>

fun collect_metrics ::
  "nat \<Rightarrow> (nat \<Rightarrow> u64 list option) \<Rightarrow> nat \<Rightarrow> u16 list \<Rightarrow> int64 list \<Rightarrow> (u16 \<times> int64) list \<times> int64 list" where
  "collect_metrics beginCumulative look ebpfID [] previous = ([], previous)"
| "collect_metrics beginCumulative look ebpfID (metricID # ids) previous =
     (if metricID = 0 then collect_metrics beginCumulative look (ebpfID + 1) ids previous
      else
        (case look ebpfID of
           None \<Rightarrow> collect_metrics beginCumulative look (ebpfID + 1) ids previous
         | Some perCPU \<Rightarrow>
             let val = sum_list perCPU
             in if ebpfID < beginCumulative
                then let delta = val - previous ! ebpfID
                     in if delta = 0 then collect_metrics beginCumulative look (ebpfID + 1) ids previous
                        else let (ms, previous) = collect_metrics beginCumulative look (ebpfID + 1) ids (previous[ebpfID := val])
                             in ((metricID, delta) # ms, previous)
                else let (ms, previous) = collect_metrics beginCumulative look (ebpfID + 1) ids previous
                     in ((metricID, val) # ms, previous)))"

text \<open>\<open>writeSampleStream\<close>: the line of a trace.\<close>

fun digits_loop :: "nat \<Rightarrow> nat \<Rightarrow> nat \<Rightarrow> string \<Rightarrow> string" where
  "digits_loop fuel base n acc =
     (case fuel of
        0 \<Rightarrow> acc
      | Suc fuel \<Rightarrow>
          let d = n mod base; c = char_of (if d < 10 then 48 + d else 87 + d)
          in if n < base then c # acc else digits_loop fuel base (n div base) (c # acc))"

definition AppendUint :: "nat \<Rightarrow> u64 \<Rightarrow> string" where
  "AppendUint base w = digits_loop 64 base (unat w) []"

definition AppendInt :: "int64 \<Rightarrow> string" where
  "AppendInt w = (if w <s 0 then CHR ''-'' # AppendUint 10 (- w) else AppendUint 10 w)"

definition writeSampleStream :: "EbpfTrace \<Rightarrow> string" where
  "writeSampleStream t =
     AppendInt (et_KTime t) @ '' '' @ AppendUint 10 (ucast (et_PID t)) @ '' '' @ AppendUint 10 (ucast (et_TID t)) @ '' '' @
     AppendUint 10 (word_of_nat (length (et_FrameData t))) @ '' '' @ AppendUint 10 (ucast (et_NumKernelFrames t)) @
     concat (map (\<lambda>w. '' '' @ AppendUint 16 w) (et_FrameData t)) @ [CHR 0x0A]"

end
