(* ===== verification/TraceEventProps.thy ===== *)
theory TraceEventProps
  imports TraceEvents
begin

text \<open>
  Properties of the trace events: fingerprints and their collisions, labels as longest valid prefixes, the limit of a round of
  the event loop, the times that are reported as processed, compression as a transparent encoding of the samples, and the
  samples that the drain of the counters sends and loses.
\<close>

unbundle bit_operations_syntax

section \<open>Fingerprints\<close>

lemma xor_shift_inj:
  assumes "h XOR drop_bit n h = h' XOR drop_bit n h'" "0 < n"
  shows "h = (h' :: 'a::len word)"
proof (rule bit_word_eqI)
  fix i assume "i < LENGTH('a)"
  have "bit h i = bit h' i" for i
  proof (induction "LENGTH('a) - i" arbitrary: i rule: less_induct)
    case less
    show ?case
    proof (cases "i < LENGTH('a)")
      case True
      have "bit (h XOR drop_bit n h) i = bit (h' XOR drop_bit n h') i" using assms(1) by simp
      moreover have "bit h (n + i) = bit h' (n + i)" using less [of "n + i"] assms(2) True by simp
      ultimately show ?thesis by (auto simp: bit_simps)
    qed (simp add: bit_word.rep_eq)
  qed
  then show "bit h i = bit h' i" .
qed

lemma mult_inj: "a * c = b * c \<Longrightarrow> c * d = 1 \<Longrightarrow> a = b" for a b c d :: "'a::len word"
  by (metis mult.assoc mult.right_neutral)

lemma rotate_inj:
  assumes "push_bit 31 h OR drop_bit 33 h = push_bit 31 h' OR drop_bit 33 (h' :: u64)"
  shows "h = h'"
proof (rule bit_word_eqI)
  fix i assume i: "i < LENGTH(64)"
  let ?r = "\<lambda>h :: u64. push_bit 31 h OR drop_bit 33 h"
  have "bit h i = bit (?r h) (if i < 33 then i + 31 else i - 33)" for h
    using i by (auto simp: bit_simps dest: bit_imp_le_length)
  then show "bit h i = bit h' i" using assms by simp
qed

lemma xor_inj: "h XOR v = h' XOR v \<Longrightarrow> h = h'" for h h' v :: "'a::len word"
  by (metis xor.assoc xor.right_neutral xor_self_eq)

lemma fpStep_mix:
  assumes "fpStep h v = fpStep h' v'"
  shows "h XOR v * 0x9E3779B97F4A7C15 = h' XOR v' * 0x9E3779B97F4A7C15"
proof -
  have c: "(0xC2B2AE3D27D4EB4F :: u64) * 0xba79078168d4baf = 1" by simp
  let ?m = "\<lambda>h v :: u64. h XOR v * 0x9E3779B97F4A7C15" and ?r = "\<lambda>h :: u64. push_bit 31 h OR drop_bit 33 h"
  from assms have "?r (?m h v) * 0xC2B2AE3D27D4EB4F = ?r (?m h' v') * 0xC2B2AE3D27D4EB4F"
    unfolding fpStep_def Let_def by (rule xor_shift_inj) simp
  then have "?r (?m h v) = ?r (?m h' v')" by (rule mult_inj [OF _ c])
  then show ?thesis by (rule rotate_inj)
qed

lemma fpStep_inj:
  "fpStep h v = fpStep h' v \<Longrightarrow> h = h'"
  "fpStep h v = fpStep h v' \<Longrightarrow> v = v'"
proof -
  have c: "(0x9E3779B97F4A7C15 :: u64) * 0xf1de83e19937733d = 1" by simp
  show "fpStep h v = fpStep h' v \<Longrightarrow> h = h'" by (drule fpStep_mix, erule xor_inj)
  assume "fpStep h v = fpStep h v'"
  then have "v * 0x9E3779B97F4A7C15 = v' * 0x9E3779B97F4A7C15"
    using fpStep_mix xor_inj [of _ h] by (metis xor.commute)
  then show "v = v'" by (rule mult_inj [OF _ c])
qed

lemma foldl_fpStep_inj: "foldl fpStep h ws = foldl fpStep h' ws \<Longrightarrow> h = h'"
  by (induction ws arbitrary: h h') (auto dest: fpStep_inj(1))

text \<open>
  Two stacks that differ in exactly one word of their user frames never have the same fingerprint, whatever
  their kernel frames; and the fingerprint does not depend on the kernel frames.
\<close>

theorem fingerprint_single_difference:
  assumes "length ks = k" "length ks' = k"
  shows "Fingerprint (ks @ us) k = Fingerprint (ks' @ us) k \<and>
    (a \<noteq> b \<longrightarrow> Fingerprint (ks @ pre @ a # post) k \<noteq> Fingerprint (ks' @ pre @ b # post) k)"
  using assms by (auto simp: Fingerprint_def dest!: foldl_fpStep_inj fpStep_inj(2))

theorem fingerprint_single_difference_witness:
  "Fingerprint [0xffffffff81000000, 1, 2] 1 \<noteq> Fingerprint [0xffffffff81000000, 1, 3] 1"
  using fingerprint_single_difference [of "[0xffffffff81000000]" 1 "[0xffffffff81000000]" "[]" 2 3 "[1]" "[]"] by simp

text \<open>The two ways to compute a fingerprint agree.\<close>

definition le_bytes :: "u64 \<Rightarrow> byte list" where
  "le_bytes w = map (\<lambda>i. ucast (drop_bit (8 * i) w)) [0..<8]"

lemma le_bytes_list:
  "le_bytes w = [ucast w, ucast (drop_bit 8 w), ucast (drop_bit 16 w), ucast (drop_bit 24 w),
     ucast (drop_bit 32 w), ucast (drop_bit 40 w), ucast (drop_bit 48 w), ucast (drop_bit 56 w)]"
  by (simp add: le_bytes_def upt_rec)

lemma byte_of_word: "push_bit n (ucast (ucast (drop_bit n w) :: byte)) = w AND push_bit n 0xFF" for w :: u64
proof -
  have "ucast (ucast x :: byte) = x AND 0xFF" for x :: u64
  proof -
    have "(0xFF :: u64) = mask 8" by (simp add: mask_eq_exp_minus_1)
    moreover have "ucast (ucast x :: byte) = x AND mask 8" by (auto intro!: bit_word_eqI simp: bit_simps)
    ultimately show ?thesis by simp
  qed
  then show ?thesis by (auto intro!: bit_word_eqI simp: bit_simps)
qed

lemma le_u64_bytes: "le_u64 (le_bytes w) = w"
proof -
  have "le_u64 (le_bytes w) = w AND 0xFF OR w AND 0xFF00 OR w AND 0xFF0000 OR w AND 0xFF000000 OR w AND 0xFF00000000 OR
      w AND 0xFF0000000000 OR w AND 0xFF000000000000 OR w AND 0xFF00000000000000"
    using byte_of_word [of 0 w] by (simp add: le_u64_def le_bytes_list byte_of_word)
  also have "\<dots> = w AND 0xFFFFFFFFFFFFFFFF" by (simp flip: bit.conj_disj_distrib)
  also have "(0xFFFFFFFFFFFFFFFF :: u64) = - 1" by simp
  finally show ?thesis by simp
qed

lemma FingerprintBytes_eq: "Fingerprint ws 0 = Some (FingerprintBytes (concat (map le_bytes ws)))"
proof -
  have "fingerprint_loop h (concat (map le_bytes ws)) = foldl fpStep h ws" for h
    by (induction ws arbitrary: h) (simp_all add: le_bytes_list le_u64_bytes [unfolded le_bytes_list])
  then show ?thesis by (simp add: Fingerprint_def FingerprintBytes_def)
qed
section \<open>Labels\<close>

lemma rune_size_le: "rune_size b \<le> length b"
  by (cases b) (auto split: list.split)

lemma valid_prefix_le: "valid_prefix b \<le> length b"
proof (induction b rule: valid_prefix.induct)
  case (1 b)
  then show ?case using rune_size_le [of b] by (subst valid_prefix.simps) (auto simp: le_diff_conv2 add.commute)
qed

text \<open>The size of a character depends on its own bytes only.\<close>

lemma rune_size_take: "rune_size b \<noteq> 0 \<Longrightarrow> rune_size b \<le> n \<Longrightarrow> rune_size (take n b) = rune_size b"
  by (cases b; cases n) (auto simp: take_Cons' split: list.splits if_splits)

lemma valid_prefix_take: "utf8_Valid (take (valid_prefix b) b)"
proof (induction b rule: valid_prefix.induct)
  case (1 b)
  show ?case
  proof (cases "b = [] \<or> rune_size b = 0")
    case False
    let ?r = "rune_size b" and ?n = "valid_prefix (drop (rune_size b) b)"
    have v: "valid_prefix b = ?r + ?n" using False by (subst valid_prefix.simps) simp
    have "rune_size (take (?r + ?n) b) = ?r" using False by (intro rune_size_take) auto
    then have "valid_prefix (take (?r + ?n) b) = ?r + valid_prefix (take ?n (drop ?r b))"
      using False by (subst valid_prefix.simps) (simp add: drop_take)
    moreover have "valid_prefix (take ?n (drop ?r b)) = ?n"
      using 1 False valid_prefix_le [of "drop ?r b"] by (simp add: utf8_Valid_def)
    ultimately show ?thesis using v valid_prefix_le [of b] by (simp add: utf8_Valid_def)
  qed (simp add: utf8_Valid_def valid_prefix.simps)
qed

lemma valid_prefix_rest: "rune_size (drop (valid_prefix b) b) = 0"
proof (induction b rule: valid_prefix.induct)
  case (1 b)
  then show ?case by (cases "b = [] \<or> rune_size b = 0") (subst valid_prefix.simps, auto simp: add.commute)+
qed

lemma rune_size_append: "rune_size p \<noteq> 0 \<Longrightarrow> rune_size (p @ s) = rune_size p"
proof (cases p)
  case (Cons b0 bs)
  assume "rune_size p \<noteq> 0"
  then show ?thesis unfolding Cons
    by (cases bs; cases "tl bs"; cases "tl (tl bs)") (simp_all split: if_splits)
qed simp

lemma valid_append: "utf8_Valid p \<Longrightarrow> valid_prefix (p @ s) = length p + valid_prefix s"
proof (induction p rule: valid_prefix.induct)
  case (1 p)
  show ?case
  proof (cases "p = []")
    case False
    let ?r = "rune_size p"
    have r: "?r \<noteq> 0" using 1(2) False by (auto simp: utf8_Valid_def valid_prefix.simps [of p] split: if_splits)
    then have v: "utf8_Valid (drop ?r p)" using 1(2) False rune_size_le [of p]
      by (auto simp: utf8_Valid_def valid_prefix.simps [of p])
    have "rune_size (p @ s) = ?r" using r by (rule rune_size_append)
    then show ?thesis using 1(1) r v False rune_size_le [of p] by (subst valid_prefix.simps) simp
  qed simp
qed

lemma validateValue_longest:
  assumes "validateValue buf v = (r, v')"
  shows "(case r of
      Some val \<Rightarrow> (\<exists>rest. CString buf = val @ rest) \<and> utf8_Valid val \<and>
        (\<forall>p q. CString buf = p @ q \<and> utf8_Valid p \<longrightarrow> length p \<le> length val)
    | None \<Rightarrow> CString buf \<noteq> [] \<and> (\<forall>p q. CString buf = p @ q \<and> utf8_Valid p \<longrightarrow> p = []))"
proof -
  let ?b = "CString buf"
  have longest: "length p \<le> valid_prefix ?b" if "?b = p @ q" "utf8_Valid p" for p q
    using valid_append [of p q] that by simp
  have le: "valid_prefix ?b \<le> length ?b" by (rule valid_prefix_le)
  show ?thesis
  proof (cases "utf8_Valid ?b")
    case True
    then have "r = Some ?b" using assms by (simp add: validateValue_def Let_def)
    then show ?thesis using True by auto
  next
    case False
    show ?thesis
    proof (cases "valid_prefix ?b = 0")
      case True
      then have "r = None" using assms False by (simp add: validateValue_def Let_def)
      moreover have "?b \<noteq> []" using False by (auto simp: utf8_Valid_def valid_prefix.simps)
      ultimately show ?thesis using longest True by fastforce
    next
      case n: False
      then have r: "r = Some (take (valid_prefix ?b) ?b)" using assms False by (simp add: validateValue_def Let_def)
      have "?b = take (valid_prefix ?b) ?b @ drop (valid_prefix ?b) ?b" by simp
      then show ?thesis using r le longest valid_prefix_take [of ?b] by (auto simp del: append_take_drop_id)
    qed
  qed
qed

section \<open>Times\<close>

lemma min_ktime_le:
  "0 <s k \<Longrightarrow> m = 0 \<or> 0 <s m \<Longrightarrow> 0 <s min_ktime m k \<and> min_ktime m k \<le>s k \<and> (m = 0 \<or> min_ktime m k \<le>s m) \<and> min_ktime m k \<in> {k, m}"
  by (auto simp: min_ktime_def word_sless_alt word_sle_eq)

lemma poll_end_until:
  "OUntil k \<in> set (fst (poll_end old m)) \<Longrightarrow> 0 <s k \<and> k \<le>s old \<and> 0 <s old \<and> (\<not> 0 <s m \<or> k \<le>s m)"
  by (auto simp: poll_end_def word_sless_alt word_sle_eq split: if_splits)

section \<open>Batches\<close>

lemma handle_record_compress:
  "handle_record raw t = Some (r, t') \<Longrightarrow> tc_stackCompress t' = tc_stackCompress t"
  by (auto simp: handle_record_def handle_StackIDEvent_def handle_full_def fold_pending_def cache_trace_def add_pending_def loadBpfTrace_def
      Let_def split: if_splits option.splits prod.splits sum.splits)

lemma handle_record_full:
  "handle_record raw t = Some (RFull k x, t') \<Longrightarrow> tc_stackCompress t \<Longrightarrow> parse_StackIDEvent raw = None"
  by (auto simp: handle_record_def Let_def split: option.splits prod.splits)

text \<open>What one record does to a batch.\<close>

lemma read_events_cases:
  assumes "read_events (raw # raws) c b = Some b'"
  obtains (empty) "raw = []" "read_events raws c (b\<lparr>ba_noData := ba_noData b + 1\<rparr>) = Some b'"
  | (cont) ts t where "raw \<noteq> []" "handle_record raw (ba_tracer b) = Some (RContinue ts, t)"
      "read_events raws (c + 1) (b\<lparr>ba_out := ba_out b @ ts, ba_tracer := t\<rparr>) = Some b'"
  | (stop) t where "raw \<noteq> []" "handle_record raw (ba_tracer b) = Some (RStop, t)"
      "b' = b\<lparr>ba_rest := raws, ba_stopped := True, ba_tracer := t\<rparr>"
  | (limit) k x t where "raw \<noteq> []" "handle_record raw (ba_tracer b) = Some (RFull k x, t)" "c + 1 = maxEvents"
      "b' = b\<lparr>ba_out := ba_out b @ [x], ba_minKTime := min_ktime (ba_minKTime b) k, ba_tracer := t, ba_rest := raws\<rparr>"
  | (full) k x t where "raw \<noteq> []" "handle_record raw (ba_tracer b) = Some (RFull k x, t)" "c + 1 \<noteq> maxEvents"
      "read_events raws (c + 1) (b\<lparr>ba_out := ba_out b @ [x], ba_minKTime := min_ktime (ba_minKTime b) k, ba_tracer := t\<rparr>) = Some b'"
  using assms by (auto simp: Let_def split: if_splits option.splits prod.splits recordResult.splits)

lemma read_events_rest:
  assumes "read_events raws c b = Some b'" "\<not> ba_stopped b'" "ba_rest b' \<noteq> []"
  shows "\<exists>pre x. raws = pre @ x # ba_rest b' \<and> c + Suc (length (filter (\<lambda>r. r \<noteq> []) pre)) = maxEvents \<and>
    (tc_stackCompress (ba_tracer b) \<longrightarrow> parse_StackIDEvent x = None)"
  using assms
proof (induction raws arbitrary: c b)
  case (Cons raw raws)
  from Cons.prems(1) show ?case
  proof (cases rule: read_events_cases)
    case empty
    from Cons.IH [OF this(2) Cons.prems(2,3)] obtain pre x where "raws = pre @ x # ba_rest b'"
      "c + Suc (length (filter (\<lambda>r. r \<noteq> []) pre)) = maxEvents" "tc_stackCompress (ba_tracer b) \<longrightarrow> parse_StackIDEvent x = None" by auto
    then show ?thesis using empty by (intro exI [of _ "raw # pre"]) auto
  next
    case (cont ts t)
    from Cons.IH [OF this(3) Cons.prems(2,3)] obtain pre x where "raws = pre @ x # ba_rest b'"
      "c + 1 + Suc (length (filter (\<lambda>r. r \<noteq> []) pre)) = maxEvents" "tc_stackCompress t \<longrightarrow> parse_StackIDEvent x = None" by auto
    then show ?thesis using cont handle_record_compress [OF cont(2)] by (intro exI [of _ "raw # pre"]) auto
  next
    case (full k x t)
    from Cons.IH [OF this(4) Cons.prems(2,3)] obtain pre y where "raws = pre @ y # ba_rest b'"
      "c + 1 + Suc (length (filter (\<lambda>r. r \<noteq> []) pre)) = maxEvents" "tc_stackCompress t \<longrightarrow> parse_StackIDEvent y = None" by auto
    then show ?thesis using full handle_record_compress [OF full(2)] by (intro exI [of _ "raw # pre"]) auto
  next
    case (limit k x t)
    then show ?thesis using handle_record_full [OF limit(2)] by (intro exI [of _ "[]"] exI [of _ raw]) auto
  qed (use Cons.prems in auto)
qed auto

lemma poll_stepE:
  assumes "poll_step raws old t = Some (outs, True, old', rest, t')"
  obtains b where "read_events raws 0 \<lparr>ba_rest = [], ba_out = [], ba_minKTime = 0, ba_stopped = False, ba_noData = 0, ba_tracer = t\<rparr> = Some b"
    "\<not> ba_stopped b" "outs = map OTrace (ba_out b) @ fst (poll_end old (ba_minKTime b))" "old' = snd (poll_end old (ba_minKTime b))"
    "rest = ba_rest b" "t' = ba_tracer b"
proof -
  let ?b = "\<lparr>ba_rest = [], ba_out = [], ba_minKTime = 0, ba_stopped = False, ba_noData = 0, ba_tracer = t\<rparr>"
  obtain b where b: "read_events raws 0 ?b = Some b" using assms by (auto simp: poll_step_def)
  have "\<not> ba_stopped b" using assms b by (auto simp: poll_step_def)
  moreover obtain os ol where "poll_end old (ba_minKTime b) = (os, ol)" by fastforce
  ultimately show ?thesis using that [OF b] assms b by (simp add: poll_step_def)
qed

text \<open>
  A round of the event loop leaves records in the ring buffer only when it has read exactly the maximal number
  of records and the last of them is not a compact event: behind a compact event the limit is not tested,
  and a round that reaches it there reads on until the ring buffer is empty.
\<close>

theorem batch_limit:
  assumes "poll_step raws old t = Some (outs, True, old', rest, t')" "rest \<noteq> []"
  shows "\<exists>pre x. raws = pre @ x # rest \<and> Suc (length (filter (\<lambda>r. r \<noteq> []) pre)) = maxEvents \<and>
    (tc_stackCompress t \<longrightarrow> parse_StackIDEvent x = None)"
  using assms(1)
proof (rule poll_stepE)
  fix b assume "read_events raws 0 \<lparr>ba_rest = [], ba_out = [], ba_minKTime = 0, ba_stopped = False, ba_noData = 0, ba_tracer = t\<rparr> = Some b"
    "\<not> ba_stopped b" and r: "rest = ba_rest b"
  from read_events_rest [OF this(1,2)] assms(2) r show ?thesis by simp
qed

text \<open>A full trace of zero bytes, for the samples below.\<close>

definition zero_record :: "byte list" where "zero_record = replicate 744 0"

definition sample_tracer :: "unit Tracer" where
  "sample_tracer = \<lparr>tc_stackCompress = False, tc_pendingStackCounts = Map.empty, tc_stackCache = [], tc_totalRingbufBytes = 0,
     tc_customLabels = \<lparr>cl_droppedInvalidName = 0, cl_droppedInvalidValue = 0\<rparr>,
     tc_origins = \<lparr>or_lastID = 0, or_types = [0 \<mapsto> ()]\<rparr>, tc_targetPID = 0\<rparr>"

lemma raw_word_zero [simp]: "raw_word off n zero_record = 0"
  by (simp add: raw_word_def zero_record_def field_def)

lemma zero_record_full:
  assumes "\<not> tc_stackCompress t" "or_types (tc_origins t) 0 \<noteq> None"
  shows "\<exists>x. handle_record zero_record t = Some (RFull 0 x, t\<lparr>tc_totalRingbufBytes := tc_totalRingbufBytes t + 744\<rparr>)"
proof -
  have "length zero_record = 744" by (simp add: zero_record_def)
  then show ?thesis using assms
    by (auto simp: handle_record_def loadBpfTrace_def handle_full_def origin_lookup_def frameListOffs_def Let_def)
qed

lemma zero_records_read:
  assumes "c + n = maxEvents" "0 < n" "\<not> tc_stackCompress (ba_tracer b)" "or_types (tc_origins (ba_tracer b)) 0 \<noteq> None"
  shows "\<exists>b'. read_events (replicate n zero_record @ rest) c b = Some b' \<and> ba_rest b' = rest \<and> ba_stopped b' = ba_stopped b"
  using assms
proof (induction n arbitrary: c b)
  case (Suc n)
  obtain x where x: "handle_record zero_record (ba_tracer b) =
      Some (RFull 0 x, (ba_tracer b)\<lparr>tc_totalRingbufBytes := tc_totalRingbufBytes (ba_tracer b) + 744\<rparr>)"
    using zero_record_full Suc.prems(3,4) by blast
  have ne: "zero_record \<noteq> []" by (simp add: zero_record_def)
  show ?case
  proof (cases "n = 0")
    case False
    then have "c + 1 \<noteq> maxEvents" using Suc.prems(1) by simp
    moreover have "c + 1 + n = maxEvents" "0 < n" using Suc.prems(1) False by simp_all
    note Suc.IH [OF this, of "b\<lparr>ba_out := ba_out b @ [x], ba_minKTime := min_ktime (ba_minKTime b) 0,
        ba_tracer := (ba_tracer b)\<lparr>tc_totalRingbufBytes := tc_totalRingbufBytes (ba_tracer b) + 744\<rparr>\<rparr>"]
    ultimately show ?thesis using x ne Suc.prems(3,4) by (simp add: Let_def)
  qed (use x ne Suc.prems in \<open>auto simp: Let_def\<close>)
qed simp

theorem batch_limit_witness:
  "\<exists>outs old' t'. poll_step (replicate maxEvents zero_record @ [[1]]) 0 sample_tracer = Some (outs, True, old', [[1]], t') \<and>
     (\<exists>pre x. replicate maxEvents zero_record @ [[1]] = pre @ x # [[1]] \<and> Suc (length (filter (\<lambda>r. r \<noteq> []) pre)) = maxEvents)"
proof -
  let ?b = "\<lparr>ba_rest = [], ba_out = [], ba_minKTime = 0, ba_stopped = False, ba_noData = 0, ba_tracer = sample_tracer\<rparr>"
  obtain b' where "read_events (replicate maxEvents zero_record @ [[1]]) 0 ?b = Some b'" "ba_rest b' = [[1]]" "\<not> ba_stopped b'"
    using zero_records_read [of 0 maxEvents ?b "[[1]]"] by (auto simp: sample_tracer_def maxEvents_def)
  then obtain outs old' t' where p: "poll_step (replicate maxEvents zero_record @ [[1]]) 0 sample_tracer = Some (outs, True, old', [[1]], t')"
    by (cases "poll_end 0 (ba_minKTime b')") (auto simp: poll_step_def)
  from batch_limit [OF p] have "\<exists>pre x. replicate maxEvents zero_record @ [[1]] = pre @ x # [[1]] \<and>
      Suc (length (filter (\<lambda>r. r \<noteq> []) pre)) = maxEvents" by blast
  with p show ?thesis by blast
qed

section \<open>Times of a round\<close>

lemma handle_record_uncompressed:
  assumes "\<not> tc_stackCompress t"
  shows "handle_record raw t = Some (RContinue ts, t') \<Longrightarrow> ts = []"
    and "handle_record raw t = Some (RFull k x, t') \<Longrightarrow> k = et_KTime x"
  using assms by (auto simp: handle_record_def handle_full_def loadBpfTrace_def Let_def split: if_splits option.splits prod.splits sum.splits)

definition times_ok :: "'p batch \<Rightarrow> bool" where
  "times_ok b \<longleftrightarrow> (if ba_out b = [] then ba_minKTime b = 0
     else 0 <s ba_minKTime b \<and> (\<forall>x\<in>set (ba_out b). ba_minKTime b \<le>s et_KTime x) \<and> ba_minKTime b \<in> et_KTime ` set (ba_out b))"

lemma times_ok_full:
  assumes "times_ok b" "0 <s et_KTime x"
  shows "times_ok (b\<lparr>ba_out := ba_out b @ [x], ba_minKTime := min_ktime (ba_minKTime b) (et_KTime x), ba_tracer := t\<rparr>)"
proof (cases "ba_out b = []")
  case True
  then show ?thesis using assms by (simp add: times_ok_def min_ktime_def)
next
  case False
  then have m: "0 <s ba_minKTime b" "\<And>y. y \<in> set (ba_out b) \<Longrightarrow> ba_minKTime b \<le>s et_KTime y" "ba_minKTime b \<in> et_KTime ` set (ba_out b)"
    using assms(1) by (auto simp: times_ok_def)
  from min_ktime_le [of "et_KTime x" "ba_minKTime b"] assms(2) m(1)
  have "0 <s min_ktime (ba_minKTime b) (et_KTime x)" "min_ktime (ba_minKTime b) (et_KTime x) \<le>s et_KTime x"
    "min_ktime (ba_minKTime b) (et_KTime x) \<le>s ba_minKTime b" "min_ktime (ba_minKTime b) (et_KTime x) \<in> {et_KTime x, ba_minKTime b}"
    by auto
  then show ?thesis using m unfolding times_ok_def by (auto simp: word_sle_eq intro: order_trans)
qed

lemma read_events_out: "read_events raws c b = Some b' \<Longrightarrow> \<exists>more. ba_out b' = ba_out b @ more"
proof (induction raws arbitrary: c b)
  case (Cons raw raws)
  from Cons.prems show ?case by (cases rule: read_events_cases) (use Cons.IH in fastforce)+
qed auto

lemma read_events_times:
  assumes "read_events raws c b = Some b'" "\<not> tc_stackCompress (ba_tracer b)" "times_ok b" "\<forall>x\<in>set (ba_out b'). 0 <s et_KTime x"
  shows "times_ok b' \<and> set (ba_out b) \<subseteq> set (ba_out b')"
  using assms
proof (induction raws arbitrary: c b)
  case Nil
  then show ?case by (auto simp: times_ok_def)
next
  case (Cons raw raws)
  note u = handle_record_uncompressed [OF Cons.prems(2)]
  from Cons.prems(1) show ?case
  proof (cases rule: read_events_cases)
    case empty
    then show ?thesis using Cons.IH [OF empty(2)] Cons.prems by (simp add: times_ok_def)
  next
    case (cont ts t)
    then show ?thesis using Cons.IH [OF cont(3)] Cons.prems u(1) [OF cont(2)] handle_record_compress [OF cont(2)]
      by (simp add: times_ok_def)
  next
    case (stop t)
    then show ?thesis using Cons.prems by (simp add: times_ok_def)
  next
    case (limit k x t)
    then have "0 <s et_KTime x" using Cons.prems(4) by simp
    from times_ok_full [OF Cons.prems(3) this, of t] show ?thesis using limit u(2) [OF limit(2)] by (auto simp: times_ok_def)
  next
    case (full k x t)
    let ?b = "b\<lparr>ba_out := ba_out b @ [x], ba_minKTime := min_ktime (ba_minKTime b) k, ba_tracer := t\<rparr>"
    have "x \<in> set (ba_out b')" using read_events_out [OF full(4)] by auto
    then have "times_ok ?b" using times_ok_full [OF Cons.prems(3), of x t] Cons.prems(4) u(2) [OF full(2)] by simp
    then show ?thesis using Cons.IH [OF full(4)] Cons.prems handle_record_compress [OF full(2)] by simp
  qed
qed

definition traces :: "goOutput list \<Rightarrow> EbpfTrace list" where
  "traces outs = concat (map (\<lambda>o'. case o' of OTrace x \<Rightarrow> [x] | _ \<Rightarrow> []) outs)"

lemma traces_append [simp]: "traces (xs @ ys) = traces xs @ traces ys" by (simp add: traces_def)
lemma traces_OTrace [simp]: "traces (map OTrace xs) = xs" by (induction xs) (simp_all add: traces_def)
lemma traces_poll_end [simp]: "traces (fst (poll_end old m)) = []" by (simp add: poll_end_def traces_def)

text \<open>
  Without compression, the time that is reported as processed at the end of a round is not later than any
  trace of this round and of the round before, and what is kept for the next round is not later than any trace of
  this one.
\<close>

theorem processed_until_bound:
  assumes "\<not> tc_stackCompress t" "poll_step raws old t = Some (outs, True, old', rest, t')"
    and "\<forall>x\<in>set (traces outs). 0 <s et_KTime x" "0 <s old \<longrightarrow> (\<forall>x\<in>set previous. old \<le>s et_KTime x)"
  shows "(\<forall>k. OUntil k \<in> set outs \<longrightarrow> 0 <s k \<and> (\<forall>x\<in>set (previous @ traces outs). k \<le>s et_KTime x)) \<and>
    (0 <s old' \<longrightarrow> (\<forall>x\<in>set (traces outs). old' \<le>s et_KTime x))"
  using assms(2)
proof (rule poll_stepE)
  fix b
  let ?b = "\<lparr>ba_rest = [], ba_out = [], ba_minKTime = 0, ba_stopped = False, ba_noData = 0, ba_tracer = t\<rparr>"
  assume b: "read_events raws 0 ?b = Some b" and o: "outs = map OTrace (ba_out b) @ fst (poll_end old (ba_minKTime b))"
    "old' = snd (poll_end old (ba_minKTime b))"
  have tr: "traces outs = ba_out b" using o by simp
  have ok: "times_ok b" using read_events_times [OF b] assms(1,3) tr by (simp add: times_ok_def)
  let ?m = "ba_minKTime b"
  have "OUntil k \<in> set (fst (poll_end old ?m))" if "OUntil k \<in> set outs" for k using that o by auto
  then have "0 <s k \<and> k \<le>s old \<and> 0 <s old \<and> (\<not> 0 <s ?m \<or> k \<le>s ?m)" if "OUntil k \<in> set outs" for k
    using poll_end_until [of k old ?m] that by blast
  moreover have "old' = 0 \<or> old' = ?m" using o(2) by (auto simp: poll_end_def)
  ultimately show ?thesis using ok assms(4) tr unfolding times_ok_def
    by (auto simp: word_sle_eq word_sless_alt split: if_splits intro: order_trans)
qed

text \<open>A full trace at time nine.\<close>

definition timed_record :: "byte list" where "timed_record = replicate 8 0 @ 9 # replicate 735 0"

lemma timed_record_full:
  assumes "\<not> tc_stackCompress t" "or_types (tc_origins t) 0 \<noteq> None"
  shows "\<exists>x. et_KTime x = 9 \<and> handle_record timed_record t = Some (RFull 9 x, t\<lparr>tc_totalRingbufBytes := tc_totalRingbufBytes t + 744\<rparr>)"
proof -
  have f: "raw_word 8 8 timed_record = (9 :: u64)" "raw_word 700 2 timed_record = (0 :: u16)" "raw_word 706 2 timed_record = (0 :: u16)"
    "raw_word 56 4 timed_record = (0 :: u32)" "raw_word 704 2 timed_record = (0 :: u16)"
    by (simp_all add: raw_word_def timed_record_def field_def drop_Cons' take_Cons')
  have "length timed_record = 744" by (simp add: timed_record_def)
  then show ?thesis using assms f
    by (auto simp: handle_record_def loadBpfTrace_def handle_full_def origin_lookup_def frameListOffs_def Let_def)
qed

theorem processed_until_bound_witness:
  "\<exists>outs old' rest t' x. poll_step [timed_record] 5 sample_tracer = Some (outs, True, old', rest, t') \<and> traces outs = [x] \<and>
     OUntil 5 \<in> set outs \<and> 5 \<le>s et_KTime x \<and> old' \<le>s et_KTime x"
proof -
  obtain x where x: "et_KTime x = 9" "handle_record timed_record sample_tracer =
      Some (RFull 9 x, sample_tracer\<lparr>tc_totalRingbufBytes := tc_totalRingbufBytes sample_tracer + 744\<rparr>)"
    using timed_record_full [of sample_tracer] by (auto simp: sample_tracer_def)
  obtain t' where p: "poll_step [timed_record] 5 sample_tracer = Some ([OTrace x, OBarrier, OUntil 5], True, 9, [], t')"
    using x(2) by (simp add: poll_step_def poll_end_def Let_def maxEvents_def min_ktime_def timed_record_def word_sless_alt word_sle_eq)
  have "traces [OTrace x, OBarrier, OUntil 5] = [x]" by (simp add: traces_def)
  moreover have "5 \<le>s et_KTime x \<and> 9 \<le>s et_KTime x"
    using processed_until_bound [OF _ p, of "[]"] x(1) calculation by (simp add: sample_tracer_def word_sless_alt)
  ultimately show ?thesis using p by auto
qed

section \<open>Rounds of compact events\<close>

lemma read_events_compact:
  assumes "tc_stackCompress (ba_tracer b)" "\<forall>raw\<in>set raws. parse_StackIDEvent raw \<noteq> None"
  shows "\<exists>b'. read_events raws c b = Some b' \<and> ba_minKTime b' = ba_minKTime b \<and> ba_stopped b' = ba_stopped b \<and> ba_rest b' = [] \<and>
    tc_stackCompress (ba_tracer b')"
  using assms
proof (induction raws arbitrary: c b)
  case (Cons raw raws)
  let ?t = "(ba_tracer b)\<lparr>tc_totalRingbufBytes := tc_totalRingbufBytes (ba_tracer b) + word_of_nat (length raw)\<rparr>"
  obtain e where e: "parse_StackIDEvent raw = Some e" using Cons.prems(2) by auto
  obtain ts t where h: "handle_StackIDEvent e ?t = (ts, t)" by fastforce
  have ne: "raw \<noteq> []" using e by (auto simp: parse_StackIDEvent_def StackIDEventSize_def)
  have r: "handle_record raw (ba_tracer b) = Some (RContinue ts, t)" using Cons.prems(1) e h by (simp add: handle_record_def Let_def)
  have "tc_stackCompress t" using handle_record_compress [OF r] Cons.prems(1) by simp
  then show ?case using Cons.IH [of "b\<lparr>ba_out := ba_out b @ ts, ba_tracer := t\<rparr>" "c + 1"] Cons.prems(2) r ne by simp
qed simp

text \<open>
  When every stack is known to the kernel, and all records are compact events, nothing is ever reported as processed,
  for any number of rounds: only full traces count for the time of a round.
\<close>

theorem compact_rounds_never_report:
  assumes "tc_stackCompress t" "\<forall>raws\<in>set rounds. \<forall>raw\<in>set raws. parse_StackIDEvent raw \<noteq> None"
  shows "\<exists>outs t'. poll_loop rounds [] 0 t = Some (outs, t') \<and> (\<forall>k. OUntil k \<notin> set outs)"
  using assms
proof (induction rounds arbitrary: t)
  case (Cons raws rounds)
  let ?b = "\<lparr>ba_rest = [], ba_out = [], ba_minKTime = 0, ba_stopped = False, ba_noData = 0, ba_tracer = t\<rparr>"
  obtain b where "read_events raws 0 ?b = Some b" "ba_minKTime b = 0" "\<not> ba_stopped b" "ba_rest b = []" "tc_stackCompress (ba_tracer b)"
    using read_events_compact [of ?b raws 0] Cons.prems by auto
  then have p: "poll_step raws 0 t = Some (map OTrace (ba_out b), True, 0, [], ba_tracer b)" and c: "tc_stackCompress (ba_tracer b)"
    by (simp_all add: poll_step_def poll_end_def)
  obtain outs t' where "poll_loop rounds [] 0 (ba_tracer b) = Some (outs, t')" "\<forall>k. OUntil k \<notin> set outs"
    using Cons.IH [OF c] Cons.prems(2) by auto
  then show ?case using p by auto
qed simp

definition compact_record :: "byte list" where
  "compact_record = le_bytes StackIDEventMagic @ le_bytes 5 @ le_bytes 7 @ replicate 12 0 @ [1, 0, 0, 0]"

theorem compact_rounds_never_report_witness:
  "\<exists>outs t'. poll_loop [[compact_record], [compact_record]] [] 0 (sample_tracer\<lparr>tc_stackCompress := True\<rparr>) = Some (outs, t') \<and>
     (\<forall>k. OUntil k \<notin> set outs)"
proof -
  have "parse_StackIDEvent compact_record \<noteq> None"
    by (simp add: parse_StackIDEvent_def StackIDEventSize_def compact_record_def raw_word_def field_def le_bytes_list StackIDEventMagic_def)
  then show ?thesis
    using compact_rounds_never_report [of "sample_tracer\<lparr>tc_stackCompress := True\<rparr>" "[[compact_record], [compact_record]]"] by simp
qed

section \<open>Compression\<close>

lemma sint_below: "unat w < 2 ^ 63 \<Longrightarrow> nat (sint w) = unat w" for w :: int64
proof -
  assume "unat w < 2 ^ 63"
  then have "int (unat w) < int (2 ^ 63)" by (simp only: of_nat_less_iff)
  then have "uint w < 2 ^ 63" by simp
  then have "signed_take_bit 63 (uint w) = uint w"
    by (intro signed_take_bit_int_eq_self order_trans [OF _ uint_ge_0]) auto
  then have "sint w = uint w" by (simp add: sint_uint)
  then show ?thesis by (simp only: nat_uint_eq)
qed

lemma positive_below: "unat w < 2 ^ 63 \<Longrightarrow> 0 <s w \<longleftrightarrow> w \<noteq> 0" for w :: int64
proof -
  assume "unat w < 2 ^ 63"
  then have "0 <s w \<longleftrightarrow> unat w \<noteq> 0" using sint_below [of w] by (simp add: word_sless_alt flip: zero_less_nat_eq)
  then show ?thesis by (simp add: unat_eq_0)
qed

text \<open>The event loop on decoded messages.\<close>

fun receive_all :: "message list \<Rightarrow> 'p Tracer \<Rightarrow> (EbpfTrace list \<times> 'p Tracer) option" where
  "receive_all [] t = Some ([], t)"
| "receive_all (MFull x # ms) t =
     (case handle_full x t of
        None \<Rightarrow> None
      | Some (x, t) \<Rightarrow> map_option (\<lambda>(xs, t). (x # xs, t)) (receive_all ms t))"
| "receive_all (MStackID e # ms) t =
     (let (ys, t) = handle_StackIDEvent e t in map_option (\<lambda>(xs, t). (ys @ xs, t)) (receive_all ms t))"

text \<open>What a sample says of user code: when, where and in which user frames.\<close>

definition user_words :: "EbpfTrace \<Rightarrow> u64 list" where
  "user_words x = drop (unat (et_NumKernelFrames x)) (et_FrameData x)"

definition sample_of :: "EbpfTrace \<Rightarrow> int64 \<times> PID \<times> PID \<times> u64 list" where
  "sample_of x = (et_KTime x, et_PID x, et_TID x, user_words x)"

text \<open>
  The samples of a ring that can be expanded: full traces, and compact events of stacks that are known or come behind a full trace;
  the compact events of a stack with no full trace in the ring, which can only be counted.
\<close>

fun delivered :: "u64 set \<Rightarrow> (EbpfTrace \<times> message) list \<Rightarrow> EbpfTrace list" where
  "delivered known [] = []"
| "delivered known ((x, m) # ring) =
     (case m of
        MFull _ \<Rightarrow> x # delivered (insert (user_fp x) known) ring
      | MStackID _ \<Rightarrow> (if user_fp x \<in> known then [x] else []) @ delivered known ring)"

definition is_full :: "u64 \<Rightarrow> EbpfTrace \<times> message \<Rightarrow> bool" where
  "is_full fp r \<longleftrightarrow> user_fp (fst r) = fp \<and> (case snd r of MFull _ \<Rightarrow> True | MStackID _ \<Rightarrow> False)"

lemma is_full_pair [simp]: "is_full fp (x, MFull y) \<longleftrightarrow> user_fp x = fp" "\<not> is_full fp (x, MStackID e)"
  by (simp_all add: is_full_def)

definition waiting :: "u64 \<Rightarrow> (EbpfTrace \<times> message) list \<Rightarrow> nat" where
  "waiting fp ring = (if list_ex (is_full fp) ring then 0 else length (filter (\<lambda>r. user_fp (fst r) = fp) ring))"

text \<open>The records that the kernel makes of the samples of a set, and the cache that the event loop makes of them.\<close>

definition record_ok :: "EbpfTrace set \<Rightarrow> EbpfTrace \<times> message \<Rightarrow> bool" where
  "record_ok S r \<longleftrightarrow> fst r \<in> S \<and> (snd r = MFull (fst r) \<or> snd r = MStackID (stack_id_event (fst r)))"

lemma record_ok_pair [simp]: "record_ok S (x, MFull x) \<longleftrightarrow> x \<in> S" "record_ok S (x, MStackID (stack_id_event x)) \<longleftrightarrow> x \<in> S"
  by (simp_all add: record_ok_def)

definition samples_ok :: "EbpfTrace set \<Rightarrow> bool" where
  "samples_ok S \<longleftrightarrow> finite S \<and> card (user_fp ` S) < 2 ^ 16 \<and> (\<forall>x\<in>S. unat (et_NumKernelFrames x) \<le> length (et_FrameData x)) \<and>
     (\<forall>x\<in>S. \<forall>y\<in>S. user_fp x = user_fp y \<longrightarrow> user_words x = user_words y)"

definition cache_inv :: "EbpfTrace set \<Rightarrow> 'p Tracer \<Rightarrow> bool" where
  "cache_inv S t \<longleftrightarrow> tc_stackCompress t \<and> distinct (map fst (tc_stackCache t)) \<and>
     (\<forall>fp c. map_of (tc_stackCache t) fp = Some c \<longrightarrow> user_fp c = fp \<and> (\<exists>x\<in>S. user_words c = user_words x))"

lemma user_fp_words: "user_words x = user_words y \<Longrightarrow> user_fp x = user_fp y"
  by (simp add: user_fp_def user_words_def)

lemma key_map_of: "k \<in> fst ` set al \<Longrightarrow> \<exists>v. map_of al k = Some v"
  by (metis dom_map_of_conv_image_fst domD)

lemma cache_inv_small:
  assumes "cache_inv S t" "samples_ok S"
  shows "length (tc_stackCache t) < 2 ^ 16"
proof -
  have "length (tc_stackCache t) = card (set (map fst (tc_stackCache t)))"
    using assms(1) by (simp add: cache_inv_def distinct_card del: set_map)
  also have "\<dots> \<le> card (user_fp ` S)"
  proof (intro card_mono subsetI)
    fix fp assume "fp \<in> set (map fst (tc_stackCache t))"
    then obtain c where "map_of (tc_stackCache t) fp = Some c" using key_map_of by fastforce
    then obtain x where "x \<in> S" "user_words c = user_words x" "user_fp c = fp" using assms(1) unfolding cache_inv_def by blast
    then show "fp \<in> user_fp ` S" using user_fp_words by blast
  qed (use assms(2) in \<open>simp add: samples_ok_def\<close>)
  finally show ?thesis using assms(2) by (simp add: samples_ok_def)
qed

text \<open>A full trace is sent on, it makes its stack known, and takes the counts that wait for it.\<close>

lemma handle_full_sample:
  assumes "cache_inv S t" "samples_ok S" "x \<in> S" "unat (pending_count t (user_fp x)) < 2 ^ 63"
  shows "\<exists>y t'. handle_full x t = Some (y, t') \<and> sample_of y = sample_of x \<and> cache_inv S t' \<and>
    fst ` set (tc_stackCache t') = insert (user_fp x) (fst ` set (tc_stackCache t)) \<and>
    (\<forall>fp. pending_count t' fp = (if fp = user_fp x then 0 else pending_count t fp))"
proof -
  let ?fp = "user_fp x"
  obtain y t1 where f: "fold_pending ?fp x t = (y, t1)" by fastforce
  have y: "sample_of y = sample_of x" "user_words y = user_words x"
    using f by (auto simp: fold_pending_def Let_def sample_of_def user_words_def split: if_splits)
  have t1: "tc_stackCache t1 = tc_stackCache t" "tc_stackCompress t1 = tc_stackCompress t"
    using f by (auto simp: fold_pending_def Let_def split: if_splits)
  have p: "pending_count t1 fp = (if fp = ?fp then 0 else pending_count t fp)" for fp
    using f positive_below [OF assms(4)] by (auto simp: fold_pending_def Let_def pending_count_def split: if_splits option.splits)
  let ?t' = "t1\<lparr>tc_stackCache := AList.update ?fp y (tc_stackCache t)\<rparr>"
  have "unat (et_NumKernelFrames x) \<le> length (et_FrameData x)" using assms(2,3) by (simp add: samples_ok_def)
  then have "Fingerprint (et_FrameData x) (unat (et_NumKernelFrames x)) = Some ?fp" by (simp add: Fingerprint_def user_fp_def)
  then have "handle_full x t = Some (y, ?t')"
    using assms(1) f t1 cache_inv_small [OF assms(1,2)] by (simp add: handle_full_def cache_trace_def cache_inv_def)
  moreover have "cache_inv S ?t'"
    using assms(1,3) t1 y(2) user_fp_words [OF y(2)] by (auto simp: cache_inv_def distinct_update update_conv')
  moreover have "fst ` set (tc_stackCache ?t') = insert ?fp (fst ` set (tc_stackCache t))"
    by (simp add: dom_map_of_conv_image_fst [symmetric] update_conv')
  moreover have "pending_count ?t' fp = pending_count t1 fp" for fp by (simp add: pending_count_def)
  ultimately show ?thesis using y(1) p by auto
qed

text \<open>A compact event of a known stack becomes its sample, any other is counted.\<close>

lemma handle_StackIDEvent_known:
  assumes "cache_inv S t" "samples_ok S" "x \<in> S" "user_fp x \<in> fst ` set (tc_stackCache t)"
  shows "\<exists>y. handle_StackIDEvent (stack_id_event x) t = ([y], t) \<and> sample_of y = sample_of x"
proof -
  from key_map_of [OF assms(4)] obtain c where c: "map_of (tc_stackCache t) (user_fp x) = Some c" by blast
  then obtain z where z: "z \<in> S" "user_words c = user_words z" "user_fp c = user_fp x" using assms(1) unfolding cache_inv_def by blast
  moreover have "\<forall>x\<in>S. \<forall>y\<in>S. user_fp x = user_fp y \<longrightarrow> user_words x = user_words y" using assms(2) unfolding samples_ok_def by blast
  ultimately have "user_words z = user_words x" using assms(3) user_fp_words [OF z(2)] by metis
  then show ?thesis using c z(2) by (simp add: handle_StackIDEvent_def stack_id_event_def sample_of_def user_words_def)
qed

lemma handle_StackIDEvent_unknown:
  assumes "cache_inv S t" "user_fp x \<notin> fst ` set (tc_stackCache t)" "unat (pending_count t (user_fp x)) < 2 ^ 63"
  shows "\<exists>t'. handle_StackIDEvent (stack_id_event x) t = ([], t') \<and> cache_inv S t' \<and> tc_stackCache t' = tc_stackCache t \<and>
    (\<forall>fp. unat (pending_count t' fp) = unat (pending_count t fp) + (if fp = user_fp x then 1 else 0))"
proof -
  have "map_of (tc_stackCache t) (user_fp x) = None" using assms(2) by (simp add: map_of_eq_None_iff)
  moreover have "unat (pending_count t (user_fp x) + 1) = unat (pending_count t (user_fp x)) + 1"
    using assms(3) by (simp add: unat_add_no_wrap)
  ultimately show ?thesis using assms(1)
    by (auto simp: handle_StackIDEvent_def stack_id_event_def add_pending_def cache_inv_def pending_count_def)
qed

lemma waiting_Cons:
  "waiting fp (r # ring) = (if is_full fp r then 0 else if list_ex (is_full fp) ring then 0 else (if user_fp (fst r) = fp then 1 else 0) + waiting fp ring)"
  by (simp add: waiting_def)

lemma receive_ring:
  assumes "samples_ok S"
  shows "cache_inv S t \<Longrightarrow> list_all (record_ok S) ring \<Longrightarrow> \<forall>fp. unat (pending_count t fp) + length ring < 2 ^ 63 \<Longrightarrow>
    \<exists>ys t'. receive_all (map snd ring) t = Some (ys, t') \<and>
      map sample_of ys = map sample_of (delivered (fst ` set (tc_stackCache t)) ring) \<and>
      (\<forall>fp. unat (pending_count t' fp) = (if list_ex (is_full fp) ring then 0
         else unat (pending_count t fp) + (if fp \<in> fst ` set (tc_stackCache t) then 0 else waiting fp ring)))"
proof (induction ring arbitrary: t)
  case Nil
  then show ?case by (simp add: waiting_def)
next
  case (Cons r ring)
  obtain x m where r: "r = (x, m)" by fastforce
  have x: "x \<in> S" and m: "m = MFull x \<or> m = MStackID (stack_id_event x)" using Cons.prems(2) r by (simp_all add: record_ok_def)
  have ok: "list_all (record_ok S) ring" using Cons.prems(2) by simp
  have p: "unat (pending_count t fp) < 2 ^ 63" for fp using Cons.prems(3) [rule_format, of fp] by simp
  define K where "K = fst ` set (tc_stackCache t)"
  consider (full) "m = MFull x" | (known) "m = MStackID (stack_id_event x)" "user_fp x \<in> fst ` set (tc_stackCache t)"
    | (unknown) "m = MStackID (stack_id_event x)" "user_fp x \<notin> fst ` set (tc_stackCache t)" using m by blast
  then show ?case
  proof cases
    case full
    from handle_full_sample [OF Cons.prems(1) assms x p] obtain y t1 where t1: "handle_full x t = Some (y, t1)" "sample_of y = sample_of x"
      "cache_inv S t1" "fst ` set (tc_stackCache t1) = insert (user_fp x) (fst ` set (tc_stackCache t))"
      "\<And>fp. pending_count t1 fp = (if fp = user_fp x then 0 else pending_count t fp)" by auto
    have "\<forall>fp. unat (pending_count t1 fp) + length ring < 2 ^ 63"
    proof
      fix fp show "unat (pending_count t1 fp) + length ring < 2 ^ 63" using Cons.prems(3) [rule_format, of fp] t1(5) by simp
    qed
    from Cons.IH [OF t1(3) ok this] obtain ys t' where "receive_all (map snd ring) t1 = Some (ys, t')"
      "map sample_of ys = map sample_of (delivered (insert (user_fp x) (fst ` set (tc_stackCache t))) ring)"
      "\<And>fp. unat (pending_count t' fp) = (if list_ex (is_full fp) ring then 0
         else unat (pending_count t1 fp) + (if fp \<in> insert (user_fp x) (fst ` set (tc_stackCache t)) then 0 else waiting fp ring))"
      unfolding t1(4) by auto
    then show ?thesis using full r t1(1,2,5) by (auto simp: waiting_Cons)
  next
    case known
    from handle_StackIDEvent_known [OF Cons.prems(1) assms x known(2)] obtain y where
      y: "handle_StackIDEvent (stack_id_event x) t = ([y], t)" "sample_of y = sample_of x" by auto
    have "\<forall>fp. unat (pending_count t fp) + length ring < 2 ^ 63" using Cons.prems(3) by (auto dest: spec intro: Suc_lessD)
    from Cons.IH [OF Cons.prems(1) ok this] known r y show ?thesis unfolding K_def [symmetric] by (auto simp: waiting_Cons)
  next
    case unknown
    from handle_StackIDEvent_unknown [OF Cons.prems(1) unknown(2) p] obtain t1 where
      t1: "handle_StackIDEvent (stack_id_event x) t = ([], t1)" "cache_inv S t1" "tc_stackCache t1 = tc_stackCache t"
      "\<And>fp. unat (pending_count t1 fp) = unat (pending_count t fp) + (if fp = user_fp x then 1 else 0)" by auto
    have "\<forall>fp. unat (pending_count t1 fp) + length ring < 2 ^ 63"
    proof
      fix fp show "unat (pending_count t1 fp) + length ring < 2 ^ 63" using Cons.prems(3) [rule_format, of fp] t1(4) [of fp] by (simp split: if_splits)
    qed
    from Cons.IH [OF t1(2) ok this] unknown r t1 show ?thesis unfolding t1(3) K_def [symmetric] by (auto simp: waiting_Cons)
  qed
qed

text \<open>What the kernel writes are records of its samples.\<close>

definition samples :: "kernelEvent list \<Rightarrow> EbpfTrace set" where
  "samples evs = {x. \<exists>cpu evicted registered. KLookup cpu evicted registered x \<in> set evs}"

definition kernel_inv :: "EbpfTrace set \<Rightarrow> kernelState \<Rightarrow> bool" where
  "kernel_inv S s \<longleftrightarrow> list_all (record_ok S) (ks_ring s) \<and> (\<forall>cpu r. ks_cpu s cpu = Some r \<longrightarrow> record_ok S r)"

lemma kernel_step_inv:
  "kernel_step e s = Some s' \<Longrightarrow> samples [e] \<subseteq> S \<Longrightarrow> kernel_inv S s \<Longrightarrow> kernel_inv S s' \<and> length (ks_ring s') \<le> Suc (length (ks_ring s))"
  by (auto simp: kernel_step_def kernel_inv_def samples_def stack_compress_try_send_def split: kernelEvent.splits option.splits if_splits)

lemma kernel_steps_inv:
  "kernel_steps evs s = Some s' \<Longrightarrow> samples evs \<subseteq> S \<Longrightarrow> kernel_inv S s \<Longrightarrow> kernel_inv S s' \<and> length (ks_ring s') \<le> length (ks_ring s) + length evs"
proof (induction evs arbitrary: s)
  case (Cons e evs)
  then obtain s1 where s1: "kernel_step e s = Some s1" "kernel_steps evs s1 = Some s'" by (auto split: option.splits)
  have "samples [e] \<subseteq> S" "samples evs \<subseteq> S" using Cons.prems(2) by (auto simp: samples_def)
  then show ?case using kernel_step_inv [OF s1(1) _ Cons.prems(3)] Cons.IH [OF s1(2)] by force
qed simp

text \<open>A kernel in which every output succeeds and follows its lookup at once.\<close>

definition prompt :: "(nat \<times> u64 set \<times> bool \<times> EbpfTrace) list \<Rightarrow> kernelEvent list" where
  "prompt xs = concat (map (\<lambda>(cpu, evicted, registered, x). [KLookup cpu evicted registered x, KOutput cpu True]) xs)"

definition sampled :: "nat \<times> u64 set \<times> bool \<times> EbpfTrace \<Rightarrow> EbpfTrace" where
  "sampled e = snd (snd (snd e))"

lemma delivered_append:
  "delivered known (ring @ [(x, m)]) = delivered known ring @
     (if m = MFull x \<or> user_fp x \<in> known \<or> list_ex (is_full (user_fp x)) ring then [x] else if (\<exists>e. m = MStackID e) then [] else [x])"
  by (induction known ring rule: delivered.induct) (auto split: message.split)

lemma prompt_delivered:
  assumes "kernel_steps (prompt xs) s = Some s'" "ks_cpu s = Map.empty" "\<forall>fp\<in>ks_dict s. list_ex (is_full fp) (ks_ring s)"
    "delivered {} (ks_ring s) = map fst (ks_ring s)"
  shows "delivered {} (ks_ring s') = map fst (ks_ring s) @ map sampled xs"
  using assms
proof (induction xs arbitrary: s)
  case (Cons e xs)
  obtain cpu evicted registered x where e: "e = (cpu, evicted, registered, x)" by (cases e)
  let ?m = "if user_fp x \<in> ks_dict s - evicted then MStackID (stack_id_event x) else MFull x"
  let ?d = "if user_fp x \<in> ks_dict s - evicted \<or> \<not> registered then ks_dict s - evicted else insert (user_fp x) (ks_dict s - evicted)"
  let ?s = "s\<lparr>ks_dict := ?d, ks_cpu := Map.empty, ks_ring := ks_ring s @ [(x, ?m)]\<rparr>"
  have "kernel_steps (prompt xs) ?s = Some s'"
    using Cons.prems(1,2) e by (auto simp: prompt_def kernel_step_def stack_compress_try_send_def split: if_splits)
  moreover have "\<forall>fp\<in>ks_dict ?s. list_ex (is_full fp) (ks_ring ?s)" using Cons.prems(3) by auto
  moreover have "delivered {} (ks_ring ?s) = map fst (ks_ring ?s)" using Cons.prems(3,4) by (auto simp: delivered_append)
  ultimately have "delivered {} (ks_ring s') = map fst (ks_ring ?s) @ map sampled xs" using Cons.prems(2) by (intro Cons.IH) simp_all
  then show ?case using e by (simp add: sampled_def)
qed (simp add: prompt_def)


definition sample_trace :: "int64 \<Rightarrow> PID \<Rightarrow> EbpfTrace" where
  "sample_trace k pid = \<lparr>et_CustomLabels = [], et_Comm = [], et_FrameData = [0xffffffff81000000, 1, 2], et_Value = 1, et_KTime = k, et_CpuID = 0,
     et_TID = pid, et_PID = pid, et_NumFrames = 2, et_NumKernelFrames = 1, et_Origin = 1, et_APMTraceID = [], et_APMTransactionID = []\<rparr>"

lemma sample_trace_ok: "samples_ok (case_prod sample_trace ` {(5, 1), (6, 2), (7, 2)})"
  by (simp add: samples_ok_def user_words_def user_fp_def sample_trace_def card_insert_if)

text \<open>
  Two CPUs have the same stack: the first registers it, the second is faster with its compact event. The event waits until
  the full trace comes; the third sample is delivered.
\<close>

definition racing_cpus :: "kernelEvent list" where
  "racing_cpus = [KLookup 0 {} True (sample_trace 5 1), KLookup 1 {} True (sample_trace 6 2), KOutput 1 True, KOutput 0 True,
     KLookup 1 {} True (sample_trace 7 2), KOutput 1 True]"


text \<open>
  A count that waited for its full trace is not only added to that trace: the trace is cached with it, and every
  clone that is made of it later carries the count again.
\<close>

theorem pending_counted_again:
  assumes "tc_stackCompress t" "map_of (tc_stackCache t) fp = None" "tc_pendingStackCounts t fp = None" "length (tc_stackCache t) < 2 ^ 16"
    and "unat (et_NumKernelFrames x) \<le> length (et_FrameData x)" "user_fp x = fp" "si_fp e = fp" "si_fp e' = fp" "0 < si_count e" "si_count e' = 1"
  shows "\<exists>y y' t'. receive_all [MStackID e, MFull x, MStackID e'] t = Some ([y, y'], t') \<and>
    et_Value y = et_Value x + ucast (si_count e) \<and> et_Value y' = et_Value x + ucast (si_count e)"
proof -
  let ?n = "ucast (si_count e) :: int64" and ?t1 = "t\<lparr>tc_pendingStackCounts := (tc_pendingStackCounts t)(fp \<mapsto> ucast (si_count e))\<rparr>"
  let ?y = "x\<lparr>et_Value := et_Value x + ?n\<rparr>"
  let ?t2 = "t\<lparr>tc_pendingStackCounts := tc_pendingStackCounts t, tc_stackCache := AList.update fp ?y (tc_stackCache t)\<rparr>"
  have "unat ?n = unat (si_count e)" by (simp add: unsigned_ucast_eq take_bit_nat_eq_self order_less_le_trans [OF unsigned_less])
  moreover have "unat (si_count e) < 2 ^ 32" using unsigned_less [of "si_count e", where 'a = nat] by simp
  moreover have "0 < unat (si_count e)" using assms(9) by (simp add: word_less_nat_alt)
  ultimately have n: "0 <s ?n" using sint_below [of ?n] by (simp add: word_sless_alt flip: zero_less_nat_eq)
  have f: "(tc_pendingStackCounts t)(fp := None) = tc_pendingStackCounts t" using assms(3) by auto
  have "handle_StackIDEvent e t = ([], ?t1)"
    using assms by (simp add: handle_StackIDEvent_def add_pending_def pending_count_def)
  moreover have "handle_full x ?t1 = Some (?y, ?t2)"
    using assms n f by (simp add: handle_full_def Fingerprint_def user_fp_def fold_pending_def pending_count_def cache_trace_def Let_def)
  ultimately show ?thesis using assms(8,10) by (simp add: handle_StackIDEvent_def update_conv')
qed

theorem pending_counted_again_witness:
  "let x = sample_trace 5 1; e = \<lparr>si_ktime = 4, si_fp = user_fp x, si_pid = 1, si_tid = 1, si_count = 3\<rparr>
   in \<exists>y y' t'. receive_all [MStackID e, MFull x, MStackID (e\<lparr>si_count := 1\<rparr>)] (sample_tracer\<lparr>tc_stackCompress := True\<rparr>) = Some ([y, y'], t') \<and>
        et_Value y = 4 \<and> et_Value y' = 4"
proof -
  let ?x = "sample_trace 5 1" and ?t = "sample_tracer\<lparr>tc_stackCompress := True\<rparr>"
  let ?e = "\<lparr>si_ktime = 4, si_fp = user_fp ?x, si_pid = 1, si_tid = 1, si_count = 3\<rparr>"
  have v: "et_Value ?x = 1" "unat (et_NumKernelFrames ?x) \<le> length (et_FrameData ?x)" by (simp_all add: sample_trace_def)
  have "\<exists>y y' t'. receive_all [MStackID ?e, MFull ?x, MStackID (?e\<lparr>si_count := 1\<rparr>)] ?t = Some ([y, y'], t') \<and>
      et_Value y = et_Value ?x + ucast (si_count ?e) \<and> et_Value y' = et_Value ?x + ucast (si_count ?e)"
    by (rule pending_counted_again [OF _ _ _ _ v(2) refl]) (simp_all add: sample_tracer_def)
  then show ?thesis by (simp only: Let_def v StackIDEvent.simps) simp
qed

section \<open>Draining the counters\<close>

text \<open>Samples that the kernel has counted or tried to, traces sent for a fingerprint, and counts in the table.\<close>

definition counted :: "u64 \<Rightarrow> drainEvent list \<Rightarrow> nat" where
  "counted fp evs = length (filter (\<lambda>e. case e of KCount f _ _ \<Rightarrow> f = fp | _ \<Rightarrow> False) evs)"

definition sent :: "u64 \<Rightarrow> 'p drainState \<Rightarrow> nat" where
  "sent fp s = length (filter (\<lambda>x. user_fp x = fp) (dr_out s))"

definition in_table :: "u64 \<Rightarrow> 'p drainState \<Rightarrow> nat" where
  "in_table fp s = (case dr_counts s fp of None \<Rightarrow> 0 | Some cs \<Rightarrow> sum_list (map unat cs))"

definition accounted :: "u64 \<Rightarrow> 'p drainState \<Rightarrow> nat" where
  "accounted fp s = sent fp s + unat (pending_count (dr_tracer s) fp) + in_table fp s"

text \<open>
  Samples that a step loses: the kernel cannot count them, or they are counted between the reading of their entry and its
  deletion. Samples that a step sends although they stay in the table. Samples that a full trace takes into its value.
\<close>

definition step_lost :: "u64 \<Rightarrow> drainEvent \<Rightarrow> 'p drainState \<Rightarrow> nat" where
  "step_lost fp e s =
     (case e of
        KCount f _ h \<Rightarrow> if f = fp \<and> h \<in> {HitStale, HitFailed} then 1 else 0
      | DDelete True \<Rightarrow> (case dr_read s of Some (f, n) \<Rightarrow> if f = fp then in_table fp s - unat n else 0 | None \<Rightarrow> 0)
      | _ \<Rightarrow> 0)"

definition step_again :: "u64 \<Rightarrow> drainEvent \<Rightarrow> 'p drainState \<Rightarrow> nat" where
  "step_again fp e s = (case (e, dr_read s) of (DDelete False, Some (f, n)) \<Rightarrow> if f = fp then unat n else 0 | _ \<Rightarrow> 0)"

definition step_folded :: "u64 \<Rightarrow> drainEvent \<Rightarrow> 'p drainState \<Rightarrow> nat" where
  "step_folded fp e s =
     (case e of DFull x \<Rightarrow> if user_fp x = fp \<and> tc_stackCompress (dr_tracer s) then unat (pending_count (dr_tracer s) fp) else 0 | _ \<Rightarrow> 0)"

fun over_run :: "nat \<Rightarrow> (drainEvent \<Rightarrow> 'p drainState \<Rightarrow> nat) \<Rightarrow> drainEvent list \<Rightarrow> 'p drainState \<Rightarrow> nat" where
  "over_run ncpu f [] s = 0"
| "over_run ncpu f (e # es) s = f e s + (case drain_step ncpu e s of None \<Rightarrow> 0 | Some s' \<Rightarrow> over_run ncpu f es s')"

definition drain_inv :: "nat \<Rightarrow> nat \<Rightarrow> 'p drainState \<Rightarrow> bool" where
  "drain_inv ncpu n s \<longleftrightarrow> (\<forall>fp cs. dr_counts s fp = Some cs \<longrightarrow> length cs = ncpu) \<and>
     (\<forall>fp c. map_of (tc_stackCache (dr_tracer s)) fp = Some c \<longrightarrow> user_fp c = fp) \<and>
     (\<forall>f k. dr_read s = Some (f, k) \<longrightarrow> unat k \<le> in_table f s) \<and>
     (\<forall>fp. in_table fp s \<le> n \<and> unat (pending_count (dr_tracer s) fp) \<le> n * n)"

lemma drain_invD:
  assumes "drain_inv ncpu n s"
  shows "dr_counts s fp = Some cs \<Longrightarrow> length cs = ncpu" "map_of (tc_stackCache (dr_tracer s)) fp = Some c \<Longrightarrow> user_fp c = fp"
    "dr_read s = Some (fp, k) \<Longrightarrow> unat k \<le> in_table fp s" "in_table fp s \<le> n" "unat (pending_count (dr_tracer s) fp) \<le> n * n"
  using assms unfolding drain_inv_def by blast+

lemma pending_bound: "k \<le> n * n \<Longrightarrow> n < 2 ^ 31 \<Longrightarrow> k < 2 ^ 62" for k n :: nat
proof -
  assume "k \<le> n * n" "n < 2 ^ 31"
  then have "k \<le> (2 ^ 31 - 1) * (2 ^ 31 - 1)" using mult_le_mono [of n "2 ^ 31 - 1" n "2 ^ 31 - 1"] by simp
  then show ?thesis by simp
qed

lemma unat_total_count: "sum_list (map unat cs) < 2 ^ 64 \<Longrightarrow> unat (total_count cs) = sum_list (map unat cs)"
proof (induction cs)
  case (Cons c cs)
  have "unat (ucast c :: u64) = unat c" by (simp add: unsigned_ucast_eq take_bit_nat_eq_self order_less_le_trans [OF unsigned_less])
  then show ?case using Cons by (simp add: total_count_def unat_add_no_wrap)
qed (simp add: total_count_def)

text \<open>A sample that is counted adds one to its entry, any other leaves the table as it is.\<close>

lemma count_hit_sum:
  assumes "count_hit ncpu fp cpu h m = Some m'" "cpu < ncpu" "\<And>cs. m fp = Some cs \<Longrightarrow> length cs = ncpu \<and> sum_list (map unat cs) < 2 ^ 31"
  shows "(if h \<in> {HitStale, HitFailed} then m' = m
     else \<exists>cs. m' = m(fp \<mapsto> cs) \<and> length cs = ncpu \<and> sum_list (map unat cs) = Suc (case m fp of None \<Rightarrow> 0 | Some cs \<Rightarrow> sum_list (map unat cs)))"
proof (cases h)
  case HitFound
  then obtain cs where cs: "m fp = Some cs" "m' = m(fp \<mapsto> cs[cpu := cs ! cpu + 1])"
    using assms(1) by (auto simp: count_hit_def split: option.splits)
  have "unat (cs ! cpu) \<le> sum_list (map unat cs)" using assms(2,3) cs elem_le_sum_list [of cpu "map unat cs"] by simp
  moreover from this have "unat (cs ! cpu + 1) = Suc (unat (cs ! cpu))" using assms(3) [OF cs(1)] by (intro unat_Suc_no_wrap [of _ "2 ^ 31"]) auto
  ultimately show ?thesis using cs assms HitFound by (auto simp: map_update sum_list_update)
next
  case HitInserted
  have "sum_list (map unat ((replicate ncpu (0 :: u32))[cpu := 1])) = 1"
    using assms(2) by (simp add: map_update sum_list_update)
  then show ?thesis using HitInserted assms(1) by (auto simp: count_hit_def split: option.splits)
qed (use assms(1) in \<open>simp_all add: count_hit_def\<close>)

lemma count_step:
  assumes "drain_step ncpu (KCount f cpu h) s = Some s'" "drain_inv ncpu n s" "n < 2 ^ 31"
  shows "drain_inv ncpu (Suc n) s' \<and> accounted fp s' + step_lost fp (KCount f cpu h) s = accounted fp s + counted fp [KCount f cpu h]"
proof -
  obtain m' where m': "count_hit ncpu f cpu h (dr_counts s) = Some m'" and s': "s' = s\<lparr>dr_counts := m'\<rparr>" and c: "cpu < ncpu"
    using assms(1) by (auto simp: drain_step_def split: if_splits)
  have "length cs = ncpu \<and> sum_list (map unat cs) < 2 ^ 31" if "dr_counts s f = Some cs" for cs
    using drain_invD(1,4) [OF assms(2), of f] that assms(3) by (auto simp: in_table_def)
  note hit = count_hit_sum [OF m' c this]
  let ?k = "if h \<in> {HitStale, HitFailed} then 0 else 1 :: nat"
  have t: "in_table g s' = in_table g s + (if g = f then ?k else 0)" for g
    using hit s' by (auto simp: in_table_def split: if_splits)
  have l: "length cs = ncpu" if "dr_counts s' g = Some cs" for g cs
    using that hit s' drain_invD(1) [OF assms(2), of g cs] by (auto split: if_splits)
  have u: "dr_tracer s' = dr_tracer s" "dr_read s' = dr_read s" "dr_out s' = dr_out s" using s' by simp_all
  have "drain_inv ncpu (Suc n) s'"
    unfolding drain_inv_def u using l drain_invD(2) [OF assms(2)]
  proof (intro conjI allI impI)
    show "unat k \<le> in_table g s'" if "dr_read s = Some (g, k)" for g k using drain_invD(3) [OF assms(2) that] t [of g] by simp
    show "in_table g s' \<le> Suc n" for g using drain_invD(4) [OF assms(2), of g] t [of g] by (simp split: if_splits)
    show "unat (pending_count (dr_tracer s) g) \<le> Suc n * Suc n" for g using drain_invD(5) [OF assms(2), of g] by (simp add: le_SucI)
  qed blast+
  then show ?thesis using t [of fp] u by (simp add: accounted_def sent_def step_lost_def counted_def)
qed

lemma next_step:
  assumes "drain_step ncpu (DNext f) s = Some s'" "drain_inv ncpu n s" "n < 2 ^ 31"
  shows "drain_inv ncpu (Suc n) s' \<and> accounted fp s' = accounted fp s"
proof -
  obtain cs where cs: "dr_read s = None" "dr_counts s f = Some cs"
    "s' = (if total_count cs = 0 then s else s\<lparr>dr_read := Some (f, total_count cs)\<rparr>)"
    using assms(1) by (auto simp: drain_step_def split: option.splits)
  have "in_table f s < 2 ^ 64" using drain_invD(4) [OF assms(2), of f] assms(3) by simp
  then have r: "unat (total_count cs) = in_table f s" using cs(2) unat_total_count [of cs] by (simp add: in_table_def)
  have u: "dr_tracer s' = dr_tracer s" "dr_counts s' = dr_counts s" "dr_out s' = dr_out s" using cs(3) by simp_all
  have t: "in_table g s' = in_table g s" for g by (simp add: in_table_def u)
  have "drain_inv ncpu (Suc n) s'"
    unfolding drain_inv_def u t using drain_invD(1,2) [OF assms(2)]
  proof (intro conjI allI impI)
    show "unat k \<le> in_table g s" if "dr_read s' = Some (g, k)" for g k using that cs(1,3) r by (auto split: if_splits)
    show "in_table g s \<le> Suc n" for g using drain_invD(4) [OF assms(2), of g] by simp
    show "unat (pending_count (dr_tracer s) g) \<le> Suc n * Suc n" for g using drain_invD(5) [OF assms(2), of g] by (simp add: le_SucI)
  qed blast+
  then show ?thesis using u t [of fp] by (simp add: accounted_def sent_def)
qed

text \<open>What was read is sent or waits for the full trace.\<close>

lemma pending_count_add: "pending_count (add_pending f k t) fp = (if fp = f then pending_count t f + k else pending_count t fp)"
  by (simp add: add_pending_def pending_count_def)

lemma emitExpanded_counts:
  assumes "emitExpanded f k t = (ts, t')" "unat (pending_count t f) + unat k < 2 ^ 63" "\<And>c. map_of (tc_stackCache t) f = Some c \<Longrightarrow> user_fp c = f"
  shows "tc_stackCache t' = tc_stackCache t"
    "unat (pending_count t' fp) + length (filter (\<lambda>x. user_fp x = fp) ts) = unat (pending_count t fp) + (if fp = f then unat k else 0)"
proof -
  show "tc_stackCache t' = tc_stackCache t" using assms(1) by (auto simp: emitExpanded_def add_pending_def split: option.splits)
  have "unat (pending_count t f + k) = unat (pending_count t f) + unat k" using assms(2) by (simp add: unat_add_no_wrap)
  moreover have "nat (sint k) = unat k" using assms(2) by (intro sint_below) simp
  ultimately show
    "unat (pending_count t' fp) + length (filter (\<lambda>x. user_fp x = fp) ts) = unat (pending_count t fp) + (if fp = f then unat k else 0)"
    using assms(1,3) by (auto simp: emitExpanded_def pending_count_add filter_replicate split: option.splits)
qed

lemma delete_step:
  assumes "drain_step ncpu (DDelete d) s = Some s'" "drain_inv ncpu n s" "n < 2 ^ 31"
  shows "drain_inv ncpu (Suc n) s' \<and>
    accounted fp s' + step_lost fp (DDelete d) s = accounted fp s + step_again fp (DDelete d) s"
proof -
  obtain f k where r: "dr_read s = Some (f, k)" using assms(1) by (auto simp: drain_step_def split: option.splits)
  obtain ts t where e: "emitExpanded f k (dr_tracer s) = (ts, t)" by fastforce
  have s': "s' = s\<lparr>dr_counts := (if d then (dr_counts s)(f := None) else dr_counts s), dr_read := None, dr_out := dr_out s @ ts, dr_tracer := t\<rparr>"
    using assms(1) r e by (simp add: drain_step_def)
  have k: "unat k \<le> in_table f s" by (rule drain_invD(3) [OF assms(2) r])
  have kn: "unat k \<le> n" using k drain_invD(4) [OF assms(2), of f] by simp
  have b: "unat (pending_count (dr_tracer s) f) + unat k < 2 ^ 63"
    using pending_bound [OF drain_invD(5) [OF assms(2), of f] assms(3)] kn assms(3) by simp
  note em = emitExpanded_counts [OF e b drain_invD(2) [OF assms(2)]]
  have t: "in_table g s' = (if d \<and> g = f then 0 else in_table g s)" for g using s' by (simp add: in_table_def)
  have "drain_inv ncpu (Suc n) s'"
    unfolding drain_inv_def
  proof (intro conjI allI impI)
    show "length cs = ncpu" if "dr_counts s' g = Some cs" for g cs using that s' drain_invD(1) [OF assms(2)] by (simp split: if_splits)
    show "user_fp c = g" if "map_of (tc_stackCache (dr_tracer s')) g = Some c" for g c
      using that s' em(1) drain_invD(2) [OF assms(2)] by simp
    show "unat k' \<le> in_table g s'" if "dr_read s' = Some (g, k')" for g k' using that s' by simp
    show "in_table g s' \<le> Suc n" for g using drain_invD(4) [OF assms(2), of g] t [of g] by simp
    show "unat (pending_count (dr_tracer s') g) \<le> Suc n * Suc n" for g
      using em(2) [of g] drain_invD(5) [OF assms(2), of g] kn s' by (simp split: if_splits)
  qed
  moreover have "sent fp s' = sent fp s + length (filter (\<lambda>x. user_fp x = fp) ts)" using s' by (simp add: sent_def)
  ultimately show ?thesis using em(2) [of fp] t [of fp] s' r k
    by (cases d) (auto simp: accounted_def step_lost_def step_again_def)
qed

text \<open>A full trace takes what waits for it, and leaves the fingerprints of the cache in order.\<close>

lemma handle_full_counts:
  assumes "handle_full x t = Some (y, t')" "unat (pending_count t (user_fp x)) < 2 ^ 63" "\<And>fp c. map_of (tc_stackCache t) fp = Some c \<Longrightarrow> user_fp c = fp"
  shows "map_of (tc_stackCache t') fp = Some c \<Longrightarrow> user_fp c = fp"
    "pending_count t' fp = (if fp = user_fp x \<and> tc_stackCompress t then 0 else pending_count t fp)"
proof -
  have f: "fold_pending (user_fp x) x t = (z, u) \<Longrightarrow> user_fp z = user_fp x \<and> tc_stackCache u = tc_stackCache t \<and>
      pending_count u fp = (if fp = user_fp x then 0 else pending_count t fp)" for z u
    using positive_below [OF assms(2)] by (auto simp: fold_pending_def Let_def user_fp_def pending_count_def split: if_splits option.splits)
  have c: "pending_count (cache_trace g z u) fp = pending_count u fp" for g z and u :: "'a Tracer"
    by (simp add: cache_trace_def pending_count_def)
  have h: "if tc_stackCompress t then \<exists>z u. fold_pending (user_fp x) x t = (z, u) \<and> t' = cache_trace (user_fp x) z u else t' = t"
    using assms(1) by (auto simp: handle_full_def Fingerprint_def user_fp_def split: if_splits prod.splits)
  show "pending_count t' fp = (if fp = user_fp x \<and> tc_stackCompress t then 0 else pending_count t fp)"
    using h f c by (auto split: if_splits)
  show "user_fp c = fp" if m: "map_of (tc_stackCache t') fp = Some c"
  proof (cases "tc_stackCompress t")
    case False
    then show ?thesis using h m assms(3) [of fp c] by simp
  next
    case True
    then obtain z u where z: "fold_pending (user_fp x) x t = (z, u)" "t' = cache_trace (user_fp x) z u" using h by auto
    then show ?thesis using m f [OF z(1)] assms(3) [of fp c]
      by (cases "fp = user_fp x") (auto simp: cache_trace_def update_conv' split: if_splits)
  qed
qed

lemma full_step:
  assumes "drain_step ncpu (DFull x) s = Some s'" "drain_inv ncpu n s" "n < 2 ^ 31"
  shows "drain_inv ncpu (Suc n) s' \<and> accounted fp s' + step_folded fp (DFull x) s = accounted fp s"
proof -
  obtain y t where h: "handle_full x (dr_tracer s) = Some (y, t)" and s': "s' = s\<lparr>dr_tracer := t\<rparr>"
    using assms(1) by (auto simp: drain_step_def)
  have b: "unat (pending_count (dr_tracer s) (user_fp x)) < 2 ^ 63"
    using pending_bound [OF drain_invD(5) [OF assms(2), of "user_fp x"] assms(3)] by simp
  note hf = handle_full_counts [OF h b drain_invD(2) [OF assms(2)]]
  have t: "in_table g s' = in_table g s" for g using s' by (simp add: in_table_def)
  have "drain_inv ncpu (Suc n) s'"
    unfolding drain_inv_def t
  proof (intro conjI allI impI)
    show "length cs = ncpu" if "dr_counts s' g = Some cs" for g cs using that s' drain_invD(1) [OF assms(2)] by simp
    show "user_fp c = g" if "map_of (tc_stackCache (dr_tracer s')) g = Some c" for g c using that s' hf(1) by simp
    show "unat k \<le> in_table g s" if "dr_read s' = Some (g, k)" for g k using that s' drain_invD(3) [OF assms(2)] by simp
    show "in_table g s \<le> Suc n" for g using drain_invD(4) [OF assms(2), of g] by simp
    show "unat (pending_count (dr_tracer s') g) \<le> Suc n * Suc n" for g using hf(2) [of g] drain_invD(5) [OF assms(2), of g] s' by (simp add: le_SucI)
  qed
  then show ?thesis using t [of fp] hf(2) [of fp] s' by (auto simp: accounted_def sent_def step_folded_def)
qed

lemma drain_step_accounted:
  assumes "drain_step ncpu e s = Some s'" "drain_inv ncpu n s" "n < 2 ^ 31"
  shows "drain_inv ncpu (Suc n) s' \<and>
    accounted fp s' + step_lost fp e s + step_folded fp e s = accounted fp s + counted fp [e] + step_again fp e s"
proof (cases e)
  case (KCount f cpu h)
  then show ?thesis using count_step [of ncpu f cpu h s s' n fp] assms by (simp add: step_again_def step_folded_def)
next
  case (DNext f)
  then show ?thesis using next_step [of ncpu f s s' n fp] assms by (simp add: step_again_def step_folded_def step_lost_def counted_def)
next
  case (DDelete d)
  then show ?thesis using delete_step [of ncpu d s s' n fp] assms by (simp add: step_folded_def counted_def)
next
  case (DFull x)
  then show ?thesis using full_step [of ncpu x s s' n fp] assms by (simp add: step_again_def step_lost_def counted_def)
qed

lemma drain_steps_accounted:
  assumes "drain_steps ncpu evs s = Some s'" "drain_inv ncpu n s" "n + length evs < 2 ^ 31"
  shows "accounted fp s' + over_run ncpu (step_lost fp) evs s + over_run ncpu (step_folded fp) evs s =
    accounted fp s + counted fp evs + over_run ncpu (step_again fp) evs s"
  using assms
proof (induction evs arbitrary: s n)
  case (Cons e evs)
  then obtain s1 where s1: "drain_step ncpu e s = Some s1" "drain_steps ncpu evs s1 = Some s'" by (auto split: option.splits)
  from drain_step_accounted [OF s1(1) Cons.prems(2), of fp] Cons.prems(3) have i: "drain_inv ncpu (Suc n) s1" and
    a: "accounted fp s1 + step_lost fp e s + step_folded fp e s = accounted fp s + counted fp [e] + step_again fp e s" by auto
  have "accounted fp s' + over_run ncpu (step_lost fp) evs s1 + over_run ncpu (step_folded fp) evs s1 =
      accounted fp s1 + counted fp evs + over_run ncpu (step_again fp) evs s1"
    using Cons.IH [OF s1(2) i] Cons.prems(3) by simp
  moreover have "counted fp (e # evs) = counted fp [e] + counted fp evs" by (simp add: counted_def)
  ultimately show ?case using s1(1) a by simp
qed (simp add: counted_def)

definition drain_start :: "'p Tracer \<Rightarrow> 'p drainState" where
  "drain_start t = \<lparr>dr_counts = Map.empty, dr_read = None, dr_out = [], dr_tracer = t\<rparr>"


text \<open>
  One sample is counted between reading and deletion, and the deletion fails, so that the two samples read are sent again with the third;
  then another sample is counted too late and is lost.
\<close>

definition racing_events :: "u64 \<Rightarrow> drainEvent list" where
  "racing_events fp = [KCount fp 0 HitInserted, KCount fp 1 HitFound, DNext fp, KCount fp 0 HitFound, DDelete False, DNext fp,
     KCount fp 0 HitFound, DDelete True]"

lemma replicate_few: "replicate 2 y = [y, y]" "replicate 3 y = [y, y, y]"
  by (simp_all add: numeral_eq_Suc)

lemma racing_run:
  assumes "map_of (tc_stackCache t) fp = Some x"
  shows "drain_steps 2 (racing_events fp) (drain_start t) = Some ((drain_start t)\<lparr>dr_out := [x, x, x, x, x]\<rparr>) \<and>
    over_run 2 (step_lost fp) (racing_events fp) (drain_start t) = 1 \<and> over_run 2 (step_again fp) (racing_events fp) (drain_start t) = 2 \<and>
    over_run 2 (step_folded fp) (racing_events fp) (drain_start t) = 0"
proof -
  let ?s = "\<lambda>cs. (drain_start t)\<lparr>dr_counts := [fp \<mapsto> cs]\<rparr>"
  have c: "total_count [1, 1] = 2" "nat (sint (2 :: int64)) = Suc (Suc 0)" "total_count [2, 1] = 3" "nat (sint (3 :: int64)) = Suc (Suc (Suc 0))"
    by (simp_all add: total_count_def)
  have "drain_step 2 (KCount fp 0 HitInserted) (drain_start t) = Some (?s [1, 0])"
    "drain_step 2 (KCount fp 1 HitFound) (?s [1, 0]) = Some (?s [1, 1])"
    "drain_step 2 (DNext fp) (?s [1, 1]) = Some ((?s [1, 1])\<lparr>dr_read := Some (fp, 2)\<rparr>)"
    "drain_step 2 (KCount fp 0 HitFound) ((?s [1, 1])\<lparr>dr_read := Some (fp, 2)\<rparr>) = Some ((?s [2, 1])\<lparr>dr_read := Some (fp, 2)\<rparr>)"
    "drain_step 2 (DDelete False) ((?s [2, 1])\<lparr>dr_read := Some (fp, 2)\<rparr>) = Some ((?s [2, 1])\<lparr>dr_out := [x, x]\<rparr>)"
    "drain_step 2 (DNext fp) ((?s [2, 1])\<lparr>dr_out := [x, x]\<rparr>) = Some ((?s [2, 1])\<lparr>dr_out := [x, x], dr_read := Some (fp, 3)\<rparr>)"
    "drain_step 2 (KCount fp 0 HitFound) ((?s [2, 1])\<lparr>dr_out := [x, x], dr_read := Some (fp, 3)\<rparr>) =
       Some ((?s [3, 1])\<lparr>dr_out := [x, x], dr_read := Some (fp, 3)\<rparr>)"
    "drain_step 2 (DDelete True) ((?s [3, 1])\<lparr>dr_out := [x, x], dr_read := Some (fp, 3)\<rparr>) = Some ((drain_start t)\<lparr>dr_out := [x, x, x, x, x]\<rparr>)"
    using assms c by (simp_all add: replicate_few drain_step_def drain_start_def count_hit_def emitExpanded_def fun_eq_iff)
  then show ?thesis
    by (simp add: racing_events_def step_lost_def step_again_def step_folded_def in_table_def drain_start_def)
qed


end
