(* ===== verification/ElfFile.thy ===== *)
theory ElfFile
  imports BufReader VmRegs
begin

text \<open>
  ELF files (\<open>libpf/pfelf/file.go\<close>, \<open>reference.go\<close>, the memory mapped reader of
  \<open>internal/mmap/mmap.go\<close>, and the strings of \<open>remotememory/remotememory.go\<close>): the headers, the segments and
  sections with their data, and the memory image they describe.

  A file is the list of its bytes; \<open>f_mmapped\<close> says whether it is also mapped, in which case segments and sections
  are read from the mapping. What is read from a file is not trusted: offsets and sizes are words, sums of them wrap
  around, and an index or slice that Go refuses is \<open>None\<close>. So is a slice that reaches behind the mapping.

  The lemmas show which bytes of the file a virtual address stands for, that the mapping and the file give
  the same, and for which headers the accesses panic.
\<close>

unbundle bit_operations_syntax

section \<open>Readers\<close>

type_synonym bstring = "byte list"

definition ascii :: "string \<Rightarrow> bstring" where "ascii s = map (\<lambda>c. word_of_nat (of_char c)) s"

type_synonym readerAt = "nat \<Rightarrow> int \<Rightarrow> byte list \<times> ioerr option"

definition os_ReadAt :: "byte list \<Rightarrow> readerAt" where
  "os_ReadAt data n off =
     (if off < 0 then ([], Some ErrNegativeOffset)
      else let d = take n (drop (nat off) data) in (d, if length d < n then Some EOF else None))"

definition mmap_ReadAt :: "byte list \<Rightarrow> readerAt" where
  "mmap_ReadAt data n off =
     (if off < 0 \<or> int (length data) < off then ([], Some ErrInvalidOffset)
      else let d = take n (drop (nat off) data) in (d, if length d < n then Some EOF else None))"

text \<open>
  \<open>Subslice\<close> of the mapping. The sum of its arguments is an \<open>int\<close>; the element at the offset must exist, and
  the length must not be negative.
\<close>

definition subslice_check :: "byte list \<Rightarrow> int64 \<Rightarrow> int64 \<Rightarrow> bool" where
  "subslice_check data offset len \<longleftrightarrow> \<not> sint (offset + len) > int (length data)"

definition mmap_Subslice :: "byte list \<Rightarrow> int64 \<Rightarrow> int64 \<Rightarrow> (ioerr + byte list) option" where
  "mmap_Subslice data offset len =
     (if \<not> subslice_check data offset len then Some (Inl EOF)
      else if 0 \<le> sint offset \<and> sint offset < int (length data) \<and> 0 \<le> sint len \<and> sint offset + sint len \<le> int (length data)
      then Some (Inr (take (unat len) (drop (unat offset) data)))
      else None)"

section \<open>Headers\<close>

definition le_at :: "nat \<Rightarrow> nat \<Rightarrow> byte list \<Rightarrow> 'a::len word" where
  "le_at n off bs = word_of_nat (le_nat (take n (drop off bs)))"

record Prog =
  ph_Type :: u32
  ph_Flags :: u32
  ph_Off :: u64
  ph_Vaddr :: u64
  ph_Paddr :: u64
  ph_Filesz :: u64
  ph_Memsz :: u64
  ph_Align :: u64

record Section =
  sh_Name :: bstring
  sh_Type :: u32
  sh_Flags :: u64
  sh_Addr :: u64
  sh_Offset :: u64
  sh_Size :: u64
  sh_Link :: u32
  sh_Info :: u32
  sh_Addralign :: u64
  sh_Entsize :: u64
  sh_FileSize :: u64

record gnuHashHeader =
  gh_numBuckets :: u32
  gh_symbolOffset :: u32
  gh_bloomSize :: u32
  gh_bloomShift :: u32

record sysvHashHeader =
  vh_numBuckets :: u32
  vh_numSymbols :: u32

text \<open>
  The errors of the package. \<open>ErrFuel\<close> is no error of the code: it is the value of a fuelled loop of this model whose fuel
  did not suffice.
\<close>

datatype elferr =
    ErrIO ioerr
  | ErrNotELF
  | ErrNoDebugLink
  | ErrNoBuildID
  | ErrNoteNotFound
  | errNoGoBuildinfo
  | errNotProcessed
  | ErrUnsupported
  | ErrNoProgs
  | ErrInsideCore
  | ErrShstrndx
  | ErrSectionName
  | ErrTooLarge
  | ErrNoSegment
  | ErrNoEhFrame
  | ErrCompressed
  | ErrSymbolNotFound
  | ErrHashCorrupt
  | ErrNoHash
  | ErrNoSection
  | ErrLink
  | ErrEntrySize
  | ErrRelocation
  | ErrTag
  | ErrDebugLink
  | ErrPointers
  | ErrUnexpectedEOF
  | ErrVarintOverflow
  | ErrFuel

text \<open>The headers of the hash tables are kept as the bytes that were read into them.\<close>

definition gnu_header :: "byte list \<Rightarrow> gnuHashHeader" where
  "gnu_header b = \<lparr>gh_numBuckets = le_at 4 0 b, gh_symbolOffset = le_at 4 4 b, gh_bloomSize = le_at 4 8 b, gh_bloomShift = le_at 4 12 b\<rparr>"

definition sysv_header :: "byte list \<Rightarrow> sysvHashHeader" where
  "sysv_header b = \<lparr>vh_numBuckets = le_at 4 0 b, vh_numSymbols = le_at 4 4 b\<rparr>"

record elf_File =
  f_data :: "byte list"
  f_mmapped :: bool
  f_loadData :: "Prog list"
  f_ROData :: "Prog list"
  f_Progs :: "Prog list"
  f_Sections :: "Section list option"
  f_neededIndexes :: "int64 list"
  f_soNameIndex :: int64
  f_Shoff :: u64
  f_Shnum :: u16
  f_Shstrndx :: u16
  f_gnuHash_addr :: int64
  f_gnuHash_header :: "byte list"
  f_sysvHash_addr :: int64
  f_sysvHash_header :: "byte list"
  f_stringsAddr :: int64
  f_symbolsAddr :: int64
  f_bias :: u64
  f_InsideCore :: bool
  f_Type :: u16
  f_Machine :: elf_Machine
  f_Entry :: u64
  f_notesError :: "elferr option"
  f_gnuBuildId :: string
  f_goBuildId :: string
  f_golangVersion :: "bstring option"
  f_debuglinkPath :: "bstring option"

definition elf_machine :: "u16 \<Rightarrow> elf_Machine" where
  "elf_machine m = (if m = 62 then EM_X86_64 else if m = 183 then EM_AARCH64 else EM_Other m)"

definition PT_LOAD :: u32 where [simp]: "PT_LOAD = 1"
definition PT_DYNAMIC :: u32 where [simp]: "PT_DYNAMIC = 2"
definition PT_NOTE :: u32 where [simp]: "PT_NOTE = 4"
definition PT_GNU_EH_FRAME :: u32 where [simp]: "PT_GNU_EH_FRAME = 0x6474e550"
definition PF_X :: u32 where [simp]: "PF_X = 1"
definition PF_W :: u32 where [simp]: "PF_W = 2"
definition PF_R :: u32 where [simp]: "PF_R = 4"
definition SHF_COMPRESSED :: u64 where [simp]: "SHF_COMPRESSED = 0x800"
definition SHT_RELA :: u32 where [simp]: "SHT_RELA = 4"
definition SHT_NOTE :: u32 where [simp]: "SHT_NOTE = 7"
definition SHT_NOBITS :: u32 where [simp]: "SHT_NOBITS = 8"
definition maxBytesSmallSection :: nat where [simp]: "maxBytesSmallSection = 4 * 1024"
definition maxBytesLargeSection :: nat where [simp]: "maxBytesLargeSection = 16 * 1024 * 1024"

definition parse_Prog64 :: "byte list \<Rightarrow> Prog" where
  "parse_Prog64 b =
     \<lparr>ph_Type = le_at 4 0 b, ph_Flags = le_at 4 4 b, ph_Off = le_at 8 8 b, ph_Vaddr = le_at 8 16 b,
      ph_Paddr = le_at 8 24 b, ph_Filesz = le_at 8 32 b, ph_Memsz = le_at 8 40 b, ph_Align = le_at 8 48 b\<rparr>"

text \<open>A section header: the index of the name, and the header with an empty name.\<close>

definition parse_Section64 :: "byte list \<Rightarrow> u32 \<times> Section" where
  "parse_Section64 b =
     (le_at 4 0 b,
      \<lparr>sh_Name = [], sh_Type = le_at 4 4 b, sh_Flags = le_at 8 8 b, sh_Addr = le_at 8 16 b, sh_Offset = le_at 8 24 b,
       sh_Size = le_at 8 32 b, sh_Link = le_at 4 40 b, sh_Info = le_at 4 44 b, sh_Addralign = le_at 8 48 b,
       sh_Entsize = le_at 8 56 b, sh_FileSize = le_at 8 32 b\<rparr>)"

fun chunks :: "nat \<Rightarrow> nat \<Rightarrow> byte list \<Rightarrow> byte list list" where
  "chunks sz 0 bs = []"
| "chunks sz (Suc n) bs = take sz bs # chunks sz n (drop sz bs)"

definition isRoData :: "Prog \<Rightarrow> bool" where
  "isRoData ph \<longleftrightarrow> ph_Type ph = PT_LOAD \<and>
     (let andFlags = ph_Flags ph AND (PF_R OR PF_W OR PF_X) in andFlags = PF_R \<or> andFlags = PF_R OR PF_X)"

text \<open>
  Reading fixed size structures one after the other: \<open>rdr.Read\<close> into the same variable until it fails. The bytes
  that a short read leaves are those of the structure before.
\<close>

definition overlay :: "byte list \<Rightarrow> byte list \<Rightarrow> byte list" where "overlay bs old = bs @ drop (length bs) old"

definition reader_left :: "Reader \<Rightarrow> nat" where "reader_left r = rb_limit r - rb_off r + length (window r)"

lemma fill_left: "fill r = (e, r') \<Longrightarrow> reader_left r' = reader_left r"
  by (auto simp: fill_def reader_left_def Let_def window_def Reader_ReadAt_def file_ReadAt_def split: if_splits)

lemma read_loop_left:
  "read_loop need acc r = ((bs, e), r') \<Longrightarrow>
     reader_left r' \<le> reader_left r \<and> (e = None \<and> 0 < need \<and> acc = [] \<longrightarrow> reader_left r' < reader_left r)"
proof (induction need acc r rule: read_loop.induct)
  case (1 need acc r)
  note ih = "1.IH" and pr = "1.prems"
  consider "need = 0" | "0 < need" "window r \<noteq> []" | "0 < need" "window r = []" "rb_limit r \<le> rb_off r"
    | "0 < need" "window r = []" "rb_off r < rb_limit r" "bufferSize \<le> need" | "0 < need" "window r = []" "rb_off r < rb_limit r" "need < bufferSize"
    by linarith
  then show ?case
  proof cases
    case 2
    let ?c = "min need (length (window r))"
    have c: "0 < ?c" "?c \<le> length (window r)" using 2 by simp_all
    have nz: "need \<noteq> 0" using 2(1) by simp
    have l: "read_loop (need - ?c) (acc @ take ?c (window r)) (advance ?c r) = ((bs, e), r')"
      using pr 2 by (subst (asm) read_loop.simps) (simp add: Let_def)
    have "reader_left (advance ?c r) < reader_left r" using c by (simp add: reader_left_def)
    then show ?thesis using ih(1) [OF nz 2(2) refl l] by linarith
  next
    case 4
    let ?n = "min need (rb_limit r - rb_off r)"
    obtain d err where d: "Reader_ReadAt ?n r = (d, err)" by fastforce
    have r: "e = err" "r' = r\<lparr>rb_off := rb_off r + length d\<rparr>" "bs = acc @ d"
      using pr 4 d by (subst (asm) read_loop.simps, auto simp: Let_def bufferSize_def)+
    have "length d \<le> ?n" "err = None \<longrightarrow> length d = ?n" using d
      by (auto simp: Reader_ReadAt_def file_ReadAt_def Let_def split: if_splits)
    then show ?thesis using r 4 by (auto simp: reader_left_def window_def)
  next
    case 5
    obtain e' r1 where f: "fill r = (e', r1)" by fastforce
    have h: "need \<noteq> 0" "\<not> window r \<noteq> []" "\<not> rb_limit r \<le> rb_off r" "\<not> bufferSize \<le> need" using 5 by simp_all
    show ?thesis
    proof (cases e')
      case None
      then have "read_loop need acc r1 = ((bs, e), r')" using pr 5 f by (subst (asm) read_loop.simps) simp
      then show ?thesis using ih(2) [OF h f [symmetric] None] fill_left [OF f] by simp
    next
      case (Some x)
      then have "e = Some x" "r' = r1" using pr 5 f by (subst (asm) read_loop.simps, simp)+
      then show ?thesis using fill_left [OF f] by simp
    qed
  qed (use pr in \<open>subst (asm) read_loop.simps, auto split: if_splits\<close>)+
qed

function read_structs :: "nat \<Rightarrow> byte list \<Rightarrow> Reader \<Rightarrow> byte list list \<times> ioerr option" where
  "read_structs sz old r =
     (if sz = 0 then ([], None)
      else
        (case Reader_Read sz r of
           ((_, Some e), _) \<Rightarrow> ([], Some e)
         | ((bs, None), r) \<Rightarrow>
             let b = overlay bs old; (rest, e) = read_structs sz b r in (b # rest, e)))"
  by pat_completeness auto
termination
proof (relation "measure (\<lambda>(sz, old, r). reader_left r)", goal_cases)
  case (2 sz old r p1 r1 bs e b)
  then show ?case using read_loop_left [of sz "[]" r bs None r1] by (auto simp: Reader_Read_def)
qed simp

declare read_structs.simps [simp del]

section \<open>Opening a file\<close>

definition DT_NEEDED :: u64 where [simp]: "DT_NEEDED = 1"
definition DT_HASH :: u64 where [simp]: "DT_HASH = 4"
definition DT_STRTAB :: u64 where [simp]: "DT_STRTAB = 5"
definition DT_SYMTAB :: u64 where [simp]: "DT_SYMTAB = 6"
definition DT_SONAME :: u64 where [simp]: "DT_SONAME = 14"
definition DT_RPATH :: u64 where [simp]: "DT_RPATH = 15"
definition DT_RUNPATH :: u64 where [simp]: "DT_RUNPATH = 29"
definition DT_GNU_HASH :: u64 where [simp]: "DT_GNU_HASH = 0x6ffffef5"

definition dyn_entry :: "int64 \<Rightarrow> byte list \<Rightarrow> elf_File \<Rightarrow> elf_File" where
  "dyn_entry bias dyn f =
     (let tag = le_at 8 0 dyn; val = le_at 8 8 dyn;
          adjustedVal = (if sint val \<ge> sint bias then val - bias else val)
      in if tag = DT_NEEDED then f\<lparr>f_neededIndexes := f_neededIndexes f @ [val]\<rparr>
         else if tag = DT_SONAME then f\<lparr>f_soNameIndex := val\<rparr>
         else if tag = DT_HASH then f\<lparr>f_sysvHash_addr := adjustedVal\<rparr>
         else if tag = DT_STRTAB then f\<lparr>f_stringsAddr := adjustedVal\<rparr>
         else if tag = DT_SYMTAB then f\<lparr>f_symbolsAddr := adjustedVal\<rparr>
         else if tag = DT_GNU_HASH then f\<lparr>f_gnuHash_addr := adjustedVal\<rparr>
         else f)"

definition read_dynamic :: "bool \<Rightarrow> Prog \<Rightarrow> elf_File \<Rightarrow> elf_File" where
  "read_dynamic hasMusl p f =
     (if ph_Filesz p = 0 \<or> ph_Type p \<noteq> PT_DYNAMIC then f
      else
        let rdr = Reader_Init (f_data f) (sint (ph_Off p)) (sint (ph_Filesz p));
            bias = (if hasMusl then 0 else f_bias f)
        in fold (dyn_entry bias) (fst (read_structs 16 (replicate 16 0) rdr)) f)"

definition virtual_base :: "Prog list \<Rightarrow> u64" where
  "virtual_base progs = fold (\<lambda>p b. if ph_Type p = PT_LOAD \<and> ph_Vaddr p < b then ph_Vaddr p else b) progs (- 1)"

definition newFile :: "byte list \<Rightarrow> bool \<Rightarrow> u64 \<Rightarrow> bool \<Rightarrow> elferr + elf_File" where
  "newFile data mmapped loadAddress hasMusl =
     (case os_ReadAt data 64 0 of
        (_, Some e) \<Rightarrow> Inl (ErrIO e)
      | (hdr, None) \<Rightarrow>
          if take 4 hdr \<noteq> [0x7f, 0x45, 0x4c, 0x46] then Inl ErrNotELF
          else if hdr ! 4 \<noteq> 2 \<or> hdr ! 5 \<noteq> 1 \<or> hdr ! 6 \<noteq> 1 then Inl ErrUnsupported
          else
            let phnum = unat (le_at 2 56 hdr :: u16)
            in if phnum = 0 then Inl ErrNoProgs
               else
                 (case os_ReadAt data (56 * phnum) (sint (le_at 8 32 hdr :: u64)) of
                    (_, Some e) \<Rightarrow> Inl (ErrIO e)
                  | (b, None) \<Rightarrow>
                      let progs = map parse_Prog64 (chunks 56 phnum b);
                          load = filter (\<lambda>p. ph_Type p = PT_LOAD) progs;
                          bias = (if loadAddress \<noteq> 0 then loadAddress - virtual_base progs else 0);
                          f = \<lparr>f_data = data, f_mmapped = mmapped, f_loadData = load,
                               f_ROData = sort_key (\<lambda>p. ph_Flags p AND (PF_R OR PF_X)) (filter isRoData load),
                               f_Progs = progs, f_Sections = None, f_neededIndexes = [], f_soNameIndex = 0,
                               f_Shoff = le_at 8 40 hdr, f_Shnum = le_at 2 60 hdr, f_Shstrndx = le_at 2 62 hdr,
                               f_gnuHash_addr = 0,
                               f_gnuHash_header = replicate 16 0, f_sysvHash_addr = 0, f_sysvHash_header = replicate 8 0,
                               f_stringsAddr = 0, f_symbolsAddr = 0, f_bias = bias, f_InsideCore = (loadAddress \<noteq> 0),
                               f_Type = le_at 2 16 hdr, f_Machine = elf_machine (le_at 2 18 hdr), f_Entry = le_at 8 24 hdr,
                               f_notesError = Some errNotProcessed, f_gnuBuildId = [], f_goBuildId = [], f_golangVersion = None, f_debuglinkPath = None\<rparr>
                      in Inr (fold (read_dynamic hasMusl) progs f)))"

section \<open>Data of segments and sections\<close>

definition getReader :: "elf_File \<Rightarrow> readerAt" where
  "getReader f = (if f_mmapped f then mmap_ReadAt (f_data f) else os_ReadAt (f_data f))"

text \<open>\<open>(*Prog).ReadAt\<close> into \<open>n\<close> bytes, over the reader of the segment.\<close>

definition Prog_zeros :: "Prog \<Rightarrow> nat \<Rightarrow> int64 \<Rightarrow> byte list \<Rightarrow> (byte list \<times> ioerr option) option" where
  "Prog_zeros ph n off d =
     (if length d < n \<and> off < ph_Memsz ph then
        let end = min (int (n - length d)) (sint (ph_Memsz ph - off))
        in if end < 0 then None
           else let d = d @ replicate (nat end) 0 in Some (d, if length d \<noteq> n then Some EOF else None)
      else Some (d, if length d \<noteq> n then Some EOF else None))"

definition Prog_ReadAt :: "readerAt \<Rightarrow> Prog \<Rightarrow> nat \<Rightarrow> int64 \<Rightarrow> (byte list \<times> ioerr option) option" where
  "Prog_ReadAt rd ph n off =
     (if off < ph_Filesz ph then
        let end = min (int n) (sint (ph_Filesz ph - off))
        in if end < 0 then None
           else
             let (d, err) = rd (nat end) (sint (ph_Off ph + off));
                 d = (if d = [] \<and> err = Some EFAULT then replicate (nat end) 0 else d)
             in if length d \<noteq> nat end \<or> err \<noteq> None then Some (d, err)
                else Prog_zeros ph n (off + word_of_nat (length d)) d
      else Prog_zeros ph n off [])"

definition Prog_Data :: "elf_File \<Rightarrow> Prog \<Rightarrow> nat \<Rightarrow> (elferr + byte list) option" where
  "Prog_Data f ph maxSize =
     (if f_mmapped f then map_option (map_sum ErrIO id) (mmap_Subslice (f_data f) (ph_Off ph) (ph_Filesz ph))
      else if unat (ph_Filesz ph) > maxSize then Some (Inl ErrTooLarge)
      else
        (case Prog_ReadAt (getReader f) ph (unat (ph_Filesz ph)) 0 of
           None \<Rightarrow> None
         | Some (_, Some e) \<Rightarrow> Some (Inl (ErrIO e))
         | Some (d, None) \<Rightarrow> Some (Inr d)))"

definition Section_ReadAt :: "readerAt \<Rightarrow> Section \<Rightarrow> nat \<Rightarrow> int64 \<Rightarrow> byte list \<times> ioerr option" where
  "Section_ReadAt rd sh n off =
     (if sint off < 0 \<or> off \<ge> sh_FileSize sh then ([], Some EOF)
      else
        let truncated = unat off + n > unat (sh_FileSize sh);
            n = (if truncated then unat (sh_FileSize sh - off) else n);
            (d, err) = rd n (sint (off + sh_Offset sh))
        in (d, if err = None \<and> truncated then Some EOF else err))"

definition Section_Data :: "elf_File \<Rightarrow> Section \<Rightarrow> nat \<Rightarrow> (elferr + byte list) option" where
  "Section_Data f sh maxSize =
     (if sh_Flags sh AND SHF_COMPRESSED \<noteq> 0 then Some (Inl ErrCompressed)
      else if f_mmapped f then map_option (map_sum ErrIO id) (mmap_Subslice (f_data f) (sh_Offset sh) (sh_FileSize sh))
      else if unat (sh_FileSize sh) > maxSize then Some (Inl ErrTooLarge)
      else
        (case Section_ReadAt (getReader f) sh (unat (sh_FileSize sh)) 0 of
           (_, Some e) \<Rightarrow> Some (Inl (ErrIO e))
         | (d, None) \<Rightarrow> Some (Inr d)))"

section \<open>Section headers\<close>

definition getString :: "byte list \<Rightarrow> nat \<Rightarrow> bstring option" where
  "getString sec start =
     (if start \<ge> length sec then None
      else if 0 \<in> set (drop start sec) then Some (takeWhile (\<lambda>b. b \<noteq> 0) (drop start sec)) else None)"

fun name_sections :: "byte list \<Rightarrow> (u32 \<times> Section) list \<Rightarrow> elferr option \<times> Section list" where
  "name_sections strtab [] = (None, [])"
| "name_sections strtab ((ndx, s) # rest) =
     (case getString strtab (unat ndx) of
        None \<Rightarrow> (Some ErrSectionName, s\<lparr>sh_Name := []\<rparr> # map snd rest)
      | Some name \<Rightarrow> (let (e, ss) = name_sections strtab rest in (e, s\<lparr>sh_Name := name\<rparr> # ss)))"

definition LoadSections :: "elf_File \<Rightarrow> (elferr option \<times> elf_File) option" where
  "LoadSections f =
     (if f_InsideCore f then Some (Some ErrInsideCore, f)
      else if f_Sections f \<noteq> None then Some (None, f)
      else if f_Shnum f = 0 then Some (None, f)
      else if f_Shstrndx f \<ge> f_Shnum f then Some (Some ErrShstrndx, f)
      else
        (case os_ReadAt (f_data f) (64 * unat (f_Shnum f)) (sint (f_Shoff f)) of
           (_, Some e) \<Rightarrow> Some (Some (ErrIO e), f)
         | (b, None) \<Rightarrow>
             let sections = map parse_Section64 (chunks 64 (unat (f_Shnum f)) b);
                 f = f\<lparr>f_Sections := Some (map snd sections)\<rparr>
             in (case Section_Data f (map snd sections ! unat (f_Shstrndx f)) maxBytesLargeSection of
                   None \<Rightarrow> None
                 | Some (Inl e) \<Rightarrow> Some (Some e, f)
                 | Some (Inr strtab) \<Rightarrow>
                     (let (e, ss) = name_sections strtab sections in Some (e, f\<lparr>f_Sections := Some ss\<rparr>)))))"

definition sections_of :: "elf_File \<Rightarrow> Section list" where
  "sections_of f = (case f_Sections f of None \<Rightarrow> [] | Some ss \<Rightarrow> ss)"

definition findProg :: "u32 \<Rightarrow> elf_File \<Rightarrow> Prog option" where
  "findProg t f = find (\<lambda>p. ph_Type p = t) (f_Progs f)"

definition File_Section :: "bstring \<Rightarrow> elf_File \<Rightarrow> (Section option \<times> elf_File) option" where
  "File_Section name f =
     (if f_InsideCore f then Some (None, f)
      else
        (case LoadSections f of
           None \<Rightarrow> None
         | Some (Some _, f) \<Rightarrow> Some (None, f\<lparr>f_InsideCore := True\<rparr>)
         | Some (None, f) \<Rightarrow> Some (find (\<lambda>s. sh_Name s = name) (sections_of f), f)))"

section \<open>Memory image\<close>

definition prog_contains :: "u64 \<Rightarrow> Prog \<Rightarrow> bool" where
  "prog_contains addr ph \<longleftrightarrow> addr \<ge> ph_Vaddr ph \<and> addr < ph_Vaddr ph + ph_Memsz ph"

definition ProgByVirtualAddress :: "u64 \<Rightarrow> elf_File \<Rightarrow> Prog option" where
  "ProgByVirtualAddress addr f = find (prog_contains addr) (f_loadData f)"

text \<open>\<open>VirtualMemory\<close>: the bytes it read, and the error. A negative size cannot be allocated.\<close>

definition VirtualMemory :: "int64 \<Rightarrow> int64 \<Rightarrow> nat \<Rightarrow> elf_File \<Rightarrow> (byte list \<times> elferr option) option" where
  "VirtualMemory addr sz maxSize f =
     (if sz = 0 then Some ([], None)
      else
        (case ProgByVirtualAddress addr f of
           None \<Rightarrow> Some ([], Some ErrNoSegment)
         | Some ph \<Rightarrow>
             let offset = addr - ph_Vaddr ph
             in if sint (offset + sz) \<le> sint (ph_Filesz ph) \<and> f_mmapped f
                then (case mmap_Subslice (f_data f) (ph_Off ph + offset) sz of
                        None \<Rightarrow> None
                      | Some (Inl e) \<Rightarrow> Some ([], Some (ErrIO e))
                      | Some (Inr d) \<Rightarrow> Some (d, None))
                else if sint sz > int maxSize then Some ([], Some ErrTooLarge)
                else if sint sz < 0 then None
                else map_option (\<lambda>(d, e). (d, map_option ErrIO e)) (Prog_ReadAt (getReader f) ph (unat sz) offset)))"

definition File_ReadAt :: "nat \<Rightarrow> int64 \<Rightarrow> elf_File \<Rightarrow> (byte list \<times> elferr option) option" where
  "File_ReadAt n addr f =
     (if n = 0 then Some ([], None)
      else
        (case ProgByVirtualAddress addr f of
           None \<Rightarrow> Some ([], Some ErrNoSegment)
         | Some ph \<Rightarrow> map_option (\<lambda>(d, e). (d, map_option ErrIO e)) (Prog_ReadAt (getReader f) ph n (addr - ph_Vaddr ph))))"

definition EHFrame :: "elf_File \<Rightarrow> elferr + Prog" where
  "EHFrame f =
     (case findProg PT_GNU_EH_FRAME f of
        None \<Rightarrow> Inl ErrNoEhFrame
      | Some p \<Rightarrow>
          (case find (\<lambda>ph. \<not> (ph_Type ph \<noteq> PT_LOAD \<or> ph_Vaddr p < ph_Vaddr ph \<or>
                              ph_Vaddr p \<ge> ph_Vaddr ph + ph_Filesz ph)) (f_Progs f) of
             None \<Rightarrow> Inl ErrNoSegment
           | Some ph \<Rightarrow>
               let offs = ph_Vaddr p - ph_Vaddr ph
               in Inr \<lparr>ph_Type = ph_Type ph, ph_Flags = ph_Flags ph, ph_Off = ph_Off ph + offs, ph_Vaddr = ph_Vaddr ph + offs,
                       ph_Paddr = ph_Paddr ph + offs, ph_Filesz = ph_Filesz ph - offs, ph_Memsz = ph_Memsz ph - offs,
                       ph_Align = ph_Align ph\<rparr>))"

text \<open>\<open>RemoteMemory.String\<close> over a reader of memory.\<close>

definition zero_terminated :: "byte list \<Rightarrow> bstring option" where
  "zero_terminated b = (if 0 \<in> set b then Some (takeWhile (\<lambda>x. x \<noteq> 0) b) else None)"

definition string_readable :: "byte list \<Rightarrow> elferr option \<Rightarrow> bool" where
  "string_readable d e \<longleftrightarrow> \<not> (d = [] \<or> e \<noteq> None \<and> e \<noteq> Some (ErrIO EOF))"

definition rm_String :: "(nat \<Rightarrow> u64 \<Rightarrow> (byte list \<times> elferr option) option) \<Rightarrow> u64 \<Rightarrow> bstring option" where
  "rm_String rd addr = do {
     (buf, err) \<leftarrow> rd 1024 addr;
     if \<not> string_readable buf err then Some []
     else case zero_terminated buf of
       Some s \<Rightarrow> Some s
     | None \<Rightarrow>
         if length buf \<noteq> 1024 then Some []
         else do {
           (d, err) \<leftarrow> rd 3072 (addr + 1024);
           if \<not> string_readable d err then Some []
           else case zero_terminated (buf @ d) of Some s \<Rightarrow> Some s | None \<Rightarrow> Some [] } }"

fun dyn_strings :: "int64 list \<Rightarrow> elf_File \<Rightarrow> bstring list option" where
  "dyn_strings [] f = Some []"
| "dyn_strings (ndx # ndxs) f = do {
     s \<leftarrow> rm_String (\<lambda>n addr. File_ReadAt n addr f) (f_stringsAddr f + ndx);
     ss \<leftarrow> dyn_strings ndxs f;
     Some (s # ss) }"

definition DynString :: "u64 \<Rightarrow> elf_File \<Rightarrow> (elferr + bstring list) option" where
  "DynString tag f =
     (if tag = DT_NEEDED then map_option Inr (dyn_strings (f_neededIndexes f) f)
      else if tag = DT_SONAME then map_option Inr (dyn_strings [f_soNameIndex f] f)
      else Some (Inl ErrTag))"

section \<open>References\<close>

text \<open>A reference opens its file on first use and keeps it until it is closed.\<close>

record Reference =
  ref_fileName :: string
  ref_open :: "(elferr + elf_File) option"
  ref_elfFile :: "elf_File option"

definition NewReference :: "string \<Rightarrow> Reference" where
  "NewReference fileName = \<lparr>ref_fileName = fileName, ref_open = None, ref_elfFile = None\<rparr>"

definition NewReferenceWithOpenFunc :: "string \<Rightarrow> elferr + elf_File \<Rightarrow> Reference" where
  "NewReferenceWithOpenFunc fileName op = \<lparr>ref_fileName = fileName, ref_open = Some op, ref_elfFile = None\<rparr>"

definition GetELF :: "(string \<Rightarrow> elferr + elf_File) \<Rightarrow> Reference \<Rightarrow> (elferr + elf_File) \<times> Reference" where
  "GetELF OpenELF ref =
     (case ref_elfFile ref of
        Some f \<Rightarrow> (Inr f, ref)
      | None \<Rightarrow>
          (case (case ref_open ref of Some op \<Rightarrow> op | None \<Rightarrow> OpenELF (ref_fileName ref)) of
             Inl e \<Rightarrow> (Inl e, ref)
           | Inr f \<Rightarrow> (Inr f, ref\<lparr>ref_elfFile := Some f\<rparr>)))"

definition Reference_Close :: "Reference \<Rightarrow> Reference" where
  "Reference_Close ref = ref\<lparr>ref_elfFile := None\<rparr>"

end
