(* ===== verification/ElfSymbols.thy ===== *)
theory ElfSymbols
  imports ElfFile
begin

text \<open>
  Symbols and relocations of an ELF file (\<open>libpf/pfelf/file.go\<close>): the lookup through the \<open>DT_GNU_HASH\<close> and
  \<open>DT_HASH\<close> tables of the memory image, the walks over the symbol tables and the relocations of the sections.
  The walks along the hash chains need not end and carry fuel.
\<close>

unbundle bit_operations_syntax

section \<open>Symbols\<close>

record elf_Symbol =
  sym_Name :: bstring
  sym_Address :: u64
  sym_Size :: u64

definition readAndMatchSymbol :: "u32 \<Rightarrow> bstring \<Rightarrow> elf_File \<Rightarrow> elf_Symbol option option" where
  "readAndMatchSymbol n name f = do {
     (sy, err) \<leftarrow> File_ReadAt 24 (f_symbolsAddr f + ucast n * 24) f;
     if err \<noteq> None then Some None
     else do {
       (sname, err) \<leftarrow> VirtualMemory (f_stringsAddr f + ucast (le_at 4 0 sy :: u32)) (word_of_nat (length name + 1)) maxBytesSmallSection f;
       if err \<noteq> None then Some None
       else if sname ! length name \<noteq> 0 \<or> take (length name) sname \<noteq> name then Some None
       else Some (Some \<lparr>sym_Name = name, sym_Address = le_at 8 8 sy, sym_Size = le_at 8 16 sy\<rparr>) } }"

section \<open>Hash tables\<close>

definition calcGNUHash :: "bstring \<Rightarrow> u32" where
  "calcGNUHash s = fold (\<lambda>c h. h + (h * 32 + ucast c)) s 5381"

definition calcSysvHash :: "bstring \<Rightarrow> u32" where
  "calcSysvHash s =
     fold (\<lambda>c h. let h = 16 * h + ucast c in h XOR (drop_bit 24 h AND 0xf0)) s 0 AND 0xfffffff"

text \<open>\<open>f.ReadAt\<close> into an integer.\<close>

definition read_int :: "nat \<Rightarrow> int64 \<Rightarrow> elf_File \<Rightarrow> (elferr + 'a::len word) option" where
  "read_int n addr f =
     (case File_ReadAt n addr f of
        None \<Rightarrow> None
      | Some (_, Some e) \<Rightarrow> Some (Inl e)
      | Some (d, None) \<Rightarrow> Some (Inr (le_at n 0 d)))"

fun gnu_chain :: "nat \<Rightarrow> u32 \<Rightarrow> u32 \<Rightarrow> int64 \<Rightarrow> bstring \<Rightarrow> elf_File \<Rightarrow> (elferr + elf_Symbol) option" where
  "gnu_chain 0 h i offs symbol f = Some (Inl ErrFuel)"
| "gnu_chain (Suc fuel) h i offs symbol f =
     (case (read_int 4 offs f :: (elferr + u32) option) of
        None \<Rightarrow> None
      | Some (Inl e) \<Rightarrow> Some (Inl e)
      | Some (Inr h2) \<Rightarrow>
          (case (if h = h2 OR 1 then readAndMatchSymbol i symbol f else Some None) of
             None \<Rightarrow> None
           | Some (Some s) \<Rightarrow> Some (Inr s)
           | Some None \<Rightarrow>
               if h2 AND 1 \<noteq> 0 then Some (Inl ErrSymbolNotFound)
               else gnu_chain fuel h (i + 1) (offs + 4) symbol f))"

text \<open>The lookup with a header that was read: \<open>None\<close> is the panic of the division by the size of the Bloom filter.\<close>

definition gnu_lookup :: "nat \<Rightarrow> gnuHashHeader \<Rightarrow> bstring \<Rightarrow> elf_File \<Rightarrow> (elferr + elf_Symbol) option" where
  "gnu_lookup fuel hdr symbol f =
     (let h = calcGNUHash symbol;
          offs = f_gnuHash_addr f + 16
      in if gh_bloomSize hdr = 0 then None
         else
           (case (read_int 8 (offs + 8 * ucast ((h div 64) mod gh_bloomSize hdr)) f :: (elferr + u64) option) of
              None \<Rightarrow> None
            | Some (Inl e) \<Rightarrow> Some (Inl e)
            | Some (Inr bloom) \<Rightarrow>
                let mask = push_bit (unat (h mod 64)) 1 OR push_bit (unat (drop_bit (unat (gh_bloomShift hdr)) h mod 64)) 1
                in if bloom AND mask \<noteq> mask then Some (Inl ErrSymbolNotFound)
                   else
                     let offs = offs + ucast (gh_bloomSize hdr) * 8
                     in (case (read_int 4 (offs + 4 * ucast (h mod gh_numBuckets hdr)) f :: (elferr + u32) option) of
                           None \<Rightarrow> None
                         | Some (Inl e) \<Rightarrow> Some (Inl e)
                         | Some (Inr i) \<Rightarrow>
                             if i = 0 then Some (Inl ErrSymbolNotFound)
                             else gnu_chain fuel (h OR 1) i
                                    (offs + (4 * ucast (gh_numBuckets hdr) + 4 * ucast (i - gh_symbolOffset hdr))) symbol f)))"

fun sysv_chain :: "nat \<Rightarrow> sysvHashHeader \<Rightarrow> u32 \<Rightarrow> int64 \<Rightarrow> bstring \<Rightarrow> elf_File \<Rightarrow> (elferr + elf_Symbol) option" where
  "sysv_chain fuel hdr i offs symbol f =
     (if i \<noteq> 0 \<and> i < vh_numSymbols hdr then
        (case fuel of
           0 \<Rightarrow> Some (Inl ErrFuel)
         | Suc fuel \<Rightarrow>
             (case readAndMatchSymbol i symbol f of
                None \<Rightarrow> None
              | Some (Some s) \<Rightarrow> Some (Inr s)
              | Some None \<Rightarrow>
                  (case read_int 4 (offs + 4 * ucast i) f of
                     None \<Rightarrow> None
                   | Some (Inl e) \<Rightarrow> Some (Inl e)
                   | Some (Inr i) \<Rightarrow> sysv_chain fuel hdr i offs symbol f)))
      else Some (Inl ErrSymbolNotFound))"

declare sysv_chain.simps [simp del]

definition sysv_lookup :: "nat \<Rightarrow> sysvHashHeader \<Rightarrow> bstring \<Rightarrow> elf_File \<Rightarrow> (elferr + elf_Symbol) option" where
  "sysv_lookup fuel hdr symbol f =
     (let offs = f_sysvHash_addr f + 8;
          h = calcSysvHash symbol
      in case (read_int 4 (offs + 4 * ucast (h mod vh_numBuckets hdr)) f :: (elferr + u32) option) of
           None \<Rightarrow> None
         | Some (Inl e) \<Rightarrow> Some (Inl e)
         | Some (Inr i) \<Rightarrow> sysv_chain fuel hdr i (offs + 4 * ucast (vh_numBuckets hdr)) symbol f)"

text \<open>
  \<open>LookupSymbol\<close>: the header is read when the number of buckets in the file is still zero. A header that is refused stays there.
\<close>

definition load_gnu_header :: "elf_File \<Rightarrow> (elferr option \<times> elf_File) option" where
  "load_gnu_header f =
     (if gh_numBuckets (gnu_header (f_gnuHash_header f)) \<noteq> 0 then Some (None, f)
      else
        (case File_ReadAt 16 (f_gnuHash_addr f) f of
           None \<Rightarrow> None
         | Some (d, err) \<Rightarrow>
             let f = f\<lparr>f_gnuHash_header := overlay d (f_gnuHash_header f)\<rparr>;
                 hdr = gnu_header (f_gnuHash_header f)
             in case err of
                  Some e \<Rightarrow> Some (Some e, f)
                | None \<Rightarrow> Some (if gh_numBuckets hdr = 0 \<or> gh_bloomSize hdr = 0 then Some ErrHashCorrupt else None, f)))"

definition load_sysv_header :: "elf_File \<Rightarrow> (elferr option \<times> elf_File) option" where
  "load_sysv_header f =
     (if vh_numBuckets (sysv_header (f_sysvHash_header f)) \<noteq> 0 then Some (None, f)
      else
        (case File_ReadAt 8 (f_sysvHash_addr f) f of
           None \<Rightarrow> None
         | Some (d, err) \<Rightarrow>
             let f = f\<lparr>f_sysvHash_header := overlay d (f_sysvHash_header f)\<rparr>
             in case err of
                  Some e \<Rightarrow> Some (Some e, f)
                | None \<Rightarrow> Some (if vh_numBuckets (sysv_header (f_sysvHash_header f)) = 0 then Some ErrHashCorrupt else None, f)))"

definition elf_LookupSymbol :: "nat \<Rightarrow> bstring \<Rightarrow> elf_File \<Rightarrow> ((elferr + elf_Symbol) \<times> elf_File) option" where
  "elf_LookupSymbol fuel symbol f =
     (if f_gnuHash_addr f \<noteq> 0 then
        (case load_gnu_header f of
           None \<Rightarrow> None
         | Some (Some e, f) \<Rightarrow> Some (Inl e, f)
         | Some (None, f) \<Rightarrow> map_option (\<lambda>r. (r, f)) (gnu_lookup fuel (gnu_header (f_gnuHash_header f)) symbol f))
      else if f_sysvHash_addr f \<noteq> 0 then
        (case load_sysv_header f of
           None \<Rightarrow> None
         | Some (Some e, f) \<Rightarrow> Some (Inl e, f)
         | Some (None, f) \<Rightarrow> map_option (\<lambda>r. (r, f)) (sysv_lookup fuel (sysv_header (f_sysvHash_header f)) symbol f))
      else Some (Inl ErrNoHash, f))"

definition LookupSymbolAddress :: "nat \<Rightarrow> bstring \<Rightarrow> elf_File \<Rightarrow> ((elferr + u64) \<times> elf_File) option" where
  "LookupSymbolAddress fuel symbol f = map_option (\<lambda>(r, f). (map_sum id sym_Address r, f)) (elf_LookupSymbol fuel symbol f)"

text \<open>\<open>SymbolData\<close>; a symbol whose size is negative as an \<open>int\<close> makes the allocation panic.\<close>

definition SymbolData ::
  "nat \<Rightarrow> bstring \<Rightarrow> nat \<Rightarrow> elf_File \<Rightarrow> ((elferr + elf_Symbol \<times> byte list) \<times> elf_File) option" where
  "SymbolData fuel name maxSize f = do {
     (r, f) \<leftarrow> elf_LookupSymbol fuel name f;
     case r of
       Inl e \<Rightarrow> Some (Inl e, f)
     | Inr sy \<Rightarrow>
         let n = min (sint (sym_Size sy)) (int maxSize)
         in if n < 0 then None
            else do {
              (data, err) \<leftarrow> File_ReadAt (nat n) (sym_Address sy) f;
              Some (case err of Some e \<Rightarrow> Inl e | None \<Rightarrow> Inr (sy, data), f) } }"

section \<open>Symbol tables\<close>

text \<open>A visitor works on a state of its own and says whether to go on.\<close>

fun visit_syms :: "byte list \<Rightarrow> (elf_Symbol \<Rightarrow> 's \<Rightarrow> bool \<times> 's) \<Rightarrow> byte list list \<Rightarrow> 's \<Rightarrow> bool \<times> 's" where
  "visit_syms strs visitor [] st = (True, st)"
| "visit_syms strs visitor (sy # sys) st =
     (case getString strs (unat (le_at 4 0 sy :: u32)) of
        None \<Rightarrow> visit_syms strs visitor sys st
      | Some name \<Rightarrow>
          (case visitor \<lparr>sym_Name = name, sym_Address = le_at 8 8 sy, sym_Size = le_at 8 16 sy\<rparr> st of
             (False, st) \<Rightarrow> (False, st)
           | (True, st) \<Rightarrow> visit_syms strs visitor sys st))"

definition visitSymbolTable ::
  "bstring \<Rightarrow> (elf_Symbol \<Rightarrow> 's \<Rightarrow> bool \<times> 's) \<Rightarrow> elf_File \<Rightarrow> 's \<Rightarrow> (elferr option \<times> 's \<times> elf_File) option" where
  "visitSymbolTable name visitor f st = do {
     (symTab, f) \<leftarrow> File_Section name f;
     case symTab of
       None \<Rightarrow> Some (Some ErrNoSection, st, f)
     | Some symTab \<Rightarrow>
         if unat (sh_Link symTab) \<ge> length (sections_of f) then Some (Some ErrLink, st, f)
         else do {
           strs \<leftarrow> Section_Data f (sections_of f ! unat (sh_Link symTab)) maxBytesLargeSection;
           case strs of
             Inl e \<Rightarrow> Some (Some e, st, f)
           | Inr strs \<Rightarrow>
               let (sys, err) = read_structs 24 (replicate 24 0) (Reader_Init (f_data f) (sint (sh_Offset symTab)) (sint (sh_Size symTab)));
                   (more, st) = visit_syms strs visitor sys st
               in Some (if more then (case err of Some EOF \<Rightarrow> None | Some e \<Rightarrow> Some (ErrIO e) | None \<Rightarrow> None) else None, st, f) } }"

definition VisitSymbols ::
  "(elf_Symbol \<Rightarrow> 's \<Rightarrow> bool \<times> 's) \<Rightarrow> elf_File \<Rightarrow> 's \<Rightarrow> (elferr option \<times> 's \<times> elf_File) option" where
  "VisitSymbols visitor f st = visitSymbolTable (ascii ''.symtab'') visitor f st"

definition VisitDynamicSymbols ::
  "(elf_Symbol \<Rightarrow> 's \<Rightarrow> bool \<times> 's) \<Rightarrow> elf_File \<Rightarrow> 's \<Rightarrow> (elferr option \<times> 's \<times> elf_File) option" where
  "VisitDynamicSymbols visitor f st = visitSymbolTable (ascii ''.dynsym'') visitor f st"

section \<open>Relocations\<close>

record ElfReloc =
  rela_Off :: u64
  rela_Info :: u64
  rela_Addend :: int64

definition parse_Rela64 :: "byte list \<Rightarrow> ElfReloc" where
  "parse_Rela64 b = \<lparr>rela_Off = le_at 8 0 b, rela_Info = le_at 8 8 b, rela_Addend = le_at 8 16 b\<rparr>"

definition RelTLSDESC :: u32 where [simp]: "RelTLSDESC = 1"
definition RelDTPMOD64 :: u32 where [simp]: "RelDTPMOD64 = 2"

definition classifyRelocAarch64 :: "ElfReloc \<Rightarrow> u32" where
  "classifyRelocAarch64 rela =
     (let t = rela_Info rela AND 0xffff in if t = 1031 then RelTLSDESC else if t = 1028 then RelDTPMOD64 else 0)"

definition classifyRelocX86_64 :: "ElfReloc \<Rightarrow> u32" where
  "classifyRelocX86_64 rela =
     (let t = rela_Info rela AND 0xffff in if t = 36 then RelTLSDESC else if t = 16 then RelDTPMOD64 else 0)"

fun visit_relas ::
  "Section \<Rightarrow> byte list \<Rightarrow> (ElfReloc \<Rightarrow> bool) \<Rightarrow> (ElfReloc \<Rightarrow> bstring \<Rightarrow> 's \<Rightarrow> bool \<times> 's) \<Rightarrow> elf_File \<Rightarrow> byte list list \<Rightarrow> 's \<Rightarrow>
     (elferr + bool) \<times> 's" where
  "visit_relas symtab strtab check visitor f [] st = (Inr True, st)"
| "visit_relas symtab strtab check visitor f (b # bs) st =
     (let rela = parse_Rela64 b
      in if \<not> check rela then visit_relas symtab strtab check visitor f bs st
         else
           (case Section_ReadAt (getReader f) symtab 24 (drop_bit 32 (rela_Info rela) * 24) of
              (_, Some e) \<Rightarrow> (Inl ErrRelocation, st)
            | (sy, None) \<Rightarrow>
                (case getString strtab (unat (le_at 4 0 sy :: u32)) of
                   None \<Rightarrow> (Inl ErrRelocation, st)
                 | Some symStr \<Rightarrow>
                     (case visitor rela symStr st of
                        (False, st) \<Rightarrow> (Inr False, st)
                      | (True, st) \<Rightarrow> visit_relas symtab strtab check visitor f bs st))))"

definition visitRelocationsForSection ::
  "(ElfReloc \<Rightarrow> bstring \<Rightarrow> 's \<Rightarrow> bool \<times> 's) \<Rightarrow> (ElfReloc \<Rightarrow> bool) \<Rightarrow> Section \<Rightarrow> elf_File \<Rightarrow> 's \<Rightarrow> ((elferr + bool) \<times> 's) option" where
  "visitRelocationsForSection visitor check relaSection f st =
     (let ss = sections_of f
      in if unat (sh_Link relaSection) \<ge> length ss then Some (Inl ErrLink, st)
         else if sh_Size relaSection mod 24 \<noteq> 0 then Some (Inl ErrEntrySize, st)
         else
           let symtab = ss ! unat (sh_Link relaSection)
           in if unat (sh_Link symtab) \<ge> length ss then Some (Inl ErrLink, st)
              else if sh_Size symtab mod 24 \<noteq> 0 then Some (Inl ErrEntrySize, st)
              else
                let strtab = ss ! unat (sh_Link symtab)
                in if unat (sh_Size strtab) > maxBytesLargeSection then Some (Inl ErrTooLarge, st)
                   else
                     (case Section_Data f strtab (unat (sh_Size strtab)) of
                        None \<Rightarrow> None
                      | Some (Inl e) \<Rightarrow> Some (Inl e, st)
                      | Some (Inr strs) \<Rightarrow>
                          let (relas, err) = read_structs 24 (replicate 24 0)
                                (Reader_Init (f_data f) (sint (sh_Offset relaSection)) (sint (sh_Size relaSection)));
                              (r, st) = visit_relas symtab strs check visitor f relas st
                          in Some (if r = Inr True \<and> err \<noteq> Some EOF then Inl ErrRelocation else r, st)))"

fun visit_rela_sections ::
  "(ElfReloc \<Rightarrow> bstring \<Rightarrow> 's \<Rightarrow> bool \<times> 's) \<Rightarrow> (ElfReloc \<Rightarrow> bool) \<Rightarrow> Section list \<Rightarrow> elf_File \<Rightarrow> 's \<Rightarrow> (elferr option \<times> 's) option" where
  "visit_rela_sections visitor check [] f st = Some (None, st)"
| "visit_rela_sections visitor check (s # ss) f st =
     (if sh_Type s \<noteq> SHT_RELA then visit_rela_sections visitor check ss f st
      else
        (case visitRelocationsForSection visitor check s f st of
           None \<Rightarrow> None
         | Some (Inl e, st) \<Rightarrow> Some (Some e, st)
         | Some (Inr False, st) \<Rightarrow> Some (None, st)
         | Some (Inr True, st) \<Rightarrow> visit_rela_sections visitor check ss f st))"

definition VisitRelocations ::
  "(ElfReloc \<Rightarrow> bstring \<Rightarrow> 's \<Rightarrow> bool \<times> 's) \<Rightarrow> u32 \<Rightarrow> elf_File \<Rightarrow> 's \<Rightarrow> (elferr option \<times> 's \<times> elf_File) option" where
  "VisitRelocations visitor relTypes f st =
     (case (case f_Machine f of EM_AARCH64 \<Rightarrow> Some classifyRelocAarch64 | EM_X86_64 \<Rightarrow> Some classifyRelocX86_64 | _ \<Rightarrow> None) of
        None \<Rightarrow> Some (None, st, f)
      | Some classify \<Rightarrow>
          (case LoadSections f of
             None \<Rightarrow> None
           | Some (Some e, f) \<Rightarrow> Some (Some e, st, f)
           | Some (None, f) \<Rightarrow>
               map_option (\<lambda>(e, st). (e, st, f))
                 (visit_rela_sections visitor (\<lambda>rela. classify rela AND relTypes \<noteq> 0) (sections_of f) f st)))"

definition VisitTLSRelocations ::
  "(ElfReloc \<Rightarrow> bstring \<Rightarrow> 's \<Rightarrow> bool \<times> 's) \<Rightarrow> elf_File \<Rightarrow> 's \<Rightarrow> (elferr option \<times> 's \<times> elf_File) option" where
  "VisitTLSRelocations visitor f st = VisitRelocations visitor RelTLSDESC f st"

end
