(* ===== verification/ElfFileProps.thy ===== *)
theory ElfFileProps
  imports ElfFile
begin

text \<open>
  What the accesses to an ELF file give. The specification is the memory image of a segment: its bytes of the file, followed by
  zeros up to its size in memory.
\<close>

unbundle bit_operations_syntax

section \<open>Memory images\<close>

definition seg_image :: "byte list \<Rightarrow> Prog \<Rightarrow> byte list" where
  "seg_image data ph =
     take (unat (ph_Filesz ph)) (drop (unat (ph_Off ph)) data) @ replicate (unat (ph_Memsz ph) - unat (ph_Filesz ph)) 0"

definition seg_ok :: "byte list \<Rightarrow> Prog \<Rightarrow> bool" where
  "seg_ok data ph \<longleftrightarrow> unat (ph_Off ph) + unat (ph_Filesz ph) \<le> length data \<and> length data < 2 ^ 63 \<and>
     ph_Filesz ph \<le> ph_Memsz ph \<and> unat (ph_Memsz ph) < 2 ^ 63"

lemma sint64: "sint (w :: u64) = (if unat w < 2 ^ 63 then int (unat w) else int (unat w) - 2 ^ 64)"
proof -
  have b: "uint w < 2 ^ 64" "0 \<le> uint w" using uint_lt2p [of w] by simp_all
  have s: "sint w = (uint w + 2 ^ 63) mod 2 ^ 64 - 2 ^ 63" using int_word_sint [of "uint w", where 'a = 64] by simp
  have u: "uint w = int (unat w)" by simp
  have l: "unat w < 2 ^ 63 \<longleftrightarrow> uint w < 2 ^ 63" by (simp only: unat_eq_nat_uint nat_less_iff [OF b(2)] of_nat_power of_nat_numeral)
  show ?thesis
  proof (cases "unat w < 2 ^ 63")
    case True
    then have "uint w < 2 ^ 63" using l by blast
    then show ?thesis using True b unfolding s u [symmetric] by (simp add: mod_pos_pos_trivial)
  next
    case False
    then have "2 ^ 63 \<le> uint w" using l by simp
    then have "(uint w + 2 ^ 63) mod 2 ^ 64 = uint w + 2 ^ 63 - 2 ^ 64"
      using b by (intro int_mod_pos_eq [of _ _ 1]) simp_all
    then show ?thesis using False unfolding s u [symmetric] by simp
  qed
qed

lemma unat_plus_cases:
  "unat (a + b) = unat a + unat b \<and> unat a + unat b < 2 ^ 64 \<or> unat (a + b) + 2 ^ 64 = unat a + unat (b :: u64)"
proof (cases "unat a + unat b < 2 ^ 64")
  case True
  then show ?thesis using unat_add_no_wrap [of a b] by simp
next
  case False
  have "unat a + unat b - 2 ^ 64 < 2 ^ 64" using unat_u64_less [of a] unat_u64_less [of b] by linarith
  then have "(unat a + unat b) mod 2 ^ 64 = unat a + unat b - 2 ^ 64" using False by (metis le_mod_geq mod_less not_less)
  then show ?thesis using False by (simp add: unat_word_ariths)
qed

lemma sint_small: "unat w < 2 ^ 63 \<Longrightarrow> sint (w :: u64) = int (unat w)"
  by (simp only: sint64 if_True)

lemma unat_of_sint: "0 \<le> sint w \<Longrightarrow> sint (w :: u64) = int (unat w) \<and> unat w < 2 ^ 63"
proof (cases "unat w < 2 ^ 63")
  case False
  assume "0 \<le> sint w"
  then have "2 ^ 64 \<le> int (unat w)" unfolding sint64 if_not_P [OF False] by simp
  moreover have "int (unat w) < 2 ^ 64" using unat_u64_less [of w] by (metis of_nat_less_iff of_nat_numeral of_nat_power)
  ultimately show ?thesis by simp
qed (simp only: sint_small simp_thms)

lemma unat_sub_le: "a \<le> b \<Longrightarrow> unat (b - a) = unat b - unat (a :: u64)"
  by (rule unat_sub)

lemma length_seg_image: "seg_ok data ph \<Longrightarrow> length (seg_image data ph) = unat (ph_Memsz ph)"
  by (auto simp: seg_ok_def seg_image_def word_le_nat_alt)

lemma Prog_zeros_eq:
  assumes "unat (ph_Memsz ph) < 2 ^ 63"
  shows "Prog_zeros ph n off d =
    (let r = d @ replicate (min (n - length d) (unat (ph_Memsz ph) - unat off)) 0 in Some (r, if length r \<noteq> n then Some EOF else None))"
proof (cases "length d < n \<and> off < ph_Memsz ph")
  case True
  have "unat (ph_Memsz ph - off) = unat (ph_Memsz ph) - unat off" using True by (intro unat_sub_le less_imp_le) blast
  then have "sint (ph_Memsz ph - off) = int (unat (ph_Memsz ph) - unat off)" using assms by (subst sint_small) simp_all
  moreover have "nat (min (int (n - length d)) (int (unat (ph_Memsz ph) - unat off))) = min (n - length d) (unat (ph_Memsz ph) - unat off)"
    by (simp add: min_def)
  moreover have "\<not> min (int (n - length d)) (int (unat (ph_Memsz ph) - unat off)) < 0" by simp
  ultimately show ?thesis using True by (simp add: Prog_zeros_def Let_def del: length_append length_replicate of_nat_diff)
next
  case False
  then have "min (n - length d) (unat (ph_Memsz ph) - unat off) = 0" by (auto simp: word_less_nat_alt)
  then show ?thesis using False unfolding Prog_zeros_def if_not_P [OF False] Let_def by simp
qed

lemma getReader_inside:
  assumes "unat off + n \<le> length (f_data f)" "length (f_data f) < 2 ^ 63"
  shows "getReader f n (sint (off :: u64)) = (take n (drop (unat off) (f_data f)), None)"
proof -
  have "sint off = int (unat off)" using assms by (intro sint_small) linarith
  then show ?thesis using assms by (auto simp: getReader_def mmap_ReadAt_def os_ReadAt_def Let_def simp del: of_nat_unat)
qed

lemma Prog_ReadAt_image_eq:
  assumes ok: "seg_ok (f_data f) ph"
  shows "Prog_ReadAt (getReader f) ph n off =
    (let d = take n (drop (unat off) (seg_image (f_data f) ph)) in Some (d, if length d \<noteq> n then Some EOF else None))"
proof -
  let ?F = "unat (ph_Filesz ph)" and ?M = "unat (ph_Memsz ph)" and ?o = "unat off"
  have k: "unat (ph_Off ph) + ?F \<le> length (f_data f)" "length (f_data f) < 2 ^ 63" "?F \<le> ?M" "?M < 2 ^ 63"
    using ok by (simp_all add: seg_ok_def word_le_nat_alt)
  show ?thesis
  proof (cases "off < ph_Filesz ph")
    case True
    then have o: "?o < ?F" by (simp add: word_less_nat_alt)
    let ?e = "min n (?F - ?o)"
    let ?d = "take ?e (drop (unat (ph_Off ph) + ?o) (f_data f))"
    have "unat (ph_Filesz ph - off) = ?F - ?o" using True by (intro unat_sub_le less_imp_le)
    then have s: "sint (ph_Filesz ph - off) = int (?F - ?o)" using k by (subst sint_small) simp_all
    have e: "nat (min (int n) (int (?F - ?o))) = ?e" by (simp add: min_def)
    have p: "\<not> min (int n) (int (?F - ?o)) < 0" by simp
    have u: "unat (ph_Off ph + off) = unat (ph_Off ph) + ?o" using k o by (intro unat_add_no_wrap) simp
    have r: "getReader f ?e (sint (ph_Off ph + off)) = (?d, None)" unfolding u [symmetric] using k o u by (intro getReader_inside) simp_all
    have l: "length ?d = ?e" using k o by simp
    have v: "unat (off + word_of_nat ?e) = ?o + ?e" using k o by (subst unat_add_no_wrap) (simp_all add: unat_of_nat)
    have img: "take n (drop ?o (seg_image (f_data f) ph)) = ?d @ replicate (min (n - ?e) (?M - (?o + ?e))) 0"
    proof -
      let ?s = "take (?F - ?o) (drop (unat (ph_Off ph) + ?o) (f_data f))"
      have "drop ?o (seg_image (f_data f) ph) = ?s @ replicate (?M - ?F) 0"
        using k o by (simp add: seg_image_def drop_take add.commute)
      moreover have "length ?s = ?F - ?o" using k o by simp
      moreover have "min (n - (?F - ?o)) (?M - ?F) = min (n - ?e) (?M - (?o + ?e))" using o by (auto simp: min_def)
      ultimately have "take n (drop ?o (seg_image (f_data f) ph)) = take n ?s @ replicate (min (n - ?e) (?M - (?o + ?e))) 0"
        by (metis append_assoc take_append take_replicate)
      then show ?thesis by (simp only: take_take)
    qed
    have "Prog_ReadAt (getReader f) ph n off = Prog_zeros ph n (off + word_of_nat ?e) ?d"
      using True s e r l p by (simp add: Prog_ReadAt_def Let_def)
    also have "\<dots> = (let d = take n (drop ?o (seg_image (f_data f) ph)) in Some (d, if length d \<noteq> n then Some EOF else None))"
      unfolding Prog_zeros_eq [OF k(4)] v l img ..
    finally show ?thesis .
  next
    case False
    then have "?F \<le> ?o" by (simp add: word_less_nat_alt)
    then have "take n (drop ?o (seg_image (f_data f) ph)) = [] @ replicate (min (n - length []) (?M - ?o)) 0"
      using k by (simp add: seg_image_def)
    then show ?thesis using False unfolding Prog_ReadAt_def if_not_P [OF False] Prog_zeros_eq [OF k(4)] by simp
  qed
qed

section \<open>Virtual addresses\<close>

definition file_ok :: "elf_File \<Rightarrow> bool" where
  "file_ok f \<longleftrightarrow> list_all (seg_ok (f_data f)) (f_loadData f)"

lemma ProgByVirtualAddressD:
  assumes "ProgByVirtualAddress addr f = Some ph"
  shows "ph \<in> set (f_loadData f)" "prog_contains addr ph"
  using assms by (auto simp: ProgByVirtualAddress_def find_Some_iff)

lemma seg_of:
  assumes "file_ok f" "ProgByVirtualAddress addr f = Some ph"
  shows "seg_ok (f_data f) ph"
  using assms(1) ProgByVirtualAddressD(1) [OF assms(2)] by (auto simp: file_ok_def list_all_iff)

definition image_read :: "nat \<Rightarrow> u64 \<Rightarrow> Prog \<Rightarrow> elf_File \<Rightarrow> byte list \<times> elferr option" where
  "image_read n addr ph f =
     (let d = take n (drop (unat (addr - ph_Vaddr ph)) (seg_image (f_data f) ph)) in (d, if length d \<noteq> n then Some (ErrIO EOF) else None))"

lemma File_ReadAt_image:
  assumes "file_ok f" "ProgByVirtualAddress addr f = Some ph" "0 < n"
  shows "File_ReadAt n addr f = Some (image_read n addr ph f)"
  using assms(2,3) Prog_ReadAt_image_eq [OF seg_of [OF assms(1,2)]]
  by (simp add: File_ReadAt_def image_read_def Let_def)

lemma prog_contains_offset:
  assumes "prog_contains addr ph"
  shows "unat (addr - ph_Vaddr ph) < unat (ph_Memsz ph)"
proof -
  have a: "ph_Vaddr ph \<le> addr" "addr < ph_Vaddr ph + ph_Memsz ph" using assms by (simp_all add: prog_contains_def)
  have "unat (addr - ph_Vaddr ph) = unat addr - unat (ph_Vaddr ph)" using a(1) by (rule unat_sub_le)
  moreover have "unat (ph_Vaddr ph + ph_Memsz ph) \<le> unat (ph_Vaddr ph) + unat (ph_Memsz ph)"
    by (simp add: unat_word_ariths)
  ultimately show ?thesis using a by (simp add: word_le_nat_alt word_less_nat_alt)
qed

lemma Subslice_inside:
  assumes "length data < 2 ^ 63" "unat off + unat len \<le> length data" "0 < unat len"
  shows "mmap_Subslice data off len = Some (Inr (take (unat len) (drop (unat off) data)))"
proof -
  have "unat (off + len) = unat off + unat len" using assms(1,2) by (intro unat_add_no_wrap) simp
  then have "sint (off + len) = int (unat off + unat len)" "sint off = int (unat off)" "sint len = int (unat len)"
    using assms(1,2) sint_small [of "off + len"] sint_small [of off] sint_small [of len] by linarith+
  then show ?thesis using assms by (simp add: mmap_Subslice_def subslice_check_def del: of_nat_unat)
qed

text \<open>The request lies in the part of the segment that is in the file, and the file is mapped: nothing has to be copied.\<close>

definition in_mapping :: "u64 \<Rightarrow> u64 \<Rightarrow> Prog \<Rightarrow> elf_File \<Rightarrow> bool" where
  "in_mapping addr sz ph f \<longleftrightarrow> f_mmapped f \<and> unat (addr - ph_Vaddr ph) + unat sz \<le> unat (ph_Filesz ph)"

lemma VirtualMemory_cases:
  assumes "file_ok f" "ProgByVirtualAddress addr f = Some ph" "0 < sint sz" "unat sz + unat (ph_Memsz ph) < 2 ^ 63"
  shows "VirtualMemory addr sz maxSize f =
    Some (if in_mapping addr sz ph f \<or> unat sz \<le> maxSize then image_read (unat sz) addr ph f else ([], Some ErrTooLarge))"
proof -
  note ok = seg_of [OF assms(1,2)]
  let ?o = "addr - ph_Vaddr ph"
  have z: "sint sz = int (unat sz)" "unat sz < 2 ^ 63" "sz \<noteq> 0" using unat_of_sint [of sz] assms(3) by auto
  have k: "unat (ph_Off ph) + unat (ph_Filesz ph) \<le> length (f_data f)" "length (f_data f) < 2 ^ 63"
    "unat (ph_Filesz ph) \<le> unat (ph_Memsz ph)" "unat (ph_Memsz ph) < 2 ^ 63"
    using ok by (simp_all add: seg_ok_def word_le_nat_alt)
  have o: "unat ?o < unat (ph_Memsz ph)" using ProgByVirtualAddressD(2) [OF assms(2)] by (rule prog_contains_offset)
  have m: "unat ?o + unat sz < 2 ^ 63" using o assms(4) by linarith
  have u: "unat (?o + sz) = unat ?o + unat sz" using m by (intro unat_add_no_wrap) simp
  have "sint (?o + sz) = int (unat ?o + unat sz)" using m u sint_small [of "?o + sz"] by simp
  moreover have "sint (ph_Filesz ph) = int (unat (ph_Filesz ph))" using k by (intro sint_small) simp
  ultimately have c: "sint (?o + sz) \<le> sint (ph_Filesz ph) \<and> f_mmapped f \<longleftrightarrow> in_mapping addr sz ph f"
    by (auto simp: in_mapping_def simp del: of_nat_unat)
  have n: "(sint sz < 0) = False" "(sint sz > int maxSize) = (\<not> unat sz \<le> maxSize)" using z(1) by (auto simp del: of_nat_unat)
  have vm: "VirtualMemory addr sz maxSize f =
    (if in_mapping addr sz ph f
     then (case mmap_Subslice (f_data f) (ph_Off ph + ?o) sz of None \<Rightarrow> None | Some (Inl e) \<Rightarrow> Some ([], Some (ErrIO e)) | Some (Inr d) \<Rightarrow> Some (d, None))
     else if \<not> unat sz \<le> maxSize then Some ([], Some ErrTooLarge)
     else map_option (\<lambda>(d, e). (d, map_option ErrIO e)) (Prog_ReadAt (getReader f) ph (unat sz) ?o))"
    using z(3) by (simp only: VirtualMemory_def Let_def assms(2) option.case c n if_False)
  show ?thesis
  proof (cases "in_mapping addr sz ph f")
    case False
    have "map_option (\<lambda>(d, e). (d, map_option ErrIO e)) (Prog_ReadAt (getReader f) ph (unat sz) ?o) = Some (image_read (unat sz) addr ph f)"
      using Prog_ReadAt_image_eq [OF ok, of "unat sz" ?o] by (auto simp: image_read_def Let_def)
    then show ?thesis using False by (simp add: vm)
  next
    case True
    then have i: "unat ?o + unat sz \<le> unat (ph_Filesz ph)" by (simp add: in_mapping_def)
    have v: "unat (ph_Off ph + ?o) = unat (ph_Off ph) + unat ?o" using k i by (intro unat_add_no_wrap) simp
    have "0 < unat sz" using z(1) assms(3) by linarith
    then have "mmap_Subslice (f_data f) (ph_Off ph + ?o) sz =
        Some (Inr (take (unat sz) (drop (unat (ph_Off ph) + unat ?o) (f_data f))))"
      using Subslice_inside [of "f_data f" "ph_Off ph + ?o" sz] k i v by simp
    moreover have "take (unat sz) (drop (unat ?o) (seg_image (f_data f) ph)) = take (unat sz) (drop (unat (ph_Off ph) + unat ?o) (f_data f))"
      using k i by (simp add: seg_image_def drop_take min_def add.commute)
    ultimately show ?thesis using True k i by (simp add: vm image_read_def Let_def)
  qed
qed

lemma VirtualMemory_image_eq:
  assumes "file_ok f" "ProgByVirtualAddress addr f = Some ph" "0 < sint sz" "sint sz \<le> int maxSize"
    "maxSize + unat (ph_Memsz ph) < 2 ^ 63"
  shows "VirtualMemory addr sz maxSize f = Some (image_read (unat sz) addr ph f)"
proof -
  have "unat sz \<le> maxSize" using assms(3,4) unat_of_sint [of sz] by linarith
  moreover from this have "unat sz + unat (ph_Memsz ph) < 2 ^ 63" using assms(5) by linarith
  ultimately show ?thesis using VirtualMemory_cases [OF assms(1-3)] by simp
qed


definition example_prog :: Prog where
  "example_prog = \<lparr>ph_Type = PT_LOAD, ph_Flags = 5, ph_Off = 2, ph_Vaddr = 0x1000, ph_Paddr = 0x1000, ph_Filesz = 4, ph_Memsz = 6, ph_Align = 1\<rparr>"

definition example_elf :: "byte list \<Rightarrow> bool \<Rightarrow> Prog list \<Rightarrow> elf_File" where
  "example_elf data mmapped progs =
     \<lparr>f_data = data, f_mmapped = mmapped, f_loadData = filter (\<lambda>p. ph_Type p = PT_LOAD) progs, f_ROData = [], f_Progs = progs,
      f_Sections = None, f_neededIndexes = [], f_soNameIndex = 0, f_Shoff = 0, f_Shnum = 0, f_Shstrndx = 0, f_gnuHash_addr = 0,
      f_gnuHash_header = replicate 16 0, f_sysvHash_addr = 0, f_sysvHash_header = replicate 8 0, f_stringsAddr = 0, f_symbolsAddr = 0, f_bias = 0,
      f_InsideCore = False, f_Type = 3, f_Machine = EM_X86_64, f_Entry = 0, f_notesError = Some errNotProcessed, f_gnuBuildId = [],
      f_goBuildId = [], f_golangVersion = None, f_debuglinkPath = None\<rparr>"


section \<open>Headers that cannot be trusted\<close>

text \<open>
  reading memory of a segment that claims a size of \<open>2 ^ 63\<close> bytes or more behind the address panics, since the size becomes
  negative as an \<open>int64\<close>: the header of a file to be profiled stops the profiler.
\<close>

theorem huge_segment_panics:
  assumes "ProgByVirtualAddress addr f = Some ph" "addr - ph_Vaddr ph < ph_Filesz ph" "2 ^ 63 \<le> unat (ph_Filesz ph - (addr - ph_Vaddr ph))" "0 < n"
  shows "File_ReadAt n addr f = None"
proof -
  have "sint (ph_Filesz ph - (addr - ph_Vaddr ph)) < 0"
    using assms(3) unat_of_sint [of "ph_Filesz ph - (addr - ph_Vaddr ph)"] by linarith
  then show ?thesis using assms by (simp add: File_ReadAt_def Prog_ReadAt_def Let_def)
qed

theorem huge_segment_panics_witness:
  "File_ReadAt 8 0x1000 (example_elf [1, 2, 3] True [example_prog\<lparr>ph_Filesz := 0x8000000000000000, ph_Memsz := 0x8000000000000000\<rparr>]) = None"
  by (rule huge_segment_panics [where ph = "example_prog\<lparr>ph_Filesz := 0x8000000000000000, ph_Memsz := 0x8000000000000000\<rparr>"])
    (simp_all add: example_elf_def example_prog_def ProgByVirtualAddress_def prog_contains_def)

text \<open>
  \<open>Subslice\<close> at an offset inside the mapping refuses what reaches behind its end unless the length is negative or the sum
  of offset and length is \<open>2 ^ 63\<close> or more: then the check passes, and the slice reaches behind the mapping.
\<close>

theorem Subslice_escapes_iff:
  assumes "0 \<le> sint off" "sint off < int (length data)" "length data < 2 ^ 63"
  shows "mmap_Subslice data off len = None \<longleftrightarrow> sint len < 0 \<or> 2 ^ 63 \<le> sint off + sint len"
proof (cases "sint len < 0")
  case True
  have o: "sint off = int (unat off)" "unat off < 2 ^ 63" using unat_of_sint [OF assms(1)] by simp_all
  have "2 ^ 63 \<le> unat len" using True sint_small [of len] by fastforce
  then have "sint (off + len) \<le> int (length data)"
    using sint64 [of "off + len"] unat_plus_cases [of off len] unat_u64_less [of len] assms(2) o by (auto simp del: of_nat_unat)
  then show ?thesis using True by (simp add: mmap_Subslice_def subslice_check_def)
next
  case False
  have o: "sint off = int (unat off)" "unat off < 2 ^ 63" using unat_of_sint [OF assms(1)] by simp_all
  have l: "sint len = int (unat len)" "unat len < 2 ^ 63" using unat_of_sint [of len] False by simp_all
  have u: "unat (off + len) = unat off + unat len" using o l by (intro unat_add_no_wrap) simp
  show ?thesis
  proof (cases "unat off + unat len < 2 ^ 63")
    case True
    then have "sint (off + len) = int (unat off + unat len)" using u sint_small [of "off + len"] by simp
    then show ?thesis using True assms o l by (simp add: mmap_Subslice_def subslice_check_def del: of_nat_unat)
  next
    case False
    then have "sint (off + len) < 0" using u sint64 [of "off + len"] o l by (simp del: of_nat_unat)
    then show ?thesis using False assms o l by (simp add: mmap_Subslice_def subslice_check_def del: of_nat_unat)
  qed
qed

theorem Subslice_escapes_iff_witness:
  "mmap_Subslice [1, 2, 3] 1 0x7fffffffffffffff = None \<and> mmap_Subslice [1, 2, 3] 1 0x7ffffffffffffffe \<noteq> None"
  using Subslice_escapes_iff [of 1 "[1, 2, 3]" "0x7fffffffffffffff"] Subslice_escapes_iff [of 1 "[1, 2, 3]" "0x7ffffffffffffffe"] by simp

text \<open>
  the zeros that \<open>ReadAt\<close> puts in place of a hole of the source are returned together with the error of the hole, so that the
  read fails for every caller that looks at the error.
\<close>

theorem hole_read_fails:
  assumes "off < ph_Filesz ph" "unat (ph_Filesz ph) < 2 ^ 63" "rd (min n (unat (ph_Filesz ph - off))) (sint (ph_Off ph + off)) = ([], Some EFAULT)"
  shows "Prog_ReadAt rd ph n off = Some (replicate (min n (unat (ph_Filesz ph - off))) 0, Some EFAULT)"
proof -
  have "unat (ph_Filesz ph - off) < 2 ^ 63" using assms(1,2) unat_sub_le [of off "ph_Filesz ph"] by simp
  then have s: "sint (ph_Filesz ph - off) = int (unat (ph_Filesz ph - off))" by (rule sint_small)
  have e: "nat (min (int n) (int (unat (ph_Filesz ph - off)))) = min n (unat (ph_Filesz ph - off))"
    by (simp add: min_def del: of_nat_unat)
  have "\<not> min (int n) (int (unat (ph_Filesz ph - off))) < 0" by (simp del: of_nat_unat)
  then show ?thesis using assms(1,3) unfolding Prog_ReadAt_def Let_def s e if_P [OF assms(1)] by simp
qed

theorem hole_read_fails_witness:
  "Prog_ReadAt (\<lambda>n off. ([], Some EFAULT)) example_prog 8 1 = Some ([0, 0, 0], Some EFAULT)"
proof -
  have "min 8 (unat (ph_Filesz example_prog - 1)) = 3" by (simp add: example_prog_def)
  then show ?thesis using hole_read_fails [of 1 example_prog "\<lambda>n off. ([], Some EFAULT)" 8]
    by (simp add: example_prog_def numeral_3_eq_3)
qed

lemma name_sections_nameless:
  "name_sections strtab xs = (Some e, ss) \<Longrightarrow> \<exists>s \<in> set ss. sh_Name s = []"
  by (induction strtab xs arbitrary: ss rule: name_sections.induct) (auto split: option.splits prod.splits)

lemma map_sum_InlD: "map_sum f g x = Inl e \<Longrightarrow> \<exists>y. e = f y"
  by (cases x) auto

lemma Section_Data_errors: "Section_Data f sh n = Some (Inl e) \<Longrightarrow> e \<noteq> ErrSectionName"
  by (auto simp: Section_Data_def split: if_splits prod.splits option.splits dest: map_sum_InlD)

text \<open>
  when the section headers can be read but not their names, \<open>LoadSections\<close> fails, but the sections stay in the file: the next
  call reports success on a file some of whose sections have no name.
\<close>

theorem LoadSections_failure_forgotten:
  assumes "LoadSections f = Some (Some ErrSectionName, f')"
  shows "LoadSections f' = Some (None, f') \<and> sections_of f' \<noteq> [] \<and> (\<exists>s \<in> set (sections_of f'). sh_Name s = [])"
proof -
  let ?ss = "map parse_Section64 (chunks 64 (unat (f_Shnum f)) (fst (os_ReadAt (f_data f) (64 * unat (f_Shnum f)) (sint (f_Shoff f)))))"
  obtain strtab ss where n: "name_sections strtab ?ss = (Some ErrSectionName, ss)" and f': "f' = f\<lparr>f_Sections := Some ss\<rparr>"
    and c: "\<not> f_InsideCore f"
    using assms by (auto simp: LoadSections_def Let_def dest: Section_Data_errors split: if_splits prod.splits option.splits sum.splits)
  obtain s where "s \<in> set ss" "sh_Name s = []" using name_sections_nameless [OF n] by blast
  then show ?thesis using c by (auto simp: f' LoadSections_def sections_of_def)
qed

definition nameless_elf :: elf_File where
  "nameless_elf = (example_elf ([5, 0, 0, 0, 3, 0, 0, 0] @ replicate 24 0 @ [1] @ replicate 31 0) False [])\<lparr>f_Shnum := 1\<rparr>"

theorem LoadSections_failure_forgotten_witness:
  "\<exists>f'. LoadSections nameless_elf = Some (Some ErrSectionName, f') \<and> LoadSections f' = Some (None, f')"
proof -
  let ?d = "[5, 0, 0, 0, 3, 0, 0, 0] @ replicate 24 0 @ [1] @ replicate 31 0 :: byte list"
  define s where "s = snd (parse_Section64 ?d)"
  have s: "fst (parse_Section64 ?d) = 5" "sh_Flags s = 0" "sh_Offset s = 0" "sh_FileSize s = 1" unfolding s_def by code_simp+
  then have p: "parse_Section64 ?d = (5, s)" by (simp add: s_def prod_eq_iff)
  have "os_ReadAt ?d 64 0 = (?d, None)" by (simp add: os_ReadAt_def)
  moreover have "Section_Data f s maxBytesLargeSection = Some (Inr [5])" if "f_data f = ?d" "\<not> f_mmapped f" for f
    using that s(2-4) by (simp add: Section_Data_def Section_ReadAt_def getReader_def os_ReadAt_def)
  ultimately obtain f' where "LoadSections nameless_elf = Some (Some ErrSectionName, f')"
    using p by (auto simp: LoadSections_def nameless_elf_def example_elf_def getString_def Let_def)
  then show ?thesis using LoadSections_failure_forgotten by blast
qed

end
