(* ===== verification/ElfSymbolProps.thy ===== *)
theory ElfSymbolProps
  imports ElfSymbols ElfFileProps
begin

text \<open>
  The symbol lookup: on a well-formed \<open>DT_GNU_HASH\<close> table it finds a symbol exactly when the table has it, and what happens on
  tables that are not well formed.
\<close>

unbundle bit_operations_syntax

section \<open>Well-formed tables\<close>

definition bloom_mask :: "gnuHashHeader \<Rightarrow> u32 \<Rightarrow> u64" where
  "bloom_mask hdr h = push_bit (unat (h mod 64)) 1 OR push_bit (unat (drop_bit (unat (gh_bloomShift hdr)) h mod 64)) 1"

definition bloom_addr :: "elf_File \<Rightarrow> u32 \<Rightarrow> int64" where "bloom_addr f k = f_gnuHash_addr f + 16 + 8 * ucast k"

definition bucket_addr :: "elf_File \<Rightarrow> gnuHashHeader \<Rightarrow> u32 \<Rightarrow> int64" where
  "bucket_addr f hdr b = f_gnuHash_addr f + 16 + ucast (gh_bloomSize hdr) * 8 + 4 * ucast b"

definition chain_addr :: "elf_File \<Rightarrow> gnuHashHeader \<Rightarrow> nat \<Rightarrow> int64" where
  "chain_addr f hdr i = f_gnuHash_addr f + 16 + ucast (gh_bloomSize hdr) * 8 +
     (4 * ucast (gh_numBuckets hdr) + 4 * ucast (word_of_nat i - gh_symbolOffset hdr))"

text \<open>
  The table of the symbols with the indices from \<open>so\<close> to \<open>n\<close>: they are grouped by bucket, the filter has their bits, a bucket has the
  first of its symbols or zero, and the chain has the hash of each with the lowest bit set at the last of a bucket. A symbol
  is what the symbol table has at its index.
\<close>

definition sym_bucket :: "gnuHashHeader \<Rightarrow> (nat \<Rightarrow> elf_Symbol) \<Rightarrow> nat \<Rightarrow> u32" where
  "sym_bucket hdr syms i = calcGNUHash (sym_Name (syms i)) mod gh_numBuckets hdr"

definition chain_word :: "gnuHashHeader \<Rightarrow> (nat \<Rightarrow> elf_Symbol) \<Rightarrow> nat \<Rightarrow> nat \<Rightarrow> u32" where
  "chain_word hdr syms n i =
     (let h = calcGNUHash (sym_Name (syms i))
      in if Suc i = n \<or> sym_bucket hdr syms (Suc i) \<noteq> sym_bucket hdr syms i then h OR 1 else h AND NOT 1)"

definition gnu_table_ok :: "elf_File \<Rightarrow> gnuHashHeader \<Rightarrow> (nat \<Rightarrow> elf_Symbol) \<Rightarrow> nat \<Rightarrow> bstring \<Rightarrow> bool" where
  "gnu_table_ok f hdr syms n symbol \<longleftrightarrow>
     (let so = unat (gh_symbolOffset hdr)
      in gh_bloomSize hdr \<noteq> 0 \<and> gh_numBuckets hdr \<noteq> 0 \<and> 0 < so \<and> n < 2 ^ 32 \<and>
         (\<forall>k < gh_bloomSize hdr. \<exists>w. read_int 8 (bloom_addr f k) f = Some (Inr w) \<and>
            (\<forall>i \<in> {so..<n}. let h = calcGNUHash (sym_Name (syms i))
               in (h div 64) mod gh_bloomSize hdr = k \<longrightarrow> w AND bloom_mask hdr h = bloom_mask hdr h)) \<and>
         (\<forall>b < gh_numBuckets hdr. read_int 4 (bucket_addr f hdr b) f =
            Some (Inr (case find (\<lambda>i. sym_bucket hdr syms i = b) [so..<n] of None \<Rightarrow> 0 | Some i \<Rightarrow> (word_of_nat i :: u32)))) \<and>
         (\<forall>i \<in> {so..<n}. read_int 4 (chain_addr f hdr i) f = Some (Inr (chain_word hdr syms n i))) \<and>
         (\<forall>i \<in> {so..<n}. \<forall>j \<in> {i..<n}. \<forall>k \<in> {j..<n}.
            sym_bucket hdr syms i = sym_bucket hdr syms k \<longrightarrow> sym_bucket hdr syms j = sym_bucket hdr syms i) \<and>
         (\<forall>i \<in> {so..<n}. readAndMatchSymbol (word_of_nat i) symbol f =
            Some (if symbol = sym_Name (syms i) then Some (syms i) else None)))"

definition search_result :: "(nat \<Rightarrow> elf_Symbol) \<Rightarrow> bstring \<Rightarrow> nat list \<Rightarrow> elferr + elf_Symbol" where
  "search_result syms symbol js =
     (case find (\<lambda>i. sym_Name (syms i) = symbol) js of None \<Rightarrow> Inl ErrSymbolNotFound | Some i \<Rightarrow> Inr (syms i))"

lemma or_one_facts: "(h AND NOT 1) OR 1 = h OR 1" "(h OR 1) OR 1 = h OR 1" "(h OR 1) AND 1 \<noteq> 0" "(h AND NOT 1) AND 1 = 0" for h :: u32
proof -
  show "(h AND NOT 1) OR 1 = h OR 1" "(h OR 1) OR 1 = h OR 1" "(h AND NOT 1) AND 1 = 0"
    by (auto simp: bit_eq_iff bit_simps)
  have "bit ((h OR 1) AND 1) 0" by (simp add: bit_simps)
  then show "(h OR 1) AND 1 \<noteq> 0" by auto
qed

lemma chain_word_facts:
  "chain_word hdr syms n i OR 1 = calcGNUHash (sym_Name (syms i)) OR 1"
  "chain_word hdr syms n i AND 1 \<noteq> 0 \<longleftrightarrow> Suc i = n \<or> sym_bucket hdr syms (Suc i) \<noteq> sym_bucket hdr syms i"
  by (auto simp: chain_word_def Let_def or_one_facts or_one_facts [simplified])

lemma chain_addr_Suc:
  assumes "unat (gh_symbolOffset hdr) \<le> i" "Suc i < 2 ^ 32"
  shows "chain_addr f hdr (Suc i) = chain_addr f hdr i + 4"
proof -
  have e: "word_of_nat j - gh_symbolOffset hdr = word_of_nat (j - unat (gh_symbolOffset hdr))" if "unat (gh_symbolOffset hdr) \<le> j" for j
    using that by (simp add: of_nat_diff)
  have u: "(ucast (word_of_nat k :: u32) :: u64) = word_of_nat k" if "k < 2 ^ 32" for k
    using that by (simp add: unsigned_of_nat take_bit_nat_eq_self)
  have "i - unat (gh_symbolOffset hdr) < 2 ^ 32" "Suc i - unat (gh_symbolOffset hdr) < 2 ^ 32" using assms by simp_all
  then have "chain_addr f hdr (Suc i) = f_gnuHash_addr f + 16 + ucast (gh_bloomSize hdr) * 8 +
      (4 * ucast (gh_numBuckets hdr) + 4 * word_of_nat (Suc (i - unat (gh_symbolOffset hdr))))"
    "chain_addr f hdr i = f_gnuHash_addr f + 16 + ucast (gh_bloomSize hdr) * 8 +
      (4 * ucast (gh_numBuckets hdr) + 4 * word_of_nat (i - unat (gh_symbolOffset hdr)))"
    using assms by (simp_all only: chain_addr_def e [OF assms(1)] e [OF le_SucI [OF assms(1)]] u Suc_diff_le)
  then show ?thesis by (simp add: algebra_simps)
qed


lemma gnu_table_okD:
  assumes "gnu_table_ok f hdr syms n symbol" "unat (gh_symbolOffset hdr) \<le> i" "i < n"
  shows "read_int 4 (chain_addr f hdr i) f = Some (Inr (chain_word hdr syms n i))"
    "readAndMatchSymbol (word_of_nat i) symbol f = Some (if symbol = sym_Name (syms i) then Some (syms i) else None)" "n < 2 ^ 32"
  using assms by (simp_all add: gnu_table_ok_def Let_def)

lemma gnu_chain_run:
  assumes "gnu_table_ok f hdr syms n symbol" "unat (gh_symbolOffset hdr) \<le> i" "i < n" "n - i \<le> fuel"
  shows "gnu_chain fuel (calcGNUHash symbol OR 1) (word_of_nat i) (chain_addr f hdr i) symbol f =
    Some (search_result syms symbol (i # takeWhile (\<lambda>j. sym_bucket hdr syms j = sym_bucket hdr syms i) [Suc i..<n]))"
  using assms(2-4)
proof (induction "n - i" arbitrary: i fuel)
  case 0
  then show ?case by simp
next
  case (Suc m)
  then obtain fuel' where fuel: "fuel = Suc fuel'" by (cases fuel) auto
  note t = gnu_table_okD [OF assms(1) Suc.prems(1,2)]
  let ?next = "gnu_chain fuel' (calcGNUHash symbol OR 1) (word_of_nat i + 1) (chain_addr f hdr i + 4) symbol f"
  have step: "gnu_chain fuel (calcGNUHash symbol OR 1) (word_of_nat i) (chain_addr f hdr i) symbol f =
      (if symbol = sym_Name (syms i) then Some (Inr (syms i))
       else if Suc i = n \<or> sym_bucket hdr syms (Suc i) \<noteq> sym_bucket hdr syms i then Some (Inl ErrSymbolNotFound) else ?next)"
    unfolding fuel gnu_chain.simps t(1) using t(2) by (auto simp: chain_word_facts)
  show ?case
  proof (cases "symbol = sym_Name (syms i) \<or> Suc i = n \<or> sym_bucket hdr syms (Suc i) \<noteq> sym_bucket hdr syms i")
    case True
    then show ?thesis unfolding step using Suc.prems(2) by (cases "Suc i < n") (auto simp: search_result_def upt_conv_Cons)
  next
    case False
    then have i: "Suc i < n" using Suc.prems(2) by simp
    have n: "word_of_nat i + 1 = (word_of_nat (Suc i) :: u32)" "chain_addr f hdr i + 4 = chain_addr f hdr (Suc i)"
      using chain_addr_Suc [OF Suc.prems(1), of f] i t(3) by simp_all
    have "?next = Some (search_result syms symbol (Suc i # takeWhile (\<lambda>j. sym_bucket hdr syms j = sym_bucket hdr syms (Suc i)) [Suc (Suc i)..<n]))"
      unfolding n by (rule Suc.hyps(1)) (use Suc.hyps(2) Suc.prems i fuel in auto)
    then show ?thesis unfolding step using False i by (auto simp: search_result_def upt_conv_Cons)
  qed
qed

lemma find_append: "find P (xs @ ys) = (case find P xs of None \<Rightarrow> find P ys | Some x \<Rightarrow> Some x)"
  by (induction xs) auto

lemma sorted_hd_le: "sorted xs \<Longrightarrow> x \<in> set xs \<Longrightarrow> hd xs \<le> (x :: nat)"
  by (cases xs) auto

lemma find_none: "\<forall>x \<in> set xs. \<not> P x \<Longrightarrow> find P xs = None" by (simp add: find_None_iff)

text \<open>The symbols of a bucket are a run of the table, so that what is not in the run of the bucket is not in the table.\<close>

lemma search_run:
  assumes ok: "gnu_table_ok f hdr syms n symbol" and b: "b = calcGNUHash symbol mod gh_numBuckets hdr"
    and first: "find (\<lambda>i. sym_bucket hdr syms i = b) [unat (gh_symbolOffset hdr)..<n] = Some s"
  shows "search_result syms symbol (s # takeWhile (\<lambda>j. sym_bucket hdr syms j = sym_bucket hdr syms s) [Suc s..<n]) =
    search_result syms symbol [unat (gh_symbolOffset hdr)..<n] \<and> unat (gh_symbolOffset hdr) \<le> s \<and> s < n"
proof -
  let ?so = "unat (gh_symbolOffset hdr)" and ?B = "sym_bucket hdr syms" and ?P = "\<lambda>i. sym_Name (syms i) = symbol"
  obtain k where k: "k < length [?so..<n]" "?B ([?so..<n] ! k) = b" "s = [?so..<n] ! k" "\<forall>j<k. ?B ([?so..<n] ! j) \<noteq> b"
    using first unfolding find_Some_iff by auto
  have s: "?so \<le> s" "s < n" "?B s = b" using k by auto
  have before: "?B j \<noteq> b" if "?so \<le> j" "j < s" for j
    using k(4) [rule_format, of "j - ?so"] that k(1,3) by simp
  have nb: "?B j = b" if "?P j" for j using that b by (simp add: sym_bucket_def)
  have split: "[?so..<n] = [?so..<s] @ s # [Suc s..<n]" using s upt_add_eq_append [of ?so s "n - s"] by (simp add: upt_conv_Cons)
  let ?t = "takeWhile (\<lambda>j. ?B j = ?B s) [Suc s..<n]" and ?d = "dropWhile (\<lambda>j. ?B j = ?B s) [Suc s..<n]"
  have c: "?B j = ?B i" if "i \<in> {?so..<n}" "j \<in> {i..<n}" "k \<in> {j..<n}" "?B i = ?B k" for i j k
    using ok that unfolding gnu_table_ok_def Let_def by blast
  have "?B j \<noteq> b" if "j \<in> set ?d" for j
  proof
    assume j: "?B j = b"
    have "?d \<noteq> []" using that by (metis empty_iff empty_set)
    then have h: "?B (hd ?d) \<noteq> ?B s" by (rule hd_dropWhile)
    have "sorted (?t @ ?d)" by simp
    then have "sorted ?d" by (simp only: sorted_append)
    then have "hd ?d \<le> j" using that by (rule sorted_hd_le)
    moreover have "hd ?d \<in> set [Suc s..<n]" "j \<in> set [Suc s..<n]" using that \<open>?d \<noteq> []\<close> by (meson hd_in_set set_dropWhileD)+
    ultimately show False using c [of s "hd ?d" j] h j s by simp
  qed
  then have "find ?P ?d = None" using nb by (intro find_none) blast
  moreover have "find ?P [?so..<s] = None" using nb before by (intro find_none) (metis atLeastLessThan_iff set_upt)
  moreover have "find ?P [Suc s..<n] = (case find ?P ?t of None \<Rightarrow> find ?P ?d | Some x \<Rightarrow> Some x)"
    by (metis find_append takeWhile_dropWhile_id)
  ultimately have "find ?P [?so..<n] = find ?P (s # ?t)" unfolding split by (simp add: find_append split: option.splits)
  then show ?thesis using s by (simp add: search_result_def)
qed


text \<open>
  C16: on a well-formed \<open>DT_GNU_HASH\<close> table \<open>LookupSymbol\<close> gives the first symbol of that name when the table has one, and
  \<open>ErrSymbolNotFound\<close> otherwise: the Bloom filter, the buckets and the chains together are a search of the table. As many steps
  of the chain as the table has symbols are enough.
\<close>

theorem LookupSymbol_search:
  assumes "f_gnuHash_addr f \<noteq> 0" "load_gnu_header f = Some (None, f')" "gnu_table_ok f' (gnu_header (f_gnuHash_header f')) syms n symbol" "n \<le> fuel"
  shows "elf_LookupSymbol fuel symbol f =
    Some (search_result syms symbol [unat (gh_symbolOffset (gnu_header (f_gnuHash_header f')))..<n], f')"
proof -
  let ?hdr = "gnu_header (f_gnuHash_header f')" and ?h = "calcGNUHash symbol"
  let ?so = "unat (gh_symbolOffset ?hdr)" and ?b = "?h mod gh_numBuckets ?hdr" and ?k = "(?h div 64) mod gh_bloomSize ?hdr"
  have ok: "gh_bloomSize ?hdr \<noteq> 0" "gh_numBuckets ?hdr \<noteq> 0" "0 < ?so" "n < 2 ^ 32" using assms(3) by (simp_all add: gnu_table_ok_def Let_def)
  have lt: "?k < gh_bloomSize ?hdr" "?b < gh_numBuckets ?hdr" using ok by (simp_all add: word_mod_less_divisor word_gt_0)
  from assms(3) lt(1) obtain w where w: "read_int 8 (bloom_addr f' ?k) f' = Some (Inr w)"
    "\<forall>i \<in> {?so..<n}. (calcGNUHash (sym_Name (syms i)) div 64) mod gh_bloomSize ?hdr = ?k \<longrightarrow>
       w AND bloom_mask ?hdr (calcGNUHash (sym_Name (syms i))) = bloom_mask ?hdr (calcGNUHash (sym_Name (syms i)))"
    unfolding gnu_table_ok_def Let_def by blast
  have r: "read_int 4 (bucket_addr f' ?hdr ?b) f' = Some (Inr (case find (\<lambda>i. sym_bucket ?hdr syms i = ?b) [?so..<n] of None \<Rightarrow> 0 | Some i \<Rightarrow> (word_of_nat i :: u32)))"
    using assms(3) lt(2) unfolding gnu_table_ok_def Let_def by blast
  have "gnu_lookup fuel ?hdr symbol f' = Some (search_result syms symbol [?so..<n])"
  proof (cases "w AND bloom_mask ?hdr ?h = bloom_mask ?hdr ?h")
    case False
    then have "find (\<lambda>i. sym_Name (syms i) = symbol) [?so..<n] = None" using w(2) by (intro find_none) auto
    then show ?thesis using False ok w(1) by (simp add: gnu_lookup_def Let_def bloom_addr_def bloom_mask_def search_result_def)
  next
    case True
    show ?thesis
    proof (cases "find (\<lambda>i. sym_bucket ?hdr syms i = ?b) [?so..<n]")
      case None
      then have "find (\<lambda>i. sym_Name (syms i) = symbol) [?so..<n] = None" by (auto simp: find_None_iff sym_bucket_def)
      then show ?thesis using True None ok w(1) r
        by (simp add: gnu_lookup_def Let_def bloom_addr_def bloom_mask_def bucket_addr_def search_result_def)
    next
      case (Some s)
      note run = search_run [OF assms(3) refl Some]
      have z: "(word_of_nat s :: u32) \<noteq> 0" using run ok(3,4) by (simp add: word_unat_eq_iff unat_of_nat)
      have "gnu_lookup fuel ?hdr symbol f' = gnu_chain fuel (?h OR 1) (word_of_nat s) (chain_addr f' ?hdr s) symbol f'"
        using True Some ok w(1) r z by (simp add: gnu_lookup_def Let_def bloom_addr_def bloom_mask_def bucket_addr_def chain_addr_def)
      also have "\<dots> = Some (search_result syms symbol [?so..<n])"
        using gnu_chain_run [OF assms(3), of s fuel] run assms(4) by simp
      finally show ?thesis .
    qed
  qed
  then show ?thesis using assms(1,2) by (simp add: elf_LookupSymbol_def)
qed

text \<open>
  a \<open>DT_GNU_HASH\<close> header with buckets and an empty Bloom filter is refused by the first lookup, but it stays in the file: the second
  lookup finds it loaded and panics with a division by zero.
\<close>

theorem corrupt_hash_panics_later:
  assumes "f_gnuHash_addr f \<noteq> 0" "elf_LookupSymbol fuel symbol f = Some (Inl ErrHashCorrupt, f')"
    "gh_numBuckets (gnu_header (f_gnuHash_header f')) \<noteq> 0" "gh_bloomSize (gnu_header (f_gnuHash_header f')) = 0"
  shows "elf_LookupSymbol fuel' symbol' f' = None"
proof -
  have "f_gnuHash_addr f' = f_gnuHash_addr f"
    using assms(1,2) by (auto simp: elf_LookupSymbol_def load_gnu_header_def Let_def split: if_splits option.splits prod.splits)
  then show ?thesis using assms(1,3,4) by (simp add: elf_LookupSymbol_def load_gnu_header_def gnu_lookup_def)
qed

text \<open>
  a \<open>DT_HASH\<close> chain that leads from a symbol back to it without passing the symbol looked for is walked forever: no fuel is enough.
\<close>

theorem sysv_chain_diverges:
  assumes "i \<noteq> 0" "i < vh_numSymbols hdr" "readAndMatchSymbol i symbol f = Some None" "read_int 4 (offs + 4 * ucast i) f = Some (Inr i)"
  shows "sysv_chain fuel hdr i offs symbol f = Some (Inl ErrFuel)"
  by (induction fuel) (use assms in \<open>subst sysv_chain.simps, simp\<close>)+

section \<open>A small file\<close>

text \<open>
  A table with one bucket and one symbol, \<open>a\<close>: the header of the table at 8, its filter at 24, the bucket at 32, the chain at 36, the symbol
  table at 40 and the strings at 88.
\<close>

definition hash_data :: "byte list" where
  "hash_data = replicate 8 0 @ [1, 0, 0, 0, 1, 0, 0, 0, 1, 0, 0, 0, 6, 0, 0, 0] @ replicate 8 0xff @ [1, 0, 0, 0] @ [0x07, 0xb6, 2, 0] @
     replicate 24 0 @ ([0, 0, 0, 0, 0, 0, 0, 0] @ [0x77, 0, 0, 0, 0, 0, 0, 0] @ [3, 0, 0, 0, 0, 0, 0, 0]) @ [0x61, 0]"

definition hash_elf :: elf_File where
  "hash_elf = (example_elf hash_data True [example_prog\<lparr>ph_Off := 0, ph_Vaddr := 0, ph_Filesz := 90, ph_Memsz := 90\<rparr>])
     \<lparr>f_gnuHash_addr := 8, f_symbolsAddr := 40, f_stringsAddr := 88,
      f_gnuHash_header := [1, 0, 0, 0, 1, 0, 0, 0, 1, 0, 0, 0, 6, 0, 0, 0]\<rparr>"

definition hash_sym :: elf_Symbol where
  "hash_sym = \<lparr>sym_Name = [0x61], sym_Address = 0x77, sym_Size = 3\<rparr>"

lemma hash_elf_ok: "file_ok hash_elf" "length hash_data = 90" "f_data hash_elf = hash_data" "f_mmapped hash_elf"
  by (simp_all add: file_ok_def hash_elf_def example_elf_def example_prog_def seg_ok_def hash_data_def)

lemma hash_elf_read:
  assumes "0 < n" "unat a + n \<le> 90"
  shows "File_ReadAt n a hash_elf = Some (take n (drop (unat a) hash_data), None)"
    "VirtualMemory a (word_of_nat n) 4096 hash_elf = Some (take n (drop (unat a) hash_data), None)"
proof -
  let ?p = "example_prog\<lparr>ph_Off := 0, ph_Vaddr := 0, ph_Filesz := 90, ph_Memsz := 90\<rparr>"
  have p: "ProgByVirtualAddress a hash_elf = Some ?p"
    using assms by (simp add: ProgByVirtualAddress_def hash_elf_def example_elf_def prog_contains_def example_prog_def word_less_nat_alt)
  have i: "image_read n a ?p hash_elf = (take n (drop (unat a) hash_data), None)"
    using assms hash_elf_ok by (simp add: image_read_def Let_def seg_image_def example_prog_def)
  show "File_ReadAt n a hash_elf = Some (take n (drop (unat a) hash_data), None)"
    using File_ReadAt_image [OF hash_elf_ok(1) p assms(1)] i by simp
  have u: "unat (word_of_nat n :: u64) = n" using assms by (simp add: unat_of_nat)
  then have "sint (word_of_nat n :: u64) = int n" using sint_small [of "word_of_nat n"] assms by simp
  then show "VirtualMemory a (word_of_nat n) 4096 hash_elf = Some (take n (drop (unat a) hash_data), None)"
    using VirtualMemory_image_eq [OF hash_elf_ok(1) p, of "word_of_nat n" 4096] i u assms by (simp add: example_prog_def)
qed

lemma hash_elf_reads:
  "read_int 8 24 hash_elf = Some (Inr (- 1 :: u64))" "read_int 4 32 hash_elf = Some (Inr (1 :: u32))"
  "read_int 4 36 hash_elf = Some (Inr (0x2b607 :: u32))" "readAndMatchSymbol 1 [0x61] hash_elf = Some (Some hash_sym)"
  "calcGNUHash [0x61] = 0x2b606"
proof -
  have d: "take 8 (drop 24 hash_data) = [0xff, 0xff, 0xff, 0xff, 0xff, 0xff, 0xff, 0xff]" "take 4 (drop 32 hash_data) = [1, 0, 0, 0]" "take 4 (drop 36 hash_data) = [7, 0xb6, 2, 0]"
    "take 24 (drop 64 hash_data) = [0, 0, 0, 0, 0, 0, 0, 0, 0x77, 0, 0, 0, 0, 0, 0, 0, 3, 0, 0, 0, 0, 0, 0, 0]" "take 2 (drop 88 hash_data) = [0x61, 0]"
    by code_simp+
  have l: "le_at 8 0 [0xff, 0xff, 0xff, 0xff, 0xff, 0xff, 0xff, 0xff] = (- 1 :: u64)" "le_at 4 0 [1, 0, 0, 0] = (1 :: u32)" "le_at 4 0 [7, 0xb6, 2, 0] = (0x2b607 :: u32)"
    by (simp_all add: le_at_def)
  show "read_int 8 24 hash_elf = Some (Inr (- 1 :: u64))" using hash_elf_read(1) [of 8 24] d l by (simp add: read_int_def)
  show "read_int 4 32 hash_elf = Some (Inr (1 :: u32))" using hash_elf_read(1) [of 4 32] d l by (simp add: read_int_def)
  show "read_int 4 36 hash_elf = Some (Inr (0x2b607 :: u32))" using hash_elf_read(1) [of 4 36] d l by (simp add: read_int_def)
  have "File_ReadAt 24 64 hash_elf = Some ([0, 0, 0, 0, 0, 0, 0, 0, 0x77, 0, 0, 0, 0, 0, 0, 0, 3, 0, 0, 0, 0, 0, 0, 0], None)"
    using hash_elf_read(1) [of 24 64] d by simp
  moreover have "VirtualMemory 88 2 4096 hash_elf = Some ([0x61, 0], None)" using hash_elf_read(2) [of 2 88] d by simp
  moreover have "f_symbolsAddr hash_elf = 40" "f_stringsAddr hash_elf = 88" by (simp_all add: hash_elf_def)
  ultimately show "readAndMatchSymbol 1 [0x61] hash_elf = Some (Some hash_sym)"
    by (simp add: readAndMatchSymbol_def le_at_def hash_sym_def)
  show "calcGNUHash [0x61] = 0x2b606" by (simp add: calcGNUHash_def)
qed


lemma hash_elf_header: "gnu_header (f_gnuHash_header hash_elf) = \<lparr>gh_numBuckets = 1, gh_symbolOffset = 1, gh_bloomSize = 1, gh_bloomShift = 6\<rparr>"
  by (simp add: gnu_header_def hash_elf_def le_at_def)

lemma hash_elf_table: "gnu_table_ok hash_elf (gnu_header (f_gnuHash_header hash_elf)) (\<lambda>_. hash_sym) 2 [0x61]"
proof -
  have "k < 1 \<longleftrightarrow> k = 0" for k :: u32 by (simp add: word_less_nat_alt unat_eq_0)
  moreover have "{1..<2} = {1::nat}" "[1..<2] = [1::nat]" by (auto simp: upt_rec)
  moreover have "f_gnuHash_addr hash_elf = 8" by (simp add: hash_elf_def)
  moreover have "calcGNUHash [0x61] OR 1 = 0x2b607" by (simp add: hash_elf_reads)
  ultimately show ?thesis using hash_elf_reads
    by (simp add: gnu_table_ok_def Let_def hash_elf_header bloom_addr_def bucket_addr_def chain_addr_def sym_bucket_def chain_word_def hash_sym_def)
qed

theorem LookupSymbol_search_witness: "elf_LookupSymbol 2 [0x61] hash_elf = Some (Inr hash_sym, hash_elf)"
proof -
  have "load_gnu_header hash_elf = Some (None, hash_elf)" by (simp add: load_gnu_header_def hash_elf_header)
  moreover have "f_gnuHash_addr hash_elf \<noteq> 0" by (simp add: hash_elf_def)
  moreover have "search_result (\<lambda>_. hash_sym) [0x61] [1..<2] = Inr hash_sym" by (simp add: search_result_def hash_sym_def upt_rec)
  ultimately show ?thesis using LookupSymbol_search [OF _ _ hash_elf_table, of hash_elf 2] by (simp add: hash_elf_header)
qed

theorem corrupt_hash_panics_later_witness:
  "\<exists>f'. elf_LookupSymbol 9 [0x61] (hash_elf\<lparr>f_gnuHash_addr := 36, f_gnuHash_header := replicate 16 0\<rparr>) = Some (Inl ErrHashCorrupt, f') \<and>
     elf_LookupSymbol 9 [0x61] f' = None"
proof -
  let ?f = "hash_elf\<lparr>f_gnuHash_addr := 36, f_gnuHash_header := replicate 16 0\<rparr>"
  let ?h = "[7, 0xb6, 2, 0, 0, 0, 0, 0, 0, 0, 0, 0, 0, 0, 0, 0] :: byte list"
  have "getReader ?f = getReader hash_elf" by (rule ext)+ (simp add: getReader_def)
  then have "File_ReadAt 16 36 ?f = File_ReadAt 16 36 hash_elf" by (simp add: File_ReadAt_def ProgByVirtualAddress_def cong: option.case_cong)
  moreover have "take 16 (drop 36 hash_data) = ?h" by code_simp
  ultimately have r: "File_ReadAt 16 36 ?f = Some (?h, None)" using hash_elf_read(1) [of 16 36] by simp
  have z: "gh_numBuckets (gnu_header (replicate 16 0)) = 0" by (simp add: gnu_header_def le_at_def)
  have h: "gh_numBuckets (gnu_header ?h) \<noteq> 0" "gh_bloomSize (gnu_header ?h) = 0" by (simp_all add: gnu_header_def le_at_def)
  have "overlay ?h (replicate 16 0) = ?h" by (simp add: overlay_def)
  then have "elf_LookupSymbol 9 [0x61] ?f = Some (Inl ErrHashCorrupt, ?f\<lparr>f_gnuHash_header := ?h\<rparr>)"
    using r z h by (simp add: elf_LookupSymbol_def load_gnu_header_def Let_def)
  from corrupt_hash_panics_later [OF _ this, of 9 "[0x61]"] this h show ?thesis by auto
qed

theorem sysv_chain_diverges_witness:
  "sysv_chain 1000 \<lparr>vh_numBuckets = 1, vh_numSymbols = 2\<rparr> 1 28 [0x62] hash_elf = Some (Inl ErrFuel)"
proof (rule sysv_chain_diverges)
  show "read_int 4 (28 + 4 * ucast (1 :: u32)) hash_elf = Some (Inr (1 :: u32))" using hash_elf_reads(2) by simp
  have "take 24 (drop 64 hash_data) = [0, 0, 0, 0, 0, 0, 0, 0, 0x77, 0, 0, 0, 0, 0, 0, 0, 3, 0, 0, 0, 0, 0, 0, 0]" "take 2 (drop 88 hash_data) = [0x61, 0]"
    by code_simp+
  then have "File_ReadAt 24 64 hash_elf = Some ([0, 0, 0, 0, 0, 0, 0, 0, 0x77, 0, 0, 0, 0, 0, 0, 0, 3, 0, 0, 0, 0, 0, 0, 0], None)"
    "VirtualMemory 88 2 4096 hash_elf = Some ([0x61, 0], None)" using hash_elf_read(1) [of 24 64] hash_elf_read(2) [of 2 88] by simp_all
  moreover have "f_symbolsAddr hash_elf = 40" "f_stringsAddr hash_elf = 88" by (simp_all add: hash_elf_def)
  ultimately show "readAndMatchSymbol 1 [0x62] hash_elf = Some None" by (simp add: readAndMatchSymbol_def le_at_def)
qed simp_all

end
