(* ===== verification/ElfMapping.thy ===== *)
theory ElfMapping
  imports ProcessInfo ElfFileProps
begin

text \<open>
  The address mapper of the process manager (\<open>libpf/pfelf/addressmapper.go\<close>, in \<open>ProcessInfo\<close>) over the program headers of an ELF
  file: a file offset and the virtual address it is mapped to stand for the same byte.
\<close>

unbundle bit_operations_syntax

text \<open>The program headers as the address mapper reads them.\<close>

definition elf_progs :: "elf_File \<Rightarrow> elf_prog list" where
  "elf_progs f =
     map (\<lambda>p. \<lparr>ph_PT_LOAD = (ph_Type p = PT_LOAD), ph_Flags = ElfFile.ph_Flags p, ph_Off = ElfFile.ph_Off p,
                ph_Vaddr = ElfFile.ph_Vaddr p, ph_Filesz = ElfFile.ph_Filesz p\<rparr>) (f_Progs f)"

lemma FileOffset_segment:
  assumes "FileOffsetToVirtualAddress ps off = Some va"
  shows "\<exists>p \<in> set ps. ap_offset p AND NOT pageSizeMinusOne \<le> off \<and> off < ap_offset p + ap_filesz p \<and> va = ap_vaddr p - (ap_offset p - off)"
  using assms by (induction ps off rule: FileOffsetToVirtualAddress.induct) (auto simp: Let_def split: if_splits)

definition loads_disjoint :: "elf_File \<Rightarrow> bool" where
  "loads_disjoint f \<longleftrightarrow> f_loadData f = filter (\<lambda>p. ph_Type p = PT_LOAD) (f_Progs f) \<and>
     (\<forall>p \<in> set (f_loadData f). unat (ElfFile.ph_Vaddr p) + unat (ph_Memsz p) < 2 ^ 64) \<and>
     (\<forall>p \<in> set (f_loadData f). \<forall>q \<in> set (f_loadData f). \<forall>a. prog_contains a p \<longrightarrow> prog_contains a q \<longrightarrow> p = q)"

lemma Prog_of_contained:
  assumes "loads_disjoint f" "p \<in> set (f_loadData f)" "prog_contains a p"
  shows "ProgByVirtualAddress a f = Some p"
proof (cases "ProgByVirtualAddress a f")
  case None
  then show ?thesis using assms(2,3) by (auto simp: ProgByVirtualAddress_def find_None_iff)
next
  case (Some q)
  then show ?thesis using assms ProgByVirtualAddressD [OF Some] unfolding loads_disjoint_def by metis
qed

text \<open>A byte of a segment that is in the file, read at its virtual address.\<close>

lemma segment_byte:
  assumes "file_ok f" "loads_disjoint f" "p \<in> set (f_loadData f)" "ElfFile.ph_Off p \<le> i" "i < ElfFile.ph_Off p + ElfFile.ph_Filesz p"
  shows "File_ReadAt 1 (ElfFile.ph_Vaddr p + (i - ElfFile.ph_Off p)) f = Some ([f_data f ! unat i], None)"
proof -
  define va where "va = ElfFile.ph_Vaddr p + (i - ElfFile.ph_Off p)"
  have "seg_ok (f_data f) p" using assms(1,3) by (simp add: file_ok_def list_all_iff)
  then have k: "unat (ElfFile.ph_Off p) + unat (ElfFile.ph_Filesz p) \<le> length (f_data f)" "unat (ElfFile.ph_Filesz p) \<le> unat (ph_Memsz p)" "length (f_data f) < 2 ^ 63"
    by (simp_all add: seg_ok_def word_le_nat_alt)
  have "unat (ElfFile.ph_Off p + ElfFile.ph_Filesz p) = unat (ElfFile.ph_Off p) + unat (ElfFile.ph_Filesz p)" using k by (intro unat_add_no_wrap) simp
  then have i: "unat (ElfFile.ph_Off p) \<le> unat i" "unat i < unat (ElfFile.ph_Off p) + unat (ElfFile.ph_Filesz p)"
    using assms(4,5) by (simp_all add: word_less_nat_alt word_le_nat_alt)
  have d: "va - ElfFile.ph_Vaddr p = i - ElfFile.ph_Off p" "unat (i - ElfFile.ph_Off p) = unat i - unat (ElfFile.ph_Off p)"
    using assms(4) unat_sub_le by (simp_all add: va_def)
  have w: "unat (ElfFile.ph_Vaddr p) + unat (ph_Memsz p) < 2 ^ 64" using assms(2,3) by (simp add: loads_disjoint_def)
  have "unat (ElfFile.ph_Vaddr p) + unat (i - ElfFile.ph_Off p) < 2 ^ 64" using d(2) w i k by linarith
  then have v: "unat va = unat (ElfFile.ph_Vaddr p) + (unat i - unat (ElfFile.ph_Off p))"
    using d(2) unat_add_no_wrap [of "ElfFile.ph_Vaddr p" "i - ElfFile.ph_Off p"] by (simp add: va_def)
  have "unat (ElfFile.ph_Vaddr p + ph_Memsz p) = unat (ElfFile.ph_Vaddr p) + unat (ph_Memsz p)" using w by (intro unat_add_no_wrap) simp
  then have "prog_contains va p" using v i k unfolding prog_contains_def word_less_nat_alt word_le_nat_alt by linarith
  then have r: "File_ReadAt 1 va f = Some (image_read 1 va p f)"
    by (intro File_ReadAt_image assms(1) Prog_of_contained assms(2,3)) simp_all
  have "drop (unat (va - ElfFile.ph_Vaddr p)) (seg_image (f_data f) p) = f_data f ! unat i # drop (Suc (unat i - unat (ElfFile.ph_Off p))) (seg_image (f_data f) p)"
    unfolding d using i k by (subst Cons_nth_drop_Suc [symmetric]) (auto simp: seg_image_def nth_append)
  then show ?thesis using r by (simp add: image_read_def Let_def va_def)
qed

text \<open>
  C38: the virtual address that the address mapper gives for a file offset is the one at which a loader puts that offset: the offset is in an executable segment or in the
  page padding before it, and every byte of that segment in the file, at offset \<open>i\<close>, is found in the memory image at the same
  distance from the address as \<open>i\<close> has from the offset. This is for files with disjoint segments that lie in the file.
\<close>

theorem FileOffset_reads_back:
  assumes "file_ok f" "loads_disjoint f" "FileOffsetToVirtualAddress (GetAddressMapper (elf_progs f)) off = Some va"
  shows "\<exists>p \<in> set (f_loadData f). ElfFile.ph_Flags p AND 1 \<noteq> 0 \<and>
    ElfFile.ph_Off p AND NOT pageSizeMinusOne \<le> off \<and> off < ElfFile.ph_Off p + ElfFile.ph_Filesz p \<and>
    (\<forall>i. ElfFile.ph_Off p \<le> i \<longrightarrow> i < ElfFile.ph_Off p + ElfFile.ph_Filesz p \<longrightarrow> File_ReadAt 1 (va + (i - off)) f = Some ([f_data f ! unat i], None))"
proof -
  obtain p where p: "p \<in> set (f_loadData f)" "ElfFile.ph_Flags p AND 1 \<noteq> 0"
    "ElfFile.ph_Off p AND NOT pageSizeMinusOne \<le> off" "off < ElfFile.ph_Off p + ElfFile.ph_Filesz p"
    and va: "va = ElfFile.ph_Vaddr p - (ElfFile.ph_Off p - off)"
    using FileOffset_segment [OF assms(3)] assms(2) by (auto simp: GetAddressMapper_def elf_progs_def loads_disjoint_def)
  have "va + (i - off) = ElfFile.ph_Vaddr p + (i - ElfFile.ph_Off p)" for i using va by simp
  then have "File_ReadAt 1 (va + (i - off)) f = Some ([f_data f ! unat i], None)"
    if "ElfFile.ph_Off p \<le> i" "i < ElfFile.ph_Off p + ElfFile.ph_Filesz p" for i
    using segment_byte [OF assms(1,2) p(1) that] by (simp only:)
  then show ?thesis using p by blast
qed

text \<open>A segment at offset two of the file; offset zero is in the padding before it.\<close>

theorem FileOffset_reads_back_witness:
  "FileOffsetToVirtualAddress (GetAddressMapper (elf_progs (example_elf [1, 2, 3, 4, 5, 6, 7] True [example_prog]))) 0 = Some 0xffe \<and>
   File_ReadAt 1 (0xffe + (3 - 0)) (example_elf [1, 2, 3, 4, 5, 6, 7] True [example_prog]) = Some ([4], None)"
proof -
  let ?f = "example_elf [1, 2, 3, 4, 5, 6, 7] True [example_prog]"
  have f: "file_ok ?f" by (simp add: file_ok_def example_elf_def example_prog_def seg_ok_def)
  have l: "loads_disjoint ?f" by (simp add: loads_disjoint_def example_elf_def example_prog_def)
  have o: "FileOffsetToVirtualAddress (GetAddressMapper (elf_progs ?f)) 0 = Some 0xffe" by code_simp
  have p: "set (f_loadData ?f) = {example_prog}" by (simp add: example_elf_def example_prog_def)
  have d: "f_data ?f ! unat (3 :: u64) = 4" by (simp add: example_elf_def)
  have i: "ElfFile.ph_Off example_prog \<le> 3" "3 < ElfFile.ph_Off example_prog + ElfFile.ph_Filesz example_prog" by (simp_all add: example_prog_def)
  have "File_ReadAt 1 (0xffe + (3 - 0)) ?f = Some ([f_data ?f ! unat (3 :: u64)], None)"
    using FileOffset_reads_back [OF f l o] i unfolding p by blast
  then show ?thesis using o unfolding d by blast
qed

end
