(* ===== verification/ElfNotes.thy ===== *)
theory ElfNotes
  imports ElfSymbols GoStrings
begin

text \<open>
  Notes, build identifiers, debug links and the Go build information of an ELF file (\<open>libpf/pfelf/notes.go\<close> and the functions of
  \<open>libpf/pfelf/file.go\<close> that use them).

  Visitors work on a state of their own and say whether to go on. The variable that a note header is read into
  lives across the notes, as does the buffer for long descriptions: a short read leaves in them what was there.
\<close>

unbundle bit_operations_syntax

section \<open>How far a reader is\<close>

text \<open>No operation of the reader gives back bytes that were read.\<close>

lemma Peek_left: "Peek n r = (x, r') \<Longrightarrow> reader_left r' = reader_left r"
  using fill_left [of r] by (auto simp: Peek_def split: if_splits prod.splits option.splits)

lemma advance_left: "reader_left (advance n r) \<le> reader_left r" by (simp add: reader_left_def)

lemma ReadN_left: "ReadN n r = (x, r') \<Longrightarrow> reader_left r' \<le> reader_left r"
  using Peek_left [of n r] by (auto simp: ReadN_def split: prod.splits sum.splits intro: order.trans [OF advance_left])

lemma discard_loop_left: "discard_loop d n r = (x, r') \<Longrightarrow> reader_left r' \<le> reader_left r"
proof (induction d n r arbitrary: x rule: discard_loop.induct)
  case (1 d n r)
  show ?case
  proof (cases "n \<le> d")
    case True
    then show ?thesis using "1.prems" by (subst (asm) discard_loop.simps) simp
  next
    case False
    obtain e r1 where f: "(if window r = [] then fill r else (None, r)) = (e, r1)" by fastforce
    then have l: "reader_left r1 = reader_left r" using fill_left [of r] by (auto split: if_splits)
    show ?thesis
    proof (cases e)
      case None
      let ?p = "min (length (window r1)) (n - d)"
      have "discard_loop (d + ?p) n (advance ?p r1) = (x, r')" using "1.prems" False f None by (subst (asm) discard_loop.simps) (simp add: Let_def)
      then show ?thesis using "1.IH" [OF False f [symmetric] None refl] l advance_left [of ?p r1] by force
    next
      case (Some y)
      then show ?thesis using "1.prems" False f l by (subst (asm) discard_loop.simps) simp
    qed
  qed
qed

lemma Discard_left: "Discard n r = (x, r') \<Longrightarrow> reader_left r' \<le> reader_left r"
  using discard_loop_left by (auto simp: Discard_def split: if_splits)

lemma Reader_Read_left: "Reader_Read n r = ((bs, e), r') \<Longrightarrow> reader_left r' \<le> reader_left r \<and> (e = None \<and> 0 < n \<longrightarrow> reader_left r' < reader_left r)"
  using read_loop_left [of n "[]" r bs e r'] by (simp add: Reader_Read_def)

section \<open>Notes\<close>

definition NamespaceUnknown :: u64 where [simp]: "NamespaceUnknown = 0"
definition NamespaceCore :: u64 where [simp]: "NamespaceCore = 0x100000000"
definition NamespaceLinux :: u64 where [simp]: "NamespaceLinux = 0x200000000"
definition NamespaceGNU :: u64 where [simp]: "NamespaceGNU = 0x300000000"
definition NamespaceGo :: u64 where [simp]: "NamespaceGo = 0x400000000"
definition NoteGnuBuildId :: u64 where [simp]: "NoteGnuBuildId = NamespaceGNU + 0x3"
definition NoteGoBuildId :: u64 where [simp]: "NoteGoBuildId = NamespaceGo + 0x4"

definition alignNoteSize :: "nat \<Rightarrow> nat" where "alignNoteSize n = (n + 3) div 4 * 4"

definition trim_zeros :: "byte list \<Rightarrow> byte list" where "trim_zeros b = rev (dropWhile (\<lambda>x. x = 0) (rev b))"

definition note_namespace :: "byte list \<Rightarrow> u64" where
  "note_namespace name =
     (let s = trim_zeros name
      in if s = ascii ''CORE'' then NamespaceCore
         else if s = ascii ''LINUX'' then NamespaceLinux
         else if s = ascii ''GNU'' then NamespaceGNU
         else if s = ascii ''Go'' then NamespaceGo
         else NamespaceUnknown)"

text \<open>The name of a note: one that is longer than the buffer is skipped.\<close>

definition read_namespace :: "nat \<Rightarrow> Reader \<Rightarrow> (elferr + u64) \<times> Reader" where
  "read_namespace namesz r =
     (case ReadN (alignNoteSize namesz) r of
        (Inr ns, r) \<Rightarrow> (Inr (note_namespace (take namesz ns)), r)
      | (Inl ErrBufferTooSmall, r) \<Rightarrow>
          (case Discard (int (alignNoteSize namesz)) r of
             ((_, Some e), r) \<Rightarrow> (Inl (ErrIO e), r)
           | ((_, None), r) \<Rightarrow> (Inr NamespaceUnknown, r))
      | (Inl e, r) \<Rightarrow> (Inl (ErrIO e), r))"

text \<open>The description of a note: one that is longer than the buffer of the reader is read into a buffer of its own.\<close>

definition read_desc :: "nat \<Rightarrow> byte list \<Rightarrow> Reader \<Rightarrow> (elferr + byte list) \<times> byte list \<times> Reader" where
  "read_desc descsz buf r =
     (let n = alignNoteSize descsz
      in case ReadN n r of
           (Inr d, r) \<Rightarrow> (Inr (take descsz d), buf, r)
         | (Inl ErrBufferTooSmall, r) \<Rightarrow>
             (let buf = (if length buf < n then replicate n 0 else buf)
              in case Reader_Read n r of
                   ((bs, Some e), r) \<Rightarrow> (Inl (ErrIO e), overlay bs buf, r)
                 | ((bs, None), r) \<Rightarrow> (Inr (take descsz (overlay bs buf)), overlay bs buf, r))
         | (Inl e, r) \<Rightarrow> (Inl (ErrIO e), buf, r))"

lemma read_namespace_left: "read_namespace n r = (x, r') \<Longrightarrow> reader_left r' \<le> reader_left r"
  using ReadN_left [of "alignNoteSize n" r] Discard_left [of "int (alignNoteSize n)"]
  by (fastforce simp: read_namespace_def split: prod.splits sum.splits ioerr.splits option.splits)

lemma read_desc_left: "read_desc n buf r = (x, buf', r') \<Longrightarrow> reader_left r' \<le> reader_left r"
  using ReadN_left [of "alignNoteSize n" r] Reader_Read_left [of "alignNoteSize n"]
  by (fastforce simp: read_desc_def Let_def split: prod.splits sum.splits ioerr.splits option.splits)

function visit_notes ::
  "(u64 \<Rightarrow> byte list \<Rightarrow> 's \<Rightarrow> bool \<times> 's) \<Rightarrow> byte list \<Rightarrow> byte list \<Rightarrow> Reader \<Rightarrow> 's \<Rightarrow> elferr option \<times> 's" where
  "visit_notes visitor note buf r st =
     (case Reader_Read 12 r of
        ((bs, Some e), r) \<Rightarrow> (if bs = [] \<and> e = EOF then Some ErrNoteNotFound else Some (ErrIO e), st)
      | ((bs, None), r) \<Rightarrow>
          let note = overlay bs note
          in (case read_namespace (unat (le_at 4 0 note :: u32)) r of
                (Inl e, r) \<Rightarrow> (Some e, st)
              | (Inr ns, r) \<Rightarrow>
                  (case read_desc (unat (le_at 4 4 note :: u32)) buf r of
                     (Inl e, buf, r) \<Rightarrow> (Some e, st)
                   | (Inr desc, buf, r) \<Rightarrow>
                       (case visitor (ns + ucast (le_at 4 8 note :: u32)) desc st of
                          (False, st) \<Rightarrow> (None, st)
                        | (True, st) \<Rightarrow> visit_notes visitor note buf r st))))"
  by pat_completeness auto
termination
proof (relation "measure (\<lambda>(visitor, note, buf, r, st). reader_left r)", goal_cases)
  case (2 visitor nt buf r st x y xa ya xb xc yaa b xd yb ba xe yc xf yd)
  have "reader_left y < reader_left r" using 2 Reader_Read_left [of 12 r xa None y] by simp
  moreover have "reader_left yaa \<le> reader_left y" using 2 read_namespace_left by metis
  moreover have "reader_left yc \<le> reader_left yaa" using 2 read_desc_left by metis
  ultimately show ?case by simp
qed simp

declare visit_notes.simps [simp del]

text \<open>Several regions with notes are visited in turn, until one of them ends with anything else than that no visitor stopped.\<close>

fun visit_regions :: "(u64 \<Rightarrow> byte list \<Rightarrow> 's \<Rightarrow> bool \<times> 's) \<Rightarrow> Reader list \<Rightarrow> 's \<Rightarrow> elferr option \<times> 's" where
  "visit_regions visitor [] st = (Some ErrNoteNotFound, st)"
| "visit_regions visitor (rdr # rdrs) st =
     (case visit_notes visitor (replicate 12 0) [] rdr st of
        (Some ErrNoteNotFound, st) \<Rightarrow> visit_regions visitor rdrs st
      | (err, st) \<Rightarrow> (err, st))"

definition VisitNotes :: "(u64 \<Rightarrow> byte list \<Rightarrow> 's \<Rightarrow> bool \<times> 's) \<Rightarrow> elf_File \<Rightarrow> 's \<Rightarrow> elferr option \<times> 's" where
  "VisitNotes visitor f st =
     visit_regions visitor
       (map (\<lambda>p. Reader_Init (f_data f) (sint (ph_Off p)) (sint (ph_Filesz p))) (filter (\<lambda>p. ph_Type p = PT_NOTE) (f_Progs f))) st"

definition buildIDSections :: "bstring list" where
  "buildIDSections = [ascii ''.note.gnu.build-id'', ascii ''.note.go.buildid'', ascii ''.notes'']"

definition buildID_section :: "Section \<Rightarrow> bool" where
  "buildID_section s \<longleftrightarrow> sh_Type s = SHT_NOTE \<and> sh_Size s \<noteq> 0 \<and> sh_Name s \<in> set buildIDSections"

text \<open>When sections were visited, that no visitor stopped is not an error.\<close>

definition visitBuildIDNoteSections ::
  "(u64 \<Rightarrow> byte list \<Rightarrow> 's \<Rightarrow> bool \<times> 's) \<Rightarrow> elf_File \<Rightarrow> 's \<Rightarrow> (elferr option \<times> 's \<times> elf_File) option" where
  "visitBuildIDNoteSections visitor f st =
     (if f_InsideCore f then Some (Some ErrNoteNotFound, st, f)
      else
        (case LoadSections f of
           None \<Rightarrow> None
         | Some (Some _, f) \<Rightarrow> Some (Some ErrNoteNotFound, st, f)
         | Some (None, f) \<Rightarrow>
             let sections = filter buildID_section (sections_of f);
                 (err, st) = visit_regions visitor
                   (map (\<lambda>s. Reader_Init (f_data f) (sint (sh_Offset s)) (sint (sh_Size s))) sections) st
             in Some (if err = Some ErrNoteNotFound \<and> sections \<noteq> [] then None else err, st, f)))"

definition hexDigit :: "nat \<Rightarrow> char" where "hexDigit n = ''0123456789abcdef'' ! n"

definition hex_EncodeToString :: "byte list \<Rightarrow> string" where
  "hex_EncodeToString bs = concat (map (\<lambda>b. [hexDigit (unat b div 16), hexDigit (unat b mod 16)]) bs)"

text \<open>The visitor of \<open>parseNotes\<close> keeps the GNU and the Go build identifier, and never stops.\<close>

definition cacheNote :: "u64 \<Rightarrow> byte list \<Rightarrow> string \<times> string \<Rightarrow> bool \<times> string \<times> string" where
  "cacheNote nid desc ids =
     (True, if nid = NoteGnuBuildId then (hex_EncodeToString desc, snd ids)
            else if nid = NoteGoBuildId then (fst ids, bytes_string desc)
            else ids)"

definition keep_ids :: "string \<times> string \<Rightarrow> elf_File \<Rightarrow> elf_File" where
  "keep_ids ids f = f\<lparr>f_gnuBuildId := fst ids, f_goBuildId := snd ids\<rparr>"

definition parseNotes :: "elf_File \<Rightarrow> (elferr option \<times> elf_File) option" where
  "parseNotes f =
     (if f_notesError f \<noteq> Some errNotProcessed then Some (f_notesError f, f)
      else
        (case visitBuildIDNoteSections cacheNote f (f_gnuBuildId f, f_goBuildId f) of
           None \<Rightarrow> None
         | Some (err, ids, f) \<Rightarrow>
             let f = (keep_ids ids f)\<lparr>f_notesError := err\<rparr>
             in if err \<noteq> None \<and> err \<noteq> Some ErrNoteNotFound then Some (err, f)
                else if err \<noteq> None \<or> fst ids = [] \<or> snd ids = []
                then let (err, ids) = VisitNotes cacheNote f ids;
                         err = (if err = Some ErrNoteNotFound then None else err)
                     in Some (err, (keep_ids ids f)\<lparr>f_notesError := err\<rparr>)
                else Some (err, f)))"

definition GetGoBuildID :: "elf_File \<Rightarrow> ((string \<times> elferr option) \<times> elf_File) option" where
  "GetGoBuildID f =
     map_option (\<lambda>(err, f). ((f_goBuildId f, if err = None \<and> f_goBuildId f = [] then Some ErrNoBuildID else err), f)) (parseNotes f)"

definition GetBuildID :: "elf_File \<Rightarrow> ((string \<times> elferr option) \<times> elf_File) option" where
  "GetBuildID f =
     map_option (\<lambda>(err, f). ((f_gnuBuildId f, if err = None \<and> f_gnuBuildId f = [] then Some ErrNoBuildID else err), f)) (parseNotes f)"

definition find_gnu :: "u64 \<Rightarrow> byte list \<Rightarrow> string \<Rightarrow> bool \<times> string" where
  "find_gnu nid desc buildId = (if nid = NoteGnuBuildId then (False, hex_EncodeToString desc) else (True, buildId))"

definition getBuildIDFromNotesFile :: "byte list \<Rightarrow> elferr + string" where
  "getBuildIDFromNotesFile r =
     (case visit_notes find_gnu (replicate 12 0) [] (Reader_Init r 0 (2 ^ 63 - 1)) [] of
        (None, buildId) \<Rightarrow> Inr buildId
      | (Some e, _) \<Rightarrow> Inl (if e = ErrNoteNotFound then ErrNoBuildID else e))"

section \<open>Debug links\<close>

definition ParseDebugLink :: "byte list \<Rightarrow> elferr + bstring \<times> u32" where
  "ParseDebugLink data =
     (case bytes_Index data [0] of
        None \<Rightarrow> Inl ErrDebugLink
      | Some strEnd \<Rightarrow>
          if strEnd = 0 then Inl ErrDebugLink
          else if \<not> utf8_Valid (take strEnd data) then Inl ErrDebugLink
          else
            let end1 = strEnd + 1;
                crc32StartIdx = end1 + (4 - end1 mod 4) mod 4
            in if crc32StartIdx + 4 > length data then Inl ErrDebugLink
               else Inr (take strEnd data, le_at 4 crc32StartIdx data))"

text \<open>A section whose size does not fit in an \<open>int\<close> makes the slice of the reader panic.\<close>

definition GetDebugLink :: "elf_File \<Rightarrow> ((elferr + bstring \<times> u32) \<times> elf_File) option" where
  "GetDebugLink f =
     (case File_Section (ascii ''.gnu_debuglink'') f of
        None \<Rightarrow> None
      | Some (None, f) \<Rightarrow> Some (Inl ErrNoDebugLink, f)
      | Some (Some s, f) \<Rightarrow>
          if sint (sh_Size s) < 0 then None
          else (case ReadN (unat (sh_Size s)) (Reader_Init (f_data f) (sint (sh_Offset s)) (sint (sh_Size s))) of
                  (Inl e, _) \<Rightarrow> Some (Inl (ErrIO e), f)
                | (Inr d, _) \<Rightarrow> Some (ParseDebugLink d, f)))"

text \<open>\<open>hash/crc32\<close> with the IEEE polynomial, a bit at a time.\<close>

definition crc_bit :: "u32 \<Rightarrow> u32" where
  "crc_bit c = (if bit c 0 then drop_bit 1 c XOR 0xedb88320 else drop_bit 1 c)"

definition crc_byte :: "byte \<Rightarrow> u32 \<Rightarrow> u32" where
  "crc_byte b c = (crc_bit ^^ 8) (c XOR ucast b)"

definition crc32_IEEE :: "byte list \<Rightarrow> u32" where
  "crc32_IEEE bs = NOT (fold crc_byte bs (NOT 0))"

definition File_CRC32 :: "elf_File \<Rightarrow> u32" where "File_CRC32 f = crc32_IEEE (f_data f)"

text \<open>\<open>path/filepath\<close>: the clean form of a path, the directory of a path, and the join of several.\<close>

fun path_split :: "bstring \<Rightarrow> bstring list" where
  "path_split [] = [[]]"
| "path_split (c # cs) =
     (if c = 0x2f then [] # path_split cs else case path_split cs of [] \<Rightarrow> [[c]] | x # xs \<Rightarrow> (c # x) # xs)"

definition clean_step :: "bool \<Rightarrow> bstring \<Rightarrow> bstring list \<Rightarrow> bstring list" where
  "clean_step rooted c out =
     (if c = [] \<or> c = ascii ''.'' then out
      else if c = ascii ''..''
      then (if out \<noteq> [] \<and> hd out \<noteq> ascii ''..'' then tl out else if rooted then out else c # out)
      else c # out)"

fun path_concat :: "bstring list \<Rightarrow> bstring" where
  "path_concat [] = []"
| "path_concat [c] = c"
| "path_concat (c # cs) = c @ [0x2f] @ path_concat cs"

definition path_Clean :: "bstring \<Rightarrow> bstring" where
  "path_Clean p =
     (let rooted = (p \<noteq> [] \<and> hd p = 0x2f);
          out = (if rooted then [0x2f] else []) @ path_concat (rev (fold (clean_step rooted) (path_split p) []))
      in if out = [] then ascii ''.'' else out)"

definition path_Dir :: "bstring \<Rightarrow> bstring" where
  "path_Dir p = path_Clean (rev (dropWhile (\<lambda>c. c \<noteq> 0x2f) (rev p)))"

definition path_Join :: "bstring list \<Rightarrow> bstring" where
  "path_Join ps = (case filter (\<lambda>p. p \<noteq> []) ps of [] \<Rightarrow> [] | ps \<Rightarrow> path_Clean (path_concat ps))"

text \<open>
  \<open>OpenDebugLink\<close>: the results are named, so that a return in any branch gives what they were set to. The flag of a
  debug file says that it was closed.
\<close>

definition OpenDebugLink ::
  "bstring \<Rightarrow> (bstring \<Rightarrow> elferr + elf_File) \<Rightarrow> elf_File \<Rightarrow> (((elf_File \<times> bool) option \<times> bstring) \<times> elf_File) option" where
  "OpenDebugLink elfFilePath openELF f =
     (case GetDebugLink (f\<lparr>f_debuglinkPath := Some []\<rparr>) of
        None \<Rightarrow> None
      | Some (Inl _, f) \<Rightarrow> Some ((None, []), f)
      | Some (Inr (linkName, linkCRC32), f) \<Rightarrow>
          let debugFile = path_Join [ascii ''/usr/lib/debug/'', path_Dir elfFilePath, linkName]
          in (case openELF debugFile of
                Inl _ \<Rightarrow> Some ((None, debugFile), f)
              | Inr debugELF \<Rightarrow>
                  if File_CRC32 debugELF \<noteq> linkCRC32 then Some ((Some (debugELF, True), debugFile), f)
                  else Some ((Some (debugELF, False), debugFile), f\<lparr>f_debuglinkPath := Some debugFile\<rparr>)))"

definition DebuglinkFileName :: "bstring \<Rightarrow> (bstring \<Rightarrow> elferr + elf_File) \<Rightarrow> elf_File \<Rightarrow> (bstring \<times> elf_File) option" where
  "DebuglinkFileName elfFilePath openELF f =
     (case f_debuglinkPath f of
        Some p \<Rightarrow> Some (p, f)
      | None \<Rightarrow> map_option (\<lambda>((_, path), f). (path, f)) (OpenDebugLink elfFilePath openELF f))"

section \<open>Go build information\<close>

definition IsGolang :: "elf_File \<Rightarrow> (bool \<times> elf_File) option" where
  "IsGolang f =
     (case GetGoBuildID f of
        None \<Rightarrow> None
      | Some ((_, None), f) \<Rightarrow> Some (True, f)
      | Some ((_, Some _), f) \<Rightarrow>
          (case File_Section (ascii ''.go.buildinfo'') f of
             None \<Rightarrow> None
           | Some (Some _, f) \<Rightarrow> Some (True, f)
           | Some (None, f) \<Rightarrow> map_option (\<lambda>(s, f). (s \<noteq> None, f)) (File_Section (ascii ''.gopclntab'') f)))"

text \<open>\<open>encoding/binary.ReadUvarint\<close>: at most ten bytes, seven bits each.\<close>

function ReadUvarint_from :: "nat \<Rightarrow> u64 \<Rightarrow> Reader \<Rightarrow> (elferr + u64) \<times> Reader" where
  "ReadUvarint_from i x r =
     (if i \<ge> 10 then (Inl ErrVarintOverflow, r)
      else
        (case ReadByte r of
           (Inl e, r) \<Rightarrow> (Inl (if i > 0 \<and> e = EOF then ErrUnexpectedEOF else ErrIO e), r)
         | (Inr b, r) \<Rightarrow>
             if b < 0x80
             then (if i = 9 \<and> b > 1 then Inl ErrVarintOverflow else Inr (x OR push_bit (7 * i) (ucast b)), r)
             else ReadUvarint_from (i + 1) (x OR push_bit (7 * i) (ucast (b AND 0x7f))) r))"
  by pat_completeness auto
termination by (relation "measure (\<lambda>(i, x, r). 10 - i)") auto

declare ReadUvarint_from.simps [simp del]

definition ReadUvarint :: "Reader \<Rightarrow> (elferr + u64) \<times> Reader" where "ReadUvarint r = ReadUvarint_from 0 0 r"

text \<open>\<open>decodeString\<close>: a size that is negative as an \<open>int\<close> makes the slice of the reader panic.\<close>

definition decodeString :: "Reader \<Rightarrow> (elferr + bstring) option" where
  "decodeString r =
     (case ReadUvarint r of
        (Inl e, _) \<Rightarrow> Some (Inl e)
      | (Inr sz, r) \<Rightarrow>
          if sint sz < 0 then None
          else (case ReadN (unat sz) r of (Inl e, _) \<Rightarrow> Some (Inl (ErrIO e)) | (Inr s, _) \<Rightarrow> Some (Inr s)))"

definition elf_readString :: "elf_File \<Rightarrow> u64 \<Rightarrow> (elferr + bstring) option" where
  "elf_readString f addr =
     (case File_ReadAt 16 addr f of
        None \<Rightarrow> None
      | Some (_, Some e) \<Rightarrow> Some (Inl e)
      | Some (d, None) \<Rightarrow>
          let b = overlay d (replicate 16 0); addr = le_at 8 0 b; sz = unat (le_at 8 8 b :: u64)
          in if sz \<ge> maxBytesSmallSection then Some (Inl errNoGoBuildinfo)
             else (case File_ReadAt sz addr f of
                     None \<Rightarrow> None
                   | Some (_, Some e) \<Rightarrow> Some (Inl e)
                   | Some (d, None) \<Rightarrow> Some (Inr (overlay d (replicate sz 0)))))"

definition goBuildInfoMagic :: "byte list" where "goBuildInfoMagic = 0xff # ascii '' Go buildinf:''"

lemma SearchSlice_left:
  "SearchSlice pat r = (Inr i, r') \<Longrightarrow> pat \<noteq> [] \<Longrightarrow> reader_left r' < reader_left r"
proof (induction pat r rule: SearchSlice.induct)
  case (1 pat r)
  let ?keep = "min (length (window r)) (length pat - 1)"
  show ?case
  proof (cases "bytes_Index (window r) pat")
    case (Some j)
    then have "r' = advance (j + length pat) r" using "1.prems" by (subst (asm) SearchSlice.simps) simp
    moreover have "window r \<noteq> []" using Some "1.prems"(2) by (subst (asm) bytes_Index.simps) (auto split: if_splits)
    ultimately show ?thesis using "1.prems"(2) by (cases "window r") (auto simp: reader_left_def)
  next
    case None
    let ?r = "advance (length (window r) - ?keep) r"
    obtain e r2 where f: "fill ?r = (e, r2)" by fastforce
    have e: "e = None" "SearchSlice pat r2 = (Inr i, r')"
      using "1.prems" None f by (subst (asm) SearchSlice.simps, cases e, simp_all add: Let_def)+
    have "reader_left r' < reader_left r2" using "1.IH" [OF "1.prems"(2) None refl refl f [symmetric] e(1) e(2) "1.prems"(2)] .
    then show ?thesis using fill_left [OF f] advance_left [of "length (window r) - ?keep" r] by simp
  qed
qed

lemma goBuildInfoMagic_ne: "goBuildInfoMagic \<noteq> []" by (simp add: goBuildInfoMagic_def)

text \<open>The magic is searched until it is found at an offset that is a multiple of 16.\<close>

function search_buildinfo :: "Reader \<Rightarrow> Reader option" where
  "search_buildinfo r =
     (case SearchSlice goBuildInfoMagic r of
        (Inl _, _) \<Rightarrow> None
      | (Inr offset, r) \<Rightarrow> if offset mod 16 = 0 then Some r else search_buildinfo r)"
  by pat_completeness auto
termination
  by (relation "measure reader_left") (auto intro: SearchSlice_left [of goBuildInfoMagic] simp: goBuildInfoMagic_ne dest: HOL.sym)

declare search_buildinfo.simps [simp del]

text \<open>The build information of a reader behind the magic: inline strings since Go 1.18, before that pointers to strings.\<close>

definition read_buildinfo :: "elf_File \<Rightarrow> Reader \<Rightarrow> (elferr + bstring) option" where
  "read_buildinfo f r =
     (case ReadByte r of
        (Inl _, _) \<Rightarrow> Some (Inl errNoGoBuildinfo)
      | (Inr ptrSize, r) \<Rightarrow>
          (case ReadByte r of
             (Inl _, _) \<Rightarrow> Some (Inl errNoGoBuildinfo)
           | (Inr flags, r) \<Rightarrow>
               if flags AND 2 \<noteq> 0
               then (case Discard 16 r of
                       ((_, Some _), _) \<Rightarrow> Some (Inl errNoGoBuildinfo)
                     | ((_, None), r) \<Rightarrow> decodeString r)
               else (case ReadN 16 r of
                       (Inl _, _) \<Rightarrow> Some (Inl errNoGoBuildinfo)
                     | (Inr ptrs, _) \<Rightarrow>
                         if ptrSize \<noteq> 8 \<or> flags AND 1 \<noteq> 0 then Some (Inl ErrPointers)
                         else elf_readString f (le_at 8 0 ptrs))))"

text \<open>Where the build information is looked for: \<open>None\<close> in the result is the return without an error.\<close>

definition buildinfo_region :: "elf_File \<Rightarrow> ((u64 \<times> u64) option \<times> elf_File) option" where
  "buildinfo_region f =
     (case File_Section (ascii ''.go.buildinfo'') f of
        None \<Rightarrow> None
      | Some (Some s, f) \<Rightarrow> Some (Some (sh_Offset s, sh_Size s), f)
      | Some (None, f) \<Rightarrow>
          (case IsGolang f of
             None \<Rightarrow> None
           | Some (False, f) \<Rightarrow> Some (None, f)
           | Some (True, f) \<Rightarrow>
               Some (Some (case find (\<lambda>p. ph_Type p = PT_LOAD \<and> ph_Flags p AND (PF_X OR PF_W) = PF_W) (f_Progs f) of
                             None \<Rightarrow> (0, 0)
                           | Some p \<Rightarrow> (ph_Off p, ph_Filesz p)), f)))"

definition parseGoBuildinfo :: "elf_File \<Rightarrow> (elferr option \<times> elf_File) option" where
  "parseGoBuildinfo f =
     (if f_golangVersion f \<noteq> None then Some (None, f)
      else
        (case buildinfo_region (f\<lparr>f_golangVersion := Some []\<rparr>) of
           None \<Rightarrow> None
         | Some (None, f) \<Rightarrow> Some (None, f)
         | Some (Some (off, sz), f) \<Rightarrow>
             if sz = 0 then Some (Some errNoGoBuildinfo, f)
             else
               (case search_buildinfo (Reader_Init (f_data f) (sint off) (sint sz)) of
                  None \<Rightarrow> Some (Some errNoGoBuildinfo, f)
                | Some r \<Rightarrow>
                    (case read_buildinfo f r of
                       None \<Rightarrow> None
                     | Some (Inl e) \<Rightarrow> Some (Some e, f)
                     | Some (Inr ver) \<Rightarrow> Some (None, f\<lparr>f_golangVersion := Some ver\<rparr>)))))"

definition GoVersion :: "elf_File \<Rightarrow> (bstring \<times> elf_File) option" where
  "GoVersion f = map_option (\<lambda>(_, f). (case f_golangVersion f of None \<Rightarrow> [] | Some v \<Rightarrow> v, f)) (parseGoBuildinfo f)"

end
