(* ===== verification/ElfNoteProps.thy ===== *)
theory ElfNoteProps
  imports ElfNotes
begin

text \<open>
  Correctness of the reading of notes and debug links: a list of notes that is laid out in a file is visited in order, note by note,
  whatever way the buffer of the reader cuts it; the parser of debug links inverts their layout; and what a debug file
  with the wrong checksum leads to.
\<close>

section \<open>Little-endian numbers\<close>

fun le_put :: "nat \<Rightarrow> nat \<Rightarrow> byte list" where
  "le_put 0 n = []"
| "le_put (Suc k) n = word_of_nat (n mod 256) # le_put k (n div 256)"

lemma length_le_put [simp]: "length (le_put k n) = k" by (induction k arbitrary: n) auto

lemma le_put_4: "le_put 4 n = map word_of_nat [n mod 256, n div 256 mod 256, n div 256 div 256 mod 256, n div 256 div 256 div 256 mod 256]"
proof -
  have "4 = Suc (Suc (Suc (Suc 0)))" by simp
  then show ?thesis by (simp only: le_put.simps list.map)
qed

lemma le_nat_put: "le_nat (le_put k n) = n mod 256 ^ k"
proof (induction k arbitrary: n)
  case (Suc k)
  have "unat (word_of_nat (n mod 256) :: byte) = n mod 256" by (simp add: unat_of_nat)
  then show ?case using Suc mod_mult2_eq [of n 256 "256 ^ k"] by simp
qed simp

lemma le_at_put: "off = length pre \<Longrightarrow> le_at k off (pre @ le_put k n @ post) = word_of_nat (n mod 256 ^ k)"
  by (simp add: le_at_def le_nat_put)

section \<open>Reading a fixed number of bytes\<close>

lemma ReadN_stream:
  assumes "Reader_ok r" "n \<le> length (stream_rest r)" "n \<le> bufferSize"
  obtains r' where "ReadN n r = (Inr (take n (stream_rest r)), r')" "Reader_ok r'" "stream_rest r' = drop n (stream_rest r)"
proof (cases "n \<le> length (window r)")
  case True
  then have "take n (window r) = take n (stream_rest r)" by (simp add: stream_rest_def)
  then have "ReadN n r = (Inr (take n (stream_rest r)), advance n r)" using True assms(3) by (simp add: ReadN_def Peek_def)
  then show ?thesis using advance_stream [OF assms(1) True] that by blast
next
  case False
  obtain e r1 where f: "fill r = (e, r1)" by fastforce
  have s: "Reader_ok r1" "stream_rest r1 = stream_rest r" using fill_stream [OF assms(1) f] by auto
  have "e = None"
  proof (rule ccontr)
    assume "e \<noteq> None"
    then have "rb_limit r \<le> rb_off r \<or> length (window r) = bufferSize" using fill_stream [OF assms(1) f] by auto
    then show False using False assms rest_at_limit [of r] by auto
  qed
  then have w: "window r1 = take bufferSize (stream_rest r)" using fill_stream [OF assms(1) f] by auto
  then have l: "n \<le> length (window r1)" using assms(2,3) by simp
  have "take n (window r1) = take n (stream_rest r)" using w assms(3) by (simp add: min_absorb1)
  then have "ReadN n r = (Inr (take n (stream_rest r)), advance n r1)" using False assms(3) f \<open>e = None\<close> l by (simp add: ReadN_def Peek_def)
  then show ?thesis using advance_stream [OF s(1) l] s(2) that by auto
qed

section \<open>Notes\<close>

record elf_Note =
  n_name :: bstring
  n_type :: u32
  n_desc :: "byte list"

definition pad4 :: "byte list \<Rightarrow> byte list" where "pad4 bs = bs @ replicate (alignNoteSize (length bs) - length bs) 0"

definition encode_note :: "elf_Note \<Rightarrow> byte list" where
  "encode_note n = le_put 4 (length (n_name n)) @ le_put 4 (length (n_desc n)) @ le_put 4 (unat (n_type n)) @ pad4 (n_name n) @ pad4 (n_desc n)"

definition note_ok :: "elf_Note \<Rightarrow> bool" where
  "note_ok n \<longleftrightarrow> length (n_name n) \<le> bufferSize \<and> length (n_desc n) \<le> bufferSize"

definition note_id :: "elf_Note \<Rightarrow> u64" where "note_id n = note_namespace (n_name n) + ucast (n_type n)"

fun visit_list :: "(u64 \<Rightarrow> byte list \<Rightarrow> 's \<Rightarrow> bool \<times> 's) \<Rightarrow> elf_Note list \<Rightarrow> 's \<Rightarrow> elferr option \<times> 's" where
  "visit_list visitor [] st = (Some ErrNoteNotFound, st)"
| "visit_list visitor (n # ns) st =
     (case visitor (note_id n) (n_desc n) st of (False, st) \<Rightarrow> (None, st) | (True, st) \<Rightarrow> visit_list visitor ns st)"

lemma alignNoteSize_bounds: "n \<le> alignNoteSize n" "n \<le> bufferSize \<Longrightarrow> alignNoteSize n \<le> bufferSize"
proof -
  show "n \<le> alignNoteSize n" unfolding alignNoteSize_def by linarith
  show "alignNoteSize n \<le> bufferSize" if "n \<le> bufferSize"
    using that div_le_mono [of "n + 3" "65536 + 3" 4] by (simp add: alignNoteSize_def bufferSize_def)
qed

lemma pad4_simps [simp]: "length (pad4 bs) = alignNoteSize (length bs)" "take (length bs) (pad4 bs) = bs"
  using alignNoteSize_bounds(1) by (auto simp: pad4_def)

lemma read_namespace_note:
  assumes "Reader_ok r" "stream_rest r = pad4 name @ tl1" "length name \<le> bufferSize"
  obtains r' where "read_namespace (length name) r = (Inr (note_namespace name), r')" "Reader_ok r'" "stream_rest r' = tl1"
proof -
  have "alignNoteSize (length name) \<le> length (stream_rest r)" "alignNoteSize (length name) \<le> bufferSize"
    using assms(2,3) alignNoteSize_bounds(2) by simp_all
  then obtain r' where "ReadN (alignNoteSize (length name)) r = (Inr (pad4 name), r')" "Reader_ok r'" "stream_rest r' = tl1"
    using ReadN_stream [OF assms(1)] assms(2) by (metis append_eq_conv_conj pad4_simps(1))
  then show thesis using that by (simp add: read_namespace_def)
qed

lemma read_desc_note:
  assumes "Reader_ok r" "stream_rest r = pad4 desc @ tl1" "length desc \<le> bufferSize"
  obtains r' where "read_desc (length desc) buf r = (Inr desc, buf, r')" "Reader_ok r'" "stream_rest r' = tl1"
proof -
  have "alignNoteSize (length desc) \<le> length (stream_rest r)" "alignNoteSize (length desc) \<le> bufferSize"
    using assms(2,3) alignNoteSize_bounds(2) by simp_all
  then obtain r' where "ReadN (alignNoteSize (length desc)) r = (Inr (pad4 desc), r')" "Reader_ok r'" "stream_rest r' = tl1"
    using ReadN_stream [OF assms(1)] assms(2) by (metis append_eq_conv_conj pad4_simps(1))
  then show thesis using that by (simp add: read_desc_def Let_def)
qed

lemma le_at_u32:
  assumes "off = length pre"
  shows "n \<le> bufferSize \<Longrightarrow> unat (le_at 4 off (pre @ le_put 4 n @ post) :: u32) = n"
    "(le_at 4 off (pre @ le_put 4 (unat w) @ post) :: u32) = w"
proof -
  have w: "unat w < 2 ^ 32" using unsigned_less [of w, where 'a = nat] by simp
  show "n \<le> bufferSize \<Longrightarrow> unat (le_at 4 off (pre @ le_put 4 n @ post) :: u32) = n"
    by (simp add: le_at_put [OF assms] unat_of_nat bufferSize_def)
  show "(le_at 4 off (pre @ le_put 4 (unat w) @ post) :: u32) = w" using w by (simp add: le_at_put [OF assms])
qed

text \<open>A list of notes in the stream of a reader is visited as the list is.\<close>

lemma visit_notes_list:
  assumes "Reader_ok r" "stream_rest r = concat (map encode_note ns)" "list_all note_ok ns"
  shows "visit_notes visitor hdr buf r st = visit_list visitor ns st"
  using assms
proof (induction ns arbitrary: hdr r st)
  case Nil
  obtain bs e r' where r: "Reader_Read 12 r = ((bs, e), r')" by (metis prod.collapse)
  then have "bs = []" "e = Some EOF" using read_loop_stream [OF Nil(1), of 12 "[]" bs e r'] Nil(2) by (auto simp: Reader_Read_def)
  then show ?case using r by (subst visit_notes.simps) simp
next
  case (Cons n ns)
  let ?h = "le_put 4 (length (n_name n)) @ le_put 4 (length (n_desc n)) @ le_put 4 (unat (n_type n))"
  let ?tl = "concat (map encode_note ns)"
  have s: "stream_rest r = ?h @ pad4 (n_name n) @ pad4 (n_desc n) @ ?tl" using Cons.prems(2) by (simp add: encode_note_def [of n])
  have h: "le_put 4 k \<noteq> []" for k using length_le_put [of 4 k] by fastforce
  have ok: "length (n_name n) \<le> bufferSize" "length (n_desc n) \<le> bufferSize" using Cons.prems(3) by (auto simp: note_ok_def)
  obtain bs e r1 where r: "Reader_Read 12 r = ((bs, e), r1)" by (metis prod.collapse)
  then have b: "bs = ?h" "e = None" "stream_rest r1 = pad4 (n_name n) @ pad4 (n_desc n) @ ?tl" "Reader_ok r1"
    using read_loop_stream [OF Cons.prems(1), of 12 "[]" bs e r1] s h by (auto simp: Reader_Read_def)
  obtain r2 where r2: "read_namespace (length (n_name n)) r1 = (Inr (note_namespace (n_name n)), r2)" "Reader_ok r2" "stream_rest r2 = pad4 (n_desc n) @ ?tl"
    using read_namespace_note [OF b(4,3) ok(1)] .
  obtain r3 where r3: "read_desc (length (n_desc n)) buf r2 = (Inr (n_desc n), buf, r3)" "Reader_ok r3" "stream_rest r3 = ?tl"
    using read_desc_note [OF r2(2,3) ok(2)] .
  have f: "unat (le_at 4 0 (overlay bs hdr) :: u32) = length (n_name n)" "unat (le_at 4 4 (overlay bs hdr) :: u32) = length (n_desc n)"
    "(le_at 4 8 (overlay bs hdr) :: u32) = n_type n"
    using b(1) ok le_at_u32(1) [of 0 "[]" "length (n_name n)"] le_at_u32(1) [of 4 "le_put 4 (length (n_name n))" "length (n_desc n)"]
      le_at_u32(2) [of 8 "le_put 4 (length (n_name n)) @ le_put 4 (length (n_desc n))" "n_type n"] by (simp_all add: overlay_def)
  have "visit_notes visitor (overlay bs hdr) buf r3 st' = visit_list visitor ns st'" for st'
    using Cons.IH [OF r3(2,3)] Cons.prems(3) by simp
  then show ?case using r b(2) r2(1) r3(1) f by (subst visit_notes.simps) (simp add: note_id_def Let_def split: prod.splits bool.splits)
qed

text \<open>A region of the file that holds a list of notes.\<close>

definition holds_notes :: "elf_File \<Rightarrow> u64 \<times> u64 \<Rightarrow> elf_Note list \<Rightarrow> bool" where
  "holds_notes f rg ns \<longleftrightarrow> 0 \<le> sint (fst rg) \<and> 0 \<le> sint (snd rg) \<and> sint (fst rg) + sint (snd rg) \<le> int (length (f_data f)) \<and>
     file_ReadAt (nat (sint (snd rg))) (nat (sint (fst rg))) (f_data f) = concat (map encode_note ns) \<and> list_all note_ok ns"

lemma visit_list_append:
  "visit_list visitor (ns @ ms) st =
     (case visit_list visitor ns st of (Some ErrNoteNotFound, st) \<Rightarrow> visit_list visitor ms st | res \<Rightarrow> res)"
  by (induction ns arbitrary: st) (auto split: prod.splits bool.splits option.splits elferr.splits)

lemma visit_regions_list:
  assumes "length (f_data f) < 2 ^ 63" "list_all2 (holds_notes f) rgs nss"
  shows "visit_regions visitor (map (\<lambda>rg. Reader_Init (f_data f) (sint (fst rg)) (sint (snd rg))) rgs) st = visit_list visitor (concat nss) st"
proof -
  have v: "visit_notes visitor hdr buf (Reader_Init (f_data f) (sint (fst rg)) (sint (snd rg))) st = visit_list visitor ns st"
    if "holds_notes f rg ns" for rg ns hdr buf st
    using that Reader_Init_ok [of "sint (fst rg)" "sint (snd rg)" "f_data f"] assms(1)
    by (intro visit_notes_list) (auto simp: holds_notes_def file_ReadAt_def)
  show ?thesis using assms(2)
    by (induction rgs nss arbitrary: st rule: list_all2_induct) (auto simp: v visit_list_append split: prod.splits option.splits elferr.splits)
qed

definition last_note :: "u64 \<Rightarrow> elf_Note list \<Rightarrow> elf_Note option" where
  "last_note nid ns = find (\<lambda>n. note_id n = nid) (rev ns)"

lemma notes_find_append: "find P (xs @ ys) = (case find P xs of None \<Rightarrow> find P ys | Some x \<Rightarrow> Some x)"
  by (induction xs) auto

lemma cacheNote_list:
  "visit_list cacheNote ns (gnu, go) =
     (Some ErrNoteNotFound,
      case last_note NoteGnuBuildId ns of None \<Rightarrow> gnu | Some n \<Rightarrow> hex_EncodeToString (n_desc n),
      case last_note NoteGoBuildId ns of None \<Rightarrow> go | Some n \<Rightarrow> bytes_string (n_desc n))"
  by (induction ns arbitrary: gnu go) (auto simp: last_note_def cacheNote_def notes_find_append split: option.splits)

definition fresh_notes :: "elf_File \<Rightarrow> bool" where
  "fresh_notes f \<longleftrightarrow> f_notesError f = Some errNotProcessed \<and> f_gnuBuildId f = [] \<and> f_goBuildId f = []"

lemma hex_empty [simp]: "hex_EncodeToString [] = []" "hex_EncodeToString bs = [] \<longleftrightarrow> bs = []" by (auto simp: hex_EncodeToString_def)

text \<open>What the last note of a kind says.\<close>

definition notes_id :: "u64 \<Rightarrow> elf_Note list \<Rightarrow> byte list" where
  "notes_id nid ns = (case last_note nid ns of None \<Rightarrow> [] | Some n \<Rightarrow> n_desc n)"

lemma cacheNote_ids:
  "visit_list cacheNote ns ([], []) = (Some ErrNoteNotFound, hex_EncodeToString (notes_id NoteGnuBuildId ns), bytes_string (notes_id NoteGoBuildId ns))"
  by (simp add: cacheNote_list notes_id_def bytes_string_def split: option.split)

text \<open>The sections with build identifiers, and the file after they were loaded; there are none inside a core dump or when loading fails.\<close>

definition note_sections :: "elf_File \<Rightarrow> Section list \<Rightarrow> elf_File \<Rightarrow> bool" where
  "note_sections f ss f1 \<longleftrightarrow>
     (if f_InsideCore f then ss = [] \<and> f1 = f
      else \<exists>e. LoadSections f = Some (e, f1) \<and> ss = (if e = None then filter buildID_section (sections_of f1) else []))"

lemma LoadSections_keeps: "LoadSections f = Some (e, f1) \<Longrightarrow> \<exists>ss. f1 = f\<lparr>f_Sections := ss\<rparr>"
proof -
  assume l: "LoadSections f = Some (e, f1)"
  have "\<exists>ss. f = f\<lparr>f_Sections := ss\<rparr>" by (rule exI [of _ "f_Sections f"]) simp
  then show ?thesis using l by (auto simp: LoadSections_def Let_def split: if_splits prod.splits option.splits sum.splits)
qed

lemma visitBuildIDNoteSections_list:
  assumes "note_sections f ss f1" "length (f_data f) < 2 ^ 63" "list_all2 (holds_notes f) (map (\<lambda>s. (sh_Offset s, sh_Size s)) ss) nss"
  shows "visitBuildIDNoteSections cacheNote f ([], []) =
      Some (if ss = [] then Some ErrNoteNotFound else None,
        (hex_EncodeToString (notes_id NoteGnuBuildId (concat nss)), bytes_string (notes_id NoteGoBuildId (concat nss))), f1)"
    and "\<exists>x. f1 = f\<lparr>f_Sections := x\<rparr>"
proof -
  show k: "\<exists>x. f1 = f\<lparr>f_Sections := x\<rparr>"
    using assms(1) LoadSections_keeps by (cases "f_InsideCore f") (auto simp: note_sections_def intro: exI [of _ "f_Sections f"])
  have "nss = [] \<longleftrightarrow> ss = []" using list_all2_lengthD [OF assms(3)] by auto
  then show "visitBuildIDNoteSections cacheNote f ([], []) =
      Some (if ss = [] then Some ErrNoteNotFound else None,
        (hex_EncodeToString (notes_id NoteGnuBuildId (concat nss)), bytes_string (notes_id NoteGoBuildId (concat nss))), f1)"
    using assms(1,3) visit_regions_list [OF assms(2,3), of cacheNote "([], [])"] k
    by (auto simp: visitBuildIDNoteSections_def note_sections_def cacheNote_ids notes_id_def last_note_def bytes_string_def comp_def
        split: if_splits option.splits)
qed

text \<open>
  C30: The build identifier of a file, whose notes lie in it and are no larger than the buffer of the reader, is that of the last GNU note, in hexadecimal, however the
  buffer cuts the notes, and there is none if no note has one. The notes are those of the sections for build identifiers, followed by those
  of the note segments unless the sections have both a GNU and a Go identifier; inside a core dump, and when the sections cannot be
  loaded, only the segments count. The second call answers from the cache.
\<close>

theorem GetBuildID_notes:
  assumes "fresh_notes f" "length (f_data f) < 2 ^ 63" "note_sections f ss f1"
    "list_all2 (holds_notes f) (map (\<lambda>s. (sh_Offset s, sh_Size s)) ss) sss"
    "list_all2 (holds_notes f) (map (\<lambda>p. (ph_Off p, ph_Filesz p)) (filter (\<lambda>p. ph_Type p = PT_NOTE) (f_Progs f))) nss"
    "ns = (if notes_id NoteGnuBuildId (concat sss) \<noteq> [] \<and> notes_id NoteGoBuildId (concat sss) \<noteq> [] then concat sss else concat sss @ concat nss)"
  shows "\<exists>f'. GetBuildID f =
      Some ((hex_EncodeToString (notes_id NoteGnuBuildId ns), if notes_id NoteGnuBuildId ns = [] then Some ErrNoBuildID else None), f') \<and>
    map_option fst (GetBuildID f') = map_option fst (GetBuildID f)"
proof -
  define ids where "ids ms = (hex_EncodeToString (notes_id NoteGnuBuildId ms), bytes_string (notes_id NoteGoBuildId ms))" for ms
  have e: "fst (ids ms) = [] \<longleftrightarrow> notes_id NoteGnuBuildId ms = []" "snd (ids ms) = [] \<longleftrightarrow> notes_id NoteGoBuildId ms = []" for ms
    by (simp_all add: ids_def bytes_string_def del: NoteGnuBuildId_def NoteGoBuildId_def)
  have s: "visitBuildIDNoteSections cacheNote f ([], []) = Some (if ss = [] then Some ErrNoteNotFound else None, ids (concat sss), f1)"
    and k: "\<exists>x. f1 = f\<lparr>f_Sections := x\<rparr>"
    using visitBuildIDNoteSections_list [OF assms(3,2,4)] by (simp_all add: ids_def)
  have sp: "ss = [] \<Longrightarrow> concat sss = []" using assms(4) by simp
  define g where "g err = (keep_ids (ids (concat sss)) f1)\<lparr>f_notesError := err\<rparr>" for err
  have gk: "f_data (g err) = f_data f" "f_Progs (g err) = f_Progs f" for err using k by (auto simp: g_def keep_ids_def)
  have h: "list_all2 (holds_notes (g err)) (map (\<lambda>p. (ph_Off p, ph_Filesz p)) (filter (\<lambda>p. ph_Type p = PT_NOTE) (f_Progs (g err)))) nss" for err
    using assms(5) unfolding gk by (auto simp: holds_notes_def gk elim!: list_all2_mono)
  have v: "VisitNotes cacheNote (g err) (ids (concat sss)) = (Some ErrNoteNotFound, ids (concat sss @ concat nss))" for err
  proof -
    have "VisitNotes cacheNote (g err) (ids (concat sss)) = visit_list cacheNote (concat nss) (ids (concat sss))"
      using visit_regions_list [OF _ h [of err], of cacheNote "ids (concat sss)"] assms(2) by (simp add: VisitNotes_def gk comp_def)
    also have "\<dots> = (Some ErrNoteNotFound, ids (concat sss @ concat nss))"
      using visit_list_append [of cacheNote "concat sss" "concat nss" "([], [])"] by (simp add: cacheNote_ids ids_def)
    finally show ?thesis .
  qed
  let ?f = "(keep_ids (ids ns) (g None))\<lparr>f_notesError := None\<rparr>"
  have p: "parseNotes f = Some (None, ?f)"
  proof (cases "notes_id NoteGnuBuildId (concat sss) \<noteq> [] \<and> notes_id NoteGoBuildId (concat sss) \<noteq> []")
    case True
    have "ss \<noteq> []"
    proof
      assume none: "ss = []"
      from True show False unfolding sp [OF none] by (simp add: notes_id_def last_note_def)
    qed
    then show ?thesis using True s assms(1,6) e by (simp add: parseNotes_def fresh_notes_def Let_def g_def keep_ids_def)
  next
    case False
    then have "ns = concat sss @ concat nss" unfolding assms(6) by (rule if_not_P)
    moreover have "ss \<noteq> [] \<longrightarrow> fst (ids (concat sss)) = [] \<or> snd (ids (concat sss)) = []" using False e by blast
    moreover have "parseNotes f =
        (let (err, is) = VisitNotes cacheNote (g (if ss = [] then Some ErrNoteNotFound else None)) (ids (concat sss));
             err = (if err = Some ErrNoteNotFound then None else err)
         in Some (err, (keep_ids is (g (if ss = [] then Some ErrNoteNotFound else None)))\<lparr>f_notesError := err\<rparr>))"
      if "ss \<noteq> [] \<longrightarrow> fst (ids (concat sss)) = [] \<or> snd (ids (concat sss)) = []"
      using s assms(1) that by (cases "ss = []") (simp_all add: parseNotes_def fresh_notes_def Let_def g_def)
    ultimately show ?thesis by (simp add: v Let_def) (simp add: g_def keep_ids_def)
  qed
  have q: "parseNotes ?f = Some (None, ?f)" by (simp add: parseNotes_def)
  show ?thesis using p q e [of ns] by (intro exI [of _ ?f]) (auto simp: GetBuildID_def keep_ids_def ids_def)
qed

definition example_notes :: "elf_Note list" where
  "example_notes =
     [\<lparr>n_name = ascii ''GNU'' @ [0], n_type = 1, n_desc = [0, 0, 0]\<rparr>,
      \<lparr>n_name = ascii ''GNU'' @ [0], n_type = 3, n_desc = [0xca, 0xfe]\<rparr>]"

text \<open>A file with the notes in a section.\<close>

definition example_noted :: elf_File where
  "example_noted =
     \<lparr>f_data = concat (map encode_note example_notes), f_mmapped = False, f_loadData = [], f_ROData = [], f_Progs = [],
      f_Sections = Some [\<lparr>sh_Name = ascii ''.note.gnu.build-id'', sh_Type = SHT_NOTE, sh_Flags = 2, sh_Addr = 0, sh_Offset = 0, sh_Size = 40, sh_Link = 0,
        sh_Info = 0, sh_Addralign = 4, sh_Entsize = 0, sh_FileSize = 40\<rparr>],
      f_neededIndexes = [], f_soNameIndex = 0, f_Shoff = 0, f_Shnum = 1, f_Shstrndx = 0, f_gnuHash_addr = 0,
      f_gnuHash_header = [], f_sysvHash_addr = 0, f_sysvHash_header = [], f_stringsAddr = 0, f_symbolsAddr = 0, f_bias = 0,
      f_InsideCore = False, f_Type = 2, f_Machine = EM_X86_64, f_Entry = 0, f_notesError = Some errNotProcessed, f_gnuBuildId = [],
      f_goBuildId = [], f_golangVersion = None, f_debuglinkPath = None\<rparr>"

theorem GetBuildID_notes_witness: "map_option fst (GetBuildID example_noted) = Some (''cafe'', None)"
proof -
  have "concat (map encode_note example_notes) =
      [4, 0, 0, 0, 3, 0, 0, 0, 1, 0, 0, 0, 71, 78, 85, 0, 0, 0, 0, 0, 4, 0, 0, 0, 2, 0, 0, 0, 3, 0, 0, 0, 71, 78, 85, 0, 0xca, 0xfe, 0, 0]"
    by code_simp
  then have l: "length (concat (map encode_note example_notes)) = 40" by simp
  have n: "list_all note_ok example_notes" by (simp add: example_notes_def note_ok_def ascii_def bufferSize_def)
  let ?ss = "sections_of example_noted"
  have f: "fresh_notes example_noted" "length (f_data example_noted) < 2 ^ 63" using l by (simp_all add: example_noted_def fresh_notes_def)
  have s: "note_sections example_noted ?ss example_noted"
    by (simp add: note_sections_def LoadSections_def example_noted_def sections_of_def buildID_section_def buildIDSections_def)
  have h: "list_all2 (holds_notes example_noted) (map (\<lambda>s. (sh_Offset s, sh_Size s)) ?ss) [example_notes]"
    using l n by (simp add: example_noted_def holds_notes_def file_ReadAt_def sections_of_def)
  have p: "list_all2 (holds_notes example_noted) (map (\<lambda>p. (ph_Off p, ph_Filesz p)) (filter (\<lambda>p. ph_Type p = PT_NOTE) (f_Progs example_noted))) []"
    by (simp add: example_noted_def)
  have i: "notes_id NoteGnuBuildId example_notes = [0xca, 0xfe]" "hex_EncodeToString [0xca, 0xfe] = ''cafe''" by code_simp+
  show ?thesis using GetBuildID_notes [OF f s h p refl] i by auto
qed

section \<open>Debug links\<close>

definition encode_debuglink :: "bstring \<Rightarrow> u32 \<Rightarrow> byte list" where
  "encode_debuglink name crc = pad4 (name @ [0]) @ le_put 4 (unat crc)"

lemma bytes_Index_byte: "b \<notin> set xs \<Longrightarrow> bytes_Index (xs @ b # ys) [b] = Some (length xs)"
proof (induction xs)
  case Nil
  show ?case by (subst bytes_Index.simps) simp
next
  case (Cons x xs)
  then show ?case by (subst bytes_Index.simps) auto
qed

lemma align_pad: "n + (4 - n mod 4) mod 4 = alignNoteSize n"
proof -
  obtain q r where n: "n = 4 * q + r" "r < 4" by (metis div_mult_mod_eq mod_less_divisor mult.commute zero_less_numeral)
  then have d: "(n + 3) div 4 = q + (r + 3) div 4" "n mod 4 = r" using div_mult_self4 [of 4 q "r + 3"] by (simp_all add: add.assoc)
  from n(2) have "r = 0 \<or> r = 1 \<or> r = 2 \<or> r = 3" by linarith
  then show ?thesis using n(1) d by (auto simp: alignNoteSize_def)
qed

lemma ParseDebugLink_link:
  assumes "name \<noteq> []" "0 \<notin> set name" "utf8_Valid name"
  shows "ParseDebugLink (encode_debuglink name crc @ rest) = Inr (name, crc)"
proof -
  let ?d = "encode_debuglink name crc @ rest" and ?s = "alignNoteSize (length name + 1)"
  have "bytes_Index ?d [0] = Some (length name)"
    using bytes_Index_byte [OF assms(2)] by (simp add: encode_debuglink_def pad4_def)
  moreover have "take (length name) ?d = name" by (simp add: encode_debuglink_def pad4_def)
  moreover have "(le_at 4 ?s ?d :: u32) = crc"
    using le_at_u32(2) [of ?s "pad4 (name @ [0])" crc rest] by (simp add: encode_debuglink_def)
  moreover have "?s + 4 \<le> length ?d" by (simp add: encode_debuglink_def)
  ultimately show ?thesis using assms align_pad [of "length name + 1"] by (simp add: ParseDebugLink_def Let_def)
qed

lemma example_name_valid: "utf8_Valid [0x61, 0x2e, 0x64]"
proof -
  have "valid_prefix [] = 0" "valid_prefix [0x64] = Suc (valid_prefix [])" "valid_prefix [0x2e, 0x64] = Suc (valid_prefix [0x64])"
    "valid_prefix [0x61, 0x2e, 0x64] = Suc (valid_prefix [0x2e, 0x64])"
    by (subst valid_prefix.simps, simp)+
  then show ?thesis by (simp add: utf8_Valid_def)
qed

text \<open>
  The parser of debug links reads back the name and the checksum that a section was made of, whatever follows them.
\<close>

theorem ParseDebugLink_encode:
  assumes "name \<noteq> []" "0 \<notin> set name" "utf8_Valid name"
  shows "ParseDebugLink (encode_debuglink name crc @ rest) = Inr (name, crc)"
  by (rule ParseDebugLink_link [OF assms])

theorem ParseDebugLink_encode_witness:
  "ParseDebugLink (encode_debuglink [0x61, 0x2e, 0x64] 0xdeadbeef @ [1, 2]) = Inr ([0x61, 0x2e, 0x64], 0xdeadbeef)"
  using ParseDebugLink_encode [of "[0x61, 0x2e, 0x64]" "0xdeadbeef" "[1, 2]"] example_name_valid by simp

lemma LoadSections_path: "LoadSections f = Some (e, f') \<Longrightarrow> f_debuglinkPath f' = f_debuglinkPath f"
  by (auto simp: LoadSections_def Let_def split: if_splits prod.splits option.splits sum.splits)

lemma GetDebugLink_path: "GetDebugLink f = Some (res, f') \<Longrightarrow> f_debuglinkPath f' = f_debuglinkPath f"
  by (auto simp: GetDebugLink_def File_Section_def dest!: LoadSections_path split: if_splits prod.splits option.splits sum.splits)

text \<open>
  When the debug file cannot be opened, or has another checksum than the link says, \<open>OpenDebugLink\<close> nevertheless returns
  its path, in the second case with the file, which it has closed. \<open>DebuglinkFileName\<close> therefore gives the path of the rejected
  file when it is called first, and the empty string on every later call.
\<close>

theorem rejected_debug_file:
  assumes "GetDebugLink (f\<lparr>f_debuglinkPath := Some []\<rparr>) = Some (Inr (linkName, crc), f1)" "f_debuglinkPath f = None"
    "debugFile = path_Join [ascii ''/usr/lib/debug/'', path_Dir path, linkName]"
    "\<forall>d. openELF debugFile = Inr d \<longrightarrow> File_CRC32 d \<noteq> crc"
  shows "OpenDebugLink path openELF f =
      Some ((case openELF debugFile of Inl _ \<Rightarrow> None | Inr d \<Rightarrow> Some (d, True), debugFile), f1) \<and>
    DebuglinkFileName path openELF f = Some (debugFile, f1) \<and> DebuglinkFileName path openELF f1 = Some ([], f1)"
proof -
  have o: "OpenDebugLink path openELF f =
      Some ((case openELF debugFile of Inl _ \<Rightarrow> None | Inr d \<Rightarrow> Some (d, True), debugFile), f1)"
    using assms by (auto simp: OpenDebugLink_def Let_def split: sum.splits)
  then show ?thesis using assms(2) GetDebugLink_path [OF assms(1)] by (simp add: DebuglinkFileName_def)
qed

definition example_core :: elf_File where
  "example_core =
     \<lparr>f_data = concat (map encode_note example_notes), f_mmapped = False, f_loadData = [], f_ROData = [],
      f_Progs = [\<lparr>ph_Type = PT_NOTE, ph_Flags = PF_R, ph_Off = 0, ph_Vaddr = 0, ph_Paddr = 0, ph_Filesz = 40, ph_Memsz = 40, ph_Align = 4\<rparr>],
      f_Sections = None, f_neededIndexes = [], f_soNameIndex = 0, f_Shoff = 0, f_Shnum = 0, f_Shstrndx = 0, f_gnuHash_addr = 0,
      f_gnuHash_header = [], f_sysvHash_addr = 0, f_sysvHash_header = [], f_stringsAddr = 0, f_symbolsAddr = 0, f_bias = 0,
      f_InsideCore = True, f_Type = 4, f_Machine = EM_X86_64, f_Entry = 0, f_notesError = Some errNotProcessed, f_gnuBuildId = [],
      f_goBuildId = [], f_golangVersion = None, f_debuglinkPath = None\<rparr>"

definition example_stripped :: elf_File where
  "example_stripped = example_core\<lparr>f_data := encode_debuglink [0x61, 0x2e, 0x64] 0xdeadbeef, f_InsideCore := False,
     f_Sections := Some [\<lparr>sh_Name = ascii ''.gnu_debuglink'', sh_Type = 1, sh_Flags = 0, sh_Addr = 0, sh_Offset = 0, sh_Size = 8, sh_Link = 0,
       sh_Info = 0, sh_Addralign = 4, sh_Entsize = 0, sh_FileSize = 8\<rparr>]\<rparr>"

theorem rejected_debug_file_witness:
  "map_option fst (DebuglinkFileName (ascii ''/bin/a'') (\<lambda>_. Inl ErrNotELF) example_stripped) = Some (ascii ''/usr/lib/debug/bin/a.d'')"
proof -
  have d: "encode_debuglink [0x61, 0x2e, 0x64] 0xdeadbeef = [0x61, 0x2e, 0x64, 0, 0xef, 0xbe, 0xad, 0xde]"
    by (simp add: encode_debuglink_def le_put_4 pad4_def alignNoteSize_def)
  have "ParseDebugLink [0x61, 0x2e, 0x64, 0, 0xef, 0xbe, 0xad, 0xde] = Inr ([0x61, 0x2e, 0x64], 0xdeadbeef)"
    using ParseDebugLink_link [OF _ _ example_name_valid, of "0xdeadbeef" "[]"] d by simp
  then have "GetDebugLink (example_stripped\<lparr>f_debuglinkPath := Some []\<rparr>) =
      Some (Inr ([0x61, 0x2e, 0x64], 0xdeadbeef), example_stripped\<lparr>f_debuglinkPath := Some []\<rparr>)"
    by (simp add: GetDebugLink_def File_Section_def LoadSections_def sections_of_def example_stripped_def example_core_def d ReadN_def Peek_def
        Reader_Init_def fill_def Reader_ReadAt_def file_ReadAt_def window_def advance_def bufferSize_def Let_def)
  moreover have "path_Join [ascii ''/usr/lib/debug/'', path_Dir (ascii ''/bin/a''), [0x61, 0x2e, 0x64]] = ascii ''/usr/lib/debug/bin/a.d''" by code_simp
  ultimately show ?thesis using rejected_debug_file [of example_stripped "[0x61, 0x2e, 0x64]" "0xdeadbeef"]
    by (auto simp: example_stripped_def example_core_def)
qed

end
