(* ===== verification/GoVer.thy ===== *)
theory GoVer
  imports ElfFile "HOL-Library.List_Lexorder"
begin

text \<open>
  The order of Go versions, \<open>go/version.Compare\<close> of the standard library, which \<open>parseGoPclntab\<close> decides on frame pointers
  with. A version is a string such as \<open>go1.21rc1\<close>; one that cannot be parsed is below all others.
\<close>

record gover =
  gv_Major :: bstring
  gv_Minor :: bstring
  gv_Patch :: bstring
  gv_Kind :: bstring
  gv_Pre :: bstring

definition gover_zero :: gover where
  "gover_zero = \<lparr>gv_Major = [], gv_Minor = [], gv_Patch = [], gv_Kind = [], gv_Pre = []\<rparr>"

definition is_digit :: "byte \<Rightarrow> bool" where "is_digit b \<longleftrightarrow> 0x30 \<le> b \<and> b \<le> 0x39"

text \<open>\<open>cutInt\<close>: a decimal number without leading zeros, and the rest.\<close>

definition cutInt :: "bstring \<Rightarrow> (bstring \<times> bstring) option" where
  "cutInt x =
     (let n = takeWhile is_digit x
      in if n = [] \<or> hd x = 0x30 \<and> length n \<noteq> 1 then None else Some (n, drop (length n) x))"

text \<open>Decimal numbers are compared by their lengths and then byte by byte.\<close>

definition CmpInt :: "bstring \<Rightarrow> bstring \<Rightarrow> int" where
  "CmpInt x y = (if x = y then 0 else if length x < length y then - 1 else if length x > length y then 1 else cmp_Compare x y)"

definition parse_pre :: "gover \<Rightarrow> bstring \<Rightarrow> gover" where
  "parse_pre v x =
     (let kind = takeWhile (\<lambda>b. \<not> is_digit b) x; rest = drop (length kind) x
      in if kind = [] \<or> \<not> list_all (\<lambda>b. 0x61 \<le> b \<and> b \<le> 0x7a) kind then gover_zero
         else if rest = [] then v\<lparr>gv_Kind := kind\<rparr>
         else case cutInt rest of
                Some (pre, []) \<Rightarrow> v\<lparr>gv_Kind := kind, gv_Pre := pre\<rparr>
              | _ \<Rightarrow> gover_zero)"

definition gover_Parse :: "bstring \<Rightarrow> gover" where
  "gover_Parse x =
     (case cutInt x of
        None \<Rightarrow> gover_zero
      | Some (major, []) \<Rightarrow> gover_zero\<lparr>gv_Major := major, gv_Minor := ascii ''0'', gv_Patch := ascii ''0''\<rparr>
      | Some (major, c # x) \<Rightarrow>
          if c \<noteq> 0x2e then gover_zero
          else
            (case cutInt x of
               None \<Rightarrow> gover_zero
             | Some (minor, x) \<Rightarrow>
                 let v = gover_zero\<lparr>gv_Major := major, gv_Minor := minor\<rparr>
                 in (case x of
                       [] \<Rightarrow> if CmpInt minor (ascii ''21'') < 0 then v\<lparr>gv_Patch := ascii ''0''\<rparr> else v
                     | c # y \<Rightarrow>
                         if c = 0x2e
                         then (case cutInt y of Some (patch, []) \<Rightarrow> v\<lparr>gv_Patch := patch\<rparr> | _ \<Rightarrow> gover_zero)
                         else parse_pre v x)))"

fun first_difference :: "int list \<Rightarrow> int" where
  "first_difference [] = 0"
| "first_difference (c # cs) = (if c \<noteq> 0 then c else first_difference cs)"

definition gover_Compare :: "bstring \<Rightarrow> bstring \<Rightarrow> int" where
  "gover_Compare x y =
     (let a = gover_Parse x; b = gover_Parse y
      in first_difference
           [CmpInt (gv_Major a) (gv_Major b), CmpInt (gv_Minor a) (gv_Minor b), CmpInt (gv_Patch a) (gv_Patch b),
            cmp_Compare (gv_Kind a) (gv_Kind b), CmpInt (gv_Pre a) (gv_Pre b)])"

definition stripGo :: "bstring \<Rightarrow> bstring" where
  "stripGo v = (let v = takeWhile (\<lambda>b. b \<noteq> 0x2d) v in if take 2 v \<noteq> ascii ''go'' then [] else drop 2 v)"

definition version_Compare :: "bstring \<Rightarrow> bstring \<Rightarrow> int" where
  "version_Compare x y = gover_Compare (stripGo x) (stripGo y)"

text \<open>The order on versions is reflexive, antisymmetric up to equal components, and total.\<close>

lemma CmpInt_sym: "CmpInt y x = - CmpInt x y"
  by (auto simp: CmpInt_def cmp_Compare_def)

lemma cmp_Compare_sym: "cmp_Compare y x = - cmp_Compare (x :: 'a :: linorder) y"
  by (auto simp: cmp_Compare_def)

lemma first_difference_neg: "first_difference (map uminus cs) = - first_difference cs"
  by (induction cs) auto

lemma version_Compare_sym: "version_Compare y x = - version_Compare x y"
  using first_difference_neg
  by (simp add: version_Compare_def gover_Compare_def Let_def CmpInt_sym [of "gv_Major (gover_Parse (stripGo x))"]
      CmpInt_sym [of "gv_Minor (gover_Parse (stripGo x))"] CmpInt_sym [of "gv_Patch (gover_Parse (stripGo x))"]
      CmpInt_sym [of "gv_Pre (gover_Parse (stripGo x))"] cmp_Compare_sym [of "gv_Kind (gover_Parse (stripGo x))"])

end
