(* ===== verification/GoPclntab.thy ===== *)
theory GoPclntab
  imports ElfNotes GoVer DeltaExtraction
begin

text \<open>
  The Go symbol table \<open>.gopclntab\<close> (\<open>nativeunwind/elfunwindinfo/elfgopclntab.go\<close>): finding it in an ELF file, its header and the
  tables it is divided into, the function table, the tables that map program counters to values, symbolization, and the
  stack deltas of a Go executable.

  The tables are read through unsafe pointers of which only the first byte is checked. An index out of range is a
  panic, and so is here a read that starts inside a table and ends behind it: both are \<open>None\<close>.
\<close>

unbundle bit_operations_syntax

section \<open>Versions and headers\<close>

definition maxBytesGoPclntab :: nat where [simp]: "maxBytesGoPclntab = 128 * 1024 * 1024"
definition goInvalid :: u8 where [simp]: "goInvalid = 0"
definition go1_2 :: u8 where [simp]: "go1_2 = 2"
definition go1_16 :: u8 where [simp]: "go1_16 = 16"
definition go1_18 :: u8 where [simp]: "go1_18 = 18"
definition go1_20 :: u8 where [simp]: "go1_20 = 20"
definition textOffset :: int64 where [simp]: "textOffset = 22 * 8"

datatype goerr =
    GoErrElf elferr
  | GoErrShort
  | GoErrSymbols
  | GoErrTextStart
  | GoErrHeader
  | GoErrCorrupt
  | GoErrArch
  | GoErrCutab ioerr
  | GoErrFuncnametab ioerr
  | GoErrFunc
  | GoErrPcsp
  | errNoPclntab
  | GoErrSymbolNotFound

definition goMagicToVersion :: "u32 \<Rightarrow> u8" where
  "goMagicToVersion magic =
     (if magic = 0xfffffffb then go1_2
      else if magic = 0xfffffffa then go1_16
      else if magic = 0xfffffff0 then go1_18
      else if magic = 0xfffffff1 then go1_20
      else goInvalid)"

definition PclntabHeaderSize :: nat where [simp]: "PclntabHeaderSize = 16"

definition pclntabHeaderSignature :: "elf_Machine \<Rightarrow> byte list" where
  "pclntabHeaderSignature arch =
     [0xff, 0xff, 0xff, 0, 0, case arch of EM_X86_64 \<Rightarrow> 1 | EM_AARCH64 \<Rightarrow> 4 | EM_Other _ \<Rightarrow> 0, 8]"

record pclntabFunc =
  fn_nameOff :: int32
  fn_argsSize :: int32
  fn_frameSize :: int32
  fn_pcspOff :: int32
  fn_pcfileOff :: int32
  fn_pclnOff :: int32
  fn_nfuncData :: int32
  fn_npcData :: int32

definition parse_func :: "byte list \<Rightarrow> pclntabFunc" where
  "parse_func b = \<lparr>fn_nameOff = le_at 4 0 b, fn_argsSize = le_at 4 4 b, fn_frameSize = le_at 4 8 b, fn_pcspOff = le_at 4 12 b,
     fn_pcfileOff = le_at 4 16 b, fn_pclnOff = le_at 4 20 b, fn_nfuncData = le_at 4 24 b, fn_npcData = le_at 4 28 b\<rparr>"

record Gopclntab =
  g_headerOffset :: int64
  g_data :: "byte list"
  g_textStart :: uintptr
  g_numFuncs :: int64
  g_numFiles :: u64
  g_version :: u8
  g_quantum :: u8
  g_ptrSize :: u8
  g_funSize :: u8
  g_funcMapSize :: u8
  g_funcnameOffset :: uintptr
  g_cuOffset :: uintptr
  g_filetabOffset :: uintptr
  g_pctabOffset :: uintptr
  g_pclnOffset :: uintptr
  g_functab :: "byte list"
  g_funcnametab :: "byte list"
  g_filetab :: "byte list"
  g_pctab :: "byte list"
  g_cutab :: "byte list"

section \<open>Tables of values\<close>

record pcval =
  pv_ptr :: "byte list"
  pv_pcStart :: u64
  pv_pcEnd :: u64
  pv_val :: int32
  pv_quantum :: u8

text \<open>\<open>getInt\<close>: seven bits per byte, the lowest first; data that ends inside a number gives zero.\<close>

fun getInt_loop :: "u32 \<Rightarrow> u32 \<Rightarrow> byte list \<Rightarrow> u32 \<times> byte list" where
  "getInt_loop v shift [] = (0, [])"
| "getInt_loop v shift (b # bs) =
     (let v = v OR push_bit (unat shift) (ucast b AND 0x7F)
      in if b AND 0x80 = 0 then (v, bs) else getInt_loop v (shift + 7) bs)"

definition getInt :: "pcval \<Rightarrow> u32 \<times> pcval" where
  "getInt p = (let (v, ptr) = getInt_loop 0 0 (pv_ptr p) in (v, p\<lparr>pv_ptr := ptr\<rparr>))"

definition unzigzag :: "u32 \<Rightarrow> u32" where
  "unzigzag d = (if d AND 1 \<noteq> 0 then NOT (drop_bit 1 d) else drop_bit 1 d)"

definition pcval_step :: "pcval \<Rightarrow> bool \<times> pcval" where
  "pcval_step p =
     (if pv_ptr p = [] \<or> hd (pv_ptr p) = 0 then (False, p)
      else
        let p = p\<lparr>pv_pcStart := pv_pcEnd p\<rparr>;
            (d, p) = getInt p;
            p = p\<lparr>pv_val := pv_val p + unzigzag d\<rparr>;
            (n, p) = getInt p
        in (True, p\<lparr>pv_pcEnd := pv_pcEnd p + ucast n * ucast (pv_quantum p)\<rparr>))"

definition newPcval :: "byte list \<Rightarrow> u64 \<Rightarrow> u8 \<Rightarrow> pcval" where
  "newPcval data pc quantum = snd (pcval_step \<lparr>pv_ptr = data, pv_pcStart = 0, pv_pcEnd = pc, pv_val = - 1, pv_quantum = quantum\<rparr>)"

lemma getInt_loop_length: "length (snd (getInt_loop v s bs)) \<le> length bs - 1"
  by (induction v s bs rule: getInt_loop.induct) (fastforce simp: Let_def)+

lemma pcval_step_shorter: "pcval_step p = (True, p') \<Longrightarrow> length (pv_ptr p') < length (pv_ptr p)"
  using getInt_loop_length [of 0 0 "pv_ptr p"] getInt_loop_length [of 0 0 "snd (getInt_loop 0 0 (pv_ptr p))"]
  by (cases "pv_ptr p") (auto simp: pcval_step_def getInt_def Let_def split: if_splits prod.splits)

text \<open>\<open>getInt32\<close> and \<open>getString\<close>: offsets out of range give \<open>-1\<close> and the empty string.\<close>

definition getInt32 :: "byte list \<Rightarrow> int \<Rightarrow> int" where
  "getInt32 data offset =
     (if offset < 0 \<or> offset + 4 > int (length data) then - 1 else sint (le_at 4 (nat offset) data :: int32))"

definition go_getString :: "byte list \<Rightarrow> int \<Rightarrow> bstring" where
  "go_getString data offset =
     (if offset < 0 \<or> offset > int (length data) then []
      else case bytes_Index (drop (nat offset) data) [0] of
             None \<Rightarrow> []
           | Some zeroIdx \<Rightarrow> take zeroIdx (drop (nat offset) data))"

section \<open>Finding the table\<close>

function search_header :: "byte list \<Rightarrow> byte list \<Rightarrow> nat \<Rightarrow> nat option" where
  "search_header signature data i =
     (if i + PclntabHeaderSize < length data
      then (case bytes_Index (drop i data) signature of
              None \<Rightarrow> None
            | Some n \<Rightarrow>
                let i = i + n - 1
                in if goMagicToVersion (le_at 4 i data) \<noteq> goInvalid then Some i else search_header signature data (i + 8))
      else None)"
  by pat_completeness auto
termination by (relation "measure (\<lambda>(signature, data, i). length data - i)") auto

declare search_header.simps [simp del]

definition searchable :: "Prog \<Rightarrow> bool" where
  "searchable p \<longleftrightarrow> ph_Type p = PT_LOAD \<and> ph_Flags p AND PF_X \<noteq> PF_X \<and> ph_Flags p AND PF_R = PF_R \<and> ph_Filesz p \<ge> word_of_nat PclntabHeaderSize"

fun search_progs :: "elf_File \<Rightarrow> Prog list \<Rightarrow> (goerr + (byte list \<times> int64) option) option" where
  "search_progs ef [] = Some (Inr None)"
| "search_progs ef (p # ps) =
     (if \<not> searchable p then search_progs ef ps
      else
        (case Prog_Data ef p maxBytesGoPclntab of
           None \<Rightarrow> None
         | Some (Inl e) \<Rightarrow> Some (Inl (GoErrElf e))
         | Some (Inr data) \<Rightarrow>
             (case search_header (pclntabHeaderSignature (f_Machine ef)) data 1 of
                Some i \<Rightarrow> Some (Inr (Some (drop i data, ph_Off p + word_of_nat i)))
              | None \<Rightarrow> search_progs ef ps)))"

definition searchGoPclntab :: "elf_File \<Rightarrow> (goerr + (byte list \<times> int64) option) option" where
  "searchGoPclntab ef = search_progs ef (f_Progs ef)"

definition pclntab_symbols :: "elf_Symbol \<Rightarrow> u64 \<times> u64 \<Rightarrow> bool \<times> u64 \<times> u64" where
  "pclntab_symbols sy st =
     (let (start, stop) = (if sym_Name sy = ascii ''runtime.pclntab'' then (sym_Address sy, snd st)
                           else if sym_Name sy = ascii ''runtime.epclntab'' then (fst st, sym_Address sy)
                           else st)
      in (start = 0 \<or> stop = 0, start, stop))"

definition pclntab_by_symbols :: "elf_File \<Rightarrow> u64 \<Rightarrow> u64 \<Rightarrow> (goerr + (byte list \<times> int64) option) option" where
  "pclntab_by_symbols ef start stop =
     (if start \<ge> stop then Some (Inl GoErrSymbols)
      else
        (case VirtualMemory start (stop - start) maxBytesGoPclntab ef of
           None \<Rightarrow> None
         | Some (_, Some e) \<Rightarrow> Some (Inl (GoErrElf e))
         | Some (data, None) \<Rightarrow>
             (case ProgByVirtualAddress start ef of
                None \<Rightarrow> Some (Inl GoErrSymbols)
              | Some p \<Rightarrow> Some (Inr (Some (data, ph_Off p + start - ph_Vaddr p))))))"

text \<open>\<open>extractGoPclntab\<close>: no data when the file has none.\<close>

definition extractGoPclntab :: "elf_File \<Rightarrow> ((goerr + (byte list \<times> int64) option) \<times> elf_File) option" where
  "extractGoPclntab ef =
     (if f_InsideCore ef
      then map_option (\<lambda>res. (Inr (case res of Inl _ \<Rightarrow> None | Inr d \<Rightarrow> d), ef)) (searchGoPclntab ef)
      else do {
        (s, ef) \<leftarrow> File_Section (ascii ''.gopclntab'') ef;
        case s of
          Some s \<Rightarrow> do {
            data \<leftarrow> Section_Data ef s maxBytesGoPclntab;
            Some (case data of Inl e \<Rightarrow> Inl (GoErrElf e) | Inr data \<Rightarrow> Inr (Some (data, sh_Offset s)), ef) }
        | None \<Rightarrow> do {
            (s, ef) \<leftarrow> File_Section (ascii ''.go.buildinfo'') ef;
            case s of
              None \<Rightarrow> Some (Inr None, ef)
            | Some _ \<Rightarrow> do {
                (_, (start, stop), ef) \<leftarrow> VisitSymbols pclntab_symbols ef (0, 0);
                res \<leftarrow> (if start = 0 \<or> stop = 0 then searchGoPclntab ef else pclntab_by_symbols ef start stop);
                Some (res, ef) } } })"

definition findTextStart :: "elf_File \<Rightarrow> ((goerr + uintptr) \<times> elf_File) option" where
  "findTextStart ef = do {
     (s, ef) \<leftarrow> File_Section (ascii ''.go.module'') ef;
     Some (case s of
             None \<Rightarrow> Inl GoErrTextStart
           | Some s \<Rightarrow>
               if sh_Type s = SHT_NOBITS then Inl GoErrTextStart
               else (case Section_ReadAt (getReader ef) s 8 textOffset of
                       (_, Some e) \<Rightarrow> Inl GoErrTextStart
                     | (d, None) \<Rightarrow> Inr (le_at 8 0 (overlay d (replicate 8 0)))), ef) }"

section \<open>Header\<close>

text \<open>The fields of the header up to Go 1.16, with offsets from \<open>off\<close> on: names, compilation units, files, values, functions.\<close>

definition with_offsets :: "byte list \<Rightarrow> nat \<Rightarrow> Gopclntab \<Rightarrow> Gopclntab" where
  "with_offsets data off g =
     g\<lparr>g_numFiles := le_at 8 16 data, g_funcnameOffset := le_at 8 off data, g_cuOffset := le_at 8 (off + 8) data,
       g_filetabOffset := le_at 8 (off + 16) data, g_pctabOffset := le_at 8 (off + 24) data, g_pclnOffset := le_at 8 (off + 32) data\<rparr>"

definition header_corrupt :: "Gopclntab \<Rightarrow> bool" where
  "header_corrupt g \<longleftrightarrow>
     g_funcnameOffset g \<ge> g_cuOffset g \<or> g_cuOffset g \<ge> g_filetabOffset g \<or> g_filetabOffset g \<ge> g_pctabOffset g \<or>
     g_pctabOffset g \<ge> g_pclnOffset g \<or> g_pclnOffset g \<ge> word_of_nat (length (g_data g)) \<or>
     sint ((g_numFuncs g + 1) * ucast (g_funcMapSize g)) > sint (word_of_nat (length (g_data g)) - g_pclnOffset g :: int64)"

definition slice_data :: "uintptr \<Rightarrow> uintptr \<Rightarrow> byte list \<Rightarrow> byte list" where
  "slice_data i j data = take (unat j - unat i) (drop (unat i) data)"

definition with_tables :: "Gopclntab \<Rightarrow> Gopclntab" where
  "with_tables g =
     g\<lparr>g_funcnametab := slice_data (g_funcnameOffset g) (g_cuOffset g) (g_data g),
       g_cutab := slice_data (g_cuOffset g) (g_filetabOffset g) (g_data g),
       g_filetab := slice_data (g_filetabOffset g) (g_pctabOffset g) (g_data g),
       g_pctab := slice_data (g_pctabOffset g) (g_pclnOffset g) (g_data g),
       g_functab := drop (unat (g_pclnOffset g)) (g_data g)\<rparr>"

definition base_header :: "byte list \<Rightarrow> int64 \<Rightarrow> Gopclntab" where
  "base_header data headerOffset =
     (let ptrSize = le_at 1 7 data :: u8; pad = le_at 2 4 data :: u16
      in \<lparr>g_headerOffset = headerOffset, g_data = data, g_textStart = 0, g_numFuncs = le_at 8 8 data, g_numFiles = 0,
          g_version = (if pad \<noteq> 0 \<or> ptrSize \<noteq> 8 then goInvalid else goMagicToVersion (le_at 4 0 data)),
          g_quantum = le_at 1 6 data, g_ptrSize = ptrSize, g_funSize = ptrSize + 32, g_funcMapSize = ptrSize * 2,
          g_funcnameOffset = 0, g_cuOffset = 0, g_filetabOffset = 0, g_pctabOffset = 0, g_pclnOffset = 0,
          g_functab = [], g_funcnametab = [], g_filetab = [], g_pctab = [], g_cutab = []\<rparr>)"

text \<open>The header of a version, with the start of the text if the file had to be asked for it.\<close>

definition read_header :: "byte list \<Rightarrow> int64 \<Rightarrow> elf_File \<Rightarrow> ((goerr + Gopclntab) \<times> elf_File) option" where
  "read_header data headerOffset ef =
     (let g = base_header data headerOffset
      in if g_version g = go1_16
         then Some (if length data < 64 then Inl GoErrShort else Inr (with_offsets data 24 g), ef)
         else if g_version g = go1_18 \<or> g_version g = go1_20
         then (if length data < 72 then Some (Inl GoErrShort, ef)
               else
                 let g = (with_offsets data 32 g)\<lparr>g_textStart := le_at 8 24 data, g_funcMapSize := 8, g_funSize := 36\<rparr>
                 in if g_textStart g = 0
                    then map_option (\<lambda>(res, ef). (map_sum id (\<lambda>t. g\<lparr>g_textStart := t\<rparr>) res, ef)) (findTextStart ef)
                    else Some (Inr g, ef))
         else Some (Inl GoErrHeader, ef))"

definition check_header :: "Gopclntab \<Rightarrow> goerr + Gopclntab" where
  "check_header g = (if header_corrupt g then Inl GoErrCorrupt else Inr (with_tables g))"

definition NewGopclntab :: "elf_File \<Rightarrow> ((goerr + Gopclntab) \<times> elf_File) option" where
  "NewGopclntab ef =
     (case extractGoPclntab ef of
        None \<Rightarrow> None
      | Some (Inl e, ef) \<Rightarrow> Some (Inl e, ef)
      | Some (Inr None, ef) \<Rightarrow> Some (Inl errNoPclntab, ef)
      | Some (Inr (Some (data, headerOffset)), ef) \<Rightarrow>
          if length data < PclntabHeaderSize then Some (Inl GoErrShort, ef)
          else
            (case read_header data headerOffset ef of
               None \<Rightarrow> None
             | Some (Inl e, ef) \<Rightarrow> Some (Inl e, ef)
             | Some (Inr g, ef) \<Rightarrow> Some (check_header g, ef)))"

section \<open>Functions\<close>

definition getFuncMapEntry :: "Gopclntab \<Rightarrow> int64 \<Rightarrow> (uintptr \<times> uintptr) option" where
  "getFuncMapEntry g index =
     (let off = index * ucast (g_funcMapSize g); n = unat (g_funcMapSize g); i = unat off
      in if sint off < 0 \<or> i + n > length (g_functab g) then None
         else if g_version g \<ge> go1_18
         then Some (g_textStart g + ucast (le_at 4 i (g_functab g) :: u32), ucast (le_at 4 (i + 4) (g_functab g) :: u32))
         else Some (le_at 8 i (g_functab g), le_at 8 (i + 8) (g_functab g)))"

definition getFunc :: "Gopclntab \<Rightarrow> uintptr \<Rightarrow> (uintptr \<times> pclntabFunc option) option" where
  "getFunc g funcOff =
     (if word_of_nat (length (g_functab g)) < funcOff + ucast (g_funSize g) then Some (0, None)
      else if unat funcOff \<ge> length (g_functab g) then None
      else if g_version g \<ge> go1_18
      then Some (g_textStart g + ucast (le_at 4 (unat funcOff) (g_functab g) :: u32), Some (parse_func (drop (unat funcOff + 4) (g_functab g))))
      else Some (le_at 8 (unat funcOff) (g_functab g), Some (parse_func (drop (unat funcOff + unat (g_ptrSize g)) (g_functab g)))))"

definition getPcval :: "Gopclntab \<Rightarrow> int32 \<Rightarrow> u64 \<Rightarrow> pcval option" where
  "getPcval g offs startPc =
     (if sint offs < 0 \<or> sint offs > int (length (g_pctab g)) then None
      else Some (newPcval (drop (unat offs) (g_pctab g)) startPc (g_quantum g)))"

function pcval_find :: "u64 \<Rightarrow> pcval \<Rightarrow> int32 \<times> bool" where
  "pcval_find pc p =
     (if pc \<ge> pv_pcEnd p then (case pcval_step p of (False, _) \<Rightarrow> (0, False) | (True, p) \<Rightarrow> pcval_find pc p)
      else (pv_val p, True))"
  by pat_completeness auto
termination
proof (relation "measure (\<lambda>(pc, p). length (pv_ptr p))", goal_cases)
  case (2 pc p b p')
  then show ?case using pcval_step_shorter [of p p'] by simp
qed simp

declare pcval_find.simps [simp del]

definition mapPcval :: "Gopclntab \<Rightarrow> int32 \<Rightarrow> u64 \<Rightarrow> u64 \<Rightarrow> (int32 \<times> bool) option" where
  "mapPcval g offs startPc pc = map_option (pcval_find pc) (getPcval g offs startPc)"

section \<open>Symbols\<close>

text \<open>The loops over the functions count from zero; a negative number of functions is none.\<close>

definition numFuncs :: "Gopclntab \<Rightarrow> nat" where "numFuncs g = nat (sint (g_numFuncs g))"

definition funcEntry :: "Gopclntab \<Rightarrow> nat \<Rightarrow> (uintptr \<times> uintptr) option" where
  "funcEntry g i = getFuncMapEntry g (word_of_nat i)"

function lookup_func :: "Gopclntab \<Rightarrow> bstring \<Rightarrow> nat \<Rightarrow> (goerr + elf_Symbol) option" where
  "lookup_func g name i =
     (if i < numFuncs g
      then do {
        (_, funcOff) \<leftarrow> funcEntry g i;
        (pc, fun) \<leftarrow> getFunc g funcOff;
        case fun of
          None \<Rightarrow> lookup_func g name (i + 1)
        | Some fun \<Rightarrow>
            if go_getString (g_funcnametab g) (sint (fn_nameOff fun)) = name
            then do {
              (nextPc, _) \<leftarrow> funcEntry g (i + 1);
              Some (Inr \<lparr>sym_Name = name, sym_Address = pc, sym_Size = nextPc - pc\<rparr>) }
            else lookup_func g name (i + 1) }
      else Some (Inl GoErrSymbolNotFound))"
  by pat_completeness auto
termination by (relation "measure (\<lambda>(g, name, i). numFuncs g - i)") auto

declare lookup_func.simps [simp del]

definition go_LookupSymbol :: "Gopclntab \<Rightarrow> bstring \<Rightarrow> (goerr + elf_Symbol) option" where
  "go_LookupSymbol g symbol = lookup_func g symbol 0"

text \<open>\<open>sort.Search\<close> with a predicate that may panic.\<close>

function search_opt :: "(nat \<Rightarrow> bool option) \<Rightarrow> nat \<Rightarrow> nat \<Rightarrow> nat option" where
  "search_opt p i j =
     (if i < j
      then let h = (i + j) div 2
           in (case p h of None \<Rightarrow> None | Some b \<Rightarrow> if \<not> b then search_opt p (h + 1) j else search_opt p i h)
      else Some i)"
  by pat_completeness auto
termination by (relation "measure (\<lambda>(p, i, j). j - i)") auto

declare search_opt.simps [simp del]

lemma search_opt_loop:
  "\<forall>h. i \<le> h \<and> h < j \<longrightarrow> p h = Some (q h) \<Longrightarrow> search_opt p i j = Some (search_loop q i j)"
proof (induction q i j rule: search_loop.induct)
  case (1 q i j)
  show ?case
  proof (cases "i < j")
    case True
    let ?h = "(i + j) div 2"
    have h: "i \<le> ?h" "?h < j" using True by auto
    then have "p ?h = Some (q ?h)" using "1.prems" by blast
    then show ?thesis using True h "1.IH" "1.prems" by (subst search_opt.simps, subst search_loop.simps) (auto simp: Let_def)
  next
    case False
    then show ?thesis by (subst search_opt.simps, subst search_loop.simps) simp
  qed
qed

definition symbolize_file :: "Gopclntab \<Rightarrow> pclntabFunc \<Rightarrow> uintptr \<Rightarrow> uintptr \<Rightarrow> bstring option" where
  "symbolize_file g fun funcPc pc =
     (if fn_pcfileOff fun = 0 then Some []
      else do {
        (fileIndex, ok) \<leftarrow> mapPcval g (fn_pcfileOff fun) funcPc pc;
        Some (if ok then go_getString (g_filetab g) (getInt32 (g_cutab g) (4 * sint (fileIndex + fn_npcData fun))) else []) })"

definition symbolize_line :: "Gopclntab \<Rightarrow> pclntabFunc \<Rightarrow> uintptr \<Rightarrow> uintptr \<Rightarrow> u64 option" where
  "symbolize_line g fun funcPc pc =
     (if fn_pclnOff fun = 0 then Some 0 else map_option (\<lambda>(lineNo, _). scast lineNo) (mapPcval g (fn_pclnOff fun) funcPc pc))"

text \<open>\<open>Symbolize\<close>: file, line and function of a program counter; all empty if it is in no function.\<close>

definition Symbolize :: "Gopclntab \<Rightarrow> uintptr \<Rightarrow> (bstring \<times> u64 \<times> bstring) option" where
  "Symbolize g pc = do {
     k \<leftarrow> search_opt (\<lambda>i. map_option (\<lambda>(funcPc, _). funcPc > pc) (funcEntry g i)) 0 (nat (sint (g_numFuncs g + 1)));
     if k = 0 \<or> int k - 1 \<ge> sint (g_numFuncs g) then Some ([], 0, [])
     else do {
       (mapPc, funcOff) \<leftarrow> funcEntry g (k - 1);
       (funcPc, fun) \<leftarrow> getFunc g funcOff;
       case fun of
         None \<Rightarrow> Some ([], 0, [])
       | Some fun \<Rightarrow>
           if mapPc \<noteq> funcPc then Some ([], 0, [])
           else do {
             sourceFile \<leftarrow> symbolize_file g fun funcPc pc;
             line \<leftarrow> symbolize_line g fun funcPc pc;
             Some (sourceFile, line, go_getString (g_funcnametab g) (sint (fn_nameOff fun))) } } }"

section \<open>Strategies\<close>

datatype strategy = strategyUnknown | strategyFramePointer | strategyDeltasWithFrame | strategyDeltasWithoutFrame

definition noFPSourceSuffixes :: "bstring list" where
  "noFPSourceSuffixes = map ascii
     [''/src/crypto/sha1/sha1.go'', ''/src/crypto/sha256/sha256.go'', ''/src/crypto/sha512/sha512.go'',
      ''/src/crypto/elliptic/p256_asm.go'', ''/src/internal/cpu/cpu_arm64.go'', ''/src/internal/cpu/cpu_x86.go'',
      ''golang.org/x/crypto/curve25519/curve25519_amd64.go'',
      ''golang.org/x/crypto/chacha20poly1305/chacha20poly1305_amd64.go'']"

definition bytes_hasSuffix :: "bstring \<Rightarrow> bstring \<Rightarrow> bool" where
  "bytes_hasSuffix s suffix \<longleftrightarrow> length suffix \<le> length s \<and> drop (length s - length suffix) s = suffix"

definition getSourceFileStrategyX86 :: "bstring \<Rightarrow> strategy" where
  "getSourceFileStrategyX86 sourceFile =
     (if bytes_hasSuffix sourceFile (ascii ''.s'') then strategyDeltasWithoutFrame
      else if list_ex (bytes_hasSuffix sourceFile) noFPSourceSuffixes then strategyDeltasWithFrame
      else strategyUnknown)"

definition frame_or_stop :: "bool \<Rightarrow> UnwindInfo" where
  "frame_or_stop useFP = (if useFP then UnwindInfoFramePointer else UnwindInfoStop)"

definition getFunctionUnwindInfo :: "bstring \<Rightarrow> elf_Machine \<Rightarrow> bool \<Rightarrow> UnwindInfo option" where
  "getFunctionUnwindInfo name arch useFP =
     (if name \<in> set (map ascii [''runtime.goexit'', ''runtime.mstart'', ''runtime.mcall'']) then Some UnwindInfoStop
      else if name = ascii ''runtime.asmcgocall''
      then Some (if arch \<noteq> EM_X86_64 then UnwindInfoStop else frame_or_stop useFP)
      else if name \<in> set (map ascii [''runtime.systemstack'', ''runtime.nanotime1'', ''time.now'', ''runtime.walltime''])
      then Some (frame_or_stop useFP)
      else if name \<in> set (map ascii [''runtime.sigreturn'', ''runtime.sigreturn__sigaction'']) then Some UnwindInfoSignal
      else None)"

definition x86_info :: "strategy \<Rightarrow> int32 \<Rightarrow> UnwindInfo" where
  "x86_info s val =
     (let info = UnwindInfo_zero\<lparr>ui_BaseReg := UnwindRegSp, ui_Param := val + 8\<rparr>
      in if s = strategyDeltasWithFrame \<and> sint (ui_Param info) \<ge> 16
         then info\<lparr>ui_AuxBaseReg := UnwindRegCfa, ui_AuxParam := - 16\<rparr> else info)"

definition arm64_info :: "strategy \<Rightarrow> int32 \<Rightarrow> UnwindInfo" where
  "arm64_info s val =
     (if val = 0 then UnwindInfoLR
      else
        let info = UnwindInfo_zero\<lparr>ui_BaseReg := UnwindRegSp, ui_Param := val\<rparr>
        in if s = strategyDeltasWithFrame then info\<lparr>ui_AuxBaseReg := UnwindRegSp, ui_AuxParam := 0\<rparr> else info)"

text \<open>The loop of both architectures: the body runs once before the first step is tested.\<close>

function add_pcvals :: "(int32 \<Rightarrow> UnwindInfo) \<Rightarrow> pcval \<Rightarrow> StackDeltaArray \<Rightarrow> StackDeltaArray" where
  "add_pcvals info p deltas =
     (let deltas = StackDeltaArray_Add deltas (ucast (pv_pcStart p)) (info (pv_val p))
      in (case pcval_step p of (True, p) \<Rightarrow> add_pcvals info p deltas | (False, _) \<Rightarrow> deltas))"
  by pat_completeness auto
termination
proof (relation "measure (\<lambda>(info, p, deltas). length (pv_ptr p))", goal_cases)
  case (2 info p deltas deltas' b p')
  then show ?case using pcval_step_shorter [of p p'] by simp
qed simp

declare add_pcvals.simps [simp del]

definition parseX86pclntabFunc :: "BasicBlock \<Rightarrow> pcval \<Rightarrow> strategy \<Rightarrow> BasicBlock" where
  "parseX86pclntabFunc bb p s = bb\<lparr>bb_Deltas := add_pcvals (x86_info s) p (bb_Deltas bb)\<rparr>"

definition parseArm64pclntabFunc :: "BasicBlock \<Rightarrow> pcval \<Rightarrow> strategy \<Rightarrow> BasicBlock" where
  "parseArm64pclntabFunc bb p s = bb\<lparr>bb_Deltas := add_pcvals (arm64_info s) p (bb_Deltas bb)\<rparr>"

section \<open>Strings of the tables\<close>

definition file_strategy :: "(bstring \<Rightarrow> strategy) \<Rightarrow> nat \<Rightarrow> bstring \<Rightarrow> (int \<rightharpoonup> strategy) \<Rightarrow> unit option \<times> (int \<rightharpoonup> strategy)" where
  "file_strategy getSourceFileStrategy offs filename m =
     (None, let s = getSourceFileStrategy filename in if s \<noteq> strategyUnknown then m(int offs \<mapsto> s) else m)"

fun cu_strategies :: "(int \<rightharpoonup> strategy) \<Rightarrow> nat \<Rightarrow> byte list list \<Rightarrow> (int \<rightharpoonup> strategy) \<Rightarrow> int \<rightharpoonup> strategy" where
  "cu_strategies offsetStrategy idx [] m = m"
| "cu_strategies offsetStrategy idx (b # bs) m =
     cu_strategies offsetStrategy (idx + 1) bs
       (case offsetStrategy (uint (le_at 4 0 b :: u32)) of None \<Rightarrow> m | Some s \<Rightarrow> m(int idx \<mapsto> s))"

text \<open>The regions are those of the file, not of the data that was loaded.\<close>

definition table_reader :: "byte list \<Rightarrow> Gopclntab \<Rightarrow> uintptr \<Rightarrow> uintptr \<Rightarrow> Reader" where
  "table_reader r g from to = Reader_Init r (sint (g_headerOffset g + from)) (sint (to - from))"

definition resolveCUStrategies :: "byte list \<Rightarrow> Gopclntab \<Rightarrow> (bstring \<Rightarrow> strategy) \<Rightarrow> ioerr + (int \<rightharpoonup> strategy)" where
  "resolveCUStrategies r g getSourceFileStrategy =
     (case WalkStrings (nat (sint (g_numFiles g))) (file_strategy getSourceFileStrategy)
             (table_reader r g (g_filetabOffset g) (g_pctabOffset g)) (\<lambda>_. None) of
        (Some (Inl e), _, _) \<Rightarrow> Inl e
      | (_, offsetStrategy, _) \<Rightarrow>
          (case read_structs 4 (replicate 4 0) (table_reader r g (g_cuOffset g) (g_filetabOffset g)) of
             (bs, e) \<Rightarrow> (case e of
                           Some EOF \<Rightarrow> Inr (cu_strategies offsetStrategy 0 bs (\<lambda>_. None))
                         | None \<Rightarrow> Inr (cu_strategies offsetStrategy 0 bs (\<lambda>_. None))
                         | Some e \<Rightarrow> Inl e)))"

definition function_info :: "elf_Machine \<Rightarrow> bool \<Rightarrow> nat \<Rightarrow> bstring \<Rightarrow> (int32 \<rightharpoonup> UnwindInfo) \<Rightarrow> unit option \<times> (int32 \<rightharpoonup> UnwindInfo)" where
  "function_info arch useFP offs funcName m =
     (None, case getFunctionUnwindInfo funcName arch useFP of None \<Rightarrow> m | Some info \<Rightarrow> m(word_of_nat offs \<mapsto> info))"

definition resolveFunctionUnwindInfo :: "byte list \<Rightarrow> Gopclntab \<Rightarrow> elf_Machine \<Rightarrow> bool \<Rightarrow> ioerr + (int32 \<rightharpoonup> UnwindInfo)" where
  "resolveFunctionUnwindInfo r g arch useFP =
     (case WalkAllStrings (function_info arch useFP) (table_reader r g (g_funcnameOffset g) (g_cuOffset g)) (\<lambda>_. None) of
        (Some (Inl e), _, _) \<Rightarrow> Inl e
      | (_, functionInfo, _) \<Rightarrow> Inr functionInfo)"

section \<open>Stack deltas\<close>

text \<open>The parameters of a file: the parser of the architecture, the strategies, and whether frame pointers are reliable.\<close>

record goUnwind =
  gu_parse :: "BasicBlock \<Rightarrow> pcval \<Rightarrow> strategy \<Rightarrow> BasicBlock"
  gu_cuStrategy :: "int \<rightharpoonup> strategy"
  gu_default :: strategy
  gu_functions :: "int32 \<rightharpoonup> UnwindInfo"

definition func_strategy :: "goUnwind \<Rightarrow> Gopclntab \<Rightarrow> pclntabFunc \<Rightarrow> uintptr \<Rightarrow> strategy option" where
  "func_strategy u g fun funcPc =
     (if fn_pcfileOff fun = 0 then Some (gu_default u)
      else map_option
             (\<lambda>p. case gu_cuStrategy u (sint (pv_val p) + sint (fn_npcData fun)) of None \<Rightarrow> gu_default u | Some s \<Rightarrow> s)
             (getPcval g (fn_pcfileOff fun) funcPc))"

definition add_block :: "BasicBlock \<Rightarrow> UnwindInfo \<Rightarrow> IntervalData \<Rightarrow> IntervalData" where
  "add_block bb info iv = IntervalData_Add iv (bb\<lparr>bb_Deltas := StackDeltaArray_Add (bb_Deltas bb) 0 info\<rparr>)"

text \<open>One function of the table.\<close>

definition func_deltas :: "goUnwind \<Rightarrow> Gopclntab \<Rightarrow> pclntabFunc \<Rightarrow> BasicBlock \<Rightarrow> IntervalData \<Rightarrow> (goerr option \<times> IntervalData) option" where
  "func_deltas u g fun bb iv =
     (case gu_functions u (fn_nameOff fun) of
        Some info \<Rightarrow> Some (None, add_block bb info iv)
      | None \<Rightarrow>
          (case func_strategy u g fun (bb_Start bb) of
             None \<Rightarrow> None
           | Some s \<Rightarrow>
               if s = strategyFramePointer then Some (None, add_block bb UnwindInfoFramePointer iv)
               else if fn_pcspOff fun = 0 then Some (None, iv)
               else if int (length (g_pctab g)) < sint (fn_pcspOff fun) then Some (Some GoErrPcsp, iv)
               else map_option (\<lambda>p. (None, IntervalData_Add iv (gu_parse u bb p s))) (getPcval g (fn_pcspOff fun) 0)))"

function parse_funcs :: "goUnwind \<Rightarrow> Gopclntab \<Rightarrow> nat \<Rightarrow> IntervalData \<Rightarrow> (goerr option \<times> IntervalData) option" where
  "parse_funcs u g i iv =
     (if i < numFuncs g
      then do {
        (mapPc, funcOff) \<leftarrow> funcEntry g i;
        (funcPc, fun) \<leftarrow> getFunc g funcOff;
        case fun of
          None \<Rightarrow> Some (Some GoErrFunc, iv)
        | Some fun \<Rightarrow>
            if mapPc \<noteq> funcPc then Some (Some GoErrFunc, iv)
            else do {
              (endPc, _) \<leftarrow> funcEntry g (i + 1);
              (err, iv) \<leftarrow> func_deltas u g fun \<lparr>bb_Start = funcPc, bb_End = endPc, bb_Deltas = []\<rparr> iv;
              if err = None then parse_funcs u g (i + 1) iv else Some (err, iv) } }
      else Some (None, iv))"
  by pat_completeness auto
termination by (relation "measure (\<lambda>(u, g, i, iv). numFuncs g - i)") auto

declare parse_funcs.simps [simp del]

text \<open>Whether the frame pointers of the file are not to be relied on (before Go 1.21 on arm64).\<close>

definition broken_frame_pointers :: "Gopclntab \<Rightarrow> elf_File \<Rightarrow> (bool \<times> elf_File) option" where
  "broken_frame_pointers g f =
     (if g_version g = go1_16 \<or> g_version g = go1_18 then Some (True, f)
      else if g_version g = go1_20
      then map_option (\<lambda>(goVer, f). (goVer = [] \<or> version_Compare goVer (ascii ''go1.21rc1'') < 0, f)) (GoVersion f)
      else Some (False, f))"

definition unwind_params ::
  "Gopclntab \<Rightarrow> elf_File \<Rightarrow> ((goerr + (BasicBlock \<Rightarrow> pcval \<Rightarrow> strategy \<Rightarrow> BasicBlock) \<times> (int \<rightharpoonup> strategy) \<times> bool) \<times> elf_File) option" where
  "unwind_params g f =
     (case f_Machine f of
        EM_X86_64 \<Rightarrow>
          Some (case resolveCUStrategies (f_data f) g getSourceFileStrategyX86 of
                  Inl e \<Rightarrow> Inl (GoErrCutab e)
                | Inr cuStrategy \<Rightarrow> Inr (parseX86pclntabFunc, cuStrategy, True), f)
      | EM_AARCH64 \<Rightarrow> map_option (\<lambda>(broken, f). (Inr (parseArm64pclntabFunc, \<lambda>_. None, \<not> broken), f)) (broken_frame_pointers g f)
      | EM_Other _ \<Rightarrow> Some (Inl GoErrArch, f))"

definition parse_table ::
  "Gopclntab \<Rightarrow> elf_File \<Rightarrow> extractionFilter \<Rightarrow> IntervalData \<Rightarrow> ((goerr option \<times> extractionFilter \<times> IntervalData) \<times> elf_File) option" where
  "parse_table g f hooks iv = do {
     (params, f) \<leftarrow> unwind_params g f;
     case params of
       Inl e \<Rightarrow> Some ((Some e, hooks, iv), f)
     | Inr (parsePclntab, cuStrategy, useFP) \<Rightarrow>
         (case resolveFunctionUnwindInfo (f_data f) g (f_Machine f) useFP of
            Inl e \<Rightarrow> Some ((Some (GoErrFuncnametab e), hooks, iv), f)
          | Inr funcUnwindInfo \<Rightarrow> do {
              (err, iv) \<leftarrow> parse_funcs
                \<lparr>gu_parse = parsePclntab, gu_cuStrategy = cuStrategy,
                 gu_default = (if useFP then strategyFramePointer else strategyDeltasWithFrame), gu_functions = funcUnwindInfo\<rparr> g 0 iv;
              if err \<noteq> None then Some ((err, hooks, iv), f)
              else do {
                (start, _) \<leftarrow> getFuncMapEntry g 0;
                (stop, _) \<leftarrow> getFuncMapEntry g (g_numFuncs g);
                Some ((None, golangHook start stop hooks, iv), f) } }) }"

definition parseGoPclntab ::
  "elf_File \<Rightarrow> extractionFilter \<Rightarrow> IntervalData \<Rightarrow> ((goerr option \<times> extractionFilter \<times> IntervalData) \<times> elf_File) option" where
  "parseGoPclntab f hooks iv =
     (case NewGopclntab f of
        None \<Rightarrow> None
      | Some (Inl errNoPclntab, f) \<Rightarrow> Some ((None, hooks, iv), f)
      | Some (Inl e, f) \<Rightarrow> Some ((Some e, hooks, iv), f)
      | Some (Inr g, f) \<Rightarrow> parse_table g f hooks iv)"

end
