(* ===== verification/GoPclntabProps.thy ===== *)
theory GoPclntabProps
  imports GoPclntab ElfNoteProps ElfFileProps
begin

text \<open>
  Correctness of the reading of \<open>.gopclntab\<close>: the tables of values are decoded as the Go linker encodes them, so that a program
  counter finds the value of its range and the stack deltas of a function say at every offset what its table says; an
  accepted header keeps every access to the function table in range, unless its number of functions overflows the check.
\<close>

unbundle bit_operations_syntax

section \<open>Numbers\<close>

function put_uvarint :: "nat \<Rightarrow> byte list" where
  "put_uvarint n = (if n < 128 then [word_of_nat n] else word_of_nat (n mod 128 + 128) # put_uvarint (n div 128))"
  by pat_completeness auto
termination by (relation "measure id") auto

declare put_uvarint.simps [simp del]

definition zigzag :: "u32 \<Rightarrow> u32" where
  "zigzag d = (if bit d 31 then NOT (push_bit 1 d) else push_bit 1 d)"

lemma unzigzag_zigzag: "unzigzag (zigzag d) = d"
proof -
  have z: "bit (zigzag d) n \<longleftrightarrow> n < 32 \<and> (if bit d 31 then n = 0 \<or> \<not> bit d (n - 1) else 0 < n \<and> bit d (n - 1))" for n
    by (auto simp: zigzag_def bit_simps simp del: push_bit_Suc One_nat_def)
  have o: "w AND 1 \<noteq> 0 \<longleftrightarrow> bit w 0" for w :: u32 by (simp add: and_one_eq mod_2_eq_odd bit_0)
  have b: "bit d 31 \<longleftrightarrow> zigzag d AND 1 \<noteq> 0" by (simp only: o z) simp
  have "bit (unzigzag (zigzag d)) n \<longleftrightarrow> bit d n" if "n < 32" for n
  proof -
    have "bit (unzigzag (zigzag d)) n \<longleftrightarrow> (bit d 31 \<noteq> bit (zigzag d) (1 + n))"
    proof (cases "zigzag d AND 1 \<noteq> 0")
      case True
      then have "unzigzag (zigzag d) = NOT (drop_bit 1 (zigzag d))" unfolding unzigzag_def by (rule if_P)
      then show ?thesis using True that unfolding b by (simp only: bit_not_iff bit_drop_bit_eq comp_apply) simp
    next
      case False
      then have "unzigzag (zigzag d) = drop_bit 1 (zigzag d)" unfolding unzigzag_def by (rule if_not_P)
      then show ?thesis using False unfolding b by (simp only: bit_drop_bit_eq comp_apply) simp
    qed
    also have "\<dots> \<longleftrightarrow> bit d n" using that by (cases "bit d 31"; cases "n = 31") (simp_all add: z)
    finally show ?thesis .
  qed
  then show ?thesis by (intro bit_word_eqI) simp
qed

lemma zigzag_0: "zigzag d = 0 \<longleftrightarrow> d = 0"
proof
  show "zigzag d = 0 \<Longrightarrow> d = 0" using unzigzag_zigzag [of d] by (simp add: unzigzag_def)
qed (simp add: zigzag_def)

lemma put_uvarint_0: "hd (put_uvarint n) = 0 \<longleftrightarrow> n = 0" "put_uvarint n \<noteq> []"
proof -
  have "n mod 128 + 128 < 256" using mod_less_divisor [of 128 n] by simp
  then have "\<not> 2 ^ 8 dvd n mod 128 + 128" by (intro nat_dvd_not_less) simp_all
  then have "(word_of_nat (n mod 128 + 128) :: byte) \<noteq> 0" by (subst word_of_nat_eq_0_iff) simp
  moreover have "n < 128 \<Longrightarrow> (word_of_nat n :: byte) = 0 \<longleftrightarrow> n = 0" by (auto simp: word_of_nat_eq_0_iff)
  ultimately show "hd (put_uvarint n) = 0 \<longleftrightarrow> n = 0" by (subst put_uvarint.simps) (auto simp del: of_nat_add)
  show "put_uvarint n \<noteq> []" by (subst put_uvarint.simps) simp
qed

lemma low_bits:
  assumes "k < 256"
  shows "(ucast (word_of_nat k :: byte) AND 0x7F :: u32) = word_of_nat (k mod 128)" "(word_of_nat k :: byte) AND 0x80 = 0 \<longleftrightarrow> k < 128"
proof -
  have u: "unat (word_of_nat k :: byte) = k" using assms by (simp add: unat_of_nat)
  have "(0x7F :: u32) = mask 7" by (simp add: mask_eq_exp_minus_1)
  then have "(ucast (word_of_nat k :: byte) AND 0x7F :: u32) = take_bit 7 (word_of_nat k)"
    using u by (simp add: take_bit_eq_mask unsigned_of_nat take_bit_nat_eq_self assms)
  then show "(ucast (word_of_nat k :: byte) AND 0x7F :: u32) = word_of_nat (k mod 128)"
    by (simp only: take_bit_of_nat) (simp add: take_bit_eq_mod)
  show "(word_of_nat k :: byte) AND 0x80 = 0 \<longleftrightarrow> k < 128"
  proof -
    have "bit (word_of_nat k :: byte) 7 \<longleftrightarrow> bit k 7" by (simp only: bit_of_nat_iff) simp
    moreover have "bit k 7 \<longleftrightarrow> \<not> k < 128"
    proof (cases "k < 128")
      case False
      then have "k div 128 = 1" using assms by simp
      then show ?thesis using False by (simp add: bit_iff_odd)
    qed (simp add: bit_iff_odd)
    moreover have "(0x80 :: byte) = 2 ^ 7" by simp
    ultimately show ?thesis using and_exp_eq_0_iff_not_bit [of "word_of_nat k :: byte" 7] by metis
  qed
qed

lemma getInt_put:
  assumes "s + 7 * length (put_uvarint n) < 2 ^ 32"
  shows "getInt_loop v (word_of_nat s) (put_uvarint n @ rest) = (v OR push_bit s (word_of_nat n), rest)"
  using assms
proof (induction n arbitrary: v s rule: put_uvarint.induct)
  case (1 n)
  have s: "unat (word_of_nat s :: u32) = s" using "1.prems" by (simp add: unat_of_nat)
  show ?case
  proof (cases "n < 128")
    case True
    then show ?thesis using s low_bits [of n] by (subst put_uvarint.simps) (simp add: Let_def)
  next
    case False
    have e: "put_uvarint n = word_of_nat (n mod 128 + 128) # put_uvarint (n div 128)" using False by (subst put_uvarint.simps) simp
    have t: "n = take_bit 7 n OR push_bit 7 (drop_bit 7 n)" 
    proof (rule bit_eqI)
      fix k show "bit n k \<longleftrightarrow> bit (take_bit 7 n OR push_bit 7 (drop_bit 7 n)) k"
        by (cases "k < 7") (simp_all add: bit_simps)
    qed
    have "(word_of_nat n :: u32) = word_of_nat (take_bit 7 n) OR push_bit 7 (word_of_nat (drop_bit 7 n))"
      by (subst t) (simp only: of_nat_or_eq of_nat_push_bit)
    moreover have "take_bit 7 n = n mod 128" "drop_bit 7 n = n div 128" by (simp_all add: take_bit_eq_mod drop_bit_eq_div)
    ultimately have "(word_of_nat n :: u32) = word_of_nat (n mod 128) OR push_bit 7 (word_of_nat (n div 128))" by (simp only:)
    then have b: "push_bit s (word_of_nat n :: u32) = push_bit s (word_of_nat (n mod 128)) OR push_bit (s + 7) (word_of_nat (n div 128))"
      by (simp add: push_bit_or)
    have "n mod 128 + 128 < 256" using mod_less_divisor [of 128 n] by simp
    note l = low_bits [OF this]
    have "(word_of_nat s + 7 :: u32) = word_of_nat (s + 7)" by simp
    moreover have "(s + 7) + 7 * length (put_uvarint (n div 128)) < 2 ^ 32" using "1.prems" e by simp
    ultimately show ?thesis using "1.IH" [OF False, of "s + 7"] s l b e by (simp add: Let_def or.assoc)
  qed
qed

section \<open>Tables of values\<close>

text \<open>
  A table of values as ranges: each has a value and the number of instructions it holds for. The encoding gives the
  difference to the value before, starting from \<open>-1\<close>, so that neighbours have to differ.
\<close>

type_synonym pcranges = "(int32 \<times> nat) list"

fun encode_ranges :: "int32 \<Rightarrow> pcranges \<Rightarrow> byte list" where
  "encode_ranges prev [] = [0]"
| "encode_ranges prev ((v, n) # rs) = put_uvarint (unat (zigzag (v - prev))) @ put_uvarint n @ encode_ranges v rs"

fun ranges_ok :: "int32 \<Rightarrow> pcranges \<Rightarrow> bool" where
  "ranges_ok prev [] \<longleftrightarrow> True"
| "ranges_ok prev ((v, n) # rs) \<longleftrightarrow> v \<noteq> prev \<and> n < 2 ^ 32 \<and> ranges_ok v rs"

definition ranges_size :: "nat \<Rightarrow> pcranges \<Rightarrow> nat" where "ranges_size q rs = sum_list (map (\<lambda>(v, n). n * q) rs)"

text \<open>The value at a program counter.\<close>

fun value_at :: "nat \<Rightarrow> nat \<Rightarrow> pcranges \<Rightarrow> nat \<Rightarrow> int32 option" where
  "value_at q start [] pc = None"
| "value_at q start ((v, n) # rs) pc = (if pc < start + n * q then Some v else value_at q (start + n * q) rs pc)"

lemma put_uvarint_length: "n < 128 ^ k \<Longrightarrow> 0 < k \<Longrightarrow> length (put_uvarint n) \<le> k"
proof (induction k arbitrary: n)
  case (Suc k)
  show ?case
  proof (cases "n < 128")
    case False
    then have "0 < k" using Suc.prems by (cases k) auto
    moreover have "n div 128 < 128 ^ k" using Suc.prems by (simp add: less_mult_imp_div_less mult.commute)
    ultimately show ?thesis using Suc.IH [of "n div 128"] False by (subst put_uvarint.simps) simp
  qed (subst put_uvarint.simps, simp)
qed simp

lemma getInt_uvarint: "n < 2 ^ 32 \<Longrightarrow> getInt_loop 0 0 (put_uvarint n @ rest) = (word_of_nat n, rest)"
  using getInt_put [of 0 n 0 rest] put_uvarint_length [of n 5] by simp

definition pcval_at :: "byte list \<Rightarrow> u64 \<Rightarrow> u64 \<Rightarrow> int32 \<Rightarrow> u8 \<Rightarrow> pcval" where
  "pcval_at ptr start stop v q = \<lparr>pv_ptr = ptr, pv_pcStart = start, pv_pcEnd = stop, pv_val = v, pv_quantum = q\<rparr>"

lemma pcval_step_ranges:
  assumes "ranges_ok prev ((v, n) # rs)"
  shows "pcval_step (pcval_at (encode_ranges prev ((v, n) # rs) @ rest) s e prev q) =
    (True, pcval_at (encode_ranges v rs @ rest) e (e + word_of_nat n * ucast q) v q)"
proof -
  let ?z = "unat (zigzag (v - prev))"
  have z: "?z < 2 ^ 32" "?z \<noteq> 0" using assms unsigned_less [of "zigzag (v - prev)", where 'a = nat] by (auto simp: zigzag_0 unat_eq_zero)
  have n: "n < 2 ^ 32" using assms by simp
  then have u: "(ucast (word_of_nat n :: u32) :: u64) = word_of_nat n" by (simp add: unsigned_of_nat take_bit_nat_eq_self)
  have "hd (put_uvarint ?z @ put_uvarint n @ encode_ranges v rs @ rest) \<noteq> 0" "put_uvarint ?z \<noteq> []" using z(2) put_uvarint_0 by simp_all
  then show ?thesis
    by (simp add: pcval_step_def pcval_at_def getInt_def getInt_uvarint [OF z(1)] getInt_uvarint [OF n] unzigzag_zigzag u Let_def)
qed

lemma pcval_step_end: "pcval_step (pcval_at (encode_ranges prev [] @ rest) s e prev q) = (False, pcval_at (encode_ranges prev [] @ rest) s e prev q)"
  by (simp add: pcval_step_def pcval_at_def)

lemma range_end:
  assumes "start + n * unat q < 2 ^ 64"
  shows "(word_of_nat start + word_of_nat n * ucast q :: u64) = word_of_nat (start + n * unat (q :: u8))"
  by (simp add: unsigned_ucast_eq)

lemma word_le_small: "a < 2 ^ 64 \<Longrightarrow> b < 2 ^ 64 \<Longrightarrow> (word_of_nat a :: u64) \<le> word_of_nat b \<longleftrightarrow> a \<le> b"
  by (simp add: word_le_nat_alt unat_of_nat)

lemma pcval_find_ranges:
  assumes "ranges_ok prev rs" "start + ranges_size (unat q) rs < 2 ^ 64" "start \<le> pc" "pc < 2 ^ 64"
  shows "pcval_find (word_of_nat pc) (pcval_at (encode_ranges prev rs @ rest) s (word_of_nat start) prev q) =
    (case value_at (unat q) start rs pc of None \<Rightarrow> (0, False) | Some v \<Rightarrow> (v, True))"
  using assms
proof (induction rs arbitrary: prev start s)
  case Nil
  have "(word_of_nat start :: u64) \<le> word_of_nat pc" using Nil word_le_small [of start pc] by simp
  then show ?case using pcval_step_end [of prev rest s "word_of_nat start" q] by (subst pcval_find.simps) (simp add: pcval_at_def)
next
  case (Cons r rs)
  obtain v n where r: "r = (v, n)" by (cases r)
  let ?e = "start + n * unat q"
  have e: "?e + ranges_size (unat q) rs < 2 ^ 64" using Cons.prems(2) r by (simp add: ranges_size_def)
  have le: "(word_of_nat start :: u64) \<le> word_of_nat pc" "(word_of_nat ?e :: u64) \<le> word_of_nat pc \<longleftrightarrow> ?e \<le> pc"
    using Cons.prems e word_le_small [of start pc] word_le_small [of ?e pc] by simp_all
  have st: "pcval_step (pcval_at (encode_ranges prev (r # rs) @ rest) s (word_of_nat start) prev q) =
      (True, pcval_at (encode_ranges v rs @ rest) (word_of_nat start) (word_of_nat ?e) v q)"
    using pcval_step_ranges [of prev v n rs rest s "word_of_nat start" q] Cons.prems(1) r range_end [of start n q] e by simp
  have f: "pcval_find (word_of_nat pc) (pcval_at (encode_ranges prev (r # rs) @ rest) s (word_of_nat start) prev q) =
      pcval_find (word_of_nat pc) (pcval_at (encode_ranges v rs @ rest) (word_of_nat start) (word_of_nat ?e) v q)"
    using st le(1) by (subst pcval_find.simps) (simp add: pcval_at_def)
  show ?case
  proof (cases "?e \<le> pc")
    case True
    then show ?thesis using Cons.IH [of v ?e "word_of_nat start"] Cons.prems r e f by simp
  next
    case False
    have "pcval_find (word_of_nat pc) (pcval_at (encode_ranges v rs @ rest) (word_of_nat start) (word_of_nat ?e) v q) = (v, True)"
      using le(2) False by (subst pcval_find.simps) (simp add: pcval_at_def)
    then show ?thesis using f r False by simp
  qed
qed

lemma newPcval_at: "newPcval data start q = snd (pcval_step (pcval_at data 0 start (- 1) q))"
  by (simp add: newPcval_def pcval_at_def)

lemma pcval_find_new:
  assumes "start \<le> pc"
  shows "pcval_find pc (newPcval data start q) = pcval_find pc (pcval_at data 0 start (- 1) q)"
proof (cases "pcval_step (pcval_at data 0 start (- 1) q)")
  case (Pair ok p)
  show ?thesis
  proof (cases ok)
    case True
    then show ?thesis using Pair assms by (subst (2) pcval_find.simps) (simp add: newPcval_at, simp add: pcval_at_def)
  next
    case False
    then have "p = pcval_at data 0 start (- 1) q" using Pair by (auto simp: pcval_step_def Let_def split: if_splits prod.splits)
    then show ?thesis using Pair by (simp add: newPcval_at)
  qed
qed

lemma sint_u32_small: "k < 2 ^ 31 \<Longrightarrow> sint (word_of_nat k :: int32) = int k" "k < 2 ^ 31 \<Longrightarrow> unat (word_of_nat k :: int32) = k"
  by (simp_all add: signed_of_nat signed_take_bit_int_eq_self unat_of_nat)

lemma getPcval_at:
  assumes "g_pctab g = pre @ data" "length pre < 2 ^ 31"
  shows "getPcval g (word_of_nat (length pre)) start = Some (newPcval data start (g_quantum g))"
  using assms sint_u32_small [of "length pre"] by (simp add: getPcval_def)

text \<open>
  \<open>mapPcval\<close> on a table that the linker wrote gives the value of the range that holds the program counter, and
  reports that there is none for one behind the last range.
\<close>

theorem mapPcval_finds:
  assumes "g_pctab g = pre @ encode_ranges (- 1) rs @ rest" "length pre < 2 ^ 31" "ranges_ok (- 1) rs"
    "start + ranges_size (unat (g_quantum g)) rs < 2 ^ 64" "start \<le> pc" "pc < 2 ^ 64"
  shows "mapPcval g (word_of_nat (length pre)) (word_of_nat start) (word_of_nat pc) =
    Some (case value_at (unat (g_quantum g)) start rs pc of None \<Rightarrow> (0, False) | Some v \<Rightarrow> (v, True))"
proof -
  have "(word_of_nat start :: u64) \<le> word_of_nat pc" using assms(4-6) word_le_small [of start pc] by simp
  then show ?thesis
    using getPcval_at [OF assms(1,2)] pcval_find_new pcval_find_ranges [OF assms(3-6), of rest 0] by (simp add: mapPcval_def)
qed

section \<open>Stack deltas\<close>

lemma ucast_small: "(ucast (word_of_nat k :: u64) :: u32) = word_of_nat k"
  by (rule bit_word_eqI) (simp add: bit_unsigned_iff bit_of_nat_iff)

lemma word_le_small32: "a < 2 ^ 32 \<Longrightarrow> b < 2 ^ 32 \<Longrightarrow> (word_of_nat a :: u32) \<le> word_of_nat b \<longleftrightarrow> a \<le> b"
  by (simp add: word_le_nat_alt unat_of_nat)

lemma add_pcvals_ranges:
  assumes "ranges_ok v rs" "e + ranges_size (unat q) rs < 2 ^ 32" "s \<le> e" "\<forall>d \<in> set ds. sd_Offset d \<le> word_of_nat s"
    "off < e + ranges_size (unat q) rs"
  shows "rule_at (add_pcvals info (pcval_at (encode_ranges v rs @ rest) (word_of_nat s) (word_of_nat e) v q) ds) (word_of_nat off) =
    (if off < s then rule_at ds (word_of_nat off)
     else if off < e then Some (normalize_command (info v))
     else map_option (\<lambda>v. normalize_command (info v)) (value_at (unat q) e rs off))"
  using assms
proof (induction rs arbitrary: v s e ds)
  case Nil
  let ?d = "StackDeltaArray_Add ds (word_of_nat s) (info v)"
  have a: "add_pcvals info (pcval_at (encode_ranges v [] @ rest) (word_of_nat s) (word_of_nat e) v q) ds = ?d"
    using pcval_step_end [of v rest "word_of_nat s" "word_of_nat e" q]
    by (subst add_pcvals.simps) (simp add: pcval_at_def ucast_small Let_def)
  have "(word_of_nat s :: u32) \<le> word_of_nat off \<longleftrightarrow> s \<le> off" using Nil word_le_small32 [of s off] by (simp add: ranges_size_def)
  then show ?case using StackDeltaArray_Add_rule [OF Nil(4)] a Nil(5) by (simp add: ranges_size_def)
next
  case (Cons r rs)
  obtain v' n where r: "r = (v', n)" by (cases r)
  let ?d = "StackDeltaArray_Add ds (word_of_nat s) (info v)" and ?e = "e + n * unat q"
  have e: "?e + ranges_size (unat q) rs < 2 ^ 32" "off < ?e + ranges_size (unat q) rs" using Cons.prems(2,5) r by (simp_all add: ranges_size_def)
  have st: "pcval_step (pcval_at (encode_ranges v (r # rs) @ rest) (word_of_nat s) (word_of_nat e) v q) =
      (True, pcval_at (encode_ranges v' rs @ rest) (word_of_nat e) (word_of_nat ?e) v' q)"
    using pcval_step_ranges [of v v' n rs rest "word_of_nat s" "word_of_nat e" q] Cons.prems(1) r range_end [of e n q] e by simp
  have a: "add_pcvals info (pcval_at (encode_ranges v (r # rs) @ rest) (word_of_nat s) (word_of_nat e) v q) ds =
      add_pcvals info (pcval_at (encode_ranges v' rs @ rest) (word_of_nat e) (word_of_nat ?e) v' q) ?d"
    using st by (subst add_pcvals.simps) (simp add: pcval_at_def ucast_small Let_def)
  have le: "(word_of_nat s :: u32) \<le> word_of_nat off \<longleftrightarrow> s \<le> off" "(word_of_nat s :: u32) \<le> word_of_nat e"
    using Cons.prems(3) e word_le_small32 [of s off] word_le_small32 [of s e] by simp_all
  have "\<forall>d \<in> set ?d. sd_Offset d \<le> word_of_nat s" using Cons.prems(4) by (auto simp: StackDeltaArray_Add_def Let_def)
  then have "\<forall>d \<in> set ?d. sd_Offset d \<le> word_of_nat e" using le(2) by force
  note ih = Cons.IH [of v' ?e e ?d, OF _ e(1) _ this e(2)]
  show ?case using ih a r Cons.prems(1,3) StackDeltaArray_Add_rule [OF Cons.prems(4)] le(1) by (auto simp: not_less)
qed

lemma value_at_some: "off < start + ranges_size q rs \<Longrightarrow> start \<le> off \<Longrightarrow> value_at q start rs off \<noteq> None"
  by (induction rs arbitrary: start) (auto simp: ranges_size_def not_less)

lemma func_rules:
  assumes "ranges_ok (- 1) rs" "ranges_size (unat q) rs < 2 ^ 32" "off < ranges_size (unat q) rs" "\<And>v. normalize_command (info v) = info v"
  shows "rule_at (add_pcvals info (newPcval (encode_ranges (- 1) rs @ rest) 0 q) []) (word_of_nat off) = map_option info (value_at (unat q) 0 rs off)"
proof (cases rs)
  case (Cons r rs')
  then obtain v n where r: "rs = (v, n) # rs'" by (cases r) auto
  have "newPcval (encode_ranges (- 1) rs @ rest) 0 q = pcval_at (encode_ranges v rs' @ rest) (word_of_nat 0) (word_of_nat (n * unat q)) v q"
    using pcval_step_ranges [of "- 1" v n rs' rest 0 0 q] assms(1,2) r range_end [of 0 n q] by (simp add: newPcval_at ranges_size_def)
  then show ?thesis using add_pcvals_ranges [of v rs' "n * unat q" q 0 "[]" off info rest] assms r by (simp add: ranges_size_def)
qed (use assms(3) in \<open>simp add: ranges_size_def\<close>)

lemma info_normal: "normalize_command (x86_info s v) = x86_info s v" "normalize_command (arm64_info s v) = arm64_info s v"
  by (simp_all add: x86_info_def arm64_info_def normalize_command_def is_command_def UnwindInfo_consts Let_def)

text \<open>
  C7: The stack deltas of a Go function agree with its table of stack sizes: at every offset of the function the unwind rule
  in force is that of the value the table has there, although equal neighbours are merged.
\<close>

theorem pclntab_deltas:
  assumes "ranges_ok (- 1) rs" "ranges_size (unat q) rs < 2 ^ 32" "off < ranges_size (unat q) rs" "bb_Deltas bb = []"
    "p = newPcval (encode_ranges (- 1) rs @ rest) 0 q"
  shows "\<exists>v. value_at (unat q) 0 rs off = Some v \<and>
    rule_at (bb_Deltas (parseX86pclntabFunc bb p s)) (word_of_nat off) = Some (x86_info s v) \<and>
    rule_at (bb_Deltas (parseArm64pclntabFunc bb p s)) (word_of_nat off) = Some (arm64_info s v)"
proof -
  obtain v where "value_at (unat q) 0 rs off = Some v" using value_at_some [of off 0] assms(3) by auto
  then show ?thesis using func_rules [OF assms(1-3)] info_normal assms(4,5) by (simp add: parseX86pclntabFunc_def parseArm64pclntabFunc_def)
qed

theorem mapPcval_finds_witness:
  "mapPcval (base_header [] 0\<lparr>g_pctab := [9] @ encode_ranges (- 1) [(8, 3), (24, 10), (8, 2)] @ [], g_quantum := 4\<rparr>) 1 0x1000 0x1010 = Some (24, True)"
  using mapPcval_finds [of "base_header [] 0\<lparr>g_pctab := [9] @ encode_ranges (- 1) [(8, 3), (24, 10), (8, 2)] @ [], g_quantum := 4\<rparr>"
      "[9]" "[(8, 3), (24, 10), (8, 2)]" "[]" "0x1000" "0x1010"]
  by (simp add: ranges_size_def)

theorem pclntab_deltas_witness:
  "rule_at (bb_Deltas (parseX86pclntabFunc \<lparr>bb_Start = 0x1000, bb_End = 0x100f, bb_Deltas = []\<rparr>
      (newPcval (encode_ranges (- 1) [(0, 4), (24, 10), (0, 1)] @ []) 0 1) strategyDeltasWithoutFrame)) 7 = Some (x86_info strategyDeltasWithoutFrame 24)"
  using pclntab_deltas [of "[(0, 4), (24, 10), (0, 1)]" 1 7 "\<lparr>bb_Start = 0x1000, bb_End = 0x100f, bb_Deltas = []\<rparr>" _ "[]" "strategyDeltasWithoutFrame"]
  by (simp add: ranges_size_def)

section \<open>Header\<close>

definition small_header :: "Gopclntab \<Rightarrow> bool" where
  "small_header g \<longleftrightarrow> length (g_data g) < 2 ^ 63 \<and> (g_funcMapSize g = 8 \<or> g_funcMapSize g = 16) \<and> unat (g_numFuncs g) < 2 ^ 58"

lemma unat_ucast8: "unat (ucast (w :: u8) :: u64) = unat w"
  using unsigned_less [of w, where 'a = nat] by (simp add: unsigned_ucast_eq take_bit_nat_eq_self)

lemma table_size:
  assumes "small_header g"
  shows "unat ((g_numFuncs g + 1) * ucast (g_funcMapSize g)) = (unat (g_numFuncs g) + 1) * unat (g_funcMapSize g)"
    "(unat (g_numFuncs g) + 1) * unat (g_funcMapSize g) < 2 ^ 63"
proof -
  let ?n = "unat (g_numFuncs g)" and ?s = "unat (g_funcMapSize g)"
  have s: "?s \<le> 16" "unat (ucast (g_funcMapSize g) :: u64) = ?s" using assms by (auto simp: small_header_def unat_ucast8)
  have n: "?n + 1 \<le> 2 ^ 58" using assms by (simp add: small_header_def)
  then have b: "(?n + 1) * ?s \<le> 2 ^ 58 * 16" using s(1) by (intro mult_le_mono)
  then show "(?n + 1) * ?s < 2 ^ 63" by simp
  have "unat (g_numFuncs g + 1) = ?n + 1" using n by (simp add: unat_word_ariths)
  then show "unat ((g_numFuncs g + 1) * ucast (g_funcMapSize g)) = (?n + 1) * ?s" using b s(2) by (simp add: unat_word_ariths)
qed

lemma header_fits:
  assumes "\<not> header_corrupt g" "small_header g"
  shows "(unat (g_numFuncs g) + 1) * unat (g_funcMapSize g) \<le> length (g_data g) - unat (g_pclnOffset g)"
    "unat (g_pclnOffset g) < length (g_data g)"
proof -
  have l: "unat (word_of_nat (length (g_data g)) :: u64) = length (g_data g)" using assms(2) by (simp add: small_header_def unat_of_nat)
  have p: "g_pclnOffset g < word_of_nat (length (g_data g))" using assms(1) by (auto simp: header_corrupt_def)
  then show "unat (g_pclnOffset g) < length (g_data g)" using l by (simp add: word_less_nat_alt)
  have d: "unat (word_of_nat (length (g_data g)) - g_pclnOffset g) = length (g_data g) - unat (g_pclnOffset g)"
    using p l unat_sub [of "g_pclnOffset g" "word_of_nat (length (g_data g))"] by simp
  have "sint ((g_numFuncs g + 1) * ucast (g_funcMapSize g)) \<le> sint (word_of_nat (length (g_data g)) - g_pclnOffset g :: int64)"
    using assms(1) by (auto simp: header_corrupt_def)
  moreover have "sint ((g_numFuncs g + 1) * ucast (g_funcMapSize g)) = int ((unat (g_numFuncs g) + 1) * unat (g_funcMapSize g))"
    using sint_small table_size [OF assms(2)] by metis
  moreover have "sint (word_of_nat (length (g_data g)) - g_pclnOffset g :: int64) = int (length (g_data g) - unat (g_pclnOffset g))"
    using sint_small [of "word_of_nat (length (g_data g)) - g_pclnOffset g"] d assms(2) by (simp only: small_header_def) linarith
  ultimately show "(unat (g_numFuncs g) + 1) * unat (g_funcMapSize g) \<le> length (g_data g) - unat (g_pclnOffset g)" by linarith
qed


text \<open>
  A header that says there are \<open>2 ^ 64 - 1\<close> functions, which is -1 as an \<open>int\<close>, passes the check of the size of the
  function table, and the extraction of the stack deltas of such a file panics on the last entry of the table.
\<close>

theorem negative_functions_panic:
  assumes "g_numFuncs g = - 1" "length (g_data g) < 2 ^ 63"
    "g_funcnameOffset g < g_cuOffset g" "g_cuOffset g < g_filetabOffset g" "g_filetabOffset g < g_pctabOffset g" "g_pctabOffset g < g_pclnOffset g"
    "unat (g_pclnOffset g) + unat (g_funcMapSize g) \<le> length (g_data g)" "g_funcMapSize g = 8 \<or> g_funcMapSize g = 16"
    "unwind_params (with_tables g) f = Some (Inr (pf, cu, useFP), f1)"
    "resolveFunctionUnwindInfo (f_data f1) (with_tables g) (f_Machine f1) useFP = Inr fi"
  shows "check_header g = Inr (with_tables g) \<and> parse_table (with_tables g) f hooks iv = None"
proof
  have l: "unat (word_of_nat (length (g_data g)) :: u64) = length (g_data g)" using assms(2) by (simp add: unat_of_nat)
  have p: "g_pclnOffset g < word_of_nat (length (g_data g))" using l assms(7,8) by (auto simp: word_less_nat_alt)
  then have d: "unat (word_of_nat (length (g_data g)) - g_pclnOffset g) = length (g_data g) - unat (g_pclnOffset g)"
    using l unat_sub [of "g_pclnOffset g" "word_of_nat (length (g_data g))"] by simp
  have "unat (word_of_nat (length (g_data g)) - g_pclnOffset g) < 2 ^ 63" using d assms(2) by linarith
  then have "0 \<le> sint (word_of_nat (length (g_data g)) - g_pclnOffset g :: int64)" using sint_small by (metis of_nat_0_le_iff)
  then have "\<not> header_corrupt g" using assms(1,3-6) p by (auto simp: header_corrupt_def not_less not_le)
  then show "check_header g = Inr (with_tables g)" by (simp add: check_header_def)
  have t: "g_numFuncs (with_tables g) = - 1" "g_funcMapSize (with_tables g) = g_funcMapSize g" using assms(1) by (simp_all add: with_tables_def)
  have "getFuncMapEntry (with_tables g) (- 1) = None" using assms(8) t(2) by (auto simp: getFuncMapEntry_def Let_def)
  moreover have "parse_funcs u (with_tables g) 0 iv = Some (None, iv)" for u using t(1) by (subst parse_funcs.simps) (simp add: numFuncs_def)
  ultimately show "parse_table (with_tables g) f hooks iv = None" using assms(9,10) t(1) by (auto simp: parse_table_def split: option.splits bind_splits)
qed

section \<open>Symbolization\<close>

text \<open>A function table: the entry of every function and the one behind the last, with increasing program counters.\<close>

definition functable :: "Gopclntab \<Rightarrow> (nat \<Rightarrow> uintptr) \<Rightarrow> (nat \<Rightarrow> uintptr) \<Rightarrow> bool" where
  "functable g pcs offs \<longleftrightarrow> unat (g_numFuncs g) < 2 ^ 62 \<and> (\<forall>i \<le> unat (g_numFuncs g). funcEntry g i = Some (pcs i, offs i)) \<and>
     (\<forall>i j. i < j \<and> j \<le> unat (g_numFuncs g) \<longrightarrow> pcs i < pcs j)"

lemma functable_search:
  assumes "functable g pcs offs"
  shows "search_opt (\<lambda>i. map_option (\<lambda>(funcPc, _). funcPc > pc) (funcEntry g i)) 0 (nat (sint (g_numFuncs g + 1))) =
      Some (sort_Search (unat (g_numFuncs g) + 1) (\<lambda>i. pcs i > pc))" "sint (g_numFuncs g) = int (unat (g_numFuncs g))"
proof -
  let ?n = "unat (g_numFuncs g)"
  have n: "?n < 2 ^ 62" and e: "\<forall>i \<le> ?n. funcEntry g i = Some (pcs i, offs i)" using assms by (auto simp: functable_def)
  have u: "unat (g_numFuncs g + 1) = ?n + 1" using n by (simp add: unat_word_ariths)
  then have "unat (g_numFuncs g + 1) < 2 ^ 63" using n by simp
  from sint_small [OF this] have s: "nat (sint (g_numFuncs g + 1)) = ?n + 1" using u by (simp del: of_nat_unat)
  show "sint (g_numFuncs g) = int ?n" by (rule sint_small) (use n in simp)
  show "search_opt (\<lambda>i. map_option (\<lambda>(funcPc, _). funcPc > pc) (funcEntry g i)) 0 (nat (sint (g_numFuncs g + 1))) =
      Some (sort_Search (?n + 1) (\<lambda>i. pcs i > pc))"
    unfolding s sort_Search_def by (rule search_opt_loop) (use e in auto)
qed

lemma functable_upward: "functable g pcs offs \<Longrightarrow> upward (unat (g_numFuncs g) + 1) (\<lambda>i. pcs i > pc)"
  unfolding upward_def functable_def by (metis add.commute less_Suc_eq_le nat_less_le order_less_trans plus_1_eq_Suc)

text \<open>
  C19: \<open>Symbolize\<close> attributes a program counter to the function whose range holds it, and to none when it is before the first
  or behind the last function.
\<close>

theorem Symbolize_function:
  assumes "functable g pcs offs"
  shows "(\<forall>i fun. i < unat (g_numFuncs g) \<and> pcs i \<le> pc \<and> pc < pcs (i + 1) \<and> getFunc g (offs i) = Some (pcs i, Some fun) \<longrightarrow>
      Symbolize g pc = do {
        sourceFile \<leftarrow> symbolize_file g fun (pcs i) pc;
        line \<leftarrow> symbolize_line g fun (pcs i) pc;
        Some (sourceFile, line, go_getString (g_funcnametab g) (sint (fn_nameOff fun))) }) \<and>
    (pc < pcs 0 \<or> pcs (unat (g_numFuncs g)) \<le> pc \<longrightarrow> Symbolize g pc = Some ([], 0, []))"
proof (intro conjI allI impI)
  let ?n = "unat (g_numFuncs g)"
  note mono = functable_upward [OF assms, of pc] and s = functable_search(1) [OF assms, of pc] functable_search(2) [OF assms]
  have lt: "\<And>i j. i < j \<Longrightarrow> j \<le> ?n \<Longrightarrow> pcs i < pcs j" and e: "\<And>i. i \<le> ?n \<Longrightarrow> funcEntry g i = Some (pcs i, offs i)"
    using assms by (auto simp: functable_def)
  {
    fix i fn
    assume i: "i < ?n \<and> pcs i \<le> pc \<and> pc < pcs (i + 1) \<and> getFunc g (offs i) = Some (pcs i, Some fn)"
    have "\<not> pcs m > pc" if "m < i + 1" for m using that i lt [of m i] by (cases "m = i") (auto simp: not_less)
    then have "sort_Search (?n + 1) (\<lambda>i. pcs i > pc) = i + 1" using goSearch.search_first [OF mono, of "i + 1"] i by auto
    then show "Symbolize g pc = do {
        sourceFile \<leftarrow> symbolize_file g fn (pcs i) pc;
        line \<leftarrow> symbolize_line g fn (pcs i) pc;
        Some (sourceFile, line, go_getString (g_funcnametab g) (sint (fn_nameOff fn))) }"
      using s i e [of i] by (simp add: Symbolize_def del: of_nat_unat)
  }
  assume "pc < pcs 0 \<or> pcs ?n \<le> pc"
  then have "sort_Search (?n + 1) (\<lambda>i. pcs i > pc) = 0 \<or> sort_Search (?n + 1) (\<lambda>i. pcs i > pc) = ?n + 1"
  proof
    assume "pc < pcs 0"
    then show ?thesis using goSearch.search_first [OF mono, of 0] by simp
  next
    assume p: "pcs ?n \<le> pc"
    have "\<not> pcs m > pc" if "m < ?n + 1" for m using that p lt [of m ?n] by (cases "m = ?n") auto
    then have "\<not> sort_Search (?n + 1) (\<lambda>i. pcs i > pc) < ?n + 1"
      using goSearch.search_above [OF mono, of "sort_Search (?n + 1) (\<lambda>i. pcs i > pc)"] by blast
    then show ?thesis using goSearch.search_le [of "?n + 1" "\<lambda>i. pcs i > pc"] by simp
  qed
  then show "Symbolize g pc = Some ([], 0, [])" using s by (auto simp: Symbolize_def simp del: of_nat_unat)
qed

section \<open>Examples\<close>

text \<open>A table of Go 1.16 with two functions.\<close>

definition example_functab :: "byte list" where
  "example_functab = le_put 8 16 @ le_put 8 48 @ le_put 8 32 @ le_put 8 88 @ le_put 8 48 @ le_put 8 0 @
     le_put 8 16 @ replicate 32 0 @ le_put 8 32 @ le_put 4 4 @ replicate 28 0"

definition example_table :: Gopclntab where
  "example_table = (base_header [] 0)\<lparr>g_data := [0x61, 0, 0, 0, 0x62, 0x63, 0, 0, 0, 0] @ example_functab, g_numFuncs := 2, g_version := go1_16,
     g_ptrSize := 8, g_funSize := 40, g_funcMapSize := 16, g_funcnameOffset := 0, g_cuOffset := 7, g_filetabOffset := 8, g_pctabOffset := 9,
     g_pclnOffset := 10\<rparr>"

lemma example_size: "length (g_data example_table) = 138" by (simp add: example_table_def example_functab_def)


lemma example_entries:
  "funcEntry (with_tables example_table) 0 = Some (16, 48)" "funcEntry (with_tables example_table) 1 = Some (32, 88)"
  "funcEntry (with_tables example_table) 2 = Some (48, 0)" "getFunc (with_tables example_table) 88 =
     Some (32, Some \<lparr>fn_nameOff = 4, fn_argsSize = 0, fn_frameSize = 0, fn_pcspOff = 0, fn_pcfileOff = 0, fn_pclnOff = 0, fn_nfuncData = 0, fn_npcData = 0\<rparr>)"
  by code_simp+

theorem Symbolize_function_witness: "Symbolize (with_tables example_table) 37 = Some ([], 0, [0x62, 0x63])"
proof -
  let ?g = "with_tables example_table" and ?pcs = "\<lambda>i. [16, 32, 48] ! i" and ?offs = "\<lambda>i. [48, 88, 0] ! i"
  have n: "unat (g_numFuncs ?g) = 2" by (simp add: with_tables_def example_table_def)
  have "funcEntry ?g i = Some (?pcs i, ?offs i)" if "i \<le> 2" for i
  proof -
    from that consider "i = 0" | "i = 1" | "i = 2" by linarith
    then show ?thesis using example_entries(1-3) by cases simp_all
  qed
  moreover have "?pcs i < (?pcs j :: uintptr)" if "i < j \<and> j \<le> 2" for i j
  proof -
    from that consider "i = 0 \<and> j = 1" | "i = 0 \<and> j = 2" | "i = 1 \<and> j = 2" by linarith
    then show ?thesis by cases simp_all
  qed
  ultimately have "functable ?g ?pcs ?offs" unfolding functable_def n by simp
  note t = conjunct1 [OF Symbolize_function [OF this, of 37], rule_format, of 1
      "\<lparr>fn_nameOff = 4, fn_argsSize = 0, fn_frameSize = 0, fn_pcspOff = 0, fn_pcfileOff = 0, fn_pclnOff = 0, fn_nfuncData = 0, fn_npcData = 0\<rparr>"]
  have "Symbolize ?g 37 = Some ([], 0, go_getString (g_funcnametab ?g) 4)"
    using t example_entries(4) n by (simp add: symbolize_file_def symbolize_line_def)
  moreover have "go_getString (g_funcnametab ?g) 4 = [0x62, 0x63]" by code_simp
  ultimately show ?thesis by simp
qed

lemma function_info_walk: "fst (walk_spec (function_info arch useFP) off ss st) = None"
  by (induction ss arbitrary: off st) (simp_all add: function_info_def)

text \<open>A table of function names is read to its end.\<close>

lemma resolveFunctionUnwindInfo_table:
  assumes "Reader_ok (table_reader r g (g_funcnameOffset g) (g_cuOffset g))"
    "stream_rest (table_reader r g (g_funcnameOffset g) (g_cuOffset g)) = string_table ss" "\<forall>s \<in> set ss. 0 \<notin> set s \<and> length s < bufferSize"
    "length ss < 2 ^ 63 - 1"
  shows "resolveFunctionUnwindInfo r g arch useFP =
    Inr (snd (walk_spec (function_info arch useFP) (Tell (table_reader r g (g_funcnameOffset g) (g_cuOffset g))) ss (\<lambda>_. None)))"
proof -
  let ?r = "table_reader r g (g_funcnameOffset g) (g_cuOffset g)" and ?fn = "function_info arch useFP"
  obtain m where m: "walk_spec ?fn (Tell ?r) ss (\<lambda>_. None) = (None, m)"
    using function_info_walk [of arch useFP "Tell ?r" ss "\<lambda>_. None"] by (metis prod.collapse)
  have "stream_rest ?r = string_table ss @ []" using assms(2) by simp
  from WalkStrings_spec [OF assms(1) this assms(3) _ _ assms(4), of ?fn "\<lambda>_. None"]
  obtain r' where "WalkStrings (2 ^ 63 - 1) ?fn ?r (\<lambda>_. None) = (Some (Inl EOF), m, r')" using m by auto
  then show ?thesis using m by (simp add: resolveFunctionUnwindInfo_def WalkAllStrings_def)
qed

definition example_go :: elf_File where
  "example_go = example_core\<lparr>f_data := g_data example_table, f_Machine := EM_AARCH64\<rparr>"

theorem negative_functions_panic_witness:
  "check_header (example_table\<lparr>g_numFuncs := - 1\<rparr>) = Inr (with_tables (example_table\<lparr>g_numFuncs := - 1\<rparr>)) \<and>
    parse_table (with_tables (example_table\<lparr>g_numFuncs := - 1\<rparr>)) example_go extractionFilter_zero IntervalData_zero = None"
proof -
  let ?g = "example_table\<lparr>g_numFuncs := - 1\<rparr>" and ?r = "Reader_Init (g_data example_table) 0 7"
  have "Reader_ok ?r \<and> stream_rest ?r = string_table [[0x61], [], [], [0x62, 0x63]]"
    using Reader_Init_ok [of 0 7 "g_data example_table"] example_size by (auto simp: example_table_def string_table_def)
  moreover have "table_reader (f_data example_go) (with_tables ?g) (g_funcnameOffset (with_tables ?g)) (g_cuOffset (with_tables ?g)) = ?r"
    by (simp add: table_reader_def with_tables_def example_go_def) (simp add: example_table_def base_header_def Let_def)
  ultimately have "\<exists>fi. resolveFunctionUnwindInfo (f_data example_go) (with_tables ?g) (f_Machine example_go) False = Inr fi"
    using resolveFunctionUnwindInfo_table [of "f_data example_go" "with_tables ?g" "[[0x61], [], [], [0x62, 0x63]]"] by (auto simp: bufferSize_def)
  moreover have "unwind_params (with_tables ?g) example_go = Some (Inr (parseArm64pclntabFunc, \<lambda>_. None, False), example_go)"
    by (simp add: unwind_params_def example_go_def broken_frame_pointers_def with_tables_def example_table_def)
  ultimately show ?thesis
    using negative_functions_panic [of ?g example_go parseArm64pclntabFunc "\<lambda>_. None" False example_go] example_size
    by (auto simp: example_table_def)
qed

end
