(* ===== verification/ProcessMaps.thy ===== *)
theory ProcessMaps
  imports Kallsyms ElfFile
begin

text \<open>
  The mappings and the environment of a process (\<open>process/process.go\<close>, \<open>stringutil.SplitN\<close>): the parser of
  \<open>/proc/PID/maps\<close>, the walk over the mappings with its fallback to another thread when the main thread has exited, the
  choice of the file that backs a mapping, and the variables that are kept of the environment.

  The files under \<open>/proc\<close> are arguments: their content, and the error that ended reading them. The callback works on a
  state of its own and says whether to go on.
\<close>

unbundle bit_operations_syntax

section \<open>Strings\<close>

text \<open>\<open>SplitN\<close>: the list of the fields that are set; its length is the result.\<close>

fun splitN_loop :: "nat \<Rightarrow> string \<Rightarrow> string \<Rightarrow> string list" where
  "splitN_loop 0 sep s = [s]"
| "splitN_loop (Suc n) sep s =
     (if s = [] then [s]
      else case bytes_Index s sep of
             None \<Rightarrow> [s]
           | Some fieldEnd \<Rightarrow> take fieldEnd s # splitN_loop n sep (drop (fieldEnd + length sep) s))"

definition SplitN :: "nat \<Rightarrow> string \<Rightarrow> string \<Rightarrow> string list" where
  "SplitN n s sep = (if n = 0 then [] else splitN_loop (n - 1) sep s)"

text \<open>\<open>strconv.ParseUint(s, 10, 64)\<close>.\<close>

definition dec_digit :: "char \<Rightarrow> nat option" where
  "dec_digit c = (let n = of_char c :: nat in if 48 \<le> n \<and> n \<le> 57 then Some (n - 48) else None)"

fun dec_value :: "nat \<Rightarrow> string \<Rightarrow> nat option" where
  "dec_value acc [] = Some acc"
| "dec_value acc (c # cs) = (case dec_digit c of None \<Rightarrow> None | Some d \<Rightarrow> dec_value (10 * acc + d) cs)"

definition ParseDec64 :: "string \<Rightarrow> u64 option" where
  "ParseDec64 s =
     (if s = [] then None
      else case dec_value 0 s of None \<Rightarrow> None | Some n \<Rightarrow> if n < 2 ^ 64 then Some (word_of_nat n) else None)"

text \<open>\<open>bufio.Scanner\<close> over lines, with a buffer of at most \<open>maxLine\<close> bytes: the lines, and whether one was too long.\<close>

definition maxLine :: nat where "maxLine = 8192"

definition dropCR :: "string \<Rightarrow> string" where
  "dropCR l = (if l \<noteq> [] \<and> last l = CHR 0x0D then butlast l else l)"

function scan_lines :: "string \<Rightarrow> string list \<times> bool" where
  "scan_lines s =
     (if s = [] then ([], False)
      else
        let l = takeWhile (\<lambda>c. c \<noteq> CHR 0x0A) s
        in if length l \<ge> maxLine then ([], True)
           else let (ls, e) = scan_lines (drop (length l + 1) s) in (dropCR l # ls, e))"
  by pat_completeness auto
termination by (relation "measure length") auto

declare scan_lines.simps [simp del]

section \<open>Lines of the mappings\<close>

definition vdsoInode :: u64 where "vdsoInode = 50"

definition trimSuffix :: "string \<Rightarrow> string \<Rightarrow> string" where
  "trimSuffix s suffix = (if hasSuffix s suffix then take (length s - length suffix) s else s)"

definition trimMappingPath :: "string \<Rightarrow> string" where
  "trimMappingPath path = (let path = trimSuffix path '' (deleted)'' in if path = ''/dev/zero'' then [] else path)"

datatype maps_line = LineError | LineSkip | LineMap RawMapping

definition field_at :: "string list \<Rightarrow> nat \<Rightarrow> string" where
  "field_at flds i = (if i < length flds then flds ! i else [])"

definition maps_flags :: "string \<Rightarrow> u32" where
  "maps_flags f = (if f ! 0 = CHR ''r'' then PF_R else 0) OR (if f ! 1 = CHR ''w'' then PF_W else 0) OR (if f ! 2 = CHR ''x'' then PF_X else 0)"

text \<open>Device, inode and path of a line; \<open>None\<close> for a mapping to be ignored.\<close>

definition mapping_file :: "u64 \<Rightarrow> u64 \<Rightarrow> string \<Rightarrow> (u64 \<times> u64 \<times> string) option" where
  "mapping_file device inode name =
     (if inode = 0
      then if name = ''[vdso]'' then Some (0, vdsoInode, VdsoPathName)
           else if name = [] then Some (device, inode, [])
           else if take 6 name = ''[anon:'' then Some (device, inode, name)
           else None
      else Some (device, inode, trimMappingPath name))"

definition parse_device :: "string \<Rightarrow> u64 option" where
  "parse_device f =
     (let devs = SplitN 2 f '':''
      in if length devs < 2 then None
         else do {
           major \<leftarrow> ParseHex64 (devs ! 0);
           minor \<leftarrow> ParseHex64 (devs ! 1);
           Some (push_bit 8 major + minor) })"

definition parse_range :: "string list \<Rightarrow> string \<Rightarrow> (u64 \<times> u64 \<times> u64) option" where
  "parse_range addrs off = do {
     vaddr \<leftarrow> ParseHex64 (addrs ! 0);
     vend \<leftarrow> ParseHex64 (addrs ! 1);
     fileOffset \<leftarrow> ParseHex64 off;
     Some (vaddr, vend - vaddr, fileOffset) }"

definition parse_maps_line :: "string \<Rightarrow> maps_line" where
  "parse_maps_line line =
     (let flds = FieldsN 6 line
      in if length flds < 5 then LineError
         else
           let addrs = SplitN 2 (flds ! 0) ''-''; mapsFlags = flds ! 1
           in if length addrs < 2 \<or> length mapsFlags < 3 then LineError
              else
                let flags = maps_flags mapsFlags
                in if flags AND (PF_R OR PF_X) = 0 then LineSkip
                   else
                     (case (ParseDec64 (flds ! 4), parse_device (flds ! 3)) of
                        (Some inode, Some device) \<Rightarrow>
                          (case mapping_file device inode (field_at flds 5) of
                             None \<Rightarrow> LineSkip
                           | Some (device, inode, path) \<Rightarrow>
                               (case parse_range addrs (flds ! 2) of
                                  None \<Rightarrow> LineError
                                | Some (vaddr, len, fileOffset) \<Rightarrow>
                                    LineMap \<lparr>rm_Vaddr = vaddr, rm_Length = len, rm_Flags = flags, rm_FileOffset = fileOffset,
                                      rm_Device = device, rm_Inode = inode, rm_Path = path\<rparr>))
                      | _ \<Rightarrow> LineError))"

section \<open>Iteration\<close>

datatype maperr = ErrNoMappings | ErrCallbackStopped | ErrTooLong | ErrRead | ErrOpen

text \<open>A file: its content, and whether reading failed behind it.\<close>

type_synonym procfile = "string \<times> bool"

fun iterate_lines :: "string list \<Rightarrow> (RawMapping \<Rightarrow> 's \<Rightarrow> bool \<times> 's) \<Rightarrow> u32 \<Rightarrow> 's \<Rightarrow> (u32 \<times> bool) \<times> 's" where
  "iterate_lines [] callback numParseErrors st = ((numParseErrors, True), st)"
| "iterate_lines (line # lines) callback numParseErrors st =
     (case parse_maps_line line of
        LineError \<Rightarrow> iterate_lines lines callback (numParseErrors + 1) st
      | LineSkip \<Rightarrow> iterate_lines lines callback numParseErrors st
      | LineMap m \<Rightarrow>
          (case callback m st of
             (False, st) \<Rightarrow> ((numParseErrors, False), st)
           | (True, st) \<Rightarrow> iterate_lines lines callback numParseErrors st))"

definition iterateMappings :: "procfile \<Rightarrow> (RawMapping \<Rightarrow> 's \<Rightarrow> bool \<times> 's) \<Rightarrow> 's \<Rightarrow> (u32 \<times> maperr option) \<times> 's" where
  "iterateMappings mapsFile callback st =
     (let (lines, tooLong) = scan_lines (fst mapsFile);
          ((numParseErrors, completed), st) = iterate_lines lines callback 0 st
      in ((numParseErrors,
           if \<not> completed then Some ErrCallbackStopped
           else if tooLong then Some ErrTooLong
           else if snd mapsFile then Some ErrRead
           else None), st))"

record systemProcess =
  sp_pid :: u32
  sp_tid :: u32
  sp_mainThreadExit :: bool

text \<open>The callback notes that there was a mapping.\<close>

definition tracked :: "(RawMapping \<Rightarrow> 's \<Rightarrow> bool \<times> 's) \<Rightarrow> RawMapping \<Rightarrow> bool \<times> 's \<Rightarrow> bool \<times> bool \<times> 's" where
  "tracked callback m st = (let (b, s) = callback m (snd st) in (b, True, s))"

text \<open>\<open>IterateMappings\<close>, with the files \<open>maps\<close> of the process and of the thread; \<open>None\<close> for one that cannot be opened.\<close>

definition IterateMappings ::
  "procfile option \<Rightarrow> procfile option \<Rightarrow> (RawMapping \<Rightarrow> 's \<Rightarrow> bool \<times> 's) \<Rightarrow> systemProcess \<Rightarrow> 's \<Rightarrow> (u32 \<times> maperr option) \<times> systemProcess \<times> 's" where
  "IterateMappings maps taskMaps callback sp st =
     (case maps of
        None \<Rightarrow> ((0, Some ErrOpen), sp, st)
      | Some mapsFile \<Rightarrow>
          (case iterateMappings mapsFile (tracked callback) (False, st) of
             ((n, Some e), (_, st)) \<Rightarrow> ((n, Some e), sp, st)
           | ((n, None), (True, st)) \<Rightarrow> ((n, None), sp, st)
           | ((n, None), (False, st)) \<Rightarrow>
               let sp = sp\<lparr>sp_mainThreadExit := True\<rparr>
               in if sp_pid sp = sp_tid sp then ((n, Some ErrNoMappings), sp, st)
                  else
                    (case taskMaps of
                       None \<Rightarrow> ((n, Some ErrNoMappings), sp, st)
                     | Some mapsFileAlt \<Rightarrow>
                         (case iterateMappings mapsFileAlt (tracked callback) (False, st) of
                            ((n, err), (gotMappings, st)) \<Rightarrow>
                              ((n, if err \<noteq> None \<or> \<not> gotMappings then Some ErrNoMappings else None), sp, st)))))"

section \<open>Files of mappings\<close>

text \<open>\<open>strconv.Itoa\<close> and the verb \<open>%x\<close>.\<close>

function put_digits :: "nat \<Rightarrow> nat \<Rightarrow> string" where
  "put_digits base n =
     (if base < 2 \<or> n < base then [''0123456789abcdef'' ! n] else put_digits base (n div base) @ [''0123456789abcdef'' ! (n mod base)])"
  by pat_completeness auto
termination by (relation "measure snd") auto

declare put_digits.simps [simp del]

definition procBase :: "systemProcess \<Rightarrow> string" where
  "procBase sp = ''/proc/'' @ put_digits 10 (unat (sp_pid sp)) @ ''/''"

datatype mapping_open = OpenFile string | OpenInRoot string string | NoBackingFile

text \<open>
  \<open>getMappingFile\<close>: which file is opened. A file below the root of the thread is compared with the inode and the device of
  the mapping after it was opened.
\<close>

definition getMappingFile :: "systemProcess \<Rightarrow> RawMapping \<Rightarrow> mapping_open" where
  "getMappingFile sp m =
     (if \<not> IsFileBacked m then NoBackingFile
      else if sp_mainThreadExit sp
      then OpenInRoot (procBase sp @ ''task/'' @ put_digits 10 (unat (sp_tid sp)) @ ''/root'') (rm_Path m)
      else OpenFile (procBase sp @ ''map_files/'' @ put_digits 16 (unat (rm_Vaddr m)) @ ''-'' @ put_digits 16 (unat (rm_Vaddr m + rm_Length m))))"

text \<open>
  \<open>OpenELFMapping\<close>, over the operations of a process: reading its memory, opening the file of a mapping, and opening a path
  when there is none (\<open>ErrMappingFileUnavailable\<close>).
\<close>

datatype openerr = ErrMappingFileUnavailable | ErrOpenOther | ErrExtract | ErrElf elferr

definition OpenELFMapping ::
  "(nat \<Rightarrow> u64 \<Rightarrow> byte list option) \<Rightarrow> (RawMapping \<Rightarrow> openerr + byte list) \<Rightarrow> (string \<Rightarrow> openerr + elf_File) \<Rightarrow> RawMapping \<Rightarrow> openerr + elf_File" where
  "OpenELFMapping readAt openMappingFile openELF m =
     (if IsVDSO m
      then case readAt (unat (rm_Length m)) (rm_Vaddr m) of
             None \<Rightarrow> Inl ErrExtract
           | Some vdso \<Rightarrow> map_sum ErrElf id (newFile vdso False 0 False)
      else case openMappingFile m of
             Inl ErrMappingFileUnavailable \<Rightarrow> openELF (rm_Path m)
           | Inl e \<Rightarrow> Inl ErrOpenOther
           | Inr file \<Rightarrow> map_sum ErrElf id (newFile file False 0 False))"

section \<open>Environment\<close>

text \<open>\<open>strings.SplitSeq\<close> at a byte.\<close>

fun split_at :: "char \<Rightarrow> string \<Rightarrow> string list" where
  "split_at c [] = [[]]"
| "split_at c (x # xs) = (if x = c then [] # split_at c xs else case split_at c xs of [] \<Rightarrow> [[x]] | y # ys \<Rightarrow> (x # y) # ys)"

definition add_env :: "(string \<Rightarrow> bool) \<Rightarrow> string \<Rightarrow> (string \<rightharpoonup> string) \<Rightarrow> string \<rightharpoonup> string" where
  "add_env included envVar m =
     (let flds = SplitN 2 envVar ''=''
      in if length flds < 2 then m else if included (flds ! 0) then m(flds ! 0 \<mapsto> flds ! 1) else m)"

text \<open>The variables that \<open>GetProcessMeta\<close> keeps.\<close>

definition env_variables :: "(string \<Rightarrow> bool) \<Rightarrow> string \<Rightarrow> string \<rightharpoonup> string" where
  "env_variables included environ = fold (add_env included) (split_at (CHR 0x00) environ) (\<lambda>_. None)"

end
