(* ===== verification/ProcessMapsProps.thy ===== *)
theory ProcessMapsProps
  imports ProcessMaps ElfNoteProps
begin

text \<open>
  The parser of the mappings inverts the format in which the kernel prints them, and the walk visits every mapping of a file
  in order; what a device number loses, and what the error of a stopped walk becomes after the main thread has exited.
\<close>

unbundle bit_operations_syntax

section \<open>Numbers\<close>

definition digits :: string where "digits = ''0123456789abcdef''"

lemma set_put_digits: "2 \<le> base \<Longrightarrow> base \<le> 16 \<Longrightarrow> set (put_digits base n) \<subseteq> set digits \<and> put_digits base n \<noteq> []"
proof (induction base n rule: put_digits.induct)
  case (1 base n)
  have m: "n mod base < 16" using "1.prems" mod_less_divisor [of base n] by linarith
  show ?case
  proof (cases "n < base")
    case True
    then have "n < length digits" using "1.prems" by (simp add: digits_def)
    then have "digits ! n \<in> set digits" by (rule nth_mem)
    then show ?thesis using True by (subst (1 2) put_digits.simps) (simp add: digits_def)
  next
    case False
    have "digits ! (n mod base) \<in> set digits" using m by (intro nth_mem) (simp add: digits_def)
    then show ?thesis using False "1.IH" "1.prems" by (subst (1 2) put_digits.simps) (simp add: digits_def)
  qed
qed

lemma digit_chars: "c \<in> set digits \<Longrightarrow> \<not> asciiSpace c \<and> c \<noteq> CHR ''-'' \<and> c \<noteq> CHR '':'' \<and> c \<noteq> CHR 0x0A"
  by (auto simp: digits_def asciiSpace_def)

lemma hex_digit_nth: "d < 16 \<Longrightarrow> hex_digit (''0123456789abcdef'' ! d) = Some d"
proof -
  assume "d < 16"
  then have "d \<in> set [0..<16]" by simp
  moreover have "list_all (\<lambda>d. hex_digit (''0123456789abcdef'' ! d) = Some d) [0..<16]" by code_simp
  ultimately show ?thesis by (simp add: list_all_iff)
qed

lemma dec_digit_nth: "d < 10 \<Longrightarrow> dec_digit (''0123456789abcdef'' ! d) = Some d"
proof -
  assume "d < 10"
  then have "d \<in> set [0..<10]" by simp
  moreover have "list_all (\<lambda>d. dec_digit (''0123456789abcdef'' ! d) = Some d) [0..<10]" by code_simp
  ultimately show ?thesis by (simp add: list_all_iff)
qed

lemma hex_value_append: "hex_value acc (xs @ ys) = (case hex_value acc xs of None \<Rightarrow> None | Some a \<Rightarrow> hex_value a ys)"
  by (induction xs arbitrary: acc) (auto split: option.splits)

lemma dec_value_append: "dec_value acc (xs @ ys) = (case dec_value acc xs of None \<Rightarrow> None | Some a \<Rightarrow> dec_value a ys)"
  by (induction xs arbitrary: acc) (auto split: option.splits)

lemma hex_value_put: "hex_value 0 (put_digits 16 n) = Some n"
proof (induction "16 :: nat" n rule: put_digits.induct)
  case (1 n)
  show ?case
  proof (cases "n < 16")
    case True
    then show ?thesis by (subst put_digits.simps) (simp add: hex_digit_nth)
  next
    case False
    then show ?thesis using 1 by (subst put_digits.simps) (simp add: hex_value_append hex_digit_nth)
  qed
qed

lemma dec_value_put: "dec_value 0 (put_digits 10 n) = Some n"
proof (induction "10 :: nat" n rule: put_digits.induct)
  case (1 n)
  show ?case
  proof (cases "n < 10")
    case True
    then show ?thesis by (subst put_digits.simps) (simp add: dec_digit_nth)
  next
    case False
    then show ?thesis using 1 by (subst put_digits.simps) (simp add: dec_value_append dec_digit_nth)
  qed
qed

definition put_hex :: "nat \<Rightarrow> u64 \<Rightarrow> string" where "put_hex zeros w = replicate zeros (CHR ''0'') @ put_digits 16 (unat w)"

lemma hex_value_zeros: "hex_value 0 (replicate z (CHR ''0'') @ xs) = hex_value 0 xs"
  by (induction z) (simp_all add: hex_digit_nth [of 0, simplified])

lemma set_put_hex: "set (put_hex z w) \<subseteq> set digits" "put_hex z w \<noteq> []"
  using set_put_digits [of 16 "unat w"] by (auto simp: put_hex_def digits_def)

lemma ParseHex64_put: "ParseHex64 (put_hex z w) = Some w"
  using set_put_hex(2) [of z w] hex_value_put [of "unat w"] unat_u64_less [of w] by (simp add: ParseHex64_def put_hex_def hex_value_zeros)

lemma ParseDec64_put: "ParseDec64 (put_digits 10 (unat w)) = Some w"
  using set_put_digits [of 10 "unat w"] dec_value_put [of "unat w"] unat_u64_less [of w] by (simp add: ParseDec64_def)

section \<open>Fields\<close>

lemma fields_loop_space: "asciiSpace c \<Longrightarrow> fields_loop n (c # s) = fields_loop n s"
  by (cases n) simp_all

lemma takeWhile_field: "\<forall>c \<in> set f. \<not> P c \<Longrightarrow> P c' \<Longrightarrow> takeWhile (\<lambda>c. \<not> P c) (f @ c' # s) = f"
  by (induction f) auto

lemma fields_loop_field:
  assumes "f \<noteq> []" "\<forall>c \<in> set f. \<not> asciiSpace c" "asciiSpace c"
  shows "fields_loop (Suc n) (f @ c # s) = f # fields_loop n s"
proof -
  have "dropWhile asciiSpace (f @ c # s) = f @ c # s" using assms by (cases f) auto
  then show ?thesis using takeWhile_field [OF assms(2,3), of s] assms fields_loop_space by (simp add: Let_def)
qed

lemma last_field: "p \<noteq> [] \<Longrightarrow> \<not> asciiSpace (hd p) \<Longrightarrow> fields_loop 0 (replicate k (CHR '' '') @ p) = [p]"
proof (induction k)
  case 0
  then show ?case by (cases p) simp_all
next
  case (Suc k)
  then show ?case by (simp add: fields_loop_space asciiSpace_def del: fields_loop.simps)
qed

definition is_field :: "string \<Rightarrow> bool" where "is_field f \<longleftrightarrow> f \<noteq> [] \<and> (\<forall>c \<in> set f. \<not> asciiSpace c)"

lemma six_fields:
  assumes "is_field f1" "is_field f2" "is_field f3" "is_field f4" "is_field f5" "p \<noteq> []" "\<not> asciiSpace (hd p)"
  shows "FieldsN 6 (f1 @ CHR '' '' # f2 @ CHR '' '' # f3 @ CHR '' '' # f4 @ CHR '' '' # f5 @ CHR '' '' # replicate k (CHR '' '') @ p) =
    [f1, f2, f3, f4, f5, p]"
proof -
  have sp: "asciiSpace (CHR '' '')" by (simp add: asciiSpace_def)
  have f: "fields_loop (Suc n) (f @ CHR '' '' # s) = f # fields_loop n s" if "is_field f" for f n s
    using that fields_loop_field [of f, OF _ _ sp] unfolding is_field_def by blast
  have "FieldsN 6 s = fields_loop (Suc (Suc (Suc (Suc (Suc 0))))) s" for s by (simp add: FieldsN_def numeral_eq_Suc del: fields_loop.simps)
  then show ?thesis by (simp only: f assms(1-5) last_field [OF assms(6,7)])
qed

lemma SplitN_pair: "c \<notin> set a \<Longrightarrow> SplitN 2 (a @ c # b) [c] = [a, b]"
proof -
  assume "c \<notin> set a"
  from bytes_Index_byte [OF this] have "splitN_loop (Suc 0) [c] (a @ c # b) = [a, b]" by simp
  then show ?thesis by (simp add: SplitN_def)
qed

section \<open>Lines\<close>

text \<open>A line as the kernel prints it: numbers may have leading zeros and the path is set off by any number of spaces.\<close>

record maps_entry =
  me_map :: RawMapping
  me_zeros :: nat
  me_private :: char
  me_major :: u64
  me_minor :: u64
  me_deleted :: bool
  me_spaces :: nat

definition print_flags :: "RawMapping \<Rightarrow> string" where
  "print_flags m = [if rm_Flags m AND PF_R \<noteq> 0 then CHR ''r'' else CHR ''-'', if rm_Flags m AND PF_W \<noteq> 0 then CHR ''w'' else CHR ''-'',
     if rm_Flags m AND PF_X \<noteq> 0 then CHR ''x'' else CHR ''-'']"

definition print_entry :: "maps_entry \<Rightarrow> string" where
  "print_entry e =
     (let m = me_map e; hex = put_hex (me_zeros e)
      in (hex (rm_Vaddr m) @ CHR ''-'' # hex (rm_Vaddr m + rm_Length m)) @ CHR '' '' #
         (print_flags m @ [me_private e]) @ CHR '' '' #
         hex (rm_FileOffset m) @ CHR '' '' #
         (hex (me_major e) @ CHR '':'' # hex (me_minor e)) @ CHR '' '' #
         put_digits 10 (unat (rm_Inode m)) @ CHR '' '' #
         replicate (me_spaces e) (CHR '' '') @ rm_Path m @ (if me_deleted e then '' (deleted)'' else []))"

definition entry_ok :: "maps_entry \<Rightarrow> bool" where
  "entry_ok e \<longleftrightarrow>
     (let m = me_map e; p = rm_Path m
      in rm_Flags m < 8 \<and> rm_Flags m AND (PF_R OR PF_X) \<noteq> 0 \<and> rm_Inode m \<noteq> 0 \<and> rm_Device m = push_bit 8 (me_major e) + me_minor e \<and>
         p \<noteq> [] \<and> \<not> asciiSpace (hd p) \<and> p \<noteq> ''/dev/zero'' \<and> (\<not> me_deleted e \<longrightarrow> \<not> hasSuffix p '' (deleted)'') \<and> \<not> asciiSpace (me_private e))"

lemma maps_flags_print: "rm_Flags m < 8 \<Longrightarrow> maps_flags (print_flags m @ s) = rm_Flags m"
proof -
  assume a: "rm_Flags m < 8"
  define k where "k = unat (rm_Flags m)"
  have k: "k < 8" "rm_Flags m = word_of_nat k" using a by (simp_all add: k_def word_less_nat_alt)
  from k(1) consider "k = 0" | "k = 1" | "k = 2" | "k = 3" | "k = 4" | "k = 5" | "k = 6" | "k = 7" by linarith
  then show ?thesis using k(2) by cases (simp_all add: maps_flags_def print_flags_def)
qed

lemma trimSuffix_append: "trimSuffix (p @ s) s = p" by (simp add: trimSuffix_def hasSuffix_def)

lemma trim_printed:
  assumes "p \<noteq> ''/dev/zero''" "\<not> d \<longrightarrow> \<not> hasSuffix p '' (deleted)''"
  shows "trimMappingPath (p @ (if d then '' (deleted)'' else [])) = p"
  using assms by (cases d) (simp_all add: trimMappingPath_def trimSuffix_append, simp add: trimSuffix_def)

lemma fields_printed:
  assumes "entry_ok e" "m = me_map e" "z = me_zeros e"
  shows "FieldsN 6 (print_entry e) =
    [put_hex z (rm_Vaddr m) @ CHR ''-'' # put_hex z (rm_Vaddr m + rm_Length m), print_flags m @ [me_private e], put_hex z (rm_FileOffset m),
     put_hex z (me_major e) @ CHR '':'' # put_hex z (me_minor e), put_digits 10 (unat (rm_Inode m)),
     rm_Path m @ (if me_deleted e then '' (deleted)'' else [])]"
proof -
  let ?p = "rm_Path m @ (if me_deleted e then '' (deleted)'' else [])"
  have ns: "\<not> asciiSpace (CHR ''-'')" "\<not> asciiSpace (CHR '':'')" by (simp_all add: asciiSpace_def)
  have h: "\<forall>c \<in> set (put_hex z w). \<not> asciiSpace c" for w using set_put_hex(1) [of z w] digit_chars by blast
  have d: "is_field (put_digits 10 n)" for n using set_put_digits [of 10 n] digit_chars by (auto simp: is_field_def)
  have f: "is_field (print_flags m @ [me_private e])" using assms(1) by (auto simp: print_flags_def entry_ok_def asciiSpace_def is_field_def Let_def)
  have x: "is_field (put_hex z w)" "is_field (put_hex z w @ CHR ''-'' # put_hex z v)" "is_field (put_hex z w @ CHR '':'' # put_hex z v)" for v w
    using h ns set_put_hex(2) by (auto simp: is_field_def)
  have "?p \<noteq> []" "\<not> asciiSpace (hd ?p)" using assms(1,2) by (auto simp: entry_ok_def Let_def)
  note six_fields [OF x(2) f x(1) x(3) d this]
  then show ?thesis by (simp only: print_entry_def assms(2,3) Let_def)
qed

lemma parse_printed:
  assumes "entry_ok e"
  shows "parse_maps_line (print_entry e) = LineMap (me_map e)"
proof -
  let ?m = "me_map e" and ?hex = "put_hex (me_zeros e)"
  let ?path = "rm_Path ?m @ (if me_deleted e then '' (deleted)'' else [])"
  note f = fields_printed [OF assms refl refl]
  have ok: "rm_Flags ?m < 8" "rm_Flags ?m AND (PF_R OR PF_X) \<noteq> 0" "rm_Inode ?m \<noteq> 0" "rm_Device ?m = push_bit 8 (me_major e) + me_minor e"
    "rm_Path ?m \<noteq> ''/dev/zero''" "\<not> me_deleted e \<longrightarrow> \<not> hasSuffix (rm_Path ?m) '' (deleted)''"
    using assms by (auto simp: entry_ok_def Let_def)
  have nd: "CHR ''-'' \<notin> set (?hex w)" "CHR '':'' \<notin> set (?hex w)" for w using set_put_hex(1) [of "me_zeros e" w] digit_chars by blast+
  have a: "SplitN 2 (?hex (rm_Vaddr ?m) @ CHR ''-'' # ?hex (rm_Vaddr ?m + rm_Length ?m)) ''-'' = [?hex (rm_Vaddr ?m), ?hex (rm_Vaddr ?m + rm_Length ?m)]"
    using SplitN_pair [OF nd(1)] by simp
  have d: "parse_device (?hex (me_major e) @ CHR '':'' # ?hex (me_minor e)) = Some (rm_Device ?m)"
    using SplitN_pair [OF nd(2)] ParseHex64_put ok(4) by (simp add: parse_device_def)
  have m: "mapping_file (rm_Device ?m) (rm_Inode ?m) ?path = Some (rm_Device ?m, rm_Inode ?m, rm_Path ?m)"
    using ok(3) trim_printed [OF ok(5,6)] by (simp add: mapping_file_def)
  have r: "parse_range [?hex (rm_Vaddr ?m), ?hex (rm_Vaddr ?m + rm_Length ?m)] (?hex (rm_FileOffset ?m)) = Some (rm_Vaddr ?m, rm_Length ?m, rm_FileOffset ?m)"
    using ParseHex64_put by (simp add: parse_range_def)
  have l: "length (print_flags ?m @ [me_private e]) < 3 \<longleftrightarrow> False" by (simp add: print_flags_def)
  have n: "length [a, b, c, d, e, f] = 6" "[a, b, c, d, e, f] ! 0 = a" "[a, b, c, d, e, f] ! 1 = b" "[a, b, c, d, e, f] ! 2 = c"
    "[a, b, c, d, e, f] ! 3 = d" "[a, b, c, d, e, f] ! 4 = e" "field_at [a, b, c, d, e, f] 5 = f" for a b c d e f :: string
    by (simp_all add: field_at_def)
  have t: "(6 :: nat) < 5 \<longleftrightarrow> False" "length [x, y] < 2 \<longleftrightarrow> False" for x y :: string by simp_all
  show ?thesis
    unfolding parse_maps_line_def f Let_def n a t l maps_flags_print [OF ok(1)] ParseDec64_put d
    using ok(2) m r by simp
qed

section \<open>Files\<close>

definition print_maps :: "maps_entry list \<Rightarrow> string" where
  "print_maps es = concat (map (\<lambda>e. print_entry e @ [CHR 0x0A]) es)"

definition line_ok :: "string \<Rightarrow> bool" where
  "line_ok l \<longleftrightarrow> CHR 0x0A \<notin> set l \<and> length l < maxLine \<and> l \<noteq> [] \<and> last l \<noteq> CHR 0x0D"

lemma scan_lines_concat: "list_all line_ok ls \<Longrightarrow> scan_lines (concat (map (\<lambda>l. l @ [CHR 0x0A]) ls)) = (ls, False)"
proof (induction ls)
  case Nil
  show ?case by (subst scan_lines.simps) simp
next
  case (Cons l ls)
  have l: "CHR 0x0A \<notin> set l" "length l < maxLine" "dropCR l = l" using Cons.prems by (auto simp: line_ok_def dropCR_def)
  have "takeWhile (\<lambda>c. c \<noteq> CHR 0x0A) (l @ CHR 0x0A # rest) = l" for rest using l(1) by (subst takeWhile_append2) auto
  then show ?case using Cons l(2,3) by (subst scan_lines.simps) (simp add: Let_def)
qed

fun visit_mappings :: "(RawMapping \<Rightarrow> 's \<Rightarrow> bool \<times> 's) \<Rightarrow> RawMapping list \<Rightarrow> 's \<Rightarrow> bool \<times> 's" where
  "visit_mappings callback [] st = (True, st)"
| "visit_mappings callback (m # ms) st = (case callback m st of (False, st) \<Rightarrow> (False, st) | (True, st) \<Rightarrow> visit_mappings callback ms st)"

lemma iterate_printed:
  "list_all entry_ok es \<Longrightarrow>
     iterate_lines (map print_entry es) callback n st = (case visit_mappings callback (map me_map es) st of (c, st) \<Rightarrow> ((n, c), st))"
  by (induction es arbitrary: st) (auto simp: parse_printed split: prod.splits bool.splits)


definition example_entry :: maps_entry where
  "example_entry = \<lparr>me_map = \<lparr>rm_Vaddr = 0x10, rm_Length = 0x20, rm_Flags = 5, rm_FileOffset = 0, rm_Device = 0x102, rm_Inode = 7, rm_Path = ''/a b''\<rparr>,
     me_zeros = 1, me_private = CHR ''p'', me_major = 1, me_minor = 2, me_deleted = True, me_spaces = 2\<rparr>"

lemma example_printed:
  "print_entry example_entry = ''010-030 r-xp 00 01:02 7   /a b (deleted)''" "entry_ok example_entry" "line_ok (print_entry example_entry)"
proof -
  have r: "replicate 2 (CHR '' '') = ''  ''" by (simp add: numeral_2_eq_2)
  show p: "print_entry example_entry = ''010-030 r-xp 00 01:02 7   /a b (deleted)''"
    by (simp add: print_entry_def example_entry_def put_hex_def put_digits.simps print_flags_def r)
  show "line_ok (print_entry example_entry)" unfolding p by (simp add: line_ok_def maxLine_def)
qed (simp add: entry_ok_def example_entry_def asciiSpace_def)


section \<open>What the parser loses\<close>

text \<open>The number of a device does not determine its parts: a minor number above 255 runs into the major number.\<close>

lemma device_ambiguous: "parse_device ''1:0'' = parse_device ''0:100''"
proof -
  have "put_hex 0 1 = ''1''" "put_hex 0 0 = ''0''" "put_hex 0 0x100 = ''100''" by (simp_all add: put_hex_def put_digits.simps)
  then have h: "ParseHex64 ''1'' = Some 1" "ParseHex64 ''0'' = Some 0" "ParseHex64 ''100'' = Some 0x100" using ParseHex64_put by metis+
  have "SplitN 2 (''1'' @ CHR '':'' # ''0'') '':'' = [''1'', ''0'']" "SplitN 2 (''0'' @ CHR '':'' # ''100'') '':'' = [''0'', ''100'']"
    by (rule SplitN_pair, simp)+
  then show ?thesis using h by (simp add: parse_device_def)
qed

text \<open>A named anonymous mapping passes for one that is backed by a file.\<close>

lemma named_anonymous: "rm_Path m = ''[anon:'' @ s \<Longrightarrow> IsFileBacked m \<and> \<not> IsAnonymous m"
  by (simp add: IsFileBacked_def IsAnonymous_def IsVDSO_def IsMemFD_def VdsoPathName_def hasPrefix_def)

text \<open>
  After the main thread has exited a walk that the callback stops is reported as one without mappings, where it is
  \<open>ErrCallbackStopped\<close> otherwise.
\<close>

theorem stopped_walk_error:
  assumes "list_all entry_ok es" "list_all (\<lambda>e. line_ok (print_entry e)) es" "visit_mappings callback (map me_map es) st = (False, st')"
  shows "IterateMappings (Some (print_maps es, False)) task callback sp st = ((0, Some ErrCallbackStopped), sp, st') \<and>
    (sp_pid sp \<noteq> sp_tid sp \<longrightarrow> IterateMappings (Some ([], False)) (Some (print_maps es, False)) callback sp st =
      ((0, Some ErrNoMappings), sp\<lparr>sp_mainThreadExit := True\<rparr>, st'))"
proof -
  have s: "scan_lines (print_maps es) = (map print_entry es, False)"
    using scan_lines_concat [of "map print_entry es"] assms(2) by (simp add: print_maps_def comp_def list_all_iff)
  have t: "visit_mappings (tracked callback) ms (g, st) = (False, True, st')" if "visit_mappings callback ms st = (False, st')" for ms g st
    using that by (induction ms arbitrary: g st) (auto simp: tracked_def split: prod.splits bool.splits)
  have i: "iterateMappings (print_maps es, False) (tracked callback) (g, st) = ((0, Some ErrCallbackStopped), True, st')" for g
    using s iterate_printed [OF assms(1), of "tracked callback" 0 "(g, st)"] t [OF assms(3)] by (simp add: iterateMappings_def)
  have "scan_lines [] = ([], False)" by (subst scan_lines.simps) simp
  then have e: "iterateMappings ([], False) (tracked callback) (False, st) = ((0, None), False, st)" by (simp add: iterateMappings_def)
  show ?thesis using i e by (simp add: IterateMappings_def Let_def)
qed

theorem stopped_walk_error_witness:
  "IterateMappings (Some ([], False)) (Some (''010-030 r-xp 00 01:02 7   /a b (deleted)'' @ [CHR 0x0A], False)) (\<lambda>m n. (False, Suc n))
     \<lparr>sp_pid = 3, sp_tid = 4, sp_mainThreadExit = False\<rparr> (0 :: nat) = ((0, Some ErrNoMappings), \<lparr>sp_pid = 3, sp_tid = 4, sp_mainThreadExit = True\<rparr>, 1)"
  using stopped_walk_error [of "[example_entry]" "\<lambda>m n. (False, Suc n)" 0 1 None "\<lparr>sp_pid = 3, sp_tid = 4, sp_mainThreadExit = False\<rparr>"] example_printed
  by (simp add: print_maps_def)

end
