(* ===== verification/Hashes.thy ===== *)
theory Hashes
  imports ProcessMaps TraceConvert
begin

text \<open>
  Identifiers (\<open>libpf/basehash\<close>, \<open>libpf/fileid.go\<close>, \<open>libpf/tracehash.go\<close>, \<open>traceutil/traceutil.go\<close>): 128-bit hashes with their
  bytes, strings and order, the FNV-1a hashes of the standard library, the identifier of a file, and the hash of a trace.

  The SHA-256 of a third-party package is an argument of the identifier of a file.
\<close>

unbundle bit_operations_syntax

section \<open>128-bit hashes\<close>

type_synonym Hash128 = libpf_FileID

definition New128 :: "u64 \<Rightarrow> u64 \<Rightarrow> Hash128" where "New128 hi lo = \<lparr>fi_hi = hi, fi_lo = lo\<rparr>"

text \<open>\<open>binary.BigEndian\<close>.\<close>

definition be_bytes :: "u64 \<Rightarrow> byte list" where
  "be_bytes w = map (\<lambda>i. ucast (drop_bit (8 * i) w)) [7, 6, 5, 4, 3, 2, 1, 0]"

definition be_u64 :: "byte list \<Rightarrow> u64" where "be_u64 bs = fold (\<lambda>b w. push_bit 8 w OR ucast b) bs 0"

definition Hash128_Bytes :: "Hash128 \<Rightarrow> byte list" where "Hash128_Bytes h = be_bytes (fi_hi h) @ be_bytes (fi_lo h)"

definition New128FromBytes :: "byte list \<Rightarrow> Hash128 option" where
  "New128FromBytes b = (if length b \<noteq> 16 then None else Some (New128 (be_u64 (take 8 b)) (be_u64 (drop 8 b))))"

definition lowerHex :: string where "lowerHex = ''0123456789abcdef''"
definition upperHex :: string where "upperHex = ''0123456789ABCDEF''"

definition putUint64AsHex :: "u64 \<Rightarrow> string \<Rightarrow> string" where
  "putUint64AsHex n mapping = map (\<lambda>i. mapping ! unat (drop_bit (4 * i) n AND 0x0F)) [15, 14, 13, 12, 11, 10, 9, 8, 7, 6, 5, 4, 3, 2, 1, 0]"

definition marshalIdentifier :: "u64 \<Rightarrow> u64 \<Rightarrow> string" where
  "marshalIdentifier hi lo = putUint64AsHex hi lowerHex @ putUint64AsHex lo lowerHex"

definition StringNoQuotes :: "Hash128 \<Rightarrow> string" where "StringNoQuotes h = marshalIdentifier (fi_hi h) (fi_lo h)"

definition MarshalJSON :: "Hash128 \<Rightarrow> string" where
  "MarshalJSON h = [CHR 0x22] @ marshalIdentifier (fi_hi h) (fi_lo h) @ [CHR 0x22]"

definition New128FromString :: "string \<Rightarrow> Hash128 option" where
  "New128FromString s =
     (let s = (if take 2 s = ''0x'' then drop 2 s else s); s = filter (\<lambda>c. c \<noteq> CHR ''-'') s
      in if length s \<noteq> 32 then None
         else do {
           hi \<leftarrow> ParseHex64 (take 16 s);
           lo \<leftarrow> ParseHex64 (drop 16 s);
           Some (New128 hi lo) })"

definition UnmarshalJSON :: "string \<Rightarrow> Hash128 option" where
  "UnmarshalJSON b = (if length b \<noteq> 34 then None else New128FromString (take 32 (drop 1 b)))"

definition toUpper :: "char \<Rightarrow> char" where
  "toUpper c = (let n = of_char c :: nat in if 97 \<le> n \<and> n \<le> 122 then char_of (n - 32) else c)"

definition uint64ToGob :: "u64 \<Rightarrow> char \<Rightarrow> string" where
  "uint64ToGob n ch = ''%!'' @ [ch] @ ''(uint64='' @ put_digits 10 (unat n) @ '')''"

text \<open>\<open>Format\<close>, with the flag \<open>#\<close> and the verb.\<close>

definition Hash128_Format :: "bool \<Rightarrow> char \<Rightarrow> Hash128 \<Rightarrow> string" where
  "Hash128_Format sharp ch h =
     (let lower = put_digits 16 (unat (fi_hi h)) @ putUint64AsHex (fi_lo h) lowerHex;
          upper = map toUpper (put_digits 16 (unat (fi_hi h))) @ putUint64AsHex (fi_lo h) upperHex
      in if sharp \<and> (ch = CHR ''x'' \<or> ch = CHR ''v'') then ''0x'' @ lower
         else if sharp \<and> ch = CHR ''X'' then ''0x'' @ upper
         else if ch = CHR ''x'' then lower
         else if ch = CHR ''X'' then upper
         else if ch = CHR ''d'' \<or> ch = CHR ''v''
         then ''{'' @ put_digits 10 (unat (fi_hi h)) @ '' '' @ put_digits 10 (unat (fi_lo h)) @ ''}''
         else ''{'' @ uint64ToGob (fi_hi h) ch @ '' '' @ uint64ToGob (fi_lo h) ch @ ''}'')"

definition Hash128_Less :: "Hash128 \<Rightarrow> Hash128 \<Rightarrow> bool" where
  "Hash128_Less h other \<longleftrightarrow> sint (fi_hi h) < sint (fi_hi other) \<or> fi_hi h = fi_hi other \<and> sint (fi_lo h) < sint (fi_lo other)"

definition Hash128_Compare :: "Hash128 \<Rightarrow> Hash128 \<Rightarrow> int" where
  "Hash128_Compare h other =
     (if sint (fi_hi h) < sint (fi_hi other) then - 1
      else if sint (fi_hi h) > sint (fi_hi other) then 1
      else if sint (fi_lo h) < sint (fi_lo other) then - 1
      else if sint (fi_lo h) > sint (fi_lo other) then 1
      else 0)"

definition Hash128_IsZero :: "Hash128 \<Rightarrow> bool" where "Hash128_IsZero h \<longleftrightarrow> fi_hi h = 0 \<and> fi_lo h = 0"

section \<open>FNV-1a\<close>

definition fnv64a :: "byte list \<Rightarrow> u64" where
  "fnv64a bs = fold (\<lambda>b h. (h XOR ucast b) * 1099511628211) bs 14695981039346656037"

definition fnv128a :: "byte list \<Rightarrow> 128 word" where
  "fnv128a bs = fold (\<lambda>b h. (h XOR ucast b) * 0x0000000001000000000000000000013b) bs 0x6c62272e07bb014262b821756295c58d"

definition hash_of :: "128 word \<Rightarrow> Hash128" where "hash_of w = New128 (ucast (drop_bit 64 w)) (ucast w)"

section \<open>Files\<close>

definition libpf_FileIDFromBytes :: "byte list option \<Rightarrow> Hash128 option" where
  "libpf_FileIDFromBytes b = (case b of None \<Rightarrow> Some (New128 0 0) | Some b \<Rightarrow> New128FromBytes b)"

definition FileID_Hash32 :: "Hash128 \<Rightarrow> u32" where "FileID_Hash32 f = ucast (fi_hi f)"

definition TraceHash_Hash32 :: "Hash128 \<Rightarrow> u32" where "TraceHash_Hash32 h = ucast (fi_lo h)"

definition Swapped :: "Hash128 \<Rightarrow> Hash128" where "Swapped f = New128 (fi_lo f) (fi_hi f)"

definition FileIDFromExecutableReader :: "(byte list \<Rightarrow> byte list) \<Rightarrow> byte list \<Rightarrow> Hash128 option" where
  "FileIDFromExecutableReader sha256 file =
     (let tailBytes = min (length file) 4096;
          h = sha256 (take 4096 file @ drop (length file - tailBytes) file @ be_bytes (word_of_nat (length file)))
      in libpf_FileIDFromBytes (Some (take 16 h)))"

definition FileIDFromKernelBuildID :: "byte list \<Rightarrow> Hash128" where "FileIDFromKernelBuildID buildID = hash_of (fnv128a buildID)"

section \<open>Traces\<close>

definition frame_bytes :: "Frame \<Rightarrow> byte list" where
  "frame_bytes frame =
     Hash128_Bytes (case fr_Mapping frame of None \<Rightarrow> New128 0 0 | Some m \<Rightarrow> ff_FileID (fm_File m)) @
     ascii (put_digits 10 (unat (fr_AddressOrLineno frame)))"

definition HashTrace :: "Trace \<Rightarrow> Hash128" where
  "HashTrace trace = hash_of (fnv128a (concat (map frame_bytes (tr_Frames trace))))"

end
