(* ===== verification/Reporter.thy ===== *)
theory Reporter
  imports Hashes GoStrings "HOL-Library.Char_ord" "HOL-Library.List_Lexorder" "HOL-Library.Product_Lexorder"
begin

text \<open>
  The reporter (\<open>reporter/base_reporter.go\<close>, \<open>reporter/samples\<close>, \<open>reporter/internal/orderedset\<close>, \<open>reporter/internal/pdata\<close>): the tree
  in which reported traces are collected, and the profile that is made of it, with its dictionary of strings, functions,
  mappings, locations, stacks, links and attributes.

  Maps are association lists in the order in which Go happens to iterate over them. An index into a table of the dictionary is an
  \<open>int32\<close> in the code and a natural number here: the tables are far from having \<open>2 ^ 31\<close> entries. The keys of the semantic conventions are
  those of a third-party package, and an argument, as is the producer of extra attributes; a pointer to the metadata of a profile type is a
  value of a type of its own, with a function that reads it.
\<close>

unbundle bit_operations_syntax

section \<open>Collected traces\<close>

record TypeMetadata =
  ty_PeriodType :: string
  ty_PeriodUnit :: string
  ty_SampleType :: string
  ty_SampleUnit :: string
  ty_ReportValues :: bool

record ResourceKey =
  rk_ContainerID :: string
  rk_ExecutablePath :: string
  rk_APMServiceName :: string
  rk_PID :: int64

record 'x SampleKey =
  sk_ExtraMeta :: "'x option"
  sk_Comm :: "byte list"
  sk_Hash :: Hash128
  sk_TID :: int64
  sk_CPU :: int64
  sk_SpanID :: "byte list"
  sk_TraceID :: "byte list"

record TraceEvents =
  ev_Labels :: "(string \<times> string) list"
  ev_Frames :: "Frame list"
  ev_Timestamps :: "u64 list"
  ev_Values :: "int64 list"

record ('p, 'x) ResourceToProfiles =
  rp_EnvVars :: "(string \<times> string) list"
  rp_Events :: "('p \<times> ('x SampleKey \<times> TraceEvents) list) list"

type_synonym ('p, 'x) TraceEventsTree = "(ResourceKey \<times> ('p, 'x) ResourceToProfiles) list"

datatype reperr = errUnknownProfileType

text \<open>Changing the entry of a map, with what it is without one.\<close>

fun map_alter :: "'k \<Rightarrow> ('v option \<Rightarrow> 'v) \<Rightarrow> ('k \<times> 'v) list \<Rightarrow> ('k \<times> 'v) list" where
  "map_alter k f [] = [(k, f None)]"
| "map_alter k f ((k', v) # xs) = (if k = k' then (k, f (Some v)) # xs else (k', v) # map_alter k f xs)"

definition resource_key :: "'q TraceEventMeta \<Rightarrow> ResourceKey" where
  "resource_key meta = \<lparr>rk_ContainerID = te_ContainerID meta, rk_ExecutablePath = te_ExecutablePath meta, rk_APMServiceName = te_APMServiceName meta,
     rk_PID = ucast (te_PID meta)\<rparr>"

definition sample_key :: "'x option \<Rightarrow> Trace \<Rightarrow> 'q TraceEventMeta \<Rightarrow> 'x SampleKey" where
  "sample_key extraMeta trace meta =
     \<lparr>sk_ExtraMeta = extraMeta, sk_Comm = te_Comm meta, sk_Hash = HashTrace trace, sk_TID = ucast (te_TID meta), sk_CPU = ucast (te_CPU meta),
      sk_SpanID = te_SpanID meta, sk_TraceID = te_TraceID meta\<rparr>"

definition add_event :: "Trace \<Rightarrow> 'q TraceEventMeta \<Rightarrow> TraceEvents option \<Rightarrow> TraceEvents" where
  "add_event trace meta old =
     (case old of
        Some ev \<Rightarrow> ev\<lparr>ev_Timestamps := ev_Timestamps ev @ [te_Timestamp meta], ev_Values := ev_Values ev @ [te_Value meta]\<rparr>
      | None \<Rightarrow> \<lparr>ev_Labels = tr_CustomLabels trace, ev_Frames = tr_Frames trace, ev_Timestamps = [te_Timestamp meta], ev_Values = [te_Value meta]\<rparr>)"

text \<open>\<open>ReportTraceEvent\<close>, with the producer of extra metadata if there is one.\<close>

definition ReportTraceEvent ::
  "(Trace \<Rightarrow> 'p option TraceEventMeta \<Rightarrow> 'x) option \<Rightarrow> Trace \<Rightarrow> 'p option TraceEventMeta \<Rightarrow> ('p, 'x) TraceEventsTree \<Rightarrow>
     reperr option \<times> ('p, 'x) TraceEventsTree" where
  "ReportTraceEvent producer trace meta tree =
     (case te_ProfileType meta of
        None \<Rightarrow> (Some errUnknownProfileType, tree)
      | Some ty \<Rightarrow>
          let extraMeta = map_option (\<lambda>f. f trace meta) producer
          in (None,
              map_alter (resource_key meta)
                (\<lambda>old. let rtp = (case old of None \<Rightarrow> \<lparr>rp_EnvVars = te_EnvVars meta, rp_Events = []\<rparr> | Some r \<Rightarrow> r)
                       in rtp\<lparr>rp_Events := map_alter ty
                            (\<lambda>old. map_alter (sample_key extraMeta trace meta) (add_event trace meta) (case old of None \<Rightarrow> [] | Some es \<Rightarrow> es))
                            (rp_Events rtp)\<rparr>)
                tree))"

section \<open>Ordered sets\<close>

text \<open>A set with its elements in the order of insertion; the index of an element is its position.\<close>

type_synonym 'a OrderedSet = "'a list"

fun index_of :: "'a \<Rightarrow> 'a list \<Rightarrow> nat option" where
  "index_of x [] = None"
| "index_of x (y # ys) = (if x = y then Some 0 else map_option Suc (index_of x ys))"

definition AddWithCheck :: "'a \<Rightarrow> 'a OrderedSet \<Rightarrow> (nat \<times> bool) \<times> 'a OrderedSet" where
  "AddWithCheck key os = (case index_of key os of Some i \<Rightarrow> ((i, True), os) | None \<Rightarrow> ((length os, False), os @ [key]))"

definition os_Add :: "'a \<Rightarrow> 'a OrderedSet \<Rightarrow> nat \<times> 'a OrderedSet" where
  "os_Add key os = (case AddWithCheck key os of ((i, _), os) \<Rightarrow> (i, os))"

definition os_ToSlice :: "'a OrderedSet \<Rightarrow> 'a list" where "os_ToSlice os = os"

section \<open>Dictionary\<close>

record locationInfo =
  li_address :: u64
  li_mappingIndex :: nat
  li_frameType :: FrameType
  li_hasLine :: bool
  li_lineNumber :: int64
  li_columnNumber :: int64
  li_functionIndex :: nat

definition locationInfo_zero :: locationInfo where
  "locationInfo_zero = \<lparr>li_address = 0, li_mappingIndex = 0, li_frameType = 0, li_hasLine = False, li_lineNumber = 0, li_columnNumber = 0,
     li_functionIndex = 0\<rparr>"

datatype attr_value = AttrInt int64 | AttrStr string

record mapping_row =
  mr_start :: u64
  mr_end :: u64
  mr_offset :: u64
  mr_filename :: nat
  mr_attrs :: "nat list"

record location_row =
  lr_address :: u64
  lr_mapping :: nat
  lr_line :: "(int64 \<times> int64 \<times> nat) option"
  lr_attrs :: "nat list"

record dict =
  d_strings :: "string OrderedSet"
  d_funcs :: "(nat \<times> nat) OrderedSet"
  d_mappings :: "FrameMappingData option OrderedSet"
  d_stacks :: "u64 OrderedSet"
  d_locs :: "locationInfo OrderedSet"
  d_links :: "(byte list \<times> byte list) OrderedSet"
  d_indices :: "(string \<times> nat) list"
  t_mappings :: "mapping_row list"
  t_stacks :: "nat list list"
  t_locs :: "location_row list"
  t_links :: "(byte list \<times> byte list) list"
  t_attrs :: "(nat \<times> attr_value) list"

text \<open>The first element of each table is empty; the invalid identifiers of spans and traces are zero bytes.\<close>

definition InvalidAPMSpanID :: "byte list" where "InvalidAPMSpanID = replicate 8 0"
definition InvalidAPMTraceID :: "byte list" where "InvalidAPMTraceID = replicate 16 0"

definition dict_empty :: dict where
  "dict_empty =
     \<lparr>d_strings = [[]], d_funcs = [(0, 0)], d_mappings = [None], d_stacks = [0], d_locs = [locationInfo_zero],
      d_links = [(InvalidAPMSpanID, InvalidAPMTraceID)], d_indices = [],
      t_mappings = [\<lparr>mr_start = 0, mr_end = 0, mr_offset = 0, mr_filename = 0, mr_attrs = []\<rparr>], t_stacks = [[]],
      t_locs = [\<lparr>lr_address = 0, lr_mapping = 0, lr_line = None, lr_attrs = []\<rparr>], t_links = [(InvalidAPMSpanID, InvalidAPMTraceID)],
      t_attrs = [(0, AttrStr [])]\<rparr>"

definition add_string :: "string \<Rightarrow> dict \<Rightarrow> nat \<times> dict" where
  "add_string s d = (let (i, ss) = os_Add s (d_strings d) in (i, d\<lparr>d_strings := ss\<rparr>))"

definition add_func :: "nat \<times> nat \<Rightarrow> dict \<Rightarrow> nat \<times> dict" where
  "add_func f d = (let (i, fs) = os_Add f (d_funcs d) in (i, d\<lparr>d_funcs := fs\<rparr>))"

subsection \<open>Attributes\<close>

definition appendAny :: "string \<Rightarrow> string \<Rightarrow> attr_value \<Rightarrow> nat list \<Rightarrow> dict \<Rightarrow> nat list \<times> dict" where
  "appendAny key compoundKey val attrs d =
     (case map_of (d_indices d) compoundKey of
        Some i \<Rightarrow> (attrs @ [i], d)
      | None \<Rightarrow>
          let newIndex = length (t_attrs d);
              (k, d) = add_string key d
          in (attrs @ [newIndex], d\<lparr>t_attrs := t_attrs d @ [(k, val)], d_indices := (compoundKey, newIndex) # d_indices d\<rparr>))"

definition put_signed :: "int \<Rightarrow> string" where
  "put_signed i = (if i < 0 then ''-'' @ put_digits 10 (nat (- i)) else put_digits 10 (nat i))"

definition attr_AppendInt :: "string \<Rightarrow> int64 \<Rightarrow> nat list \<Rightarrow> dict \<Rightarrow> nat list \<times> dict" where
  "attr_AppendInt key val attrs d = appendAny key (key @ ''_'' @ put_signed (sint val)) (AttrInt val) attrs d"

definition AppendOptionalString :: "string \<Rightarrow> string \<Rightarrow> nat list \<Rightarrow> dict \<Rightarrow> nat list \<times> dict" where
  "AppendOptionalString key val attrs d =
     (if val = [] then (attrs, d) else appendAny key (key @ ''_'' @ val) (AttrStr val) attrs d)"

text \<open>The keys of the semantic conventions.\<close>

record semconv =
  sc_BuildIDGNU :: string
  sc_BuildIDGo :: string
  sc_BuildIDHtlhash :: string
  sc_FrameType :: string
  sc_ThreadName :: string
  sc_ThreadID :: string
  sc_CPU :: string
  sc_ServiceName :: string
  sc_ContainerID :: string
  sc_ProcessPID :: string
  sc_ExecutablePath :: string
  sc_ExecutableName :: string

subsection \<open>Frames\<close>

definition dict_mapping :: "semconv \<Rightarrow> FrameMappingData option \<Rightarrow> dict \<Rightarrow> nat \<times> dict" where
  "dict_mapping sc mapping d =
     (case AddWithCheck mapping (d_mappings d) of
        ((i, True), _) \<Rightarrow> (i, d)
      | ((i, False), ms) \<Rightarrow>
          (case mapping of
             None \<Rightarrow> (i, d\<lparr>d_mappings := ms\<rparr>)
           | Some m \<Rightarrow>
               let mf = fm_File m;
                   d = d\<lparr>d_mappings := ms\<rparr>;
                   (name, d) = add_string (ff_FileName mf) d;
                   (attrs, d) = AppendOptionalString (sc_BuildIDGNU sc) (ff_GnuBuildID mf) [] d;
                   (attrs, d) = AppendOptionalString (sc_BuildIDGo sc) (ff_GoBuildID mf) attrs d;
                   (attrs, d) = AppendOptionalString (sc_BuildIDHtlhash sc) (StringNoQuotes (ff_FileID mf)) attrs d
               in (i, d\<lparr>t_mappings := t_mappings d @
                    [\<lparr>mr_start = fm_Start m, mr_end = fm_End m, mr_offset = fm_FileOffset m, mr_filename = name, mr_attrs = attrs\<rparr>]\<rparr>)))"

definition has_line :: "Frame \<Rightarrow> bool" where "has_line frame \<longleftrightarrow> fr_FunctionName frame \<noteq> [] \<or> fr_SourceFile frame \<noteq> []"

definition frame_location :: "nat \<Rightarrow> Frame \<Rightarrow> dict \<Rightarrow> locationInfo \<times> dict" where
  "frame_location mapping frame d =
     (let loc = locationInfo_zero\<lparr>li_address := fr_AddressOrLineno frame, li_frameType := fr_Type frame, li_mappingIndex := mapping\<rparr>
      in if has_line frame
         then let (name, d) = add_string (fr_FunctionName frame) d;
                  (file, d) = add_string (fr_SourceFile frame) d;
                  (f, d) = add_func (name, file) d
              in (loc\<lparr>li_hasLine := True, li_lineNumber := fr_SourceLine frame, li_columnNumber := fr_SourceColumn frame, li_functionIndex := f\<rparr>, d)
         else (loc, d))"

definition add_location :: "semconv \<Rightarrow> locationInfo \<Rightarrow> dict \<Rightarrow> nat \<times> dict" where
  "add_location sc loc d =
     (case AddWithCheck loc (d_locs d) of
        ((i, True), _) \<Rightarrow> (i, d)
      | ((i, False), ls) \<Rightarrow>
          let (attrs, d) = AppendOptionalString (sc_FrameType sc) (ft_String (li_frameType loc)) [] (d\<lparr>d_locs := ls\<rparr>)
          in (i, d\<lparr>t_locs := t_locs d @
               [\<lparr>lr_address = li_address loc, lr_mapping = li_mappingIndex loc,
                 lr_line = (if li_hasLine loc then Some (li_lineNumber loc, li_columnNumber loc, li_functionIndex loc) else None),
                 lr_attrs = attrs\<rparr>]\<rparr>))"

definition add_frame :: "semconv \<Rightarrow> Frame \<Rightarrow> dict \<Rightarrow> nat \<times> dict" where
  "add_frame sc frame d =
     (let (m, d) = dict_mapping sc (fr_Mapping frame) d;
          (loc, d) = frame_location m frame d
      in add_location sc loc d)"

fun add_frames :: "semconv \<Rightarrow> Frame list \<Rightarrow> dict \<Rightarrow> nat list \<times> dict" where
  "add_frames sc [] d = ([], d)"
| "add_frames sc (f # fs) d = (let (i, d) = add_frame sc f d; (is, d) = add_frames sc fs d in (i # is, d))"

definition le_u32_bytes :: "u32 \<Rightarrow> byte list" where
  "le_u32_bytes w = [ucast w, ucast (drop_bit 8 w), ucast (drop_bit 16 w), ucast (drop_bit 24 w)]"

definition hashLocationIndices :: "nat list \<Rightarrow> u64" where
  "hashLocationIndices is = fnv64a (concat (map (\<lambda>i. le_u32_bytes (word_of_nat i)) is))"

definition add_stack :: "nat list \<Rightarrow> dict \<Rightarrow> nat \<times> dict" where
  "add_stack is d =
     (case AddWithCheck (hashLocationIndices is) (d_stacks d) of
        ((i, True), _) \<Rightarrow> (i, d)
      | ((i, False), ss) \<Rightarrow> (i, d\<lparr>d_stacks := ss, t_stacks := t_stacks d @ [is]\<rparr>))"

section \<open>Profiles\<close>

record sample =
  s_Timestamps :: "u64 list"
  s_Values :: "int64 list"
  s_LinkIndex :: nat
  s_StackIndex :: nat
  s_AttributeIndices :: "nat list"

definition add_link :: "'x SampleKey \<Rightarrow> dict \<Rightarrow> nat \<times> dict" where
  "add_link key d =
     (if sk_SpanID key \<noteq> InvalidAPMSpanID \<and> sk_TraceID key \<noteq> InvalidAPMTraceID
      then (case AddWithCheck (sk_SpanID key, sk_TraceID key) (d_links d) of
              ((i, True), _) \<Rightarrow> (i, d)
            | ((i, False), ls) \<Rightarrow> (i, d\<lparr>d_links := ls, t_links := t_links d @ [(sk_SpanID key, sk_TraceID key)]\<rparr>))
      else (0, d))"

fun add_labels :: "(string \<times> string) list \<Rightarrow> nat list \<Rightarrow> dict \<Rightarrow> nat list \<times> dict" where
  "add_labels [] attrs d = (attrs, d)"
| "add_labels ((k, v) # ls) attrs d =
     (let (attrs, d) = AppendOptionalString (''process.context.label.'' @ k) v attrs d in add_labels ls attrs d)"

definition sample_attrs ::
  "semconv \<Rightarrow> ('x option \<Rightarrow> dict \<Rightarrow> nat list \<times> dict) option \<Rightarrow> 'x SampleKey \<Rightarrow> TraceEvents \<Rightarrow> dict \<Rightarrow> nat list \<times> dict" where
  "sample_attrs sc extraProd key info d =
     (let (attrs, d) = add_labels (ev_Labels info) [] d;
          (attrs, d) = AppendOptionalString (sc_ThreadName sc) (bytes_string (CString (sk_Comm key))) attrs d;
          (attrs, d) = attr_AppendInt (sc_ThreadID sc) (sk_TID key) attrs d;
          (attrs, d) = attr_AppendInt (sc_CPU sc) (sk_CPU key) attrs d
      in case extraProd of
           None \<Rightarrow> (attrs, d)
         | Some f \<Rightarrow> (let (extra, d) = f (sk_ExtraMeta key) d in (attrs @ extra, d)))"

definition add_sample ::
  "semconv \<Rightarrow> ('x option \<Rightarrow> dict \<Rightarrow> nat list \<times> dict) option \<Rightarrow> bool \<Rightarrow> 'x SampleKey \<times> TraceEvents \<Rightarrow> dict \<Rightarrow> sample \<times> dict" where
  "add_sample sc extraProd reportValues ki d =
     (let (key, info) = ki;
          (link, d) = add_link key d;
          (is, d) = add_frames sc (ev_Frames info) d;
          (stack, d) = add_stack is d;
          (attrs, d) = sample_attrs sc extraProd key info d
      in (\<lparr>s_Timestamps = ev_Timestamps info, s_Values = (if reportValues then ev_Values info else []), s_LinkIndex = link,
           s_StackIndex = stack, s_AttributeIndices = attrs\<rparr>, d))"

fun add_samples ::
  "semconv \<Rightarrow> ('x option \<Rightarrow> dict \<Rightarrow> nat list \<times> dict) option \<Rightarrow> bool \<Rightarrow> ('x SampleKey \<times> TraceEvents) list \<Rightarrow> dict \<Rightarrow> sample list \<times> dict" where
  "add_samples sc extraProd rv [] d = ([], d)"
| "add_samples sc extraProd rv (ki # kis) d =
     (let (s, d) = add_sample sc extraProd rv ki d; (ss, d) = add_samples sc extraProd rv kis d in (s # ss, d))"

record profile =
  p_Period :: int64
  p_PeriodType :: "nat \<times> nat"
  p_SampleType :: "nat \<times> nat"
  p_Samples :: "sample list"
  p_DurationNano :: u64
  p_Time :: u64

text \<open>Times are nanoseconds since the epoch; a difference of times saturates. A sampling frequency of zero makes the division panic.\<close>

definition time_Sub :: "int \<Rightarrow> int \<Rightarrow> int" where "time_Sub t u = max (- (2 ^ 63)) (min (2 ^ 63 - 1) (t - u))"

definition trunc_div :: "int \<Rightarrow> int \<Rightarrow> int" where "trunc_div a b = sgn a * sgn b * (abs a div abs b)"

record 'x pdata =
  pd_samplesPerSecond :: int64
  pd_extra :: "('x option \<Rightarrow> dict \<Rightarrow> nat list \<times> dict) option"

text \<open>The period of a profile type that has one, with its type and unit.\<close>

definition set_period :: "'x pdata \<Rightarrow> TypeMetadata \<Rightarrow> dict \<Rightarrow> ((int64 \<times> nat \<times> nat) \<times> dict) option" where
  "set_period p ty d =
     (if ty_PeriodType ty = [] then Some ((0, 0, 0), d)
      else if pd_samplesPerSecond p = 0 then None
      else
        let (t, d) = add_string (ty_PeriodType ty) d; (u, d) = add_string (ty_PeriodUnit ty) d
        in Some ((word_of_int (trunc_div (10 ^ 9) (sint (pd_samplesPerSecond p))), t, u), d))"

definition setProfile ::
  "semconv \<Rightarrow> 'x pdata \<Rightarrow> TypeMetadata \<Rightarrow> ('x SampleKey \<times> TraceEvents) list \<Rightarrow> int \<Rightarrow> int \<Rightarrow> dict \<Rightarrow> (profile \<times> dict) option" where
  "setProfile sc p ty events start stop d =
     (case set_period p ty d of
        None \<Rightarrow> None
      | Some ((period, t, u), d) \<Rightarrow>
          let (st, d) = add_string (ty_SampleType ty) d;
              (su, d) = add_string (ty_SampleUnit ty) d;
              (samples, d) = add_samples sc (pd_extra p) (ty_ReportValues ty) events d
          in Some (\<lparr>p_Period = period, p_PeriodType = (t, u), p_SampleType = (st, su), p_Samples = samples,
                    p_DurationNano = word_of_int (time_Sub stop start), p_Time = word_of_int start\<rparr>, d))"

section \<open>Generation\<close>

record resource_profiles =
  rp_Attributes :: "(string \<times> attr_value) list"
  rp_Scope :: "string \<times> string"
  rp_Profiles :: "profile list"

fun put_attr :: "string \<Rightarrow> attr_value \<Rightarrow> (string \<times> attr_value) list \<Rightarrow> (string \<times> attr_value) list" where
  "put_attr k v [] = [(k, v)]"
| "put_attr k v ((k', v') # as) = (if k = k' then (k, v) # as else (k', v') # put_attr k v as)"

definition path_base :: "string \<Rightarrow> string" where
  "path_base p = rev (takeWhile (\<lambda>c. c \<noteq> CHR ''/'') (rev p))"

definition put_optional :: "string \<Rightarrow> string \<Rightarrow> (string \<times> attr_value) list \<Rightarrow> (string \<times> attr_value) list" where
  "put_optional k v as = (if v = [] then as else put_attr k (AttrStr v) as)"

definition setResourceAttributes :: "semconv \<Rightarrow> ResourceKey \<Rightarrow> (string \<times> string) list \<Rightarrow> (string \<times> attr_value) list" where
  "setResourceAttributes sc resource envVars =
     (let as = put_optional (sc_ServiceName sc) (rk_APMServiceName resource) [];
          as = put_optional (sc_ContainerID sc) (rk_ContainerID resource) as;
          as = put_attr (sc_ProcessPID sc) (AttrInt (rk_PID resource)) as;
          as = (if rk_ExecutablePath resource = [] then as
                else put_attr (sc_ExecutableName sc) (AttrStr (path_base (rk_ExecutablePath resource)))
                       (put_attr (sc_ExecutablePath sc) (AttrStr (rk_ExecutablePath resource)) as))
      in fold (\<lambda>(k, v). put_attr (''process.environment_variable.'' @ k) (AttrStr v)) envVars as)"

definition tree_timestamps :: "('p, 'x) TraceEventsTree \<Rightarrow> u64 list" where
  "tree_timestamps tree = concat (map (\<lambda>(_, r). concat (map (\<lambda>(_, es). concat (map (\<lambda>(_, e). ev_Timestamps e) es)) (rp_Events r))) tree)"

definition adjusted_start :: "('p, 'x) TraceEventsTree \<Rightarrow> int \<Rightarrow> int" where
  "adjusted_start tree start = fold (\<lambda>ts t. if sint ts < t then sint ts else t) (tree_timestamps tree) start"

definition profile_types :: "('p \<Rightarrow> TypeMetadata) \<Rightarrow> ('p, 'x) TraceEventsTree \<Rightarrow> 'p list" where
  "profile_types meta tree =
     sort_key (\<lambda>ty. (ty_SampleType (meta ty), ty_PeriodType (meta ty))) (remdups (concat (map (\<lambda>(_, r). map fst (rp_Events r)) tree)))"

fun set_profiles ::
  "semconv \<Rightarrow> 'x pdata \<Rightarrow> ('p \<Rightarrow> TypeMetadata) \<Rightarrow> 'p list \<Rightarrow> ('p, 'x) ResourceToProfiles \<Rightarrow> int \<Rightarrow> int \<Rightarrow> dict \<Rightarrow> (profile list \<times> dict) option" where
  "set_profiles sc p meta [] r start stop d = Some ([], d)"
| "set_profiles sc p meta (ty # tys) r start stop d =
     (case map_of (rp_Events r) ty of
        None \<Rightarrow> set_profiles sc p meta tys r start stop d
      | Some [] \<Rightarrow> set_profiles sc p meta tys r start stop d
      | Some (e # es) \<Rightarrow> do {
          (prof, d) \<leftarrow> setProfile sc p (meta ty) (e # es) start stop d;
          (profs, d) \<leftarrow> set_profiles sc p meta tys r start stop d;
          Some (prof # profs, d) })"

fun set_resources ::
  "semconv \<Rightarrow> 'x pdata \<Rightarrow> ('p \<Rightarrow> TypeMetadata) \<Rightarrow> 'p list \<Rightarrow> string \<times> string \<Rightarrow> int \<Rightarrow> int \<Rightarrow> ('p, 'x) TraceEventsTree \<Rightarrow> dict \<Rightarrow>
     (resource_profiles list \<times> dict) option" where
  "set_resources sc p meta tys agent start stop [] d = Some ([], d)"
| "set_resources sc p meta tys agent start stop ((key, r) # tree) d =
     (if rp_Events r = [] then set_resources sc p meta tys agent start stop tree d
      else do {
        (profs, d) \<leftarrow> set_profiles sc p meta tys r start stop d;
        (rps, d) \<leftarrow> set_resources sc p meta tys agent start stop tree d;
        Some (\<lparr>rp_Attributes = setResourceAttributes sc key (rp_EnvVars r), rp_Scope = agent, rp_Profiles = profs\<rparr> # rps, d) })"

text \<open>
  \<open>Generate\<close>: the profiles and the dictionary, of which the tables of strings and functions are filled from their sets at the
  end.
\<close>

definition Generate ::
  "semconv \<Rightarrow> 'x pdata \<Rightarrow> ('p \<Rightarrow> TypeMetadata) \<Rightarrow> string \<times> string \<Rightarrow> int \<Rightarrow> int \<Rightarrow> ('p, 'x) TraceEventsTree \<Rightarrow> (resource_profiles list \<times> dict) option" where
  "Generate sc p meta agent start stop tree =
     set_resources sc p meta (profile_types meta tree) agent (adjusted_start tree start) stop tree dict_empty"

end
