(* ===== verification/ReporterProps.thy ===== *)
theory ReporterProps
  imports Reporter ProcessMapsProps
begin

text \<open>
  Correctness of the reporter: the tree holds every reported event under its keys, and the dictionary of a generated profile resolves the
  stack of every sample to the frames that were collected. The hash of a trace and the keys of attributes, which both are
  less than what they stand for, and what that merges.
\<close>

unbundle bit_operations_syntax

section \<open>Collected events\<close>

definition tree_lookup :: "('p, 'x) TraceEventsTree \<Rightarrow> ResourceKey \<Rightarrow> 'p \<Rightarrow> 'x SampleKey \<Rightarrow> TraceEvents option" where
  "tree_lookup tree k ty sk =
     (case map_of tree k of
        None \<Rightarrow> None
      | Some r \<Rightarrow> (case map_of (rp_Events r) ty of None \<Rightarrow> None | Some es \<Rightarrow> map_of es sk))"

definition has_keys :: "(Trace \<Rightarrow> 'p option TraceEventMeta \<Rightarrow> 'x) option \<Rightarrow> ResourceKey \<Rightarrow> 'p \<Rightarrow> 'x SampleKey \<Rightarrow> Trace \<times> 'p option TraceEventMeta \<Rightarrow> bool" where
  "has_keys producer k ty sk e \<longleftrightarrow> te_ProfileType (snd e) = Some ty \<and> resource_key (snd e) = k \<and>
     sample_key (map_option (\<lambda>f. f (fst e) (snd e)) producer) (fst e) (snd e) = sk"

definition report_all ::
  "(Trace \<Rightarrow> 'p option TraceEventMeta \<Rightarrow> 'x) option \<Rightarrow> (Trace \<times> 'p option TraceEventMeta) list \<Rightarrow> ('p, 'x) TraceEventsTree \<Rightarrow> ('p, 'x) TraceEventsTree" where
  "report_all producer es tree = fold (\<lambda>(t, m) tree. snd (ReportTraceEvent producer t m tree)) es tree"

definition collected_events :: "(Trace \<times> 'q TraceEventMeta) list \<Rightarrow> TraceEvents option" where
  "collected_events es =
     (case es of
        [] \<Rightarrow> None
      | (t, m) # _ \<Rightarrow> Some \<lparr>ev_Labels = tr_CustomLabels t, ev_Frames = tr_Frames t, ev_Timestamps = map (te_Timestamp \<circ> snd) es, ev_Values = map (te_Value \<circ> snd) es\<rparr>)"

lemma map_of_alter: "map_of (map_alter k f xs) k' = (if k = k' then Some (f (map_of xs k)) else map_of xs k')"
  by (induction xs) auto

lemma lookup_report:
  "tree_lookup (snd (ReportTraceEvent producer t m tree)) k ty sk =
     (if has_keys producer k ty sk (t, m) then Some (add_event t m (tree_lookup tree k ty sk)) else tree_lookup tree k ty sk)"
  by (auto simp: ReportTraceEvent_def tree_lookup_def has_keys_def map_of_alter Let_def split: option.splits)

lemma collected_snoc: "collected_events (es @ [(t, m)]) = Some (add_event t m (collected_events es))"
  by (auto simp: collected_events_def add_event_def split: list.splits prod.splits)

lemma report_all_lookup: "tree_lookup (report_all producer es []) k ty sk = collected_events (filter (has_keys producer k ty sk) es)"
proof (induction es rule: rev_induct)
  case Nil
  show ?case by (simp add: report_all_def tree_lookup_def collected_events_def)
next
  case (snoc e es)
  obtain t m where e: "e = (t, m)" by (cases e)
  have "report_all producer (es @ [e]) [] = snd (ReportTraceEvent producer t m (report_all producer es []))" by (simp add: report_all_def e)
  then show ?case using snoc lookup_report [of producer t m "report_all producer es []" k ty sk] by (auto simp: e collected_snoc)
qed

text \<open>
  C8: Whatever traces are reported in whatever order, the tree has under every combination of keys the timestamps and the values of exactly the
  events with these keys, in the order of their arrival, with the frames and labels of the first of them; events without a
  profile type are left out.
\<close>

theorem report_collects:
  "tree_lookup (report_all producer es []) k ty sk = collected_events (filter (has_keys producer k ty sk) es)"
  by (rule report_all_lookup)


definition named_trace :: "string \<Rightarrow> Trace" where
  "named_trace f = \<lparr>tr_CustomLabels = [], tr_Frames = [Frame_zero\<lparr>fr_FunctionName := f, fr_SourceFile := ''a.py'', fr_SourceLine := 3\<rparr>]\<rparr>"

definition example_event :: "unit option TraceEventMeta" where
  "example_event = \<lparr>te_Timestamp = 17, te_Comm = [112, 0], te_PID = 7, te_TID = 8, te_APMServiceName = [], te_CPU = 1, te_ExecutablePath = ''/bin/p'',
     te_ContainerID = [], te_ProfileType = Some (), te_Value = 1, te_EnvVars = [], te_TraceID = InvalidAPMTraceID, te_SpanID = InvalidAPMSpanID\<rparr>"


section \<open>Resolving a profile\<close>

text \<open>What a frame says, and what a row of the table of locations says with the dictionary.\<close>

type_synonym frame_content = "u64 \<times> (u64 \<times> u64 \<times> u64 \<times> string) \<times> (int64 \<times> int64 \<times> string \<times> string) option"

definition mapping_view :: "FrameMappingData option \<Rightarrow> u64 \<times> u64 \<times> u64 \<times> string" where
  "mapping_view m = (case m of None \<Rightarrow> (0, 0, 0, []) | Some m \<Rightarrow> (fm_Start m, fm_End m, fm_FileOffset m, ff_FileName (fm_File m)))"

definition frame_view :: "Frame \<Rightarrow> frame_content" where
  "frame_view f = (fr_AddressOrLineno f, mapping_view (fr_Mapping f),
     if has_line f then Some (fr_SourceLine f, fr_SourceColumn f, fr_FunctionName f, fr_SourceFile f) else None)"

definition row_mapping :: "dict \<Rightarrow> mapping_row \<Rightarrow> u64 \<times> u64 \<times> u64 \<times> string" where
  "row_mapping d r = (mr_start r, mr_end r, mr_offset r, d_strings d ! mr_filename r)"

definition row_view :: "dict \<Rightarrow> location_row \<Rightarrow> frame_content" where
  "row_view d r = (lr_address r, row_mapping d (t_mappings d ! lr_mapping r),
     map_option (\<lambda>(l, c, f). (l, c, d_strings d ! fst (d_funcs d ! f), d_strings d ! snd (d_funcs d ! f))) (lr_line r))"

definition info_row :: "locationInfo \<Rightarrow> location_row \<Rightarrow> bool" where
  "info_row i r \<longleftrightarrow> lr_address r = li_address i \<and> lr_mapping r = li_mappingIndex i \<and>
     lr_line r = (if li_hasLine i then Some (li_lineNumber i, li_columnNumber i, li_functionIndex i) else None)"

text \<open>The invariant of the dictionary.\<close>

definition dict_ok :: "dict \<Rightarrow> bool" where
  "dict_ok d \<longleftrightarrow>
     list_all2 (\<lambda>m r. row_mapping d r = mapping_view m \<and> mr_filename r < length (d_strings d)) (d_mappings d) (t_mappings d) \<and> None \<in> set (d_mappings d) \<and>
     list_all (\<lambda>(a, b). a < length (d_strings d) \<and> b < length (d_strings d)) (d_funcs d) \<and> d_funcs d \<noteq> [] \<and>
     list_all2 info_row (d_locs d) (t_locs d) \<and>
     list_all (\<lambda>i. li_mappingIndex i < length (d_mappings d) \<and> li_functionIndex i < length (d_funcs d)) (d_locs d) \<and>
     (\<exists>ss. t_stacks d = [] # ss \<and> d_stacks d = 0 # map hashLocationIndices ss)"

definition grows :: "'a list \<Rightarrow> 'a list \<Rightarrow> bool" where "grows xs ys \<longleftrightarrow> (\<exists>zs. ys = xs @ zs)"

lemma grows_refl [simp]: "grows xs xs" by (simp add: grows_def)
lemma grows_append [simp]: "grows xs (xs @ ys)" by (simp add: grows_def)
lemma grows_trans: "grows xs ys \<Longrightarrow> grows ys zs \<Longrightarrow> grows xs zs" by (auto simp: grows_def)
lemma grows_nth: "grows xs ys \<Longrightarrow> i < length xs \<Longrightarrow> ys ! i = xs ! i \<and> i < length ys" by (auto simp: grows_def nth_append)

definition extends :: "dict \<Rightarrow> dict \<Rightarrow> bool" where
  "extends d d' \<longleftrightarrow> grows (d_strings d) (d_strings d') \<and> grows (d_funcs d) (d_funcs d') \<and> grows (d_mappings d) (d_mappings d') \<and> grows (t_mappings d) (t_mappings d') \<and>
     grows (d_locs d) (d_locs d') \<and> grows (t_locs d) (t_locs d') \<and> grows (t_stacks d) (t_stacks d')"

lemma extends_refl [simp]: "extends d d" by (simp add: extends_def)
lemma extends_trans: "extends d d1 \<Longrightarrow> extends d1 d2 \<Longrightarrow> extends d d2" unfolding extends_def by (meson grows_trans)

text \<open>A step that adds strings only, besides what the invariant does not speak of.\<close>

definition strings_only :: "dict \<Rightarrow> dict \<Rightarrow> bool" where
  "strings_only d d' \<longleftrightarrow> grows (d_strings d) (d_strings d') \<and> d_funcs d' = d_funcs d \<and> d_mappings d' = d_mappings d \<and> t_mappings d' = t_mappings d \<and>
     d_locs d' = d_locs d \<and> t_locs d' = t_locs d \<and> d_stacks d' = d_stacks d \<and> t_stacks d' = t_stacks d"

lemma strings_only_refl [simp]: "strings_only d d" by (simp add: strings_only_def)
lemma strings_only_trans: "strings_only d d1 \<Longrightarrow> strings_only d1 d2 \<Longrightarrow> strings_only d d2"
  unfolding strings_only_def by (metis grows_trans)
lemma strings_only_extends: "strings_only d d' \<Longrightarrow> extends d d'" by (simp add: strings_only_def extends_def)

lemma row_mapping_grows: "grows (d_strings d) (d_strings d') \<Longrightarrow> mr_filename r < length (d_strings d) \<Longrightarrow> row_mapping d' r = row_mapping d r"
  by (simp add: row_mapping_def grows_nth)

lemma strings_only_ok:
  assumes "strings_only d d'" "dict_ok d"
  shows "dict_ok d'"
proof -
  have g: "grows (d_strings d) (d_strings d')" using assms(1) by (simp add: strings_only_def)
  then have l: "length (d_strings d) \<le> length (d_strings d')" by (auto simp: grows_def)
  have "list_all2 (\<lambda>m r. row_mapping d' r = mapping_view m \<and> mr_filename r < length (d_strings d')) (d_mappings d) (t_mappings d)"
    using assms(2) l row_mapping_grows [OF g] by (auto simp: dict_ok_def elim!: list_all2_mono)
  moreover have "list_all (\<lambda>(a, b). a < length (d_strings d') \<and> b < length (d_strings d')) (d_funcs d)"
    using assms(2) l by (auto simp: dict_ok_def list_all_iff)
  ultimately show ?thesis using assms by (simp add: dict_ok_def strings_only_def)
qed

subsection \<open>The parts of a frame\<close>

lemma index_of_Some: "index_of x xs = Some i \<Longrightarrow> i < length xs \<and> xs ! i = x"
  by (induction xs arbitrary: i) (auto split: if_splits)

lemma index_of_None: "index_of x xs = None \<Longrightarrow> x \<notin> set xs"
  by (induction xs) (auto split: if_splits)

lemma AddWithCheckE:
  assumes "AddWithCheck k os = ((i, b), os')"
  obtains (old) "b" "os' = os" "i < length os" "os ! i = k" | (new) "\<not> b" "os' = os @ [k]" "i = length os" "k \<notin> set os"
  using assms index_of_Some [of k os] index_of_None [of k os] by (auto simp: AddWithCheck_def split: option.splits)

lemma add_string_ok:
  assumes "add_string s d = (i, d')"
  shows "strings_only d d' \<and> i < length (d_strings d') \<and> d_strings d' ! i = s"
proof -
  obtain b ss where a: "AddWithCheck s (d_strings d) = ((i, b), ss)" "d' = d\<lparr>d_strings := ss\<rparr>"
    using assms by (auto simp: add_string_def os_Add_def split: prod.splits)
  from a(1) show ?thesis by (cases rule: AddWithCheckE) (auto simp: a(2) strings_only_def)
qed

lemma strings_only_attrs: "strings_only d d' \<Longrightarrow> strings_only d (d'\<lparr>t_attrs := x, d_indices := y\<rparr>)"
  by (simp add: strings_only_def)

lemma appendAny_strings:
  assumes "appendAny key ck v as d = (as', d')"
  shows "strings_only d d'"
proof -
  obtain k d1 where k: "add_string key d = (k, d1)" by fastforce
  then show ?thesis using assms add_string_ok [OF k] strings_only_attrs [of d d1] by (auto simp: appendAny_def Let_def split: option.splits)
qed

lemma AppendOptionalString_strings: "AppendOptionalString key v as d = (as', d') \<Longrightarrow> strings_only d d'"
  using appendAny_strings by (auto simp: AppendOptionalString_def split: if_splits)

lemma attr_AppendInt_strings: "attr_AppendInt key v as d = (as', d') \<Longrightarrow> strings_only d d'"
  using appendAny_strings by (auto simp: attr_AppendInt_def)

lemma dict_mapping_ok:
  assumes "dict_ok d" "dict_mapping sc m d = (i, d')"
  shows "dict_ok d' \<and> extends d d' \<and> i < length (d_mappings d') \<and> d_mappings d' ! i = m"
proof -
  obtain j b ms where a: "AddWithCheck m (d_mappings d) = ((j, b), ms)" by (metis prod.collapse)
  from a show ?thesis
  proof (cases rule: AddWithCheckE)
    case old
    then show ?thesis using a assms by (simp add: dict_mapping_def)
  next
    case new
    then obtain m' where m: "m = Some m'" using assms(1) by (cases m) (auto simp: dict_ok_def)
    let ?d = "d\<lparr>d_mappings := d_mappings d @ [m]\<rparr>"
    obtain name d1 where d1: "add_string (ff_FileName (fm_File m')) ?d = (name, d1)" by fastforce
    obtain as1 d2 where d2: "AppendOptionalString (sc_BuildIDGNU sc) (ff_GnuBuildID (fm_File m')) [] d1 = (as1, d2)" by fastforce
    obtain as2 d3 where d3: "AppendOptionalString (sc_BuildIDGo sc) (ff_GoBuildID (fm_File m')) as1 d2 = (as2, d3)" by fastforce
    obtain as3 d4 where d4: "AppendOptionalString (sc_BuildIDHtlhash sc) (StringNoQuotes (ff_FileID (fm_File m'))) as2 d3 = (as3, d4)" by fastforce
    let ?r = "\<lparr>mr_start = fm_Start m', mr_end = fm_End m', mr_offset = fm_FileOffset m', mr_filename = name, mr_attrs = as3\<rparr>"
    have r: "i = length (d_mappings d)" "d' = d4\<lparr>t_mappings := t_mappings d4 @ [?r]\<rparr>"
      using assms(2) a new m d1 d2 d3 d4 by (simp_all add: dict_mapping_def Let_def)
    have s1: "strings_only ?d d1" "name < length (d_strings d1)" "d_strings d1 ! name = ff_FileName (fm_File m')" using add_string_ok [OF d1] by auto
    have s2: "strings_only d1 d4" using AppendOptionalString_strings d2 d3 d4 strings_only_trans by meson
    have n: "name < length (d_strings d4)" "d_strings d4 ! name = ff_FileName (fm_File m')"
      using s1 s2 grows_nth [of "d_strings d1" "d_strings d4" name] by (auto simp: strings_only_def)
    have f: "d_funcs d4 = d_funcs d" "d_mappings d4 = d_mappings d @ [m]" "t_mappings d4 = t_mappings d" "d_locs d4 = d_locs d" "t_locs d4 = t_locs d"
      "d_stacks d4 = d_stacks d" "t_stacks d4 = t_stacks d" "grows (d_strings d) (d_strings d4)"
      using s1(1) s2 by (auto simp: strings_only_def elim: grows_trans)
    have "strings_only d (d4\<lparr>d_mappings := d_mappings d\<rparr>)" using f by (simp add: strings_only_def)
    from strings_only_ok [OF this assms(1)] have ok: "dict_ok (d4\<lparr>d_mappings := d_mappings d\<rparr>)" .
    have "row_mapping d' x = row_mapping (d4\<lparr>d_mappings := d_mappings d\<rparr>) x" for x by (simp add: row_mapping_def r(2))
    then have "dict_ok d'" using ok f n m by (auto simp: dict_ok_def r(2) row_mapping_def mapping_view_def less_Suc_eq list_all_iff intro!: list_all2_appendI)
    moreover have "extends d d'" using f by (simp add: extends_def r(2))
    ultimately show ?thesis using f r by simp
  qed
qed

lemma dict_ok_lengths: "dict_ok d \<Longrightarrow> length (t_mappings d) = length (d_mappings d) \<and> length (t_locs d) = length (d_locs d)"
  by (auto simp: dict_ok_def dest: list_all2_lengthD)

text \<open>What a row says does not change when the dictionary grows.\<close>

lemma row_view_extends:
  assumes "dict_ok d" "extends d d'" "lr_mapping r < length (d_mappings d)" "\<forall>l c f. lr_line r = Some (l, c, f) \<longrightarrow> f < length (d_funcs d)"
  shows "row_view d' r = row_view d r"
proof -
  have g: "grows (d_strings d) (d_strings d')" "grows (t_mappings d) (t_mappings d')" "grows (d_funcs d) (d_funcs d')" using assms(2) by (simp_all add: extends_def)
  have m: "lr_mapping r < length (t_mappings d)" using assms(3) dict_ok_lengths [OF assms(1)] by simp
  have "mr_filename (t_mappings d ! lr_mapping r) < length (d_strings d)" using assms(1,3) by (auto simp: dict_ok_def list_all2_conv_all_nth)
  then have "row_mapping d' (t_mappings d' ! lr_mapping r) = row_mapping d (t_mappings d ! lr_mapping r)"
    using grows_nth [OF g(2) m] row_mapping_grows [OF g(1)] by simp
  moreover have "d_strings d' ! fst (d_funcs d' ! f) = d_strings d ! fst (d_funcs d ! f) \<and> d_strings d' ! snd (d_funcs d' ! f) = d_strings d ! snd (d_funcs d ! f)"
    if "f < length (d_funcs d)" for f
  proof -
    have "fst (d_funcs d ! f) < length (d_strings d)" "snd (d_funcs d ! f) < length (d_strings d)"
      using assms(1) that by (auto simp: dict_ok_def list_all_length case_prod_beta)
    then show ?thesis using grows_nth [OF g(3) that] grows_nth [OF g(1)] by simp
  qed
  ultimately show ?thesis using assms(4) by (auto simp: row_view_def split: option.splits intro!: option.map_cong0)
qed

subsection \<open>Locations\<close>

lemma add_func_ok:
  assumes "dict_ok d" "fst f < length (d_strings d)" "snd f < length (d_strings d)" "add_func f d = (i, d')"
  shows "dict_ok d' \<and> extends d d' \<and> i < length (d_funcs d') \<and> d_funcs d' ! i = f"
proof -
  obtain b fs where a: "AddWithCheck f (d_funcs d) = ((i, b), fs)" "d' = d\<lparr>d_funcs := fs\<rparr>"
    using assms(4) by (auto simp: add_func_def os_Add_def split: prod.splits)
  have r: "row_mapping (d\<lparr>d_funcs := x\<rparr>) = row_mapping d" for x by (simp add: row_mapping_def fun_eq_iff)
  from a(1) show ?thesis
  proof (cases rule: AddWithCheckE)
    case old
    then show ?thesis using assms(1) by (simp add: a(2))
  next
    case new
    then show ?thesis using assms(1-3) by (auto simp: a(2) dict_ok_def r extends_def list_all_iff less_Suc_eq)
  qed
qed

lemma frame_location_ok:
  assumes "dict_ok d" "m < length (d_mappings d)" "frame_location m f d = (loc, d')"
  shows "dict_ok d' \<and> extends d d' \<and> li_address loc = fr_AddressOrLineno f \<and> li_mappingIndex loc = m \<and> li_functionIndex loc < length (d_funcs d') \<and>
    li_hasLine loc = has_line f \<and> (has_line f \<longrightarrow> li_lineNumber loc = fr_SourceLine f \<and> li_columnNumber loc = fr_SourceColumn f \<and>
       d_strings d' ! fst (d_funcs d' ! li_functionIndex loc) = fr_FunctionName f \<and> d_strings d' ! snd (d_funcs d' ! li_functionIndex loc) = fr_SourceFile f)"
proof (cases "has_line f")
  case False
  then show ?thesis using assms by (auto simp: frame_location_def locationInfo_zero_def dict_ok_def)
next
  case True
  obtain n d1 where d1: "add_string (fr_FunctionName f) d = (n, d1)" by fastforce
  obtain k d2 where d2: "add_string (fr_SourceFile f) d1 = (k, d2)" by fastforce
  obtain i d3 where d3: "add_func (n, k) d2 = (i, d3)" by fastforce
  note s1 = add_string_ok [OF d1] and s2 = add_string_ok [OF d2]
  have n: "n < length (d_strings d2)" "d_strings d2 ! n = fr_FunctionName f"
    using s1 s2 grows_nth [of "d_strings d1" "d_strings d2" n] by (auto simp: strings_only_def)
  have ok2: "dict_ok d2" using assms(1) s1 s2 strings_only_ok by blast
  have f3: "dict_ok d3 \<and> extends d2 d3 \<and> i < length (d_funcs d3) \<and> d_funcs d3 ! i = (n, k)" using add_func_ok [OF ok2 _ _ d3] n s2 by simp
  then have g: "grows (d_strings d2) (d_strings d3)" by (simp add: extends_def)
  have "extends d d3" using s1 s2 f3 strings_only_extends extends_trans by blast
  then show ?thesis using assms(3) True f3 grows_nth [OF g] n s2 d1 d2 d3 by (auto simp: frame_location_def)
qed

lemma add_location_ok:
  assumes "dict_ok d" "li_mappingIndex loc < length (d_mappings d)" "li_functionIndex loc < length (d_funcs d)" "add_location sc loc d = (i, d')"
  shows "dict_ok d' \<and> extends d d' \<and> i < length (d_locs d') \<and> d_locs d' ! i = loc"
proof -
  obtain j b ls where a: "AddWithCheck loc (d_locs d) = ((j, b), ls)" by (metis prod.collapse)
  from a show ?thesis
  proof (cases rule: AddWithCheckE)
    case old
    then show ?thesis using a assms by (simp add: add_location_def)
  next
    case new
    let ?d = "d\<lparr>d_locs := d_locs d @ [loc]\<rparr>"
    obtain as d1 where d1: "AppendOptionalString (sc_FrameType sc) (ft_String (li_frameType loc)) [] ?d = (as, d1)" by fastforce
    let ?r = "\<lparr>lr_address = li_address loc, lr_mapping = li_mappingIndex loc,
       lr_line = (if li_hasLine loc then Some (li_lineNumber loc, li_columnNumber loc, li_functionIndex loc) else None), lr_attrs = as\<rparr>"
    have r: "i = length (d_locs d)" "d' = d1\<lparr>t_locs := t_locs d1 @ [?r]\<rparr>" using assms(4) a new d1 by (simp_all add: add_location_def)
    have s: "strings_only ?d d1" using AppendOptionalString_strings d1 by blast
    then have "strings_only d (d1\<lparr>d_locs := d_locs d\<rparr>)" by (simp add: strings_only_def)
    from strings_only_ok [OF this assms(1)] have ok: "dict_ok (d1\<lparr>d_locs := d_locs d\<rparr>)" .
    have "row_mapping (d1\<lparr>t_locs := x\<rparr>) = row_mapping (d1\<lparr>d_locs := d_locs d\<rparr>)" for x by (simp add: row_mapping_def fun_eq_iff)
    then have "dict_ok d'" using ok s assms(2,3) by (auto simp: dict_ok_def r(2) strings_only_def info_row_def intro!: list_all2_appendI)
    moreover have "extends d d'" using s by (simp add: strings_only_def extends_def r(2))
    ultimately show ?thesis using s r by (simp add: strings_only_def)
  qed
qed

definition location_view :: "dict \<Rightarrow> nat \<Rightarrow> frame_content" where "location_view d i = row_view d (t_locs d ! i)"

lemma location_row_ok:
  assumes "dict_ok d" "i < length (t_locs d)"
  shows "lr_mapping (t_locs d ! i) < length (d_mappings d) \<and> (\<forall>l c f. lr_line (t_locs d ! i) = Some (l, c, f) \<longrightarrow> f < length (d_funcs d))"
proof -
  have "i < length (d_locs d)" using assms dict_ok_lengths by simp
  then have "info_row (d_locs d ! i) (t_locs d ! i)" "li_mappingIndex (d_locs d ! i) < length (d_mappings d)" "li_functionIndex (d_locs d ! i) < length (d_funcs d)"
    using assms(1) by (auto simp: dict_ok_def list_all2_conv_all_nth list_all_length)
  then show ?thesis by (auto simp: info_row_def split: if_splits)
qed

lemma location_view_extends:
  assumes "dict_ok d" "extends d d'" "i < length (t_locs d)"
  shows "location_view d' i = location_view d i \<and> i < length (t_locs d')"
proof -
  have "grows (t_locs d) (t_locs d')" using assms(2) by (simp add: extends_def)
  from grows_nth [OF this assms(3)] show ?thesis using row_view_extends [OF assms(1,2)] location_row_ok [OF assms(1,3)] by (simp add: location_view_def)
qed

lemma add_frame_ok:
  assumes "dict_ok d" "add_frame sc f d = (i, d')"
  shows "dict_ok d' \<and> extends d d' \<and> i < length (t_locs d') \<and> location_view d' i = frame_view f"
proof -
  obtain m d1 where d1: "dict_mapping sc (fr_Mapping f) d = (m, d1)" by fastforce
  obtain loc d2 where d2: "frame_location m f d1 = (loc, d2)" by fastforce
  have d3: "add_location sc loc d2 = (i, d')" using assms(2) d1 d2 by (simp add: add_frame_def)
  note m = dict_mapping_ok [OF assms(1) d1]
  then have ok1: "dict_ok d1" and ml: "m < length (d_mappings d1)" by simp_all
  note l = frame_location_ok [OF ok1 ml d2]
  have l2: "m < length (d_mappings d2)" "d_mappings d2 ! m = fr_Mapping f" using l m grows_nth [of "d_mappings d1" "d_mappings d2" m] by (auto simp: extends_def)
  have "dict_ok d2" "li_mappingIndex loc < length (d_mappings d2)" "li_functionIndex loc < length (d_funcs d2)" using l l2 by auto
  note a = add_location_ok [OF this d3]
  then have ok: "dict_ok d'" and ext: "extends d2 d'" by simp_all
  have i: "i < length (t_locs d')" using a dict_ok_lengths [OF ok] by simp
  have row: "info_row loc (t_locs d' ! i)" using ok a by (auto simp: dict_ok_def list_all2_conv_all_nth)
  have m3: "m < length (d_mappings d')" "d_mappings d' ! m = fr_Mapping f" using l2 ext grows_nth [of "d_mappings d2" "d_mappings d'" m] by (auto simp: extends_def)
  then have mv: "row_mapping d' (t_mappings d' ! m) = mapping_view (fr_Mapping f)" using ok by (auto simp: dict_ok_def list_all2_conv_all_nth)
  have "d_funcs d' ! li_functionIndex loc = d_funcs d2 ! li_functionIndex loc" using l ext grows_nth [of "d_funcs d2" "d_funcs d'"] by (simp add: extends_def)
  moreover have "fst (d_funcs d2 ! li_functionIndex loc) < length (d_strings d2)" "snd (d_funcs d2 ! li_functionIndex loc) < length (d_strings d2)"
    using l by (auto simp: dict_ok_def list_all_length case_prod_beta)
  moreover have "grows (d_strings d2) (d_strings d')" using ext by (simp add: extends_def)
  ultimately have "location_view d' i = frame_view f"
    using row l mv by (auto simp: location_view_def row_view_def frame_view_def info_row_def grows_nth)
  moreover have "extends d d'" using m l a extends_trans by blast
  ultimately show ?thesis using ok i by simp
qed

lemma add_frames_ok:
  "dict_ok d \<Longrightarrow> add_frames sc fs d = (is, d') \<Longrightarrow>
     dict_ok d' \<and> extends d d' \<and> list_all (\<lambda>i. i < length (t_locs d')) is \<and> map (location_view d') is = map frame_view fs"
proof (induction fs arbitrary: d "is")
  case Nil
  then show ?case by simp
next
  case (Cons f fs)
  obtain i d1 where d1: "add_frame sc f d = (i, d1)" by fastforce
  obtain js where js: "add_frames sc fs d1 = (js, d')" "is = i # js" using Cons.prems(2) d1 by (auto split: prod.splits)
  note a = add_frame_ok [OF Cons.prems(1) d1]
  then have ok: "dict_ok d1" by simp
  note b = Cons.IH [OF ok js(1)]
  then show ?case using a location_view_extends [OF ok, of d' i] extends_trans by (auto simp: js(2))
qed

subsection \<open>Samples\<close>

text \<open>
  The stack at an index resolves to frames when a list of locations that says what the frames say has the hash of this stack. That the stack is this list is
  then only a matter of the hash having no collision.
\<close>

definition stack_resolves :: "dict \<Rightarrow> nat \<Rightarrow> Frame list \<Rightarrow> bool" where
  "stack_resolves d s fs \<longleftrightarrow> s < length (t_stacks d) \<and>
     (\<exists>is. list_all (\<lambda>i. i < length (t_locs d)) is \<and> map (location_view d) is = map frame_view fs \<and>
        (t_stacks d ! s = is \<or> hashLocationIndices (t_stacks d ! s) = hashLocationIndices is \<or> s = 0 \<and> hashLocationIndices is = 0))"

lemma stack_resolves_extends:
  assumes "dict_ok d" "extends d d'" "stack_resolves d s fs"
  shows "stack_resolves d' s fs"
proof -
  obtain js where js: "list_all (\<lambda>i. i < length (t_locs d)) js" "map (location_view d) js = map frame_view fs"
    "t_stacks d ! s = js \<or> hashLocationIndices (t_stacks d ! s) = hashLocationIndices js \<or> s = 0 \<and> hashLocationIndices js = 0" "s < length (t_stacks d)"
    using assms(3) by (auto simp: stack_resolves_def)
  have "map (location_view d') js = map (location_view d) js" "list_all (\<lambda>i. i < length (t_locs d')) js"
    using js(1) location_view_extends [OF assms(1,2)] by (auto simp: list_all_iff)
  moreover have "grows (t_stacks d) (t_stacks d')" using assms(2) by (simp add: extends_def)
  ultimately show ?thesis unfolding stack_resolves_def using js grows_nth [of "t_stacks d" "t_stacks d'" s] by (intro conjI exI [of _ js]) auto
qed

lemma add_stack_ok:
  assumes "dict_ok d" "list_all (\<lambda>i. i < length (t_locs d)) is" "map (location_view d) is = map frame_view fs" "add_stack is d = (s, d')"
  shows "dict_ok d' \<and> extends d d' \<and> stack_resolves d' s fs"
proof -
  obtain j b ss where a: "AddWithCheck (hashLocationIndices is) (d_stacks d) = ((j, b), ss)" by (metis prod.collapse)
  have r: "row_mapping (d\<lparr>d_stacks := x, t_stacks := y\<rparr>) = row_mapping d" for x y by (simp add: row_mapping_def fun_eq_iff)
  have v: "location_view (d\<lparr>d_stacks := x, t_stacks := y\<rparr>) = location_view d" for x y by (simp add: location_view_def row_view_def row_mapping_def fun_eq_iff)
  obtain ts where ts: "t_stacks d = [] # ts" "d_stacks d = 0 # map hashLocationIndices ts" using assms(1) by (auto simp: dict_ok_def)
  from a show ?thesis
  proof (cases rule: AddWithCheckE)
    case old
    then have d: "d' = d" "s = j" using a assms(4) by (simp_all add: add_stack_def)
    show ?thesis using assms(1-3) old d ts by (cases j) (auto simp: stack_resolves_def)
  next
    case new
    then have "d' = d\<lparr>d_stacks := d_stacks d @ [hashLocationIndices is], t_stacks := t_stacks d @ [is]\<rparr>" "s = length (t_stacks d)"
      using a assms(4) ts by (simp_all add: add_stack_def)
    then show ?thesis using assms(1-3) ts by (auto simp: stack_resolves_def dict_ok_def r v extends_def grows_def)
  qed
qed

lemma add_link_strings: "add_link key d = (i, d') \<Longrightarrow> strings_only d d'"
  by (auto simp: add_link_def strings_only_def split: if_splits prod.splits bool.splits)

lemma add_labels_strings: "add_labels ls as d = (as', d') \<Longrightarrow> strings_only d d'"
proof (induction ls arbitrary: as d)
  case (Cons l ls)
  obtain as1 d1 where "AppendOptionalString (''process.context.label.'' @ fst l) (snd l) as d = (as1, d1)" by fastforce
  then show ?case using Cons AppendOptionalString_strings strings_only_trans by (cases l) (fastforce split: prod.splits)
qed simp

text \<open>A producer of extra attributes is to add attributes and their strings to the dictionary, and nothing else.\<close>

definition extra_ok :: "('x option \<Rightarrow> dict \<Rightarrow> nat list \<times> dict) option \<Rightarrow> bool" where
  "extra_ok e \<longleftrightarrow> (\<forall>f x d. e = Some f \<longrightarrow> strings_only d (snd (f x d)))"

lemma sample_attrs_strings:
  assumes "extra_ok e" "sample_attrs sc e key info d = (as, d')"
  shows "strings_only d d'"
proof -
  obtain as1 d1 where d1: "add_labels (ev_Labels info) [] d = (as1, d1)" by fastforce
  obtain as2 d2 where d2: "AppendOptionalString (sc_ThreadName sc) (bytes_string (CString (sk_Comm key))) as1 d1 = (as2, d2)" by fastforce
  obtain as3 d3 where d3: "attr_AppendInt (sc_ThreadID sc) (sk_TID key) as2 d2 = (as3, d3)" by fastforce
  obtain as4 d4 where d4: "attr_AppendInt (sc_CPU sc) (sk_CPU key) as3 d3 = (as4, d4)" by fastforce
  have "strings_only d d4"
    using add_labels_strings [OF d1] AppendOptionalString_strings [OF d2] attr_AppendInt_strings [OF d3] attr_AppendInt_strings [OF d4]
    by (metis strings_only_trans)
  moreover have "strings_only d4 d'"
    using assms d1 d2 d3 d4 by (auto simp: sample_attrs_def extra_ok_def split: option.splits prod.splits) (metis snd_conv)
  ultimately show ?thesis by (rule strings_only_trans)
qed

definition sample_matches :: "bool \<Rightarrow> dict \<Rightarrow> sample \<Rightarrow> 'x SampleKey \<times> TraceEvents \<Rightarrow> bool" where
  "sample_matches rv d s ki \<longleftrightarrow> stack_resolves d (s_StackIndex s) (ev_Frames (snd ki)) \<and> s_Timestamps s = ev_Timestamps (snd ki) \<and>
     s_Values s = (if rv then ev_Values (snd ki) else [])"

lemma sample_matches_extends: "dict_ok d \<Longrightarrow> extends d d' \<Longrightarrow> sample_matches rv d s ki \<Longrightarrow> sample_matches rv d' s ki"
  using stack_resolves_extends by (auto simp: sample_matches_def)

lemma add_sample_ok:
  assumes "extra_ok e" "dict_ok d" "add_sample sc e rv ki d = (s, d')"
  shows "dict_ok d' \<and> extends d d' \<and> sample_matches rv d' s ki"
proof -
  obtain key info where ki: "ki = (key, info)" by fastforce
  obtain l d1 where d1: "add_link key d = (l, d1)" by fastforce
  obtain js d2 where d2: "add_frames sc (ev_Frames info) d1 = (js, d2)" by fastforce
  obtain t d3 where d3: "add_stack js d2 = (t, d3)" by fastforce
  obtain as where d4: "sample_attrs sc e key info d3 = (as, d')" and s: "s = \<lparr>s_Timestamps = ev_Timestamps info,
      s_Values = (if rv then ev_Values info else []), s_LinkIndex = l, s_StackIndex = t, s_AttributeIndices = as\<rparr>"
    using assms(3) d1 d2 d3 by (auto simp: add_sample_def ki split: prod.splits)
  note o1 = add_link_strings [OF d1]
  then have ok1: "dict_ok d1" using strings_only_ok assms(2) by blast
  note o2 = add_frames_ok [OF ok1 d2]
  then have o3: "dict_ok d3 \<and> extends d2 d3 \<and> stack_resolves d3 t (ev_Frames info)" using add_stack_ok [OF _ _ _ d3] by blast
  have o4: "strings_only d3 d'" using sample_attrs_strings [OF assms(1) d4] .
  have "extends d d'" using o1 o2 o3 o4 strings_only_extends extends_trans by meson
  moreover have "dict_ok d'" "stack_resolves d' t (ev_Frames info)" using o3 o4 strings_only_ok strings_only_extends stack_resolves_extends by blast+
  ultimately show ?thesis by (simp add: sample_matches_def s ki)
qed

lemma add_samples_ok:
  assumes "extra_ok e"
  shows "dict_ok d \<Longrightarrow> add_samples sc e rv kis d = (ss, d') \<Longrightarrow> dict_ok d' \<and> extends d d' \<and> list_all2 (sample_matches rv d') ss kis"
proof (induction kis arbitrary: d ss)
  case Nil
  then show ?case by simp
next
  case (Cons ki kis)
  obtain s d1 where d1: "add_sample sc e rv ki d = (s, d1)" by fastforce
  obtain ts where ts: "add_samples sc e rv kis d1 = (ts, d')" "ss = s # ts" using Cons.prems(2) d1 by (auto split: prod.splits)
  note a = add_sample_ok [OF assms Cons.prems(1) d1]
  then have ok: "dict_ok d1" by simp
  from Cons.IH [OF ok ts(1)] show ?case using a sample_matches_extends [OF ok, of d' rv s ki] extends_trans by (auto simp: ts(2))
qed

subsection \<open>Generated profiles\<close>

definition profile_matches :: "('p \<Rightarrow> TypeMetadata) \<Rightarrow> dict \<Rightarrow> profile \<Rightarrow> 'p \<times> ('x SampleKey \<times> TraceEvents) list \<Rightarrow> bool" where
  "profile_matches meta d prof te \<longleftrightarrow> list_all2 (sample_matches (ty_ReportValues (meta (fst te))) d) (p_Samples prof) (snd te)"

text \<open>The events of a resource for which there are profiles.\<close>

definition typed_events :: "'p list \<Rightarrow> ('p, 'x) ResourceToProfiles \<Rightarrow> ('p \<times> ('x SampleKey \<times> TraceEvents) list) list" where
  "typed_events tys r = concat (map (\<lambda>ty. case map_of (rp_Events r) ty of None \<Rightarrow> [] | Some es \<Rightarrow> if es = [] then [] else [(ty, es)]) tys)"

lemma profile_matches_extends: "dict_ok d \<Longrightarrow> extends d d' \<Longrightarrow> profile_matches meta d prof te \<Longrightarrow> profile_matches meta d' prof te"
  unfolding profile_matches_def using sample_matches_extends by (metis (no_types, lifting) list_all2_mono)

lemma set_period_strings:
  assumes "pd_samplesPerSecond p \<noteq> 0"
  obtains period t u d' where "set_period p ty d = Some ((period, t, u), d')" "strings_only d d'"
proof -
  obtain t d1 where d1: "add_string (ty_PeriodType ty) d = (t, d1)" by fastforce
  obtain u d2 where d2: "add_string (ty_PeriodUnit ty) d1 = (u, d2)" by fastforce
  have "strings_only d d2" using add_string_ok d1 d2 strings_only_trans by blast
  then show ?thesis using that assms d1 d2 by (cases "ty_PeriodType ty = []") (auto simp: set_period_def)
qed

lemma setProfile_ok:
  assumes "extra_ok (pd_extra p)" "pd_samplesPerSecond p \<noteq> 0" "dict_ok d"
  obtains prof d' where "setProfile sc p (meta ty) es start stop d = Some (prof, d')" "dict_ok d'" "extends d d'" "profile_matches meta d' prof (ty, es)"
proof -
  obtain period t u d1 where d1: "set_period p (meta ty) d = Some ((period, t, u), d1)" "strings_only d d1" using set_period_strings [OF assms(2)] .
  obtain st d2 where d2: "add_string (ty_SampleType (meta ty)) d1 = (st, d2)" by fastforce
  obtain su d3 where d3: "add_string (ty_SampleUnit (meta ty)) d2 = (su, d3)" by fastforce
  obtain ss d4 where d4: "add_samples sc (pd_extra p) (ty_ReportValues (meta ty)) es d3 = (ss, d4)" by fastforce
  have s: "strings_only d d3" using d1(2) add_string_ok [OF d2] add_string_ok [OF d3] strings_only_trans by blast
  note a = add_samples_ok [OF assms(1) strings_only_ok [OF s assms(3)] d4]
  have "extends d d4" using a s strings_only_extends extends_trans by blast
  then show ?thesis by (intro that) (use a d1 d2 d3 d4 in \<open>auto simp: setProfile_def profile_matches_def\<close>)
qed

lemma set_profiles_ok:
  assumes "extra_ok (pd_extra p)" "pd_samplesPerSecond p \<noteq> 0"
  shows "dict_ok d \<Longrightarrow> \<exists>profs d'. set_profiles sc p meta tys r start stop d = Some (profs, d') \<and> dict_ok d' \<and> extends d d' \<and>
    list_all2 (profile_matches meta d') profs (typed_events tys r)"
proof (induction tys arbitrary: d)
  case Nil
  then show ?case by (simp add: typed_events_def)
next
  case (Cons ty tys)
  show ?case
  proof (cases "map_of (rp_Events r) ty = None \<or> map_of (rp_Events r) ty = Some []")
    case True
    then show ?thesis using Cons.IH [OF Cons.prems] by (auto simp: typed_events_def)
  next
    case False
    then obtain e es where e: "map_of (rp_Events r) ty = Some (e # es)" by (metis neq_Nil_conv option.exhaust)
    obtain prof d1 where d1: "setProfile sc p (meta ty) (e # es) start stop d = Some (prof, d1)" "dict_ok d1" "extends d d1" "profile_matches meta d1 prof (ty, e # es)"
      using setProfile_ok [OF assms Cons.prems] .
    obtain profs d2 where d2: "set_profiles sc p meta tys r start stop d1 = Some (profs, d2)" "dict_ok d2" "extends d1 d2"
      "list_all2 (profile_matches meta d2) profs (typed_events tys r)" using Cons.IH [OF d1(2)] by blast
    have "profile_matches meta d2 prof (ty, e # es)" using profile_matches_extends d1 d2 by blast
    moreover have "extends d d2" using d1 d2 extends_trans by blast
    ultimately show ?thesis using d1 d2 e by (simp add: typed_events_def)
  qed
qed

definition resource_matches :: "('p \<Rightarrow> TypeMetadata) \<Rightarrow> 'p list \<Rightarrow> dict \<Rightarrow> resource_profiles \<Rightarrow> ResourceKey \<times> ('p, 'x) ResourceToProfiles \<Rightarrow> bool" where
  "resource_matches meta tys d rp kr \<longleftrightarrow> list_all2 (profile_matches meta d) (rp_Profiles rp) (typed_events tys (snd kr))"

lemma resource_matches_extends: "dict_ok d \<Longrightarrow> extends d d' \<Longrightarrow> list_all2 (profile_matches meta d) profs tes \<Longrightarrow> list_all2 (profile_matches meta d') profs tes"
  using profile_matches_extends by (metis (no_types, lifting) list_all2_mono)

lemma set_resources_ok:
  assumes "extra_ok (pd_extra p)" "pd_samplesPerSecond p \<noteq> 0"
  shows "dict_ok d \<Longrightarrow> \<exists>rps d'. set_resources sc p meta tys agent start stop tree d = Some (rps, d') \<and> dict_ok d' \<and> extends d d' \<and>
    list_all2 (resource_matches meta tys d') rps (filter (\<lambda>(_, r). rp_Events r \<noteq> []) tree)"
proof (induction tree arbitrary: d)
  case Nil
  then show ?case by simp
next
  case (Cons kr tree)
  obtain key r where kr: "kr = (key, r)" by fastforce
  show ?case
  proof (cases "rp_Events r = []")
    case True
    then show ?thesis using Cons.IH [OF Cons.prems] by (simp add: kr)
  next
    case False
    obtain profs d1 where d1: "set_profiles sc p meta tys r start stop d = Some (profs, d1)" "dict_ok d1" "extends d d1"
      "list_all2 (profile_matches meta d1) profs (typed_events tys r)" using set_profiles_ok [OF assms Cons.prems] by blast
    obtain rps d2 where d2: "set_resources sc p meta tys agent start stop tree d1 = Some (rps, d2)" "dict_ok d2" "extends d1 d2"
      "list_all2 (resource_matches meta tys d2) rps (filter (\<lambda>(_, r). rp_Events r \<noteq> []) tree)" using Cons.IH [OF d1(2)] by blast
    have "list_all2 (profile_matches meta d2) profs (typed_events tys r)" using resource_matches_extends d1 d2 by blast
    moreover have "extends d d2" using d1 d2 extends_trans by blast
    moreover have "resource_matches meta tys d2 \<lparr>rp_Attributes = as, rp_Scope = agent, rp_Profiles = profs\<rparr> (key, r)" for as
      using calculation(1) by (simp add: resource_matches_def)
    ultimately show ?thesis using d1 d2 False by (simp add: kr)
  qed
qed

lemma dict_empty_ok: "dict_ok dict_empty"
  by (simp add: dict_ok_def dict_empty_def row_mapping_def mapping_view_def info_row_def locationInfo_zero_def)

text \<open>
  C3: A generated profile says what was collected. \<open>Generate\<close> returns, there is an entry for each resource with events, in it a profile
  for each of its profile types with events, and in that a sample for each set of keys; the sample has the timestamps of its events, their
  values if the type reports them, and a stack that resolves through the final dictionary, that is its locations, mappings, functions and strings, to
  the collected frames, if the hash of the stack does not collide with another's. Rows added for later samples change nothing
  of it.
\<close>

theorem Generate_resolves:
  assumes "extra_ok (pd_extra p)" "pd_samplesPerSecond p \<noteq> 0"
  shows "\<exists>rps d. Generate sc p meta agent start stop tree = Some (rps, d) \<and>
    list_all2 (resource_matches meta (profile_types meta tree) d) rps (filter (\<lambda>(_, r). rp_Events r \<noteq> []) tree)"
  using set_resources_ok [OF assms dict_empty_ok] unfolding Generate_def by metis

definition example_semconv :: semconv where
  "example_semconv = \<lparr>sc_BuildIDGNU = ''gnu'', sc_BuildIDGo = ''go'', sc_BuildIDHtlhash = ''htlhash'', sc_FrameType = ''frame'', sc_ThreadName = ''thread.name'',
     sc_ThreadID = ''thread.id'', sc_CPU = ''cpu'', sc_ServiceName = ''service'', sc_ContainerID = ''container'', sc_ProcessPID = ''pid'',
     sc_ExecutablePath = ''path'', sc_ExecutableName = ''name''\<rparr>"

definition example_meta :: "unit \<Rightarrow> TypeMetadata" where
  "example_meta _ = \<lparr>ty_PeriodType = ''cpu'', ty_PeriodUnit = ''ns'', ty_SampleType = ''samples'', ty_SampleUnit = ''count'', ty_ReportValues = True\<rparr>"

definition example_tree :: "(unit, unit) TraceEventsTree" where
  "example_tree = report_all None [(named_trace ''f'', example_event), (named_trace ''f'', example_event)] []"

theorem Generate_resolves_witness:
  "extra_ok (None :: (unit option \<Rightarrow> dict \<Rightarrow> nat list \<times> dict) option) \<and>
   (\<exists>rps d. Generate example_semconv \<lparr>pd_samplesPerSecond = 20, pd_extra = None\<rparr> example_meta ([], []) 0 100 example_tree = Some (rps, d) \<and>
    list_all2 (resource_matches example_meta (profile_types example_meta example_tree) d) rps (filter (\<lambda>(_, r). rp_Events r \<noteq> []) example_tree))"
proof -
  have "extra_ok (pd_extra (\<lparr>pd_samplesPerSecond = 20, pd_extra = None\<rparr> :: unit pdata))" by (simp add: extra_ok_def)
  from Generate_resolves [OF this] show ?thesis by (simp add: extra_ok_def)
qed

text \<open>
  An attribute is found by its key and its value with an underscore between them, and these do not say where the key ends. The
  second of two different attributes with the same text is given the index of the first.
\<close>

theorem attributes_collide:
  assumes "k1 @ ''_'' @ v1 = k2 @ ''_'' @ v2" "v1 \<noteq> []" "v2 \<noteq> []" "map_of (d_indices d) (k1 @ ''_'' @ v1) = None"
    "AppendOptionalString k1 v1 [] d = (as1, d1)" "AppendOptionalString k2 v2 as1 d1 = (as2, d2)"
  shows "as2 = [length (t_attrs d), length (t_attrs d)] \<and> d2 = d1 \<and> snd (t_attrs d2 ! length (t_attrs d)) = AttrStr v1"
proof -
  obtain i d' where "add_string k1 d = (i, d')" by fastforce
  moreover from this have "t_attrs d' = t_attrs d" "d_indices d' = d_indices d" by (auto simp: add_string_def split: prod.splits)
  ultimately have "as1 = [length (t_attrs d)]" "map_of (d_indices d1) (k2 @ ''_'' @ v2) = Some (length (t_attrs d))" "t_attrs d1 = t_attrs d @ [(i, AttrStr v1)]"
    using assms by (auto simp: AppendOptionalString_def appendAny_def Let_def)
  then show ?thesis using assms by (auto simp: AppendOptionalString_def appendAny_def)
qed

theorem attributes_collide_witness:
  "fst (add_labels [(''x'', ''y_z''), (''x_y'', ''z'')] [] dict_empty) = [1, 1]"
proof -
  let ?k = "''process.context.label.''"
  obtain as1 d1 where d1: "AppendOptionalString (?k @ ''x'') ''y_z'' [] dict_empty = (as1, d1)" by fastforce
  obtain as2 d2 where d2: "AppendOptionalString (?k @ ''x_y'') ''z'' as1 d1 = (as2, d2)" by fastforce
  have "as2 = [length (t_attrs dict_empty), length (t_attrs dict_empty)]" using attributes_collide [OF _ _ _ _ d1 d2] by (simp add: dict_empty_def)
  then show ?thesis using d1 d2 by (simp add: dict_empty_def)
qed

end
