(* ===== verification/AsmExpr.thy ===== *)
theory AsmExpr
  imports Prelude "HOL-Library.Multiset"
begin

text \<open>
  Symbolic expressions of machine code (\<open>asm/expression\<close>): the constructors, which fold constants and distribute
  products over sums, and the matching of an expression against a pattern, which captures constants.

  A named value and a capture are objects of the code and compared by identity, which is a number here; the values that captures hold are a
  state of their own. An immediate is made by \<open>Imm\<close> only, so that the comparisons with the objects \<open>zero\<close> and \<open>one\<close> are
  comparisons of values. Operands are sorted by insertion, which is what \<open>sort.Sort\<close> does up to twelve elements; every pattern of the
  program has at most three.
\<close>

unbundle bit_operations_syntax

section \<open>Expressions\<close>

text \<open>
  The general registers of \<open>asm/amd\<close> are numbered from 1, in the order of the code, with \<open>RIP\<close> as number 17. A register of the decoder is the
  low part of a general register, \<open>RIP\<close>, a segment register, or another one; \<open>NoReg\<close> is its value 0.
\<close>

datatype x86reg = NoReg | Low8 nat | Low16 nat | Low32 nat | Full64 nat | RegRIP | RegFS | RegGS | OtherReg nat

datatype opType = OpAdd | OpMul

datatype Expression =
    immediate u64
  | named nat string
  | ImmediateCapture nat string
  | mem x86reg Expression nat
  | expr_op opType "Expression list"
  | expr_extend Expression nat bool

definition Imm :: "u64 \<Rightarrow> Expression" where "Imm v = immediate v"

definition Mem :: "Expression \<Rightarrow> nat \<Rightarrow> Expression" where "Mem at n = mem NoReg at n"
definition Mem8 :: "Expression \<Rightarrow> Expression" where "Mem8 at = Mem at 8"
definition MemWithSegment :: "x86reg \<Rightarrow> Expression \<Rightarrow> nat \<Rightarrow> Expression" where "MemWithSegment segment at n = mem segment at n"
definition MemWithSegment8 :: "x86reg \<Rightarrow> Expression \<Rightarrow> Expression" where "MemWithSegment8 segment at = MemWithSegment segment at 8"

subsection \<open>Sums\<close>

definition add_item :: "Expression \<Rightarrow> u64 \<times> Expression list \<Rightarrow> u64 \<times> Expression list" where
  "add_item it s = (case it of immediate x \<Rightarrow> (fst s + x, snd s) | _ \<Rightarrow> (fst s, snd s @ [it]))"

definition add_arg :: "Expression \<Rightarrow> u64 \<times> Expression list \<Rightarrow> u64 \<times> Expression list" where
  "add_arg it s = (case it of expr_op OpAdd os \<Rightarrow> fold add_item os s | _ \<Rightarrow> add_item it s)"

definition Add :: "Expression list \<Rightarrow> Expression" where
  "Add vs =
     (let (v, oss) = fold add_arg vs (0, [])
      in if oss = [] then Imm v
         else let oss = (if v \<noteq> 0 then oss @ [Imm v] else oss)
              in case oss of [x] \<Rightarrow> x | _ \<Rightarrow> expr_op OpAdd oss)"

subsection \<open>Products\<close>

fun mul_collect :: "Expression list \<Rightarrow> u64 \<Rightarrow> Expression list \<Rightarrow> (u64 \<times> Expression list) option" where
  "mul_collect [] v oss = Some (v, oss)"
| "mul_collect (it # vs) v oss =
     (if it = immediate 0 then None
      else if it = immediate 1 then mul_collect vs v oss
      else case it of immediate x \<Rightarrow> mul_collect vs (v * x) oss | _ \<Rightarrow> mul_collect vs v (oss @ [it]))"

text \<open>A size that is positive on every expression.\<close>

fun esize :: "Expression \<Rightarrow> nat" where
  "esize (mem s a n) = Suc (esize a)"
| "esize (expr_op t os) = Suc (sum_list (map esize os))"
| "esize (expr_extend v n s) = Suc (esize v)"
| "esize _ = 1"

lemma esize_pos [simp]: "0 < esize e" by (cases e) auto

lemma mul_collect_size:
  "mul_collect vs v oss = Some (v', oss') \<Longrightarrow>
     sum_list (map esize oss') + (if v' = v then 0 else 1) \<le> sum_list (map esize oss) + sum_list (map esize vs)"
proof (induction vs v oss rule: mul_collect.induct)
  case (2 it vs v oss)
  show ?case
  proof (cases it)
    case (immediate x)
    then have "sum_list (map esize oss') \<le> sum_list (map esize oss) + sum_list (map esize vs)" if "x \<noteq> 1"
      using 2 that by (fastforce split: if_splits)
    then show ?thesis using 2 immediate by (cases "x = 1") (auto split: if_splits)
  qed (use 2 in \<open>auto split: if_splits\<close>)
qed simp

function Multiply :: "Expression list \<Rightarrow> Expression" where
  "Multiply vs =
     (case mul_collect vs 1 [] of
        None \<Rightarrow> Imm 0
      | Some (v, oss) \<Rightarrow>
          if oss = [] then Imm v
          else (case (if v \<noteq> 1 then oss @ [Imm v] else oss) of
                  [x] \<Rightarrow> x
                | [expr_op OpAdd os, y] \<Rightarrow> Add (map (\<lambda>a. Multiply [a, y]) os)
                | oss \<Rightarrow> expr_op OpMul oss))"
  by pat_completeness auto
termination
proof (relation "measure (\<lambda>vs. sum_list (map esize vs))", goal_cases)
  case (2 vs p v oss e rest t os y zs a)
  then have "sum_list (map esize oss) + (if v = 1 then 0 else 1) \<le> sum_list (map esize vs)" using mul_collect_size [of vs 1 "[]" v oss] by auto
  moreover have "esize a < esize (expr_op OpAdd os)" using 2 member_le_sum_list [of "esize a" "map esize os"] by simp
  moreover have "(if v \<noteq> 1 then oss @ [Imm v] else oss) = [expr_op OpAdd os, y]" using 2 by simp
  ultimately have "esize a + esize y < sum_list (map esize vs)"
    by (cases "v = 1") (auto simp: append_eq_Cons_conv Imm_def)
  then show ?case by simp
qed simp

declare Multiply.simps [simp del]

subsection \<open>Extensions\<close>

definition SignExtend :: "Expression \<Rightarrow> nat \<Rightarrow> Expression" where "SignExtend v bits = expr_extend v bits True"

definition extend_MaxValue :: "nat \<Rightarrow> bool \<Rightarrow> u64" where
  "extend_MaxValue bits sign = (if bits \<ge> 64 \<or> sign then - 1 else push_bit bits 1 - 1)"

definition ZeroExtend :: "Expression \<Rightarrow> nat \<Rightarrow> Expression" where
  "ZeroExtend v bits =
     (let bits = (if bits \<ge> 64 then 64 else bits)
      in if bits = 0 then Imm 0
         else if bits = 64 then v
         else (case v of
                 immediate x \<Rightarrow> Imm (x AND extend_MaxValue bits False)
               | expr_extend v' bits' sign' \<Rightarrow> if sign' then expr_extend v bits False else if bits' \<le> bits then v else expr_extend v' bits False
               | _ \<Rightarrow> expr_extend v bits False))"

definition ZeroExtend32 :: "Expression \<Rightarrow> Expression" where "ZeroExtend32 v = ZeroExtend v 32"
definition ZeroExtend8 :: "Expression \<Rightarrow> Expression" where "ZeroExtend8 v = ZeroExtend v 8"

section \<open>Matching\<close>

text \<open>The values of the captures; a failed match may have changed some.\<close>

type_synonym captures = "nat \<Rightarrow> u64"

fun cmpOrder :: "Expression \<Rightarrow> nat" where
  "cmpOrder (mem s a n) = 1"
| "cmpOrder (expr_op t os) = 2"
| "cmpOrder (named i n) = 3"
| "cmpOrder (ImmediateCapture i n) = 4"
| "cmpOrder (immediate v) = 5"
| "cmpOrder (expr_extend v b s) = 0"

definition sortedOperands :: "Expression list \<Rightarrow> Expression list" where "sortedOperands os = sort_key cmpOrder os"

lemma mset_sortedOperands [simp]: "mset (sortedOperands os) = mset os" by (simp add: sortedOperands_def)

lemma sum_sortedOperands [simp]: "sum_list (map f (sortedOperands os)) = sum_list (map f os)" for f :: "Expression \<Rightarrow> 'a :: comm_monoid_add"
  by (metis mset_map mset_sortedOperands sum_mset_sum_list)

lemma set_sortedOperands [simp]: "set (sortedOperands os) = set os" by (simp add: sortedOperands_def)

lemma length_sortedOperands [simp]: "length (sortedOperands os) = length os" by (simp add: sortedOperands_def)

function (sequential) expr_Match :: "Expression \<Rightarrow> Expression \<Rightarrow> captures \<Rightarrow> bool \<times> captures"
  and operands_Match :: "Expression list \<Rightarrow> Expression list \<Rightarrow> captures \<Rightarrow> bool \<times> captures" where
  "expr_Match (immediate v) (immediate w) st = (v = w, st)"
| "expr_Match (immediate v) (ImmediateCapture i n) st = (True, st(i := v))"
| "expr_Match (named i n) (named j m) st = (i = j, st)"
| "expr_Match (mem s a n) (mem s' b m) st = (if s \<noteq> s' then (False, st) else expr_Match a b st)"
| "expr_Match (expr_op t os) (expr_op t' ps) st =
     (if t \<noteq> t' \<or> length os \<noteq> length ps then (False, st) else operands_Match (sortedOperands os) (sortedOperands ps) st)"
| "expr_Match (expr_extend v b s) (expr_extend w b' s') st = (if b' = b \<and> s' = s then expr_Match v w st else (False, st))"
| "expr_Match _ _ st = (False, st)"
| "operands_Match (a # os) (p # ps) st = (case expr_Match a p st of (True, st) \<Rightarrow> operands_Match os ps st | (False, st) \<Rightarrow> (False, st))"
| "operands_Match _ _ st = (True, st)"
  by pat_completeness auto
termination
  by (relation "measure (\<lambda>x. case x of Inl (a, _) \<Rightarrow> 2 * esize a | Inr (os, _) \<Rightarrow> Suc (2 * sum_list (map esize os)))") auto

section \<open>Values\<close>

text \<open>
  What an expression stands for: a value for every name and capture, and the memory, which is read at an address of a segment with
  a number of bytes. Sign extensions, which the code only compares, stand for some function of the extended value.
\<close>

record valuation =
  va_named :: "nat \<Rightarrow> u64"
  va_captures :: captures
  va_mem :: "x86reg \<Rightarrow> nat \<Rightarrow> u64 \<Rightarrow> u64"
  va_sext :: "nat \<Rightarrow> u64 \<Rightarrow> u64"

fun eval :: "valuation \<Rightarrow> Expression \<Rightarrow> u64" where
  "eval E (immediate v) = v"
| "eval E (named i n) = va_named E i"
| "eval E (ImmediateCapture i n) = va_captures E i"
| "eval E (mem s a n) = va_mem E s n (eval E a)"
| "eval E (expr_op OpAdd os) = sum_list (map (eval E) os)"
| "eval E (expr_op OpMul os) = prod_list (map (eval E) os)"
| "eval E (expr_extend v b s) = (if s then va_sext E b (eval E v) else take_bit b (eval E v))"

lemma eval_Imm [simp]: "eval E (Imm v) = v" by (simp add: Imm_def)

lemma eval_mem_constructors [simp]: "eval E (Mem a n) = va_mem E NoReg n (eval E a)" "eval E (Mem8 a) = va_mem E NoReg 8 (eval E a)"
  "eval E (MemWithSegment s a n) = va_mem E s n (eval E a)" "eval E (MemWithSegment8 s a) = va_mem E s 8 (eval E a)"
  by (simp_all add: Mem_def Mem8_def MemWithSegment_def MemWithSegment8_def)

end
