(* ===== verification/AsmAmd.thy ===== *)
theory AsmAmd
  imports AsmExpr Interpreters ElfSymbols
begin

text \<open>
  Symbolic execution of x86-64 code (\<open>asm/amd\<close>) and what is found out with it: offsets of thread-local data
  (\<open>asm/amd/tls.go\<close>), the layout of thread-specific data and of the thread vector in the C library (\<open>libc/libc_x86.go\<close>, \<open>libc/libc.go\<close>), the offset of the FS base in the
  kernel (\<open>libc/assembly_decode_x86.go\<close>) and arguments of Python stubs (\<open>interpreter/python/amd64_decode.go\<close>).

  The instruction decoder is a third-party package and an argument. Its instructions have the operations the code tells apart, the first two
  operands and the sizes. \<open>None\<close> is a panic, a slice behind the end of the code for a decoder that gives a length beyond it, or a
  loop that does not end, for one that gives an instruction without a length.
\<close>

unbundle bit_operations_syntax

section \<open>Instructions\<close>

record x86mem =
  xm_Segment :: x86reg
  xm_Base :: x86reg
  xm_Scale :: u8
  xm_Index :: x86reg
  xm_Disp :: int64

datatype x86arg = ArgNone | ArgReg x86reg | ArgImm int64 | ArgMem x86mem | ArgRel int32

datatype x86op = Op_ADD | Op_SUB | Op_SHL | Op_MOV | Op_MOVZX | Op_MOVSXD | Op_MOVSX | Op_XOR | Op_AND | Op_LEA | Op_NOP | Op_RET | Op_CALL | Op_JMP
  | Op_CMP | Op_TEST | Op_Jcc | Op_Other

record x86inst =
  in_Op :: x86op
  in_Arg0 :: x86arg
  in_Arg1 :: x86arg
  in_Len :: nat
  in_MemBytes :: nat
  in_DataSize :: nat

text \<open>The decoder, and what the conversion of a floating-point number to \<open>uint64\<close> gives when it does not fit.\<close>

record x86env =
  xe_Decode :: "byte list \<Rightarrow> x86inst option"
  xe_hugePow :: "int \<Rightarrow> u64"

datatype xerr = X_EOF | X_Decode | X_NotFound | X_Symbol elferr | X_Size nat | X_Arch | X_Both xerr xerr

definition opcodeEndBr64 :: "byte list" where "opcodeEndBr64 = [0xf3, 0x0f, 0x1e, 0xfa]"

definition DecodeSkippable :: "byte list \<Rightarrow> nat option" where
  "DecodeSkippable code = (if take 4 code = opcodeEndBr64 then Some 4 else None)"

definition nop_inst :: "nat \<Rightarrow> x86inst" where
  "nop_inst n = \<lparr>in_Op = Op_NOP, in_Arg0 = ArgNone, in_Arg1 = ArgNone, in_Len = n, in_MemBytes = 0, in_DataSize = 0\<rparr>"

definition decode_next :: "x86env \<Rightarrow> byte list \<Rightarrow> x86inst option" where
  "decode_next xe code = (case DecodeSkippable code of Some n \<Rightarrow> Some (nop_inst n) | None \<Rightarrow> xe_Decode xe code)"

section \<open>Registers\<close>

type_synonym Registers = "Expression list"

definition registersCount :: nat where "registersCount = 18"

abbreviation RAX :: nat where "RAX \<equiv> 1"
abbreviation RDI :: nat where "RDI \<equiv> 8"
abbreviation RIP :: nat where "RIP \<equiv> 17"

definition regNames :: "string list" where
  "regNames = [''Reg(0)'', ''RAX'', ''RCX'', ''RDX'', ''RBX'', ''RSP'', ''RBP'', ''RSI'', ''RDI'', ''R8'', ''R9'', ''R10'', ''R11'', ''R12'', ''R13'', ''R14'', ''R15'', ''RIP'']"

definition general_reg :: "nat \<Rightarrow> bool" where "general_reg n \<longleftrightarrow> 1 \<le> n \<and> n \<le> 16"

definition regMappingFor :: "x86reg \<Rightarrow> nat \<times> nat" where
  "regMappingFor reg =
     (case reg of
        Low8 n \<Rightarrow> if general_reg n then (n, 8) else (0, 64)
      | Low16 n \<Rightarrow> if general_reg n then (n, 16) else (0, 64)
      | Low32 n \<Rightarrow> if general_reg n then (n, 32) else (0, 64)
      | Full64 n \<Rightarrow> if general_reg n then (n, 64) else (0, 64)
      | RegRIP \<Rightarrow> (RIP, 64)
      | _ \<Rightarrow> (0, 64))"

definition setX86asm :: "x86reg \<Rightarrow> Expression \<Rightarrow> Registers \<Rightarrow> Registers" where
  "setX86asm reg v regs =
     (let (idx, bits) = regMappingFor reg;
          v = (if bits \<noteq> 64 then ZeroExtend v bits else v)
      in regs[idx := v])"

definition GetX86 :: "x86reg \<Rightarrow> Registers \<Rightarrow> Expression" where
  "GetX86 reg regs =
     (let (idx, bits) = regMappingFor reg; res = regs ! idx
      in if bits \<noteq> 64 then ZeroExtend res bits else res)"

definition regs_Get :: "nat \<Rightarrow> Registers \<Rightarrow> Expression" where
  "regs_Get reg regs = (if reg \<ge> length regs then regs ! 0 else regs ! reg)"

section \<open>Interpreter\<close>

record Interpreter =
  it_Regs :: Registers
  it_code :: "byte list"
  it_CodeAddress :: Expression
  it_pc :: nat

definition initRegs :: Registers where
  "initRegs = map (\<lambda>j. named j (regNames ! j)) [0..<registersCount]"

definition code_address :: Expression where "code_address = named registersCount ''code address''"

definition NewInterpreterWithCode :: "byte list \<Rightarrow> Interpreter" where
  "NewInterpreterWithCode code = \<lparr>it_Regs = initRegs, it_code = code, it_CodeAddress = code_address, it_pc = 0\<rparr>"

definition ResetCode :: "byte list \<Rightarrow> Expression \<Rightarrow> Interpreter \<Rightarrow> Interpreter" where
  "ResetCode code address i = i\<lparr>it_code := code, it_CodeAddress := address, it_pc := 0\<rparr>"

definition immFromDisp :: "int64 \<Rightarrow> Expression" where
  "immFromDisp disp = (if disp \<le> 0xffffffff then Imm (scast (ucast disp :: int32)) else Imm disp)"

definition MemArg :: "x86mem \<Rightarrow> Registers \<Rightarrow> Expression" where
  "MemArg src regs =
     Add ((if xm_Disp src \<noteq> 0 then [immFromDisp (xm_Disp src)] else []) @
          (if xm_Base src \<noteq> NoReg then [GetX86 (xm_Base src) regs] else []) @
          (if xm_Index src \<noteq> NoReg then [Multiply [GetX86 (xm_Index src) regs, Imm (ucast (xm_Scale src))]] else []))"

text \<open>The operand that is added or subtracted.\<close>

definition right_operand :: "x86inst \<Rightarrow> Registers \<Rightarrow> Expression option" where
  "right_operand inst regs =
     (case in_Arg1 inst of
        ArgImm v \<Rightarrow> Some (Imm v)
      | ArgReg src \<Rightarrow> Some (GetX86 src regs)
      | ArgMem src \<Rightarrow> Some (MemWithSegment (xm_Segment src) (MemArg src regs) (in_MemBytes inst))
      | _ \<Rightarrow> None)"

definition exec_add :: "x86reg \<Rightarrow> x86inst \<Rightarrow> Registers \<Rightarrow> Registers" where
  "exec_add dst inst regs =
     (case right_operand inst regs of
        None \<Rightarrow> regs
      | Some right \<Rightarrow>
          let right = (if in_Op inst = Op_SUB then Multiply [Imm (NOT 0), right] else right)
          in setX86asm dst (Add [GetX86 dst regs, right]) regs)"

definition pow2 :: "x86env \<Rightarrow> int64 \<Rightarrow> u64" where
  "pow2 xe src = (if sint src < 0 then 0 else if sint src < 64 then push_bit (nat (sint src)) 1 else xe_hugePow xe (sint src))"

definition exec_mov :: "x86reg \<Rightarrow> x86inst \<Rightarrow> Registers \<Rightarrow> Registers" where
  "exec_mov dst inst regs =
     (case in_Arg1 inst of
        ArgImm v \<Rightarrow> setX86asm dst (Imm v) regs
      | ArgReg src \<Rightarrow> setX86asm dst (GetX86 src regs) regs
      | ArgMem src \<Rightarrow>
          let v = (if xm_Base src = RegRIP then Add [GetX86 RegRIP regs, immFromDisp (xm_Disp src)] else MemArg src regs);
              v = MemWithSegment (xm_Segment src) v (in_MemBytes inst);
              v = (if in_Op inst = Op_MOVSXD \<or> in_Op inst = Op_MOVSX then SignExtend v (in_DataSize inst) else ZeroExtend v (in_DataSize inst))
          in setX86asm dst v regs
      | _ \<Rightarrow> regs)"

text \<open>The effect of an instruction on the registers.\<close>

definition exec_inst :: "x86env \<Rightarrow> x86inst \<Rightarrow> Registers \<Rightarrow> Registers" where
  "exec_inst xe inst regs =
     (case in_Arg0 inst of
        ArgReg dst \<Rightarrow>
          (case in_Op inst of
             Op_ADD \<Rightarrow> exec_add dst inst regs
           | Op_SUB \<Rightarrow> exec_add dst inst regs
           | Op_SHL \<Rightarrow> (case in_Arg1 inst of ArgImm src \<Rightarrow> setX86asm dst (Multiply [GetX86 dst regs, Imm (pow2 xe src)]) regs | _ \<Rightarrow> regs)
           | Op_MOV \<Rightarrow> exec_mov dst inst regs
           | Op_MOVZX \<Rightarrow> exec_mov dst inst regs
           | Op_MOVSXD \<Rightarrow> exec_mov dst inst regs
           | Op_MOVSX \<Rightarrow> exec_mov dst inst regs
           | Op_XOR \<Rightarrow> if in_Arg1 inst = ArgReg dst then setX86asm dst (Imm 0) regs else regs
           | Op_AND \<Rightarrow> if in_Arg1 inst = ArgImm 3 then setX86asm dst (ZeroExtend (GetX86 dst regs) 2) regs else regs
           | Op_LEA \<Rightarrow> (case in_Arg1 inst of ArgMem src \<Rightarrow> setX86asm dst (MemArg src regs) regs | _ \<Rightarrow> regs)
           | _ \<Rightarrow> regs)
      | _ \<Rightarrow> regs)"

definition Step :: "x86env \<Rightarrow> Interpreter \<Rightarrow> ((xerr + x86inst) \<times> Interpreter) option" where
  "Step xe i =
     (if it_code i = [] then Some (Inl X_EOF, i)
      else (case decode_next xe (it_code i) of
              None \<Rightarrow> Some (Inl X_Decode, i)
            | Some inst \<Rightarrow>
                if in_Len inst > length (it_code i) then None
                else
                  let pc = it_pc i + in_Len inst;
                      regs = setX86asm RegRIP (Add [it_CodeAddress i, Imm (word_of_nat pc)]) (it_Regs i)
                  in Some (Inr inst, i\<lparr>it_pc := pc, it_code := drop (in_Len inst) (it_code i), it_Regs := exec_inst xe inst regs\<rparr>)))"

lemma Step_shorter: "Step xe i = Some (Inr inst, i') \<Longrightarrow> in_Len inst \<noteq> 0 \<Longrightarrow> length (it_code i') < length (it_code i)"
  by (auto simp: Step_def Let_def split: if_splits option.splits)

text \<open>
  \<open>LoopWithBreak\<close>; without a break the loop ends with the error of the last step, and its first result is the instruction before
  it.
\<close>

definition x86inst_zero :: x86inst where
  "x86inst_zero = \<lparr>in_Op = Op_Other, in_Arg0 = ArgNone, in_Arg1 = ArgNone, in_Len = 0, in_MemBytes = 0, in_DataSize = 0\<rparr>"

function loop_with_break :: "x86env \<Rightarrow> (x86inst \<Rightarrow> bool) \<Rightarrow> x86inst \<Rightarrow> Interpreter \<Rightarrow> ((x86inst \<times> xerr option) \<times> Interpreter) option" where
  "loop_with_break xe brk prev i =
     (case Step xe i of
        None \<Rightarrow> None
      | Some (Inl e, i) \<Rightarrow> Some ((prev, Some e), i)
      | Some (Inr inst, i') \<Rightarrow>
          if brk inst then Some ((inst, None), i')
          else if in_Len inst = 0 then None
          else loop_with_break xe brk inst i')"
  by pat_completeness auto
termination
  by (relation "measure (\<lambda>(xe, brk, prev, i). length (it_code i))") (auto simp: Step_shorter)

declare loop_with_break.simps [simp del]

definition LoopWithBreak :: "x86env \<Rightarrow> (x86inst \<Rightarrow> bool) \<Rightarrow> Interpreter \<Rightarrow> ((x86inst \<times> xerr option) \<times> Interpreter) option" where
  "LoopWithBreak xe brk i = loop_with_break xe brk x86inst_zero i"

definition interp_Loop :: "x86env \<Rightarrow> Interpreter \<Rightarrow> ((x86inst \<times> xerr option) \<times> Interpreter) option" where
  "interp_Loop xe i = LoopWithBreak xe (\<lambda>_. False) i"

end
