(* ===== verification/CodeAnalysis.thy ===== *)
theory CodeAnalysis
  imports AsmAmd BufReader
begin

text \<open>
  What the program finds out by running machine code symbolically: \<open>asm/amd/tls.go\<close>, \<open>asm/amd/insn.go\<close>,
  \<open>libc/libc_x86.go\<close>, \<open>libc/assembly_decode_x86.go\<close>, \<open>libc/libc.go\<close> and \<open>interpreter/python/amd64_decode.go\<close>, with the slice
  reader of \<open>nopanicslicereader\<close>. The analysis of arm64 code is an argument of the functions that choose by architecture.
\<close>

unbundle bit_operations_syntax

section \<open>Reading slices\<close>

text \<open>The reads give 0 behind the end of the slice; the sum with the size wraps around, and then the slice operation panics.\<close>

definition npsr_read :: "nat \<Rightarrow> byte list \<Rightarrow> u64 \<Rightarrow> 'a::len word option" where
  "npsr_read n b offs =
     (if offs + word_of_nat n > word_of_nat (length b) then Some 0
      else if unat offs + n > length b then None
      else Some (le_at n (unat offs) b))"

definition npsr_Uint8 :: "byte list \<Rightarrow> u64 \<Rightarrow> u8 option" where "npsr_Uint8 = npsr_read 1"
definition npsr_Uint16 :: "byte list \<Rightarrow> u64 \<Rightarrow> u16 option" where "npsr_Uint16 = npsr_read 2"
definition npsr_Uint32 :: "byte list \<Rightarrow> u64 \<Rightarrow> u32 option" where "npsr_Uint32 = npsr_read 4"
definition npsr_Int32 :: "byte list \<Rightarrow> u64 \<Rightarrow> int32 option" where "npsr_Int32 = npsr_read 4"
definition npsr_Uint64 :: "byte list \<Rightarrow> u64 \<Rightarrow> u64 option" where "npsr_Uint64 = npsr_read 8"
definition npsr_Ptr :: "byte list \<Rightarrow> u64 \<Rightarrow> u64 option" where "npsr_Ptr = npsr_Uint64"
definition npsr_PtrDiff16 :: "byte list \<Rightarrow> u64 \<Rightarrow> u64 option" where "npsr_PtrDiff16 b offs = map_option ucast (npsr_Uint16 b offs)"
definition npsr_PtrDiff32 :: "byte list \<Rightarrow> u64 \<Rightarrow> u64 option" where "npsr_PtrDiff32 b offs = map_option ucast (npsr_Uint32 b offs)"

section \<open>Jumps out of a function\<close>

definition isJump :: "x86op \<Rightarrow> bool" where "isJump opc \<longleftrightarrow> opc = Op_JMP \<or> opc = Op_Jcc"

function external_jump :: "x86env \<Rightarrow> byte list \<Rightarrow> int64 \<Rightarrow> u64 \<Rightarrow> u64 \<Rightarrow> (xerr + u64) option" where
  "external_jump xe code rip addr len =
     (if code = [] then Some (Inr 0)
      else (case decode_next xe code of
              None \<Rightarrow> Some (Inl X_Decode)
            | Some inst \<Rightarrow>
                if in_Len inst > length code then None
                else
                  let rip = rip + word_of_nat (in_Len inst); code' = drop (in_Len inst) code
                  in case (if isJump (in_Op inst) then in_Arg0 inst else ArgNone) of
                       ArgRel rel \<Rightarrow>
                         let dst = rip + scast rel
                         in if addr \<le>s dst \<and> dst <s addr + len
                            then if in_Len inst = 0 then None else external_jump xe code' rip addr len
                            else Some (Inr dst)
                     | _ \<Rightarrow> if in_Len inst = 0 then None else external_jump xe code' rip addr len))"
  by pat_completeness auto
termination
  by (relation "measure (\<lambda>(xe, code, rip, addr, len). length code)") auto

declare external_jump.simps [simp del]

definition FindExternalJump :: "x86env \<Rightarrow> byte list \<Rightarrow> elf_Symbol \<Rightarrow> (xerr + u64) option" where
  "FindExternalJump xe code f = external_jump xe code (sym_Address f) (sym_Address f) (sym_Size f)"

section \<open>Offsets of thread-local data\<close>

definition validateTLSOffset :: "int32 \<Rightarrow> xerr + int32" where
  "validateTLSOffset offset =
     (if sint offset < 0 \<and> sint offset > - 4096 \<or> sint offset > 0 \<and> sint offset < 4096 then Inr offset else Inl X_NotFound)"

definition capture_zero :: captures where "capture_zero = (\<lambda>_. 0)"

text \<open>An instruction that moves from the FS segment: the offset, or that the search goes on.\<close>

definition tls_access :: "elf_File option \<Rightarrow> x86mem \<Rightarrow> Registers \<Rightarrow> (xerr + int32) option option" where
  "tls_access file m regs =
     (if xm_Base m = NoReg then Some (Some (validateTLSOffset (ucast (xm_Disp m))))
      else
        let actual = GetX86 (xm_Base m) regs;
            offset = ImmediateCapture 0 ''offset''
        in case expr_Match actual offset capture_zero of
             (True, st) \<Rightarrow> Some (Some (validateTLSOffset (ucast (st 0))))
           | (False, st) \<Rightarrow>
               (case (file, expr_Match actual (Mem8 (ImmediateCapture 1 ''addr'')) st) of
                  (Some f, (True, st)) \<Rightarrow>
                    (case VirtualMemory (st 1) 8 8 f of
                       None \<Rightarrow> None
                     | Some (_, Some _) \<Rightarrow> Some None
                     | Some (d, None) \<Rightarrow> map_option (\<lambda>value. Some (validateTLSOffset (ucast value))) (npsr_Uint64 d 0))
                | _ \<Rightarrow> Some None))"

function tls_loop :: "x86env \<Rightarrow> elf_File option \<Rightarrow> Interpreter \<Rightarrow> (xerr + int32) option" where
  "tls_loop xe file i =
     (case Step xe i of
        None \<Rightarrow> None
      | Some (Inl e, _) \<Rightarrow> Some (Inl X_NotFound)
      | Some (Inr inst, i') \<Rightarrow>
          (case (if in_Op inst = Op_MOV then in_Arg1 inst else ArgNone) of
             ArgMem m \<Rightarrow>
               (case (if xm_Segment m = RegFS then tls_access file m (it_Regs i') else Some None) of
                  None \<Rightarrow> None
                | Some (Some r) \<Rightarrow> Some r
                | Some None \<Rightarrow> if in_Len inst = 0 then None else tls_loop xe file i')
           | _ \<Rightarrow> if in_Len inst = 0 then None else tls_loop xe file i'))"
  by pat_completeness auto
termination
  by (relation "measure (\<lambda>(xe, file, i). length (it_code i))") (auto simp: Step_shorter)

declare tls_loop.simps [simp del]

definition ExtractTLSOffset :: "x86env \<Rightarrow> byte list \<Rightarrow> u64 \<Rightarrow> elf_File option \<Rightarrow> (xerr + int32) option" where
  "ExtractTLSOffset xe code codeAddress file = tls_loop xe file (NewInterpreterWithCode code\<lparr>it_CodeAddress := Imm codeAddress\<rparr>)"

section \<open>FS base in the kernel\<close>

definition debugregs_pattern :: Expression where
  "debugregs_pattern = Mem8 (Add [MemWithSegment8 RegGS (ImmediateCapture 1 ''''), ImmediateCapture 0 ''offset''])"

definition debugregs_result :: "u64 \<Rightarrow> xerr + u32" where
  "debugregs_result captured =
     (let res = captured - 2 * 8 in if sint res < 0 \<or> sint res > 256 * 1024 then Inl X_NotFound else Inr (ucast res))"

function debugregs_loop :: "x86env \<Rightarrow> captures \<Rightarrow> Interpreter \<Rightarrow> (xerr + u32) option" where
  "debugregs_loop xe st i =
     (case Step xe i of
        None \<Rightarrow> None
      | Some (Inl e, _) \<Rightarrow> Some (Inl e)
      | Some (Inr inst, i') \<Rightarrow>
          (case (if in_Op inst = Op_MOV then in_Arg0 inst else ArgNone) of
             ArgReg dst \<Rightarrow>
               (case expr_Match (GetX86 dst (it_Regs i')) debugregs_pattern st of
                  (True, st) \<Rightarrow> Some (debugregs_result (st 0))
                | (False, st) \<Rightarrow> if in_Len inst = 0 then None else debugregs_loop xe st i')
           | _ \<Rightarrow> if in_Len inst = 0 then None else debugregs_loop xe st i'))"
  by pat_completeness auto
termination
  by (relation "measure (\<lambda>(xe, st, i). length (it_code i))") (auto simp: Step_shorter)

declare debugregs_loop.simps [simp del]

definition analyzeAoutDumpDebugregsX86 :: "x86env \<Rightarrow> byte list \<Rightarrow> (xerr + u32) option" where
  "analyzeAoutDumpDebugregsX86 xe code =
     (if code = [] then Some (Inl X_NotFound) else debugregs_loop xe capture_zero (NewInterpreterWithCode code))"

definition analyzefsbaseWriteTaskX86 :: "byte list \<Rightarrow> xerr + u32" where
  "analyzefsbaseWriteTaskX86 code =
     (case bytes_Index code [0x48, 0x89, 0xb7] of
        None \<Rightarrow> Inl X_NotFound
      | Some idx \<Rightarrow> if idx + 7 > length code then Inl X_NotFound else Inr (le_at 4 (idx + 3) code))"

definition getAnalyzersX86 :: "x86env \<Rightarrow> (string \<times> (byte list \<Rightarrow> (xerr + u32) option)) list" where
  "getAnalyzersX86 xe =
     [(''x86_fsbase_write_task'', \<lambda>code. Some (analyzefsbaseWriteTaskX86 code)), (''aout_dump_debugregs'', analyzeAoutDumpDebugregsX86 xe)]"

section \<open>C library\<close>

subsection \<open>Thread-specific data\<close>

definition cap_multiplier :: Expression where "cap_multiplier = ImmediateCapture 0 ''multiplier''"
definition cap_multiplier2 :: Expression where "cap_multiplier2 = ImmediateCapture 1 ''multiplier2''"
definition cap_offset :: Expression where "cap_offset = ImmediateCapture 2 ''offset''"

definition tsd_pattern1 :: "Expression \<Rightarrow> Expression" where
  "tsd_pattern1 key = Mem8 (Add [Mem8 (Add [MemWithSegment8 RegFS (Imm 0), cap_offset]), Multiply [ZeroExtend32 key, cap_multiplier]])"

definition tsd_pattern2 :: "Expression \<Rightarrow> Expression" where
  "tsd_pattern2 key = Mem8 (Add [MemWithSegment8 RegFS (Imm 0x10), Multiply [ZeroExtend32 key, cap_multiplier], cap_offset])"

definition tsd_pattern3 :: "Expression \<Rightarrow> Expression" where
  "tsd_pattern3 key = Mem8 (Add [MemWithSegment8 RegFS (Imm 0x10), Multiply [ZeroExtend32 (Add [key, cap_multiplier2]), cap_multiplier], cap_offset])"

definition match_tsd :: "Expression \<Rightarrow> Expression \<Rightarrow> xerr + TSDInfo" where
  "match_tsd key res =
     (let (b1, st1) = expr_Match res (tsd_pattern1 key) capture_zero;
          (b2, st2) = expr_Match res (tsd_pattern2 key) st1;
          (b3, st3) = expr_Match res (tsd_pattern3 key) st2
      in if b1 then Inr \<lparr>ts_Offset = ucast (st1 2), ts_Multiplier = ucast (st1 0), ts_Indirect = 1\<rparr>
         else if b2 then Inr \<lparr>ts_Offset = ucast (st2 2), ts_Multiplier = ucast (st2 0), ts_Indirect = 0\<rparr>
         else if b3 then Inr \<lparr>ts_Offset = ucast (st3 0 * st3 1 + st3 2), ts_Multiplier = ucast (st3 0), ts_Indirect = 0\<rparr>
         else Inl X_NotFound)"

definition is_ret :: "x86inst \<Rightarrow> bool" where "is_ret inst \<longleftrightarrow> in_Op inst = Op_RET"

definition extractTSDInfoX86 :: "x86env \<Rightarrow> byte list \<Rightarrow> (xerr + TSDInfo) option" where
  "extractTSDInfoX86 xe code =
     (let it = NewInterpreterWithCode code; key = regs_Get RDI (it_Regs it)
      in case LoopWithBreak xe is_ret it of
           None \<Rightarrow> None
         | Some ((_, Some e), _) \<Rightarrow> Some (Inl e)
         | Some ((_, None), it) \<Rightarrow> Some (match_tsd key (regs_Get RAX (it_Regs it))))"

subsection \<open>Dynamic thread vector\<close>

definition cap_dtvOffset :: Expression where "cap_dtvOffset = ImmediateCapture 0 ''dtvOffset''"
definition cap_entryWidth :: Expression where "cap_entryWidth = ImmediateCapture 1 ''entryWidth''"

definition dtv_patterns :: "Expression \<Rightarrow> Expression list" where
  "dtv_patterns tlsIndex =
     (let moduleId = Mem8 tlsIndex;
          tlsOffset = Mem8 (Add [tlsIndex, Imm 8]);
          threadPtr = MemWithSegment8 RegFS (Imm 0);
          dtvPtr = Mem8 (Add [threadPtr, cap_dtvOffset])
      in [Add [Mem8 (Add [MemWithSegment8 RegFS cap_dtvOffset, Multiply [moduleId, cap_entryWidth]]), tlsOffset],
          Add [tlsOffset, Mem8 (Add [dtvPtr, Multiply [moduleId, cap_entryWidth]])],
          Add [Mem8 (Add [dtvPtr, Multiply [moduleId, cap_entryWidth]]), tlsOffset],
          Add [tlsOffset, Mem8 (Add [Mem8 (Add [threadPtr, cap_dtvOffset]), Multiply [ZeroExtend32 moduleId, cap_entryWidth]])]])"

fun match_dtv :: "Expression \<Rightarrow> Expression list \<Rightarrow> captures \<Rightarrow> xerr + DTVInfo" where
  "match_dtv result [] st = Inl X_NotFound"
| "match_dtv result (p # ps) st =
     (case expr_Match result p st of
        (True, st) \<Rightarrow> Inr \<lparr>dv_Offset = ucast (st 0 AND 0xFFFF), dv_Multiplier = ucast (st 1)\<rparr>
      | (False, st) \<Rightarrow> match_dtv result ps st)"

definition extractDTVInfoX86 :: "x86env \<Rightarrow> byte list \<Rightarrow> (xerr + DTVInfo) option" where
  "extractDTVInfoX86 xe code =
     (let it = NewInterpreterWithCode code; tlsIndex = regs_Get RDI (it_Regs it)
      in case LoopWithBreak xe is_ret it of
           None \<Rightarrow> None
         | Some ((_, Some e), _) \<Rightarrow> Some (Inl e)
         | Some ((_, None), it) \<Rightarrow> Some (match_dtv (regs_Get RAX (it_Regs it)) (dtv_patterns tlsIndex) capture_zero))"

subsection \<open>Extraction from a file\<close>

text \<open>The analysis by architecture; the fuel is that of symbol lookup.\<close>

definition by_machine :: "elf_Machine \<Rightarrow> (byte list \<Rightarrow> (xerr + 'r) option) \<Rightarrow> (byte list \<Rightarrow> (xerr + 'r) option) \<Rightarrow> byte list \<Rightarrow> (xerr + 'r) option" where
  "by_machine machine arm x86 code =
     (case machine of EM_AARCH64 \<Rightarrow> arm code | EM_X86_64 \<Rightarrow> x86 code | _ \<Rightarrow> Some (Inl X_Arch))"

definition extractTSDInfo ::
  "nat \<Rightarrow> x86env \<Rightarrow> (byte list \<Rightarrow> (xerr + TSDInfo) option) \<Rightarrow> elf_File \<Rightarrow> ((xerr + TSDInfo) \<times> elf_File) option" where
  "extractTSDInfo fuel xe extractTSDInfoARM ef = do {
     (r, ef) \<leftarrow> SymbolData fuel (ascii ''__pthread_getspecific'') 2048 ef;
     (r, ef) \<leftarrow> (case r of Inr d \<Rightarrow> Some (Inr d, ef) | Inl _ \<Rightarrow> SymbolData fuel (ascii ''pthread_getspecific'') 2048 ef);
     (case r of
        Inl e \<Rightarrow> Some (Inl (X_Symbol e), ef)
      | Inr (_, code) \<Rightarrow>
          if length code < 8 then Some (Inl (X_Size (length code)), ef)
          else map_option (\<lambda>r. (r, ef)) (by_machine (f_Machine ef) extractTSDInfoARM (extractTSDInfoX86 xe) code)) }"

text \<open>A C library without the symbol has no information about the vector, which is no error.\<close>

definition extractDTVInfo ::
  "nat \<Rightarrow> x86env \<Rightarrow> (byte list \<Rightarrow> (xerr + DTVInfo) option) \<Rightarrow> elf_File \<Rightarrow> ((xerr + DTVInfo) \<times> elf_File) option" where
  "extractDTVInfo fuel xe extractDTVInfoARM ef = do {
     (r, ef) \<leftarrow> SymbolData fuel (ascii ''__tls_get_addr'') 2048 ef;
     (case r of
        Inl e \<Rightarrow> Some (Inr DTVInfo_zero, ef)
      | Inr (_, code) \<Rightarrow>
          if length code < 8 then Some (Inl (X_Size (length code)), ef)
          else map_option (\<lambda>r. (r, ef)) (by_machine (f_Machine ef) extractDTVInfoARM (extractDTVInfoX86 xe) code)) }"

definition ExtractLibcInfo ::
  "nat \<Rightarrow> x86env \<Rightarrow> (byte list \<Rightarrow> (xerr + TSDInfo) option) \<Rightarrow> (byte list \<Rightarrow> (xerr + DTVInfo) option) \<Rightarrow> elf_File \<Rightarrow> ((xerr + LibcInfo) \<times> elf_File) option" where
  "ExtractLibcInfo fuel xe armTSD armDTV ef = do {
     (tsd, ef) \<leftarrow> extractTSDInfo fuel xe armTSD ef;
     (dtv, ef) \<leftarrow> extractDTVInfo fuel xe armDTV ef;
     Some (case (tsd, dtv) of
             (Inl e1, Inl e2) \<Rightarrow> Inl (X_Both e1 e2)
           | _ \<Rightarrow> Inr \<lparr>lc_TSDInfo = (case tsd of Inr i \<Rightarrow> i | Inl _ \<Rightarrow> TSDInfo_zero), lc_DTVInfo = (case dtv of Inr i \<Rightarrow> i | Inl _ \<Rightarrow> DTVInfo_zero)\<rparr>, ef) }"

section \<open>Python stubs\<close>

definition cap_answer :: Expression where "cap_answer = ImmediateCapture 0 ''answer''"

definition evaluateStubAnswerAMD64 :: "Expression \<Rightarrow> u64 \<Rightarrow> xerr + u64" where
  "evaluateStubAnswerAMD64 res memBase =
     (let (b1, st1) = expr_Match res (ZeroExtend32 (Mem8 cap_answer)) capture_zero;
          (b2, st2) = expr_Match res (Add [Mem8 (ImmediateCapture 1 ''mem''), cap_answer]) st1;
          (b3, st3) = expr_Match res (ZeroExtend32 (Mem8 (Add [Mem8 (ImmediateCapture 2 ''mem''), cap_answer]))) st2;
          (b4, st4) = expr_Match res cap_answer st3
      in if b1 then Inr (st1 0)
         else if b2 then Inr (memBase + st2 0)
         else if b3 then Inr (memBase + st3 0)
         else if b4 then Inr (st4 0)
         else Inl X_NotFound)"

definition is_jump_or_call :: "x86inst \<Rightarrow> bool" where "is_jump_or_call inst \<longleftrightarrow> in_Op inst = Op_JMP \<or> in_Op inst = Op_CALL"

definition decodeStubArgumentAMD64 :: "x86env \<Rightarrow> byte list \<Rightarrow> u64 \<Rightarrow> u64 \<Rightarrow> (xerr + u64) option" where
  "decodeStubArgumentAMD64 xe code codeAddress memBase =
     (case LoopWithBreak xe is_jump_or_call (NewInterpreterWithCode code\<lparr>it_CodeAddress := Imm codeAddress\<rparr>) of
        None \<Rightarrow> None
      | Some ((_, Some e), _) \<Rightarrow> Some (Inl e)
      | Some ((_, None), it) \<Rightarrow> Some (evaluateStubAnswerAMD64 (regs_Get RDI (it_Regs it)) memBase))"

end
