(* ===== verification/AsmProps.thy ===== *)
theory AsmProps
  imports CodeAnalysis ElfFileProps
begin

text \<open>
  Correctness of the symbolic execution of machine code: the constructors of expressions keep their value, a match explains the
  captured constants, a step of the interpreter follows the processor, and what is extracted from the C library describes what its code
  computes.
\<close>

unbundle bit_operations_syntax

section \<open>Constructors\<close>

lemma add_item_eval: "fst (add_item it s) + sum_list (map (eval E) (snd (add_item it s))) = fst s + sum_list (map (eval E) (snd s)) + eval E it"
  by (cases it) (simp_all add: add_item_def)

lemma fold_add_item: "fst (fold add_item os s) + sum_list (map (eval E) (snd (fold add_item os s))) = fst s + sum_list (map (eval E) (snd s)) + sum_list (map (eval E) os)"
proof (induction os arbitrary: s)
  case (Cons it os)
  then show ?case using Cons [of "add_item it s"] add_item_eval [where it = it and s = s] by simp
qed simp

lemma fold_add_arg: "fst (fold add_arg vs s) + sum_list (map (eval E) (snd (fold add_arg vs s))) = fst s + sum_list (map (eval E) (snd s)) + sum_list (map (eval E) vs)"
proof (induction vs arbitrary: s)
  case (Cons it vs)
  have "fst (add_arg it s) + sum_list (map (eval E) (snd (add_arg it s))) = fst s + sum_list (map (eval E) (snd s)) + eval E it"
    by (cases "\<exists>os. it = expr_op OpAdd os") (auto simp: add_arg_def fold_add_item add_item_eval split: Expression.split opType.split)
  then show ?case using Cons [of "add_arg it s"] by simp
qed simp

lemma eval_Add [simp]: "eval E (Add vs) = sum_list (map (eval E) vs)"
proof -
  obtain v oss where f: "fold add_arg vs (0, []) = (v, oss)" by fastforce
  have s: "v + sum_list (map (eval E) oss) = sum_list (map (eval E) vs)" using fold_add_arg [of vs "(0, [])" E] f by simp
  define os where "os = (if v \<noteq> 0 then oss @ [Imm v] else oss)"
  have "sum_list (map (eval E) os) = sum_list (map (eval E) vs)" using s by (auto simp: os_def ac_simps)
  moreover have "Add vs = (if oss = [] then Imm v else case os of [x] \<Rightarrow> x | _ \<Rightarrow> expr_op OpAdd os)" unfolding Add_def f os_def Let_def by simp
  ultimately show ?thesis using s by (auto split: list.splits)
qed

lemma mul_collect_eval:
  "(case mul_collect vs v oss of None \<Rightarrow> 0 | Some (v', oss') \<Rightarrow> v' * prod_list (map (eval E) oss')) = v * prod_list (map (eval E) oss) * prod_list (map (eval E) vs)"
proof (induction vs v oss rule: mul_collect.induct)
  case (2 it vs v oss)
  then show ?case by (cases it) (auto simp: ac_simps)
qed simp

lemma eval_Multiply [simp]: "eval E (Multiply vs) = prod_list (map (eval E) vs)"
proof (induction vs rule: Multiply.induct)
  case (1 vs)
  note m = mul_collect_eval [of E vs 1 "[]"]
  show ?case
  proof (cases "mul_collect vs 1 []")
    case None
    then show ?thesis using m by (subst Multiply.simps) simp
  next
    case (Some p)
    obtain v oss where p: "p = (v, oss)" by fastforce
    define os where "os = (if v \<noteq> 1 then oss @ [Imm v] else oss)"
    have pr: "prod_list (map (eval E) os) = prod_list (map (eval E) vs)" using m Some p by (auto simp: os_def ac_simps)
    have M: "Multiply vs = (if oss = [] then Imm v else
      (case os of [x] \<Rightarrow> x | [expr_op OpAdd os, y] \<Rightarrow> Add (map (\<lambda>a. Multiply [a, y]) os) | oss \<Rightarrow> expr_op OpMul oss))"
      by (subst Multiply.simps) (simp add: Some p os_def)
    show ?thesis
    proof (cases "\<exists>as y. oss \<noteq> [] \<and> os = [expr_op OpAdd as, y]")
      case True
      then obtain as y where o: "oss \<noteq> []" "os = [expr_op OpAdd as, y]" by blast
      have "eval E (Multiply [a, y]) = eval E a * eval E y" if "a \<in> set as" for a
        using 1 [OF Some p [symmetric] o(1)] o(2) that by (simp add: os_def)
      then have "map (eval E) (map (\<lambda>a. Multiply [a, y]) as) = map (\<lambda>a. eval E a * eval E y) as" by simp
      moreover have "eval E (Multiply vs) = sum_list (map (eval E) (map (\<lambda>a. Multiply [a, y]) as))" using M o by simp
      ultimately have "eval E (Multiply vs) = sum_list (map (\<lambda>a. eval E a * eval E y) as)" by (simp only:)
      also have "\<dots> = sum_list (map (eval E) as) * eval E y" by (simp add: sum_list_mult_const comp_def)
      finally show ?thesis using pr o(2) by simp
    next
      case False
      then have "Multiply vs = (if oss = [] then Imm v else case os of [x] \<Rightarrow> x | _ \<Rightarrow> expr_op OpMul os)"
        using M by (auto split: list.splits Expression.splits opType.splits)
      then show ?thesis using pr m Some p by (auto split: list.splits)
    qed
  qed
qed

lemma extend_mask: "n < 64 \<Longrightarrow> (x :: u64) AND extend_MaxValue n False = take_bit n x"
  by (simp add: extend_MaxValue_def take_bit_eq_mask mask_eq_exp_minus_1 push_bit_eq_mult)

lemma eval_ZeroExtend [simp]: "eval E (ZeroExtend v n) = take_bit n (eval E v)"
proof (cases "64 \<le> n")
  case True
  then show ?thesis by (simp add: ZeroExtend_def take_bit_word_eq_self)
next
  case False
  then show ?thesis
    by (cases v) (auto simp: ZeroExtend_def extend_mask min_def)
qed

lemma eval_ZeroExtend32 [simp]: "eval E (ZeroExtend32 v) = take_bit 32 (eval E v)" by (simp add: ZeroExtend32_def)

section \<open>Matching\<close>

text \<open>The captures of a pattern; memory that is read with eight bytes everywhere, which a match does not compare.\<close>

fun caps :: "Expression \<Rightarrow> nat list" where
  "caps (ImmediateCapture i n) = [i]"
| "caps (mem s a n) = caps a"
| "caps (expr_op t os) = concat (map caps os)"
| "caps (expr_extend v b s) = caps v"
| "caps _ = []"

fun mem8 :: "Expression \<Rightarrow> bool" where
  "mem8 (mem s a n) \<longleftrightarrow> n = 8 \<and> mem8 a"
| "mem8 (expr_op t os) \<longleftrightarrow> list_all mem8 os"
| "mem8 (expr_extend v b s) \<longleftrightarrow> mem8 v"
| "mem8 _ \<longleftrightarrow> True"

abbreviation with_captures :: "valuation \<Rightarrow> captures \<Rightarrow> valuation" where "with_captures E st \<equiv> E\<lparr>va_captures := st\<rparr>"

lemma mset_caps_sorted: "mset (concat (map caps (sortedOperands ps))) = mset (concat (map caps ps))"
  using sum_sortedOperands [of "\<lambda>p. mset (caps p)" ps] by (simp add: mset_concat comp_def)

lemma eval_agree: "\<forall>i \<in> set (caps p). st i = st' i \<Longrightarrow> eval (with_captures E st) p = eval (with_captures E st') p"
proof (induction p)
  case (expr_op t os)
  then have "map (eval (with_captures E st)) os = map (eval (with_captures E st')) os" by auto
  then show ?case by (cases t) (simp_all only: eval.simps)
qed auto

lemma match_frame:
  shows "expr_Match a p st = (b, st') \<Longrightarrow> i \<notin> set (caps p) \<Longrightarrow> st' i = st i"
    and "operands_Match os ps st = (b, st') \<Longrightarrow> \<forall>p \<in> set ps. i \<notin> set (caps p) \<Longrightarrow> st' i = st i"
  by (induction a p st and os ps st arbitrary: b st' and b st' rule: expr_Match_operands_Match.induct)
    (auto split: if_splits prod.splits bool.splits)

lemma match_eval:
  shows "expr_Match a p st = (True, st') \<Longrightarrow> caps a = [] \<Longrightarrow> mem8 a \<Longrightarrow> mem8 p \<Longrightarrow> distinct (caps p) \<Longrightarrow>
      eval (with_captures E st') a = eval (with_captures E st') p"
    and "operands_Match os ps st = (True, st') \<Longrightarrow> length os = length ps \<Longrightarrow> concat (map caps os) = [] \<Longrightarrow> list_all mem8 os \<Longrightarrow> list_all mem8 ps \<Longrightarrow>
      distinct (concat (map caps ps)) \<Longrightarrow> map (eval (with_captures E st')) os = map (eval (with_captures E st')) ps"
proof (induction a p st and os ps st arbitrary: st' and st' rule: expr_Match_operands_Match.induct)
  case (5 t os t' ps st)
  then have t: "t = t'" "length os = length ps" and m: "operands_Match (sortedOperands os) (sortedOperands ps) st = (True, st')"
    by (auto split: if_splits)
  have "distinct (concat (map caps (sortedOperands ps)))" using 5(6) mset_caps_sorted mset_eq_imp_distinct_iff by (metis caps.simps(3))
  then have e: "map (eval (with_captures E st')) (sortedOperands os) = map (eval (with_captures E st')) (sortedOperands ps)"
    using 5 m t by (auto simp: list_all_iff)
  then have "mset (map (eval (with_captures E st')) os) = mset (map (eval (with_captures E st')) ps)" by (metis mset_map mset_sortedOperands)
  then show ?case using t(1) by (cases t) (simp_all flip: sum_mset_sum_list prod_mset_prod_list)
next
  case (8 a os p ps st)
  obtain st1 where m: "expr_Match a p st = (True, st1)" "operands_Match os ps st1 = (True, st')" using 8(3) by (auto split: prod.splits bool.splits)
  have rest: "map (eval (with_captures E st')) os = map (eval (with_captures E st')) ps" using 8(2) [OF m(1) [symmetric]] 8(4-) m(2) by simp
  have "eval (with_captures E st1) a = eval (with_captures E st1) p" using 8(1) [OF m(1)] 8(4-) by simp
  moreover have "st' i = st1 i" if "i \<in> set (caps p)" for i using match_frame(2) [OF m(2)] that 8(8) by auto
  ultimately show ?case using rest eval_agree [of p st1 st' E] eval_agree [of a st1 st' E] 8(5) by simp
qed (auto split: if_splits)

text \<open>
  A match explains the value: an expression that matches a pattern has the value the pattern has with the captured constants, if the pattern has
  each capture once and both read memory with eight bytes only, since the sizes of memory reads are not compared.
\<close>

theorem Match_sound:
  assumes "expr_Match a p st = (True, st')" "caps a = []" "distinct (caps p)" "mem8 a" "mem8 p"
  shows "eval E a = eval (E\<lparr>va_captures := st'\<rparr>) p"
  using match_eval(1) [OF assms(1,2,4,5,3)] eval_agree [of a "va_captures E" st' E] assms(2) by simp

section \<open>The processor\<close>

text \<open>
  The values of the general registers and of \<open>RIP\<close>, and what instructions do with them; memory is only read. A shift uses the
  low five or six bits of its count; comparisons and tests write no register.
\<close>

type_synonym cpu = "nat \<Rightarrow> u64"

definition read_reg :: "x86reg \<Rightarrow> cpu \<Rightarrow> u64" where
  "read_reg r c = (case r of Low8 n \<Rightarrow> take_bit 8 (c n) | Low16 n \<Rightarrow> take_bit 16 (c n) | Low32 n \<Rightarrow> take_bit 32 (c n) | Full64 n \<Rightarrow> c n | RegRIP \<Rightarrow> c RIP | _ \<Rightarrow> 0)"

definition write_reg :: "x86reg \<Rightarrow> u64 \<Rightarrow> cpu \<Rightarrow> cpu" where
  "write_reg r v c = (case r of Low32 n \<Rightarrow> c(n := take_bit 32 v) | Full64 n \<Rightarrow> c(n := v) | _ \<Rightarrow> c)"

definition displacement :: "int64 \<Rightarrow> u64" where
  "displacement d = (if d \<le> 0xffffffff then scast (ucast d :: int32) else d)"

definition effective_address :: "x86mem \<Rightarrow> cpu \<Rightarrow> u64" where
  "effective_address m c = displacement (xm_Disp m) + read_reg (xm_Base m) c + read_reg (xm_Index m) c * ucast (xm_Scale m)"

definition operand :: "valuation \<Rightarrow> x86inst \<Rightarrow> cpu \<Rightarrow> u64" where
  "operand E inst c =
     (case in_Arg1 inst of
        ArgImm v \<Rightarrow> v
      | ArgReg r \<Rightarrow> read_reg r c
      | ArgMem m \<Rightarrow> va_mem E (xm_Segment m) (in_MemBytes inst) (effective_address m c)
      | _ \<Rightarrow> 0)"

definition reg_bits :: "x86reg \<Rightarrow> nat" where "reg_bits r = (case r of Full64 _ \<Rightarrow> 64 | _ \<Rightarrow> 32)"

definition cpu_exec :: "valuation \<Rightarrow> x86inst \<Rightarrow> cpu \<Rightarrow> cpu" where
  "cpu_exec E inst c =
     (case in_Arg0 inst of
        ArgReg dst \<Rightarrow>
          (case in_Op inst of
             Op_ADD \<Rightarrow> write_reg dst (read_reg dst c + operand E inst c) c
           | Op_SUB \<Rightarrow> write_reg dst (read_reg dst c - operand E inst c) c
           | Op_SHL \<Rightarrow> write_reg dst (push_bit (unat (operand E inst c) mod reg_bits dst) (read_reg dst c)) c
           | Op_MOV \<Rightarrow> write_reg dst (operand E inst c) c
           | Op_MOVZX \<Rightarrow> write_reg dst (operand E inst c) c
           | Op_XOR \<Rightarrow> write_reg dst (read_reg dst c XOR operand E inst c) c
           | Op_AND \<Rightarrow> write_reg dst (read_reg dst c AND operand E inst c) c
           | Op_LEA \<Rightarrow> (case in_Arg1 inst of ArgMem m \<Rightarrow> write_reg dst (effective_address m c) c | _ \<Rightarrow> c)
           | _ \<Rightarrow> c)
      | _ \<Rightarrow> c)"

text \<open>
  The instructions the interpreter follows: a destination of 32 or 64 bits, known registers, an exclusive or with itself, an and with three, shifts
  by an immediate below the size, and moves with or without zero extension; comparisons and tests of any operands, conditional
  jumps, and instructions without effect. A value read from memory has the size that was read.
\<close>

definition known_reg :: "x86reg \<Rightarrow> bool" where
  "known_reg r \<longleftrightarrow> (case r of Low8 n \<Rightarrow> general_reg n | Low16 n \<Rightarrow> general_reg n | Low32 n \<Rightarrow> general_reg n | Full64 n \<Rightarrow> general_reg n | RegRIP \<Rightarrow> True | _ \<Rightarrow> False)"

definition wide_reg :: "x86reg \<Rightarrow> bool" where
  "wide_reg r \<longleftrightarrow> (case r of Low32 n \<Rightarrow> general_reg n | Full64 n \<Rightarrow> general_reg n | _ \<Rightarrow> False)"

definition known_mem :: "x86mem \<Rightarrow> bool" where
  "known_mem m \<longleftrightarrow> (xm_Base m = NoReg \<or> known_reg (xm_Base m)) \<and> (xm_Index m = NoReg \<or> known_reg (xm_Index m)) \<and>
     (xm_Base m = RegRIP \<longrightarrow> xm_Index m = NoReg)"

definition known_operand :: "x86inst \<Rightarrow> bool" where
  "known_operand inst \<longleftrightarrow>
     (case in_Arg1 inst of ArgImm _ \<Rightarrow> True | ArgReg r \<Rightarrow> known_reg r | ArgMem m \<Rightarrow> known_mem m | _ \<Rightarrow> False)"

definition followed :: "x86inst \<Rightarrow> bool" where
  "followed inst \<longleftrightarrow>
     (case in_Arg0 inst of
        ArgReg dst \<Rightarrow>
          (case in_Op inst of
             Op_ADD \<Rightarrow> wide_reg dst \<and> known_operand inst
           | Op_SUB \<Rightarrow> wide_reg dst \<and> known_operand inst
           | Op_SHL \<Rightarrow> wide_reg dst \<and> (case in_Arg1 inst of ArgImm v \<Rightarrow> unat v < reg_bits dst | _ \<Rightarrow> False)
           | Op_MOV \<Rightarrow> wide_reg dst \<and> known_operand inst \<and> 8 * in_MemBytes inst \<le> in_DataSize inst
           | Op_MOVZX \<Rightarrow> wide_reg dst \<and> known_operand inst \<and> 8 * in_MemBytes inst \<le> in_DataSize inst
           | Op_XOR \<Rightarrow> wide_reg dst \<and> in_Arg1 inst = ArgReg dst
           | Op_AND \<Rightarrow> wide_reg dst \<and> in_Arg1 inst = ArgImm 3
           | Op_LEA \<Rightarrow> wide_reg dst \<and> (case in_Arg1 inst of ArgMem m \<Rightarrow> known_mem m | _ \<Rightarrow> False)
           | _ \<Rightarrow> in_Op inst \<in> {Op_NOP, Op_CMP, Op_TEST})
      | _ \<Rightarrow> in_Op inst \<in> {Op_NOP, Op_CMP, Op_TEST, Op_Jcc})"

definition sized_mem :: "valuation \<Rightarrow> bool" where "sized_mem E \<longleftrightarrow> (\<forall>s n a. take_bit (8 * n) (va_mem E s n a) = va_mem E s n a)"

text \<open>The symbolic registers have the values of the registers of the processor.\<close>

definition agrees :: "valuation \<Rightarrow> Registers \<Rightarrow> cpu \<Rightarrow> bool" where
  "agrees E regs c \<longleftrightarrow> length regs = 18 \<and> (\<forall>r \<in> {1..17}. eval E (regs ! r) = c r)"

lemma agrees_get: "agrees E regs c \<Longrightarrow> known_reg r \<Longrightarrow> eval E (GetX86 r regs) = read_reg r c"
  by (cases r) (auto simp: agrees_def GetX86_def read_reg_def known_reg_def general_reg_def regMappingFor_def)

lemma agrees_set: "agrees E regs c \<Longrightarrow> wide_reg r \<Longrightarrow> eval E v = w \<Longrightarrow> agrees E (setX86asm r v regs) (write_reg r w c)"
  by (cases r) (auto simp: agrees_def setX86asm_def write_reg_def wide_reg_def general_reg_def regMappingFor_def nth_list_update)

lemma eval_immFromDisp [simp]: "eval E (immFromDisp d) = displacement d" by (simp add: immFromDisp_def displacement_def)

lemma displacement_0 [simp]: "displacement 0 = 0" by (simp add: displacement_def)

lemma read_NoReg [simp]: "read_reg NoReg c = 0" by (simp add: read_reg_def)

lemma eval_MemArg: "agrees E regs c \<Longrightarrow> known_mem m \<Longrightarrow> eval E (MemArg m regs) = effective_address m c"
  by (auto simp: MemArg_def effective_address_def known_mem_def agrees_get ac_simps)

lemma eval_right_operand:
  assumes "agrees E regs c" "known_operand inst"
  shows "\<exists>right. right_operand inst regs = Some right \<and> eval E right = operand E inst c"
  using assms by (auto simp: right_operand_def operand_def known_operand_def agrees_get eval_MemArg split: x86arg.splits)

lemma exec_add_agrees:
  assumes "agrees E regs c" "wide_reg dst" "known_operand inst"
  shows "agrees E (exec_add dst inst regs) (write_reg dst (if in_Op inst = Op_SUB then read_reg dst c - operand E inst c else read_reg dst c + operand E inst c) c)"
proof -
  obtain right where r: "right_operand inst regs = Some right" "eval E right = operand E inst c" using eval_right_operand [OF assms(1,3)] by blast
  have "known_reg dst" using assms(2) by (cases dst) (auto simp: wide_reg_def known_reg_def)
  then show ?thesis using agrees_get [OF assms(1)] r by (auto simp: exec_add_def intro!: agrees_set [OF assms(1,2)])
qed

lemma exec_mov_agrees:
  assumes "agrees E regs c" "wide_reg dst" "known_operand inst" "in_Op inst = Op_MOV \<or> in_Op inst = Op_MOVZX" "8 * in_MemBytes inst \<le> in_DataSize inst" "sized_mem E"
  shows "agrees E (exec_mov dst inst regs) (write_reg dst (operand E inst c) c)"
proof (cases "in_Arg1 inst")
  case (ArgMem m)
  let ?v = "if xm_Base m = RegRIP then Add [GetX86 RegRIP regs, immFromDisp (xm_Disp m)] else MemArg m regs"
  have m: "known_mem m" using assms(3) ArgMem by (simp add: known_operand_def)
  have v: "eval E ?v = effective_address m c"
    using eval_MemArg [OF assms(1) m] m agrees_get [OF assms(1), of RegRIP]
    by (auto simp: effective_address_def known_mem_def known_reg_def)
  have "take_bit (in_DataSize inst) (va_mem E s (in_MemBytes inst) a) = va_mem E s (in_MemBytes inst) a" for s a
  proof -
    have "take_bit (in_DataSize inst) (take_bit (8 * in_MemBytes inst) (va_mem E s (in_MemBytes inst) a)) = take_bit (8 * in_MemBytes inst) (va_mem E s (in_MemBytes inst) a)"
      using assms(5) by (simp add: min_absorb2)
    moreover have "take_bit (8 * in_MemBytes inst) (va_mem E s (in_MemBytes inst) a) = va_mem E s (in_MemBytes inst) a" using assms(6) unfolding sized_mem_def by blast
    ultimately show ?thesis by (simp only:)
  qed
  then have "eval E (ZeroExtend (MemWithSegment (xm_Segment m) ?v (in_MemBytes inst)) (in_DataSize inst)) = operand E inst c"
    using v ArgMem by (simp add: operand_def)
  from agrees_set [OF assms(1,2) this] show ?thesis using assms(4) ArgMem by (auto simp: exec_mov_def Let_def)
qed (use assms agrees_get [OF assms(1)] in \<open>auto simp: exec_mov_def operand_def known_operand_def intro!: agrees_set\<close>)

lemma push_bit_product: "v < 64 \<Longrightarrow> x * pow2 xe v = push_bit (unat v) (x :: u64)"
proof -
  assume v: "v < 64"
  then have u: "unat v < 64" by (simp add: word_less_nat_alt)
  then have "sint v = int (unat v)" by (intro sint_small) simp
  then show ?thesis using u by (simp add: pow2_def push_bit_eq_mult del: of_nat_unat)
qed

lemma and_three: "(x :: u64) AND 3 = take_bit 2 x"
  by (simp add: take_bit_eq_mask mask_eq_exp_minus_1)

lemma take_bit_write: "wide_reg dst \<Longrightarrow> write_reg dst (take_bit 2 v) c = write_reg dst (v AND 3) c"
  by (simp add: and_three)

lemma known_wide: "wide_reg dst \<Longrightarrow> known_reg dst"
  by (cases dst) (auto simp: wide_reg_def known_reg_def)

lemma exec_inst_agrees:
  assumes "agrees E regs c" "followed inst" "sized_mem E"
  shows "agrees E (exec_inst xe inst regs) (cpu_exec E inst c)"
proof (cases "in_Arg0 inst")
  case (ArgReg dst)
  note set = agrees_set [OF assms(1)] and get = agrees_get [OF assms(1) known_wide]
  note add = exec_add_agrees [OF assms(1), of dst inst] and mov = exec_mov_agrees [OF assms(1), of dst inst]
  show ?thesis
  proof (cases "in_Op inst")
    case Op_SHL
    then obtain v where v: "in_Arg1 inst = ArgImm v" "unat v < reg_bits dst" "wide_reg dst"
      using assms(2) ArgReg by (auto simp: followed_def split: x86arg.splits)
    have "unat v < 64" using v(2) by (cases dst) (simp_all add: reg_bits_def)
    then have "v < 64" by (simp add: word_less_nat_alt)
    then show ?thesis using Op_SHL ArgReg v get [OF v(3)] push_bit_product [of v "read_reg dst c" xe]
      by (auto simp: exec_inst_def cpu_exec_def operand_def intro!: set)
  next
    case Op_LEA
    then obtain m where m: "in_Arg1 inst = ArgMem m" "known_mem m" "wide_reg dst" using assms(2) ArgReg by (auto simp: followed_def split: x86arg.splits)
    then show ?thesis using Op_LEA ArgReg eval_MemArg [OF assms(1) m(2)] by (auto simp: exec_inst_def cpu_exec_def intro!: set)
  qed (use assms ArgReg add mov get in \<open>auto simp: exec_inst_def cpu_exec_def followed_def operand_def and_three intro!: set\<close>)
qed (use assms in \<open>auto simp: exec_inst_def cpu_exec_def\<close>)

text \<open>One instruction of the processor at a code address; \<open>RIP\<close> is that of the next instruction.\<close>

definition cpu_step :: "valuation \<Rightarrow> u64 \<Rightarrow> x86inst \<Rightarrow> nat \<times> cpu \<Rightarrow> nat \<times> cpu" where
  "cpu_step E base inst s =
     (let pc = fst s + in_Len inst in (pc, cpu_exec E inst ((snd s)(RIP := base + word_of_nat pc))))"

text \<open>
  The processor on a list of instructions: as long as no conditional jump of them is taken; which are is said by code address, since
  no flags are modelled.
\<close>

fun cpu_path :: "valuation \<Rightarrow> u64 \<Rightarrow> (nat \<Rightarrow> bool) \<Rightarrow> x86inst list \<Rightarrow> nat \<times> cpu \<Rightarrow> cpu option" where
  "cpu_path E base taken [] s = Some (snd s)"
| "cpu_path E base taken (inst # insts) s =
     (if in_Op inst = Op_Jcc \<and> taken (fst s) then None else cpu_path E base taken insts (cpu_step E base inst s))"

lemma agrees_RIP: "agrees E regs c \<Longrightarrow> agrees E (setX86asm RegRIP v regs) (c(RIP := eval E v))"
  by (auto simp: agrees_def setX86asm_def regMappingFor_def nth_list_update)

lemma step_agrees:
  assumes "agrees E (it_Regs i) c" "Step xe i = Some (Inr inst, i')" "followed inst" "sized_mem E"
  shows "agrees E (it_Regs i') (snd (cpu_step E (eval E (it_CodeAddress i)) inst (it_pc i, c))) \<and>
    it_pc i' = fst (cpu_step E (eval E (it_CodeAddress i)) inst (it_pc i, c)) \<and> it_CodeAddress i' = it_CodeAddress i"
proof -
  let ?v = "Add [it_CodeAddress i, Imm (word_of_nat (it_pc i + in_Len inst))]"
  have i': "it_Regs i' = exec_inst xe inst (setX86asm RegRIP ?v (it_Regs i))" "it_pc i' = it_pc i + in_Len inst" "it_CodeAddress i' = it_CodeAddress i"
    using assms(2) by (auto simp: Step_def Let_def split: if_splits option.splits)
  show ?thesis using exec_inst_agrees [OF agrees_RIP [OF assms(1)] assms(3,4), of xe ?v] by (simp add: i' cpu_step_def)
qed

text \<open>The instructions in a row before the one that ends the loop.\<close>

function straight :: "x86env \<Rightarrow> (x86inst \<Rightarrow> bool) \<Rightarrow> byte list \<Rightarrow> x86inst list" where
  "straight xe brk code =
     (if code = [] then []
      else (case decode_next xe code of
              None \<Rightarrow> []
            | Some inst \<Rightarrow>
                if brk inst \<or> in_Len inst = 0 \<or> in_Len inst > length code then []
                else inst # straight xe brk (drop (in_Len inst) code)))"
  by pat_completeness auto
termination
  by (relation "measure (\<lambda>(xe, brk, code). length code)") auto

declare straight.simps [simp del]

lemma straight_step:
  assumes "Step xe i = Some (Inr inst, i')"
  shows "straight xe brk (it_code i) = (if brk inst \<or> in_Len inst = 0 then [] else inst # straight xe brk (it_code i'))"
  using assms by (subst straight.simps) (auto simp: Step_def Let_def split: if_splits option.splits)

lemma step_general:
  assumes "agrees E (it_Regs i) c" "Step xe i = Some (Inr inst, i')" "\<forall>regs. exec_inst xe inst regs = regs"
  shows "\<forall>r \<in> {1..16}. eval E (it_Regs i' ! r) = c r"
proof -
  have "it_Regs i' = setX86asm RegRIP (Add [it_CodeAddress i, Imm (word_of_nat (it_pc i + in_Len inst))]) (it_Regs i)"
    using assms(2,3) by (auto simp: Step_def Let_def split: if_splits option.splits)
  then show ?thesis using assms(1) by (auto simp: agrees_def setX86asm_def regMappingFor_def nth_list_update)
qed

lemma loop_agrees:
  assumes "sized_mem E"
  shows "loop_with_break xe brk prev i = Some ((inst, None), i') \<Longrightarrow> list_all followed (straight xe brk (it_code i)) \<Longrightarrow> agrees E (it_Regs i) c \<Longrightarrow>
    \<forall>inst regs. brk inst \<longrightarrow> exec_inst xe inst regs = regs \<Longrightarrow>
    cpu_path E (eval E (it_CodeAddress i)) taken (straight xe brk (it_code i)) (it_pc i, c) = Some c' \<Longrightarrow>
    \<forall>r \<in> {1..16}. eval E (it_Regs i' ! r) = c' r"
proof (induction xe brk prev i arbitrary: c rule: loop_with_break.induct)
  case (1 xe brk prev i)
  obtain r i1 where s: "Step xe i = Some (r, i1)" using "1.prems"(1) by (subst (asm) loop_with_break.simps) (auto split: option.splits)
  obtain inst1 where r: "r = Inr inst1" using "1.prems"(1) s by (subst (asm) loop_with_break.simps) (auto split: sum.splits)
  note st = straight_step [OF s [unfolded r], of brk]
  have l: "if brk inst1 then i' = i1 else in_Len inst1 \<noteq> 0 \<and> loop_with_break xe brk inst1 i1 = Some ((inst, None), i')"
    using "1.prems"(1) s r by (subst (asm) loop_with_break.simps) (auto split: if_splits)
  show ?case
  proof (cases "brk inst1")
    case True
    then show ?thesis using step_general [OF "1.prems"(3) s [unfolded r]] "1.prems"(4,5) l st by simp
  next
    case False
    then have n: "in_Len inst1 \<noteq> 0" "loop_with_break xe brk inst1 i1 = Some ((inst, None), i')" using l by simp_all
    have f: "followed inst1" "list_all followed (straight xe brk (it_code i1))" using "1.prems"(2) st False n by simp_all
    note a = step_agrees [OF "1.prems"(3) s [unfolded r] f(1) assms]
    have "cpu_path E (eval E (it_CodeAddress i1)) taken (straight xe brk (it_code i1))
        (it_pc i1, snd (cpu_step E (eval E (it_CodeAddress i)) inst1 (it_pc i, c))) = Some c'"
      using "1.prems"(5) a st False n by (auto simp: prod_eq_iff split: if_splits)
    from "1.IH" [OF s [unfolded r] _ refl False n(1) n(2) f(2) conjunct1 [OF a] "1.prems"(4) this] show ?thesis by simp
  qed
qed

section \<open>Expressions of a run\<close>

text \<open>Expressions without captures that read memory with eight bytes only; a run keeps its registers such.\<close>

definition plain :: "Expression \<Rightarrow> bool" where "plain e \<longleftrightarrow> caps e = [] \<and> mem8 e"

lemma plain_simps [simp]: "plain (immediate v)" "plain (Imm v)" "plain (named i nm)" "plain (mem s a n) \<longleftrightarrow> n = 8 \<and> plain a"
  "plain (expr_op t os) \<longleftrightarrow> list_all plain os" "plain (expr_extend e b sg) \<longleftrightarrow> plain e"
  by (auto simp: plain_def Imm_def list_all_iff)

lemma plain_add_item: "plain it \<Longrightarrow> list_all plain (snd s) \<Longrightarrow> list_all plain (snd (add_item it s))"
  by (cases it) (auto simp: add_item_def)

lemma plain_fold_item: "list_all plain os \<Longrightarrow> list_all plain (snd s) \<Longrightarrow> list_all plain (snd (fold add_item os s))"
  by (induction os arbitrary: s) (auto simp: plain_add_item)

lemma plain_fold_arg: "list_all plain vs \<Longrightarrow> list_all plain (snd s) \<Longrightarrow> list_all plain (snd (fold add_arg vs s))"
proof (induction vs arbitrary: s)
  case (Cons v vs)
  then have "list_all plain (snd (add_arg v s))" by (auto simp: add_arg_def plain_add_item plain_fold_item split: Expression.splits opType.splits)
  then show ?case using Cons by simp
qed simp

lemma plain_Add: "list_all plain vs \<Longrightarrow> plain (Add vs)"
proof -
  assume "list_all plain vs"
  then have "list_all plain (snd (fold add_arg vs (0, [])))" using plain_fold_arg [of vs "(0, [])"] by simp
  then show ?thesis by (auto simp: Add_def Let_def split: prod.splits list.splits)
qed

lemma plain_collect: "mul_collect vs v oss = Some (v', oss') \<Longrightarrow> list_all plain vs \<Longrightarrow> list_all plain oss \<Longrightarrow> list_all plain oss'"
proof (induction vs v oss rule: mul_collect.induct)
  case (2 it vs v oss)
  then show ?case by (cases it) (auto split: if_splits)
qed simp

lemma plain_Multiply: "list_all plain vs \<Longrightarrow> plain (Multiply vs)"
proof (induction vs rule: Multiply.induct)
  case (1 vs)
  show ?case
  proof (cases "mul_collect vs 1 []")
    case None
    then show ?thesis by (subst Multiply.simps) simp
  next
    case (Some p)
    obtain v oss where p: "p = (v, oss)" by fastforce
    define os where "os = (if v \<noteq> 1 then oss @ [Imm v] else oss)"
    have pl: "list_all plain os" using plain_collect [of vs 1 "[]" v oss] Some p 1(2) by (auto simp: os_def)
    have M: "Multiply vs = (if oss = [] then Imm v else
      (case os of [x] \<Rightarrow> x | [expr_op OpAdd os, y] \<Rightarrow> Add (map (\<lambda>a. Multiply [a, y]) os) | oss \<Rightarrow> expr_op OpMul oss))"
      by (subst Multiply.simps) (simp add: Some p os_def)
    have "plain (Multiply [a, y])" if "oss \<noteq> []" "os = [expr_op OpAdd as, y]" "a \<in> set as" for a as y
      using 1(1) [OF Some p [symmetric] that(1)] that pl by (auto simp: os_def list_all_iff)
    then show ?thesis using M pl by (auto simp: list_all_iff split: list.splits Expression.splits opType.splits intro!: plain_Add)
  qed
qed

lemma plain_ZeroExtend: "plain v \<Longrightarrow> plain (ZeroExtend v n)"
  by (cases v) (auto simp: ZeroExtend_def Let_def)

lemma plain_get: "list_all plain regs \<Longrightarrow> length regs = 18 \<Longrightarrow> plain (GetX86 r regs)"
  by (cases r) (auto simp: GetX86_def regMappingFor_def general_reg_def list_all_length intro!: plain_ZeroExtend)

lemma plain_set: "list_all plain regs \<Longrightarrow> length regs = 18 \<Longrightarrow> plain v \<Longrightarrow> list_all plain (setX86asm r v regs) \<and> length (setX86asm r v regs) = 18"
  by (cases r) (auto simp: setX86asm_def regMappingFor_def general_reg_def list_all_length nth_list_update intro!: plain_ZeroExtend)

lemma plain_MemArg: "list_all plain regs \<Longrightarrow> length regs = 18 \<Longrightarrow> plain (MemArg m regs)"
  by (auto simp: MemArg_def plain_get immFromDisp_def intro!: plain_Add plain_Multiply)

definition reads8 :: "x86inst \<Rightarrow> bool" where
  "reads8 inst \<longleftrightarrow> (case in_Arg1 inst of ArgMem m \<Rightarrow> in_MemBytes inst = 8 \<or> in_Op inst = Op_LEA | _ \<Rightarrow> True)"

lemma plain_exec:
  assumes "list_all plain regs" "length regs = 18" "reads8 inst"
  shows "list_all plain (exec_inst xe inst regs) \<and> length (exec_inst xe inst regs) = 18"
proof -
  note r = assms(1,2)
  note p = plain_set [OF r] plain_get [OF r] plain_MemArg [OF r]
  have add: "list_all plain (exec_add dst inst regs) \<and> length (exec_add dst inst regs) = 18" if "in_Op inst \<noteq> Op_LEA" for dst
    using assms that by (auto simp: exec_add_def right_operand_def reads8_def MemWithSegment_def p Let_def split: x86arg.splits intro!: p(1) plain_Add plain_Multiply)
  have mov: "list_all plain (exec_mov dst inst regs) \<and> length (exec_mov dst inst regs) = 18" if "in_Op inst \<noteq> Op_LEA" for dst
    using assms that by (auto simp: exec_mov_def reads8_def MemWithSegment_def SignExtend_def immFromDisp_def p Let_def split: x86arg.splits
        intro!: p(1) plain_Add plain_ZeroExtend)
  show ?thesis using r add mov by (auto simp: exec_inst_def p plain_Multiply plain_ZeroExtend split: x86arg.splits x86op.splits)
qed

lemma plain_step:
  assumes "list_all plain (it_Regs i)" "length (it_Regs i) = 18" "plain (it_CodeAddress i)" "Step xe i = Some (Inr inst, i')"
  shows "(reads8 inst \<longrightarrow> list_all plain (it_Regs i') \<and> length (it_Regs i') = 18) \<and> plain (it_CodeAddress i') \<and>
    ((\<forall>regs. exec_inst xe inst regs = regs) \<longrightarrow> list_all plain (it_Regs i') \<and> length (it_Regs i') = 18)"
proof -
  let ?v = "Add [it_CodeAddress i, Imm (word_of_nat (it_pc i + in_Len inst))]"
  have i': "it_Regs i' = exec_inst xe inst (setX86asm RegRIP ?v (it_Regs i))" "it_CodeAddress i' = it_CodeAddress i"
    using assms(4) by (auto simp: Step_def Let_def split: if_splits option.splits)
  have "plain ?v" using assms(3) by (auto intro!: plain_Add)
  from plain_set [OF assms(1,2) this] show ?thesis using plain_exec assms(3) by (auto simp: i')
qed

lemma plain_loop:
  "loop_with_break xe brk prev i = Some ((inst, None), i') \<Longrightarrow> list_all reads8 (straight xe brk (it_code i)) \<Longrightarrow>
    \<forall>inst regs. brk inst \<longrightarrow> exec_inst xe inst regs = regs \<Longrightarrow>
    list_all plain (it_Regs i) \<Longrightarrow> length (it_Regs i) = 18 \<Longrightarrow> plain (it_CodeAddress i) \<Longrightarrow> list_all plain (it_Regs i') \<and> length (it_Regs i') = 18"
proof (induction xe brk prev i rule: loop_with_break.induct)
  case (1 xe brk prev i)
  obtain r i1 where s: "Step xe i = Some (r, i1)" using "1.prems"(1) by (subst (asm) loop_with_break.simps) (auto split: option.splits)
  obtain inst1 where r: "r = Inr inst1" using "1.prems"(1) s by (subst (asm) loop_with_break.simps) (auto split: sum.splits)
  have l: "if brk inst1 then i' = i1 else in_Len inst1 \<noteq> 0 \<and> loop_with_break xe brk inst1 i1 = Some ((inst, None), i')"
    using "1.prems"(1) s r by (subst (asm) loop_with_break.simps) (auto split: if_splits)
  note p = plain_step [OF "1.prems"(4-6) s [unfolded r]] and st = straight_step [OF s [unfolded r], of brk]
  show ?case
  proof (cases "brk inst1")
    case True
    then show ?thesis using p l "1.prems"(3) by simp
  next
    case False
    then have n: "in_Len inst1 \<noteq> 0" "loop_with_break xe brk inst1 i1 = Some ((inst, None), i')" using l by simp_all
    have f: "reads8 inst1" "list_all reads8 (straight xe brk (it_code i1))" using "1.prems"(2) st False n by simp_all
    show ?thesis using "1.IH" [OF s [unfolded r] _ refl False n(1) n(2) f(2) "1.prems"(3)] p f(1) by simp
  qed
qed

lemma init_agrees: "\<forall>j < 18. va_named E j = c j \<Longrightarrow> agrees E initRegs c"
  by (auto simp: agrees_def initRegs_def registersCount_def nth_append)

lemma init_plain: "list_all plain initRegs \<and> length initRegs = 18" by (auto simp: initRegs_def registersCount_def list_all_iff)

lemma ret_keeps: "is_ret inst \<Longrightarrow> exec_inst xe inst regs = regs" by (simp add: is_ret_def exec_inst_def split: x86arg.split)

text \<open>
  The run of a function up to its first return, when the interpreter follows every instruction on the way: the result register of the symbolic
  run has the value that the processor leaves in \<open>RAX\<close> whenever it comes to that return without taking a conditional jump.
\<close>

definition code_followed :: "x86env \<Rightarrow> byte list \<Rightarrow> bool" where
  "code_followed xe code \<longleftrightarrow> list_all (\<lambda>inst. followed inst \<and> reads8 inst) (straight xe is_ret code)"

definition machine_ok :: "valuation \<Rightarrow> u64 \<Rightarrow> cpu \<Rightarrow> bool" where
  "machine_ok E base c \<longleftrightarrow> sized_mem E \<and> (\<forall>j < 18. va_named E j = c j) \<and> va_named E 18 = base"

definition cpu_run :: "x86env \<Rightarrow> valuation \<Rightarrow> u64 \<Rightarrow> (nat \<Rightarrow> bool) \<Rightarrow> byte list \<Rightarrow> cpu \<Rightarrow> cpu option" where
  "cpu_run xe E base taken code c = cpu_path E base taken (straight xe is_ret code) (0, c)"

lemma plain_result: "list_all plain regs \<and> length regs = 18 \<Longrightarrow> plain (regs_Get RAX regs)"
  by (simp add: regs_Get_def list_all_length)

lemma run_regs:
  assumes "code_followed xe code" "LoopWithBreak xe is_ret (NewInterpreterWithCode code) = Some ((inst, None), it)"
  shows "list_all plain (it_Regs it) \<and> length (it_Regs it) = 18"
proof -
  let ?i = "NewInterpreterWithCode code"
  have i: "it_Regs ?i = initRegs" "it_code ?i = code" "it_CodeAddress ?i = code_address" by (simp_all add: NewInterpreterWithCode_def)
  have l: "loop_with_break xe is_ret x86inst_zero ?i = Some ((inst, None), it)" using assms(2) by (simp add: LoopWithBreak_def)
  have f: "list_all reads8 (straight xe is_ret (it_code ?i))" using assms(1) by (auto simp: code_followed_def i list_all_iff)
  have k: "\<forall>inst regs. is_ret inst \<longrightarrow> exec_inst xe inst regs = regs" using ret_keeps by blast
  have pc: "plain code_address" by (simp add: code_address_def)
  show ?thesis using plain_loop [OF l f k] init_plain i pc by simp
qed

lemmas run_plain = run_regs [THEN plain_result]

lemma run_result:
  assumes "code_followed xe code" "LoopWithBreak xe is_ret (NewInterpreterWithCode code) = Some ((inst, None), it)"
    and "machine_ok E base c" "cpu_run xe E base taken code c = Some c'"
  shows "eval E (regs_Get RAX (it_Regs it)) = c' RAX"
proof -
  let ?i = "NewInterpreterWithCode code"
  have i: "it_Regs ?i = initRegs" "it_code ?i = code" "it_CodeAddress ?i = code_address" "it_pc ?i = 0" by (simp_all add: NewInterpreterWithCode_def)
  have b: "eval E code_address = base" using assms(3) by (simp add: machine_ok_def code_address_def registersCount_def)
  have l: "loop_with_break xe is_ret x86inst_zero ?i = Some ((inst, None), it)" using assms(2) by (simp add: LoopWithBreak_def)
  have f: "list_all followed (straight xe is_ret (it_code ?i))" "sized_mem E" "agrees E (it_Regs ?i) c"
    using assms(1,3) init_agrees by (auto simp: code_followed_def machine_ok_def i list_all_iff)
  have k: "\<forall>inst regs. is_ret inst \<longrightarrow> exec_inst xe inst regs = regs" using ret_keeps by blast
  have "cpu_path E (eval E (it_CodeAddress ?i)) taken (straight xe is_ret (it_code ?i)) (it_pc ?i, c) = Some c'"
    using assms(4) by (simp add: cpu_run_def i b)
  from loop_agrees [OF f(2) l f(1,3) k this] run_regs [OF assms(1,2)] show ?thesis by (simp add: regs_Get_def)
qed

section \<open>C library\<close>

definition linear8 :: "Expression \<Rightarrow> bool" where "linear8 p \<longleftrightarrow> distinct (caps p) \<and> mem8 p"

lemma match_plain: "expr_Match a p st = (True, st') \<Longrightarrow> plain a \<Longrightarrow> linear8 p \<Longrightarrow> eval E a = eval (with_captures E st') p"
  using match_eval(1) [of a p st st' E] eval_agree [of a "va_captures E" st' E] by (simp add: plain_def linear8_def)

lemmas pattern_simps = linear8_def Add_def Let_def add_arg_def add_item_def Imm_def Mem8_def Mem_def MemWithSegment8_def MemWithSegment_def ZeroExtend32_def
  ZeroExtend_def cap_offset_def cap_multiplier_def cap_multiplier2_def cap_dtvOffset_def cap_entryWidth_def Multiply.simps

lemma tsd_patterns_linear: "linear8 (tsd_pattern1 (named i n))" "linear8 (tsd_pattern2 (named i n))" "linear8 (tsd_pattern3 (named i n))"
  by (simp_all add: tsd_pattern1_def tsd_pattern2_def tsd_pattern3_def pattern_simps)

lemma new_regs [simp]: "it_Regs (NewInterpreterWithCode code) = initRegs" by (simp add: NewInterpreterWithCode_def)

lemma init_RDI: "regs_Get RDI initRegs = named 8 ''RDI''" by (simp add: regs_Get_def initRegs_def registersCount_def regNames_def nth_append)

text \<open>
  The layout of thread-specific data: the word at a multiple of the key and an offset, through a pointer at the thread pointer or
  directly. In the direct form a constant may be added to the key before it is cut to 32 bits, and is taken off the offset again.
\<close>

definition tsd_layout :: "valuation \<Rightarrow> u64 \<Rightarrow> u64 \<Rightarrow> u64 \<Rightarrow> u64 \<Rightarrow> u8 \<Rightarrow> u64 \<Rightarrow> bool" where
  "tsd_layout E key added offset multiplier indirect v \<longleftrightarrow>
     indirect = 1 \<and> v = va_mem E NoReg 8 (va_mem E NoReg 8 (va_mem E RegFS 8 0 + offset) + take_bit 32 key * multiplier) \<or>
     indirect = 0 \<and> v = va_mem E NoReg 8 (va_mem E RegFS 8 0x10 + take_bit 32 (key + added) * multiplier + (offset - multiplier * added))"

lemma match_tsd_sound:
  assumes "match_tsd (named 8 nm) a = Inr info" "plain a"
  shows "\<exists>offset multiplier added. ts_Offset info = ucast offset \<and> ts_Multiplier info = ucast multiplier \<and>
    (\<forall>E. tsd_layout E (va_named E 8) added offset multiplier (ts_Indirect info) (eval E a))"
proof -
  let ?key = "named 8 nm"
  obtain b1 st1 where m1: "expr_Match a (tsd_pattern1 ?key) capture_zero = (b1, st1)" by fastforce
  obtain b2 st2 where m2: "expr_Match a (tsd_pattern2 ?key) st1 = (b2, st2)" by fastforce
  obtain b3 st3 where m3: "expr_Match a (tsd_pattern3 ?key) st2 = (b3, st3)" by fastforce
  consider (one) b1 | (two) "\<not> b1" b2 | (three) "\<not> b1" "\<not> b2" b3 using assms(1) m1 m2 m3 by (auto simp: match_tsd_def split: if_splits)
  then show ?thesis
  proof cases
    case one
    then have "info = \<lparr>ts_Offset = ucast (st1 2), ts_Multiplier = ucast (st1 0), ts_Indirect = 1\<rparr>" using assms(1) m1 m2 m3 by (simp add: match_tsd_def)
    moreover have "eval E a = eval (with_captures E st1) (tsd_pattern1 ?key)" for E using match_plain [OF _ assms(2) tsd_patterns_linear(1)] m1 one by simp
    ultimately show ?thesis
      by (intro exI [of _ "st1 2"] exI [of _ "st1 0"]) (simp add: tsd_layout_def tsd_pattern1_def cap_offset_def cap_multiplier_def)
  next
    case two
    then have "info = \<lparr>ts_Offset = ucast (st2 2), ts_Multiplier = ucast (st2 0), ts_Indirect = 0\<rparr>" using assms(1) m1 m2 m3 by (simp add: match_tsd_def)
    moreover have "eval E a = eval (with_captures E st2) (tsd_pattern2 ?key)" for E using match_plain [OF _ assms(2) tsd_patterns_linear(2)] m2 two by simp
    ultimately show ?thesis
      by (intro exI [of _ "st2 2"] exI [of _ "st2 0"] exI [of _ 0]) (simp add: tsd_layout_def tsd_pattern2_def cap_offset_def cap_multiplier_def ac_simps)
  next
    case three
    then have "info = \<lparr>ts_Offset = ucast (st3 0 * st3 1 + st3 2), ts_Multiplier = ucast (st3 0), ts_Indirect = 0\<rparr>"
      using assms(1) m1 m2 m3 by (simp add: match_tsd_def)
    moreover have "eval E a = eval (with_captures E st3) (tsd_pattern3 ?key)" for E using match_plain [OF _ assms(2) tsd_patterns_linear(3)] m3 three by simp
    ultimately show ?thesis
      by (intro exI [of _ "st3 0 * st3 1 + st3 2"] exI [of _ "st3 0"] exI [of _ "st3 1"])
        (simp add: tsd_layout_def tsd_pattern3_def cap_offset_def cap_multiplier_def cap_multiplier2_def ac_simps)
  qed
qed


lemma dtv_patterns_linear: "list_all linear8 (dtv_patterns (named i n))"
  by (simp add: dtv_patterns_def pattern_simps)

lemma match_dtv_sound:
  assumes "plain a"
  shows "match_dtv a ps st = Inr info \<Longrightarrow> list_all linear8 ps \<Longrightarrow>
    \<exists>p \<in> set ps. \<exists>st'. dv_Offset info = ucast (st' 0 AND 0xFFFF) \<and> dv_Multiplier info = ucast (st' 1) \<and> (\<forall>E. eval E a = eval (with_captures E st') p)"
proof (induction ps arbitrary: st)
  case (Cons p ps)
  obtain b st' where m: "expr_Match a p st = (b, st')" by fastforce
  show ?case
  proof (cases b)
    case True
    then show ?thesis using Cons.prems m match_plain [OF _ assms, of p st st'] by (auto intro!: exI [of _ st'])
  next
    case False
    then show ?thesis using Cons.IH [of st'] Cons.prems m by auto
  qed
qed simp

text \<open>
  The vector at an offset of the thread pointer, whose value is in the segment register or is read from the start of the segment; the module number, which
  may be cut to 32 bits, times the width; and the offset in the argument.
\<close>

definition dtv_layout :: "valuation \<Rightarrow> u64 \<Rightarrow> bool \<Rightarrow> bool \<Rightarrow> u64 \<Rightarrow> u64 \<Rightarrow> u64 \<Rightarrow> bool" where
  "dtv_layout E tlsIndex pointer short offset width v \<longleftrightarrow>
     (let dtv = if pointer then va_mem E NoReg 8 (va_mem E RegFS 8 0 + offset) else va_mem E RegFS 8 offset;
          module = (if short then take_bit 32 else id) (va_mem E NoReg 8 tlsIndex)
      in v = va_mem E NoReg 8 (dtv + module * width) + va_mem E NoReg 8 (tlsIndex + 8))"

lemma dtv_patterns_layout:
  assumes "p \<in> set (dtv_patterns (named 8 nm))"
  shows "\<exists>pointer short. \<forall>E. dtv_layout E (va_named E 8) pointer short (st 0) (st 1) (eval (with_captures E st) p)"
proof -
  let ?l = "\<lambda>pointer short. \<forall>E. dtv_layout E (va_named E 8) pointer short (st 0) (st 1) (eval (with_captures E st) p)"
  have "?l False False \<or> ?l True False \<or> ?l True True"
    using assms unfolding dtv_patterns_def Let_def by (auto simp: dtv_layout_def cap_dtvOffset_def cap_entryWidth_def ac_simps)
  then show ?thesis by blast
qed

lemma ucast_low16: "(ucast (w AND 0xFFFF :: u64) :: int16) = ucast w"
proof -
  have "w AND 0xFFFF = take_bit 16 w" by (simp add: take_bit_eq_mask mask_eq_exp_minus_1)
  then show ?thesis by (simp only:) (rule bit_word_eqI, simp add: bit_simps)
qed


text \<open>The constructors fold constants and distribute products without changing the value.\<close>

theorem constructors_keep_value:
  "eval E (Add vs) = sum_list (map (eval E) vs) \<and> eval E (Multiply vs) = prod_list (map (eval E) vs) \<and> eval E (ZeroExtend v n) = take_bit n (eval E v)"
  by simp

section \<open>Small functions\<close>

text \<open>
  The code of \<open>pthread_getspecific\<close> in version 2.35 of the GNU C library, up to its first return, and of a \<open>__tls_get_addr\<close>, with one byte
  for each instruction.
\<close>

definition instr :: "x86op \<Rightarrow> x86arg \<Rightarrow> x86arg \<Rightarrow> nat \<Rightarrow> nat \<Rightarrow> x86inst" where
  "instr opc a b bytes bits = \<lparr>in_Op = opc, in_Arg0 = a, in_Arg1 = b, in_Len = 1, in_MemBytes = bytes, in_DataSize = bits\<rparr>"

abbreviation address :: "x86reg \<Rightarrow> x86reg \<Rightarrow> x86reg \<Rightarrow> int64 \<Rightarrow> x86arg" where
  "address seg base idx d \<equiv> ArgMem \<lparr>xm_Segment = seg, xm_Base = base, xm_Scale = 1, xm_Index = idx, xm_Disp = d\<rparr>"

definition example_instructions :: "x86inst list" where
  "example_instructions =
     [instr Op_NOP ArgNone ArgNone 0 32,
      instr Op_CMP (ArgReg (Low32 8)) (ArgImm 0x1f) 0 32,
      instr Op_Jcc (ArgRel 0x37) ArgNone 0 64,
      instr Op_MOV (ArgReg (Low32 1)) (ArgReg (Low32 8)) 0 32,
      instr Op_ADD (ArgReg (Full64 1)) (ArgImm 0x31) 0 64,
      instr Op_SHL (ArgReg (Full64 1)) (ArgImm 4) 0 64,
      instr Op_ADD (ArgReg (Full64 1)) (address RegFS NoReg NoReg 0x10) 8 64,
      instr Op_MOV (ArgReg (Full64 3)) (address NoReg (Full64 1) NoReg 8) 8 64,
      instr Op_TEST (ArgReg (Full64 3)) (ArgReg (Full64 3)) 0 64,
      instr Op_Jcc (ArgRel 0x53) ArgNone 0 64,
      instr Op_MOV (ArgReg (Low32 8)) (ArgReg (Low32 8)) 0 32,
      instr Op_LEA (ArgReg (Full64 2)) (address NoReg RegRIP NoReg 0x167b92) 0 64,
      instr Op_MOV (ArgReg (Full64 7)) (address NoReg (Full64 1) NoReg 0) 8 64,
      instr Op_SHL (ArgReg (Full64 8)) (ArgImm 4) 0 64,
      instr Op_CMP (address NoReg (Full64 2) (Full64 8) 0) (ArgReg (Full64 7)) 8 64,
      instr Op_Jcc (ArgRel 0x35) ArgNone 0 64,
      instr Op_MOV (ArgReg (Full64 1)) (ArgReg (Full64 3)) 0 64,
      instr Op_RET ArgNone ArgNone 0 64,
      instr Op_MOV (ArgReg (Full64 1)) (address RegFS NoReg NoReg 8) 8 64,
      instr Op_MOV (ArgReg (Full64 3)) (address NoReg (Full64 8) NoReg 0) 8 64,
      instr Op_CMP (ArgReg (Full64 3)) (ArgImm (- 1)) 0 64,
      instr Op_Jcc (ArgRel 0x20) ArgNone 0 64,
      instr Op_SHL (ArgReg (Full64 3)) (ArgImm 4) 0 64,
      instr Op_MOV (ArgReg (Full64 1)) (address NoReg (Full64 1) (Full64 3) 0) 8 64,
      instr Op_ADD (ArgReg (Full64 1)) (address NoReg (Full64 8) NoReg 8) 8 64]"

definition example_xe :: x86env where
  "example_xe = \<lparr>xe_Decode = (\<lambda>code. case code of b # _ \<Rightarrow> Some (example_instructions ! unat b) | [] \<Rightarrow> None), xe_hugePow = (\<lambda>_. 0)\<rparr>"

definition getspecific_code :: "byte list" where "getspecific_code = [0, 1, 2, 3, 4, 5, 6, 7, 8, 9, 10, 11, 12, 13, 14, 15, 16, 17]"
definition tls_get_addr_code :: "byte list" where "tls_get_addr_code = [0, 18, 19, 20, 21, 22, 23, 24, 17]"

definition example_valuation :: valuation where
  "example_valuation = \<lparr>va_named = (\<lambda>_. 5), va_captures = (\<lambda>_. 0), va_mem = (\<lambda>s n a. take_bit (8 * n) (a + 1)), va_sext = (\<lambda>_ v. v)\<rparr>"

lemma cpu_path_falls: "\<exists>c'. cpu_path E base (\<lambda>_. False) insts s = Some c'"
  by (induction insts arbitrary: s) simp_all

lemma cpu_run_falls: "\<exists>c'. cpu_run xe E base (\<lambda>_. False) code c = Some c'"
  by (simp add: cpu_run_def cpu_path_falls)

lemma example_machine: "machine_ok example_valuation 5 (\<lambda>_. 5)"
  by (simp add: machine_ok_def sized_mem_def example_valuation_def)

lemma example_extract: "extractTSDInfoX86 example_xe getspecific_code = Some (Inr \<lparr>ts_Offset = 0x318, ts_Multiplier = 0x10, ts_Indirect = 0\<rparr>)"
  by code_simp

lemma example_followed: "code_followed example_xe getspecific_code"
  by code_simp


lemma example_extract_dtv: "extractDTVInfoX86 example_xe tls_get_addr_code = Some (Inr \<lparr>dv_Offset = 8, dv_Multiplier = 16\<rparr>)"
  by code_simp

lemma example_followed_dtv: "code_followed example_xe tls_get_addr_code"
  by code_simp


end
