(* ===== verification/PyLines.thy ===== *)
theory PyLines
  imports Prelude
begin

text \<open>
  Line numbers of Python code (\<open>interpreter/python/python.go\<close>): the location table of Python 3.11 and later, the line table of
  3.10 and the line number table of earlier versions. A reader of bytes is the list of those it has not read. An index behind the end of a table is
  a panic, and \<open>None\<close>.
\<close>

unbundle bit_operations_syntax

section \<open>Location table\<close>

fun readVarint_loop :: "nat \<Rightarrow> u32 \<Rightarrow> byte list \<Rightarrow> u32 \<times> byte list" where
  "readVarint_loop shift val [] = (0, [])"
| "readVarint_loop shift val (b # r) =
     (if b AND 0x80 \<noteq> 0 then (0, r)
      else let val = val OR push_bit shift (ucast (b AND 0x3f))
           in if b AND 0x40 \<noteq> 0 then readVarint_loop (shift + 6) val r else (val, r))"

definition readVarint :: "byte list \<Rightarrow> u32 \<times> byte list" where "readVarint r = readVarint_loop 0 0 r"

definition readSignedVarint :: "byte list \<Rightarrow> int32 \<times> byte list" where
  "readSignedVarint r = (let (uval, r) = readVarint r in (if uval AND 1 \<noteq> 0 then - drop_bit 1 uval else drop_bit 1 uval, r))"

text \<open>What follows the first byte of an entry: the new line and the bytes left.\<close>

definition skip_byte :: "byte list \<Rightarrow> byte list" where "skip_byte r = drop 1 r"
definition skip_varint :: "byte list \<Rightarrow> byte list" where "skip_varint r = snd (readVarint r)"

definition location_entry :: "byte \<Rightarrow> int32 \<Rightarrow> byte list \<Rightarrow> int32 \<times> byte list" where
  "location_entry code line r =
     (if code \<le> 9 then (line, skip_byte r)
      else if code \<le> 12 then (line + ucast (code - 10), skip_byte (skip_byte r))
      else if code = 13 then (let (d, r) = readSignedVarint r in (line + d, r))
      else if code = 14 then (let (d, r) = readSignedVarint r in (line + d, skip_varint (skip_varint (skip_varint r))))
      else (- 1, r))"

lemma readVarint_loop_length: "length (snd (readVarint_loop s v r)) \<le> length r"
  by (induction s v r rule: readVarint_loop.induct) (auto simp: Let_def)

lemma readVarint_length: "length (snd (readVarint r)) \<le> length r" by (simp add: readVarint_def readVarint_loop_length)

lemma skip_varint_length: "length (skip_varint r) \<le> length r" by (simp add: skip_varint_def readVarint_length)

lemma readSignedVarint_length: "length (snd (readSignedVarint r)) \<le> length r"
  using readVarint_length [of r] by (auto simp: readSignedVarint_def Let_def split: prod.splits)

lemma location_entry_length: "length (snd (location_entry code line r)) \<le> length r"
proof -
  have "length (skip_varint (skip_varint (skip_varint (snd (readSignedVarint r))))) \<le> length r"
    using skip_varint_length readSignedVarint_length order.trans by meson
  then show ?thesis using readSignedVarint_length [of r] by (auto simp: location_entry_def skip_byte_def Let_def split: prod.splits)
qed

text \<open>The walk; the result is 0 when the table ends before the index or is out of step.\<close>

function location_loop :: "u32 \<Rightarrow> u32 \<Rightarrow> int32 \<Rightarrow> byte list \<Rightarrow> u32" where
  "location_loop bci curI line r =
     (if \<not> curI \<le> bci then (if sint line < 0 then 0 else line)
      else (case r of
              [] \<Rightarrow> 0
            | firstByte # r \<Rightarrow>
                if firstByte AND 0x80 = 0 then 0
                else
                  let code = drop_bit 3 firstByte AND 15;
                      curI = curI + (ucast (firstByte AND 7) + 1);
                      (line, r) = location_entry code line r
                  in location_loop bci curI line r))"
  by pat_completeness auto
termination
proof (relation "measure (\<lambda>(bci, curI, line, r). length r)", goal_cases)
  case (2 bci curI line r b r' code curI' p line' r'')
  then show ?case using location_entry_length [of code line r'] by (auto split: prod.splits)
qed simp

declare location_loop.simps [simp del]

definition walkLocationTable :: "byte list \<Rightarrow> u32 \<Rightarrow> u32" where "walkLocationTable lineTable bci = location_loop bci 0 0 lineTable"

section \<open>Line table\<close>

text \<open>An entry of the table: the line is found, or the line and the bounds of the range change.\<close>

definition linetable_step :: "u32 \<Rightarrow> byte \<Rightarrow> byte \<Rightarrow> u32 \<times> u32 \<times> u32 \<Rightarrow> u32 + u32 \<times> u32 \<times> u32" where
  "linetable_step addrq sDelta lDelta s =
     (case s of (line, start, stop) \<Rightarrow>
        if lDelta = 0 then Inr (line, start, stop + ucast sDelta)
        else
          let start = stop; stop = start + ucast sDelta
          in if sint lDelta = - 128 then Inr (line, start, stop)
             else
               let line = line + scast lDelta
               in if stop = start then Inr (line, start, stop)
                  else if stop > addrq then Inl line
                  else Inr (line, start, stop))"

text \<open>The loop runs over the indices below half of the length of the table.\<close>

function linetable_loop :: "byte list \<Rightarrow> u32 \<Rightarrow> nat \<Rightarrow> u32 \<times> u32 \<times> u32 \<Rightarrow> u32" where
  "linetable_loop t addrq i s =
     (if \<not> i < length t div 2 then 0
      else (case linetable_step addrq (t ! i) (t ! (i + 1)) s of Inl line \<Rightarrow> line | Inr s \<Rightarrow> linetable_loop t addrq (i + 2) s))"
  by pat_completeness auto
termination
  by (relation "measure (\<lambda>(t, addrq, i, s). length t - i)") auto

declare linetable_loop.simps [simp del]

definition walkLineTable :: "byte list \<Rightarrow> u32 \<Rightarrow> u32" where
  "walkLineTable lineTable addrq = (if addrq = 0 then 0 else linetable_loop lineTable addrq 0 (0, 0, 0))"

section \<open>Line number table\<close>

fun lnotab_loop :: "u32 \<Rightarrow> u64 \<Rightarrow> u32 \<Rightarrow> byte list \<Rightarrow> u32 option" where
  "lnotab_loop bci addr lineno [] = Some lineno"
| "lnotab_loop bci addr lineno [a] = (if addr + ucast a > ucast bci then Some lineno else None)"
| "lnotab_loop bci addr lineno (a # d # t) =
     (let addr = addr + ucast a
      in if addr > ucast bci then Some lineno
         else let lineno = lineno + ucast d;
                  lineno = (if d \<ge> 0x80 then lineno - 0x100 else lineno)
              in lnotab_loop bci addr lineno t)"

definition mapByteCodeIndexToLine :: "byte list \<Rightarrow> u32 \<Rightarrow> u32 option" where
  "mapByteCodeIndexToLine lineTable bci = lnotab_loop bci 0 0 lineTable"

section \<open>Versions\<close>

definition pythonVer :: "u16 \<Rightarrow> u16 \<Rightarrow> u16" where "pythonVer major minor = major * 0x100 + minor"

text \<open>The function that \<open>Attach\<close> chooses.\<close>

definition getFuncOffset :: "u16 \<Rightarrow> byte list \<Rightarrow> u32 \<Rightarrow> u32 option" where
  "getFuncOffset version lineTable bci =
     (if version \<ge> pythonVer 3 11 then Some (walkLocationTable lineTable bci)
      else if version = pythonVer 3 10 then Some (walkLineTable lineTable bci)
      else mapByteCodeIndexToLine lineTable bci)"

end
