(* ===== verification/Python.thy ===== *)
theory Python
  imports PyLines CodeAnalysis TraceConvert ProcessMaps GoStrings GoVer
begin

text \<open>
  The Python interpreter (\<open>interpreter/python/python.go\<close>) and memory of another process (\<open>remotememory/remotememory.go\<close>): finding the
  version and the layout of the objects of a Python executable, reading code objects from a process, and symbolizing frames.

  The structures that the code fills by reflection are lists of their fields, with the name in Go, the tag and the value. The cache of code objects is a
  third-party package and an argument, as are the table of printable characters, the arm64 analyses and the eBPF maps; the fuel is that of
  symbol lookup and of the walk over the members of a type, which ends at an empty name. Errors are told apart as far as the code does.
\<close>

unbundle bit_operations_syntax

section \<open>Memory of a process\<close>

record RemoteMemory =
  rm_ReadAt :: "nat \<Rightarrow> u64 \<Rightarrow> (byte list \<times> elferr option) option"
  rm_Bias :: u64

definition rm_Read :: "RemoteMemory \<Rightarrow> u64 \<Rightarrow> nat \<Rightarrow> (elferr + byte list) option" where
  "rm_Read rm addr n = map_option (\<lambda>(d, e). case e of Some e \<Rightarrow> Inl e | None \<Rightarrow> Inr d) (rm_ReadAt rm n addr)"

definition rm_Uint :: "nat \<Rightarrow> RemoteMemory \<Rightarrow> u64 \<Rightarrow> 'a::len word option" where
  "rm_Uint n rm addr = map_option (\<lambda>r. case r of Inl _ \<Rightarrow> 0 | Inr d \<Rightarrow> le_at n 0 d) (rm_Read rm addr n)"

definition rm_Uint8 :: "RemoteMemory \<Rightarrow> u64 \<Rightarrow> u8 option" where "rm_Uint8 = rm_Uint 1"
definition rm_Uint16 :: "RemoteMemory \<Rightarrow> u64 \<Rightarrow> u16 option" where "rm_Uint16 = rm_Uint 2"
definition rm_Uint32 :: "RemoteMemory \<Rightarrow> u64 \<Rightarrow> u32 option" where "rm_Uint32 = rm_Uint 4"
definition rm_Uint64 :: "RemoteMemory \<Rightarrow> u64 \<Rightarrow> u64 option" where "rm_Uint64 = rm_Uint 8"

definition rm_Ptr :: "RemoteMemory \<Rightarrow> u64 \<Rightarrow> u64 option" where
  "rm_Ptr rm addr = map_option (\<lambda>r. case r of Inl _ \<Rightarrow> 0 | Inr d \<Rightarrow> le_at 8 0 d - rm_Bias rm) (rm_Read rm addr 8)"

definition rm_StringPtr :: "RemoteMemory \<Rightarrow> u64 \<Rightarrow> bstring option" where
  "rm_StringPtr rm addr = do {
     addr \<leftarrow> rm_Ptr rm addr;
     if addr = 0 then Some [] else rm_String (rm_ReadAt rm) addr }"

definition GetRemoteMemory :: "elf_File \<Rightarrow> RemoteMemory" where
  "GetRemoteMemory f = \<lparr>rm_ReadAt = (\<lambda>n addr. File_ReadAt n addr f), rm_Bias = f_bias f\<rparr>"

section \<open>Layout of objects\<close>

type_synonym vmStruct = "(string \<times> string option \<times> u64) list"

fun field_index :: "(string \<times> string option \<times> u64 \<Rightarrow> bool) \<Rightarrow> vmStruct \<Rightarrow> nat option" where
  "field_index P [] = None"
| "field_index P (f # fs) = (if P f then Some 0 else map_option Suc (field_index P fs))"

definition fieldByPythonName :: "string \<Rightarrow> vmStruct \<Rightarrow> nat option" where
  "fieldByPythonName name s =
     field_index (\<lambda>(field, tag, _). (case tag of None \<Rightarrow> False | Some t \<Rightarrow> name \<in> set (split_at CHR '','' t)) \<or> name = field) s"

definition fieldByName :: "string \<Rightarrow> vmStruct \<Rightarrow> nat option" where "fieldByName name s = field_index (\<lambda>(field, _, _). name = field) s"

definition set_field :: "nat \<Rightarrow> u64 \<Rightarrow> vmStruct \<Rightarrow> vmStruct" where "set_field i v s = s[i := (fst (s ! i), fst (snd (s ! i)), v)]"

definition field_value :: "string \<Rightarrow> vmStruct \<Rightarrow> u64" where
  "field_value name s = (case fieldByName name s of None \<Rightarrow> 0 | Some i \<Rightarrow> snd (snd (s ! i)))"

definition put_field :: "string \<Rightarrow> u64 \<Rightarrow> vmStruct \<Rightarrow> vmStruct" where
  "put_field name v s = (case fieldByName name s of None \<Rightarrow> s | Some i \<Rightarrow> set_field i v s)"

definition PyCodeObject_zero :: vmStruct where
  "PyCodeObject_zero = [(''Sizeof'', None, 0), (''ArgCount'', Some ''co_argcount'', 0), (''KwOnlyArgCount'', Some ''co_kwonlyargcount'', 0),
     (''Flags'', Some ''co_flags'', 0), (''FirstLineno'', Some ''co_firstlineno'', 0), (''Filename'', Some ''co_filename'', 0),
     (''Name'', Some ''co_name'', 0), (''Lnotab'', Some ''co_lnotab'', 0), (''Linetable'', Some ''co_linetable'', 0), (''QualName'', Some ''co_qualname'', 0)]"

definition PyFrameObject_zero :: vmStruct where
  "PyFrameObject_zero = [(''Back'', Some ''f_back'', 0), (''Code'', Some ''f_code'', 0), (''LastI'', Some ''f_lasti'', 0), (''EntryMember'', None, 0), (''EntryVal'', None, 0)]"

definition PyBytesObject_zero :: vmStruct where "PyBytesObject_zero = [(''Sizeof'', None, 0)]"

record pythonData =
  py_version :: u16
  py_autoTLSKey :: u64
  py_staticTLSOffset :: int64
  py_noneStruct :: u64
  py_TypeBasicSize :: u64
  py_TypeMembers :: u64
  py_MemberName :: u64
  py_MemberOffset :: u64
  py_MemberSizeof :: u64
  py_ASCIIData :: u64
  py_VarObSize :: u64
  py_ThreadFrame :: u64
  py_CurrentFrame :: u64
  py_Code :: vmStruct
  py_Frame :: vmStruct
  py_Bytes :: vmStruct

datatype pyerr = PE_Null | PE_Read | PE_Name | PE_Source | PE_Stale | PE_TableSize u64 | PE_Mismatch | PE_Frozen | PE_Symbol | PE_Version | PE_Stub | PE_TLS | PE_Arch | PE_Map | PE_ELF elferr

text \<open>The members of a type: each known name sets its field.\<close>

fun read_members :: "nat \<Rightarrow> RemoteMemory \<Rightarrow> pythonData \<Rightarrow> u64 \<Rightarrow> vmStruct \<Rightarrow> vmStruct option" where
  "read_members 0 rm d addr s = None"
| "read_members (Suc fuel) rm d addr s = do {
     name \<leftarrow> rm_StringPtr rm (addr + py_MemberName d);
     if name = [] then Some s
     else do {
       s \<leftarrow> (case fieldByPythonName (bytes_string name) s of
              None \<Rightarrow> Some s
            | Some i \<Rightarrow> map_option (\<lambda>offset. set_field i (ucast offset) s) (rm_Uint32 rm (addr + py_MemberOffset d)));
       read_members fuel rm d (addr + py_MemberSizeof d) s } }"

definition readIntrospectionData :: "nat \<Rightarrow> pythonData \<Rightarrow> string \<Rightarrow> vmStruct \<Rightarrow> elf_File \<Rightarrow> ((pyerr + vmStruct) \<times> elf_File) option" where
  "readIntrospectionData fuel d symbol s ef = do {
     (r, ef) \<leftarrow> LookupSymbolAddress fuel (ascii symbol) ef;
     (case r of
        Inl _ \<Rightarrow> Some (Inl PE_Symbol, ef)
      | Inr typeData \<Rightarrow> do {
          let rm = GetRemoteMemory ef;
          s \<leftarrow> (case fieldByName ''Sizeof'' s of
                 None \<Rightarrow> Some s
               | Some i \<Rightarrow> map_option (\<lambda>v. set_field i v s) (rm_Uint64 rm (typeData + py_TypeBasicSize d)));
          membersPtr \<leftarrow> rm_Ptr rm (typeData + py_TypeMembers d);
          if membersPtr = 0 then Some (Inr s, ef)
          else map_option (\<lambda>s. (Inr s, ef)) (read_members fuel rm d membersPtr s) }) }"

section \<open>Code objects\<close>

record pythonCodeObject =
  pc_version :: u16
  pc_name :: bstring
  pc_sourceFileName :: bstring
  pc_lineTable :: "byte list"
  pc_firstLineNo :: u32
  pc_ebpfChecksum :: u32

record 'l codeLRU =
  cl_Get :: "u64 \<Rightarrow> 'l \<Rightarrow> pythonCodeObject option \<times> 'l"
  cl_Add :: "u64 \<Rightarrow> pythonCodeObject \<Rightarrow> 'l \<Rightarrow> 'l"

record 'l pythonInstance =
  pi_d :: pythonData
  pi_rm :: RemoteMemory
  pi_bias :: u64
  pi_addrToCodeObject :: 'l
  pi_procInfoInserted :: bool
  pi_successCount :: u64
  pi_failCount :: u64

text \<open>Allocating a slice of a length from a file panics when the length exceeds the address space.\<close>

definition make_bytes :: "u64 \<Rightarrow> nat option" where "make_bytes n = (if n > 0x1000000000000 then None else Some (unat n))"

definition py_Attach :: "'l \<Rightarrow> pythonData \<Rightarrow> u64 \<Rightarrow> RemoteMemory \<Rightarrow> 'l pythonInstance" where
  "py_Attach cache d bias rm = \<lparr>pi_d = d, pi_rm = rm, pi_bias = bias, pi_addrToCodeObject = cache, pi_procInfoInserted = False, pi_successCount = 0, pi_failCount = 0\<rparr>"

definition IsValidString :: "(bstring \<Rightarrow> bool) \<Rightarrow> bstring \<Rightarrow> bool" where
  "IsValidString allPrint s \<longleftrightarrow> s \<noteq> [] \<and> utf8_Valid s \<and> allPrint s"

text \<open>The part of a name behind the last dot, if there is one.\<close>

definition after_last_dot :: "bstring \<Rightarrow> bstring" where
  "after_last_dot s = rev (takeWhile (\<lambda>b. b \<noteq> 0x2e) (rev s))"

definition frozenNameToFileName :: "bstring \<Rightarrow> pyerr + bstring" where
  "frozenNameToFileName s =
     (if take 8 s \<noteq> ascii ''<frozen '' then Inr s
      else if last s \<noteq> 0x3e then Inl PE_Frozen
      else
        let fName = (if 0x2e \<in> set s then butlast (after_last_dot s) else butlast (drop 8 s))
        in if fName = [] then Inl PE_Frozen else Inr (fName @ ascii ''.py''))"

definition code_checksum :: "u32 \<Rightarrow> u32 \<Rightarrow> u32 \<Rightarrow> u32 \<Rightarrow> u32" where
  "code_checksum argCount kwonlyArgCount flags firstLineNo = push_bit 25 argCount + push_bit 18 kwonlyArgCount + push_bit 10 flags + firstLineNo"

text \<open>The names of a code object; \<open>Inl\<close> is an error.\<close>

definition code_names :: "(bstring \<Rightarrow> bool) \<Rightarrow> RemoteMemory \<Rightarrow> pythonData \<Rightarrow> byte list \<Rightarrow> (pyerr + bstring \<times> bstring) option" where
  "code_names allPrint rm d cobj = do {
     qualified \<leftarrow> (if field_value ''QualName'' (py_Code d) \<noteq> 0
       then do { p \<leftarrow> npsr_Ptr cobj (field_value ''QualName'' (py_Code d)); rm_String (rm_ReadAt rm) (py_ASCIIData d + p) } else Some []);
     name \<leftarrow> (if qualified = []
       then do { p \<leftarrow> npsr_Ptr cobj (field_value ''Name'' (py_Code d)); rm_String (rm_ReadAt rm) (py_ASCIIData d + p) } else Some qualified);
     if \<not> IsValidString allPrint name then Some (Inl PE_Name)
     else do {
       p \<leftarrow> npsr_Ptr cobj (field_value ''Filename'' (py_Code d));
       sourcePath \<leftarrow> rm_String (rm_ReadAt rm) (py_ASCIIData d + p);
       let sourceFileName = (case frozenNameToFileName sourcePath of Inl _ \<Rightarrow> sourcePath | Inr s \<Rightarrow> s);
       Some (if \<not> IsValidString allPrint sourceFileName then Inl PE_Source else Inr (name, sourceFileName)) } }"

definition code_lines :: "RemoteMemory \<Rightarrow> pythonData \<Rightarrow> u64 \<Rightarrow> (pyerr + byte list) option" where
  "code_lines rm d lineInfoPtr = do {
     lineTableSize \<leftarrow> rm_Uint64 rm (lineInfoPtr + py_VarObSize d);
     if lineTableSize \<ge> 0x10000 \<or> py_version d < pythonVer 3 11 \<and> lineTableSize AND 1 \<noteq> 0 then Some (Inl (PE_TableSize lineTableSize))
     else do {
       r \<leftarrow> rm_Read rm (lineInfoPtr + field_value ''Sizeof'' (py_Bytes d) - 1) (unat lineTableSize);
       Some (case r of Inl _ \<Rightarrow> Inl PE_Read | Inr t \<Rightarrow> Inr t) } }"

text \<open>A code object read from the process.\<close>

definition read_code :: "(bstring \<Rightarrow> bool) \<Rightarrow> RemoteMemory \<Rightarrow> pythonData \<Rightarrow> u64 \<Rightarrow> u32 \<Rightarrow> (pyerr + pythonCodeObject) option" where
  "read_code allPrint rm d addr ebpfChecksum = do {
     size \<leftarrow> make_bytes (field_value ''Sizeof'' (py_Code d));
     r \<leftarrow> rm_Read rm addr size;
     (case r of
        Inl _ \<Rightarrow> Some (Inl PE_Read)
      | Inr cobj \<Rightarrow> do {
          firstLineNo \<leftarrow> npsr_Uint32 cobj (field_value ''FirstLineno'' (py_Code d));
          argCount \<leftarrow> npsr_Uint32 cobj (field_value ''ArgCount'' (py_Code d));
          kwonlyArgCount \<leftarrow> npsr_Uint32 cobj (field_value ''KwOnlyArgCount'' (py_Code d));
          flags \<leftarrow> npsr_Uint32 cobj (field_value ''Flags'' (py_Code d));
          lineInfoPtr \<leftarrow> npsr_Ptr cobj (field_value (if py_version d < pythonVer 3 10 then ''Lnotab'' else ''Linetable'') (py_Code d));
          names \<leftarrow> code_names allPrint rm d cobj;
          (case names of
             Inl e \<Rightarrow> Some (Inl e)
           | Inr (name, sourceFileName) \<Rightarrow>
               let checksum = code_checksum argCount kwonlyArgCount flags firstLineNo
               in if ebpfChecksum \<noteq> 0 \<and> ebpfChecksum \<noteq> checksum then Some (Inl PE_Stale)
                  else map_option (map_sum id (\<lambda>lineTable.
                         \<lparr>pc_version = py_version d, pc_name = name, pc_sourceFileName = sourceFileName, pc_lineTable = lineTable,
                          pc_firstLineNo = firstLineNo, pc_ebpfChecksum = checksum\<rparr>)) (code_lines rm d lineInfoPtr)) }) }"

definition getCodeObject ::
  "'l codeLRU \<Rightarrow> (bstring \<Rightarrow> bool) \<Rightarrow> u64 \<Rightarrow> u32 \<Rightarrow> 'l pythonInstance \<Rightarrow> ((pyerr + pythonCodeObject) \<times> 'l pythonInstance) option" where
  "getCodeObject lru allPrint addr ebpfChecksum p =
     (if addr = 0 then Some (Inl PE_Null, p)
      else
        let (cached, p) = (if ebpfChecksum \<noteq> 0
              then (let (c, l) = cl_Get lru addr (pi_addrToCodeObject p) in (c, p\<lparr>pi_addrToCodeObject := l\<rparr>)) else (None, p));
            hit = (case cached of Some m \<Rightarrow> pc_ebpfChecksum m = ebpfChecksum | None \<Rightarrow> False)
        in if hit then Some (Inr (the cached), p)
           else map_option (\<lambda>r. (r, case r of Inl _ \<Rightarrow> p | Inr pco \<Rightarrow> p\<lparr>pi_addrToCodeObject := cl_Add lru addr pco (pi_addrToCodeObject p)\<rparr>))
                  (read_code allPrint (pi_rm p) (pi_d p) addr ebpfChecksum))"

section \<open>Symbolization\<close>

definition ef_Variable :: "EbpfFrame \<Rightarrow> nat \<Rightarrow> u64 option" where "ef_Variable f ndx = (if ndx + 1 < length f then Some (f ! (ndx + 1)) else None)"

definition python_frame :: "pythonCodeObject \<Rightarrow> u32 \<Rightarrow> Frame" where
  "python_frame m functionOffset =
     Frame_zero\<lparr>fr_Type := FrameMarkerPython, fr_FunctionName := bytes_string (pc_name m), fr_SourceFile := bytes_string (pc_sourceFileName m),
       fr_SourceLine := ucast (pc_firstLineNo m + functionOffset), fr_FunctionOffset := functionOffset\<rparr>"

definition py_Symbolize ::
  "'l codeLRU \<Rightarrow> (bstring \<Rightarrow> bool) \<Rightarrow> EbpfFrame \<Rightarrow> Frame list \<Rightarrow> 'l pythonInstance \<Rightarrow> ((pyerr option \<times> Frame list) \<times> 'l pythonInstance) option" where
  "py_Symbolize lru allPrint ef frames p =
     (if \<not> IsInterpType (ef_Type ef) (Interp (ucast FrameMarkerPython)) then Some ((Some PE_Mismatch, frames), p)
      else do {
        ptr \<leftarrow> ef_Variable ef 0;
        v \<leftarrow> ef_Variable ef 1;
        let lastI = ucast (drop_bit 32 v) AND 0x0fffffff;
        (r, p) \<leftarrow> getCodeObject lru allPrint ptr (ucast v) p;
        (case r of
           Inl e \<Rightarrow> Some ((Some e, frames), p\<lparr>pi_failCount := pi_failCount p + 1\<rparr>)
         | Inr m \<Rightarrow> do {
             functionOffset \<leftarrow> getFuncOffset (py_version (pi_d p)) (pc_lineTable m) lastI;
             Some ((None, frames @ [python_frame m functionOffset]), p\<lparr>pi_successCount := pi_successCount p + 1\<rparr>) }) })"

section \<open>Process data\<close>

record PyProcInfo =
  pp_AutoTLSKeyAddr :: u64
  pp_NoneStructAddr :: u64
  pp_Version :: u16
  pp_Tls_offset :: int16
  pp_TsdInfo :: TSDInfo
  pp_offsets :: "u8 list"
  pp_Lasti_is_codeunit :: u8
  pp_Frame_is_cframe :: u8

text \<open>The structure in memory: little endian, its fields are aligned without gaps, with two bytes of padding at the end.\<close>

definition le_field :: "nat \<Rightarrow> 'a::len word \<Rightarrow> byte list" where "le_field n w = map (\<lambda>i. ucast (drop_bit (8 * i) w)) [0..<n]"

definition PyProcInfo_bytes :: "PyProcInfo \<Rightarrow> byte list" where
  "PyProcInfo_bytes c = le_field 8 (pp_AutoTLSKeyAddr c) @ le_field 8 (pp_NoneStructAddr c) @ le_field 2 (pp_Version c) @ le_field 2 (pp_Tls_offset c) @
     le_field 2 (ts_Offset (pp_TsdInfo c)) @ [ts_Multiplier (pp_TsdInfo c), ts_Indirect (pp_TsdInfo c)] @ pp_offsets c @
     [pp_Lasti_is_codeunit c, pp_Frame_is_cframe c, 0, 0]"

definition py_proc_info :: "LibcInfo \<Rightarrow> 'l pythonInstance \<Rightarrow> PyProcInfo" where
  "py_proc_info libcInfo p =
     (let d = pi_d p
      in \<lparr>pp_AutoTLSKeyAddr = py_autoTLSKey d + pi_bias p,
          pp_NoneStructAddr = (if py_noneStruct d \<noteq> 0 then py_noneStruct d + pi_bias p else 0),
          pp_Version = py_version d, pp_Tls_offset = ucast (py_staticTLSOffset d), pp_TsdInfo = lc_TSDInfo libcInfo,
          pp_offsets = map ucast ([py_ThreadFrame d, py_CurrentFrame d] @
            map (\<lambda>f. field_value f (py_Frame d)) [''Back'', ''Code'', ''LastI'', ''EntryMember'', ''EntryVal''] @
            map (\<lambda>f. field_value f (py_Code d)) [''ArgCount'', ''KwOnlyArgCount'', ''Flags'', ''FirstLineno'', ''Sizeof'']),
          pp_Lasti_is_codeunit = (if py_version d \<ge> pythonVer 3 11 then 1 else 0),
          pp_Frame_is_cframe = (if py_version d \<ge> pythonVer 3 11 \<and> py_version d < pythonVer 3 13 then 1 else 0)\<rparr>)"

definition py_UpdateLibcInfo :: "'m kops \<Rightarrow> PID \<Rightarrow> LibcInfo \<Rightarrow> 'm impl \<Rightarrow> 'l pythonInstance \<Rightarrow> ebpferr option \<times> 'm impl \<times> 'l pythonInstance" where
  "py_UpdateLibcInfo k pid libcInfo ebpf p =
     (if py_staticTLSOffset (pi_d p) = 0 \<and> \<not> HasTSDInfo libcInfo then (None, ebpf, p)
      else if pi_procInfoInserted p then (None, ebpf, p)
      else
        let (err, ebpf) = UpdateProcData k Interp_Python pid (PyProcInfo_bytes (py_proc_info libcInfo p)) ebpf
        in (case err of Some e \<Rightarrow> (Some e, ebpf, p) | None \<Rightarrow> (None, ebpf, p\<lparr>pi_procInfoInserted := True\<rparr>)))"

definition py_Detach :: "'m kops \<Rightarrow> PID \<Rightarrow> 'm impl \<Rightarrow> 'l pythonInstance \<Rightarrow> ebpferr option \<times> 'm impl" where
  "py_Detach k pid ebpf p =
     (if \<not> pi_procInfoInserted p then (None, ebpf)
      else DeleteProcData k Interp_Python pid ebpf)"

text \<open>The counters of the instance; those of the cache are its own.\<close>

definition py_GetAndResetMetrics :: "'l pythonInstance \<Rightarrow> (u64 \<times> u64) \<times> 'l pythonInstance" where
  "py_GetAndResetMetrics p = ((pi_successCount p, pi_failCount p), p\<lparr>pi_successCount := 0, pi_failCount := 0\<rparr>)"

section \<open>Names of Python executables\<close>

text \<open>
  The two regular expressions. A match starts at the beginning of the name or behind a slash with no line break before it; the greedy
  prefix prefers later slashes. Then follow the word, a digit, a dot and as many digits as there are.
\<close>

definition name_starts :: "bstring \<Rightarrow> bstring list" where
  "name_starts s = rev (map (\<lambda>i. drop (Suc i) s) (filter (\<lambda>i. s ! i = 0x2f \<and> 0x0a \<notin> set (take i s)) [0..<length s])) @ [s]"

definition match_version :: "string \<Rightarrow> bstring \<Rightarrow> (byte \<times> bstring \<times> bstring) option" where
  "match_version word s =
     (let w = length word; digits = takeWhile is_digit (drop (w + 2) s)
      in if take w s = ascii word \<and> w + 1 < length s \<and> is_digit (s ! w) \<and> s ! (w + 1) = 0x2e \<and> digits \<noteq> []
         then Some (s ! w, digits, drop (length digits) (drop (w + 2) s)) else None)"

definition pythonRegex :: "bstring \<Rightarrow> (byte \<times> bstring) option" where
  "pythonRegex s =
     (case List.map_filter (\<lambda>r. case match_version ''python'' r of
              Some (major, minor, rest) \<Rightarrow> if rest \<in> set (map ascii [[], ''d'', ''m'', ''dm'']) then Some (major, minor) else None
            | None \<Rightarrow> None) (name_starts s) of
        [] \<Rightarrow> None | m # _ \<Rightarrow> Some m)"

definition libpythonRegex :: "bstring \<Rightarrow> (byte \<times> bstring) option" where
  "libpythonRegex s =
     (case List.map_filter (\<lambda>r. map_option (\<lambda>(major, minor, _). (major, minor)) (match_version ''libpython'' r)) (name_starts s) of
        [] \<Rightarrow> None | m # _ \<Rightarrow> Some m)"

text \<open>\<open>ParseUint\<close> for 16 bits gives the largest value when the number does not fit.\<close>

definition parse_u16 :: "bstring \<Rightarrow> u16" where
  "parse_u16 ds = word_of_nat (min 0xffff (foldl (\<lambda>n d. 10 * n + (unat d - 0x30)) 0 ds))"

section \<open>Analysis of a Python executable\<close>

text \<open>The analyses of arm64 code are arguments.\<close>

record armenv =
  ae_decodeStub :: "byte list \<Rightarrow> u64 \<Rightarrow> u64"
  ae_ExtractTLSOffset :: "byte list \<Rightarrow> u64 \<Rightarrow> elf_File \<Rightarrow> (xerr + int32) option"

definition readPyVersionHex :: "nat \<Rightarrow> elf_File \<Rightarrow> ((pyerr + u8 \<times> u8) \<times> elf_File) option" where
  "readPyVersionHex fuel ef = do {
     (r, ef) \<leftarrow> LookupSymbolAddress fuel (ascii ''Py_Version'') ef;
     (case r of
        Inl _ \<Rightarrow> Some (Inl PE_Symbol, ef)
      | Inr addr \<Rightarrow> do {
          versionHex \<leftarrow> rm_Uint32 (GetRemoteMemory ef) addr;
          let major = ucast (drop_bit 24 versionHex AND 0xff);
          let minor = ucast (drop_bit 16 versionHex AND 0xff);
          Some (if major = 0 then Inl PE_Version else Inr (major, minor), ef) }) }"

definition getTLSOffsetFromAssembly :: "nat \<Rightarrow> x86env \<Rightarrow> armenv \<Rightarrow> elf_File \<Rightarrow> ((pyerr + int64) \<times> elf_File) option" where
  "getTLSOffsetFromAssembly fuel xe ae ef = do {
     (r, ef) \<leftarrow> SymbolData fuel (ascii ''_PyThreadState_GetCurrent'') 512 ef;
     (case r of
        Inl _ \<Rightarrow> Some (Inl PE_Symbol, ef)
      | Inr (sy, code) \<Rightarrow> do {
          offset \<leftarrow> (case f_Machine ef of
              EM_AARCH64 \<Rightarrow> ae_ExtractTLSOffset ae code (sym_Address sy) ef
            | EM_X86_64 \<Rightarrow> ExtractTLSOffset xe code (sym_Address sy) None
            | EM_Other _ \<Rightarrow> Some (Inl X_Arch));
          Some (case offset of Inl _ \<Rightarrow> Inl PE_TLS | Inr o32 \<Rightarrow> Inr (scast o32), ef) }) }"

text \<open>The address that a function passes to its first call; it has to lie in the 4096 bytes behind the base if there is one.\<close>

definition stub_value :: "u64 \<Rightarrow> xerr + u64 \<Rightarrow> pyerr + u64" where
  "stub_value memoryBase r =
     (case r of
        Inl _ \<Rightarrow> Inl PE_Stub
      | Inr value \<Rightarrow>
          if value mod 4 \<noteq> 0 then Inl PE_Stub
          else if memoryBase = 0 \<and> value \<noteq> 0 then Inr value
          else if value > memoryBase \<and> value < memoryBase + 4096 then Inr value
          else Inl PE_Stub)"

definition decodeStub :: "nat \<Rightarrow> x86env \<Rightarrow> armenv \<Rightarrow> u64 \<Rightarrow> string \<Rightarrow> elf_File \<Rightarrow> ((pyerr + u64) \<times> elf_File) option" where
  "decodeStub fuel xe ae memoryBase symbolName ef = do {
     (r, ef) \<leftarrow> SymbolData fuel (ascii symbolName) 64 ef;
     (case r of
        Inl _ \<Rightarrow> Some (Inl PE_Symbol, ef)
      | Inr (sy, code) \<Rightarrow>
          (case f_Machine ef of
             EM_AARCH64 \<Rightarrow> Some (stub_value memoryBase (Inr (ae_decodeStub ae code memoryBase)), ef)
           | EM_X86_64 \<Rightarrow> map_option (\<lambda>r. (stub_value memoryBase r, ef)) (decodeStubArgumentAMD64 xe code (sym_Address sy) memoryBase)
           | EM_Other _ \<Rightarrow> Some (Inl PE_Arch, ef))) }"

text \<open>The part of the interpreter loop that the compiler moved away, or no range.\<close>

definition findColdRange :: "x86env \<Rightarrow> IntervalData \<Rightarrow> elf_Machine \<Rightarrow> byte list \<Rightarrow> elf_Symbol \<Rightarrow> (bool \<times> Range) option" where
  "findColdRange xe intervals machine code interp =
     (let none = \<lparr>rg_Start = 0, rg_End = 0\<rparr>
      in if machine \<noteq> EM_X86_64 then Some (True, none)
         else map_option (\<lambda>r. case r of
                Inl _ \<Rightarrow> (False, none)
              | Inr dst \<Rightarrow>
                  if dst = 0 then (True, none)
                  else (case IntervalData_Find intervals dst of
                          Some bb \<Rightarrow> (True, \<lparr>rg_Start = bb_Start bb, rg_End = bb_End bb\<rparr>)
                        | None \<Rightarrow> (False, none))) (FindExternalJump xe code interp))"

definition findInterpreterRanges :: "nat \<Rightarrow> x86env \<Rightarrow> IntervalData \<Rightarrow> elf_File \<Rightarrow> ((pyerr + Range list) \<times> elf_File) option" where
  "findInterpreterRanges fuel xe intervals ef = do {
     (r, ef) \<leftarrow> SymbolData fuel (ascii ''_PyEval_EvalFrameDefault'') 0x20000 ef;
     (r, ef) \<leftarrow> (case r of Inr _ \<Rightarrow> Some (r, ef) | Inl _ \<Rightarrow> SymbolData fuel (ascii ''PyEval_EvalFrameEx'') 0x20000 ef);
     (case r of
        Inl _ \<Rightarrow> Some (Inl PE_Symbol, ef)
      | Inr (interp, code) \<Rightarrow> do {
          (_, coldRange) \<leftarrow> findColdRange xe intervals (f_Machine ef) code interp;
          Some (Inr (\<lparr>rg_Start = sym_Address interp, rg_End = sym_Address interp + sym_Size interp\<rparr> #
                     (if coldRange \<noteq> \<lparr>rg_Start = 0, rg_End = 0\<rparr> then [coldRange] else [])), ef) }) }"

text \<open>The layout that does not come from the executable, by version.\<close>

definition frame_layout :: "u64 \<Rightarrow> u64 \<Rightarrow> u64 \<Rightarrow> u64 \<Rightarrow> u64 \<Rightarrow> vmStruct \<Rightarrow> vmStruct" where
  "frame_layout code lasti back entryMember entryVal s =
     put_field ''EntryVal'' entryVal (put_field ''EntryMember'' entryMember (put_field ''Back'' back (put_field ''LastI'' lasti (put_field ''Code'' code s))))"

definition version_layout :: "pythonData \<Rightarrow> pythonData" where
  "version_layout d =
     (if py_version d = pythonVer 3 11
      then d\<lparr>py_Frame := frame_layout 32 56 48 68 1 (py_Frame d), py_ThreadFrame := 56, py_CurrentFrame := 8\<rparr>
      else if py_version d = pythonVer 3 12
      then d\<lparr>py_Frame := frame_layout 0 56 8 70 3 (py_Frame d), py_ThreadFrame := 56, py_CurrentFrame := 0, py_ASCIIData := 40\<rparr>
      else if py_version d = pythonVer 3 13
      then d\<lparr>py_Frame := frame_layout 0 56 8 70 3 (py_Frame d), py_ThreadFrame := 72, py_CurrentFrame := 0, py_ASCIIData := 40\<rparr>
      else if py_version d = pythonVer 3 14
      then d\<lparr>py_Frame := frame_layout 0 56 8 74 3 (py_Frame d), py_ThreadFrame := 72, py_CurrentFrame := 0, py_ASCIIData := 40\<rparr>
      else d)"

definition initial_data :: "u16 \<Rightarrow> u64 \<Rightarrow> int64 \<Rightarrow> u64 \<Rightarrow> pythonData" where
  "initial_data version autoTLSKey staticTLSOffset noneStruct =
     version_layout \<lparr>py_version = version, py_autoTLSKey = autoTLSKey, py_staticTLSOffset = staticTLSOffset, py_noneStruct = noneStruct,
       py_TypeBasicSize = 32, py_TypeMembers = 240, py_MemberName = 0, py_MemberOffset = 16, py_MemberSizeof = 40,
       py_ASCIIData = 48, py_VarObSize = 16, py_ThreadFrame = 24, py_CurrentFrame = 0,
       py_Code = PyCodeObject_zero, py_Frame = PyFrameObject_zero, py_Bytes = PyBytesObject_zero\<rparr>"

definition read_layouts :: "nat \<Rightarrow> pythonData \<Rightarrow> elf_File \<Rightarrow> ((pyerr + pythonData) \<times> elf_File) option" where
  "read_layouts fuel d ef = do {
     (r, ef) \<leftarrow> readIntrospectionData fuel d ''PyCode_Type'' (py_Code d) ef;
     (case r of
        Inl e \<Rightarrow> Some (Inl e, ef)
      | Inr code \<Rightarrow> do {
          let d = d\<lparr>py_Code := code\<rparr>;
          (r, ef) \<leftarrow> readIntrospectionData fuel d ''PyFrame_Type'' (py_Frame d) ef;
          (case r of
             Inl e \<Rightarrow> Some (Inl e, ef)
           | Inr frame \<Rightarrow> do {
               let d = d\<lparr>py_Frame := frame\<rparr>;
               (r, ef) \<leftarrow> readIntrospectionData fuel d ''PyBytes_Type'' (py_Bytes d) ef;
               Some (map_sum id (\<lambda>bs. d\<lparr>py_Bytes := bs\<rparr>) r, ef) }) }) }"

section \<open>The loader\<close>

text \<open>
  The version of an executable that may be a Python interpreter, and whether it is a program instead of the library; \<open>None\<close>
  inside is a file that is left alone.
\<close>

definition name_version :: "bstring \<Rightarrow> (bool \<times> u16 \<times> u16) option" where
  "name_version fileName =
     (case libpythonRegex fileName of
        Some (major, minor) \<Rightarrow> Some (False, parse_u16 [major], parse_u16 minor)
      | None \<Rightarrow>
          (case pythonRegex fileName of
             Some (major, minor) \<Rightarrow> Some (True, parse_u16 [major], parse_u16 minor)
           | None \<Rightarrow> if take 6 (path_Base (bytes_string fileName)) = ''python'' then Some (True, 0, 0) else None))"

definition file_version :: "nat \<Rightarrow> bool \<Rightarrow> u16 \<Rightarrow> u16 \<Rightarrow> elf_File \<Rightarrow> ((pyerr + u16 option) \<times> elf_File) option" where
  "file_version fuel mainDSO major minor ef = do {
     (v, ef) \<leftarrow> (if major = 0
        then map_option (\<lambda>(r, ef). (case r of Inl _ \<Rightarrow> None | Inr (a, b) \<Rightarrow> Some (ucast a, ucast b), ef)) (readPyVersionHex fuel ef)
        else Some (Some (major, minor), ef));
     (case v of
        None \<Rightarrow> Some (Inr None, ef)
      | Some (major, minor) \<Rightarrow>
          if mainDSO then do {
            r \<leftarrow> DynString DT_NEEDED ef;
            Some (case r of
                    Inl e \<Rightarrow> Inl (PE_ELF e)
                  | Inr needed \<Rightarrow> if \<exists>l \<in> set needed. libpythonRegex l \<noteq> None then Inr None else Inr (Some (pythonVer major minor)), ef) }
          else Some (Inr (Some (pythonVer major minor)), ef)) }"

text \<open>The key of the thread state; the alignment tells the structure around the key from the key.\<close>

definition tls_key :: "nat \<Rightarrow> x86env \<Rightarrow> armenv \<Rightarrow> u16 \<Rightarrow> elf_File \<Rightarrow> ((pyerr + u64) \<times> elf_File) option" where
  "tls_key fuel xe ae version ef = do {
     (r, ef) \<leftarrow> (if version \<ge> pythonVer 3 7 then LookupSymbolAddress fuel (ascii ''_PyRuntime'') ef else Some (Inr 0, ef));
     (case r of
        Inl e \<Rightarrow> Some (Inl (PE_ELF e), ef)
      | Inr pyruntimeAddr \<Rightarrow> do {
          (r, ef) \<leftarrow> decodeStub fuel xe ae pyruntimeAddr ''PyGILState_GetThisThreadState'' ef;
          Some (map_sum id (\<lambda>key. if version \<ge> pythonVer 3 7 \<and> key mod 8 = 0 then key + 4 else key) r, ef) }) }"

text \<open>A failed analysis leaves the offset zero; one that does not fit is an error.\<close>

definition tls_offset :: "nat \<Rightarrow> x86env \<Rightarrow> armenv \<Rightarrow> u16 \<Rightarrow> elf_File \<Rightarrow> ((pyerr + int64) \<times> elf_File) option" where
  "tls_offset fuel xe ae version ef =
     (if version < pythonVer 3 13 then Some (Inr 0, ef)
      else map_option (\<lambda>(r, ef). (case r of
              Inl _ \<Rightarrow> Inr 0
            | Inr off \<Rightarrow> if sint off > 32767 \<or> sint off < - 32768 then Inl PE_TLS else Inr off, ef)) (getTLSOffsetFromAssembly fuel xe ae ef))"

definition load_data :: "nat \<Rightarrow> x86env \<Rightarrow> armenv \<Rightarrow> IntervalData \<Rightarrow> u16 \<Rightarrow> elf_File \<Rightarrow> ((pyerr + pythonData \<times> Range list) \<times> elf_File) option" where
  "load_data fuel xe ae intervals version ef = do {
     (r, ef) \<leftarrow> tls_key fuel xe ae version ef;
     (case r of Inl e \<Rightarrow> Some (Inl e, ef) | Inr autoTLSKey \<Rightarrow> do {
        (r, ef) \<leftarrow> findInterpreterRanges fuel xe intervals ef;
        (case r of Inl e \<Rightarrow> Some (Inl e, ef) | Inr interpRanges \<Rightarrow> do {
           (r, ef) \<leftarrow> tls_offset fuel xe ae version ef;
           (case r of Inl e \<Rightarrow> Some (Inl e, ef) | Inr staticTLSOffset \<Rightarrow> do {
              (r, ef) \<leftarrow> (if version \<ge> pythonVer 3 13 then LookupSymbolAddress fuel (ascii ''_Py_NoneStruct'') ef else Some (Inr 0, ef));
              (case r of Inl e \<Rightarrow> Some (Inl (PE_ELF e), ef) | Inr noneStruct \<Rightarrow> do {
                 (r, ef) \<leftarrow> read_layouts fuel (initial_data version autoTLSKey staticTLSOffset noneStruct) ef;
                 Some (map_sum id (\<lambda>pd. (pd, interpRanges)) r, ef) }) }) }) }) }"

definition ProgUnwindPython :: u16 where "ProgUnwindPython = 2"

text \<open>\<open>Inr None\<close> is an executable that is no Python interpreter.\<close>

definition py_loader ::
  "nat \<Rightarrow> x86env \<Rightarrow> armenv \<Rightarrow> 'm kops \<Rightarrow> bstring \<Rightarrow> elferr + elf_File \<Rightarrow> LoaderInfo \<Rightarrow> 'm impl \<Rightarrow> ((pyerr + pythonData option) \<times> 'm impl) option" where
  "py_loader fuel xe ae k fileName elf info ebpf =
     (case name_version fileName of
        None \<Rightarrow> Some (Inr None, ebpf)
      | Some (mainDSO, major, minor) \<Rightarrow>
          (case elf of
             Inl e \<Rightarrow> Some (Inl (PE_ELF e), ebpf)
           | Inr ef \<Rightarrow> do {
               (r, ef) \<leftarrow> file_version fuel mainDSO major minor ef;
               (case r of
                  Inl e \<Rightarrow> Some (Inl e, ebpf)
                | Inr None \<Rightarrow> Some (Inr None, ebpf)
                | Inr (Some version) \<Rightarrow>
                    if version < pythonVer 3 6 \<or> version > pythonVer 3 14 then Some (Inl PE_Version, ebpf)
                    else do {
                      (r, ef) \<leftarrow> load_data fuel xe ae (li_intervals info) version ef;
                      Some (case r of
                              Inl e \<Rightarrow> (Inl e, ebpf)
                            | Inr (pd, interpRanges) \<Rightarrow>
                                (case UpdateInterpreterOffsets k ProgUnwindPython (li_fileID info) interpRanges ebpf of
                                   (Some _, ebpf) \<Rightarrow> (Inl PE_Map, ebpf)
                                 | (None, ebpf) \<Rightarrow> (Inr (Some pd), ebpf))) }) }))"

end
