(* ===== verification/PyLineProps.thy ===== *)
theory PyLineProps
  imports PyLines
begin

text \<open>
  Correctness of the line numbers of Python code against the formats that CPython documents: tables are lists of entries with an encoding, and
  the walks are compared with the line an entry has. What the walks do differently: an entry without a location, and the second half of a line table.
\<close>

unbundle bit_operations_syntax

section \<open>Numbers of a location table\<close>

function enc_varint :: "nat \<Rightarrow> byte list" where
  "enc_varint n = (if n < 64 then [word_of_nat n] else (word_of_nat (n mod 64) OR 0x40) # enc_varint (n div 64))"
  by pat_completeness auto
termination
  by (relation "measure id") auto

declare enc_varint.simps [simp del]

definition enc_svarint :: "int \<Rightarrow> byte list" where
  "enc_svarint d = enc_varint (if d < 0 then Suc (2 * nat (- d)) else 2 * nat d)"

lemma bit_small: "k < 2 ^ m \<Longrightarrow> bit (k :: nat) n \<Longrightarrow> n < m"
  by (metis bit_take_bit_iff take_bit_nat_eq_self)

lemma low6:
  assumes "k < 64"
  shows "(word_of_nat k :: byte) AND 0x3f = word_of_nat k" "(word_of_nat k :: byte) AND 0x40 = 0" "(word_of_nat k :: byte) AND 0x80 = 0"
    "((word_of_nat k :: byte) OR 0x40) AND 0x3f = word_of_nat k" "((word_of_nat k :: byte) OR 0x40) AND 0x40 \<noteq> 0" "((word_of_nat k :: byte) OR 0x40) AND 0x80 = 0"
proof -
  have b: "\<And>n. bit k n \<Longrightarrow> n < 6" using bit_small [of k 6] assms by simp
  have e: "bit (0x3f :: byte) n \<longleftrightarrow> n < 6" "bit (0x40 :: byte) n \<longleftrightarrow> n = 6" "bit (0x80 :: byte) n \<longleftrightarrow> n = 7" for n
    using bit_mask_iff [of 6 n, where 'a = "8 word"] bit_exp_iff [of 6 n, where 'a = "8 word"] bit_exp_iff [of 7 n, where 'a = "8 word"]
    by (auto simp: mask_eq_exp_minus_1)
  show "(word_of_nat k :: byte) AND 0x3f = word_of_nat k" "(word_of_nat k :: byte) AND 0x40 = 0" "(word_of_nat k :: byte) AND 0x80 = 0"
    "((word_of_nat k :: byte) OR 0x40) AND 0x3f = word_of_nat k" "((word_of_nat k :: byte) OR 0x40) AND 0x80 = 0"
    by (rule bit_word_eqI; simp only: bit_and_iff bit_or_iff bit_of_nat_iff e bit_0_eq bot_apply bot_bool_def; use b in force)+
  have "bit (((word_of_nat k :: byte) OR 0x40) AND 0x40) 6" by (simp add: bit_and_iff bit_or_iff e)
  then show "((word_of_nat k :: byte) OR 0x40) AND 0x40 \<noteq> 0" by (metis bit_0_eq bot_apply bot_bool_def)
qed

lemma ucast_byte_of_nat: "k < 256 \<Longrightarrow> (ucast (word_of_nat k :: byte) :: 'a::len word) = word_of_nat k"
  by (simp add: unsigned_of_nat take_bit_nat_eq_self)

lemma split6: "(word_of_nat (n mod 64) :: u32) OR push_bit 6 (word_of_nat (n div 64)) = word_of_nat n"
proof -
  have "take_bit 6 n OR push_bit 6 (drop_bit 6 n) = n" 
  proof (rule bit_eqI)
    fix i
    show "bit (take_bit 6 n OR push_bit 6 (drop_bit 6 n)) i \<longleftrightarrow> bit n i" by (cases "i < 6") (auto simp: bit_or_iff bit_take_bit_iff bit_push_bit_iff bit_drop_bit_eq)
  qed
  then have "n mod 64 OR push_bit 6 (n div 64) = n" by (simp add: take_bit_eq_mod drop_bit_eq_div)
  then have "(word_of_nat (n mod 64 OR push_bit 6 (n div 64)) :: u32) = word_of_nat n" by simp
  then show ?thesis by (simp add: of_nat_or_eq of_nat_push_bit)
qed

lemma readVarint_loop_enc: "readVarint_loop s v (enc_varint n @ r) = (v OR push_bit s (word_of_nat n), r)"
proof (induction n arbitrary: s v rule: enc_varint.induct)
  case (1 n)
  show ?case
  proof (cases "n < 64")
    case True
    then show ?thesis using low6 [OF True] ucast_byte_of_nat [of n, where 'a = 32] by (subst enc_varint.simps) simp
  next
    case False
    have m: "n mod 64 < 64" by simp
    have "readVarint_loop s v (enc_varint n @ r) = readVarint_loop (s + 6) (v OR push_bit s (word_of_nat (n mod 64))) (enc_varint (n div 64) @ r)"
      using False low6 [OF m] ucast_byte_of_nat [of "n mod 64", where 'a = 32] by (subst enc_varint.simps) (simp add: Let_def)
    also have "\<dots> = (v OR push_bit s (word_of_nat (n mod 64)) OR push_bit (s + 6) (word_of_nat (n div 64)), r)" using 1 [OF False] by (simp add: or.assoc)
    also have "push_bit (s + 6) (word_of_nat (n div 64) :: u32) = push_bit s (push_bit 6 (word_of_nat (n div 64)))" by (simp add: push_bit_push_bit add.commute)
    finally show ?thesis using arg_cong [OF split6 [of n], of "push_bit s"] by (simp only: or.assoc push_bit_or)
  qed
qed

lemma readVarint_enc [simp]: "readVarint (enc_varint n @ r) = (word_of_nat n, r)"
  by (simp add: readVarint_def readVarint_loop_enc)

lemma skip_varint_enc [simp]: "skip_varint (enc_varint n @ r) = r" by (simp add: skip_varint_def)

lemma readSignedVarint_enc:
  assumes "\<bar>d\<bar> < 2 ^ 30"
  shows "readSignedVarint (enc_svarint d @ r) = (word_of_int d, r)"
proof -
  define n where "n = nat \<bar>d\<bar>"
  have n: "n < 2 ^ 30" using assms by (simp add: n_def)
  have "drop_bit 1 (word_of_nat k :: u32) = word_of_nat (k div 2)" if "k < 2 ^ 32" for k
  proof (rule bit_word_eqI)
    fix i
    show "bit (drop_bit 1 (word_of_nat k :: u32)) i \<longleftrightarrow> bit (word_of_nat (k div 2) :: u32) i"
      using bit_small [of k 32 "Suc i"] that by (auto simp: bit_simps bit_Suc [symmetric])
  qed
  moreover have "(word_of_nat k :: u32) AND 1 \<noteq> 0 \<longleftrightarrow> odd k" for k by (simp add: and_one_eq odd_iff_mod_2_eq_one flip: even_iff_mod_2_eq_zero)
  moreover obtain k where "k < 2 ^ 32" "k div 2 = n" "odd k \<longleftrightarrow> d < 0" "enc_svarint d = enc_varint k"
  proof (rule that)
    let ?k = "if d < 0 then Suc (2 * n) else 2 * n"
    show "?k < 2 ^ 32" "?k div 2 = n" "odd ?k \<longleftrightarrow> d < 0" using n by auto
    show "enc_svarint d = enc_varint ?k" by (simp add: enc_svarint_def n_def)
  qed
  moreover have "word_of_int d = (if d < 0 then - word_of_nat n else word_of_nat n :: int32)" by (simp add: n_def)
  ultimately show ?thesis by (simp add: readSignedVarint_def)
qed

section \<open>Location table\<close>

text \<open>The entries of a table, each with its length in code units.\<close>

datatype location = Short nat byte | OneLine nat byte byte | NoColumns int | Long int nat nat nat | NoLocation

fun location_code :: "location \<Rightarrow> nat" where
  "location_code (Short c _) = c"
| "location_code (OneLine n _ _) = 10 + n"
| "location_code (NoColumns _) = 13"
| "location_code (Long _ _ _ _) = 14"
| "location_code NoLocation = 15"

fun location_payload :: "location \<Rightarrow> byte list" where
  "location_payload (Short _ b) = [b]"
| "location_payload (OneLine _ b c) = [b, c]"
| "location_payload (NoColumns d) = enc_svarint d"
| "location_payload (Long d a b c) = enc_svarint d @ enc_varint a @ enc_varint b @ enc_varint c"
| "location_payload NoLocation = []"

fun line_delta :: "location \<Rightarrow> int" where
  "line_delta (OneLine n _ _) = int n"
| "line_delta (NoColumns d) = d"
| "line_delta (Long d _ _ _) = d"
| "line_delta _ = 0"

definition encode_location :: "location \<times> nat \<Rightarrow> byte list" where
  "encode_location e = word_of_nat (128 + 8 * location_code (fst e) + (snd e - 1)) # location_payload (fst e)"

fun location_ok :: "location \<times> nat \<Rightarrow> bool" where
  "location_ok (k, n) \<longleftrightarrow> 1 \<le> n \<and> n \<le> 8 \<and> (case k of Short c _ \<Rightarrow> c \<le> 9 | OneLine m _ _ \<Rightarrow> m \<le> 2 | _ \<Rightarrow> \<bar>line_delta k\<bar> < 2 ^ 30)"

text \<open>The line at an index, as CPython defines it: an entry without a location has none, and leaves the line as it is.\<close>

fun py_line :: "int \<Rightarrow> nat \<Rightarrow> (location \<times> nat) list \<Rightarrow> int option" where
  "py_line line bci [] = None"
| "py_line line bci ((k, n) # es) =
     (if bci < n then (if k = NoLocation then None else Some (line + line_delta k)) else py_line (line + line_delta k) (bci - n) es)"

lemma byte_parts:
  fixes w :: byte
  assumes "unat w = 128 + 8 * c + m" "c \<le> 15" "m \<le> 7"
  shows "w AND 0x80 \<noteq> 0" "drop_bit 3 w AND 15 = word_of_nat c" "w AND 7 = word_of_nat m"
proof -
  have "(128 + 8 * c + m) div 128 = 1" using assms(2,3) by (intro div_nat_eqI) auto
  then have "bit (unat w) 7" using assms(1) by (simp add: bit_iff_odd)
  then have "bit w 7" by (simp add: bit_unsigned_iff)
  then show "w AND 0x80 \<noteq> 0" using and_exp_eq_0_iff_not_bit [of w 7] by simp
  have "drop_bit 3 w AND 15 = take_bit 4 (drop_bit 3 w)" by (simp add: take_bit_eq_mask mask_eq_exp_minus_1)
  moreover have "unat (take_bit 4 (drop_bit 3 w)) = c" 
  proof -
    have "(128 + 8 * c + m) div 8 = 16 + c" using assms(3) by (intro div_nat_eqI) auto
    then have "(128 + 8 * c + m) div 8 mod 16 = c" using assms(2) by simp
    moreover have "unat (take_bit 4 (drop_bit 3 w)) = unat w div 8 mod 16" by (simp add: take_bit_eq_mod drop_bit_eq_div unat_mod unat_div)
    ultimately show ?thesis using assms(1) by simp
  qed
  ultimately show "drop_bit 3 w AND 15 = word_of_nat c" by (metis of_nat_unat ucast_id)
  have "w AND 7 = take_bit 3 w" by (simp add: take_bit_eq_mask mask_eq_exp_minus_1)
  moreover have "unat (take_bit 3 w) = m" 
  proof -
    have "(128 + 8 * c + m) mod 8 = m" using mod_mult_self1 [of m "16 + c" 8] assms(3) by (simp add: ac_simps)
    moreover have "unat (take_bit 3 w) = unat w mod 8" by (simp add: take_bit_eq_mod unat_mod)
    ultimately show ?thesis using assms(1) by simp
  qed
  ultimately show "w AND 7 = word_of_nat m" by (metis of_nat_unat ucast_id)
qed

definition new_line :: "location \<Rightarrow> int \<Rightarrow> int" where "new_line k line = (if k = NoLocation then - 1 else line + line_delta k)"

lemma location_entry_reads:
  assumes "location_ok (k, n)"
  shows "location_entry (word_of_nat (location_code k)) (word_of_int line) (location_payload k @ r) = (word_of_int (new_line k line), r)"
proof (cases k)
  case (Short c b)
  then have "(word_of_nat c :: byte) \<le> 9" using assms by (simp add: word_le_nat_alt unat_of_nat)
  then show ?thesis using Short by (simp add: location_entry_def skip_byte_def new_line_def)
next
  case (OneLine m b c)
  then consider "m = 0" | "m = 1" | "m = 2" using assms by fastforce
  then show ?thesis using OneLine by cases (simp_all add: location_entry_def skip_byte_def new_line_def)
next
  case (NoColumns d)
  then show ?thesis using assms readSignedVarint_enc [of d r] by (simp add: location_entry_def new_line_def)
next
  case (Long d a b c)
  then show ?thesis using assms readSignedVarint_enc [of d "enc_varint a @ enc_varint b @ enc_varint c @ r"] by (simp add: location_entry_def new_line_def)
next
  case NoLocation
  then show ?thesis by (simp add: location_entry_def new_line_def)
qed

lemma location_loop_entry:
  assumes "location_ok (k, n)" "cur \<le> bci" "bci < 2 ^ 32" "cur + n < 2 ^ 32"
  shows "location_loop (word_of_nat bci) (word_of_nat cur) (word_of_int line) (encode_location (k, n) @ r) =
    location_loop (word_of_nat bci) (word_of_nat (cur + n)) (word_of_int (new_line k line)) r"
proof -
  define w where "w = (word_of_nat (128 + 8 * location_code k + (n - 1)) :: byte)"
  have c: "location_code k \<le> 15" "n - 1 \<le> 7" "1 \<le> n" using assms(1) by (auto split: location.splits)
  then have "unat w = 128 + 8 * location_code k + (n - 1)" unfolding w_def by (subst unat_of_nat) simp
  note p = byte_parts [OF this c(1,2)]
  have enc: "encode_location (k, n) = w # location_payload k" by (simp only: encode_location_def w_def fst_conv snd_conv)
  have "ucast (w AND 7) + 1 = (word_of_nat n :: u32)" using p(3) c(2,3) ucast_byte_of_nat [of "n - 1", where 'a = 32] by (simp add: of_nat_diff)
  moreover have "(word_of_nat cur :: u32) \<le> word_of_nat bci" using assms(2,3) by (simp add: word_le_nat_alt unat_of_nat)
  ultimately show ?thesis using p(1,2) location_entry_reads [OF assms(1), of line r]
    enc by (subst location_loop.simps) simp
qed

text \<open>
  The index is covered, and no entry up to the one that covers it lacks a location or has a line that does not fit.
  What comes behind that entry is free.
\<close>

fun located :: "int \<Rightarrow> nat \<Rightarrow> (location \<times> nat) list \<Rightarrow> bool" where
  "located line bci [] \<longleftrightarrow> False"
| "located line bci ((k, n) # es) \<longleftrightarrow> k \<noteq> NoLocation \<and> 0 \<le> line + line_delta k \<and> line + line_delta k < 2 ^ 31 \<and>
     (bci < n \<or> located (line + line_delta k) (bci - n) es)"

lemma location_loop_done:
  assumes "bci < cur" "cur < 2 ^ 32"
  shows "location_loop (word_of_nat bci) (word_of_nat cur) line r = (if sint line < 0 then 0 else line)"
proof -
  have "\<not> (word_of_nat cur :: u32) \<le> word_of_nat bci" using assms by (simp add: word_le_nat_alt unat_of_nat)
  then show ?thesis by (subst location_loop.simps) simp
qed

lemma sint_line: "0 \<le> line \<Longrightarrow> line < 2 ^ 31 \<Longrightarrow> sint (word_of_int line :: int32) = line"
  by (simp add: signed_of_int signed_take_bit_int_eq_self)

lemma location_loop_line:
  "list_all location_ok es \<Longrightarrow> located line (bci - cur) es \<Longrightarrow> cur + sum_list (map snd es) < 2 ^ 32 \<Longrightarrow> cur \<le> bci \<Longrightarrow> bci < 2 ^ 32 \<Longrightarrow>
     \<exists>v. py_line line (bci - cur) es = Some v \<and> location_loop (word_of_nat bci) (word_of_nat cur) (word_of_int line) (concat (map encode_location es) @ r) = word_of_int v"
proof (induction es arbitrary: line cur)
  case (Cons e es)
  obtain k n where e: "e = (k, n)" by fastforce
  have ok: "location_ok (k, n)" "k \<noteq> NoLocation" "0 \<le> line + line_delta k" "line + line_delta k < 2 ^ 31" using Cons.prems(1,2) by (simp_all add: e)
  have b: "cur + n < 2 ^ 32" using Cons.prems(3) by (simp add: e)
  let ?r = "concat (map encode_location es) @ r"
  have l: "location_loop (word_of_nat bci) (word_of_nat cur) (word_of_int line) (concat (map encode_location (e # es)) @ r) =
    location_loop (word_of_nat bci) (word_of_nat (cur + n)) (word_of_int (line + line_delta k)) ?r"
    using location_loop_entry [OF ok(1) Cons.prems(4,5) b, of line ?r] ok(2) by (simp add: e new_line_def)
  show ?case
  proof (cases "bci < cur + n")
    case True
    then show ?thesis using l location_loop_done [OF True b] ok sint_line [OF ok(3,4)] Cons.prems(4) by (auto simp: e)
  next
    case False
    then have n: "\<not> bci - cur < n" "bci - cur - n = bci - (cur + n)" using Cons.prems(4) by simp_all
    have "\<exists>v. py_line (line + line_delta k) (bci - (cur + n)) es = Some v \<and>
        location_loop (word_of_nat bci) (word_of_nat (cur + n)) (word_of_int (line + line_delta k)) ?r = word_of_int v"
      using Cons.prems False n by (intro Cons.IH) (simp_all add: e)
    then show ?thesis using l n by (auto simp: e)
  qed
qed simp

lemma covered_below: "located line bci es \<Longrightarrow> bci < sum_list (map snd es)"
  by (induction line bci es rule: located.induct) auto

text \<open>
  On a location table as CPython 3.11 and later write it the walk gives the line of the entry that covers the index, relative to the first line of the
  function, provided that no entry up to that one is without a location.
\<close>

theorem walkLocationTable_line:
  assumes "list_all location_ok es" "sum_list (map snd es) < 2 ^ 32" "located 0 bci es"
  shows "\<exists>v. py_line 0 bci es = Some v \<and> walkLocationTable (concat (map encode_location es) @ r) (word_of_nat bci) = word_of_int v"
  using location_loop_line [of es 0 bci 0 r] covered_below [OF assms(3)] assms by (simp add: walkLocationTable_def)

theorem walkLocationTable_line_witness:
  "walkLocationTable (concat (map encode_location [(Short 3 7, 2), (OneLine 2 1 9, 4), (NoColumns (- 1), 1), (Long 70 1 100 2, 3)]) @ []) 8 = 71"
proof -
  let ?es = "[(Short 3 7, 2), (OneLine 2 1 9, 4), (NoColumns (- 1), 1), (Long 70 1 100 2, 3)] :: (location \<times> nat) list"
  have "list_all location_ok ?es" "sum_list (map snd ?es) < 2 ^ 32" "located 0 8 ?es" "py_line 0 8 ?es = Some 71" by simp_all
  with walkLocationTable_line [of ?es 8 "[]"] show ?thesis by simp
qed

lemma location_loop_skip:
  "list_all location_ok es \<Longrightarrow> cur + sum_list (map snd es) < 2 ^ 32 \<Longrightarrow> cur + sum_list (map snd es) \<le> bci \<Longrightarrow> bci < 2 ^ 32 \<Longrightarrow>
     \<exists>line'. location_loop (word_of_nat bci) (word_of_nat cur) (word_of_int line) (concat (map encode_location es) @ r) =
       location_loop (word_of_nat bci) (word_of_nat (cur + sum_list (map snd es))) (word_of_int line') r"
proof (induction es arbitrary: line cur)
  case Nil
  then show ?case by auto
next
  case (Cons e es)
  obtain k n where e: "e = (k, n)" by fastforce
  let ?r = "concat (map encode_location es) @ r"
  have "location_loop (word_of_nat bci) (word_of_nat cur) (word_of_int line) (concat (map encode_location (e # es)) @ r) =
    location_loop (word_of_nat bci) (word_of_nat (cur + n)) (word_of_int (new_line k line)) ?r"
    using location_loop_entry [of k n cur bci line ?r] Cons.prems by (simp add: e)
  moreover obtain line' where "location_loop (word_of_nat bci) (word_of_nat (cur + n)) (word_of_int (new_line k line)) ?r =
      location_loop (word_of_nat bci) (word_of_nat (cur + n + sum_list (map snd es))) (word_of_int line') r"
    using Cons.IH [of "cur + n" "new_line k line"] Cons.prems by (auto simp: e)
  ultimately show ?case by (auto simp: e add.assoc)
qed

text \<open>
  An entry without a location sets the line to -1 for all that follows it: the line behind such an entry does not depend on the lines before it, and is one
  less than the difference the entry after it has. By the format, the entry leaves the line as it is.
\<close>

theorem no_location_loses_line:
  assumes "list_all location_ok es" "location_ok (NoLocation, m)" "location_ok (k, n)" "k \<noteq> NoLocation" "0 < line_delta k" "sum_list (map snd es) + m + n < 2 ^ 32"
  shows "walkLocationTable (concat (map encode_location (es @ [(NoLocation, m), (k, n)])) @ r) (word_of_nat (sum_list (map snd es) + m)) = word_of_int (line_delta k - 1)"
proof -
  let ?s = "sum_list (map snd es)" and ?b = "word_of_nat (sum_list (map snd es) + m) :: u32"
  have m: "1 \<le> m" "1 \<le> n" "line_delta k < 2 ^ 31" using assms(2,3) by (auto split: location.splits)
  obtain line where "walkLocationTable (concat (map encode_location (es @ [(NoLocation, m), (k, n)])) @ r) ?b =
      location_loop ?b (word_of_nat ?s) (word_of_int line) (encode_location (NoLocation, m) @ encode_location (k, n) @ r)"
    using location_loop_skip [of es 0 "?s + m" 0 "encode_location (NoLocation, m) @ encode_location (k, n) @ r"] assms(1,6) by (auto simp: walkLocationTable_def)
  also have "\<dots> = location_loop ?b (word_of_nat (?s + m)) (word_of_int (- 1)) (encode_location (k, n) @ r)"
    using location_loop_entry [OF assms(2), of ?s "?s + m" line "encode_location (k, n) @ r"] assms(6) by (simp add: new_line_def)
  also have "\<dots> = location_loop ?b (word_of_nat (?s + m + n)) (word_of_int (line_delta k - 1)) r"
    using location_loop_entry [OF assms(3), of "?s + m" "?s + m" "- 1" r] assms(4,6) by (simp add: new_line_def)
  also have "\<dots> = word_of_int (line_delta k - 1)"
    using location_loop_done [of "?s + m" "?s + m + n"] assms(5,6) m sint_line [of "line_delta k - 1"] by simp
  finally show ?thesis .
qed

theorem no_location_loses_line_witness:
  "walkLocationTable (concat (map encode_location ([(NoColumns 50, 2)] @ [(NoLocation, 1), (OneLine 1 0 0, 1)])) @ []) 3 = 0 \<and>
     py_line 0 3 [(NoColumns 50, 2), (NoLocation, 1), (OneLine 1 0 0, 1)] = Some 51"
  using no_location_loses_line [of "[(NoColumns 50, 2)]" 1 "OneLine 1 0 0" 1 "[]"] by simp

section \<open>Line table\<close>

text \<open>The bytes of a table that the loop can read: those of half of the entries, rounded up.\<close>

definition bytes_read :: "byte list \<Rightarrow> nat" where "bytes_read t = 2 * ((length t div 2 + 1) div 2)"

lemma linetable_loop_prefix:
  assumes "length t' = length t" "take (bytes_read t) t' = take (bytes_read t) t"
  shows "even i \<Longrightarrow> linetable_loop t' addrq i s = linetable_loop t addrq i s"
proof (induction "length t - i" arbitrary: i s rule: less_induct)
  case less
  show ?case
  proof (cases "i < length t div 2")
    case False
    then show ?thesis using assms(1) by (subst (1 2) linetable_loop.simps) simp
  next
    case True
    have "i + 1 < 2 * ((h + 1) div 2)" if "i < h" for h using that less.prems by presburger
    then have "i + 1 < bytes_read t" using True by (simp add: bytes_read_def)
    then have "t' ! i = t ! i" "t' ! (i + 1) = t ! (i + 1)" using assms(2) by (metis add_lessD1 nth_take, metis nth_take)
    moreover have "linetable_loop t' addrq (i + 2) s = linetable_loop t addrq (i + 2) s" for s
      using less.hyps [of "i + 2"] less.prems True by simp
    ultimately show ?thesis using True assms(1) by (subst (1 2) linetable_loop.simps) (simp split: sum.split)
  qed
qed

text \<open>
  The walk over a line table of Python 3.10 depends on the first half of the entries only (rounded up when their number is odd): tables of the same
  length that agree there give the same line at every address, whatever the entries behind say.
\<close>

theorem second_half_unread:
  assumes "length t' = length t" "take (bytes_read t) t' = take (bytes_read t) t"
  shows "walkLineTable t' addrq = walkLineTable t addrq"
  using linetable_loop_prefix [OF assms, of 0] by (simp add: walkLineTable_def)

text \<open>Four entries of four bytes of code each; at address ten, in the third, the line is that of a table whose third and fourth entry are empty.\<close>

theorem second_half_unread_witness: "walkLineTable [4, 1, 4, 1, 4, 1, 4, 1] 10 = walkLineTable [4, 1, 4, 1, 0, 0, 0, 0] 10"
  using second_half_unread [of "[4, 1, 4, 1, 4, 1, 4, 1]" "[4, 1, 4, 1, 0, 0, 0, 0]" 10] by (simp add: bytes_read_def)

section \<open>Line number table\<close>

text \<open>The line at an index: the sum of the differences of the entries that start at or before it.\<close>

fun lnotab_line :: "nat \<Rightarrow> (nat \<times> int) list \<Rightarrow> int" where
  "lnotab_line bci [] = 0"
| "lnotab_line bci ((a, d) # es) = (if a > bci then 0 else d + lnotab_line (bci - a) es)"

definition encode_lnotab :: "(nat \<times> int) list \<Rightarrow> byte list" where
  "encode_lnotab es = concat (map (\<lambda>(a, d). [word_of_nat a, word_of_int d]) es)"

lemma uint_byte_of_int: "uint (word_of_int d :: byte) = d mod 256"
proof -
  have "LENGTH(8) = 8" by simp
  then have "uint (word_of_int d :: byte) = d mod 2 ^ 8" by (metis uint_word_of_int)
  also have "(2 :: int) ^ 8 = 256" by simp
  finally show ?thesis .
qed

lemma signed_byte: "- 128 \<le> d \<Longrightarrow> d < 128 \<Longrightarrow>
  (if (word_of_int d :: byte) \<ge> 0x80 then lineno + ucast (word_of_int d :: byte) - 0x100 else lineno + ucast (word_of_int d :: byte)) = (lineno + word_of_int d :: u32)"
proof -
  assume d: "- 128 \<le> d" "d < 128"
  have m: "d mod 256 = (if d < 0 then d + 256 else d)"
  proof (cases "d < 0")
    case True
    have "(d + 256) mod 256 = d + 256" using d True by (intro mod_pos_pos_trivial) simp_all
    then show ?thesis using True by (simp only: mod_add_self2 if_True)
  next
    case False
    then show ?thesis using d by (simp only: if_False) (intro mod_pos_pos_trivial, simp_all)
  qed
  have u: "uint (word_of_int d :: byte) = (if d < 0 then d + 256 else d)"
    using m by (simp only: uint_byte_of_int)
  have c: "ucast (word_of_int d :: byte) = (word_of_int (if d < 0 then d + 256 else d) :: u32)" by (simp only: ucast_eq u)
  have g: "(word_of_int d :: byte) \<ge> 0x80 \<longleftrightarrow> d < 0"
    unfolding word_le_def u using d by simp
  show ?thesis unfolding g c by simp
qed

lemma lnotab_loop_line:
  "list_all (\<lambda>(a, d). a < 256 \<and> - 128 \<le> d \<and> d < 128) es \<Longrightarrow> cur + sum_list (map fst es) < 2 ^ 64 \<Longrightarrow> cur \<le> unat bci \<Longrightarrow>
     lnotab_loop bci (word_of_nat cur) lineno (encode_lnotab es) = Some (lineno + word_of_int (lnotab_line (unat bci - cur) es))"
proof (induction es arbitrary: cur lineno)
  case Nil
  then show ?case by (simp add: encode_lnotab_def)
next
  case (Cons e es)
  obtain a d where e: "e = (a, d)" by fastforce
  have b: "a < 256" "- 128 \<le> d" "d < 128" "cur + a < 2 ^ 64" using Cons.prems by (simp_all add: e)
  have s: "(word_of_nat cur :: u64) + ucast (word_of_nat a :: byte) = word_of_nat (cur + a)" using b(1) by (simp add: unsigned_of_nat take_bit_nat_eq_self)
  have g: "(word_of_nat (cur + a) :: u64) > ucast bci \<longleftrightarrow> cur + a > unat bci"
    using b(4) unsigned_less [of bci, where 'a = nat] by (simp add: word_less_nat_alt unat_of_nat unsigned_ucast_eq take_bit_nat_eq_self del: of_nat_add)
  show ?case
  proof (cases "cur + a > unat bci")
    case True
    then have "unat bci - cur < a" using Cons.prems(3) by linarith
    then show ?thesis using s g True by (simp add: e encode_lnotab_def Let_def)
  next
    case False
    then have "lnotab_loop bci (word_of_nat (cur + a)) (lineno + word_of_int d) (encode_lnotab es) =
        Some (lineno + word_of_int d + word_of_int (lnotab_line (unat bci - (cur + a)) es))"
      using Cons.prems by (intro Cons.IH) (simp_all add: e)
    then show ?thesis using s g False signed_byte [OF b(2,3), of lineno] Cons.prems(3) by (auto simp: e encode_lnotab_def Let_def)
  qed
qed

text \<open>C33: On a line number table of a Python before 3.10 the walk gives the line that the table defines.\<close>

theorem lnotab_lines:
  assumes "list_all (\<lambda>(a, d). a < 256 \<and> - 128 \<le> d \<and> d < 128) es" "sum_list (map fst es) < 2 ^ 64"
  shows "mapByteCodeIndexToLine (encode_lnotab es) bci = Some (word_of_int (lnotab_line (unat bci) es))"
  using lnotab_loop_line [of es 0 bci 0] assms by (simp add: mapByteCodeIndexToLine_def)

theorem lnotab_lines_witness: "mapByteCodeIndexToLine (encode_lnotab [(6, 1), (4, - 3), (2, 9)]) 11 = Some (word_of_int (- 2))"
  using lnotab_lines [of "[(6, 1), (4, - 3), (2, 9)]" 11] by simp

end
